(* ===== verification/Prelude.thy ===== *)
theory Prelude
  imports Complex_Main
begin

text \<open>
  Shared vocabulary of the development: the errors that cross application boundaries
  (\<open>src/novelwiki/kernel/errors.py\<close> and the Python exceptions the modelled code raises),
  results as sums, database tables as lists of rows with the SQL statements the repositories
  issue (\<open>UPDATE ... WHERE\<close>, \<open>DELETE ... WHERE\<close>, \<open>SELECT ... ORDER BY ... LIMIT 1\<close>), Python
  strings restricted to code points below 256, Python floats with their non-finite values, and
  the generic lemmas the component theories use.
\<close>

section \<open>Lemma collections\<close>

named_theorems sql \<open>rewriting facts about tables\<close>
named_theorems py \<open>rewriting facts about Python values\<close>

section \<open>Errors and results\<close>

text \<open>
  The application errors of \<open>kernel/errors.py\<close>, then the built-in and adapter exceptions that the
  modelled operations raise. A constructor carries the message of the exception.
\<close>

datatype py_error =
    NotFound string
  | Forbidden string
  | Conflict string
  | ValidationFailed string
  | InvalidOperation string
  | QuotaExceeded string
  | ProviderUnavailable string
  | RateLimited string "int option"
  | JobAlreadyActive string
  | ValueError string
  | RuntimeError string
  | LookupError string
  | ActiveJobLimitError string
  | BackendPolicyChangedError string
  | DatabaseError string
  | AttributeError string
  | TypeError string
  | SourceChangedError string
  | ImportRequestError nat string
  | NotImplementedError string
  | FileNotFoundError string

type_synonym 'a result = "py_error + 'a"

text \<open>
  Which errors the callers that catch \<open>Conflict\<close> also catch: the subclass relation of the kernel.
\<close>

fun is_conflict :: "py_error \<Rightarrow> bool" where
  "is_conflict (Conflict _) = True"
| "is_conflict (JobAlreadyActive _) = True"
| "is_conflict _ = False"

definition bindE :: "'a result \<Rightarrow> ('a \<Rightarrow> 'b result) \<Rightarrow> 'b result" where
  "bindE m f = (case m of Inl e \<Rightarrow> Inl e | Inr x \<Rightarrow> f x)"

definition ensure :: "bool \<Rightarrow> py_error \<Rightarrow> unit result" where
  "ensure c e = (if c then Inr () else Inl e)"

lemma bindE_simps [simp]:
  "bindE (Inl e) f = Inl e"
  "bindE (Inr x) f = f x"
  by (simp_all add: bindE_def)

lemma bindE_Inr_iff: "bindE m f = Inr y \<longleftrightarrow> (\<exists>x. m = Inr x \<and> f x = Inr y)"
  by (cases m) auto

lemma bindE_Inl_iff: "bindE m f = Inl e \<longleftrightarrow> m = Inl e \<or> (\<exists>x. m = Inr x \<and> f x = Inl e)"
  by (cases m) auto

lemma ensure_Inr_iff [simp]: "ensure c e = Inr u \<longleftrightarrow> c"
  by (simp add: ensure_def)

lemma ensure_Inl_iff [simp]: "ensure c e = Inl e' \<longleftrightarrow> \<not> c \<and> e = e'"
  by (auto simp: ensure_def)

lemmas result_iffs = bindE_Inr_iff bindE_Inl_iff

section \<open>Operations over a store\<close>

text \<open>
  An operation maps a store to its result and the new store. A raise keeps the writes made before
  it (each statement outside a transaction commits by itself); \<open>atomicS\<close> is a transaction, which
  rolls back when its body raises.
\<close>

type_synonym ('s, 'a) op = "'s \<Rightarrow> 'a result \<times> 's"

definition returnS :: "'a \<Rightarrow> ('s, 'a) op" where
  "returnS x s = (Inr x, s)"

definition raiseS :: "py_error \<Rightarrow> ('s, 'a) op" where
  "raiseS e s = (Inl e, s)"

definition bindS :: "('s, 'a) op \<Rightarrow> ('a \<Rightarrow> ('s, 'b) op) \<Rightarrow> ('s, 'b) op" where
  "bindS m f s = (case m s of (Inl e, s') \<Rightarrow> (Inl e, s') | (Inr x, s') \<Rightarrow> f x s')"

definition catchS :: "('s, 'a) op \<Rightarrow> (py_error \<Rightarrow> ('s, 'a) op) \<Rightarrow> ('s, 'a) op" where
  "catchS m h s = (case m s of (Inl e, s') \<Rightarrow> h e s' | (Inr x, s') \<Rightarrow> (Inr x, s'))"

definition liftS :: "'a result \<Rightarrow> ('s, 'a) op" where
  "liftS r s = (r, s)"

definition atomicS :: "('s, 'a) op \<Rightarrow> ('s, 'a) op" where
  "atomicS m s = (case m s of (Inl e, _) \<Rightarrow> (Inl e, s) | (Inr x, s') \<Rightarrow> (Inr x, s'))"

text \<open>
  \<open>keeps I m\<close>: the operation keeps the invariant, whether it returns or raises. The rules below
  reduce an operation to its primitive steps.
\<close>

definition keeps :: "('s \<Rightarrow> bool) \<Rightarrow> ('s, 'a) op \<Rightarrow> bool" where
  "keeps I m \<longleftrightarrow> (\<forall>s. I s \<longrightarrow> I (snd (m s)))"

named_theorems keeps_rules \<open>introduction rules for invariants of operations\<close>

lemma keepsD: "keeps I m \<Longrightarrow> I s \<Longrightarrow> I (snd (m s))"
  by (simp add: keeps_def)

lemma keeps_returnS [keeps_rules]: "keeps I (returnS x)"
  by (simp add: keeps_def returnS_def)

lemma keeps_raiseS [keeps_rules]: "keeps I (raiseS e)"
  by (simp add: keeps_def raiseS_def)

lemma keeps_liftS [keeps_rules]: "keeps I (liftS r)"
  by (simp add: keeps_def liftS_def)

lemma keeps_bindS [keeps_rules]: "keeps I m \<Longrightarrow> (\<And>x. keeps I (f x)) \<Longrightarrow> keeps I (bindS m f)"
  by (auto simp: keeps_def bindS_def split: prod.splits sum.splits)

lemma keeps_catchS [keeps_rules]: "keeps I m \<Longrightarrow> (\<And>e. keeps I (h e)) \<Longrightarrow> keeps I (catchS m h)"
  by (auto simp: keeps_def catchS_def split: prod.splits sum.splits)

lemma keeps_atomicS [keeps_rules]: "keeps I m \<Longrightarrow> keeps I (atomicS m)"
  by (auto simp: keeps_def atomicS_def split: prod.splits sum.splits)

lemma keeps_if [keeps_rules]: "(c \<Longrightarrow> keeps I m) \<Longrightarrow> (\<not> c \<Longrightarrow> keeps I n) \<Longrightarrow> keeps I (if c then m else n)"
  by simp

lemma keeps_case_option [keeps_rules]:
  "(x = None \<Longrightarrow> keeps I m) \<Longrightarrow> (\<And>v. x = Some v \<Longrightarrow> keeps I (f v)) \<Longrightarrow>
   keeps I (case x of None \<Rightarrow> m | Some v \<Rightarrow> f v)"
  by (cases x) auto

lemma bindS_Inr: "m s = (Inr x, s') \<Longrightarrow> bindS m f s = f x s'"
  by (simp add: bindS_def)

lemma bindS_Inl: "m s = (Inl e, s') \<Longrightarrow> bindS m f s = (Inl e, s')"
  by (simp add: bindS_def)

lemma bindS_InrE:
  assumes "bindS m f s = (Inr y, s')"
  obtains x s1 where "m s = (Inr x, s1)" "f x s1 = (Inr y, s')"
  using assms by (auto simp: bindS_def split: prod.splits sum.splits)

lemma returnS_apply [simp]: "returnS x s = (Inr x, s)"
  by (simp add: returnS_def)

lemma raiseS_apply [simp]: "raiseS e s = (Inl e, s)"
  by (simp add: raiseS_def)

lemma liftS_apply [simp]: "liftS r s = (r, s)"
  by (simp add: liftS_def)

section \<open>Tables\<close>

text \<open>
  A table is the list of its rows. \<open>sql_update p f\<close> is \<open>UPDATE t SET f WHERE p\<close>,
  \<open>sql_delete p\<close> is \<open>DELETE FROM t WHERE p\<close>, \<open>sql_count p\<close> is
  \<open>SELECT count(*) FROM t WHERE p\<close>, \<open>sql_first\<close> takes the least row of a selection by a key
  (\<open>ORDER BY key ASC LIMIT 1\<close>; among equal keys the first row of the table, where SQL leaves the
  choice open).
\<close>

definition sql_update :: "('r \<Rightarrow> bool) \<Rightarrow> ('r \<Rightarrow> 'r) \<Rightarrow> 'r list \<Rightarrow> 'r list" where
  "sql_update p f rows = map (\<lambda>r. if p r then f r else r) rows"

definition sql_delete :: "('r \<Rightarrow> bool) \<Rightarrow> 'r list \<Rightarrow> 'r list" where
  "sql_delete p rows = filter (\<lambda>r. \<not> p r) rows"

definition sql_count :: "('r \<Rightarrow> bool) \<Rightarrow> 'r list \<Rightarrow> nat" where
  "sql_count p rows = length (filter p rows)"

fun sql_first :: "('r \<Rightarrow> 'k::linorder) \<Rightarrow> 'r list \<Rightarrow> 'r option" where
  "sql_first k [] = None"
| "sql_first k (r # rs) =
     (case sql_first k rs of None \<Rightarrow> Some r | Some s \<Rightarrow> if k r \<le> k s then Some r else Some s)"

lemma length_sql_update [simp]: "length (sql_update p f rows) = length rows"
  by (simp add: sql_update_def)

lemma sql_update_Nil [simp]: "sql_update p f [] = []"
  by (simp add: sql_update_def)

lemma sql_update_Cons [simp]:
  "sql_update p f (r # rows) = (if p r then f r else r) # sql_update p f rows"
  by (simp add: sql_update_def)

lemma set_sql_update: "set (sql_update p f rows) = (\<lambda>r. if p r then f r else r) ` set rows"
  by (simp add: sql_update_def)

lemma map_sql_update [sql]:
  "(\<And>r. p r \<Longrightarrow> k (f r) = k r) \<Longrightarrow> map k (sql_update p f rows) = map k rows"
  by (induction rows) auto

lemma in_sql_updateE:
  assumes "r' \<in> set (sql_update p f rows)"
  obtains r where "r \<in> set rows" "r' = (if p r then f r else r)"
  using assms by (auto simp: set_sql_update)

lemma sql_update_none: "(\<And>r. r \<in> set rows \<Longrightarrow> \<not> p r) \<Longrightarrow> sql_update p f rows = rows"
  by (induction rows) auto

lemma list_all_sql_update:
  "list_all P rows \<Longrightarrow> (\<And>r. P r \<Longrightarrow> p r \<Longrightarrow> P (f r)) \<Longrightarrow> list_all P (sql_update p f rows)"
  by (induction rows) auto

lemma set_sql_delete [sql]: "set (sql_delete p rows) = {r \<in> set rows. \<not> p r}"
  by (auto simp: sql_delete_def)

lemma sql_first_Some_in: "sql_first k rows = Some r \<Longrightarrow> r \<in> set rows"
  by (induction rows arbitrary: r) (auto split: option.splits if_splits)

lemma sql_first_None_iff: "sql_first k rows = None \<longleftrightarrow> rows = []"
  by (cases rows) (auto split: option.splits if_splits)

lemma sql_first_least: "sql_first k rows = Some r \<Longrightarrow> s \<in> set rows \<Longrightarrow> k r \<le> k s"
proof (induction rows arbitrary: r s)
  case Nil
  then show ?case by simp
next
  case (Cons x xs)
  show ?case
  proof (cases "sql_first k xs")
    case None
    with Cons.prems show ?thesis by (auto simp: sql_first_None_iff)
  next
    case (Some t)
    have t: "k t \<le> k u" if "u \<in> set xs" for u
      using Cons.IH [OF Some that] .
    with Cons.prems Some show ?thesis by (auto split: if_splits) (use order_trans in fastforce)
  qed
qed

text \<open>Rows found by a key that is unique in the table.\<close>

definition row_by :: "('r \<Rightarrow> 'k) \<Rightarrow> 'k \<Rightarrow> 'r list \<Rightarrow> 'r option" where
  "row_by k i rows = find (\<lambda>r. k r = i) rows"

lemma row_by_Some: "row_by k i rows = Some r \<Longrightarrow> r \<in> set rows \<and> k r = i"
  by (auto simp: row_by_def find_Some_iff)

lemma row_by_None_iff: "row_by k i rows = None \<longleftrightarrow> i \<notin> k ` set rows"
  by (auto simp: row_by_def find_None_iff)

lemma row_by_Nil [simp]: "row_by k i [] = None"
  by (simp add: row_by_def)

lemma row_by_Cons [simp]: "row_by k i (r # rows) = (if k r = i then Some r else row_by k i rows)"
  by (simp add: row_by_def)

lemma row_by_in:
  "distinct (map k rows) \<Longrightarrow> r \<in> set rows \<Longrightarrow> row_by k (k r) rows = Some r"
  by (induction rows) (auto simp: rev_image_eqI)

lemma row_by_append:
  "row_by k i (xs @ ys) = (case row_by k i xs of None \<Rightarrow> row_by k i ys | Some r \<Rightarrow> Some r)"
  by (induction xs) auto

lemma row_by_sql_update [sql]:
  assumes "\<And>r. p r \<Longrightarrow> k (f r) = k r"
  shows "row_by k i (sql_update p f rows) =
    map_option (\<lambda>r. if p r then f r else r) (row_by k i rows)"
  using assms by (induction rows) auto

text \<open>An update addressed by the key changes that row only.\<close>

lemma row_by_update_key [sql]:
  assumes "\<And>r. k (f r) = k r"
  shows "row_by k i (sql_update (\<lambda>r. k r = j \<and> p r) f rows) =
    (if i = j then map_option (\<lambda>r. if p r then f r else r) (row_by k i rows) else row_by k i rows)"
  using assms by (induction rows) auto

lemma row_by_delete [sql]:
  "row_by k i (sql_delete (\<lambda>r. k r = j) rows) = (if i = j then None else row_by k i rows)"
  by (induction rows) (auto simp: sql_delete_def)

lemma row_by_delete_if:
  "(\<And>r. k r = i \<Longrightarrow> p r = b) \<Longrightarrow> row_by k i (sql_delete p rows) = (if b then None else row_by k i rows)"
  by (induction rows) (auto simp: sql_delete_def)

lemma distinct_sql_delete: "distinct (map k rows) \<Longrightarrow> distinct (map k (sql_delete p rows))"
  by (induction rows) (auto simp: sql_delete_def)

section \<open>Values\<close>

definition coalesce :: "'a option \<Rightarrow> 'a \<Rightarrow> 'a" where
  "coalesce x d = (case x of None \<Rightarrow> d | Some v \<Rightarrow> v)"

lemma coalesce_simps [simp]: "coalesce None d = d" "coalesce (Some v) d = v"
  by (simp_all add: coalesce_def)

text \<open>Decoded JSON values; an object keeps the order of its keys.\<close>

datatype json =
    JNull
  | JBool bool
  | JInt int
  | JFloat rat
  | JStr string
  | JArr "json list"
  | JObj "(string \<times> json) list"

text \<open>The truth value Python gives a decoded JSON value.\<close>

fun json_truthy :: "json \<Rightarrow> bool" where
  "json_truthy JNull = False"
| "json_truthy (JBool b) = b"
| "json_truthy (JInt n) = (n \<noteq> 0)"
| "json_truthy (JFloat x) = (x \<noteq> 0)"
| "json_truthy (JStr s) = (s \<noteq> [])"
| "json_truthy (JArr xs) = (xs \<noteq> [])"
| "json_truthy (JObj kvs) = (kvs \<noteq> [])"

text \<open>
  Python strings are modelled as lists of code points below 256. On that range the definitions
  below are Python's: \<open>str.isspace\<close>, \<open>str.strip\<close>, \<open>str.lower\<close> and \<open>str.split\<close>.
\<close>

definition is_py_space :: "char \<Rightarrow> bool" where
  "is_py_space c = (let n = (of_char c :: nat) in
     (9 \<le> n \<and> n \<le> 13) \<or> (28 \<le> n \<and> n \<le> 32) \<or> n = 133 \<or> n = 160)"

definition py_lstrip :: "string \<Rightarrow> string" where
  "py_lstrip s = dropWhile is_py_space s"

definition py_rstrip :: "string \<Rightarrow> string" where
  "py_rstrip s = rev (dropWhile is_py_space (rev s))"

definition py_strip :: "string \<Rightarrow> string" where
  "py_strip s = py_rstrip (py_lstrip s)"

text \<open>\<open>str.isalnum\<close> of one character, for code points below 256.\<close>

definition is_py_alnum :: "char \<Rightarrow> bool" where
  "is_py_alnum c \<longleftrightarrow> (let n = of_char c :: nat in
     (48 \<le> n \<and> n \<le> 57) \<or> (65 \<le> n \<and> n \<le> 90) \<or> (97 \<le> n \<and> n \<le> 122) \<or>
     n \<in> {170, 178, 179, 181, 185, 186, 188, 189, 190} \<or> (192 \<le> n \<and> n \<noteq> 215 \<and> n \<noteq> 247))"

definition lower_char :: "char \<Rightarrow> char" where
  "lower_char c = (let n = (of_char c :: nat) in
     if (65 \<le> n \<and> n \<le> 90) \<or> (192 \<le> n \<and> n \<le> 222 \<and> n \<noteq> 215) then char_of (n + 32) else c)"

definition py_lower :: "string \<Rightarrow> string" where
  "py_lower s = map lower_char s"

fun py_split_acc :: "string \<Rightarrow> string \<Rightarrow> string list" where
  "py_split_acc acc [] = (if acc = [] then [] else [rev acc])"
| "py_split_acc acc (c # cs) =
     (if is_py_space c then (if acc = [] then py_split_acc [] cs else rev acc # py_split_acc [] cs)
      else py_split_acc (c # acc) cs)"

definition py_split :: "string \<Rightarrow> string list" where
  "py_split s = py_split_acc [] s"

fun py_join :: "string \<Rightarrow> string list \<Rightarrow> string" where
  "py_join sep [] = []"
| "py_join sep [x] = x"
| "py_join sep (x # y # ys) = x @ sep @ py_join sep (y # ys)"

fun show_nat :: "nat \<Rightarrow> string" where
  "show_nat n = (if n < 10 then [char_of (48 + n)] else show_nat (n div 10) @ [char_of (48 + n mod 10)])"

declare show_nat.simps [simp del]

definition show_int :: "int \<Rightarrow> string" where
  "show_int i = (if i < 0 then ''-'' @ show_nat (nat (- i)) else show_nat (nat i))"

lemma dropWhile_idem: "dropWhile P (dropWhile P xs) = dropWhile P xs"
  by (induction xs) auto

lemma py_lstrip_idem [py]: "py_lstrip (py_lstrip s) = py_lstrip s"
  by (simp add: py_lstrip_def dropWhile_idem)

lemma py_rstrip_idem [py]: "py_rstrip (py_rstrip s) = py_rstrip s"
  by (simp add: py_rstrip_def dropWhile_idem)

lemma py_strip_Nil [simp]: "py_strip [] = []"
  by (simp add: py_strip_def py_lstrip_def py_rstrip_def)

lemma py_rstrip_prefix: "\<exists>t. s = py_rstrip s @ t"
proof -
  have "rev s = takeWhile is_py_space (rev s) @ dropWhile is_py_space (rev s)" by simp
  then have "s = rev (dropWhile is_py_space (rev s)) @ rev (takeWhile is_py_space (rev s))"
    by (metis rev_append rev_rev_ident)
  then show ?thesis by (auto simp: py_rstrip_def)
qed

lemma py_strip_idem [py]: "py_strip (py_strip s) = py_strip s"
proof -
  let ?l = "py_lstrip s"
  obtain t where t: "?l = py_rstrip ?l @ t" using py_rstrip_prefix by blast
  have "py_lstrip (py_rstrip ?l) = py_rstrip ?l"
  proof (cases "py_rstrip ?l")
    case Nil
    then show ?thesis by (simp add: py_lstrip_def)
  next
    case (Cons c cs)
    with t have "?l = c # (cs @ t)" by simp
    then have "\<not> is_py_space c"
      by (metis dropWhile_eq_Cons_conv py_lstrip_def)
    with Cons show ?thesis by (simp add: py_lstrip_def)
  qed
  then show ?thesis by (simp add: py_strip_def py_rstrip_idem)
qed

text \<open>
  \<open>s.split(sep, 1)\<close> for a separator that occurs: the parts before and after its first occurrence;
  \<open>sep in s\<close>; and \<open>s.replace(old, new)\<close> for a non-empty \<open>old\<close>.
\<close>

fun split_once :: "string \<Rightarrow> string \<Rightarrow> (string \<times> string) option" where
  "split_once sep [] = (if sep = [] then Some ([], []) else None)"
| "split_once sep (c # cs) =
     (if take (length sep) (c # cs) = sep then Some ([], drop (length sep) (c # cs))
      else map_option (\<lambda>(a, b). (c # a, b)) (split_once sep cs))"

definition py_in :: "string \<Rightarrow> string \<Rightarrow> bool" where
  "py_in sep s = (split_once sep s \<noteq> None)"

lemma split_once_eq: "split_once sep s = Some (a, b) \<Longrightarrow> s = a @ sep @ b"
proof (induction s arbitrary: a b)
  case Nil
  then show ?case by (auto split: if_splits)
next
  case (Cons c cs)
  show ?case
  proof (cases "take (length sep) (c # cs) = sep")
    case True
    with Cons.prems have "a = []" "b = drop (length sep) (c # cs)" by simp_all
    then show ?thesis using True by (metis append_Nil append_take_drop_id)
  next
    case False
    with Cons.prems obtain a' where "split_once sep cs = Some (a', b)" "a = c # a'" by auto
    with Cons.IH show ?thesis by simp
  qed
qed

lemma py_in_iff: "py_in p s \<longleftrightarrow> (\<exists>a b. s = a @ p @ b)"
proof
  assume "py_in p s"
  then show "\<exists>a b. s = a @ p @ b" by (auto simp: py_in_def dest: split_once_eq)
next
  assume "\<exists>a b. s = a @ p @ b"
  then obtain a b where "s = a @ p @ b" by blast
  then show "py_in p s"
  proof (induction a arbitrary: s)
    case Nil
    have "take (length p) (p @ b) = p" by simp
    then show ?case by (cases "p @ b") (auto simp: py_in_def Nil)
  next
    case (Cons c a)
    then show ?case by (auto simp: py_in_def)
  qed
qed

lemma split_once_shorter: "split_once sep s = Some (a, b) \<Longrightarrow> sep \<noteq> [] \<Longrightarrow> length b < length s"
  using split_once_eq by fastforce

function py_replace :: "string \<Rightarrow> string \<Rightarrow> string \<Rightarrow> string" where
  "py_replace old new s =
     (if old = [] then s
      else case split_once old s of None \<Rightarrow> s | Some (a, b) \<Rightarrow> a @ new @ py_replace old new b)"
  by pat_completeness auto
termination
  by (relation "measure (\<lambda>(old, new, s). length s)") (auto dest: split_once_shorter)

declare py_replace.simps [simp del]

text \<open>A separator whose first character does not occur in the text before it splits there.\<close>

lemma split_once_before: "s \<notin> set a \<Longrightarrow> split_once (s # ss) (a @ (s # ss) @ b) = Some (a, b)"
  by (induction a) auto

lemma split_once_absent: "s \<notin> set a \<Longrightarrow> split_once (s # ss) a = None"
  by (induction a) auto

text \<open>
  Python floats, as far as the modelled code compares them: exact rationals (chapter numbers are
  \<open>NUMERIC\<close> columns), the two infinities and NaN. \<open>py_min a b\<close> and \<open>py_max a b\<close> are the built-ins
  on two arguments, which keep the first argument unless the second compares smaller (larger).
\<close>

datatype pyfloat = Fin rat | PosInf | NegInf | NaN

fun fl_less :: "pyfloat \<Rightarrow> pyfloat \<Rightarrow> bool" where
  "fl_less NaN _ = False"
| "fl_less _ NaN = False"
| "fl_less (Fin a) (Fin b) = (a < b)"
| "fl_less NegInf NegInf = False"
| "fl_less NegInf _ = True"
| "fl_less _ NegInf = False"
| "fl_less PosInf _ = False"
| "fl_less (Fin _) PosInf = True"

fun fl_finite :: "pyfloat \<Rightarrow> bool" where
  "fl_finite (Fin _) = True"
| "fl_finite _ = False"

definition py_min :: "pyfloat \<Rightarrow> pyfloat \<Rightarrow> pyfloat" where
  "py_min a b = (if fl_less b a then b else a)"

definition py_max :: "pyfloat \<Rightarrow> pyfloat \<Rightarrow> pyfloat" where
  "py_max a b = (if fl_less a b then b else a)"

lemma py_min_Fin [simp]: "py_min (Fin a) (Fin b) = Fin (min a b)"
  by (simp add: py_min_def min_def)

lemma py_max_Fin [simp]: "py_max (Fin a) (Fin b) = Fin (max a b)"
  by (simp add: py_max_def max_def)

end
