(* ===== verification/Ai_Backend.thy ===== *)
theory Ai_Backend
  imports Prelude
begin

text \<open>
  The vocabulary of AI execution shared by scheduling, workers and durable jobs: backends,
  workloads and decisions of \<open>modules/ai_execution/domain/backend.py\<close>, the row of
  \<open>user_ai_backend_policies\<close> (\<open>db/schema.py\<close>), and the settings of \<open>platform/config/settings.py\<close>
  the modelled code reads.
\<close>

section \<open>Backends and workloads\<close>

datatype requested_backend = Req_AUTO | Req_API | Req_AGY | Req_OPENAI_CODEX

datatype execution_backend = API | AGY | OPENAI_CODEX

datatype workload =
  TRANSLATE_BATCH | CODEX_EXTRACT | SEGMENT_IMPORT | OCR_PAGES | ASK | PROFILE_SYNTHESIS

fun requested_value :: "requested_backend \<Rightarrow> string" where
  "requested_value Req_AUTO = ''auto''"
| "requested_value Req_API = ''api''"
| "requested_value Req_AGY = ''agy''"
| "requested_value Req_OPENAI_CODEX = ''openai_codex''"

fun backend_value :: "execution_backend \<Rightarrow> string" where
  "backend_value API = ''api''"
| "backend_value AGY = ''agy''"
| "backend_value OPENAI_CODEX = ''openai_codex''"

fun workload_value :: "workload \<Rightarrow> string" where
  "workload_value TRANSLATE_BATCH = ''translate_batch''"
| "workload_value CODEX_EXTRACT = ''codex_extract''"
| "workload_value SEGMENT_IMPORT = ''segment_import''"
| "workload_value OCR_PAGES = ''ocr_pages''"
| "workload_value ASK = ''ask''"
| "workload_value PROFILE_SYNTHESIS = ''profile_synthesis''"

definition workloads :: "workload list" where
  "workloads = [TRANSLATE_BATCH, CODEX_EXTRACT, SEGMENT_IMPORT, OCR_PAGES, ASK, PROFILE_SYNTHESIS]"

lemma backend_value_eq [simp]: "backend_value a = backend_value b \<longleftrightarrow> a = b"
  by (cases a; cases b) auto

lemma workload_value_eq [simp]: "workload_value a = workload_value b \<longleftrightarrow> a = b"
  by (cases a; cases b) auto

text \<open>Constructing an enum from a string (\<open>RequestedBackend(value)\<close>, \<open>ExecutionBackend(value)\<close>).\<close>

definition requested_of :: "string \<Rightarrow> requested_backend option" where
  "requested_of s = find (\<lambda>b. requested_value b = s) [Req_AUTO, Req_API, Req_AGY, Req_OPENAI_CODEX]"

definition backend_of :: "string \<Rightarrow> execution_backend option" where
  "backend_of s = find (\<lambda>b. backend_value b = s) [API, AGY, OPENAI_CODEX]"

lemma requested_of_value [simp]: "requested_of (requested_value b) = Some b"
  by (cases b) (simp_all add: requested_of_def)

lemma backend_of_value [simp]: "backend_of (backend_value b) = Some b"
  by (cases b) (simp_all add: backend_of_def)

lemma backend_of_Some: "backend_of s = Some b \<Longrightarrow> s = backend_value b"
  by (auto simp: backend_of_def split: if_splits)

definition IMPLEMENTED_AGY_WORKLOADS :: "workload list" where
  "IMPLEMENTED_AGY_WORKLOADS = [TRANSLATE_BATCH, CODEX_EXTRACT]"

definition IMPLEMENTED_OPENAI_CODEX_WORKLOADS :: "workload list" where
  "IMPLEMENTED_OPENAI_CODEX_WORKLOADS = [TRANSLATE_BATCH, CODEX_EXTRACT]"

definition workload_for_job_kind :: "string \<Rightarrow> workload option" where
  "workload_for_job_kind kind =
     (if kind = ''translate'' then Some TRANSLATE_BATCH
      else if kind = ''codex_build'' then Some CODEX_EXTRACT
      else if kind = ''codex_illustrate'' then Some CODEX_EXTRACT
      else None)"

record backend_decision =
  d_requested :: requested_backend
  d_resolved :: execution_backend
  d_workload :: workload
  d_reason :: string
  d_policy_version :: "int option"
  d_fallback_to_api :: bool
  d_model :: "string option"

section \<open>Policies\<close>

text \<open>
  A row of \<open>user_ai_backend_policies\<close>. \<open>default_backend\<close> is a backend value (a CHECK constraint
  of the table); the workload arrays hold workload values.
\<close>

record ai_policy =
  p_user_id :: int
  agy_enabled :: bool
  openai_codex_enabled :: bool
  default_backend :: execution_backend
  agy_workloads :: "string list"
  openai_codex_workloads :: "string list"
  fallback_to_api :: bool
  max_concurrent_agy_jobs :: int
  max_concurrent_openai_codex_jobs :: int
  policy_version :: int
  p_notes :: "string option"
  granted_by :: "int option"

text \<open>The three keys of \<open>_provider_fields\<close>, read from a policy row; the API has no grant.\<close>

fun provider_enabled :: "execution_backend \<Rightarrow> ai_policy \<Rightarrow> bool" where
  "provider_enabled AGY p = agy_enabled p"
| "provider_enabled OPENAI_CODEX p = openai_codex_enabled p"
| "provider_enabled API p = False"

fun provider_workloads :: "execution_backend \<Rightarrow> ai_policy \<Rightarrow> string list" where
  "provider_workloads AGY p = agy_workloads p"
| "provider_workloads OPENAI_CODEX p = openai_codex_workloads p"
| "provider_workloads API p = []"

fun provider_concurrency :: "execution_backend \<Rightarrow> ai_policy \<Rightarrow> int" where
  "provider_concurrency AGY p = max_concurrent_agy_jobs p"
| "provider_concurrency OPENAI_CODEX p = max_concurrent_openai_codex_jobs p"
| "provider_concurrency API p = 0"

section \<open>Settings\<close>

text \<open>The fields of \<open>Settings\<close> the modelled code reads; model names are opaque strings.\<close>

record settings =
  JOB_MAX_ATTEMPTS :: int
  JOB_LEASE_TIMEOUT_SECONDS :: int
  AGY_ENABLED :: bool
  OPENAI_CODEX_ENABLED :: bool
  AGY_CODEX_ENABLED :: bool
  OPENAI_CODEX_CODEX_ENABLED :: bool
  AGY_MODEL_TRANSLATE :: string
  AGY_MODEL_CODEX :: string
  AGY_MODEL_SEGMENT :: string
  AGY_MODEL_OCR :: string
  OPENAI_CODEX_MODEL_TRANSLATE :: string
  OPENAI_CODEX_MODEL_CODEX :: string
  MODEL_TRANSLATE :: string
  MODEL_FLASH :: string
  SEGMENT_MODEL :: string
  GEMINI_VISION_MODEL :: string
  MODEL_PRO :: string
  AGY_WORKER_HEALTH_TTL_SECONDS :: int
  OPENAI_CODEX_WORKER_HEALTH_TTL_SECONDS :: int
  ASK_MAX_UNIQUE_PER_USER_HOUR :: int
  ASK_MAX_CONCURRENT_PER_USER :: int
  ASK_CONCURRENCY_TTL_SECONDS :: int

definition demo_settings :: settings where
  "demo_settings = \<lparr>JOB_MAX_ATTEMPTS = 3, JOB_LEASE_TIMEOUT_SECONDS = 180, AGY_ENABLED = True,
     OPENAI_CODEX_ENABLED = False, AGY_CODEX_ENABLED = True, OPENAI_CODEX_CODEX_ENABLED = False,
     AGY_MODEL_TRANSLATE = ''agy-t'', AGY_MODEL_CODEX = ''agy-c'', AGY_MODEL_SEGMENT = ''agy-s'',
     AGY_MODEL_OCR = ''agy-o'', OPENAI_CODEX_MODEL_TRANSLATE = ''oc-t'', OPENAI_CODEX_MODEL_CODEX = ''oc-c'',
     MODEL_TRANSLATE = ''t'', MODEL_FLASH = ''f'', SEGMENT_MODEL = ''s'', GEMINI_VISION_MODEL = ''g'',
     MODEL_PRO = ''p'', AGY_WORKER_HEALTH_TTL_SECONDS = 120, OPENAI_CODEX_WORKER_HEALTH_TTL_SECONDS = 120,
     ASK_MAX_UNIQUE_PER_USER_HOUR = 30, ASK_MAX_CONCURRENT_PER_USER = 2, ASK_CONCURRENCY_TTL_SECONDS = 180\<rparr>"

end
