(* ===== verification/Identity_Quota.thy ===== *)
theory Identity_Quota
  imports Prelude
begin

text \<open>
  Monthly quotas: the principal of \<open>modules/identity/public.py\<close>, the spending policy of
  \<open>modules/identity/domain/policies.py\<close>, the \<open>quota_usage\<close> table with the statements of
  \<open>modules/identity/adapters/outbound/postgres_quota.py\<close>, and the service of
  \<open>modules/identity/application/quota.py\<close>. The interface \<open>quota_store\<close> states what the service and
  the job-finalisation workflow rely on; the table's operations are its interpretation.
\<close>

section \<open>Principals and the spending policy\<close>

record principal =
  user_id :: int
  role :: string
  status :: string
  email_verified :: bool
  quota_limits :: "string \<rightharpoonup> int"

definition is_admin :: "principal \<Rightarrow> bool" where
  "is_admin p = (role p = ''admin'')"

definition spend_allowed :: "principal \<Rightarrow> bool" where
  "spend_allowed p = (status p = ''active'' \<and> (is_admin p \<or> email_verified p))"

section \<open>The \<open>quota_usage\<close> table\<close>

text \<open>
  One row per user and month. The four counters are columns; statements name the column after the
  quota kind, so the model reads and writes a column by kind. A date is year, month and day.
\<close>

type_synonym date = "int \<times> int \<times> int"

definition current_period :: "date \<Rightarrow> date" where
  "current_period today = (case today of (y, m, d) \<Rightarrow> (y, m, 1))"

record usage_row =
  translated_chapters :: int
  ocr_pages :: int
  codex_builds :: int
  tts_chapters :: int

definition QUOTA_KINDS :: "string list" where
  "QUOTA_KINDS = [''translated_chapters'', ''ocr_pages'', ''codex_builds'', ''tts_chapters'']"

definition usage_zero :: usage_row where
  "usage_zero = \<lparr>translated_chapters = 0, ocr_pages = 0, codex_builds = 0, tts_chapters = 0\<rparr>"

definition column :: "string \<Rightarrow> usage_row \<Rightarrow> int" where
  "column kind r =
     (if kind = ''translated_chapters'' then translated_chapters r
      else if kind = ''ocr_pages'' then ocr_pages r
      else if kind = ''codex_builds'' then codex_builds r
      else tts_chapters r)"

definition add_column :: "string \<Rightarrow> int \<Rightarrow> usage_row \<Rightarrow> usage_row" where
  "add_column kind n r =
     (if kind = ''translated_chapters'' then r\<lparr>translated_chapters := translated_chapters r + n\<rparr>
      else if kind = ''ocr_pages'' then r\<lparr>ocr_pages := ocr_pages r + n\<rparr>
      else if kind = ''codex_builds'' then r\<lparr>codex_builds := codex_builds r + n\<rparr>
      else r\<lparr>tts_chapters := tts_chapters r + n\<rparr>)"

type_synonym quota_table = "(int \<times> date) \<rightharpoonup> usage_row"

text \<open>\<open>INSERT ... ON CONFLICT DO NOTHING\<close>, shared by \<open>bump\<close> and \<open>try_reserve\<close>.\<close>

definition ensure_row :: "quota_table \<Rightarrow> int \<Rightarrow> date \<Rightarrow> quota_table" where
  "ensure_row t uid per = (case t (uid, per) of None \<Rightarrow> t((uid, per) \<mapsto> usage_zero) | Some _ \<Rightarrow> t)"

definition update_row :: "quota_table \<Rightarrow> int \<Rightarrow> date \<Rightarrow> (usage_row \<Rightarrow> usage_row) \<Rightarrow> quota_table" where
  "update_row t uid per f = (case t (uid, per) of None \<Rightarrow> t | Some r \<Rightarrow> t((uid, per) \<mapsto> f r))"

definition check_kind :: "string \<Rightarrow> unit result" where
  "check_kind kind = ensure (kind \<in> set QUOTA_KINDS) (ValueError (''unknown quota kind: '' @ kind))"

definition get_usage :: "quota_table \<Rightarrow> int \<Rightarrow> date \<Rightarrow> usage_row" where
  "get_usage t uid per = (case t (uid, per) of None \<Rightarrow> usage_zero | Some r \<Rightarrow> r)"

definition bump :: "quota_table \<Rightarrow> int \<Rightarrow> date \<Rightarrow> string \<Rightarrow> int \<Rightarrow> quota_table result" where
  "bump t uid per kind units =
     bindE (check_kind kind) (\<lambda>_.
       Inr (update_row (ensure_row t uid per) uid per (add_column kind units)))"

definition try_reserve ::
  "quota_table \<Rightarrow> int \<Rightarrow> date \<Rightarrow> string \<Rightarrow> int \<Rightarrow> int \<Rightarrow> (quota_table \<times> bool) result" where
  "try_reserve t uid per kind units limit =
     bindE (check_kind kind) (\<lambda>_.
       let t' = ensure_row t uid per; used = column kind (get_usage t' uid per)
       in if used + units > limit then Inr (t', False)
          else Inr (update_row t' uid per (add_column kind units), True))"

definition pg_refund ::
  "quota_table \<Rightarrow> int \<Rightarrow> date \<Rightarrow> string \<Rightarrow> int \<Rightarrow> (quota_table \<times> int) result" where
  "pg_refund t uid per kind units =
     bindE (check_kind kind) (\<lambda>_.
       case t (uid, per) of
         None \<Rightarrow> Inr (t, 0)
       | Some r \<Rightarrow>
           (let give = min units (column kind r)
            in if give \<le> 0 then Inr (t, 0)
               else Inr (update_row t uid per (add_column kind (- give)), give)))"

text \<open>
  The transaction-bound capability handed to the workflows
  (\<open>PostgresQuotaTransactionService.refund\<close>); an absent user is \<open>None\<close>.
\<close>

definition tx_refund ::
  "quota_table \<Rightarrow> date \<Rightarrow> int option \<Rightarrow> string \<Rightarrow> int \<Rightarrow> (quota_table \<times> int) result" where
  "tx_refund t today uid kind units =
     (case uid of None \<Rightarrow> Inr (t, 0)
      | Some u \<Rightarrow> if units \<le> 0 then Inr (t, 0) else pg_refund t u (current_period today) kind units)"

definition used :: "quota_table \<Rightarrow> int \<Rightarrow> date \<Rightarrow> string \<Rightarrow> int" where
  "used t uid per kind = column kind (get_usage t uid per)"

lemma column_add_column [sql]:
  "kind \<in> set QUOTA_KINDS \<Longrightarrow> kind' \<in> set QUOTA_KINDS \<Longrightarrow>
   column kind' (add_column kind n r) = column kind' r + (if kind' = kind then n else 0)"
  by (auto simp: column_def add_column_def QUOTA_KINDS_def)

lemma column_zero [simp]: "column kind usage_zero = 0"
  by (simp add: column_def usage_zero_def)

lemma used_ensure_row [sql]: "used (ensure_row t uid per) u p k = used t u p k"
  by (auto simp: used_def get_usage_def ensure_row_def split: option.splits)

lemma get_usage_ensure_row [sql]: "get_usage (ensure_row t uid per) u p = get_usage t u p"
  by (auto simp: get_usage_def ensure_row_def split: option.splits)

lemma ensure_row_Some: "\<exists>r. ensure_row t uid per (uid, per) = Some r"
  by (auto simp: ensure_row_def split: option.splits)

lemma used_update_row [sql]:
  assumes "t (uid, per) = Some r" "kind \<in> set QUOTA_KINDS" "k \<in> set QUOTA_KINDS"
  shows "used (update_row t uid per (add_column kind n)) u p k =
    used t u p k + (if u = uid \<and> p = per \<and> k = kind then n else 0)"
  using assms by (auto simp: used_def get_usage_def update_row_def column_add_column split: option.splits)

section \<open>The interface of a quota store\<close>

text \<open>
  What \<open>QuotaService\<close> and the finalisation workflow rely on: reading a counter, a conditional
  reservation, an unconditional increment and a refund clamped to what was used.
\<close>

locale quota_store =
  fixes count :: "'q \<Rightarrow> int \<Rightarrow> 'p \<Rightarrow> string \<Rightarrow> int"
    and reserve_if :: "'q \<Rightarrow> int \<Rightarrow> 'p \<Rightarrow> string \<Rightarrow> int \<Rightarrow> int \<Rightarrow> ('q \<times> bool) result"
    and give_back :: "'q \<Rightarrow> int \<Rightarrow> 'p \<Rightarrow> string \<Rightarrow> int \<Rightarrow> ('q \<times> int) result"
    and kinds :: "string set"
  assumes reserve_total: "k \<in> kinds \<Longrightarrow> \<exists>q' b. reserve_if q u p k n l = Inr (q', b)"
    and reserve_granted: "k \<in> kinds \<Longrightarrow> reserve_if q u p k n l = Inr (q', b) \<Longrightarrow> b = (count q u p k + n \<le> l)"
    and reserve_count: "k \<in> kinds \<Longrightarrow> k' \<in> kinds \<Longrightarrow> reserve_if q u p k n l = Inr (q', b) \<Longrightarrow>
      count q' u' p' k' = count q u' p' k' + (if b \<and> u' = u \<and> p' = p \<and> k' = k then n else 0)"
    and give_total: "k \<in> kinds \<Longrightarrow> \<exists>q' g. give_back q u p k n = Inr (q', g)"
    and give_amount: "k \<in> kinds \<Longrightarrow> give_back q u p k n = Inr (q', g) \<Longrightarrow> g = max 0 (min n (count q u p k))"
    and give_count: "k \<in> kinds \<Longrightarrow> k' \<in> kinds \<Longrightarrow> give_back q u p k n = Inr (q', g) \<Longrightarrow>
      count q' u' p' k' = count q u' p' k' - (if u' = u \<and> p' = p \<and> k' = k then g else 0)"
begin

text \<open>A granted reservation stays within the limit.\<close>

lemma granted_within_limit:
  assumes "k \<in> kinds" "reserve_if q u p k n l = Inr (q', True)"
  shows "count q' u p k \<le> l"
proof -
  from reserve_granted [OF assms] have "count q u p k + n \<le> l" by simp
  with reserve_count [OF assms(1,1,2), of u p] show ?thesis by simp
qed

text \<open>A refused reservation leaves every counter as it was.\<close>

lemma refused_unchanged:
  "k \<in> kinds \<Longrightarrow> k' \<in> kinds \<Longrightarrow> reserve_if q u p k n l = Inr (q', False) \<Longrightarrow>
   count q' u' p' k' = count q u' p' k'"
  by (drule (2) reserve_count) simp

text \<open>Reserving and giving the same units back is the identity on the counters.\<close>

lemma reserve_then_give_back:
  assumes k: "k \<in> kinds" "k' \<in> kinds" and n: "0 \<le> n" "0 \<le> count q u p k"
    and r: "reserve_if q u p k n l = Inr (q1, True)" and g: "give_back q1 u p k n = Inr (q2, g)"
  shows "g = n \<and> count q2 u' p' k' = count q u' p' k'"
proof -
  have c1: "count q1 u p k = count q u p k + n" using reserve_count [OF k(1,1) r, of u p] by simp
  with give_amount [OF k(1) g] n have "g = n" by simp
  with reserve_count [OF k(1,2) r, of u' p'] give_count [OF k(1,2) g, of u' p'] show ?thesis by simp
qed

text \<open>A refund never takes a counter below zero, and never returns more than was asked or used.\<close>

lemma give_back_bounds:
  assumes k: "k \<in> kinds" and c: "0 \<le> count q u p k" and g: "give_back q u p k n = Inr (q', g)"
  shows "0 \<le> g" "g \<le> max 0 n" "g \<le> count q u p k" "0 \<le> count q' u p k"
  using give_amount [OF k g] give_count [OF k k g, of u p] c by auto

end

lemma check_kind_Inr [simp]: "kind \<in> set QUOTA_KINDS \<Longrightarrow> check_kind kind = Inr ()"
  by (simp add: check_kind_def ensure_def)

interpretation pgq: quota_store used try_reserve pg_refund "set QUOTA_KINDS"
proof unfold_locales
  fix k q u p n l
  assume k: "k \<in> set QUOTA_KINDS"
  show "\<exists>q' b. try_reserve q u p k n l = Inr (q', b)"
    using k by (auto simp: try_reserve_def Let_def)
next
  fix k q u p n l q' b
  assume k: "k \<in> set QUOTA_KINDS" and r: "try_reserve q u p k n l = Inr (q', b)"
  show "b = (used q u p k + n \<le> l)"
    using k r by (auto simp: try_reserve_def Let_def used_def get_usage_ensure_row split: if_splits)
next
  fix k k' q u p n l q' b u' p'
  assume k: "k \<in> set QUOTA_KINDS" "k' \<in> set QUOTA_KINDS" and r: "try_reserve q u p k n l = Inr (q', b)"
  obtain r0 where "ensure_row q u p (u, p) = Some r0" using ensure_row_Some by blast
  with k r show "used q' u' p' k' = used q u' p' k' + (if b \<and> u' = u \<and> p' = p \<and> k' = k then n else 0)"
    by (auto simp: try_reserve_def Let_def used_update_row used_ensure_row split: if_splits)
next
  fix k q u p n
  assume k: "k \<in> set QUOTA_KINDS"
  show "\<exists>q' g. pg_refund q u p k n = Inr (q', g)"
    using k by (auto simp: pg_refund_def Let_def split: option.splits)
next
  fix k q u p n q' g
  assume k: "k \<in> set QUOTA_KINDS" and r: "pg_refund q u p k n = Inr (q', g)"
  show "g = max 0 (min n (used q u p k))"
    using k r by (auto simp: pg_refund_def Let_def used_def get_usage_def split: option.splits if_splits)
next
  fix k k' q u p n q' g u' p'
  assume k: "k \<in> set QUOTA_KINDS" "k' \<in> set QUOTA_KINDS" and r: "pg_refund q u p k n = Inr (q', g)"
  then show "used q' u' p' k' = used q u' p' k' - (if u' = u \<and> p' = p \<and> k' = k then g else 0)"
    by (auto simp: pg_refund_def Let_def used_update_row split: option.splits if_splits)
qed

section \<open>The quota service\<close>

definition SPEND_FORBIDDEN_DETAIL :: string where
  "SPEND_FORBIDDEN_DETAIL =
     ''Verify your email to use scrape, translation, OCR, codex, or import features.''"

definition require_spend_allowed :: "principal \<Rightarrow> unit result" where
  "require_spend_allowed p =
     (if status p \<noteq> ''active'' then Inl (Forbidden ''This account is not active.'')
      else if \<not> spend_allowed p then Inl (Forbidden SPEND_FORBIDDEN_DETAIL)
      else Inr ())"

definition quota_limit :: "principal \<Rightarrow> string \<Rightarrow> int result" where
  "quota_limit p kind =
     (case quota_limits p kind of
        None \<Rightarrow> Inl (ValueError (''quota limit missing for kind: '' @ kind))
      | Some l \<Rightarrow> Inr l)"

definition quota_detail :: "string \<Rightarrow> int \<Rightarrow> string" where
  "quota_detail kind limit =
     ''Monthly quota reached for '' @ map (\<lambda>c. if c = CHR ''_'' then CHR '' '' else c) kind @
     '' ('' @ show_int limit @ ''/mo). Ask an admin to raise your limit.''"

record usage_view =
  uv_period :: date
  uv_unlimited :: bool
  uv_usage :: "(string \<times> int) list"
  uv_limits :: "(string \<times> int) list"
  uv_remaining :: "(string \<times> int option) list"

fun limits_of :: "principal \<Rightarrow> string list \<Rightarrow> (string \<times> int) list result" where
  "limits_of p [] = Inr []"
| "limits_of p (k # ks) =
     bindE (quota_limit p k) (\<lambda>l. bindE (limits_of p ks) (\<lambda>ls. Inr ((k, l) # ls)))"

definition usage_and_limits :: "quota_table \<Rightarrow> date \<Rightarrow> principal \<Rightarrow> usage_view result" where
  "usage_and_limits t today p =
     (let per = current_period today; row = get_usage t (user_id p) per
      in bindE (limits_of p QUOTA_KINDS) (\<lambda>limits.
           Inr \<lparr>uv_period = per, uv_unlimited = is_admin p,
                uv_usage = map (\<lambda>k. (k, column k row)) QUOTA_KINDS,
                uv_limits = limits,
                uv_remaining = map (\<lambda>(k, l). (k, if is_admin p then None else Some (max 0 (l - column k row)))) limits\<rparr>))"

definition remaining :: "quota_table \<Rightarrow> date \<Rightarrow> principal \<Rightarrow> string \<Rightarrow> int option result" where
  "remaining t today p kind =
     bindE (check_kind kind) (\<lambda>_.
       if is_admin p then Inr None
       else bindE (quota_limit p kind) (\<lambda>l.
         Inr (Some (max 0 (l - used t (user_id p) (current_period today) kind)))))"

definition check_available ::
  "quota_table \<Rightarrow> date \<Rightarrow> principal \<Rightarrow> string \<Rightarrow> int \<Rightarrow> unit result" where
  "check_available t today p kind units =
     bindE (check_kind kind) (\<lambda>_. bindE (require_spend_allowed p) (\<lambda>_.
       if units \<le> 0 \<or> is_admin p then Inr ()
       else bindE (quota_limit p kind) (\<lambda>limit.
         if used t (user_id p) (current_period today) kind + units > limit
         then Inl (QuotaExceeded (quota_detail kind limit)) else Inr ())))"

definition reserve ::
  "quota_table \<Rightarrow> date \<Rightarrow> principal \<Rightarrow> string \<Rightarrow> int \<Rightarrow> (quota_table \<times> bool) result" where
  "reserve t today p kind units =
     bindE (check_kind kind) (\<lambda>_.
       if units \<le> 0 then Inr (t, True)
       else if \<not> spend_allowed p then Inr (t, False)
       else if is_admin p then
         bindE (bump t (user_id p) (current_period today) kind units) (\<lambda>t'. Inr (t', True))
       else bindE (quota_limit p kind) (\<lambda>limit.
         try_reserve t (user_id p) (current_period today) kind units limit))"

definition check_and_reserve ::
  "quota_table \<Rightarrow> date \<Rightarrow> principal \<Rightarrow> string \<Rightarrow> int \<Rightarrow> quota_table result" where
  "check_and_reserve t today p kind units =
     bindE (check_kind kind) (\<lambda>_. bindE (require_spend_allowed p) (\<lambda>_.
       bindE (reserve t today p kind units) (\<lambda>(t', ok).
         if ok then Inr t'
         else bindE (quota_limit p kind) (\<lambda>l. Inl (QuotaExceeded (quota_detail kind l))))))"

definition refund ::
  "quota_table \<Rightarrow> date \<Rightarrow> int option \<Rightarrow> string \<Rightarrow> int \<Rightarrow> (quota_table \<times> int) result" where
  "refund t today uid kind units =
     bindE (check_kind kind) (\<lambda>_.
       case uid of None \<Rightarrow> Inr (t, 0)
       | Some u \<Rightarrow> if units \<le> 0 then Inr (t, 0) else pg_refund t u (current_period today) kind units)"

lemma reserve_cases:
  assumes "reserve t today p kind units = Inr (t', ok)"
  shows "units \<le> 0 \<and> t' = t \<and> ok
    \<or> 0 < units \<and> \<not> spend_allowed p \<and> t' = t \<and> \<not> ok
    \<or> 0 < units \<and> spend_allowed p \<and> is_admin p \<and> ok \<and>
        bump t (user_id p) (current_period today) kind units = Inr t'
    \<or> 0 < units \<and> spend_allowed p \<and> \<not> is_admin p \<and>
        (\<exists>l. quota_limits p kind = Some l \<and>
          try_reserve t (user_id p) (current_period today) kind units l = Inr (t', ok))"
  using assms
  by (auto simp: reserve_def quota_limit_def result_iffs split: if_splits option.splits)

lemma reserve_kind: "reserve t today p kind units = Inr r \<Longrightarrow> kind \<in> set QUOTA_KINDS"
  by (auto simp: reserve_def check_kind_def result_iffs)

lemma used_bump:
  assumes "bump t uid per kind n = Inr t'" "k \<in> set QUOTA_KINDS"
  shows "used t' u p k = used t u p k + (if u = uid \<and> p = per \<and> k = kind then n else 0)"
proof -
  obtain r0 where "ensure_row t uid per (uid, per) = Some r0" using ensure_row_Some by blast
  with assms show ?thesis
    by (auto simp: bump_def check_kind_def result_iffs used_update_row used_ensure_row)
qed

section \<open>Properties\<close>

text \<open>the quota service never lets a non-administrator pass the monthly limit. After a granted
  \<open>check_and_reserve\<close> of a positive number of units the counter of that kind is the old counter
  plus the units and at most the principal's limit; every other counter, of this or another user,
  is untouched.
\<close>

lemma check_and_reserve_within_limit:
  assumes r: "check_and_reserve t today p kind units = Inr t'"
    and pos: "0 < units" and na: "\<not> is_admin p" and k: "k \<in> set QUOTA_KINDS"
  shows "\<exists>l. quota_limits p kind = Some l \<and>
      used t' (user_id p) (current_period today) kind \<le> l \<and>
      used t' u per k = used t u per k +
        (if u = user_id p \<and> per = current_period today \<and> k = kind then units else 0)"
proof -
  from r obtain ok where res: "reserve t today p kind units = Inr (t', ok)" and ok: "ok"
    by (auto simp: check_and_reserve_def quota_limit_def result_iffs split: if_splits option.splits)
  have kind: "kind \<in> set QUOTA_KINDS" by (rule reserve_kind [OF res])
  from reserve_cases [OF res] pos na ok obtain l where l: "quota_limits p kind = Some l"
    and tr: "try_reserve t (user_id p) (current_period today) kind units l = Inr (t', True)"
    by auto
  show ?thesis
    using l pgq.granted_within_limit [OF kind tr] pgq.reserve_count [OF kind k tr, of u per] by auto
qed

definition demo_user :: principal where
  "demo_user = \<lparr>user_id = 7, role = ''user'', status = ''active'', email_verified = True,
     quota_limits = [''codex_builds'' \<mapsto> 2]\<rparr>"

definition demo_quota :: quota_table where
  "demo_quota = [(7, (2025, 3, 1)) \<mapsto> usage_zero\<lparr>codex_builds := 1\<rparr>]"

lemma demo_reserve:
  "check_and_reserve demo_quota (2025, 3, 14) demo_user ''codex_builds'' 1 =
     Inr [(7, (2025, 3, 1)) \<mapsto> usage_zero\<lparr>codex_builds := 2\<rparr>]"
  by (simp add: check_and_reserve_def reserve_def require_spend_allowed_def spend_allowed_def
      demo_user_def demo_quota_def is_admin_def check_kind_def ensure_def QUOTA_KINDS_def quota_limit_def
      try_reserve_def ensure_row_def update_row_def get_usage_def current_period_def column_def
      add_column_def usage_zero_def)

lemma check_and_reserve_within_limit_witness:
  "\<exists>l. quota_limits demo_user ''codex_builds'' = Some l \<and>
     used [(7, (2025, 3, 1)) \<mapsto> usage_zero\<lparr>codex_builds := 2\<rparr>] (user_id demo_user)
       (current_period (2025, 3, 14)) ''codex_builds'' \<le> l"
  using check_and_reserve_within_limit [OF demo_reserve, where k = "''codex_builds''" and u = 0 and per = "(0, 0, 0)"]
  by (auto simp: is_admin_def demo_user_def QUOTA_KINDS_def)

text \<open>a reservation followed by a refund of the same units is neutral. Units taken from a
  non-administrator by \<open>check_and_reserve\<close> and returned by \<open>refund\<close> in the same month come back
  in full, and every counter of every user is what it was before the reservation.
\<close>

lemma reserve_refund_neutral:
  assumes r: "check_and_reserve t today p kind units = Inr t1"
    and pos: "0 < units" and na: "\<not> is_admin p"
    and nn: "0 \<le> used t (user_id p) (current_period today) kind"
    and f: "refund t1 today (Some (user_id p)) kind units = Inr (t2, g)"
    and k: "k \<in> set QUOTA_KINDS"
  shows "g = units \<and> used t2 u per k = used t u per k"
proof -
  from r obtain ok where res: "reserve t today p kind units = Inr (t1, ok)" and ok: "ok"
    by (auto simp: check_and_reserve_def quota_limit_def result_iffs split: if_splits option.splits)
  have kind: "kind \<in> set QUOTA_KINDS" by (rule reserve_kind [OF res])
  from reserve_cases [OF res] pos na ok obtain l where
    tr: "try_reserve t (user_id p) (current_period today) kind units l = Inr (t1, True)" by auto
  from f pos kind have pr: "pg_refund t1 (user_id p) (current_period today) kind units = Inr (t2, g)"
    by (simp add: refund_def)
  show ?thesis
    using pgq.reserve_then_give_back [OF kind k _ nn tr pr] pos by simp
qed

lemma reserve_refund_neutral_witness:
  "\<exists>t2 g. refund [(7, (2025, 3, 1)) \<mapsto> usage_zero\<lparr>codex_builds := 2\<rparr>] (2025, 3, 14)
      (Some (user_id demo_user)) ''codex_builds'' 1 = Inr (t2, g) \<and> g = 1 \<and>
     used t2 7 (2025, 3, 1) ''codex_builds'' = used demo_quota 7 (2025, 3, 1) ''codex_builds''"
proof -
  have c: "''codex_builds'' \<in> set QUOTA_KINDS" by (simp add: QUOTA_KINDS_def)
  obtain t2 g where f: "refund [(7, (2025, 3, 1)) \<mapsto> usage_zero\<lparr>codex_builds := 2\<rparr>] (2025, 3, 14)
      (Some (user_id demo_user)) ''codex_builds'' 1 = Inr (t2, g)"
    using pgq.give_total [OF c] by (fastforce simp: refund_def check_kind_def ensure_def c)
  have nn: "0 \<le> used demo_quota (user_id demo_user) (current_period (2025, 3, 14)) ''codex_builds''"
    by (simp add: used_def demo_quota_def demo_user_def current_period_def get_usage_def column_def usage_zero_def)
  show ?thesis
    using reserve_refund_neutral [OF demo_reserve _ _ nn f c, of 7 "(2025, 3, 1)"] f
    by (auto simp: is_admin_def demo_user_def)
qed

section \<open>Clocks\<close>

text \<open>
  Every operation that reads the time takes a clock: \<open>now\<close> in seconds (PostgreSQL's \<open>now()\<close>) and
  the calendar day (\<open>dt.date.today()\<close>).
\<close>

record clock =
  now :: int
  today :: "int \<times> int \<times> int"

end
