(* ===== verification/Work_Store.thy ===== *)
theory Work_Store
  imports Ai_Backend Identity_Quota "HOL-Library.Multiset"
begin

text \<open>
  The \<open>jobs\<close> table of the Work module (\<open>db/schema.py\<close>) with the operations of
  \<open>modules/work/adapters/outbound/postgres.py\<close> that create, find, list and read jobs, and the atomic
  claim of \<open>modules/work/adapters/outbound/claims.py\<close>. The store also holds the \<open>quota_usage\<close> table,
  which finalisation writes in the same transaction. Each SQL statement runs atomically; rows
  locked by a concurrent claimer are the \<open>locked\<close> argument of \<open>claim_next\<close>.
\<close>

section \<open>Rows\<close>

datatype job_status = Queued | Running | Waiting_provider | Done | Failed | Canceled

fun status_value :: "job_status \<Rightarrow> string" where
  "status_value Queued = ''queued''"
| "status_value Running = ''running''"
| "status_value Waiting_provider = ''waiting_provider''"
| "status_value Done = ''done''"
| "status_value Failed = ''failed''"
| "status_value Canceled = ''canceled''"

record job =
  j_id :: int
  j_kind :: string
  j_novel_id :: "int option"
  j_user_id :: "int option"
  j_status :: job_status
  j_stage :: string
  j_progress :: json
  j_options :: json
  j_idempotency_key :: "string option"
  j_quota_kind :: "string option"
  j_quota_reserved :: int
  j_quota_consumed :: int
  j_quota_finalized :: bool
  j_error :: "string option"
  j_attempts :: int
  j_max_attempts :: int
  j_claim_token :: "string option"
  j_claimed_at :: "int option"
  j_backend_requested :: string
  j_execution_backend :: execution_backend
  j_backend_policy_version :: "int option"
  j_backend_fallback_allowed :: bool
  j_backend_fallback_from :: "string option"
  j_backend_model :: "string option"
  j_not_before :: "int option"
  j_cancel_requested_at :: "int option"
  j_created_at :: int
  j_updated_at :: int

definition KINDS :: "string list" where
  "KINDS = [''codex_illustrate'', ''scrape'', ''codex_build'', ''translate'', ''agy_smoke'', ''openai_codex_smoke'']"

definition TRIGGER_STATUSES :: "job_status list" where
  "TRIGGER_STATUSES = [Queued]"

definition ACTIVE_STATUSES :: "job_status list" where
  "ACTIVE_STATUSES = [Queued, Running, Waiting_provider]"

definition TERMINAL_STATUSES :: "job_status list" where
  "TERMINAL_STATUSES = [Done, Failed, Canceled]"

lemma status_partition: "s \<in> set TERMINAL_STATUSES \<longleftrightarrow> s \<notin> set ACTIVE_STATUSES"
  by (cases s) (simp_all add: TERMINAL_STATUSES_def ACTIVE_STATUSES_def)

lemmas status_sets = TRIGGER_STATUSES_def ACTIVE_STATUSES_def TERMINAL_STATUSES_def

record work_db =
  jobs :: "job list"
  next_job_id :: int
  quota :: quota_table

definition get_job :: "int \<Rightarrow> work_db \<Rightarrow> job option" where
  "get_job jid db = row_by j_id jid (jobs db)"

text \<open>\<open>UPDATE jobs SET f WHERE id=jid AND p\<close>, with the row the statement returns.\<close>

definition update_where :: "int \<Rightarrow> (job \<Rightarrow> bool) \<Rightarrow> (job \<Rightarrow> job) \<Rightarrow> (work_db, job option) op" where
  "update_where jid p f db =
     (Inr (case get_job jid db of None \<Rightarrow> None | Some j \<Rightarrow> if p j then Some (f j) else None),
      db\<lparr>jobs := sql_update (\<lambda>j. j_id j = jid \<and> p j) f (jobs db)\<rparr>)"

section \<open>Creating jobs\<close>

record new_job =
  nj_novel_id :: "int option"
  nj_user_id :: "int option"
  nj_options :: json
  nj_idempotency_key :: "string option"
  nj_quota_kind :: "string option"
  nj_quota_reserved :: int
  nj_max_attempts :: "int option"
  nj_backend_requested :: string
  nj_execution_backend :: execution_backend
  nj_backend_policy_version :: "int option"
  nj_backend_fallback_allowed :: bool
  nj_backend_model :: "string option"

definition is_subscription :: "execution_backend \<Rightarrow> bool" where
  "is_subscription b = (b = AGY \<or> b = OPENAI_CODEX)"

lemma is_subscription_API [simp]: "\<not> is_subscription API"
  by (simp add: is_subscription_def)

definition find_active :: "string \<Rightarrow> string \<Rightarrow> work_db \<Rightarrow> job option" where
  "find_active kind key db =
     (if key = [] then None
      else sql_first j_created_at
        (filter (\<lambda>j. j_kind j = kind \<and> j_idempotency_key j = Some key \<and> j_status j \<in> set ACTIVE_STATUSES)
          (jobs db)))"

text \<open>The key after \<open>(idempotency_key or "").strip() or None\<close>.\<close>

definition clean_key :: "string option \<Rightarrow> string option" where
  "clean_key k = (let s = py_strip (coalesce k []) in if s = [] then None else Some s)"

definition active_backend_jobs :: "int \<Rightarrow> execution_backend \<Rightarrow> work_db \<Rightarrow> nat" where
  "active_backend_jobs uid b db = sql_count
     (\<lambda>j. j_user_id j = Some uid \<and> j_execution_backend j = b \<and> j_status j \<in> set ACTIVE_STATUSES) (jobs db)"

definition check_subscription ::
  "string \<Rightarrow> new_job \<Rightarrow> (int \<Rightarrow> ai_policy option) option \<Rightarrow> work_db \<Rightarrow> unit result" where
  "check_subscription kind nj policy_lookup db =
     (case nj_user_id nj of
        None \<Rightarrow> Inr ()
      | Some uid \<Rightarrow>
          (if is_subscription (nj_execution_backend nj) \<and> kind \<notin> {''agy_smoke'', ''openai_codex_smoke''} then
             (case policy_lookup of
                None \<Rightarrow> Inl (BackendPolicyChangedError
                  ''AI policy lookup was not supplied by the scheduling workflow'')
              | Some look \<Rightarrow>
                  (case look uid of
                     None \<Rightarrow> Inl (BackendPolicyChangedError
                       (backend_value (nj_execution_backend nj) @ '' grant changed before the job was created''))
                   | Some p \<Rightarrow>
                       (if \<not> provider_enabled (nj_execution_backend nj) p then
                          Inl (BackendPolicyChangedError
                            (backend_value (nj_execution_backend nj) @ '' grant changed before the job was created''))
                        else if int (active_backend_jobs uid (nj_execution_backend nj) db)
                                 \<ge> provider_concurrency (nj_execution_backend nj) p then
                          Inl (ActiveJobLimitError
                            (''per-user '' @ backend_value (nj_execution_backend nj) @ '' job limit is already in use''))
                        else Inr ())))
           else Inr ()))"

definition inserted_job :: "string \<Rightarrow> new_job \<Rightarrow> string option \<Rightarrow> int \<Rightarrow> clock \<Rightarrow> int \<Rightarrow> job" where
  "inserted_job kind nj key max_att clk jid =
     \<lparr>j_id = jid, j_kind = kind, j_novel_id = nj_novel_id nj, j_user_id = nj_user_id nj,
      j_status = Queued, j_stage = ''queued'', j_progress = JObj [], j_options = nj_options nj,
      j_idempotency_key = key, j_quota_kind = nj_quota_kind nj, j_quota_reserved = nj_quota_reserved nj,
      j_quota_consumed = 0, j_quota_finalized = False, j_error = None, j_attempts = 0,
      j_max_attempts = max_att, j_claim_token = None, j_claimed_at = None,
      j_backend_requested = nj_backend_requested nj, j_execution_backend = nj_execution_backend nj,
      j_backend_policy_version = nj_backend_policy_version nj,
      j_backend_fallback_allowed = nj_backend_fallback_allowed nj, j_backend_fallback_from = None,
      j_backend_model = nj_backend_model nj, j_not_before = None, j_cancel_requested_at = None,
      j_created_at = now clk, j_updated_at = now clk\<rparr>"

text \<open>
  \<open>create_job\<close>: one transaction. The advisory lock on \<open>kind:key\<close> serialises creators of the same
  key, so the check and the insert are one step.
\<close>

definition create_job ::
  "settings \<Rightarrow> clock \<Rightarrow> string \<Rightarrow> new_job \<Rightarrow> (int \<Rightarrow> ai_policy option) option \<Rightarrow> (work_db, int \<times> bool) op" where
  "create_job cfg clk kind nj policy_lookup db =
     (if kind \<notin> set KINDS then (Inl (ValueError (''unknown job kind: '' @ kind)), db)
      else
        let max_att = coalesce (nj_max_attempts nj) (JOB_MAX_ATTEMPTS cfg);
            key = clean_key (nj_idempotency_key nj);
            existing = (case key of None \<Rightarrow> None | Some k \<Rightarrow> find_active kind k db)
        in case existing of
             Some j \<Rightarrow> (Inr (j_id j, False), db)
           | None \<Rightarrow>
               (case check_subscription kind nj policy_lookup db of
                  Inl e \<Rightarrow> (Inl e, db)
                | Inr _ \<Rightarrow>
                    (Inr (next_job_id db, True),
                     db\<lparr>jobs := jobs db @ [inserted_job kind nj key max_att clk (next_job_id db)],
                        next_job_id := next_job_id db + 1\<rparr>)))"

section \<open>Listing\<close>

definition opt_matches :: "'a option \<Rightarrow> 'a \<Rightarrow> bool" where
  "opt_matches filt v = (case filt of None \<Rightarrow> True | Some w \<Rightarrow> v = w)"

definition list_jobs ::
  "int option \<Rightarrow> string option \<Rightarrow> job_status option \<Rightarrow> int option \<Rightarrow> bool \<Rightarrow> int \<Rightarrow> work_db \<Rightarrow> job list" where
  "list_jobs uid kind st novel active_only limit db =
     take (nat (max 1 (min limit 500)))
       (sort_key (\<lambda>j. - j_created_at j)
         (filter (\<lambda>j. (case uid of None \<Rightarrow> True | Some u \<Rightarrow> j_user_id j = Some u) \<and>
                      opt_matches kind (j_kind j) \<and> opt_matches st (j_status j) \<and>
                      (case novel of None \<Rightarrow> True | Some n \<Rightarrow> j_novel_id j = Some n) \<and>
                      (active_only \<longrightarrow> j_status j \<in> set ACTIVE_STATUSES)) (jobs db)))"

section \<open>Claiming\<close>

definition claimable :: "clock \<Rightarrow> execution_backend \<Rightarrow> string list \<Rightarrow> int list \<Rightarrow> job \<Rightarrow> bool" where
  "claimable clk b kinds locked j =
     (j_status j \<in> set TRIGGER_STATUSES \<and> j_execution_backend j = b \<and> j_kind j \<in> set kinds \<and>
      (case j_not_before j of None \<Rightarrow> True | Some t \<Rightarrow> t \<le> now clk) \<and>
      j_cancel_requested_at j = None \<and> j_id j \<notin> set locked)"

definition claimed :: "clock \<Rightarrow> string \<Rightarrow> job \<Rightarrow> job" where
  "claimed clk worker j = j\<lparr>j_status := Running, j_stage := ''claimed'', j_attempts := j_attempts j + 1,
     j_claim_token := Some worker, j_claimed_at := Some (now clk), j_updated_at := now clk\<rparr>"

definition allowed_kinds :: "string list option \<Rightarrow> string list" where
  "allowed_kinds kinds = (case kinds of None \<Rightarrow> KINDS | Some ks \<Rightarrow> if ks = [] then KINDS else ks)"

definition claim_next ::
  "clock \<Rightarrow> execution_backend \<Rightarrow> string \<Rightarrow> string list option \<Rightarrow> int list \<Rightarrow> (work_db, job option) op" where
  "claim_next clk b worker kinds locked db =
     (case sql_first j_updated_at (filter (claimable clk b (allowed_kinds kinds) locked) (jobs db)) of
        None \<Rightarrow> (Inr None, db)
      | Some j \<Rightarrow> update_where (j_id j) (\<lambda>_. True) (claimed clk worker) db)"

section \<open>Well-formed stores\<close>

text \<open>
  Row invariants: the quota kind is a known one (or empty, or absent), the consumption never passes
  the reservation, a lease (token and stamp) belongs to a running job and only to one, a running API
  job has no cancellation pending (the cancel request stops it at once). Table invariants: ids are unique and
  below the sequence.
\<close>

definition known_kind :: "string option \<Rightarrow> bool" where
  "known_kind k = (case k of None \<Rightarrow> True | Some s \<Rightarrow> s = [] \<or> s \<in> set QUOTA_KINDS)"

definition job_ok :: "job \<Rightarrow> bool" where
  "job_ok j \<longleftrightarrow>
     0 \<le> j_quota_consumed j \<and> j_quota_consumed j \<le> j_quota_reserved j \<and>
     (j_claim_token j \<noteq> None \<longleftrightarrow> j_status j = Running) \<and>
     (j_claimed_at j \<noteq> None \<longleftrightarrow> j_status j = Running) \<and>
     (j_status j = Running \<and> j_execution_backend j = API \<longrightarrow> j_cancel_requested_at j = None) \<and>
     0 \<le> j_attempts j \<and> j_kind j \<in> set KINDS \<and> known_kind (j_quota_kind j)"

definition db_ok :: "work_db \<Rightarrow> bool" where
  "db_ok db \<longleftrightarrow> distinct (map j_id (jobs db)) \<and> (\<forall>j \<in> set (jobs db). j_id j < next_job_id db) \<and>
     list_all job_ok (jobs db)"

lemma db_ok_job: "db_ok db \<Longrightarrow> get_job jid db = Some j \<Longrightarrow> job_ok j \<and> j_id j = jid"
  by (auto simp: db_ok_def get_job_def list_all_iff dest: row_by_Some)

text \<open>An update that keeps the id and the row invariant keeps the store invariant.\<close>

lemma update_where_db_ok:
  assumes "\<And>j. j_id (f j) = j_id j" and "\<And>j. job_ok j \<Longrightarrow> p j \<Longrightarrow> job_ok (f j)" and "db_ok db"
  shows "db_ok (snd (update_where jid p f db))"
  using assms by (fastforce simp: db_ok_def update_where_def map_sql_update set_sql_update list_all_iff)

lemma update_where_result:
  "fst (update_where jid p f db) = Inr r \<Longrightarrow>
   r = (case get_job jid db of None \<Rightarrow> None | Some j \<Rightarrow> if p j then Some (f j) else None)"
  by (simp add: update_where_def)

lemma get_job_update_where [sql]:
  assumes "\<And>j. j_id (f j) = j_id j"
  shows "get_job i (snd (update_where jid p f db)) =
    (if i = jid then map_option (\<lambda>j. if p j then f j else j) (get_job i db) else get_job i db)"
  using row_by_update_key [of j_id f i jid p "jobs db"] assms
  by (simp add: get_job_def update_where_def)

lemma quota_update_where [simp]: "quota (snd (update_where jid p f db)) = quota db"
  by (simp add: update_where_def)

lemma claimed_fields [simp]:
  "j_id (claimed clk w j) = j_id j" "j_status (claimed clk w j) = Running"
  "j_claim_token (claimed clk w j) = Some w" "j_attempts (claimed clk w j) = j_attempts j + 1"
  by (simp_all add: claimed_def)

lemma get_job_in: "db_ok db \<Longrightarrow> j \<in> set (jobs db) \<Longrightarrow> get_job (j_id j) db = Some j"
  by (simp add: get_job_def db_ok_def row_by_in)

lemma claim_next_update:
  assumes ok: "db_ok db" and f: "sql_first j_updated_at (filter (claimable clk b (allowed_kinds ks) locked) (jobs db)) = Some i"
  shows "snd (claim_next clk b w ks locked db) =
    db\<lparr>jobs := sql_update (\<lambda>j. j_id j = j_id i \<and> claimable clk b (allowed_kinds ks) locked j) (claimed clk w) (jobs db)\<rparr>"
proof -
  have i: "i \<in> set (jobs db)" "claimable clk b (allowed_kinds ks) locked i"
    using sql_first_Some_in [OF f] by auto
  have same: "j = i" if "j \<in> set (jobs db)" "j_id j = j_id i" for j
    by (metis get_job_in [OF ok that(1)] get_job_in [OF ok i(1)] that(2) option.inject)
  have "sql_update (\<lambda>j. j_id j = j_id i \<and> True) (claimed clk w) (jobs db) =
      sql_update (\<lambda>j. j_id j = j_id i \<and> claimable clk b (allowed_kinds ks) locked j) (claimed clk w) (jobs db)"
    unfolding sql_update_def
  proof (rule map_cong [OF refl])
    fix j assume "j \<in> set (jobs db)"
    then have "j_id j = j_id i \<Longrightarrow> claimable clk b (allowed_kinds ks) locked j"
      using same i(2) by blast
    then show "(if j_id j = j_id i \<and> True then claimed clk w j else j) =
        (if j_id j = j_id i \<and> claimable clk b (allowed_kinds ks) locked j then claimed clk w j else j)"
      by presburger
  qed
  then show ?thesis unfolding claim_next_def f by (simp only: option.case update_where_def snd_conv)
qed

lemma claimed_ok: "job_ok j \<Longrightarrow> claimable clk b ks l j \<Longrightarrow> job_ok (claimed clk w j)"
  by (simp add: job_ok_def claimed_def claimable_def)

lemma claim_next_db_ok: "db_ok db \<Longrightarrow> db_ok (snd (claim_next clk b w ks locked db))"
proof (cases "sql_first j_updated_at (filter (claimable clk b (allowed_kinds ks) locked) (jobs db))")
  case None
  then show "db_ok db \<Longrightarrow> ?thesis" by (simp add: claim_next_def)
next
  case (Some i)
  assume ok: "db_ok db"
  have "db_ok (snd (update_where (j_id i) (claimable clk b (allowed_kinds ks) locked) (claimed clk w) db))"
    by (rule update_where_db_ok [OF _ _ ok]) (auto intro: claimed_ok)
  then show ?thesis unfolding claim_next_update [OF ok Some] update_where_def by (simp only: snd_conv)
qed

lemma claim_nextD:
  assumes ok: "db_ok db" and c: "fst (claim_next clk b w ks locked db) = Inr (Some j)"
  shows "\<exists>j0 \<in> set (jobs db). j = claimed clk w j0 \<and> claimable clk b (allowed_kinds ks) locked j0 \<and>
     (\<forall>i \<in> set (jobs db). claimable clk b (allowed_kinds ks) locked i \<longrightarrow> j_updated_at j0 \<le> j_updated_at i) \<and>
     snd (claim_next clk b w ks locked db) = snd (update_where (j_id j0) (\<lambda>_. True) (claimed clk w) db)"
proof -
  let ?rows = "filter (claimable clk b (allowed_kinds ks) locked) (jobs db)"
  from c obtain j0 where f: "sql_first j_updated_at ?rows = Some j0"
    by (auto simp: claim_next_def split: option.splits)
  have j0: "j0 \<in> set (jobs db)" "claimable clk b (allowed_kinds ks) locked j0"
    using sql_first_Some_in [OF f] by auto
  from f c get_job_in [OF ok j0(1)] have "j = claimed clk w j0"
    by (simp add: claim_next_def update_where_def)
  moreover have "\<forall>i \<in> set (jobs db). claimable clk b (allowed_kinds ks) locked i \<longrightarrow> j_updated_at j0 \<le> j_updated_at i"
    using sql_first_least [OF f] by simp
  ultimately show ?thesis using f j0 by (auto simp: claim_next_def)
qed

lemma create_job_db_ok:
  assumes "db_ok db" "0 \<le> nj_quota_reserved nj" "known_kind (nj_quota_kind nj)"
  shows "db_ok (snd (create_job cfg clk kind nj look db))"
  using assms
  by (fastforce simp: create_job_def Let_def db_ok_def job_ok_def inserted_job_def
      split: option.splits sum.splits)

section \<open>Properties\<close>

text \<open>creating a job is idempotent per key. While a job of the kind with the same non-blank key is
  active, \<open>create_job\<close> returns the id of the oldest such job with \<open>created = False\<close> and writes
  nothing, whatever the other arguments are.
\<close>

lemma create_job_dedupes:
  assumes "kind \<in> set KINDS" and "clean_key (nj_idempotency_key nj) = Some k"
    and "j \<in> set (jobs db)" "j_kind j = kind" "j_idempotency_key j = Some k" "j_status j \<in> set ACTIVE_STATUSES"
  shows "\<exists>i \<in> set (jobs db). create_job cfg clk kind nj look db = (Inr (j_id i, False), db) \<and>
     j_kind i = kind \<and> j_idempotency_key i = Some k \<and> j_status i \<in> set ACTIVE_STATUSES \<and>
     j_created_at i \<le> j_created_at j"
proof -
  let ?rows = "filter (\<lambda>j. j_kind j = kind \<and> j_idempotency_key j = Some k \<and> j_status j \<in> set ACTIVE_STATUSES) (jobs db)"
  have j: "j \<in> set ?rows" using assms by simp
  then obtain i where i: "sql_first j_created_at ?rows = Some i"
    by (cases "sql_first j_created_at ?rows") (auto simp only: sql_first_None_iff set_empty2 empty_iff list.set)
  have "k \<noteq> []" using assms(2) by (auto simp: clean_key_def Let_def split: if_splits)
  with i assms(1,2) have "create_job cfg clk kind nj look db = (Inr (j_id i, False), db)"
    by (simp add: create_job_def find_active_def)
  moreover have "i \<in> set ?rows" "j_created_at i \<le> j_created_at j"
    using sql_first_Some_in [OF i] sql_first_least [OF i j] by auto
  ultimately show ?thesis by auto
qed

definition demo_new_job :: new_job where
  "demo_new_job = \<lparr>nj_novel_id = Some 3, nj_user_id = Some 7, nj_options = JObj [],
     nj_idempotency_key = Some '' build:3 '', nj_quota_kind = Some ''codex_builds'', nj_quota_reserved = 1,
     nj_max_attempts = None, nj_backend_requested = ''auto'', nj_execution_backend = API,
     nj_backend_policy_version = None, nj_backend_fallback_allowed = False, nj_backend_model = None\<rparr>"

definition demo_job :: job where
  "demo_job = inserted_job ''codex_build'' demo_new_job (Some ''build:3'') 3 \<lparr>now = 100, today = (2025, 3, 14)\<rparr> 1"

definition demo_db :: work_db where
  "demo_db = \<lparr>jobs = [demo_job], next_job_id = 2, quota = [(7, (2025, 3, 1)) \<mapsto> usage_zero\<lparr>codex_builds := 1\<rparr>]\<rparr>"

lemma demo_key: "clean_key (nj_idempotency_key demo_new_job) = Some ''build:3''"
  by (simp add: clean_key_def demo_new_job_def py_strip_def py_lstrip_def py_rstrip_def is_py_space_def Let_def)

lemma create_job_dedupes_witness:
  "\<exists>i \<in> set (jobs demo_db). create_job demo_settings \<lparr>now = 200, today = (2025, 3, 15)\<rparr> ''codex_build'' demo_new_job
      None demo_db = (Inr (j_id i, False), demo_db)"
  using create_job_dedupes [of "''codex_build''" demo_new_job "''build:3''" demo_job demo_db] demo_key
  by (auto simp: KINDS_def demo_db_def demo_job_def inserted_job_def ACTIVE_STATUSES_def)

text \<open>subscription concurrency is enforced at creation. When \<open>create_job\<close> inserts a subscription job
  of a user (a kind other than the smoke tests), a policy grants that backend to the user and the
  user's active jobs of the backend, the new one included, are within the policy's limit.
\<close>

lemma create_job_within_concurrency:
  assumes c: "create_job cfg clk kind nj look db = (Inr (jid, True), db')"
    and u: "nj_user_id nj = Some uid" and b: "is_subscription (nj_execution_backend nj)"
    and k: "kind \<notin> {''agy_smoke'', ''openai_codex_smoke''}"
  shows "\<exists>f p. look = Some f \<and> f uid = Some p \<and> provider_enabled (nj_execution_backend nj) p \<and>
     int (active_backend_jobs uid (nj_execution_backend nj) db') \<le> provider_concurrency (nj_execution_backend nj) p"
proof -
  from c u b k obtain f p where fp: "look = Some f" "f uid = Some p" "provider_enabled (nj_execution_backend nj) p"
    and lim: "int (active_backend_jobs uid (nj_execution_backend nj) db) < provider_concurrency (nj_execution_backend nj) p"
    and db': "jobs db' = jobs db @ [inserted_job kind nj (clean_key (nj_idempotency_key nj))
        (coalesce (nj_max_attempts nj) (JOB_MAX_ATTEMPTS cfg)) clk (next_job_id db)]"
    by (auto simp: create_job_def Let_def check_subscription_def split: if_splits option.splits sum.splits)
  from db' u have "active_backend_jobs uid (nj_execution_backend nj) db' =
      active_backend_jobs uid (nj_execution_backend nj) db + 1"
    by (simp add: active_backend_jobs_def sql_count_def inserted_job_def ACTIVE_STATUSES_def)
  with fp lim show ?thesis by auto
qed

definition demo_agy_policy :: ai_policy where
  "demo_agy_policy = \<lparr>p_user_id = 7, agy_enabled = True, openai_codex_enabled = False, default_backend = AGY,
     agy_workloads = [''codex_extract''], openai_codex_workloads = [], fallback_to_api = False,
     max_concurrent_agy_jobs = 1, max_concurrent_openai_codex_jobs = 1, policy_version = 4,
     p_notes = None, granted_by = Some 1\<rparr>"

lemma create_job_within_concurrency_witness:
  "\<exists>db'. create_job demo_settings \<lparr>now = 200, today = (2025, 3, 15)\<rparr> ''codex_build''
       (demo_new_job\<lparr>nj_execution_backend := AGY, nj_idempotency_key := None\<rparr>) (Some (\<lambda>_. Some demo_agy_policy)) demo_db
       = (Inr (2, True), db') \<and> int (active_backend_jobs 7 AGY db') \<le> 1"
proof -
  let ?nj = "demo_new_job\<lparr>nj_execution_backend := AGY, nj_idempotency_key := None\<rparr>"
  obtain db' where c: "create_job demo_settings \<lparr>now = 200, today = (2025, 3, 15)\<rparr> ''codex_build'' ?nj
      (Some (\<lambda>_. Some demo_agy_policy)) demo_db = (Inr (2, True), db')"
    by (simp add: create_job_def KINDS_def clean_key_def check_subscription_def is_subscription_def
        demo_agy_policy_def demo_db_def demo_new_job_def demo_job_def inserted_job_def active_backend_jobs_def
        sql_count_def)
  with create_job_within_concurrency [OF c, of 7] show ?thesis
    by (auto simp: is_subscription_def demo_agy_policy_def demo_new_job_def)
qed

text \<open>
  C33: a claim is exclusive and fair. A successful \<open>claim_next\<close> hands out a job that was queued, due,
  not cancel-requested, of the right backend and kind and not locked by another claimer, and no
  claimable job was updated earlier; the job is then running under the claimer's token with one more
  attempt, so no further claim by anybody returns it, and every other job is untouched.
\<close>

theorem claim_next_exclusive:
  assumes ok: "db_ok db" and c: "claim_next clk b w ks locked db = (Inr (Some j), db')"
  shows "\<exists>j0. get_job (j_id j) db = Some j0 \<and> claimable clk b (allowed_kinds ks) locked j0 \<and>
     (\<forall>i \<in> set (jobs db). claimable clk b (allowed_kinds ks) locked i \<longrightarrow> j_updated_at j0 \<le> j_updated_at i) \<and>
     j = claimed clk w j0 \<and> get_job (j_id j) db' = Some j \<and>
     (\<forall>i. i \<noteq> j_id j \<longrightarrow> get_job i db' = get_job i db) \<and>
     (\<forall>clk' b' w' ks' l' j'. fst (claim_next clk' b' w' ks' l' db') = Inr (Some j') \<longrightarrow> j_id j' \<noteq> j_id j)"
proof -
  from claim_nextD [OF ok, of clk b w ks locked j] c obtain j0 where j0: "j0 \<in> set (jobs db)"
    and j: "j = claimed clk w j0" and cl: "claimable clk b (allowed_kinds ks) locked j0"
    and least: "\<forall>i \<in> set (jobs db). claimable clk b (allowed_kinds ks) locked i \<longrightarrow> j_updated_at j0 \<le> j_updated_at i"
    and db': "db' = snd (update_where (j_id j0) (\<lambda>_. True) (claimed clk w) db)" by auto
  have g0: "get_job (j_id j) db = Some j0" using get_job_in [OF ok j0] j by simp
  have get': "get_job i db' = (if i = j_id j then Some j else get_job i db)" for i
    using g0 j by (auto simp: db' get_job_update_where)
  have ok': "db_ok db'" using claim_next_db_ok [OF ok, of clk b w ks locked] c by simp
  have "j_id j' \<noteq> j_id j" if cl': "fst (claim_next clk' b' w' ks' l' db') = Inr (Some j')" for clk' b' w' ks' l' j'
  proof
    assume eq: "j_id j' = j_id j"
    from claim_nextD [OF ok' cl'] obtain k0 where k0: "k0 \<in> set (jobs db')" "j' = claimed clk' w' k0"
      "claimable clk' b' (allowed_kinds ks') l' k0" by auto
    have "j_id k0 = j_id j" using eq k0(2) by simp
    then have "k0 = j" using get_job_in [OF ok' k0(1)] get' [of "j_id k0"] by simp
    then have "j_status k0 = Running" using j by simp
    with k0(3) show False by (simp add: claimable_def TRIGGER_STATUSES_def)
  qed
  then have again: "\<forall>clk' b' w' ks' l' j'. fst (claim_next clk' b' w' ks' l' db') = Inr (Some j') \<longrightarrow> j_id j' \<noteq> j_id j"
    by blast
  have same: "get_job (j_id j) db' = Some j \<and> (\<forall>i. i \<noteq> j_id j \<longrightarrow> get_job i db' = get_job i db)"
    by (simp add: get')
  from g0 cl least j same again show ?thesis by (intro exI [of _ j0] conjI) simp_all
qed

lemma demo_db_ok: "db_ok demo_db"
  by (simp add: db_ok_def demo_db_def demo_job_def inserted_job_def job_ok_def demo_new_job_def KINDS_def
      known_kind_def QUOTA_KINDS_def)

definition demo_claimed :: job where
  "demo_claimed = claimed \<lparr>now = 130, today = (2025, 3, 14)\<rparr> ''w1'' demo_job"

definition demo_running_db :: work_db where
  "demo_running_db = demo_db\<lparr>jobs := [demo_claimed]\<rparr>"

lemma demo_claimable: "claimable \<lparr>now = 130, today = (2025, 3, 14)\<rparr> API (allowed_kinds None) [] demo_job"
  by (simp add: claimable_def TRIGGER_STATUSES_def allowed_kinds_def KINDS_def demo_job_def inserted_job_def demo_new_job_def)

lemma demo_claim:
  "claim_next \<lparr>now = 130, today = (2025, 3, 14)\<rparr> API ''w1'' None [] demo_db = (Inr (Some demo_claimed), demo_running_db)"
  using demo_claimable
  by (simp add: claim_next_def demo_db_def update_where_def get_job_def demo_claimed_def demo_running_db_def)

lemma demo_claimed_id: "j_id demo_claimed = 1"
  by (simp add: demo_claimed_def demo_job_def inserted_job_def)

lemma demo_running_db_ok: "db_ok demo_running_db"
  using claim_next_db_ok [OF demo_db_ok, of "\<lparr>now = 130, today = (2025, 3, 14)\<rparr>" API "''w1''" None "[]"]
  by (simp add: demo_claim)

theorem claim_next_exclusive_witness:
  "\<not> (\<exists>clk' b' w' ks' l' j'. fst (claim_next clk' b' w' ks' l' demo_running_db) = Inr (Some j') \<and> j_id j' = 1)"
  using claim_next_exclusive [OF demo_db_ok demo_claim] unfolding demo_claimed_id by blast

end
