(* ===== verification/Work_Lifecycle.thy ===== *)
theory Work_Lifecycle
  imports Work_Store
begin

text \<open>
  State transitions of durable jobs: quota finalisation
  (\<open>modules/work/adapters/outbound/transactions.py\<close>, \<open>workflows/finalize_job_quota.py\<close>), the
  transitions of \<open>modules/work/adapters/outbound/postgres.py\<close> and the worker-side statements of
  \<open>modules/work/adapters/outbound/worker_state.py\<close>. Audit rows and log lines, which never raise
  into the caller, are left out.
\<close>

section \<open>Quota finalisation\<close>

record settlement =
  s_user_id :: "int option"
  s_novel_id :: "int option"
  s_quota_kind :: "string option"
  s_refundable_units :: int

definition settled :: "clock \<Rightarrow> bool \<Rightarrow> job \<Rightarrow> job" where
  "settled clk success j = j\<lparr>j_quota_finalized := True,
     j_quota_consumed := (if success \<and> \<not> (is_subscription (j_execution_backend j) \<and> j_kind j = ''translate'')
                          then j_quota_reserved j else j_quota_consumed j),
     j_updated_at := now clk\<rparr>"

definition finalize_quota :: "clock \<Rightarrow> int \<Rightarrow> bool \<Rightarrow> (work_db, settlement option) op" where
  "finalize_quota clk jid success =
     bindS (update_where jid (\<lambda>j. \<not> j_quota_finalized j) (settled clk success)) (\<lambda>row.
       returnS (map_option (\<lambda>j. \<lparr>s_user_id = j_user_id j, s_novel_id = j_novel_id j, s_quota_kind = j_quota_kind j,
         s_refundable_units = max 0 (j_quota_reserved j - j_quota_consumed j)\<rparr>) row))"

definition quota_refund :: "clock \<Rightarrow> int option \<Rightarrow> string \<Rightarrow> int \<Rightarrow> (work_db, int) op" where
  "quota_refund clk uid kind units db =
     (case tx_refund (quota db) (today clk) uid kind units of
        Inl e \<Rightarrow> (Inl e, db)
      | Inr (q, g) \<Rightarrow> (Inr g, db\<lparr>quota := q\<rparr>))"

definition finalize_job_quota :: "clock \<Rightarrow> int \<Rightarrow> bool \<Rightarrow> (work_db, settlement option \<times> int) op" where
  "finalize_job_quota clk jid success = atomicS
     (bindS (finalize_quota clk jid success) (\<lambda>st.
        case st of
          None \<Rightarrow> returnS (None, 0)
        | Some s \<Rightarrow>
            (case s_quota_kind s of
               None \<Rightarrow> returnS (Some s, 0)
             | Some kind \<Rightarrow>
                 (if kind \<noteq> [] \<and> s_user_id s \<noteq> None \<and> s_refundable_units s > 0
                  then bindS (quota_refund clk (s_user_id s) kind (s_refundable_units s))
                         (\<lambda>g. returnS (Some s, g))
                  else returnS (Some s, 0)))))"

definition finalize :: "clock \<Rightarrow> int \<Rightarrow> bool \<Rightarrow> (work_db, unit) op" where
  "finalize clk jid success = bindS (finalize_job_quota clk jid success) (\<lambda>_. returnS ())"

definition release_translation_reservation_for_fallback :: "clock \<Rightarrow> int \<Rightarrow> (work_db, unit) op" where
  "release_translation_reservation_for_fallback clk jid = finalize clk jid False"

definition increment_quota_consumed :: "clock \<Rightarrow> int \<Rightarrow> int \<Rightarrow> (work_db, unit) op" where
  "increment_quota_consumed clk jid units =
     (if units \<le> 0 then returnS ()
      else bindS (update_where jid
             (\<lambda>j. \<not> j_quota_finalized j \<and> j_quota_consumed j + units \<le> j_quota_reserved j)
             (\<lambda>j. j\<lparr>j_quota_consumed := j_quota_consumed j + units, j_updated_at := now clk\<rparr>))
           (\<lambda>row. if row = None
                  then raiseS (RuntimeError ''job quota reservation is missing, finalized, or exhausted'')
                  else returnS ()))"

section \<open>Cancellation and completion\<close>

definition set_progress :: "clock \<Rightarrow> int \<Rightarrow> json \<Rightarrow> string option \<Rightarrow> (work_db, unit) op" where
  "set_progress clk jid progress stage =
     bindS (update_where jid (\<lambda>_. True)
       (\<lambda>j. j\<lparr>j_progress := progress, j_stage := coalesce stage (j_stage j), j_updated_at := now clk\<rparr>))
     (\<lambda>_. returnS ())"

definition cancel_row :: "clock \<Rightarrow> job \<Rightarrow> job" where
  "cancel_row clk j =
     (if j_status j = Running \<and> is_subscription (j_execution_backend j)
      then j\<lparr>j_status := Running, j_stage := ''cancel requested'', j_cancel_requested_at := Some (now clk),
             j_updated_at := now clk\<rparr>
      else j\<lparr>j_status := Canceled, j_stage := ''canceled'', j_cancel_requested_at := Some (now clk),
             j_claim_token := None, j_claimed_at := None, j_updated_at := now clk\<rparr>)"

definition cancel_job :: "clock \<Rightarrow> int \<Rightarrow> (work_db, bool) op" where
  "cancel_job clk jid =
     bindS (update_where jid (\<lambda>j. j_status j \<in> {Queued, Running, Waiting_provider}) (cancel_row clk)) (\<lambda>row.
       case row of
         None \<Rightarrow> returnS False
       | Some j \<Rightarrow>
           (if j_status j = Canceled then bindS (finalize clk jid False) (\<lambda>_. returnS True)
            else returnS True))"

definition is_canceled :: "int \<Rightarrow> work_db \<Rightarrow> bool" where
  "is_canceled jid db = (case get_job jid db of None \<Rightarrow> False
     | Some j \<Rightarrow> j_status j = Canceled \<or> j_cancel_requested_at j \<noteq> None)"

definition released :: "job_status \<Rightarrow> string \<Rightarrow> clock \<Rightarrow> job \<Rightarrow> job" where
  "released st stage clk j = j\<lparr>j_status := st, j_stage := stage, j_claim_token := None,
     j_claimed_at := None, j_updated_at := now clk\<rparr>"

definition mark_canceled_if_running :: "clock \<Rightarrow> int \<Rightarrow> (work_db, bool) op" where
  "mark_canceled_if_running clk jid =
     bindS (update_where jid (\<lambda>j. j_status j = Running \<and> j_cancel_requested_at j \<noteq> None)
             (released Canceled ''canceled'' clk)) (\<lambda>row.
       if row = None then returnS False
       else bindS (finalize clk jid False) (\<lambda>_. returnS True))"

definition mark_done_if_running :: "clock \<Rightarrow> int \<Rightarrow> json option \<Rightarrow> (work_db, bool) op" where
  "mark_done_if_running clk jid progress =
     bindS (update_where jid (\<lambda>j. j_status j = Running)
             (\<lambda>j. (released Done ''done'' clk j)\<lparr>j_error := None, j_progress := coalesce progress (j_progress j)\<rparr>))
       (\<lambda>row. returnS (row \<noteq> None))"

section \<open>Failure, retry and provider waits\<close>

text \<open>
  The back-off \<open>LEAST(300, power(2, attempts)::int * 5)\<close>: both the cast and the product are 32-bit
  and raise when they overflow.
\<close>

definition retry_delay :: "int \<Rightarrow> int result" where
  "retry_delay attempts =
     (let p = (if attempts < 0 then 0 else 2 ^ nat attempts)
      in if p > 2147483647 \<or> p * 5 > 2147483647 then Inl (DatabaseError ''integer out of range'')
         else Inr (min 300 (p * 5)))"

definition exhausted :: "job \<Rightarrow> bool" where
  "exhausted j \<longleftrightarrow> j_attempts j \<ge> j_max_attempts j"

definition retry_stage :: "job \<Rightarrow> string" where
  "retry_stage j = ''retrying after error (attempt '' @ show_int (j_attempts j) @ ''/'' @ show_int (j_max_attempts j) @ '')''"

definition failed_row :: "clock \<Rightarrow> string \<Rightarrow> int \<Rightarrow> job \<Rightarrow> job" where
  "failed_row clk err delay j =
     (if exhausted j then (released Failed ''failed'' clk j)\<lparr>j_error := Some err, j_not_before := None\<rparr>
      else (released Queued (retry_stage j) clk j)\<lparr>j_error := Some err, j_not_before := Some (now clk + delay)\<rparr>)"

definition fail_or_retry :: "clock \<Rightarrow> int \<Rightarrow> string \<Rightarrow> (work_db, unit) op" where
  "fail_or_retry clk jid error db =
     (let err = take 4000 error;
          delay = (case get_job jid db of
                     None \<Rightarrow> Inr 0
                   | Some j \<Rightarrow> if j_status j = Running \<and> \<not> exhausted j then retry_delay (j_attempts j) else Inr 0)
      in case delay of
           Inl e \<Rightarrow> (Inl e, db)
         | Inr d \<Rightarrow>
             bindS (update_where jid (\<lambda>j. j_status j = Running) (failed_row clk err d)) (\<lambda>row.
               case row of
                 None \<Rightarrow> finalize clk jid False
               | Some j \<Rightarrow> if j_status j = Failed then finalize clk jid False else returnS ()) db)"

definition wait_for_provider :: "clock \<Rightarrow> int \<Rightarrow> string \<Rightarrow> int \<Rightarrow> (work_db, bool) op" where
  "wait_for_provider clk jid error minutes =
     bindS (update_where jid (\<lambda>j. j_status j = Running)
       (\<lambda>j. (released Waiting_provider
               (if j_execution_backend j = OPENAI_CODEX then ''waiting for OpenAI Codex provider''
                else ''waiting for AGY provider'') clk j)
              \<lparr>j_error := Some (take 4000 error), j_not_before := Some (now clk + 60 * max 1 minutes)\<rparr>))
       (\<lambda>row. returnS (row \<noteq> None))"

definition requeued :: "string \<Rightarrow> clock \<Rightarrow> job \<Rightarrow> job" where
  "requeued stage clk j = j\<lparr>j_status := Queued, j_stage := stage, j_not_before := None, j_updated_at := now clk\<rparr>"

definition retry_waiting :: "clock \<Rightarrow> int option \<Rightarrow> execution_backend option \<Rightarrow> (work_db, int) op" where
  "retry_waiting clk jid backend db =
     (let p = (\<lambda>j. j_status j = Waiting_provider \<and>
                 (case jid of
                    None \<Rightarrow> opt_matches backend (j_execution_backend j)
                  | Some i \<Rightarrow> j_id j = i))
      in (Inr (int (sql_count p (jobs db))),
          db\<lparr>jobs := sql_update p (\<lambda>j. (requeued ''queued'' clk j)\<lparr>j_error := None\<rparr>) (jobs db)\<rparr>))"

definition release_due_provider_waits :: "clock \<Rightarrow> (work_db, unit) op" where
  "release_due_provider_waits clk db =
     (Inr (), db\<lparr>jobs := sql_update
        (\<lambda>j. j_status j = Waiting_provider \<and> (case j_not_before j of None \<Rightarrow> False | Some t \<Rightarrow> t \<le> now clk))
        (requeued ''queued after provider wait'' clk) (jobs db)\<rparr>)"

definition provider_label :: "execution_backend \<Rightarrow> string" where
  "provider_label b = (if b = OPENAI_CODEX then ''OpenAI Codex'' else ''AGY'')"

definition fallback_to_api ::
  "clock \<Rightarrow> execution_backend \<Rightarrow> int \<Rightarrow> string option \<Rightarrow> int \<Rightarrow> string \<Rightarrow> (work_db, bool) op" where
  "fallback_to_api clk backend jid model max_att error =
     bindS (update_where jid (\<lambda>j. j_status j = Running)
       (\<lambda>j. (released Queued (provider_label backend @ '' failed; switching to API'') clk j)
              \<lparr>j_execution_backend := API, j_backend_fallback_from := Some (backend_value backend),
               j_backend_model := model, j_backend_fallback_allowed := False, j_attempts := 0,
               j_max_attempts := max_att, j_error := Some error, j_not_before := None,
               j_cancel_requested_at := None\<rparr>))
       (\<lambda>row. returnS (row \<noteq> None))"

section \<open>Leases\<close>

definition renew_lease :: "clock \<Rightarrow> int \<Rightarrow> string option \<Rightarrow> (work_db, unit) op" where
  "renew_lease clk jid token =
     (case token of
        None \<Rightarrow> returnS ()
      | Some t \<Rightarrow>
          (if t = [] then returnS ()
           else bindS (update_where jid (\<lambda>j. j_claim_token j = Some t \<and> j_status j = Running)
                        (\<lambda>j. j\<lparr>j_claimed_at := Some (now clk)\<rparr>)) (\<lambda>_. returnS ())))"

definition stale :: "clock \<Rightarrow> int \<Rightarrow> job \<Rightarrow> bool" where
  "stale clk lease j \<longleftrightarrow> j_status j = Running \<and>
     (case j_claimed_at j of None \<Rightarrow> True | Some t \<Rightarrow> t < now clk - lease)"

record lease_row =
  l_id :: int
  l_attempts :: int
  l_max_attempts :: int
  l_cancel_requested :: bool

definition stale_leases :: "clock \<Rightarrow> int \<Rightarrow> work_db \<Rightarrow> lease_row list" where
  "stale_leases clk lease db =
     map (\<lambda>j. \<lparr>l_id = j_id j, l_attempts = j_attempts j, l_max_attempts = j_max_attempts j,
               l_cancel_requested = (j_cancel_requested_at j \<noteq> None)\<rparr>)
       (filter (stale clk lease) (jobs db))"

definition cancel_stale_lease :: "clock \<Rightarrow> int \<Rightarrow> int \<Rightarrow> (work_db, bool) op" where
  "cancel_stale_lease clk lease jid =
     bindS (update_where jid (\<lambda>j. stale clk lease j \<and> j_cancel_requested_at j \<noteq> None)
             (released Canceled ''canceled (worker lost after request)'' clk))
       (\<lambda>row. returnS (row \<noteq> None))"

definition fail_stale_lease :: "clock \<Rightarrow> int \<Rightarrow> int \<Rightarrow> (work_db, bool) op" where
  "fail_stale_lease clk lease jid =
     bindS (update_where jid (stale clk lease)
             (\<lambda>j. (released Failed ''failed (worker lost)'' clk j)
                \<lparr>j_error := Some (coalesce (j_error j) ''Worker lost the job before it finished (lease expired).'')\<rparr>))
       (\<lambda>row. returnS (row \<noteq> None))"

definition requeue_stale_lease :: "clock \<Rightarrow> int \<Rightarrow> int \<Rightarrow> (work_db, bool) op" where
  "requeue_stale_lease clk lease jid =
     bindS (update_where jid (stale clk lease) (released Queued ''requeued (lease expired)'' clk))
       (\<lambda>row. returnS (row \<noteq> None))"

section \<open>The store invariant\<close>

lemmas row_defs = settled_def cancel_row_def released_def failed_row_def requeued_def

lemma keeps_update_where [keeps_rules]:
  assumes "\<And>j. j_id (f j) = j_id j" and "\<And>j. job_ok j \<Longrightarrow> p j \<Longrightarrow> job_ok (f j)"
  shows "keeps db_ok (update_where jid p f)"
  using update_where_db_ok [OF assms] by (simp add: keeps_def)

lemma keeps_quota_refund [keeps_rules]: "keeps db_ok (quota_refund clk uid kind units)"
  by (auto simp: keeps_def quota_refund_def db_ok_def split: sum.splits)

lemma keeps_finalize_quota [keeps_rules]: "keeps db_ok (finalize_quota clk jid success)"
  unfolding finalize_quota_def
  by (intro keeps_rules) (auto simp: settled_def job_ok_def)

lemma keeps_finalize [keeps_rules]: "keeps db_ok (finalize clk jid success)"
  unfolding finalize_def finalize_job_quota_def by (intro keeps_rules)

lemma keeps_increment [keeps_rules]: "keeps db_ok (increment_quota_consumed clk jid units)"
  unfolding increment_quota_consumed_def
  by (intro keeps_rules) (auto simp: job_ok_def)

lemma keeps_cancel_job [keeps_rules]: "keeps db_ok (cancel_job clk jid)"
  unfolding cancel_job_def
  by (intro keeps_rules) (auto simp: job_ok_def cancel_row_def)

lemma keeps_mark_canceled [keeps_rules]: "keeps db_ok (mark_canceled_if_running clk jid)"
  unfolding mark_canceled_if_running_def
  by (intro keeps_rules) (auto simp: job_ok_def released_def)

lemma keeps_mark_done [keeps_rules]: "keeps db_ok (mark_done_if_running clk jid progress)"
  unfolding mark_done_if_running_def
  by (intro keeps_rules) (auto simp: job_ok_def released_def)

lemma keeps_set_progress [keeps_rules]: "keeps db_ok (set_progress clk jid progress stage)"
  unfolding set_progress_def
  by (intro keeps_rules) (auto simp: job_ok_def)

lemma keeps_fail_or_retry [keeps_rules]: "keeps db_ok (fail_or_retry clk jid error)"
proof -
  have "keeps db_ok (bindS (update_where jid (\<lambda>j. j_status j = Running) (failed_row clk err d)) (\<lambda>row.
      case row of None \<Rightarrow> finalize clk jid False
      | Some j \<Rightarrow> if j_status j = Failed then finalize clk jid False else returnS ()))" for err d
    by (intro keeps_rules) (auto simp: job_ok_def failed_row_def released_def)
  then show ?thesis
    by (auto simp: keeps_def fail_or_retry_def Let_def split: sum.splits)
qed

lemma keeps_wait_for_provider [keeps_rules]: "keeps db_ok (wait_for_provider clk jid error minutes)"
  unfolding wait_for_provider_def
  by (intro keeps_rules) (auto simp: job_ok_def released_def)

lemma db_ok_sql_update:
  assumes "\<And>j. p j \<Longrightarrow> j_id (f j) = j_id j" "\<And>j. job_ok j \<Longrightarrow> p j \<Longrightarrow> job_ok (f j)" "db_ok db"
  shows "db_ok (db\<lparr>jobs := sql_update p f (jobs db)\<rparr>)"
  using assms by (fastforce simp: db_ok_def map_sql_update set_sql_update list_all_iff)

lemma keeps_retry_waiting [keeps_rules]: "keeps db_ok (retry_waiting clk jid backend)"
  by (auto simp: keeps_def retry_waiting_def Let_def intro!: db_ok_sql_update)
     (auto simp: requeued_def job_ok_def)

lemma keeps_release_waits [keeps_rules]: "keeps db_ok (release_due_provider_waits clk)"
  by (auto simp: keeps_def release_due_provider_waits_def intro!: db_ok_sql_update)
     (auto simp: requeued_def job_ok_def)

lemma keeps_fallback [keeps_rules]: "keeps db_ok (fallback_to_api clk b jid model m error)"
  unfolding fallback_to_api_def
  by (intro keeps_rules) (auto simp: job_ok_def released_def)

lemma keeps_renew_lease [keeps_rules]: "keeps db_ok (renew_lease clk jid token)"
  unfolding renew_lease_def
  by (intro keeps_rules) (auto simp: job_ok_def)

lemma keeps_stale_ops [keeps_rules]:
  "keeps db_ok (cancel_stale_lease clk lease jid)"
  "keeps db_ok (fail_stale_lease clk lease jid)"
  "keeps db_ok (requeue_stale_lease clk lease jid)"
  unfolding cancel_stale_lease_def fail_stale_lease_def requeue_stale_lease_def
  by (intro keeps_rules; auto simp: job_ok_def released_def)+

lemma keeps_claim_next [keeps_rules]: "keeps db_ok (claim_next clk b w ks locked)"
  using claim_next_db_ok by (simp add: keeps_def)

end
