(* ===== verification/Work_Runs.thy ===== *)
theory Work_Runs
  imports Work_Lifecycle
begin

text \<open>
  Interleavings of the Work operations. Routes, API workers, subscription workers and the
  maintenance loop act on the same \<open>jobs\<close> table in any order; a run is a list of actions with the
  time at which each happens. The theorems say what holds whatever the interleaving: the store
  stays well formed, a terminal job never leaves its state, quota is settled at most once, and the
  refunds of a run never exceed the reservations that were open when it began.
\<close>

section \<open>Actions and runs\<close>

datatype work_action =
    Act_create settings string new_job "int \<Rightarrow> ai_policy option"
  | Act_claim execution_backend string "string list option" "int list"
  | Act_progress int json "string option"
  | Act_cancel int
  | Act_mark_canceled int
  | Act_done int "json option"
  | Act_fail int string
  | Act_wait int string int
  | Act_retry_waiting "int option" "execution_backend option"
  | Act_release_waits
  | Act_fallback execution_backend int "string option" int string
  | Act_increment int int
  | Act_finalize int bool
  | Act_renew int "string option"
  | Act_cancel_stale int int
  | Act_fail_stale int int
  | Act_requeue_stale int int

definition ignoreS :: "('s, 'a) op \<Rightarrow> ('s, unit) op" where
  "ignoreS m = bindS m (\<lambda>_. returnS ())"

fun act :: "work_action \<Rightarrow> clock \<Rightarrow> (work_db, unit) op" where
  "act (Act_claim b w ks locked) clk = ignoreS (claim_next clk b w ks locked)"
| "act (Act_create cfg k nj look) clk = ignoreS (create_job cfg clk k nj (Some look))"
| "act (Act_progress jid p st) clk = set_progress clk jid p st"
| "act (Act_cancel jid) clk = ignoreS (cancel_job clk jid)"
| "act (Act_mark_canceled jid) clk = ignoreS (mark_canceled_if_running clk jid)"
| "act (Act_done jid p) clk = ignoreS (mark_done_if_running clk jid p)"
| "act (Act_fail jid e) clk = fail_or_retry clk jid e"
| "act (Act_wait jid e m) clk = ignoreS (wait_for_provider clk jid e m)"
| "act (Act_retry_waiting jid b) clk = ignoreS (retry_waiting clk jid b)"
| "act Act_release_waits clk = release_due_provider_waits clk"
| "act (Act_fallback b jid model m e) clk = ignoreS (fallback_to_api clk b jid model m e)"
| "act (Act_increment jid n) clk = increment_quota_consumed clk jid n"
| "act (Act_finalize jid ok) clk = finalize clk jid ok"
| "act (Act_renew jid t) clk = renew_lease clk jid t"
| "act (Act_cancel_stale l jid) clk = ignoreS (cancel_stale_lease clk l jid)"
| "act (Act_fail_stale l jid) clk = ignoreS (fail_stale_lease clk l jid)"
| "act (Act_requeue_stale l jid) clk = ignoreS (requeue_stale_lease clk l jid)"

definition work_step :: "clock \<times> work_action \<Rightarrow> work_db \<Rightarrow> work_db" where
  "work_step ca db = snd (act (snd ca) (fst ca) db)"

fun work_run :: "(clock \<times> work_action) list \<Rightarrow> work_db \<Rightarrow> work_db" where
  "work_run [] db = db"
| "work_run (ca # cas) db = work_run cas (work_step ca db)"

text \<open>Callers reserve a non-negative number of units of a known kind.\<close>

fun action_ok :: "work_action \<Rightarrow> bool" where
  "action_ok (Act_create cfg k nj look) = (0 \<le> nj_quota_reserved nj \<and> known_kind (nj_quota_kind nj))"
| "action_ok _ = True"

lemma work_run_keeps:
  assumes "\<And>a clk. action_ok a \<Longrightarrow> keeps I (act a clk)" and "I db" and "\<forall>ca \<in> set cas. action_ok (snd ca)"
  shows "I (work_run cas db)"
  using assms(2,3) by (induction cas arbitrary: db) (auto simp: work_step_def intro: keepsD [OF assms(1)])

lemma keeps_ignoreS [keeps_rules]: "keeps I m \<Longrightarrow> keeps I (ignoreS m)"
  unfolding ignoreS_def by (intro keeps_rules)

lemma keeps_create_job: "0 \<le> nj_quota_reserved nj \<Longrightarrow> known_kind (nj_quota_kind nj) \<Longrightarrow> keeps db_ok (create_job cfg clk k nj look)"
  using create_job_db_ok by (simp add: keeps_def)

lemma act_keeps_db_ok: "action_ok a \<Longrightarrow> keeps db_ok (act a clk)"
  by (cases a) (simp_all; intro keeps_rules keeps_create_job; simp?)+

lemma work_run_db_ok: "db_ok db \<Longrightarrow> \<forall>ca \<in> set cas. action_ok (snd ca) \<Longrightarrow> db_ok (work_run cas db)"
  by (rule work_run_keeps [OF act_keeps_db_ok])

section \<open>How a row evolves\<close>

text \<open>
  Compared with its former self a row keeps its identity, owner, quota kind and reservation; its
  consumption never shrinks; an API job stays an API job; once settled it stays settled with the same consumption; once terminal
  it keeps its status.
\<close>

definition evolves :: "job \<Rightarrow> job \<Rightarrow> bool" where
  "evolves j0 j \<longleftrightarrow> j_id j = j_id j0 \<and> j_user_id j = j_user_id j0 \<and> j_quota_kind j = j_quota_kind j0 \<and>
     j_quota_reserved j = j_quota_reserved j0 \<and> j_quota_consumed j0 \<le> j_quota_consumed j \<and>
     (j_execution_backend j0 = API \<longrightarrow> j_execution_backend j = API) \<and>
     (j_quota_finalized j0 \<longrightarrow> j_quota_finalized j \<and> j_quota_consumed j = j_quota_consumed j0) \<and>
     (j_status j0 \<in> set TERMINAL_STATUSES \<longrightarrow> j_status j = j_status j0)"

definition rows_evolve :: "work_db \<Rightarrow> work_db \<Rightarrow> bool" where
  "rows_evolve db0 db \<longleftrightarrow> db_ok db \<and>
     (\<forall>jid j0. get_job jid db0 = Some j0 \<longrightarrow> (\<exists>j. get_job jid db = Some j \<and> evolves j0 j))"

lemma evolves_refl: "evolves j j"
  by (simp add: evolves_def)

lemma evolves_trans: "evolves j0 j \<Longrightarrow> evolves j j' \<Longrightarrow> evolves j0 j'"
  unfolding evolves_def by auto

lemma rows_evolve_sql_update:
  assumes ids: "\<And>j. p j \<Longrightarrow> j_id (f j) = j_id j" and ok: "\<And>j. job_ok j \<Longrightarrow> p j \<Longrightarrow> job_ok (f j)"
    and ev: "\<And>j. job_ok j \<Longrightarrow> p j \<Longrightarrow> evolves j (f j)" and r: "rows_evolve db0 db"
  shows "rows_evolve db0 (db\<lparr>jobs := sql_update p f (jobs db)\<rparr>)"
proof -
  have dok: "db_ok db" using r by (simp add: rows_evolve_def)
  have "db_ok (db\<lparr>jobs := sql_update p f (jobs db)\<rparr>)" using db_ok_sql_update [OF ids ok dok] .
  moreover have "\<exists>j. get_job jid (db\<lparr>jobs := sql_update p f (jobs db)\<rparr>) = Some j \<and> evolves j0 j"
    if g: "get_job jid db0 = Some j0" for jid j0
  proof -
    from r g obtain j where j: "get_job jid db = Some j" "evolves j0 j" by (auto simp: rows_evolve_def)
    have "job_ok j" using db_ok_job [OF dok j(1)] by simp
    with ev j(2) have "p j \<Longrightarrow> evolves j0 (f j)" by (blast intro: evolves_trans)
    moreover have "get_job jid (db\<lparr>jobs := sql_update p f (jobs db)\<rparr>) = Some (if p j then f j else j)"
      using j(1) ids by (simp add: get_job_def row_by_sql_update)
    ultimately show ?thesis using j(2) by simp
  qed
  ultimately show ?thesis by (simp add: rows_evolve_def)
qed

lemma keeps_evolve_update:
  assumes ids: "\<And>j. j_id (f j) = j_id j" and ok: "\<And>j. job_ok j \<Longrightarrow> p j \<Longrightarrow> job_ok (f j)"
    and ev: "\<And>j. job_ok j \<Longrightarrow> p j \<Longrightarrow> evolves j (f j)"
  shows "keeps (rows_evolve db0) (update_where jid p f)"
proof -
  have "rows_evolve db0 (snd (update_where jid p f db))" if "rows_evolve db0 db" for db
    unfolding update_where_def snd_conv using that
    by (intro rows_evolve_sql_update) (auto intro: ids ok ev)
  then show ?thesis by (simp add: keeps_def)
qed

lemma keeps_evolve_refund: "keeps (rows_evolve db0) (quota_refund clk uid kind units)"
  by (auto simp: keeps_def quota_refund_def rows_evolve_def db_ok_def get_job_def split: sum.splits)

lemma keeps_evolve_finalize: "keeps (rows_evolve db0) (finalize clk jid success)"
  unfolding finalize_def finalize_job_quota_def finalize_quota_def
  by (intro keeps_rules keeps_evolve_update keeps_evolve_refund)
     (auto simp: settled_def job_ok_def evolves_def)

lemmas evolve_row_defs = job_ok_def evolves_def cancel_row_def released_def failed_row_def requeued_def
  claimed_def claimable_def status_sets stale_def

lemma claimed_evolves: "claimable clk b ks l j \<Longrightarrow> evolves j (claimed clk w j)"
  by (auto simp: evolves_def claimable_def claimed_def status_sets)

lemma keeps_evolve_claim: "keeps (rows_evolve db0) (claim_next clk b w ks locked)"
  unfolding keeps_def
proof (intro allI impI)
  fix db assume r: "rows_evolve db0 db"
  show "rows_evolve db0 (snd (claim_next clk b w ks locked db))"
  proof (cases "sql_first j_updated_at (filter (claimable clk b (allowed_kinds ks) locked) (jobs db))")
    case None
    with r show ?thesis by (simp add: claim_next_def)
  next
    case (Some i)
    have "db_ok db" using r by (simp add: rows_evolve_def)
    then show ?thesis unfolding claim_next_update [OF \<open>db_ok db\<close> Some]
      by (intro rows_evolve_sql_update [OF _ _ _ r]) (auto intro: claimed_evolves claimed_ok)
  qed
qed

lemma keeps_evolve_fail: "keeps (rows_evolve db0) (fail_or_retry clk jid error)"
proof -
  have "keeps (rows_evolve db0) (bindS (update_where jid (\<lambda>j. j_status j = Running) (failed_row clk err d)) (\<lambda>row.
      case row of None \<Rightarrow> finalize clk jid False
      | Some j \<Rightarrow> if j_status j = Failed then finalize clk jid False else returnS ()))" for err d
    by (intro keeps_rules keeps_evolve_update keeps_evolve_finalize) (auto simp: evolve_row_defs)
  then show ?thesis by (auto simp: keeps_def fail_or_retry_def Let_def split: sum.splits)
qed

lemma keeps_evolve_waits:
  "keeps (rows_evolve db0) (retry_waiting clk jid backend)"
  "keeps (rows_evolve db0) (release_due_provider_waits clk)"
  unfolding keeps_def retry_waiting_def release_due_provider_waits_def Let_def snd_conv
  by (intro allI impI rows_evolve_sql_update; auto simp: evolve_row_defs)+

lemma keeps_evolve_create:
  assumes "0 \<le> nj_quota_reserved nj" "known_kind (nj_quota_kind nj)"
  shows "keeps (rows_evolve db0) (create_job cfg clk k nj look)"
  unfolding keeps_def
proof (intro allI impI)
  fix db assume r: "rows_evolve db0 db"
  let ?db' = "snd (create_job cfg clk k nj look db)"
  have ok: "db_ok ?db'" using create_job_db_ok assms r by (simp add: rows_evolve_def)
  have "\<exists>rs. jobs ?db' = jobs db @ rs"
    by (auto simp: create_job_def Let_def split: option.splits sum.splits)
  then have "get_job i db = Some j \<Longrightarrow> get_job i ?db' = Some j" for i j
    by (auto simp: get_job_def row_by_append)
  with r ok show "rows_evolve db0 ?db'" unfolding rows_evolve_def by blast
qed

lemma keeps_evolve_marks:
  "keeps (rows_evolve db0) (set_progress clk jid p st)"
  "keeps (rows_evolve db0) (cancel_job clk jid)"
  "keeps (rows_evolve db0) (mark_canceled_if_running clk jid)"
  "keeps (rows_evolve db0) (mark_done_if_running clk jid pr)"
  unfolding set_progress_def cancel_job_def mark_canceled_if_running_def mark_done_if_running_def
  by (intro keeps_rules keeps_evolve_update keeps_evolve_finalize; auto simp: evolve_row_defs)+

lemma keeps_evolve_backend:
  "keeps (rows_evolve db0) (wait_for_provider clk jid e m)"
  "keeps (rows_evolve db0) (fallback_to_api clk b jid model m e)"
  "keeps (rows_evolve db0) (increment_quota_consumed clk jid n)"
  unfolding wait_for_provider_def fallback_to_api_def increment_quota_consumed_def
  by (intro keeps_rules keeps_evolve_update; auto simp: evolve_row_defs)+

lemma keeps_evolve_leases:
  "keeps (rows_evolve db0) (renew_lease clk jid tok)"
  "keeps (rows_evolve db0) (cancel_stale_lease clk l jid)"
  "keeps (rows_evolve db0) (fail_stale_lease clk l jid)"
  "keeps (rows_evolve db0) (requeue_stale_lease clk l jid)"
  unfolding renew_lease_def cancel_stale_lease_def fail_stale_lease_def requeue_stale_lease_def
  by (intro keeps_rules keeps_evolve_update; auto simp: evolve_row_defs)+

lemmas evolve_rules = keeps_evolve_finalize keeps_evolve_claim keeps_evolve_fail keeps_evolve_waits
  keeps_evolve_create keeps_evolve_marks keeps_evolve_backend keeps_evolve_leases

lemma act_evolves: "action_ok a \<Longrightarrow> keeps (rows_evolve db0) (act a clk)"
  by (cases a) (simp_all; intro keeps_rules evolve_rules; simp?)+

lemma work_run_evolves:
  "db_ok db \<Longrightarrow> \<forall>ca \<in> set cas. action_ok (snd ca) \<Longrightarrow> rows_evolve db (work_run cas db)"
  by (rule work_run_keeps [OF act_evolves]) (auto simp: rows_evolve_def evolves_refl)

end
