(* ===== verification/Work_Refunds.thy ===== *)
theory Work_Refunds
  imports Work_Runs
begin

text \<open>
  Quota conservation across runs. What the open reservations of a user can still give back is the
  sum of their unconsumed units; refunds of a run never exceed it. Then the properties that span
  the interleavings of the Work operations.
\<close>

section \<open>Open reservations\<close>

definition open_units :: "int \<Rightarrow> string \<Rightarrow> job \<Rightarrow> int" where
  "open_units u k j =
     (if j_user_id j = Some u \<and> j_quota_kind j = Some k \<and> \<not> j_quota_finalized j
      then j_quota_reserved j - j_quota_consumed j else 0)"

definition outstanding :: "int \<Rightarrow> string \<Rightarrow> work_db \<Rightarrow> int" where
  "outstanding u k db = sum_list (map (open_units u k) (jobs db))"

definition headroom :: "int \<Rightarrow> string \<Rightarrow> date \<Rightarrow> int \<Rightarrow> work_db \<Rightarrow> bool" where
  "headroom u k per c db \<longleftrightarrow> db_ok db \<and> c \<le> used (quota db) u per k - outstanding u k db"

lemma open_units_nonneg: "job_ok j \<Longrightarrow> 0 \<le> open_units u k j"
  by (simp add: open_units_def job_ok_def)

lemma sum_list_sql_update_le:
  fixes g :: "'r \<Rightarrow> int"
  assumes "\<And>r. r \<in> set rows \<Longrightarrow> p r \<Longrightarrow> g (f r) \<le> g r"
  shows "sum_list (map g (sql_update p f rows)) \<le> sum_list (map g rows)"
  using assms by (induction rows) (auto intro!: add_mono)

lemma headroom_sql_update:
  assumes ids: "\<And>j. p j \<Longrightarrow> j_id (f j) = j_id j" and ok: "\<And>j. job_ok j \<Longrightarrow> p j \<Longrightarrow> job_ok (f j)"
    and le: "\<And>j. job_ok j \<Longrightarrow> p j \<Longrightarrow> open_units u k (f j) \<le> open_units u k j" and h: "headroom u k per c db"
  shows "headroom u k per c (db\<lparr>jobs := sql_update p f (jobs db)\<rparr>)"
proof -
  have dok: "db_ok db" using h by (simp add: headroom_def)
  then have "outstanding u k (db\<lparr>jobs := sql_update p f (jobs db)\<rparr>) \<le> outstanding u k db"
    unfolding outstanding_def by (auto simp: db_ok_def list_all_iff intro!: sum_list_sql_update_le le)
  moreover have "db_ok (db\<lparr>jobs := sql_update p f (jobs db)\<rparr>)" using db_ok_sql_update [OF ids ok dok] .
  ultimately show ?thesis using h by (simp add: headroom_def)
qed

lemma keeps_headroom_update:
  assumes ids: "\<And>j. j_id (f j) = j_id j" and ok: "\<And>j. job_ok j \<Longrightarrow> p j \<Longrightarrow> job_ok (f j)"
    and le: "\<And>j. job_ok j \<Longrightarrow> p j \<Longrightarrow> open_units u k (f j) \<le> open_units u k j"
  shows "keeps (headroom u k per c) (update_where jid p f)"
proof -
  have "headroom u k per c (snd (update_where jid p f db))" if "headroom u k per c db" for db
    unfolding update_where_def snd_conv
    by (intro headroom_sql_update [OF _ _ _ that]) (auto intro: ids ok le)
  then show ?thesis by (simp add: keeps_def)
qed

section \<open>Settling a job\<close>

lemma sum_list_update_key:
  fixes g :: "'r \<Rightarrow> int"
  assumes "distinct (map key rows)" "row_by key i rows = Some r" "p r"
  shows "sum_list (map g (sql_update (\<lambda>r. key r = i \<and> p r) f rows)) = sum_list (map g rows) - g r + g (f r)"
  using assms
proof (induction rows)
  case Nil
  then show ?case by simp
next
  case (Cons x xs)
  show ?case
  proof (cases "key x = i")
    case True
    then have "sql_update (\<lambda>r. key r = i \<and> p r) f xs = xs"
      using Cons.prems(1) by (intro sql_update_none) (auto, metis imageI)
    with True Cons.prems show ?thesis by simp
  next
    case False
    with Cons show ?thesis by simp
  qed
qed

text \<open>Settling a job that is not there, or is settled already, does nothing.\<close>

lemma finalize_settled:
  assumes ok: "db_ok db" and no: "\<And>j. get_job jid db = Some j \<Longrightarrow> j_quota_finalized j"
  shows "finalize clk jid success db = (Inr (), db)"
proof -
  have "sql_update (\<lambda>j. j_id j = jid \<and> \<not> j_quota_finalized j) (settled clk success) (jobs db) = jobs db"
    using no get_job_in [OF ok] by (intro sql_update_none) blast
  moreover have "(case get_job jid db of None \<Rightarrow> None | Some j \<Rightarrow> if \<not> j_quota_finalized j then Some (settled clk success j) else None) = None"
    using no by (auto split: option.splits)
  ultimately have "update_where jid (\<lambda>j. \<not> j_quota_finalized j) (settled clk success) db = (Inr None, db)"
    by (simp add: update_where_def)
  then show ?thesis
    by (simp add: finalize_def finalize_job_quota_def finalize_quota_def bindS_def atomicS_def)
qed

text \<open>What settling an open job gives back, and the store it leaves.\<close>

definition refund_due :: "bool \<Rightarrow> job \<Rightarrow> int" where
  "refund_due success j = max 0 (j_quota_reserved j -
     (if success \<and> \<not> (is_subscription (j_execution_backend j) \<and> j_kind j = ''translate'')
      then j_quota_reserved j else j_quota_consumed j))"

definition settled_db :: "clock \<Rightarrow> bool \<Rightarrow> int \<Rightarrow> work_db \<Rightarrow> work_db" where
  "settled_db clk success jid db =
     db\<lparr>jobs := sql_update (\<lambda>j. j_id j = jid \<and> \<not> j_quota_finalized j) (settled clk success) (jobs db)\<rparr>"

lemma finalize_open:
  assumes g: "get_job jid db = Some j" and o: "\<not> j_quota_finalized j"
  shows "finalize clk jid success db =
    (case (j_quota_kind j, j_user_id j) of
       (Some kind, Some uid) \<Rightarrow>
         (if kind \<noteq> [] \<and> refund_due success j > 0 then
            (case pg_refund (quota db) uid (current_period (today clk)) kind (refund_due success j) of
               Inl e \<Rightarrow> (Inl e, db)
             | Inr (q, _) \<Rightarrow> (Inr (), (settled_db clk success jid db)\<lparr>quota := q\<rparr>))
          else (Inr (), settled_db clk success jid db))
     | _ \<Rightarrow> (Inr (), settled_db clk success jid db))"
proof -
  have u: "update_where jid (\<lambda>j. \<not> j_quota_finalized j) (settled clk success) db =
      (Inr (Some (settled clk success j)), settled_db clk success jid db)"
    using g o by (simp add: update_where_def settled_db_def)
  have "j_quota_kind (settled clk success j) = j_quota_kind j" "j_user_id (settled clk success j) = j_user_id j"
    "max 0 (j_quota_reserved (settled clk success j) - j_quota_consumed (settled clk success j)) = refund_due success j"
    "quota (settled_db clk success jid db) = quota db"
    by (simp_all add: settled_def refund_due_def settled_db_def)
  then show ?thesis
    by (auto simp: finalize_def finalize_job_quota_def finalize_quota_def bindS_def atomicS_def u
        quota_refund_def tx_refund_def split: option.splits sum.splits)
qed

lemma refund_due_le: "job_ok j \<Longrightarrow> refund_due success j \<le> j_quota_reserved j - j_quota_consumed j"
  by (simp add: refund_due_def job_ok_def)

lemma pg_refund_used:
  assumes k: "k \<in> set QUOTA_KINDS" and r: "pg_refund q uid p kind n = Inr (q', g)" and n: "0 \<le> n"
  shows "used q u per k - (if uid = u \<and> kind = k then n else 0) \<le> used q' u per k"
proof -
  have kind: "kind \<in> set QUOTA_KINDS"
    using r by (auto simp: pg_refund_def check_kind_def ensure_def bindE_def split: if_splits)
  from pgq.give_amount [OF kind r] n have "g \<le> n" "0 \<le> g" by auto
  with pgq.give_count [OF kind k r, of u per] n show ?thesis by auto
qed

lemma outstanding_settled:
  assumes ok: "db_ok db" and g: "get_job jid db = Some j" and o: "\<not> j_quota_finalized j"
  shows "outstanding u k (settled_db clk success jid db) = outstanding u k db - open_units u k j"
proof -
  have "distinct (map j_id (jobs db))" using ok by (simp add: db_ok_def)
  moreover have "open_units u k (settled clk success j) = 0" by (simp add: open_units_def settled_def)
  ultimately show ?thesis
    using sum_list_update_key [of j_id "jobs db" jid j "\<lambda>j. \<not> j_quota_finalized j" "open_units u k" "settled clk success"] g o
    by (simp add: outstanding_def settled_db_def get_job_def)
qed

lemma keeps_headroom_finalize:
  assumes k: "k \<in> set QUOTA_KINDS"
  shows "keeps (headroom u k per c) (finalize clk jid success)"
  unfolding keeps_def
proof (intro allI impI)
  fix db assume h: "headroom u k per c db"
  then have ok: "db_ok db" by (simp add: headroom_def)
  show "headroom u k per c (snd (finalize clk jid success db))"
  proof (cases "\<exists>j. get_job jid db = Some j \<and> \<not> j_quota_finalized j")
    case False
    then have "finalize clk jid success db = (Inr (), db)" by (intro finalize_settled [OF ok]) blast
    with h show ?thesis by simp
  next
    case True
    then obtain j where j: "get_job jid db = Some j" "\<not> j_quota_finalized j" by blast
    have jok: "job_ok j" using db_ok_job [OF ok j(1)] by simp
    let ?db' = "settled_db clk success jid db"
    have ok': "db_ok (snd (finalize clk jid success db))" using keepsD [OF keeps_finalize ok] .
    have out: "outstanding u k ?db' = outstanding u k db - open_units u k j" by (rule outstanding_settled [OF ok j])
    have q: "quota ?db' = quota db" by (simp add: settled_db_def)
    have pos: "0 \<le> open_units u k j" using open_units_nonneg [OF jok] .
    have plain: "headroom u k per c ?db'" if "db_ok ?db'"
      using h that out q pos by (simp add: headroom_def)
    have refunded: "headroom u k per c (?db'\<lparr>quota := q'\<rparr>)" if r: "pg_refund (quota db) uid p kind (refund_due success j) = Inr (q', g)"
      and f: "j_quota_kind j = Some kind" "j_user_id j = Some uid" "refund_due success j > 0"
      and ok2: "db_ok (?db'\<lparr>quota := q'\<rparr>)" for uid p kind q' g
    proof -
      have "used (quota db) u per k - open_units u k j \<le> used q' u per k"
        using pg_refund_used [OF k r, of u per] f refund_due_le [OF jok, of success] j(2) pos
        by (auto simp: open_units_def split: if_splits)
      moreover have "outstanding u k (?db'\<lparr>quota := q'\<rparr>) = outstanding u k ?db'" by (simp add: outstanding_def)
      ultimately show ?thesis using h ok2 out by (simp add: headroom_def)
    qed
    show ?thesis using ok' plain refunded h
      by (auto simp: finalize_open [OF j] split: option.splits sum.splits prod.splits if_splits)
  qed
qed

lemmas open_row_defs = job_ok_def open_units_def cancel_row_def released_def failed_row_def requeued_def

lemma keeps_headroom_fail:
  assumes "k \<in> set QUOTA_KINDS"
  shows "keeps (headroom u k per c) (fail_or_retry clk jid error)"
proof -
  have "keeps (headroom u k per c) (bindS (update_where jid (\<lambda>j. j_status j = Running) (failed_row clk err d)) (\<lambda>row.
      case row of None \<Rightarrow> finalize clk jid False
      | Some j \<Rightarrow> if j_status j = Failed then finalize clk jid False else returnS ()))" for err d
    by (intro keeps_rules keeps_headroom_update keeps_headroom_finalize assms) (auto simp: open_row_defs)
  then show ?thesis by (auto simp: keeps_def fail_or_retry_def Let_def split: sum.splits)
qed

lemma open_units_claimed: "open_units u k (claimed clk w j) = open_units u k j"
  by (simp add: open_units_def claimed_def)

lemma keeps_headroom_claim: "keeps (headroom u k per c) (claim_next clk b w ks locked)"
  unfolding keeps_def
proof (intro allI impI)
  fix db assume h: "headroom u k per c db"
  show "headroom u k per c (snd (claim_next clk b w ks locked db))"
  proof (cases "sql_first j_updated_at (filter (claimable clk b (allowed_kinds ks) locked) (jobs db))")
    case None
    with h show ?thesis by (simp add: claim_next_def)
  next
    case (Some i)
    have "db_ok db" using h by (simp add: headroom_def)
    then show ?thesis unfolding claim_next_update [OF \<open>db_ok db\<close> Some]
      by (intro headroom_sql_update [OF _ _ _ h]) (auto intro: claimed_ok simp: open_units_claimed)
  qed
qed

lemma keeps_headroom_waits:
  "keeps (headroom u k per c) (retry_waiting clk jid backend)"
  "keeps (headroom u k per c) (release_due_provider_waits clk)"
  unfolding keeps_def retry_waiting_def release_due_provider_waits_def Let_def snd_conv
  by (intro allI impI headroom_sql_update; auto simp: open_row_defs)+

lemma keeps_headroom_marks:
  assumes "k \<in> set QUOTA_KINDS"
  shows "keeps (headroom u k per c) (set_progress clk jid p st)"
  "keeps (headroom u k per c) (cancel_job clk jid)"
  "keeps (headroom u k per c) (mark_canceled_if_running clk jid)"
  "keeps (headroom u k per c) (mark_done_if_running clk jid pr)"
  unfolding set_progress_def cancel_job_def mark_canceled_if_running_def mark_done_if_running_def
  by (intro keeps_rules keeps_headroom_update keeps_headroom_finalize assms; auto simp: open_row_defs)+

lemma keeps_headroom_backend:
  "keeps (headroom u k per c) (wait_for_provider clk jid e m)"
  "keeps (headroom u k per c) (fallback_to_api clk b jid model m e)"
  "keeps (headroom u k per c) (increment_quota_consumed clk jid n)"
  unfolding wait_for_provider_def fallback_to_api_def increment_quota_consumed_def
  by (intro keeps_rules keeps_headroom_update; auto simp: open_row_defs)+

lemma keeps_headroom_leases:
  "keeps (headroom u k per c) (renew_lease clk jid tok)"
  "keeps (headroom u k per c) (cancel_stale_lease clk l jid)"
  "keeps (headroom u k per c) (fail_stale_lease clk l jid)"
  "keeps (headroom u k per c) (requeue_stale_lease clk l jid)"
  unfolding renew_lease_def cancel_stale_lease_def fail_stale_lease_def requeue_stale_lease_def
  by (intro keeps_rules keeps_headroom_update; auto simp: open_row_defs stale_def)+

lemmas headroom_rules = keeps_headroom_finalize keeps_headroom_claim keeps_headroom_fail
  keeps_headroom_waits keeps_headroom_marks keeps_headroom_backend keeps_headroom_leases

section \<open>Reservations opened by a run\<close>

fun opened_by :: "int \<Rightarrow> string \<Rightarrow> work_action \<Rightarrow> int" where
  "opened_by u k (Act_create cfg kind nj look) =
     (if nj_user_id nj = Some u \<and> nj_quota_kind nj = Some k then nj_quota_reserved nj else 0)"
| "opened_by u k _ = 0"

lemma create_headroom:
  assumes "headroom u k per c db" "0 \<le> nj_quota_reserved nj" "known_kind (nj_quota_kind nj)"
  shows "headroom u k per (c - opened_by u k (Act_create cfg kind nj look)) (snd (create_job cfg clk kind nj (Some look) db))"
proof -
  let ?db' = "snd (create_job cfg clk kind nj (Some look) db)"
  have ok: "db_ok ?db'" using create_job_db_ok assms by (simp add: headroom_def)
  have "quota ?db' = quota db" "jobs ?db' = jobs db \<or>
      (\<exists>key m. jobs ?db' = jobs db @ [inserted_job kind nj key m clk (next_job_id db)])"
    by (auto simp: create_job_def Let_def split: option.splits sum.splits)
  then have "outstanding u k ?db' \<le> outstanding u k db + opened_by u k (Act_create cfg kind nj look)"
    using assms(2) by (auto simp: outstanding_def open_units_def inserted_job_def)
  with assms(1) ok \<open>quota ?db' = quota db\<close> show ?thesis by (simp add: headroom_def)
qed

lemma step_headroom:
  assumes k: "k \<in> set QUOTA_KINDS" and h: "headroom u k per c db" and a: "action_ok a"
  shows "headroom u k per (c - opened_by u k a) (snd (act a clk db))"
proof (cases "\<exists>cfg kind nj look. a = Act_create cfg kind nj look")
  case True
  then obtain cfg kind nj look where a': "a = Act_create cfg kind nj look" by blast
  with a have "0 \<le> nj_quota_reserved nj" "known_kind (nj_quota_kind nj)" by simp_all
  from create_headroom [OF h this] have "headroom u k per (c - opened_by u k a) (snd (create_job cfg clk kind nj (Some look) db))"
    by (simp only: a')
  moreover have "snd (act a clk db) = snd (create_job cfg clk kind nj (Some look) db)"
    by (auto simp: a' ignoreS_def bindS_def split: prod.splits sum.splits)
  ultimately show ?thesis by (simp only:)
next
  case False
  then have "keeps (headroom u k per c) (act a clk)"
    by (cases a) (simp_all; intro keeps_rules headroom_rules k)+
  moreover have "opened_by u k a = 0" using False by (cases a) simp_all
  ultimately show ?thesis using h by (simp add: keeps_def)
qed

lemma run_headroom:
  assumes k: "k \<in> set QUOTA_KINDS"
  shows "headroom u k per c db \<Longrightarrow> \<forall>ca \<in> set cas. action_ok (snd ca) \<Longrightarrow>
    headroom u k per (c - sum_list (map (opened_by u k \<circ> snd) cas)) (work_run cas db)"
proof (induction cas arbitrary: c db)
  case Nil
  then show ?case by simp
next
  case (Cons ca cas)
  then show ?case
    using step_headroom [OF k Cons.prems(1), of "snd ca" "fst ca"]
      Cons.IH [of "c - opened_by u k (snd ca)" "work_step ca db"]
    by (simp add: work_step_def diff_diff_eq)
qed

lemma outstanding_nonneg: "db_ok db \<Longrightarrow> 0 \<le> outstanding u k db"
  by (auto simp: outstanding_def db_ok_def list_all_iff intro!: sum_list_nonneg open_units_nonneg)

section \<open>Properties\<close>

text \<open>
  C1: refunds are bounded by reservations under every interleaving. Whatever sequence of creations,
  claims, cancellations, completions, failures, retries, provider waits, fallbacks, lease recoveries
  and settlements runs over a well-formed store, the drop of a user's monthly counter of a quota kind
  is at most the unconsumed units of the user's open jobs at the start plus the units reserved by the
  jobs created on the way, so no reservation is refunded twice.
\<close>

theorem run_refunds_bounded:
  assumes "db_ok db" and "k \<in> set QUOTA_KINDS" and "\<forall>ca \<in> set cas. action_ok (snd ca)"
  shows "used (quota db) u per k - used (quota (work_run cas db)) u per k
    \<le> outstanding u k db + sum_list (map (opened_by u k \<circ> snd) cas)"
proof -
  have "headroom u k per (used (quota db) u per k - outstanding u k db) db"
    using assms(1) by (simp add: headroom_def)
  from run_headroom [OF assms(2) this assms(3)] outstanding_nonneg [of "work_run cas db" u k] show ?thesis
    by (auto simp: headroom_def)
qed

definition demo_clk :: clock where
  "demo_clk = \<lparr>now = 140, today = (2025, 3, 14)\<rparr>"

definition demo_cas :: "(clock \<times> work_action) list" where
  "demo_cas = map (Pair demo_clk) [Act_cancel 1, Act_finalize 1 False, Act_fail 1 ''boom'', Act_done 1 None]"

lemma demo_cas_ok: "\<forall>ca \<in> set demo_cas. action_ok (snd ca)"
  by (simp add: demo_cas_def)

theorem run_refunds_bounded_witness:
  "used (quota demo_running_db) 7 (2025, 3, 1) ''codex_builds'' -
     used (quota (work_run demo_cas demo_running_db)) 7 (2025, 3, 1) ''codex_builds'' \<le> 1"
proof -
  have "''codex_builds'' \<in> set QUOTA_KINDS" by (simp add: QUOTA_KINDS_def)
  moreover have "outstanding 7 ''codex_builds'' demo_running_db + sum_list (map (opened_by 7 ''codex_builds'' \<circ> snd) demo_cas) = 1"
    by (simp add: outstanding_def demo_running_db_def open_units_def demo_claimed_def claimed_def demo_job_def
        inserted_job_def demo_new_job_def demo_cas_def)
  ultimately show ?thesis
    using run_refunds_bounded [OF demo_running_db_ok _ demo_cas_ok, of "''codex_builds''" 7 "(2025, 3, 1)"] by simp
qed

text \<open>
  C30: the history of a job is monotone under every interleaving. A job in the store stays there with
  its owner, kind of quota and reservation; its consumption never shrinks and stays within the
  reservation; once settled it is never settled again with another amount; once done, failed or
  canceled it keeps that status for ever.
\<close>

theorem run_history_monotone:
  assumes "db_ok db" and "\<forall>ca \<in> set cas. action_ok (snd ca)" and "get_job jid db = Some j0"
  shows "\<exists>j. get_job jid (work_run cas db) = Some j \<and> j_user_id j = j_user_id j0 \<and>
    j_quota_reserved j = j_quota_reserved j0 \<and> j_quota_consumed j0 \<le> j_quota_consumed j \<and>
    j_quota_consumed j \<le> j_quota_reserved j \<and>
    (j_quota_finalized j0 \<longrightarrow> j_quota_finalized j \<and> j_quota_consumed j = j_quota_consumed j0) \<and>
    (j_status j0 \<in> set TERMINAL_STATUSES \<longrightarrow> j_status j = j_status j0)"
proof -
  from work_run_evolves [OF assms(1,2)] assms(3) obtain j where
    j: "get_job jid (work_run cas db) = Some j" "evolves j0 j" unfolding rows_evolve_def by blast
  have "job_ok j" using db_ok_job [OF work_run_db_ok [OF assms(1,2)] j(1)] by simp
  with j show ?thesis by (auto simp: evolves_def job_ok_def)
qed

theorem run_history_monotone_witness:
  "\<exists>j. get_job 1 (work_run demo_cas (work_run demo_cas demo_running_db)) = Some j \<and> j_user_id j = Some 7"
proof -
  have "get_job 1 demo_running_db = Some demo_claimed"
    by (simp add: demo_running_db_def get_job_def demo_claimed_id)
  from run_history_monotone [OF demo_running_db_ok demo_cas_ok this] obtain j where
    j: "get_job 1 (work_run demo_cas demo_running_db) = Some j" "j_user_id j = j_user_id demo_claimed" by blast
  from run_history_monotone [OF work_run_db_ok [OF demo_running_db_ok demo_cas_ok] demo_cas_ok j(1)] j(2)
  show ?thesis by (auto simp: demo_claimed_def claimed_def demo_job_def inserted_job_def demo_new_job_def)
qed

text \<open>settling a job. For an open job of a user with a quota kind, settlement as a failure marks the
  row settled, keeps its consumption and gives the unconsumed units back to the user's counter of the
  current month (never below zero, no other counter changes); settling the result again, as a success
  or a failure, changes nothing.
\<close>

lemma finalize_failure_refunds:
  assumes ok: "db_ok db" and g: "get_job jid db = Some j" "\<not> j_quota_finalized j"
    and q: "j_quota_kind j = Some k" "k \<in> set QUOTA_KINDS" "j_user_id j = Some u"
  shows "\<exists>db'. finalize clk jid False db = (Inr (), db') \<and>
    get_job jid db' = Some (settled clk False j) \<and> j_quota_consumed (settled clk False j) = j_quota_consumed j \<and>
    (\<forall>v per k'. k' \<in> set QUOTA_KINDS \<longrightarrow> used (quota db') v per k' = used (quota db) v per k' -
       (if v = u \<and> per = current_period (today clk) \<and> k' = k
        then max 0 (min (j_quota_reserved j - j_quota_consumed j) (used (quota db) v per k')) else 0)) \<and>
    (\<forall>clk' b. finalize clk' jid b db' = (Inr (), db'))"
proof -
  let ?s = "settled_db clk False jid db" let ?per = "current_period (today clk)"
  have jok: "job_ok j" using db_ok_job [OF ok g(1)] by simp
  have due: "refund_due False j = j_quota_reserved j - j_quota_consumed j"
    using jok by (simp add: refund_due_def job_ok_def)
  have kne: "k \<noteq> []" using q(2) by (auto simp: QUOTA_KINDS_def)
  have gs: "get_job jid (?s\<lparr>quota := q'\<rparr>) = Some (settled clk False j)" for q'
    using g by (simp add: settled_db_def get_job_def row_by_update_key settled_def)
  obtain db' where f: "finalize clk jid False db = (Inr (), db')" and db': "\<exists>q'. db' = ?s\<lparr>quota := q'\<rparr>"
    and used': "\<forall>v per k'. k' \<in> set QUOTA_KINDS \<longrightarrow> used (quota db') v per k' = used (quota db) v per k' -
       (if v = u \<and> per = ?per \<and> k' = k
        then max 0 (min (refund_due False j) (used (quota db) v per k')) else 0)"
  proof (cases "refund_due False j > 0")
    case True
    obtain q' n where r: "pg_refund (quota db) u ?per k (refund_due False j) = Inr (q', n)"
      using pgq.give_total [OF q(2)] by blast
    have "used q' v per k' = used (quota db) v per k' -
       (if v = u \<and> per = ?per \<and> k' = k then max 0 (min (refund_due False j) (used (quota db) v per k')) else 0)"
      if "k' \<in> set QUOTA_KINDS" for v per k'
      using pgq.give_count [OF q(2) that r, of v per] pgq.give_amount [OF q(2) r] by auto
    moreover have "finalize clk jid False db = (Inr (), ?s\<lparr>quota := q'\<rparr>)"
      using True r kne q by (simp add: finalize_open [OF g])
    ultimately show ?thesis by (intro that [of "?s\<lparr>quota := q'\<rparr>"]) auto
  next
    case False
    have "quota ?s = quota db" by (simp add: settled_db_def)
    moreover have ex: "\<exists>q'. ?s = ?s\<lparr>quota := q'\<rparr>" by (intro exI [of _ "quota db"]) (simp add: settled_db_def)
    moreover have "finalize clk jid False db = (Inr (), ?s)"
      using False q by (simp add: finalize_open [OF g])
    ultimately show ?thesis using False by (intro that [of ?s] ex) auto
  qed
  have g': "get_job jid db' = Some (settled clk False j)" using db' gs by blast
  have "db_ok db'" using keepsD [OF keeps_finalize ok, of clk jid False] f by simp
  moreover have "j_quota_finalized (settled clk False j)" by (simp add: settled_def)
  ultimately have "\<forall>clk' b. finalize clk' jid b db' = (Inr (), db')"
    using g' by (intro allI finalize_settled) auto
  with f g' used' show ?thesis by (intro exI [of _ db'] conjI) (simp_all add: settled_def due)
qed

lemma finalize_failure_refunds_witness:
  "\<exists>db'. finalize demo_clk 1 False demo_running_db = (Inr (), db') \<and>
     used (quota db') 7 (2025, 3, 1) ''codex_builds'' = 0 \<and>
     (\<forall>clk' b. finalize clk' 1 b db' = (Inr (), db'))"
proof -
  have g: "get_job 1 demo_running_db = Some demo_claimed"
    by (simp add: demo_running_db_def get_job_def demo_claimed_id)
  have j: "\<not> j_quota_finalized demo_claimed" "j_quota_kind demo_claimed = Some ''codex_builds''"
    "j_user_id demo_claimed = Some 7" "j_quota_reserved demo_claimed = 1" "j_quota_consumed demo_claimed = 0"
    by (simp_all add: demo_claimed_def claimed_def demo_job_def inserted_job_def demo_new_job_def)
  have k: "''codex_builds'' \<in> set QUOTA_KINDS" by (simp add: QUOTA_KINDS_def)
  have u: "used (quota demo_running_db) 7 (2025, 3, 1) ''codex_builds'' = 1"
    by (simp add: demo_running_db_def demo_db_def used_def get_usage_def column_def)
  have p: "current_period (today demo_clk) = (2025, 3, 1)" by (simp add: demo_clk_def current_period_def)
  show ?thesis
    using finalize_failure_refunds [OF demo_running_db_ok g j(1,2) k j(3), of demo_clk] k u p j(4,5) by force
qed

end
