(* ===== verification/Work_Worker.thy ===== *)
theory Work_Worker
  imports Work_Refunds
begin

text \<open>
  The workers of the Work module: lease recovery
  (\<open>modules/work/application/worker_state.py\<close> and \<open>_recover_stale_leases\<close> of
  \<open>adapters/inbound/worker.py\<close>), the processing of one claimed job
  (\<open>application/worker.py\<close>), and the ownership rules of \<open>application/service.py\<close>. The repository
  calls the lease service makes are a locale, interpreted on the statements of \<open>Work_Lifecycle\<close>;
  the handlers and the callbacks of a worker are arguments of its definition.
\<close>

section \<open>Lease recovery\<close>

datatype recovery_action = R_canceled | R_failed | R_requeued

fun recover_rows ::
  "(int \<Rightarrow> ('s, bool) op) \<Rightarrow> (int \<Rightarrow> ('s, bool) op) \<Rightarrow> (int \<Rightarrow> ('s, bool) op) \<Rightarrow> lease_row list \<Rightarrow>
   ('s, (int \<times> recovery_action) list) op" where
  "recover_rows cancel_op fail_op requeue_op [] = returnS []"
| "recover_rows cancel_op fail_op requeue_op (r # rs) =
     (let (step, action) =
        (if l_cancel_requested r then (cancel_op, R_canceled)
         else if l_attempts r \<ge> l_max_attempts r then (fail_op, R_failed)
         else (requeue_op, R_requeued))
      in bindS (step (l_id r)) (\<lambda>changed.
           bindS (recover_rows cancel_op fail_op requeue_op rs) (\<lambda>recs.
             returnS (if changed then (l_id r, action) # recs else recs))))"

definition recover_stale_leases :: "clock \<Rightarrow> int \<Rightarrow> (work_db, (int \<times> recovery_action) list) op" where
  "recover_stale_leases clk lease db =
     recover_rows (cancel_stale_lease clk lease) (fail_stale_lease clk lease) (requeue_stale_lease clk lease)
       (stale_leases clk lease db) db"

fun finalize_recoveries :: "clock \<Rightarrow> (int \<times> recovery_action) list \<Rightarrow> (work_db, unit) op" where
  "finalize_recoveries clk [] = returnS ()"
| "finalize_recoveries clk ((jid, a) # rs) =
     bindS (if a = R_requeued then returnS () else finalize clk jid False) (\<lambda>_. finalize_recoveries clk rs)"

definition worker_recover_stale_leases :: "clock \<Rightarrow> int \<Rightarrow> (work_db, unit) op" where
  "worker_recover_stale_leases clk lease =
     bindS (recover_stale_leases clk lease) (finalize_recoveries clk)"

definition run_maintenance :: "clock \<Rightarrow> int \<Rightarrow> (work_db, unit) op" where
  "run_maintenance clk lease =
     bindS (release_due_provider_waits clk) (\<lambda>_. worker_recover_stale_leases clk lease)"

text \<open>What the recovery decides for a row.\<close>

definition recovery_of :: "lease_row \<Rightarrow> recovery_action" where
  "recovery_of r = (if l_cancel_requested r then R_canceled
     else if l_attempts r \<ge> l_max_attempts r then R_failed else R_requeued)"

fun recovered_status :: "recovery_action \<Rightarrow> job_status" where
  "recovered_status R_canceled = Canceled"
| "recovered_status R_failed = Failed"
| "recovered_status R_requeued = Queued"

text \<open>
  The contract of the repository: each conditional update, applied to a stale job (the cancel only
  when its cancellation was requested), succeeds, makes that job not stale, gives it the status and
  changes nothing else the recovery reads.
\<close>

locale lease_store =
  fixes good :: "'s \<Rightarrow> bool"
    and stale_ids :: "'s \<Rightarrow> int set"
    and wants_cancel :: "'s \<Rightarrow> int \<Rightarrow> bool"
    and stat :: "'s \<Rightarrow> int \<Rightarrow> job_status option"
    and step_of :: "recovery_action \<Rightarrow> int \<Rightarrow> ('s, bool) op"
  assumes step_ok: "good s \<Longrightarrow> i \<in> stale_ids s \<Longrightarrow> (a = R_canceled \<longrightarrow> wants_cancel s i) \<Longrightarrow>
      \<exists>s'. step_of a i s = (Inr True, s') \<and> good s' \<and> stale_ids s' = stale_ids s - {i} \<and>
        wants_cancel s' = wants_cancel s \<and> stat s' = (stat s)(i \<mapsto> recovered_status a)"
begin

lemma recover_rows_complete:
  assumes "good s" and "distinct (map l_id rows)" and "l_id ` set rows \<subseteq> stale_ids s"
    and "\<forall>r \<in> set rows. l_cancel_requested r = wants_cancel s (l_id r)"
  shows "\<exists>s'. recover_rows (step_of R_canceled) (step_of R_failed) (step_of R_requeued) rows s =
      (Inr (map (\<lambda>r. (l_id r, recovery_of r)) rows), s') \<and> good s' \<and>
      stale_ids s' = stale_ids s - l_id ` set rows \<and>
      (\<forall>r \<in> set rows. stat s' (l_id r) = Some (recovered_status (recovery_of r))) \<and>
      (\<forall>i. i \<notin> l_id ` set rows \<longrightarrow> stat s' i = stat s i)"
  using assms
proof (induction rows arbitrary: s)
  case Nil
  then show ?case by simp
next
  case (Cons r rs)
  have "recovery_of r = R_canceled \<longrightarrow> wants_cancel s (l_id r)"
    using Cons.prems(4) by (auto simp: recovery_of_def split: if_splits)
  from step_ok [OF Cons.prems(1) _ this] Cons.prems(3) obtain s1 where
    s1: "step_of (recovery_of r) (l_id r) s = (Inr True, s1)" "good s1" "stale_ids s1 = stale_ids s - {l_id r}"
      "wants_cancel s1 = wants_cancel s" "stat s1 = (stat s)(l_id r \<mapsto> recovered_status (recovery_of r))" by auto
  have "l_id ` set rs \<subseteq> stale_ids s1" using Cons.prems(2,3) s1(3) by (auto, metis imageI)
  moreover have "\<forall>x \<in> set rs. l_cancel_requested x = wants_cancel s1 (l_id x)" using Cons.prems(4) s1(4) by simp
  moreover have d: "distinct (map l_id rs)" "l_id r \<notin> l_id ` set rs" using Cons.prems(2) by auto
  ultimately obtain s' where
    s': "recover_rows (step_of R_canceled) (step_of R_failed) (step_of R_requeued) rs s1 =
        (Inr (map (\<lambda>r. (l_id r, recovery_of r)) rs), s')" "good s'" "stale_ids s' = stale_ids s1 - l_id ` set rs"
      "\<forall>x \<in> set rs. stat s' (l_id x) = Some (recovered_status (recovery_of x))"
      "\<forall>i. i \<notin> l_id ` set rs \<longrightarrow> stat s' i = stat s1 i"
    using Cons.IH [OF s1(2)] by blast
  have "recover_rows (step_of R_canceled) (step_of R_failed) (step_of R_requeued) (r # rs) s =
      (Inr (map (\<lambda>r. (l_id r, recovery_of r)) (r # rs)), s')"
    using s1(1) s'(1) by (auto simp: recovery_of_def bindS_def Let_def split: if_splits)
  moreover have "stale_ids s' = stale_ids s - l_id ` set (r # rs)" using s1(3) s'(3) by auto
  ultimately show ?case using s'(2,4,5) s1(5) d(2) by (intro exI [of _ s'] conjI) auto
qed

end

definition stale_job_ids :: "clock \<Rightarrow> int \<Rightarrow> work_db \<Rightarrow> int set" where
  "stale_job_ids clk lease db = {i. \<exists>j. get_job i db = Some j \<and> stale clk lease j}"

definition cancel_wanted :: "work_db \<Rightarrow> int \<Rightarrow> bool" where
  "cancel_wanted db i = (case get_job i db of None \<Rightarrow> False | Some j \<Rightarrow> j_cancel_requested_at j \<noteq> None)"

definition status_of :: "work_db \<Rightarrow> int \<Rightarrow> job_status option" where
  "status_of db i = map_option j_status (get_job i db)"

fun lease_step :: "clock \<Rightarrow> int \<Rightarrow> recovery_action \<Rightarrow> int \<Rightarrow> (work_db, bool) op" where
  "lease_step clk lease R_canceled = cancel_stale_lease clk lease"
| "lease_step clk lease R_failed = fail_stale_lease clk lease"
| "lease_step clk lease R_requeued = requeue_stale_lease clk lease"

text \<open>All three statements update one stale row to a status that is not \<open>running\<close>.\<close>

lemma stale_update:
  assumes g: "get_job i db = Some j" "p j" "stale clk lease j" and f: "\<And>j. j_id (f j) = j_id j"
    and st: "\<And>j. j_status (f j) = st" "st \<noteq> Running" and c: "\<And>j. j_cancel_requested_at (f j) = j_cancel_requested_at j"
  shows "fst (update_where i p f db) = Inr (Some (f j))"
    and "stale_job_ids clk lease (snd (update_where i p f db)) = stale_job_ids clk lease db - {i}"
    and "cancel_wanted (snd (update_where i p f db)) = cancel_wanted db"
    and "status_of (snd (update_where i p f db)) = (status_of db)(i \<mapsto> st)"
proof -
  note get' = get_job_update_where [where f = f and p = p and db = db and jid = i, OF f]
  show "fst (update_where i p f db) = Inr (Some (f j))" using g by (simp add: update_where_def)
  show "stale_job_ids clk lease (snd (update_where i p f db)) = stale_job_ids clk lease db - {i}"
    using g st by (auto simp: stale_job_ids_def get' stale_def split: if_splits)
  show "cancel_wanted (snd (update_where i p f db)) = cancel_wanted db"
    using g c by (intro ext) (simp add: cancel_wanted_def get' split: option.splits)
  show "status_of (snd (update_where i p f db)) = (status_of db)(i \<mapsto> st)"
    using g st by (intro ext) (simp add: status_of_def get')
qed

lemma lease_update_step:
  assumes ok: "db_ok db" and g: "get_job i db = Some j" "p j" "stale clk lease j" and f: "\<And>j. j_id (f j) = j_id j"
    and st: "\<And>j. j_status (f j) = st" "st \<noteq> Running" and c: "\<And>j. j_cancel_requested_at (f j) = j_cancel_requested_at j"
    and jok: "\<And>j. job_ok j \<Longrightarrow> job_ok (f j)"
  shows "\<exists>s'. bindS (update_where i p f) (\<lambda>row. returnS (row \<noteq> None)) db = (Inr True, s') \<and> db_ok s' \<and>
    stale_job_ids clk lease s' = stale_job_ids clk lease db - {i} \<and> cancel_wanted s' = cancel_wanted db \<and>
    status_of s' = (status_of db)(i \<mapsto> st)"
proof -
  note u = stale_update [where p = p and f = f, OF g f st c]
  have "bindS (update_where i p f) (\<lambda>row. returnS (row \<noteq> None)) db = (Inr True, snd (update_where i p f db))"
    using u(1) by (simp add: bindS_def update_where_def)
  moreover have "db_ok (snd (update_where i p f db))" using update_where_db_ok [OF f jok ok] .
  ultimately show ?thesis using u(2-4) by blast
qed

interpretation lease: lease_store db_ok "stale_job_ids clk lease" cancel_wanted status_of "lease_step clk lease"
  for clk lease
proof unfold_locales
  fix db i a
  assume ok: "db_ok db" and i: "i \<in> stale_job_ids clk lease db" and c: "a = R_canceled \<longrightarrow> cancel_wanted db i"
  from i obtain j where j: "get_job i db = Some j" "stale clk lease j" by (auto simp: stale_job_ids_def)
  show "\<exists>s'. lease_step clk lease a i db = (Inr True, s') \<and> db_ok s' \<and>
      stale_job_ids clk lease s' = stale_job_ids clk lease db - {i} \<and> cancel_wanted s' = cancel_wanted db \<and>
      status_of s' = (status_of db)(i \<mapsto> recovered_status a)"
  proof (cases a)
    case R_canceled
    with c j have "j_cancel_requested_at j \<noteq> None" by (simp add: cancel_wanted_def)
    with R_canceled j show ?thesis
      unfolding R_canceled lease_step.simps cancel_stale_lease_def recovered_status.simps
      by (intro lease_update_step [OF ok j(1)]) (auto simp: released_def job_ok_def)
  next
    case R_failed
    with j show ?thesis
      unfolding R_failed lease_step.simps fail_stale_lease_def recovered_status.simps
      by (intro lease_update_step [OF ok j(1)]) (auto simp: released_def job_ok_def)
  next
    case R_requeued
    with j show ?thesis
      unfolding R_requeued lease_step.simps requeue_stale_lease_def recovered_status.simps
      by (intro lease_update_step [OF ok j(1)]) (auto simp: released_def job_ok_def)
  qed
qed

lemma stale_leases_rows:
  assumes ok: "db_ok db"
  shows "distinct (map l_id (stale_leases clk lease db))"
    and "l_id ` set (stale_leases clk lease db) = stale_job_ids clk lease db"
    and "\<forall>r \<in> set (stale_leases clk lease db). l_cancel_requested r = cancel_wanted db (l_id r)"
proof -
  have "map l_id (stale_leases clk lease db) = map j_id (filter (stale clk lease) (jobs db))"
    by (simp add: stale_leases_def)
  moreover have "distinct (map j_id (filter (stale clk lease) (jobs db)))"
    using ok by (simp add: db_ok_def distinct_map_filter)
  ultimately show "distinct (map l_id (stale_leases clk lease db))" by simp
  have "i \<in> l_id ` set (stale_leases clk lease db) \<longleftrightarrow> (\<exists>j \<in> set (jobs db). j_id j = i \<and> stale clk lease j)" for i
    by (auto simp: stale_leases_def image_iff)
  moreover have "(\<exists>j \<in> set (jobs db). j_id j = i \<and> stale clk lease j) \<longleftrightarrow> i \<in> stale_job_ids clk lease db" for i
  proof
    assume "\<exists>j \<in> set (jobs db). j_id j = i \<and> stale clk lease j"
    then obtain j where "j \<in> set (jobs db)" "j_id j = i" "stale clk lease j" by blast
    with get_job_in [OF ok this(1)] show "i \<in> stale_job_ids clk lease db" unfolding stale_job_ids_def by blast
  next
    assume "i \<in> stale_job_ids clk lease db"
    then show "\<exists>j \<in> set (jobs db). j_id j = i \<and> stale clk lease j"
      using row_by_Some [of j_id i "jobs db"] unfolding stale_job_ids_def get_job_def by blast
  qed
  ultimately show "l_id ` set (stale_leases clk lease db) = stale_job_ids clk lease db" by blast
  show "\<forall>r \<in> set (stale_leases clk lease db). l_cancel_requested r = cancel_wanted db (l_id r)"
  proof
    fix r assume "r \<in> set (stale_leases clk lease db)"
    then obtain j where "j \<in> set (jobs db)" "l_id r = j_id j" "l_cancel_requested r = (j_cancel_requested_at j \<noteq> None)"
      by (auto simp: stale_leases_def)
    with get_job_in [OF ok this(1)] show "l_cancel_requested r = cancel_wanted db (l_id r)"
      by (simp add: cancel_wanted_def)
  qed
qed

lemma recover_stale_leases_spec:
  assumes ok: "db_ok db"
  shows "\<exists>db'. recover_stale_leases clk lease db =
      (Inr (map (\<lambda>r. (l_id r, recovery_of r)) (stale_leases clk lease db)), db') \<and> db_ok db' \<and>
      stale_job_ids clk lease db' = {} \<and>
      (\<forall>r \<in> set (stale_leases clk lease db). status_of db' (l_id r) = Some (recovered_status (recovery_of r))) \<and>
      (\<forall>i. i \<notin> stale_job_ids clk lease db \<longrightarrow> status_of db' i = status_of db i)"
  using lease.recover_rows_complete [OF ok stale_leases_rows(1) [OF ok], of clk lease clk lease]
    stale_leases_rows(2,3) [OF ok, of clk lease]
  by (simp add: recover_stale_leases_def)

section \<open>Settlement after recovery\<close>

text \<open>On a well-formed store settlement never fails: it marks the row and touches no other.\<close>

lemma finalize_total:
  assumes ok: "db_ok db"
  shows "\<exists>q. finalize clk jid b db = (Inr (), (settled_db clk b jid db)\<lparr>quota := q\<rparr>)"
proof (cases "\<exists>j. get_job jid db = Some j \<and> \<not> j_quota_finalized j")
  case False
  then have no: "\<And>j. get_job jid db = Some j \<Longrightarrow> j_quota_finalized j" by blast
  have "sql_update (\<lambda>j. j_id j = jid \<and> \<not> j_quota_finalized j) (settled clk b) (jobs db) = jobs db"
    using no get_job_in [OF ok] by (intro sql_update_none) blast
  then have "settled_db clk b jid db = db" by (simp add: settled_db_def)
  with finalize_settled [OF ok no] show ?thesis by (intro exI [of _ "quota db"]) simp
next
  case True
  then obtain j where j: "get_job jid db = Some j" "\<not> j_quota_finalized j" by blast
  have "known_kind (j_quota_kind j)" using db_ok_job [OF ok j(1)] by (simp add: job_ok_def)
  have plain: "\<exists>q. settled_db clk b jid db = (settled_db clk b jid db)\<lparr>quota := q\<rparr>"
    by (intro exI [of _ "quota db"]) (simp add: settled_db_def)
  show ?thesis
  proof (cases "\<exists>kind uid. j_quota_kind j = Some kind \<and> j_user_id j = Some uid \<and> kind \<noteq> [] \<and> refund_due b j > 0")
    case False
    then show ?thesis using plain by (auto simp: finalize_open [OF j] split: option.splits)
  next
    case True
    then obtain kind uid where ku: "j_quota_kind j = Some kind" "j_user_id j = Some uid" "kind \<noteq> []" "refund_due b j > 0"
      by blast
    with \<open>known_kind (j_quota_kind j)\<close> have "kind \<in> set QUOTA_KINDS" by (simp add: known_kind_def)
    then obtain q g where "pg_refund (quota db) uid (current_period (today clk)) kind (refund_due b j) = Inr (q, g)"
      using pgq.give_total by blast
    with ku show ?thesis by (auto simp: finalize_open [OF j])
  qed
qed

lemma settled_fields [simp]:
  "j_id (settled clk b j) = j_id j" "j_status (settled clk b j) = j_status j" "j_quota_finalized (settled clk b j)"
  "j_claimed_at (settled clk b j) = j_claimed_at j" "j_quota_kind (settled clk b j) = j_quota_kind j"
  by (simp_all add: settled_def)

lemma get_job_settled_db:
  "get_job i (settled_db clk b jid db) =
    (if i = jid then map_option (\<lambda>j. if \<not> j_quota_finalized j then settled clk b j else j) (get_job i db)
     else get_job i db)"
  using row_by_update_key [of j_id "settled clk b" i jid "\<lambda>j. \<not> j_quota_finalized j" "jobs db"]
  by (simp add: get_job_def settled_db_def)

text \<open>What one settlement does to the rows, whatever it refunds.\<close>

lemma finalize_rows:
  assumes ok: "db_ok db"
  shows "\<exists>db'. finalize clk jid b db = (Inr (), db') \<and> db_ok db' \<and>
    status_of db' = status_of db \<and> (\<forall>lease. stale_job_ids c lease db' = stale_job_ids c lease db) \<and>
    (\<forall>i j. get_job i db = Some j \<longrightarrow>
       (\<exists>j'. get_job i db' = Some j' \<and> (j_quota_finalized j' \<longleftrightarrow> j_quota_finalized j \<or> i = jid)))"
proof -
  obtain q where f: "finalize clk jid b db = (Inr (), (settled_db clk b jid db)\<lparr>quota := q\<rparr>)"
    using finalize_total [OF ok] by blast
  let ?db' = "(settled_db clk b jid db)\<lparr>quota := q\<rparr>"
  have get': "get_job i ?db' = get_job i (settled_db clk b jid db)" for i by (simp add: get_job_def)
  have "db_ok ?db'" using keepsD [OF keeps_finalize ok, of clk jid b] f by simp
  moreover have "status_of ?db' = status_of db"
  proof
    fix i show "status_of ?db' i = status_of db i"
      by (cases "get_job i db"; cases "i = jid") (auto simp: status_of_def get' get_job_settled_db)
  qed
  moreover have "stale_job_ids c lease ?db' = stale_job_ids c lease db" for lease
  proof -
    have "stale c lease (settled clk b j) = stale c lease j" for j by (simp add: stale_def)
    then have "(\<exists>j. get_job i ?db' = Some j \<and> stale c lease j) \<longleftrightarrow> (\<exists>j. get_job i db = Some j \<and> stale c lease j)" for i
      by (cases "get_job i db"; cases "i = jid") (auto simp: get' get_job_settled_db)
    then show ?thesis unfolding stale_job_ids_def by simp
  qed
  moreover have "\<exists>j'. get_job i ?db' = Some j' \<and> (j_quota_finalized j' \<longleftrightarrow> j_quota_finalized j \<or> i = jid)"
    if "get_job i db = Some j" for i j
    using that by (cases "i = jid"; cases "j_quota_finalized j") (auto simp: get' get_job_settled_db)
  ultimately show ?thesis using f by blast
qed

lemma finalize_recoveries_rows:
  assumes "db_ok db"
  shows "\<exists>db'. finalize_recoveries clk recs db = (Inr (), db') \<and> db_ok db' \<and>
    status_of db' = status_of db \<and> (\<forall>lease. stale_job_ids c lease db' = stale_job_ids c lease db) \<and>
    (\<forall>i j. get_job i db = Some j \<longrightarrow> (\<exists>j'. get_job i db' = Some j' \<and>
       (j_quota_finalized j' \<longleftrightarrow> j_quota_finalized j \<or> (\<exists>a. (i, a) \<in> set recs \<and> a \<noteq> R_requeued))))"
  using assms
proof (induction recs arbitrary: db)
  case Nil
  then show ?case by (intro exI [of _ db] conjI) simp_all
next
  case (Cons r recs)
  obtain jid a where r: "r = (jid, a)" by (cases r)
  obtain db1 where db1: "(if a = R_requeued then returnS () else finalize clk jid False) db = (Inr (), db1)"
    "db_ok db1" "status_of db1 = status_of db"
    "\<forall>lease. stale_job_ids c lease db1 = stale_job_ids c lease db"
    "\<forall>i j. get_job i db = Some j \<longrightarrow> (\<exists>j'. get_job i db1 = Some j' \<and>
       (j_quota_finalized j' \<longleftrightarrow> j_quota_finalized j \<or> (i = jid \<and> a \<noteq> R_requeued)))"
    using finalize_rows [OF Cons.prems, of clk jid False c] Cons.prems
    by (cases "a = R_requeued") fastforce+
  from Cons.IH [OF db1(2)] obtain db' where db': "finalize_recoveries clk recs db1 = (Inr (), db')"
    "db_ok db'" "status_of db' = status_of db1"
    "\<forall>lease. stale_job_ids c lease db' = stale_job_ids c lease db1"
    "\<forall>i j. get_job i db1 = Some j \<longrightarrow> (\<exists>j'. get_job i db' = Some j' \<and>
       (j_quota_finalized j' \<longleftrightarrow> j_quota_finalized j \<or> (\<exists>a. (i, a) \<in> set recs \<and> a \<noteq> R_requeued)))" by blast
  have "finalize_recoveries clk (r # recs) db = (Inr (), db')"
    using db1(1) db'(1) by (simp add: r bindS_def)
  moreover have "\<exists>j'. get_job i db' = Some j' \<and> (j_quota_finalized j' \<longleftrightarrow>
       j_quota_finalized j \<or> (\<exists>a. (i, a) \<in> set (r # recs) \<and> a \<noteq> R_requeued))"
    if gi: "get_job i db = Some j" for i j
  proof -
    obtain j1 where "get_job i db1 = Some j1" "j_quota_finalized j1 \<longleftrightarrow> j_quota_finalized j \<or> (i = jid \<and> a \<noteq> R_requeued)"
      using db1(5) gi by blast
    moreover from this(1) obtain j' where "get_job i db' = Some j'"
      "j_quota_finalized j' \<longleftrightarrow> j_quota_finalized j1 \<or> (\<exists>a. (i, a) \<in> set recs \<and> a \<noteq> R_requeued)"
      using db'(5) by blast
    ultimately show ?thesis by (auto simp: r)
  qed
  ultimately show ?case using db'(2-4) db1(3,4) by (intro exI [of _ db'] conjI allI impI) auto
qed

section \<open>Recovery: the property\<close>

definition lease_row_of :: "job \<Rightarrow> lease_row" where
  "lease_row_of j = \<lparr>l_id = j_id j, l_attempts = j_attempts j, l_max_attempts = j_max_attempts j,
     l_cancel_requested = (j_cancel_requested_at j \<noteq> None)\<rparr>"

lemma stale_leases_rows_of: "stale_leases clk lease db = map lease_row_of (filter (stale clk lease) (jobs db))"
  by (simp add: stale_leases_def lease_row_of_def)

text \<open>
  C32: lease recovery is complete. On a well-formed store the worker's recovery never raises; afterwards no running job has an expired lease. Each job that had
  one is canceled when its cancellation was requested, else failed when its attempts are used up,
  else queued again, and the canceled and failed ones are settled; the status of every other job is
  unchanged.
\<close>

theorem recover_leases_complete:
  assumes ok: "db_ok db"
  shows "\<exists>db'. worker_recover_stale_leases clk lease db = (Inr (), db') \<and> db_ok db' \<and>
    (\<forall>j \<in> set (jobs db'). \<not> stale clk lease j) \<and>
    (\<forall>j \<in> set (jobs db). if stale clk lease j
       then (\<exists>j'. get_job (j_id j) db' = Some j' \<and>
               j_status j' = (if j_cancel_requested_at j \<noteq> None then Canceled else if exhausted j then Failed else Queued) \<and>
               (j_status j' \<noteq> Queued \<longrightarrow> j_quota_finalized j'))
       else status_of db' (j_id j) = Some (j_status j))"
proof -
  let ?rows = "stale_leases clk lease db"
  let ?recs = "map (\<lambda>r. (l_id r, recovery_of r)) ?rows"
  obtain db1 where db1: "recover_stale_leases clk lease db = (Inr ?recs, db1)" "db_ok db1"
    "stale_job_ids clk lease db1 = {}"
    "\<forall>r \<in> set ?rows. status_of db1 (l_id r) = Some (recovered_status (recovery_of r))"
    "\<forall>i. i \<notin> stale_job_ids clk lease db \<longrightarrow> status_of db1 i = status_of db i"
    using recover_stale_leases_spec [OF ok] by blast
  obtain db' where db': "finalize_recoveries clk ?recs db1 = (Inr (), db')" "db_ok db'"
    "status_of db' = status_of db1" "stale_job_ids clk lease db' = stale_job_ids clk lease db1"
    "\<forall>i j. get_job i db1 = Some j \<longrightarrow> (\<exists>j'. get_job i db' = Some j' \<and>
       (j_quota_finalized j' \<longleftrightarrow> j_quota_finalized j \<or> (\<exists>a. (i, a) \<in> set ?recs \<and> a \<noteq> R_requeued)))"
    using finalize_recoveries_rows [OF db1(2), of clk ?recs clk] by blast
  have run: "worker_recover_stale_leases clk lease db = (Inr (), db')"
    using db1(1) db'(1) by (simp add: worker_recover_stale_leases_def bindS_def)
  have none: "\<not> stale clk lease j" if "j \<in> set (jobs db')" for j
    using get_job_in [OF db'(2) that] db'(4) db1(3) unfolding stale_job_ids_def by blast
  have each: "if stale clk lease j
       then (\<exists>j'. get_job (j_id j) db' = Some j' \<and>
               j_status j' = (if j_cancel_requested_at j \<noteq> None then Canceled else if exhausted j then Failed else Queued) \<and>
               (j_status j' \<noteq> Queued \<longrightarrow> j_quota_finalized j'))
       else status_of db' (j_id j) = Some (j_status j)" if j: "j \<in> set (jobs db)" for j
  proof (cases "stale clk lease j")
    case False
    have "status_of db (j_id j) = Some (j_status j)" using get_job_in [OF ok j] by (simp add: status_of_def)
    moreover have "j_id j \<notin> stale_job_ids clk lease db"
      using get_job_in [OF ok j] False by (simp add: stale_job_ids_def)
    ultimately show ?thesis using False db1(5) db'(3) by simp
  next
    case True
    let ?r = "lease_row_of j"
    have r: "?r \<in> set ?rows" using j True by (auto simp: stale_leases_rows_of)
    have st: "recovered_status (recovery_of ?r) =
        (if j_cancel_requested_at j \<noteq> None then Canceled else if exhausted j then Failed else Queued)"
      by (simp add: recovery_of_def lease_row_of_def exhausted_def)
    have id: "l_id ?r = j_id j" by (simp add: lease_row_of_def)
    have "status_of db1 (j_id j) = Some (recovered_status (recovery_of ?r))" using db1(4) r id by metis
    then obtain j1 where j1: "get_job (j_id j) db1 = Some j1" by (auto simp: status_of_def)
    then obtain j' where j': "get_job (j_id j) db' = Some j'"
      "j_quota_finalized j' \<longleftrightarrow> j_quota_finalized j1 \<or> (\<exists>a. (j_id j, a) \<in> set ?recs \<and> a \<noteq> R_requeued)"
      using db'(5) by blast
    have status: "j_status j' = recovered_status (recovery_of ?r)"
    proof -
      have "status_of db' (j_id j) = Some (recovered_status (recovery_of ?r))"
        using db'(3) \<open>status_of db1 (j_id j) = _\<close> by simp
      moreover have "status_of db' (j_id j) = Some (j_status j')" using j'(1) by (simp add: status_of_def)
      ultimately show ?thesis by simp
    qed
    have "(j_id j, recovery_of ?r) \<in> set ?recs" using r id by force
    with j'(2) status have "j_status j' \<noteq> Queued \<longrightarrow> j_quota_finalized j'"
      by (cases "recovery_of ?r") auto
    with True j'(1) status st show ?thesis by auto
  qed
  show ?thesis using run db'(2) none each by blast
qed

definition demo_late :: clock where
  "demo_late = \<lparr>now = 2000, today = (2025, 3, 14)\<rparr>"

theorem recover_leases_complete_witness:
  "\<exists>db'. worker_recover_stale_leases demo_late 600 demo_running_db = (Inr (), db') \<and>
     (\<exists>j'. get_job 1 db' = Some j' \<and> j_status j' = Queued)"
proof -
  have j: "demo_claimed \<in> set (jobs demo_running_db)" by (simp add: demo_running_db_def)
  have s: "stale demo_late 600 demo_claimed" "j_cancel_requested_at demo_claimed = None" "\<not> exhausted demo_claimed"
    by (simp_all add: stale_def demo_late_def demo_claimed_def claimed_def demo_job_def inserted_job_def
        demo_new_job_def exhausted_def)
  from recover_leases_complete [OF demo_running_db_ok, of demo_late 600] obtain db' where
    db': "worker_recover_stale_leases demo_late 600 demo_running_db = (Inr (), db')"
    "if stale demo_late 600 demo_claimed
       then (\<exists>j'. get_job (j_id demo_claimed) db' = Some j' \<and>
               j_status j' = (if j_cancel_requested_at demo_claimed \<noteq> None then Canceled
                              else if exhausted demo_claimed then Failed else Queued) \<and>
               (j_status j' \<noteq> Queued \<longrightarrow> j_quota_finalized j'))
       else status_of db' (j_id demo_claimed) = Some (j_status demo_claimed)" using j by blast
  with s demo_claimed_id show ?thesis by auto
qed

end
