(* ===== verification/Work_Process.thy ===== *)
theory Work_Process
  imports Work_Worker
begin

text \<open>
  One claimed job in the generic worker (\<open>modules/work/application/worker.py\<close>) and the ownership
  rules of \<open>modules/work/application/service.py\<close>. A handler is an argument: it returns, raises the
  worker's cancellation signal or raises anything else, and changes the store on the way.
\<close>

section \<open>Processing a claimed job\<close>

datatype 'a outcome = Returned 'a | Canceled_raised | Raised string string

record 's worker_ops =
  resolve_handler :: "string \<Rightarrow> (job \<Rightarrow> 's \<Rightarrow> json option outcome \<times> 's) option"
  op_fail_or_retry :: "job \<Rightarrow> string \<Rightarrow> ('s, unit) op"
  op_finalize :: "int \<Rightarrow> bool \<Rightarrow> ('s, unit) op"
  op_mark_done :: "int \<Rightarrow> json option \<Rightarrow> ('s, bool) op"

text \<open>\<open>f"{type(exc).__name__}: {exc}"\<close>.\<close>

fun error_text :: "py_error \<Rightarrow> string" where
  "error_text (NotFound m) = ''NotFound: '' @ m"
| "error_text (Forbidden m) = ''Forbidden: '' @ m"
| "error_text (Conflict m) = ''Conflict: '' @ m"
| "error_text (ValidationFailed m) = ''ValidationFailed: '' @ m"
| "error_text (InvalidOperation m) = ''InvalidOperation: '' @ m"
| "error_text (QuotaExceeded m) = ''QuotaExceeded: '' @ m"
| "error_text (ProviderUnavailable m) = ''ProviderUnavailable: '' @ m"
| "error_text (RateLimited m _) = ''RateLimited: '' @ m"
| "error_text (JobAlreadyActive m) = ''JobAlreadyActive: '' @ m"
| "error_text (ValueError m) = ''ValueError: '' @ m"
| "error_text (RuntimeError m) = ''RuntimeError: '' @ m"
| "error_text (LookupError m) = ''LookupError: '' @ m"
| "error_text (ActiveJobLimitError m) = ''ActiveJobLimitError: '' @ m"
| "error_text (BackendPolicyChangedError m) = ''BackendPolicyChangedError: '' @ m"
| "error_text (DatabaseError m) = ''DatabaseError: '' @ m"
| "error_text (AttributeError m) = ''AttributeError: '' @ m"
| "error_text (TypeError m) = ''TypeError: '' @ m"
| "error_text (SourceChangedError m) = ''SourceChangedError: '' @ m"
| "error_text (ImportRequestError n m) = ''ImportRequestError: '' @ m"
| "error_text (NotImplementedError m) = ''NotImplementedError: '' @ m"
| "error_text (FileNotFoundError m) = ''FileNotFoundError: '' @ m"

definition process :: "'s worker_ops \<Rightarrow> job \<Rightarrow> ('s, unit) op" where
  "process ops j s =
     (let jid = j_id j;
          crashed = (\<lambda>e. op_fail_or_retry ops j (error_text e))
      in case resolve_handler ops (j_kind j) of
           None \<Rightarrow> catchS (op_fail_or_retry ops j (''Unknown job kind '' @ [CHR 0x27] @ j_kind j @ [CHR 0x27, CHR ''.''])) crashed s
         | Some h \<Rightarrow>
             (case h j s of
                (Canceled_raised, s1) \<Rightarrow> catchS (op_finalize ops jid False) crashed s1
              | (Raised ty msg, s1) \<Rightarrow> op_fail_or_retry ops j (ty @ '': '' @ msg) s1
              | (Returned progress, s1) \<Rightarrow>
                  catchS (bindS (op_mark_done ops jid progress) (\<lambda>changed.
                    if changed then op_finalize ops jid True else op_finalize ops jid False)) crashed s1))"

text \<open>The operations the API worker is wired with.\<close>

definition work_ops :: "clock \<Rightarrow> (string \<Rightarrow> (job \<Rightarrow> work_db \<Rightarrow> json option outcome \<times> work_db) option) \<Rightarrow> work_db worker_ops" where
  "work_ops clk registry =
     \<lparr>resolve_handler = registry,
      op_fail_or_retry = (\<lambda>j e. fail_or_retry clk (j_id j) e),
      op_finalize = finalize clk,
      op_mark_done = mark_done_if_running clk\<rparr>"

section \<open>What each ending does\<close>

text \<open>The job is off the worker: it is queued again, waits, or is settled.\<close>

definition resolved :: "int \<Rightarrow> work_db \<Rightarrow> bool" where
  "resolved jid db = (case get_job jid db of None \<Rightarrow> False
     | Some j \<Rightarrow> j_status j \<noteq> Running \<and> (j_quota_finalized j \<or> j_status j \<in> {Queued, Waiting_provider}))"

lemma finalize_resolves:
  assumes ok: "db_ok db" and g: "get_job jid db = Some j" "j_status j \<noteq> Running"
  shows "\<exists>db'. finalize clk jid b db = (Inr (), db') \<and> resolved jid db'"
proof -
  obtain db' where f: "finalize clk jid b db = (Inr (), db')" "status_of db' = status_of db"
    "\<exists>j'. get_job jid db' = Some j' \<and> (j_quota_finalized j' \<longleftrightarrow> j_quota_finalized j \<or> jid = jid)"
    using finalize_rows [OF ok, of clk jid b clk] g(1) by blast
  then obtain j' where j': "get_job jid db' = Some j'" "j_quota_finalized j'" by blast
  have "status_of db' jid = Some (j_status j)" using f(2) g(1) by (simp add: status_of_def)
  with j'(1) have "j_status j' = j_status j" by (simp add: status_of_def)
  with f(1) j' g(2) show ?thesis by (auto simp: resolved_def)
qed

lemma mark_done_result:
  assumes g: "get_job jid db = Some j"
  shows "\<exists>db'. mark_done_if_running clk jid pr db = (Inr (j_status j = Running), db') \<and>
    (\<exists>j'. get_job jid db' = Some j' \<and> j_status j' \<noteq> Running)"
proof -
  let ?f = "\<lambda>j. (released Done ''done'' clk j)\<lparr>j_error := None, j_progress := coalesce pr (j_progress j)\<rparr>"
  have ids: "\<And>j. j_id (?f j) = j_id j" by (simp add: released_def)
  have "get_job jid (snd (update_where jid (\<lambda>j. j_status j = Running) ?f db)) = Some (if j_status j = Running then ?f j else j)"
    using g get_job_update_where [where f = ?f, OF ids] by simp
  moreover have "mark_done_if_running clk jid pr db =
      (Inr (j_status j = Running), snd (update_where jid (\<lambda>j. j_status j = Running) ?f db))"
    using g by (simp add: mark_done_if_running_def bindS_def update_where_def)
  ultimately show ?thesis by (auto simp: released_def)
qed

lemma retry_delay_total:
  assumes "0 \<le> a" "a \<le> 28"
  shows "\<exists>d. retry_delay a = Inr d \<and> 5 \<le> d \<and> d \<le> 300"
proof -
  have "(2::int) ^ nat a \<le> 2 ^ 28" using assms by (intro power_increasing) auto
  moreover have "(1::int) \<le> 2 ^ nat a" by simp
  ultimately show ?thesis using assms by (auto simp: retry_delay_def Let_def)
qed

text \<open>A running job whose next attempt cannot be scheduled: the 32-bit product of its back-off overflows.\<close>

definition backoff_overflows :: "job \<Rightarrow> bool" where
  "backoff_overflows j \<longleftrightarrow> j_status j = Running \<and> \<not> exhausted j \<and> 29 \<le> j_attempts j"

lemma fail_or_retry_overflow:
  assumes "get_job jid db = Some j" "backoff_overflows j"
  shows "fail_or_retry clk jid e db = (Inl (DatabaseError ''integer out of range''), db)"
proof -
  have "(2::int) ^ 29 \<le> 2 ^ nat (j_attempts j)" using assms(2) by (intro power_increasing) (auto simp: backoff_overflows_def)
  then have "retry_delay (j_attempts j) = Inl (DatabaseError ''integer out of range'')"
    using assms(2) by (simp add: retry_delay_def Let_def backoff_overflows_def)
  then show ?thesis using assms by (simp add: fail_or_retry_def backoff_overflows_def)
qed

lemma fail_or_retry_resolves:
  assumes ok: "db_ok db" and g: "get_job jid db = Some j" and a: "\<not> backoff_overflows j"
  shows "\<exists>db'. fail_or_retry clk jid e db = (Inr (), db') \<and> resolved jid db'"
proof (cases "j_status j = Running")
  case False
  have upd: "update_where jid (\<lambda>j. j_status j = Running) f db = (Inr None, db)" for f
  proof -
    have "sql_update (\<lambda>j. j_id j = jid \<and> j_status j = Running) f (jobs db) = jobs db"
    proof (rule sql_update_none)
      fix x assume x: "x \<in> set (jobs db)"
      show "\<not> (j_id x = jid \<and> j_status x = Running)"
      proof
        assume a: "j_id x = jid \<and> j_status x = Running"
        with get_job_in [OF ok x] g have "x = j" by simp
        with a False show False by simp
      qed
    qed
    then show ?thesis using g False by (simp add: update_where_def)
  qed
  have "bindS (update_where jid (\<lambda>j. j_status j = Running) f) rest db = rest None db"
    for f and rest :: "job option \<Rightarrow> (work_db, unit) op"
    by (simp only: bindS_def upd prod.case sum.case)
  then have "fail_or_retry clk jid e db = finalize clk jid False db"
    using g False by (simp add: fail_or_retry_def)
  then show ?thesis using finalize_resolves [OF ok g False] by simp
next
  case True
  have "0 \<le> j_attempts j" using db_ok_job [OF ok g] by (simp add: job_ok_def)
  moreover have "exhausted j \<or> j_attempts j \<le> 28" using a True by (auto simp: backoff_overflows_def)
  ultimately obtain d where d: "(if j_status j = Running \<and> \<not> exhausted j then retry_delay (j_attempts j) else Inr 0) = Inr d"
    using True retry_delay_total [of "j_attempts j"] by (cases "exhausted j") auto
  let ?f = "failed_row clk (take 4000 e) d"
  let ?db1 = "snd (update_where jid (\<lambda>j. j_status j = Running) ?f db)"
  have ids: "\<And>j. j_id (?f j) = j_id j" by (simp add: failed_row_def released_def)
  have ok1: "db_ok ?db1"
    by (rule update_where_db_ok [OF ids _ ok]) (auto simp: job_ok_def failed_row_def released_def)
  have g1: "get_job jid ?db1 = Some (?f j)" using g True get_job_update_where [where f = ?f, OF ids] by simp
  have run: "fail_or_retry clk jid e db =
      (if j_status (?f j) = Failed then finalize clk jid False else returnS ()) ?db1"
    using g True d by (simp add: fail_or_retry_def bindS_def update_where_def)
  have st: "j_status (?f j) = (if exhausted j then Failed else Queued)"
    by (simp add: failed_row_def released_def)
  show ?thesis
  proof (cases "exhausted j")
    case True
    then show ?thesis using run st finalize_resolves [OF ok1 g1] by simp
  next
    case False
    then show ?thesis using run st g1 by (simp add: resolved_def)
  qed
qed

section \<open>The Work service\<close>

record work_principal =
  wp_user_id :: int
  wp_is_admin :: bool

text \<open>What the metadata port adds to a job row (\<open>current_run_id\<close>, \<open>current_plugin_version\<close>).\<close>

record job_details =
  current_run_id :: "string option"
  current_plugin_version :: "string option"

record job_view =
  v_id :: int
  v_kind :: string
  v_novel_id :: "int option"
  v_user_id :: "int option"
  v_status :: string
  v_stage :: string
  v_progress :: json
  v_options :: json
  v_error :: "string option"
  v_attempts :: int
  v_max_attempts :: int
  v_backend_requested :: string
  v_execution_backend :: string
  v_backend_model :: "string option"
  v_backend_policy_version :: "int option"
  v_backend_fallback_allowed :: bool
  v_backend_fallback_from :: "string option"
  v_backend_state :: string
  v_backend_wait_reason :: "string option"
  v_current_run_id :: "string option"
  v_plugin_version :: "string option"
  v_cancel_requested :: bool
  v_not_before :: "string option"
  v_created_at :: "string option"
  v_updated_at :: "string option"

text \<open>\<open>value or {}\<close> on a decoded JSON value.\<close>

definition or_empty :: "json \<Rightarrow> json" where
  "or_empty v = (if json_truthy v then v else JObj [])"

definition nonblank :: "string option \<Rightarrow> string option" where
  "nonblank s = (if s = Some [] then None else s)"

text \<open>
  \<open>job_view\<close>; \<open>fmt\<close> is \<open>datetime.isoformat\<close> and \<open>plugin\<close> the contract version the settings name
  for a backend.
\<close>

definition job_view_of ::
  "(int \<Rightarrow> string) \<Rightarrow> (execution_backend \<Rightarrow> string option) \<Rightarrow> job_details option \<Rightarrow> job \<Rightarrow> job_view" where
  "job_view_of fmt plugin d j =
     \<lparr>v_id = j_id j, v_kind = j_kind j, v_novel_id = j_novel_id j, v_user_id = j_user_id j,
      v_status = status_value (j_status j), v_stage = j_stage j,
      v_progress = or_empty (j_progress j), v_options = or_empty (j_options j),
      v_error = j_error j, v_attempts = j_attempts j, v_max_attempts = j_max_attempts j,
      v_backend_requested = (if j_backend_requested j = [] then ''auto'' else j_backend_requested j),
      v_execution_backend = backend_value (j_execution_backend j),
      v_backend_model = j_backend_model j, v_backend_policy_version = j_backend_policy_version j,
      v_backend_fallback_allowed = j_backend_fallback_allowed j,
      v_backend_fallback_from = j_backend_fallback_from j,
      v_backend_state = status_value (j_status j),
      v_backend_wait_reason = (if j_status j = Waiting_provider then j_error j else None),
      v_current_run_id = (case d of None \<Rightarrow> None | Some x \<Rightarrow> nonblank (current_run_id x)),
      v_plugin_version = (case (case d of None \<Rightarrow> None | Some x \<Rightarrow> nonblank (current_plugin_version x)) of
          Some v \<Rightarrow> Some v | None \<Rightarrow> plugin (j_execution_backend j)),
      v_cancel_requested = (j_cancel_requested_at j \<noteq> None),
      v_not_before = map_option fmt (j_not_before j),
      v_created_at = Some (fmt (j_created_at j)), v_updated_at = Some (fmt (j_updated_at j))\<rparr>"

definition owned_job :: "work_principal \<Rightarrow> int \<Rightarrow> work_db \<Rightarrow> job result" where
  "owned_job p jid db =
     (case get_job jid db of
        None \<Rightarrow> Inl (NotFound ''Job not found.'')
      | Some j \<Rightarrow> (if wp_is_admin p \<or> j_user_id j = Some (wp_user_id p) then Inr j
                   else Inl (NotFound ''Job not found.'')))"

definition service_list_jobs ::
  "(job \<Rightarrow> job_view) \<Rightarrow> work_principal \<Rightarrow> string option \<Rightarrow> job_status option \<Rightarrow> int option \<Rightarrow> int option \<Rightarrow>
   bool \<Rightarrow> int \<Rightarrow> work_db \<Rightarrow> job_view list" where
  "service_list_jobs view p kind st novel requested active limit db =
     map view (list_jobs (if wp_is_admin p then requested else Some (wp_user_id p)) kind st novel active limit db)"

definition service_get_job :: "(job \<Rightarrow> job_view) \<Rightarrow> int \<Rightarrow> work_principal \<Rightarrow> work_db \<Rightarrow> job_view result" where
  "service_get_job view jid p db = bindE (owned_job p jid db) (\<lambda>j. Inr (view j))"

definition service_cancel_job :: "clock \<Rightarrow> int \<Rightarrow> work_principal \<Rightarrow> (work_db, bool) op" where
  "service_cancel_job clk jid p db =
     (case owned_job p jid db of Inl e \<Rightarrow> (Inl e, db) | Inr _ \<Rightarrow> cancel_job clk jid db)"

section \<open>Properties\<close>

text \<open>
  C11: a claimed API job is resolved, with one exception that is characterised exactly. Let a handler change
  the store through the Work operations only (its own calls and those of other workers and routes, in
  any interleaving), and raise the cancellation signal only when its check saw the job canceled or
  cancel-requested. Then whatever the handler does, return, raise or be canceled, and also when the kind
  has no handler, \<open>process\<close> itself returns, and the job is no longer running: it is queued again or waits
  for a provider, or it is settled. The exception: the handler raised (or there is none), and the job, still
  running, has made 29 attempts or more and is allowed another; then the back-off of the retry overflows in
  the database, \<open>process\<close> raises that error, and the job stays as it was.
\<close>

theorem process_resolves:
  assumes ok: "db_ok db" and g: "get_job (j_id j) db = Some row" and api: "j_execution_backend row = API"
    and h: "\<And>h. registry (j_kind j) = Some h \<Longrightarrow>
      \<exists>cas. (\<forall>ca \<in> set cas. action_ok (snd ca)) \<and> snd (h j db) = work_run cas db"
    and c: "\<And>h. registry (j_kind j) = Some h \<Longrightarrow> fst (h j db) = Canceled_raised \<Longrightarrow> is_canceled (j_id j) (snd (h j db))"
    and s1: "s1 = (case registry (j_kind j) of None \<Rightarrow> db | Some h \<Rightarrow> snd (h j db))"
    and failed: "failed \<longleftrightarrow> (case registry (j_kind j) of None \<Rightarrow> True | Some h \<Rightarrow> \<exists>ty msg. fst (h j db) = Raised ty msg)"
  shows "\<exists>r. get_job (j_id j) s1 = Some r \<and>
    (if failed \<and> j_status r = Running \<and> \<not> exhausted r \<and> 29 \<le> j_attempts r
     then process (work_ops clk registry) j db = (Inl (DatabaseError ''integer out of range''), s1)
     else \<exists>db'. process (work_ops clk registry) j db = (Inr (), db') \<and> resolved (j_id j) db')"
proof (cases "registry (j_kind j)")
  case None
  let ?e = "''Unknown job kind '' @ [CHR 0x27] @ j_kind j @ [CHR 0x27, CHR ''.'']"
  show ?thesis
  proof (cases "backoff_overflows row")
    case True
    note f = fail_or_retry_overflow [OF g True]
    show ?thesis using True g f by (simp add: s1 failed None process_def work_ops_def catchS_def backoff_overflows_def)
  next
    case False
    from fail_or_retry_resolves [OF ok g this] obtain db' where
      "fail_or_retry clk (j_id j) ?e db = (Inr (), db')" "resolved (j_id j) db'" by blast
    then show ?thesis using False g by (auto simp: s1 failed None process_def work_ops_def catchS_def backoff_overflows_def)
  qed
next
  case (Some h)
  obtain cas where cas: "\<forall>ca \<in> set cas. action_ok (snd ca)" "snd (h j db) = work_run cas db" using h [OF Some] by blast
  obtain out s where hs: "h j db = (out, s)" by (cases "h j db")
  then have s: "s1 = s" by (simp add: s1 Some)
  have ok1: "db_ok s1" using work_run_db_ok [OF ok cas(1)] cas(2) hs s by simp
  obtain r where r: "get_job (j_id j) s1 = Some r" "evolves row r"
    using work_run_evolves [OF ok cas(1)] g cas(2) hs s unfolding rows_evolve_def by (metis snd_conv)
  have rapi: "j_execution_backend r = API" using r(2) api by (simp add: evolves_def)
  note go = r(1) s failed Some hs
  show ?thesis
  proof (cases out)
    case (Returned pr)
    obtain s2 j' where m: "mark_done_if_running clk (j_id j) pr s1 = (Inr (j_status r = Running), s2)"
      "get_job (j_id j) s2 = Some j'" "j_status j' \<noteq> Running" using mark_done_result [OF r(1)] by blast
    have "db_ok s2" using keepsD [OF keeps_mark_done ok1, of clk "j_id j" pr] m(1) by simp
    from finalize_resolves [OF this m(2,3), of clk "j_status r = Running"] obtain db' where
      "finalize clk (j_id j) (j_status r = Running) s2 = (Inr (), db')" "resolved (j_id j) db'" by blast
    then show ?thesis
      using m(1) go Returned by (cases "j_status r = Running") (simp_all add: process_def work_ops_def catchS_def bindS_def)
  next
    case Canceled_raised
    then have "is_canceled (j_id j) s1" using c [OF Some] hs s by simp
    then have "j_status r \<noteq> Running"
      using r(1) rapi db_ok_job [OF ok1 r(1)] by (auto simp: is_canceled_def job_ok_def)
    from finalize_resolves [OF ok1 r(1) this] obtain db' where
      "finalize clk (j_id j) False s1 = (Inr (), db')" "resolved (j_id j) db'" by blast
    then show ?thesis using go Canceled_raised by (simp add: process_def work_ops_def catchS_def)
  next
    case (Raised ty msg)
    show ?thesis
    proof (cases "backoff_overflows r")
      case True
      show ?thesis using True go Raised fail_or_retry_overflow [OF r(1) True]
        by (simp add: process_def work_ops_def backoff_overflows_def)
    next
      case False
      from fail_or_retry_resolves [OF ok1 r(1) False] obtain db' where
        "fail_or_retry clk (j_id j) (ty @ '': '' @ msg) s1 = (Inr (), db')" "resolved (j_id j) db'" by blast
      then show ?thesis using False go Raised by (auto simp: process_def work_ops_def backoff_overflows_def)
    qed
  qed
qed

theorem process_resolves_witness:
  "\<exists>db'. process (work_ops demo_clk (\<lambda>_. Some (\<lambda>j db. (Raised ''KeyError'' ''x'', db)))) demo_claimed demo_running_db
     = (Inr (), db') \<and> resolved 1 db'"
proof -
  let ?reg = "\<lambda>_. Some (\<lambda>j db. (Raised ''KeyError'' ''x'', db))"
  have g: "get_job (j_id demo_claimed) demo_running_db = Some demo_claimed"
    by (simp add: demo_running_db_def get_job_def)
  have f: "j_execution_backend demo_claimed = API" "j_attempts demo_claimed \<le> 28"
    by (simp_all add: demo_claimed_def claimed_def demo_job_def inserted_job_def demo_new_job_def)
  have run: "\<exists>cas. (\<forall>ca \<in> set cas. action_ok (snd ca)) \<and> demo_running_db = work_run cas demo_running_db"
    by (intro exI [of _ "[]"]) simp
  have "\<exists>r. get_job (j_id demo_claimed) demo_running_db = Some r \<and>
    (if True \<and> j_status r = Running \<and> \<not> exhausted r \<and> 29 \<le> j_attempts r
     then process (work_ops demo_clk ?reg) demo_claimed demo_running_db =
       (Inl (DatabaseError ''integer out of range''), demo_running_db)
     else \<exists>db'. process (work_ops demo_clk ?reg) demo_claimed demo_running_db = (Inr (), db') \<and> resolved (j_id demo_claimed) db')"
    by (rule process_resolves [OF demo_running_db_ok g f(1)]) (use run in auto)
  then show ?thesis using g f(2) by (simp add: demo_claimed_id)
qed

text \<open>the retry back-off. For 0 to 28 attempts the delay is at least 5 and at most 300 seconds and
  never shrinks as attempts grow; from 29 attempts on the 32-bit product overflows, the statement
  raises and the job row is left as it was.
\<close>

lemma retry_delay_bounds:
  "(\<forall>a. 0 \<le> a \<and> a \<le> 28 \<longrightarrow> (\<exists>d. retry_delay a = Inr d \<and> 5 \<le> d \<and> d \<le> 300 \<and>
      (\<forall>b. 0 \<le> b \<and> b \<le> a \<longrightarrow> (\<exists>c. retry_delay b = Inr c \<and> c \<le> d)))) \<and>
   (\<forall>a \<ge> 29. retry_delay a = Inl (DatabaseError ''integer out of range'')) \<and>
   (\<forall>clk jid e db j. get_job jid db = Some j \<and> j_status j = Running \<and> \<not> exhausted j \<and> 29 \<le> j_attempts j \<longrightarrow>
      fail_or_retry clk jid e db = (Inl (DatabaseError ''integer out of range''), db))"
proof (intro conjI allI impI)
  fix a :: int
  assume a: "0 \<le> a \<and> a \<le> 28"
  have val: "retry_delay b = Inr (min 300 (2 ^ nat b * 5))" if "0 \<le> b" "b \<le> 28" for b
  proof -
    have "(2::int) ^ nat b \<le> 2 ^ 28" using that by (intro power_increasing) auto
    then show ?thesis using that by (simp add: retry_delay_def Let_def)
  qed
  have "\<exists>c. retry_delay b = Inr c \<and> c \<le> min 300 (2 ^ nat a * 5)" if b: "0 \<le> b \<and> b \<le> a" for b
  proof -
    have "(2::int) ^ nat b \<le> 2 ^ nat a" using b by (intro power_increasing) auto
    then have "min 300 ((2::int) ^ nat b * 5) \<le> min 300 (2 ^ nat a * 5)" by linarith
    then show ?thesis using val [of b] a b by simp
  qed
  moreover have "(1::int) \<le> 2 ^ nat a" by simp
  ultimately show "\<exists>d. retry_delay a = Inr d \<and> 5 \<le> d \<and> d \<le> 300 \<and>
      (\<forall>b. 0 \<le> b \<and> b \<le> a \<longrightarrow> (\<exists>c. retry_delay b = Inr c \<and> c \<le> d))"
    using val [of a] a by (intro exI [of _ "min 300 (2 ^ nat a * 5)"]) auto
next
  fix a :: int
  assume "29 \<le> a"
  then have "(2::int) ^ 29 \<le> 2 ^ nat a" by (intro power_increasing) auto
  with \<open>29 \<le> a\<close> show over: "retry_delay a = Inl (DatabaseError ''integer out of range'')"
    by (simp add: retry_delay_def Let_def)
next
  fix clk :: clock and jid e db j
  assume "get_job jid db = Some j \<and> j_status j = Running \<and> \<not> exhausted j \<and> 29 \<le> j_attempts j"
  then show "fail_or_retry clk jid e db = (Inl (DatabaseError ''integer out of range''), db)"
    by (intro fail_or_retry_overflow [of jid db j]) (simp_all add: backoff_overflows_def)
qed

lemma retry_delay_bounds_witness:
  "(\<exists>d. retry_delay 3 = Inr d \<and> 5 \<le> d \<and> d \<le> 300) \<and> retry_delay 40 = Inl (DatabaseError ''integer out of range'')"
proof
  from conjunct1 [OF retry_delay_bounds] have "\<exists>d. retry_delay 3 = Inr d \<and> 5 \<le> d \<and> d \<le> 300 \<and>
      (\<forall>b. 0 \<le> b \<and> b \<le> 3 \<longrightarrow> (\<exists>c. retry_delay b = Inr c \<and> c \<le> d))"
    by (rule allE [of _ 3]) simp
  then show "\<exists>d. retry_delay 3 = Inr d \<and> 5 \<le> d \<and> d \<le> 300" by blast
next
  from conjunct1 [OF conjunct2 [OF retry_delay_bounds]] show "retry_delay 40 = Inl (DatabaseError ''integer out of range'')"
    by (rule allE [of _ 40]) simp
qed

text \<open>jobs are private to their owner. For a principal that is not an admin, a listing shows only the
  principal's own jobs whatever filters are asked for; reading or cancelling a job of somebody else
  gives exactly the error of a job that does not exist and changes nothing; and a listing never has
  more than 500 entries.
\<close>

lemma service_isolation:
  assumes "\<not> wp_is_admin p"
  shows "(\<forall>v \<in> set (service_list_jobs (job_view_of fmt plugin d) p kind st novel requested active limit db).
      v_user_id v = Some (wp_user_id p)) \<and>
    length (service_list_jobs (job_view_of fmt plugin d) p kind st novel requested active limit db) \<le> 500 \<and>
    (\<forall>jid. (\<forall>j. get_job jid db = Some j \<longrightarrow> j_user_id j \<noteq> Some (wp_user_id p)) \<longrightarrow>
      service_get_job (job_view_of fmt plugin d) jid p db = Inl (NotFound ''Job not found.'') \<and>
      service_cancel_job clk jid p db = (Inl (NotFound ''Job not found.''), db))"
proof (intro conjI allI impI ballI)
  fix v assume "v \<in> set (service_list_jobs (job_view_of fmt plugin d) p kind st novel requested active limit db)"
  with assms obtain j where "v = job_view_of fmt plugin d j" "j_user_id j = Some (wp_user_id p)"
    unfolding service_list_jobs_def list_jobs_def by (auto dest!: in_set_takeD)
  then show "v_user_id v = Some (wp_user_id p)" by (simp add: job_view_of_def)
next
  show "length (service_list_jobs (job_view_of fmt plugin d) p kind st novel requested active limit db) \<le> 500"
    by (simp add: service_list_jobs_def list_jobs_def)
next
  fix jid assume "\<forall>j. get_job jid db = Some j \<longrightarrow> j_user_id j \<noteq> Some (wp_user_id p)"
  with assms have own: "owned_job p jid db = Inl (NotFound ''Job not found.'')"
    by (auto simp: owned_job_def split: option.splits)
  then show "service_get_job (job_view_of fmt plugin d) jid p db = Inl (NotFound ''Job not found.'')"
    and "service_cancel_job clk jid p db = (Inl (NotFound ''Job not found.''), db)"
    by (simp_all add: service_get_job_def service_cancel_job_def)
qed

definition demo_stranger :: work_principal where
  "demo_stranger = \<lparr>wp_user_id = 8, wp_is_admin = False\<rparr>"

lemma service_isolation_witness:
  "service_cancel_job demo_clk 1 demo_stranger demo_running_db = (Inl (NotFound ''Job not found.''), demo_running_db)"
proof -
  have "\<forall>j. get_job 1 demo_running_db = Some j \<longrightarrow> j_user_id j \<noteq> Some (wp_user_id demo_stranger)"
    by (simp add: demo_running_db_def get_job_def demo_claimed_def claimed_def demo_job_def inserted_job_def
        demo_new_job_def demo_stranger_def)
  moreover have "\<not> wp_is_admin demo_stranger" by (simp add: demo_stranger_def)
  ultimately show ?thesis using service_isolation by blast
qed

section \<open>Behaviours the comments do not tell\<close>

text \<open>a worker that outlives its lease settles a job that still runs its course. After lease recovery
  has put a job back in the queue, the failure report of the former worker finds it not running, takes
  the branch meant for a cancel and settles it: the job stays queued and claimable, but its
  reservation has been given back.
\<close>

lemma late_failure_settles_queued_job:
  assumes ok: "db_ok db" and g: "get_job jid db = Some j" "j_status j = Queued" "\<not> j_quota_finalized j"
    and q: "j_quota_kind j = Some k" "k \<in> set QUOTA_KINDS" "j_user_id j = Some u"
    and c: "claimable clk b ks locked j"
  shows "\<exists>db' j'. fail_or_retry clk jid e db = (Inr (), db') \<and> get_job jid db' = Some j' \<and>
    j_quota_finalized j' \<and> j_status j' = Queued \<and> claimable clk b ks locked j'"
proof -
  have no: "\<not> (j_id x = jid \<and> j_status x = Running)" if x: "x \<in> set (jobs db)" for x
  proof
    assume a: "j_id x = jid \<and> j_status x = Running"
    with get_job_in [OF ok x] g(1) have "x = j" by simp
    with a g(2) show False by simp
  qed
  have "update_where jid (\<lambda>j. j_status j = Running) f db = (Inr None, db)" for f
    using sql_update_none [of "jobs db" "\<lambda>j. j_id j = jid \<and> j_status j = Running" f] no g by (simp add: update_where_def)
  then have "bindS (update_where jid (\<lambda>j. j_status j = Running) f) rest db = rest None db"
    for f and rest :: "job option \<Rightarrow> (work_db, unit) op"
    by (simp only: bindS_def prod.case sum.case)
  then have run: "fail_or_retry clk jid e db = finalize clk jid False db"
    using g by (simp add: fail_or_retry_def)
  obtain qt where "finalize clk jid False db = (Inr (), (settled_db clk False jid db)\<lparr>quota := qt\<rparr>)"
    using finalize_total [OF ok] by blast
  moreover have "get_job jid ((settled_db clk False jid db)\<lparr>quota := qt\<rparr>) = Some (settled clk False j)"
    using g get_job_settled_db [of jid clk False jid db] by (simp add: get_job_def)
  moreover have "claimable clk b ks locked (settled clk False j)"
    using c by (simp add: claimable_def settled_def)
  ultimately show ?thesis using run g(2) by auto
qed

lemma late_failure_settles_queued_job_witness:
  "\<exists>db' j'. fail_or_retry \<lparr>now = 130, today = (2025, 3, 14)\<rparr> 1 ''lost'' demo_db = (Inr (), db') \<and> get_job 1 db' = Some j' \<and>
     j_quota_finalized j' \<and> claimable \<lparr>now = 130, today = (2025, 3, 14)\<rparr> API (allowed_kinds None) [] j'"
proof -
  have g: "get_job 1 demo_db = Some demo_job"
    by (simp add: demo_db_def get_job_def demo_job_def inserted_job_def)
  have j: "j_status demo_job = Queued" "\<not> j_quota_finalized demo_job" "j_quota_kind demo_job = Some ''codex_builds''"
    "''codex_builds'' \<in> set QUOTA_KINDS" "j_user_id demo_job = Some 7"
    by (simp_all add: demo_job_def inserted_job_def demo_new_job_def QUOTA_KINDS_def)
  from late_failure_settles_queued_job [OF demo_db_ok g j demo_claimable, of "''lost''"] show ?thesis by blast
qed

end
