(* ===== verification/Catalog_Access.thy ===== *)
theory Catalog_Access
  imports Identity_Quota
begin

text \<open>
  The Catalog module: who may read or edit a novel (\<open>modules/catalog/domain/policies.py\<close>), the
  status-tag rules (\<open>domain/tags.py\<close>), the repository (\<open>adapters/outbound/postgres.py\<close>), the access
  service (\<open>application/access.py\<close>) and the tag suggestions of \<open>application/transactions.py\<close>. The
  access checks other modules rely on are the locale \<open>catalog_access\<close>.
\<close>

section \<open>Tables\<close>

record novel =
  novel_id :: int
  owner_id :: "int option"
  visibility :: string
  contribution_policy :: string
  title :: "string option"
  author :: "string option"
  description :: "string option"
  cover_url :: "string option"
  original_language :: "string option"
  codex_enabled :: bool
  series :: "string option"
  status_tags :: "string list"
  n_updated_at :: int

record library_entry =
  le_user_id :: int
  le_novel_id :: int
  le_shelf :: "string option"

record tag_suggestion =
  ts_id :: int
  ts_novel_id :: int
  ts_from_user_id :: int
  ts_tags :: "string list"
  ts_note :: "string option"
  ts_status :: string
  ts_reviewed_by :: "int option"
  ts_created_at :: int

record catalog_db =
  novels :: "novel list"
  next_novel_id :: int
  library :: "library_entry list"
  suggestions :: "tag_suggestion list"
  next_suggestion_id :: int

section \<open>Access rules\<close>

definition can_read :: "novel \<Rightarrow> principal option \<Rightarrow> bool" where
  "can_read n p = (if visibility n \<in> {''global'', ''public''} then True
     else (case p of None \<Rightarrow> False | Some u \<Rightarrow> owner_id n = Some (user_id u) \<or> is_admin u))"

definition can_edit :: "novel \<Rightarrow> principal option \<Rightarrow> bool" where
  "can_edit n p = (case p of None \<Rightarrow> False | Some u \<Rightarrow> owner_id n = Some (user_id u) \<or> is_admin u)"

lemma can_edit_read: "can_edit n p \<Longrightarrow> can_read n p"
  by (auto simp: can_edit_def can_read_def split: option.splits)

section \<open>Status tags\<close>

definition STATUS_TAG_RADIO_GROUPS :: "(string \<times> string list) list" where
  "STATUS_TAG_RADIO_GROUPS =
     [(''status'', [''ongoing'', ''finished'', ''hiatus'']),
      (''translation'', [''translation_ongoing'', ''translation_completed''])]"

definition RADIO_TAGS :: "string list" where
  "RADIO_TAGS = concat (map snd STATUS_TAG_RADIO_GROUPS)"

definition GENRE_TAGS :: "string list" where
  "GENRE_TAGS = [''action'', ''adventure'', ''romance'', ''fantasy'', ''sci_fi'', ''comedy'',
     ''drama'', ''horror'', ''mystery'', ''slice_of_life'']"

definition STATUS_TAGS :: "string list" where
  "STATUS_TAGS = RADIO_TAGS @ GENRE_TAGS"

text \<open>\<open>dict.fromkeys\<close>: the first occurrence of each key, in order.\<close>

fun fromkeys_from :: "'a list \<Rightarrow> 'a list \<Rightarrow> 'a list" where
  "fromkeys_from seen [] = []"
| "fromkeys_from seen (x # xs) =
     (if x \<in> set seen then fromkeys_from seen xs else x # fromkeys_from (x # seen) xs)"

definition fromkeys :: "'a list \<Rightarrow> 'a list" where
  "fromkeys xs = fromkeys_from [] xs"

fun check_radio_groups :: "(string \<times> string list) list \<Rightarrow> string list \<Rightarrow> unit result" where
  "check_radio_groups [] tags = Inr ()"
| "check_radio_groups ((grp, members) # gs) tags =
     (if length (filter (\<lambda>t. t \<in> set members) tags) > 1
      then Inl (ValidationFailed (''At most one '' @ [CHR 0x27] @ grp @ [CHR 0x27] @ '' tag may be set ('' @
             py_join '', '' members @ '').''))
      else check_radio_groups gs tags)"

definition clean_status_tags :: "string list option \<Rightarrow> string list result" where
  "clean_status_tags raw =
     (let tags = map (\<lambda>t. py_lower (py_strip t)) (coalesce raw []);
          tags = filter (\<lambda>t. t \<in> set STATUS_TAGS) (fromkeys tags)
      in bindE (check_radio_groups STATUS_TAG_RADIO_GROUPS tags) (\<lambda>_. Inr tags))"

lemma set_fromkeys_from: "set (fromkeys_from seen xs) = set xs - set seen"
  by (induction seen xs rule: fromkeys_from.induct) auto

lemma set_fromkeys [simp]: "set (fromkeys xs) = set xs"
  by (simp add: fromkeys_def set_fromkeys_from)

lemma distinct_fromkeys_from: "distinct (fromkeys_from seen xs)"
  by (induction seen xs rule: fromkeys_from.induct) (auto simp: set_fromkeys_from)

lemma distinct_fromkeys [simp]: "distinct (fromkeys xs)"
  by (simp add: fromkeys_def distinct_fromkeys_from)

lemma check_radio_groups_Inr:
  "check_radio_groups gs tags = Inr () \<longleftrightarrow> (\<forall>(g, ms) \<in> set gs. length (filter (\<lambda>t. t \<in> set ms) tags) \<le> 1)"
  by (induction gs) (auto split: if_splits)

text \<open>A list is clean when it is a set of known tags with at most one of each radio group.\<close>

definition tags_clean :: "string list \<Rightarrow> bool" where
  "tags_clean tags \<longleftrightarrow> distinct tags \<and> set tags \<subseteq> set STATUS_TAGS \<and>
     (\<forall>(g, ms) \<in> set STATUS_TAG_RADIO_GROUPS. length (filter (\<lambda>t. t \<in> set ms) tags) \<le> 1)"

lemma clean_status_tags_clean: "clean_status_tags raw = Inr tags \<Longrightarrow> tags_clean tags"
  by (auto simp: clean_status_tags_def tags_clean_def Let_def result_iffs check_radio_groups_Inr)

section \<open>The repository\<close>

definition get_access :: "int \<Rightarrow> catalog_db \<Rightarrow> novel option" where
  "get_access nid db = row_by novel_id nid (novels db)"

definition update_novel_row :: "int \<Rightarrow> (novel \<Rightarrow> novel) \<Rightarrow> catalog_db \<Rightarrow> catalog_db" where
  "update_novel_row nid f db = db\<lparr>novels := sql_update (\<lambda>n. novel_id n = nid) f (novels db)\<rparr>"

definition in_library :: "int \<Rightarrow> int \<Rightarrow> library_entry \<Rightarrow> bool" where
  "in_library uid nid e \<longleftrightarrow> le_user_id e = uid \<and> le_novel_id e = nid"

definition add_to_library :: "int \<Rightarrow> int \<Rightarrow> catalog_db \<Rightarrow> catalog_db" where
  "add_to_library nid uid db =
     (if \<exists>e \<in> set (library db). in_library uid nid e then db
      else db\<lparr>library := library db @ [\<lparr>le_user_id = uid, le_novel_id = nid, le_shelf = None\<rparr>]\<rparr>)"

definition remove_from_library :: "int \<Rightarrow> int \<Rightarrow> catalog_db \<Rightarrow> catalog_db" where
  "remove_from_library nid uid db = db\<lparr>library := sql_delete (in_library uid nid) (library db)\<rparr>"

definition set_shelf :: "int \<Rightarrow> int \<Rightarrow> string option \<Rightarrow> catalog_db \<Rightarrow> catalog_db" where
  "set_shelf nid uid shelf db =
     (if \<exists>e \<in> set (library db). in_library uid nid e
      then db\<lparr>library := sql_update (in_library uid nid) (\<lambda>e. e\<lparr>le_shelf := shelf\<rparr>) (library db)\<rparr>
      else db\<lparr>library := library db @ [\<lparr>le_user_id = uid, le_novel_id = nid, le_shelf = shelf\<rparr>]\<rparr>)"

definition repo_set_visibility :: "clock \<Rightarrow> int \<Rightarrow> string \<Rightarrow> int option \<Rightarrow> catalog_db \<Rightarrow> catalog_db" where
  "repo_set_visibility clk nid vis steward db =
     (if vis = ''global''
      then update_novel_row nid (\<lambda>n. n\<lparr>visibility := ''global'', owner_id := steward, n_updated_at := now clk\<rparr>) db
      else update_novel_row nid (\<lambda>n. n\<lparr>visibility := vis, n_updated_at := now clk\<rparr>) db)"


text \<open>
  \<open>update_metadata\<close>: a dictionary of columns. Values are typed by the column; a column the statement
  does not allow is a \<open>ValueError\<close> before anything is written.
\<close>

datatype field_value = F_text "string option" | F_bool bool | F_tags "string list option"

definition METADATA_FIELDS :: "string list" where
  "METADATA_FIELDS = [''title'', ''author'', ''description'', ''cover_url'', ''codex_enabled'', ''status_tags'',
     ''contribution_policy'']"

fun set_column :: "string \<Rightarrow> field_value \<Rightarrow> novel \<Rightarrow> novel option" where
  "set_column k (F_text v) n =
     (if k = ''title'' then Some (n\<lparr>title := v\<rparr>)
      else if k = ''author'' then Some (n\<lparr>author := v\<rparr>)
      else if k = ''description'' then Some (n\<lparr>description := v\<rparr>)
      else if k = ''cover_url'' then Some (n\<lparr>cover_url := v\<rparr>)
      else if k = ''contribution_policy'' then map_option (\<lambda>s. n\<lparr>contribution_policy := s\<rparr>) v
      else None)"
| "set_column k (F_bool b) n = (if k = ''codex_enabled'' then Some (n\<lparr>codex_enabled := b\<rparr>) else None)"
| "set_column k (F_tags ts) n = (if k = ''status_tags'' then Some (n\<lparr>status_tags := coalesce ts []\<rparr>) else None)"

fun set_columns :: "(string \<times> field_value) list \<Rightarrow> novel \<Rightarrow> novel option" where
  "set_columns [] n = Some n"
| "set_columns ((k, v) # fs) n = (case set_column k v n of None \<Rightarrow> None | Some n' \<Rightarrow> set_columns fs n')"

definition update_metadata :: "clock \<Rightarrow> int \<Rightarrow> (string \<times> field_value) list \<Rightarrow> (catalog_db, unit) op" where
  "update_metadata clk nid cols db =
     (if \<not> set (map fst cols) \<subseteq> set METADATA_FIELDS
      then (Inl (ValueError ''unsupported catalog metadata field''), db)
      else (case get_access nid db of
              None \<Rightarrow> (Inr (), db)
            | Some n \<Rightarrow>
                (case set_columns cols n of
                   None \<Rightarrow> (Inl (DatabaseError ''invalid input for column''), db)
                 | Some n' \<Rightarrow> (Inr (), update_novel_row nid (\<lambda>_. n'\<lparr>n_updated_at := now clk\<rparr>) db))))"

record novel_draft =
  nd_title :: string
  nd_author :: "string option"
  nd_description :: "string option"
  nd_cover_url :: "string option"
  nd_original_language :: string
  nd_codex_enabled :: bool

definition create_novel :: "clock \<Rightarrow> novel_draft \<Rightarrow> int option \<Rightarrow> (catalog_db, int) op" where
  "create_novel clk d owner db =
     (Inr (next_novel_id db),
      db\<lparr>novels := novels db @ [\<lparr>novel_id = next_novel_id db, owner_id = owner, visibility = ''private'',
             contribution_policy = ''manual'', title = Some (nd_title d), author = nd_author d,
             description = nd_description d, cover_url = nd_cover_url d,
             original_language = Some (nd_original_language d), codex_enabled = nd_codex_enabled d,
             series = None, status_tags = [], n_updated_at = now clk\<rparr>],
         next_novel_id := next_novel_id db + 1\<rparr>)"

text \<open>Rows that reference a deleted novel go with it (\<open>ON DELETE CASCADE\<close>).\<close>

definition delete_novel :: "int \<Rightarrow> catalog_db \<Rightarrow> catalog_db" where
  "delete_novel nid db = db\<lparr>novels := sql_delete (\<lambda>n. novel_id n = nid) (novels db),
     library := sql_delete (\<lambda>e. le_novel_id e = nid) (library db),
     suggestions := sql_delete (\<lambda>s. ts_novel_id s = nid) (suggestions db)\<rparr>"

definition repo_create_tag_suggestion ::
  "clock \<Rightarrow> int \<Rightarrow> int \<Rightarrow> string list \<Rightarrow> string option \<Rightarrow> (catalog_db, int) op" where
  "repo_create_tag_suggestion clk nid uid tags note db =
     (Inr (next_suggestion_id db),
      db\<lparr>suggestions := suggestions db @ [\<lparr>ts_id = next_suggestion_id db, ts_novel_id = nid, ts_from_user_id = uid,
             ts_tags = tags, ts_note = note, ts_status = ''pending'', ts_reviewed_by = None, ts_created_at = now clk\<rparr>],
         next_suggestion_id := next_suggestion_id db + 1\<rparr>)"

definition list_tag_suggestions :: "int \<Rightarrow> string \<Rightarrow> catalog_db \<Rightarrow> tag_suggestion list" where
  "list_tag_suggestions nid st db =
     take 200 (sort_key (\<lambda>s. - ts_created_at s)
       (filter (\<lambda>s. ts_novel_id s = nid \<and> (st = ''all'' \<or> ts_status s = st)) (suggestions db)))"

definition get_tag_suggestion :: "int \<Rightarrow> int \<Rightarrow> catalog_db \<Rightarrow> (string list \<times> string) option" where
  "get_tag_suggestion nid sid db =
     (case find (\<lambda>s. ts_id s = sid \<and> ts_novel_id s = nid) (suggestions db) of
        None \<Rightarrow> None | Some s \<Rightarrow> Some (ts_tags s, ts_status s))"

definition apply_tags :: "clock \<Rightarrow> int \<Rightarrow> string list \<Rightarrow> catalog_db \<Rightarrow> catalog_db" where
  "apply_tags clk nid tags = update_novel_row nid (\<lambda>n. n\<lparr>status_tags := tags, n_updated_at := now clk\<rparr>)"

definition review_tag_suggestion :: "int \<Rightarrow> string \<Rightarrow> int \<Rightarrow> (catalog_db, bool) op" where
  "review_tag_suggestion sid st reviewer db =
     (Inr (\<exists>s \<in> set (suggestions db). ts_id s = sid \<and> ts_status s = ''pending''),
      db\<lparr>suggestions := sql_update (\<lambda>s. ts_id s = sid \<and> ts_status s = ''pending'')
        (\<lambda>s. s\<lparr>ts_status := st, ts_reviewed_by := Some reviewer\<rparr>) (suggestions db)\<rparr>)"

section \<open>The access service\<close>

definition require_readable :: "int \<Rightarrow> principal option \<Rightarrow> catalog_db \<Rightarrow> novel result" where
  "require_readable nid p db =
     (case get_access nid db of
        None \<Rightarrow> Inl (NotFound ''Novel not found.'')
      | Some n \<Rightarrow> if \<not> can_read n p then Inl (NotFound ''Novel not found.'') else Inr n)"

definition require_editable :: "int \<Rightarrow> principal option \<Rightarrow> catalog_db \<Rightarrow> novel result" where
  "require_editable nid p db =
     (case get_access nid db of
        None \<Rightarrow> Inl (NotFound ''Novel not found.'')
      | Some n \<Rightarrow>
          (if \<not> can_read n p then Inl (NotFound ''Novel not found.'')
           else if \<not> can_edit n p then Inl (Forbidden ''You don't have permission to edit this novel.'')
           else Inr n))"

definition service_add_to_library :: "int \<Rightarrow> principal \<Rightarrow> (catalog_db, unit) op" where
  "service_add_to_library nid p db =
     (case require_readable nid (Some p) db of
        Inl e \<Rightarrow> (Inl e, db) | Inr _ \<Rightarrow> (Inr (), add_to_library nid (user_id p) db))"

definition set_visibility :: "clock \<Rightarrow> int \<Rightarrow> principal \<Rightarrow> string \<Rightarrow> (catalog_db, string) op" where
  "set_visibility clk nid p requested db =
     (let vis = py_lower (py_strip requested)
      in if vis \<notin> {''private'', ''public'', ''global''}
         then (Inl (ValidationFailed ''visibility must be one of ['global', 'private', 'public'].''), db)
         else (case require_editable nid (Some p) db of
                 Inl e \<Rightarrow> (Inl e, db)
               | Inr n \<Rightarrow>
                   (if (vis = ''global'' \<or> visibility n = ''global'') \<and> \<not> is_admin p
                    then (Inl (Forbidden ''Only an admin can manage the Global library.''), db)
                    else (Inr vis, repo_set_visibility clk nid vis
                            (if vis = ''global'' then Some (user_id p) else None) db))))"

text \<open>
  \<open>update_novel\<close>: the steps in the order of the code. The shelf is written first, by itself; a
  later refusal does not undo it. A value of the wrong type for \<open>shelf\<close> or \<open>status_tags\<close> is an
  \<open>AttributeError\<close> in Python and excluded by the request model; here it is a \<open>RuntimeError\<close>.
\<close>

definition dict_pop :: "string \<Rightarrow> (string \<times> 'v) list \<Rightarrow> (string \<times> 'v) list" where
  "dict_pop k fs = filter (\<lambda>(k', _). k' \<noteq> k) fs"

definition dict_set :: "string \<Rightarrow> 'v \<Rightarrow> (string \<times> 'v) list \<Rightarrow> (string \<times> 'v) list" where
  "dict_set k v fs = map (\<lambda>(k', w). (k', if k' = k then v else w)) fs"

definition update_shelf :: "int \<Rightarrow> principal \<Rightarrow> (string \<times> field_value) list \<Rightarrow> (catalog_db, (string \<times> field_value) list) op" where
  "update_shelf nid p cols db =
     (case map_of cols ''shelf'' of
        None \<Rightarrow> (Inr cols, db)
      | Some (F_text v) \<Rightarrow>
          (let shelf = py_lower (py_strip (coalesce v []))
           in if shelf \<noteq> [] \<and> shelf \<notin> {''to_read'', ''reading'', ''completed''}
              then (Inl (ValidationFailed (''Unknown shelf '' @ [CHR 0x27] @ shelf @ [CHR 0x27, CHR ''.''])), db)
              else (Inr (dict_pop ''shelf'' cols),
                    set_shelf nid (user_id p) (if shelf = [] then None else Some shelf) db))
      | Some _ \<Rightarrow> (Inl (RuntimeError ''shelf is not a string''), db))"

definition update_tags :: "bool \<Rightarrow> (string \<times> field_value) list \<Rightarrow> (string \<times> field_value) list result" where
  "update_tags editor cols =
     (case map_of cols ''status_tags'' of
        None \<Rightarrow> Inr cols
      | Some v \<Rightarrow>
          (if \<not> editor then Inl (Forbidden
             ''Only the owner or an admin can change a novel's tags - suggest them instead.'')
           else (case v of
                   F_tags ts \<Rightarrow> bindE (clean_status_tags ts) (\<lambda>clean.
                     Inr (dict_set ''status_tags'' (F_tags (Some clean)) cols))
                 | _ \<Rightarrow> Inl (RuntimeError ''status_tags is not a list''))))"

definition update_novel ::
  "clock \<Rightarrow> int \<Rightarrow> principal \<Rightarrow> (string \<times> field_value) list \<Rightarrow> (catalog_db, string) op" where
  "update_novel clk nid p requested db =
     (if requested = [] then (Inr ''noop'', db)
      else (case require_readable nid (Some p) db of
              Inl e \<Rightarrow> (Inl e, db)
            | Inr n \<Rightarrow>
                (let editor = can_edit n (Some p) in
                 bindS (update_shelf nid p requested) (\<lambda>cols.
                 bindS (liftS (update_tags editor cols)) (\<lambda>cols.
                   if cols = [] then returnS ''success''
                   else if \<not> editor then raiseS (Forbidden ''You don't have permission to edit this novel.'')
                   else if (case map_of cols ''contribution_policy'' of None \<Rightarrow> False
                            | Some v \<Rightarrow> v \<notin> {F_text (Some ''manual''), F_text (Some ''auto'')})
                   then raiseS (ValidationFailed ''contribution_policy must be 'manual' or 'auto'.'')
                   else bindS (update_metadata clk nid cols) (\<lambda>_. returnS ''success''))) db)))"

section \<open>Tag suggestions\<close>

definition create_tag_suggestion ::
  "clock \<Rightarrow> int \<Rightarrow> int \<Rightarrow> string list \<Rightarrow> string option \<Rightarrow> (catalog_db, int) op" where
  "create_tag_suggestion clk nid uid tags note =
     bindS (liftS (clean_status_tags (Some tags))) (\<lambda>clean.
       repo_create_tag_suggestion clk nid uid clean
         (let n = py_strip (coalesce note []) in if n = [] then None else Some n))"

definition accept_tag_suggestion :: "clock \<Rightarrow> int \<Rightarrow> int \<Rightarrow> int \<Rightarrow> (catalog_db, string list) op" where
  "accept_tag_suggestion clk nid sid reviewer db =
     (case get_tag_suggestion nid sid db of
        None \<Rightarrow> (Inl (NotFound ''Tag suggestion not found.''), db)
      | Some (tags, st) \<Rightarrow>
          (if st \<noteq> ''pending''
           then (Inl (Conflict (''Suggestion is already '' @ [CHR 0x27] @ st @ [CHR 0x27, CHR ''.''])), db)
           else bindS (liftS (clean_status_tags (Some tags))) (\<lambda>cleaned.
                  bindS (\<lambda>db. (Inr (), apply_tags clk nid cleaned db)) (\<lambda>_.
                  bindS (review_tag_suggestion sid ''accepted'' reviewer) (\<lambda>_. returnS cleaned))) db))"

definition reject_tag_suggestion :: "int \<Rightarrow> int \<Rightarrow> int \<Rightarrow> (catalog_db, unit) op" where
  "reject_tag_suggestion nid sid reviewer db =
     (case get_tag_suggestion nid sid db of
        None \<Rightarrow> (Inl (NotFound ''No pending tag suggestion with that id.''), db)
      | Some (_, st) \<Rightarrow>
          (if st \<noteq> ''pending'' then (Inl (NotFound ''No pending tag suggestion with that id.''), db)
           else bindS (review_tag_suggestion sid ''rejected'' reviewer) (\<lambda>_. returnS ()) db))"

section \<open>The interface of the access checks\<close>

text \<open>
  What the other modules rely on: a novel that cannot be read gives one and the same error, whether it
  is missing or hidden; what can be edited can be read; a readable novel that cannot be edited gives
  \<open>Forbidden\<close>.
\<close>

locale catalog_access =
  fixes readable :: "int \<Rightarrow> principal option \<Rightarrow> 's \<Rightarrow> 'n result"
    and editable :: "int \<Rightarrow> principal option \<Rightarrow> 's \<Rightarrow> 'n result"
  assumes hidden: "readable nid p s = Inl e \<Longrightarrow> e = NotFound ''Novel not found.''"
    and editable_readable: "editable nid p s = Inr n \<Longrightarrow> readable nid p s = Inr n"
    and not_editable: "editable nid p s = Inl e \<Longrightarrow> readable nid p s = Inl e \<or>
      (\<exists>n. readable nid p s = Inr n) \<and> e = Forbidden ''You don't have permission to edit this novel.''"
begin

text \<open>An operation behind either check leaves the store alone when the check refuses.\<close>

lemma guarded_read:
  assumes "\<And>n. readable nid p s \<noteq> Inr n"
  shows "(case readable nid p s of Inl e \<Rightarrow> (Inl e, t) | Inr n \<Rightarrow> m n t) = (Inl (NotFound ''Novel not found.''), t)"
  using assms hidden by (cases "readable nid p s") auto

lemma guarded_edit:
  assumes "\<And>n. editable nid p s \<noteq> Inr n"
  shows "\<exists>e. (case editable nid p s of Inl e \<Rightarrow> (Inl e, t) | Inr n \<Rightarrow> m n t) = (Inl e, t) \<and>
    (e = NotFound ''Novel not found.'' \<or> e = Forbidden ''You don't have permission to edit this novel.'')"
  using assms hidden not_editable by (cases "editable nid p s") (auto, blast)

end

interpretation novels_access: catalog_access require_readable require_editable
  by unfold_locales
     (auto simp: require_readable_def require_editable_def dest: can_edit_read split: option.splits if_splits)

section \<open>Invariants of the catalog\<close>

definition catalog_ok :: "catalog_db \<Rightarrow> bool" where
  "catalog_ok db \<longleftrightarrow> distinct (map novel_id (novels db)) \<and> (\<forall>n \<in> set (novels db). novel_id n < next_novel_id db) \<and>
     (\<forall>n \<in> set (novels db). tags_clean (status_tags n) \<and> visibility n \<in> {''private'', ''public'', ''global''})"

lemma catalog_ok_update_row:
  assumes "catalog_ok db" and "\<And>n. novel_id n = nid \<Longrightarrow> novel_id (f n) = nid"
    and "\<And>n. n \<in> set (novels db) \<Longrightarrow> novel_id n = nid \<Longrightarrow>
      tags_clean (status_tags (f n)) \<and> visibility (f n) \<in> {''private'', ''public'', ''global''}"
  shows "catalog_ok (update_novel_row nid f db)"
proof -
  have "map novel_id (sql_update (\<lambda>n. novel_id n = nid) f (novels db)) = map novel_id (novels db)"
    by (rule map_sql_update) (use assms(2) in simp)
  with assms show ?thesis by (auto simp: catalog_ok_def update_novel_row_def set_sql_update)
qed

lemma set_column_keeps:
  "set_column k v n = Some n' \<Longrightarrow> novel_id n' = novel_id n \<and> visibility n' = visibility n \<and> owner_id n' = owner_id n \<and>
    (k \<noteq> ''status_tags'' \<longrightarrow> status_tags n' = status_tags n) \<and>
    (\<forall>ts. k = ''status_tags'' \<and> v = F_tags (Some ts) \<longrightarrow> status_tags n' = ts)"
  by (cases v) (auto split: if_splits)

text \<open>Every tag column a metadata update may write was cleaned first.\<close>

definition tags_cleaned :: "(string \<times> field_value) list \<Rightarrow> bool" where
  "tags_cleaned cols \<longleftrightarrow> (\<forall>v. (''status_tags'', v) \<in> set cols \<longrightarrow> (\<exists>ts. v = F_tags (Some ts) \<and> tags_clean ts))"

lemma set_columns_keeps:
  "set_columns cols n = Some n' \<Longrightarrow> tags_cleaned cols \<Longrightarrow> tags_clean (status_tags n) \<Longrightarrow>
    novel_id n' = novel_id n \<and> visibility n' = visibility n \<and> tags_clean (status_tags n')"
proof (induction cols arbitrary: n)
  case Nil
  then show ?case by simp
next
  case (Cons kv cols)
  obtain k v where kv: "kv = (k, v)" by (cases kv)
  with Cons.prems(1) obtain n1 where n1: "set_column k v n = Some n1" "set_columns cols n1 = Some n'"
    by (auto split: option.splits)
  have "tags_clean (status_tags n1)"
  proof (cases "k = ''status_tags''")
    case True
    with Cons.prems(2) kv obtain ts where "v = F_tags (Some ts)" "tags_clean ts"
      by (auto simp: tags_cleaned_def)
    with True set_column_keeps [OF n1(1)] show ?thesis by auto
  next
    case False
    with set_column_keeps [OF n1(1)] Cons.prems(3) show ?thesis by auto
  qed
  moreover have "tags_cleaned cols" using Cons.prems(2) kv by (simp add: tags_cleaned_def)
  ultimately show ?case using Cons.IH [OF n1(2)] set_column_keeps [OF n1(1)] by auto
qed

lemma get_access_in: "get_access nid db = Some n \<Longrightarrow> n \<in> set (novels db) \<and> novel_id n = nid"
  using row_by_Some [of novel_id nid "novels db" n] by (simp add: get_access_def)

lemma update_metadata_ok:
  assumes ok: "catalog_ok db" and cl: "tags_cleaned cols"
  shows "catalog_ok (snd (update_metadata clk nid cols db))"
proof (cases "get_access nid db")
  case None
  with ok show ?thesis by (simp add: update_metadata_def)
next
  case (Some n)
  show ?thesis
  proof (cases "set_columns cols n")
    case None
    with ok Some show ?thesis by (simp add: update_metadata_def)
  next
    case n': (Some n')
    have n: "n \<in> set (novels db)" "novel_id n = nid" using get_access_in [OF Some] by auto
    with ok have "tags_clean (status_tags n)" "visibility n \<in> {''private'', ''public'', ''global''}"
      by (auto simp: catalog_ok_def)
    with set_columns_keeps [OF n' cl] n(2) have "novel_id n' = nid" "tags_clean (status_tags n')"
      "visibility n' \<in> {''private'', ''public'', ''global''}" by auto
    with ok have "catalog_ok (update_novel_row nid (\<lambda>_. n'\<lparr>n_updated_at := now clk\<rparr>) db)"
      by (intro catalog_ok_update_row) auto
    with ok Some n' show ?thesis by (simp add: update_metadata_def)
  qed
qed

lemma catalog_ok_shelf: "catalog_ok (set_shelf nid uid sh db) = catalog_ok db"
  by (simp add: catalog_ok_def set_shelf_def)

lemma update_shelf_ok: "catalog_ok db \<Longrightarrow> catalog_ok (snd (update_shelf nid p cols db))"
  by (auto simp: update_shelf_def catalog_ok_shelf Let_def split: option.splits field_value.splits)

lemma update_shelf_cols:
  "fst (update_shelf nid p cols db) = Inr cols' \<Longrightarrow> set cols' \<subseteq> set cols \<and>
    (distinct (map fst cols) \<longrightarrow> distinct (map fst cols'))"
  by (auto simp: update_shelf_def dict_pop_def Let_def distinct_map_filter
      split: option.splits field_value.splits if_splits)

lemma update_tags_cleaned:
  assumes "update_tags editor cols = Inr cols'" "distinct (map fst cols)"
  shows "tags_cleaned cols'"
proof (cases "map_of cols ''status_tags''")
  case None
  with assms(1) have "cols' = cols" by (simp add: update_tags_def)
  moreover have "(''status_tags'', v) \<notin> set cols" for v
    using None by (force simp: map_of_eq_None_iff)
  ultimately show ?thesis by (simp add: tags_cleaned_def)
next
  case (Some v)
  with assms(1) obtain ts clean where "clean_status_tags ts = Inr clean"
    and c: "cols' = dict_set ''status_tags'' (F_tags (Some clean)) cols"
    by (auto simp: update_tags_def result_iffs split: if_splits field_value.splits)
  then have "tags_clean clean" using clean_status_tags_clean by blast
  with c show ?thesis by (auto simp: tags_cleaned_def dict_set_def)
qed

lemma update_novel_ok:
  assumes ok: "catalog_ok db" and d: "distinct (map fst cols)"
  shows "catalog_ok (snd (update_novel clk nid p cols db))"
proof (cases "require_readable nid (Some p) db")
  case (Inl e)
  with ok show ?thesis by (simp add: update_novel_def)
next
  case (Inr n)
  obtain r1 db1 where r1: "update_shelf nid p cols db = (r1, db1)" by (cases "update_shelf nid p cols db")
  have ok1: "catalog_ok db1" using update_shelf_ok [OF ok, of nid p cols] r1 by simp
  show ?thesis
  proof (cases "\<exists>cols1 cols2. r1 = Inr cols1 \<and> update_tags (can_edit n (Some p)) cols1 = Inr cols2")
    case False
    with ok ok1 Inr r1 show ?thesis
      by (auto simp: update_novel_def Let_def bindS_def split: sum.splits)
  next
    case True
    then obtain cols1 cols2 where c: "r1 = Inr cols1" "update_tags (can_edit n (Some p)) cols1 = Inr cols2" by blast
    have "distinct (map fst cols1)" using update_shelf_cols [of nid p cols db cols1] r1 c(1) d by simp
    from update_metadata_ok [OF ok1 update_tags_cleaned [OF c(2) this], of clk nid] ok ok1 Inr r1 c show ?thesis
      by (auto simp: update_novel_def Let_def bindS_def split: sum.splits prod.splits option.splits)
  qed
qed

section \<open>Properties\<close>

text \<open>
  Cleaned tags are a set of known tags with at most one of each radio group, whatever the input;
  cleaning them again gives the same list, and a tag survives exactly when, stripped and lowered, it
  is a known tag of the input.
\<close>

lemma clean_status_tags_normal:
  assumes "clean_status_tags raw = Inr tags"
  shows "tags_clean tags \<and> clean_status_tags (Some tags) = Inr tags \<and>
    set tags = {t \<in> set STATUS_TAGS. \<exists>r \<in> set (coalesce raw []). t = py_lower (py_strip r)}"
proof -
  have cl: "tags_clean tags" using clean_status_tags_clean assms .
  have fk: "fromkeys_from seen xs = xs" if "distinct xs" "set xs \<inter> set seen = {}" for seen xs :: "string list"
    using that by (induction seen xs rule: fromkeys_from.induct) auto
  have known: "py_lower (py_strip t) = t" if "t \<in> set STATUS_TAGS" for t
  proof -
    have "list_all (\<lambda>t. py_lower (py_strip t) = t) STATUS_TAGS"
      by (simp add: STATUS_TAGS_def RADIO_TAGS_def STATUS_TAG_RADIO_GROUPS_def GENRE_TAGS_def py_lower_def
          lower_char_def py_strip_def py_lstrip_def py_rstrip_def is_py_space_def Let_def)
    with that show ?thesis by (simp add: list_all_iff)
  qed
  have "map (\<lambda>t. py_lower (py_strip t)) tags = tags"
    using cl known by (intro map_idI) (auto simp: tags_clean_def)
  moreover have "fromkeys tags = tags" using cl fk [of tags "[]"] by (simp add: fromkeys_def tags_clean_def)
  moreover have "filter (\<lambda>t. t \<in> set STATUS_TAGS) tags = tags" using cl by (auto simp: tags_clean_def filter_id_conv)
  moreover have "check_radio_groups STATUS_TAG_RADIO_GROUPS tags = Inr ()"
    using cl by (simp add: check_radio_groups_Inr tags_clean_def)
  ultimately have "clean_status_tags (Some tags) = Inr tags" by (simp add: clean_status_tags_def Let_def)
  moreover have "set tags = {t \<in> set STATUS_TAGS. \<exists>r \<in> set (coalesce raw []). t = py_lower (py_strip r)}"
    using assms by (auto simp: clean_status_tags_def Let_def result_iffs)
  ultimately show ?thesis using cl by blast
qed

lemma clean_status_tags_normal_witness:
  "clean_status_tags (Some ['' Ongoing '', ''HORROR'', ''ongoing'', ''nope'']) = Inr [''ongoing'', ''horror''] \<and>
   clean_status_tags (Some [''ongoing'', ''horror'']) = Inr [''ongoing'', ''horror'']"
proof -
  have c: "clean_status_tags (Some ['' Ongoing '', ''HORROR'', ''ongoing'', ''nope'']) = Inr [''ongoing'', ''horror'']"
    by code_simp
  with clean_status_tags_normal [OF c] show ?thesis by blast
qed

text \<open>the Global library is an admin's. A visibility change asked for by a principal that is not an
  admin never makes a novel global and never takes a novel out of the Global library, and it changes
  nothing at all unless that principal owns the novel; every accepted request leaves the requested
  visibility on the novel.
\<close>

lemma global_library_guarded:
  assumes ok: "catalog_ok db" and p: "\<not> is_admin p" and r: "set_visibility clk nid p requested db = (r, db')"
  shows "catalog_ok db' \<and>
    (\<forall>i. map_option (\<lambda>n. visibility n = ''global'') (get_access i db') = map_option (\<lambda>n. visibility n = ''global'') (get_access i db)) \<and>
    (db' \<noteq> db \<longrightarrow> (\<exists>n. get_access nid db = Some n \<and> owner_id n = Some (user_id p))) \<and>
    (\<forall>v. r = Inr v \<longrightarrow> map_option visibility (get_access nid db') = Some v)"
proof (cases "r")
  case (Inl e)
  with r have "db' = db" by (auto simp: set_visibility_def Let_def split: if_splits sum.splits)
  with Inl ok show ?thesis by simp
next
  case (Inr v)
  with r p obtain n where n: "require_editable nid (Some p) db = Inr n" "visibility n \<noteq> ''global''" "v \<noteq> ''global''"
    and v: "v \<in> {''private'', ''public'', ''global''}"
    and db': "db' = update_novel_row nid (\<lambda>n. n\<lparr>visibility := v, n_updated_at := now clk\<rparr>) db"
    by (auto simp: set_visibility_def Let_def repo_set_visibility_def split: if_splits sum.splits)
  from n(1) have g: "get_access nid db = Some n" and e: "can_edit n (Some p)"
    by (auto simp: require_editable_def split: option.splits if_splits)
  have own: "owner_id n = Some (user_id p)" using e p by (simp add: can_edit_def)
  have "row_by novel_id i (sql_update (\<lambda>n. novel_id n = nid) f (novels db)) =
      (if i = nid then map_option f (row_by novel_id i (novels db)) else row_by novel_id i (novels db))"
    if "\<And>n. novel_id (f n) = novel_id n" for i f
    using row_by_update_key [of novel_id f i nid "\<lambda>_. True" "novels db"] that by simp
  then have get': "get_access i db' = (if i = nid then Some (n\<lparr>visibility := v, n_updated_at := now clk\<rparr>) else get_access i db)" for i
    using g by (simp add: get_access_def db' update_novel_row_def)
  have "catalog_ok db'" unfolding db' using ok v
    by (intro catalog_ok_update_row) (auto simp: catalog_ok_def)
  with get' g n(2,3) own Inr show ?thesis by (auto simp: map_option_case)
qed

definition demo_user_b :: principal where
  "demo_user_b = \<lparr>user_id = 7, role = ''user'', status = ''active'', email_verified = True, quota_limits = Map.empty\<rparr>"

definition demo_novel :: novel where
  "demo_novel = \<lparr>novel_id = 3, owner_id = Some 7, visibility = ''private'', contribution_policy = ''manual'',
     title = Some ''T'', author = None, description = None, cover_url = None, original_language = Some ''en'',
     codex_enabled = True, series = None, status_tags = [''ongoing''], n_updated_at = 1\<rparr>"

definition demo_catalog :: catalog_db where
  "demo_catalog = \<lparr>novels = [demo_novel], next_novel_id = 4, library = [],
     suggestions = [\<lparr>ts_id = 5, ts_novel_id = 3, ts_from_user_id = 9, ts_tags = [''horror''], ts_note = None,
       ts_status = ''pending'', ts_reviewed_by = None, ts_created_at = 10\<rparr>], next_suggestion_id = 6\<rparr>"

lemma demo_catalog_ok: "catalog_ok demo_catalog"
  by (simp add: catalog_ok_def demo_catalog_def demo_novel_def tags_clean_def STATUS_TAGS_def RADIO_TAGS_def
      STATUS_TAG_RADIO_GROUPS_def)

definition demo_now :: clock where
  "demo_now = \<lparr>now = 50, today = (2025, 3, 14)\<rparr>"

lemma global_library_guarded_witness:
  "fst (set_visibility demo_now 3 demo_user_b ''PUBLIC '' demo_catalog) = Inr ''public'' \<and>
   map_option visibility (get_access 3 (snd (set_visibility demo_now 3 demo_user_b ''PUBLIC '' demo_catalog))) = Some ''public''"
proof -
  have "fst (set_visibility demo_now 3 demo_user_b ''PUBLIC '' demo_catalog) = Inr ''public''"
    by code_simp
  moreover have "\<not> is_admin demo_user_b" by (simp add: demo_user_b_def is_admin_def)
  ultimately show ?thesis
    using global_library_guarded [OF demo_catalog_ok, of demo_user_b demo_now 3 "''PUBLIC ''"]
    by (metis prod.collapse)
qed

lemma library_set_shelf:
  assumes "\<not> in_library uid nid e"
  shows "e \<in> set (library (set_shelf nid uid sh db)) \<longleftrightarrow> e \<in> set (library db)"
proof (cases "\<exists>e \<in> set (library db). in_library uid nid e")
  case True
  with assms show ?thesis by (auto simp: set_shelf_def set_sql_update in_library_def image_iff)
next
  case False
  with assms show ?thesis by (auto simp: set_shelf_def in_library_def)
qed

lemma novels_set_shelf: "novels (set_shelf nid uid sh db) = novels db"
  by (simp add: set_shelf_def)

text \<open>metadata is its owner's. Whatever a principal that may read but not edit a novel asks
  \<open>update_novel\<close> for, and whether it succeeds or is refused, no novel changes and the only library
  entry that may change is the principal's own shelf for that novel. For everybody, an update keeps
  the catalogue well formed: the tags of every novel stay clean.
\<close>

lemma update_novel_access:
  assumes ok: "catalog_ok db" and d: "distinct (map fst cols)"
  shows "catalog_ok (snd (update_novel clk nid p cols db)) \<and>
    ((\<forall>n. get_access nid db = Some n \<longrightarrow> \<not> can_edit n (Some p)) \<longrightarrow>
      novels (snd (update_novel clk nid p cols db)) = novels db \<and>
      (\<forall>e. \<not> in_library (user_id p) nid e \<longrightarrow>
         (e \<in> set (library (snd (update_novel clk nid p cols db))) \<longleftrightarrow> e \<in> set (library db))))"
proof (intro conjI impI)
  show "catalog_ok (snd (update_novel clk nid p cols db))" using update_novel_ok [OF ok d] .
next
  assume no: "\<forall>n. get_access nid db = Some n \<longrightarrow> \<not> can_edit n (Some p)"
  have "snd (update_novel clk nid p cols db) = db \<or>
      (\<exists>sh. snd (update_novel clk nid p cols db) = set_shelf nid (user_id p) sh db)"
  proof (cases "require_readable nid (Some p) db")
    case (Inl e)
    then show ?thesis by (simp add: update_novel_def)
  next
    case (Inr n)
    then have "\<not> can_edit n (Some p)" using no by (auto simp: require_readable_def split: option.splits if_splits)
    obtain r1 db1 where r1: "update_shelf nid p cols db = (r1, db1)" by (cases "update_shelf nid p cols db")
    then have "db1 = db \<or> (\<exists>sh. db1 = set_shelf nid (user_id p) sh db)"
      by (auto simp: update_shelf_def Let_def split: option.splits field_value.splits if_splits)
    moreover have "snd (update_novel clk nid p cols db) = db1 \<or> snd (update_novel clk nid p cols db) = db"
      using Inr r1 \<open>\<not> can_edit n (Some p)\<close> by (auto simp: update_novel_def Let_def bindS_def split: sum.splits)
    ultimately show ?thesis by auto
  qed
  then show "novels (snd (update_novel clk nid p cols db)) = novels db"
    and "\<forall>e. \<not> in_library (user_id p) nid e \<longrightarrow>
         (e \<in> set (library (snd (update_novel clk nid p cols db))) \<longleftrightarrow> e \<in> set (library db))"
    by (auto simp: library_set_shelf novels_set_shelf)
qed

lemma update_novel_access_witness:
  "novels (snd (update_novel demo_now 3 (demo_user_b\<lparr>user_id := 8\<rparr>) [(''title'', F_text (Some ''X''))] demo_catalog)) =
     novels demo_catalog"
proof -
  have "\<forall>n. get_access 3 demo_catalog = Some n \<longrightarrow> \<not> can_edit n (Some (demo_user_b\<lparr>user_id := 8\<rparr>))"
    by (simp add: get_access_def demo_catalog_def demo_novel_def can_edit_def demo_user_b_def is_admin_def)
  with update_novel_access [OF demo_catalog_ok, of "[(''title'', F_text (Some ''X''))]" demo_now 3 "demo_user_b\<lparr>user_id := 8\<rparr>"]
  show ?thesis by simp
qed

text \<open>
  A tag suggestion is applied at most once. Accepting a pending suggestion puts its cleaned tags on
  the novel and marks it accepted; accepting or rejecting it again is refused and changes nothing.
\<close>

lemma accept_tag_suggestion_once:
  assumes ids: "distinct (map ts_id (suggestions db))" and acc: "accept_tag_suggestion clk nid sid rv db = (Inr tags, db')"
    and n: "get_access nid db = Some n"
  shows "tags_clean tags \<and> get_tag_suggestion nid sid db' = map_option (\<lambda>(ts, _). (ts, ''accepted'')) (get_tag_suggestion nid sid db) \<and>
    map_option status_tags (get_access nid db') = Some tags \<and>
    (\<forall>clk' rv'. \<exists>m. accept_tag_suggestion clk' nid sid rv' db' = (Inl (Conflict m), db')) \<and>
    (\<forall>rv'. \<exists>m. reject_tag_suggestion nid sid rv' db' = (Inl (NotFound m), db'))"
proof -
  from acc obtain ts where g: "get_tag_suggestion nid sid db = Some (ts, ''pending'')"
    and cl: "clean_status_tags (Some ts) = Inr tags"
    and db': "db' = snd (review_tag_suggestion sid ''accepted'' rv (apply_tags clk nid tags db))"
    by (auto simp: accept_tag_suggestion_def bindS_def review_tag_suggestion_def split: option.splits if_splits sum.splits)
  let ?upd = "\<lambda>s. s\<lparr>ts_status := ''accepted'', ts_reviewed_by := Some rv\<rparr>"
  have sugg: "suggestions db' = sql_update (\<lambda>s. ts_id s = sid \<and> ts_status s = ''pending'') ?upd (suggestions db)"
    and nov: "novels db' = sql_update (\<lambda>n. novel_id n = nid) (\<lambda>n. n\<lparr>status_tags := tags, n_updated_at := now clk\<rparr>) (novels db)"
    by (simp_all add: db' review_tag_suggestion_def apply_tags_def update_novel_row_def)
  have "find (\<lambda>s. ts_id s = sid \<and> ts_novel_id s = nid) (sql_update (\<lambda>s. ts_id s = sid \<and> ts_status s = ''pending'') ?upd rows) =
      map_option (\<lambda>s. if ts_status s = ''pending'' then ?upd s else s) (find (\<lambda>s. ts_id s = sid \<and> ts_novel_id s = nid) rows)" for rows
    by (induction rows) auto
  from this [of "suggestions db"] have g': "get_tag_suggestion nid sid db' = Some (ts, ''accepted'')"
    using g unfolding get_tag_suggestion_def sugg
    by (cases "find (\<lambda>s. ts_id s = sid \<and> ts_novel_id s = nid) (suggestions db)") simp_all
  have "map_option status_tags (get_access nid db') = Some tags"
    using n row_by_update_key [of novel_id "\<lambda>n. n\<lparr>status_tags := tags, n_updated_at := now clk\<rparr>" nid nid "\<lambda>_. True" "novels db"]
    by (simp add: get_access_def nov)
  then show ?thesis using g g' clean_status_tags_clean [OF cl]
    by (simp add: accept_tag_suggestion_def reject_tag_suggestion_def)
qed

lemma accept_tag_suggestion_once_witness:
  "\<exists>db'. accept_tag_suggestion demo_now 3 5 7 demo_catalog = (Inr [''horror''], db') \<and>
     map_option status_tags (get_access 3 db') = Some [''horror''] \<and>
     (\<exists>m. accept_tag_suggestion demo_now 3 5 7 db' = (Inl (Conflict m), db'))"
proof -
  have cl: "clean_status_tags (Some [''horror'']) = Inr [''horror'']"
    by (simp add: clean_status_tags_def fromkeys_def STATUS_TAGS_def RADIO_TAGS_def STATUS_TAG_RADIO_GROUPS_def
        GENRE_TAGS_def py_lower_def lower_char_def py_strip_def py_lstrip_def py_rstrip_def is_py_space_def Let_def)
  have "fst (accept_tag_suggestion demo_now 3 5 7 demo_catalog) = Inr [''horror'']"
    using cl by (simp add: accept_tag_suggestion_def get_tag_suggestion_def demo_catalog_def bindS_def review_tag_suggestion_def)
  then obtain db' where a: "accept_tag_suggestion demo_now 3 5 7 demo_catalog = (Inr [''horror''], db')"
    by (metis prod.collapse)
  have i: "distinct (map ts_id (suggestions demo_catalog))" and g: "get_access 3 demo_catalog = Some demo_novel"
    by (simp_all add: demo_catalog_def get_access_def demo_novel_def)
  from accept_tag_suggestion_once [OF i a g] a show ?thesis by blast
qed

end
