(* ===== verification/Reading_Store.thy ===== *)
theory Reading_Store
  imports Catalog_Access
begin

text \<open>
  The tables of the Reading module (\<open>chapters\<close>, \<open>reading_progress\<close>, \<open>bookmarks\<close>,
  \<open>chapter_overlays\<close>, \<open>contributions\<close> of \<open>db/schema.py\<close>) and its repository
  (\<open>modules/reading/adapters/outbound/postgres.py\<close>). Chapter numbers are \<open>NUMERIC\<close>, exact rationals
  here. \<open>content_version\<close> has a default and is never written as NULL, so it is an integer; reads keep
  the code's \<open>or 1\<close>.
\<close>

section \<open>Tables\<close>

record chapter_row =
  c_novel_id :: int
  c_number :: rat
  c_source_id :: "int option"
  c_title :: "string option"
  c_url :: "string option"
  c_raw_html :: "string option"
  c_original_text :: "string option"
  c_content :: "string option"
  c_language :: "string option"
  c_is_translated :: bool
  c_translation_status :: string
  c_translation_model :: "string option"
  c_word_count :: "int option"
  c_content_version :: int
  c_kind :: "string option"
  c_part_label :: "string option"
  c_run_id :: "string option"
  c_source_sha :: "string option"

record progress_row =
  rp_user_id :: int
  rp_novel_id :: int
  rp_last_chapter :: "rat option"
  rp_max_chapter :: "rat option"
  rp_scroll_pct :: rat

record bookmark =
  b_id :: int
  b_user_id :: int
  b_novel_id :: int
  b_chapter :: rat
  b_note :: "string option"
  b_created_at :: int

record overlay =
  o_user_id :: int
  o_novel_id :: int
  o_chapter :: rat
  o_content :: string
  o_base_version :: int
  o_origin :: string
  o_conflict :: bool

record contribution =
  k_id :: int
  k_novel_id :: int
  k_from_user_id :: int
  k_chapter :: rat
  k_content :: string
  k_base_version :: int
  k_status :: string
  k_reviewed_by :: "int option"
  k_created_at :: int
  k_reviewed_at :: "int option"

record reading_db =
  chapters :: "chapter_row list"
  progress_rows :: "progress_row list"
  bookmarks :: "bookmark list"
  next_bookmark_id :: int
  overlays :: "overlay list"
  contributions :: "contribution list"
  next_contribution_id :: int

definition chapter_key :: "chapter_row \<Rightarrow> int \<times> rat" where
  "chapter_key c = (c_novel_id c, c_number c)"

definition progress_key :: "progress_row \<Rightarrow> int \<times> int" where
  "progress_key r = (rp_user_id r, rp_novel_id r)"

definition overlay_key :: "overlay \<Rightarrow> int \<times> int \<times> rat" where
  "overlay_key r = (o_user_id r, o_novel_id r, o_chapter r)"

definition find_chapter :: "int \<Rightarrow> rat \<Rightarrow> reading_db \<Rightarrow> chapter_row option" where
  "find_chapter nid num db = row_by chapter_key (nid, num) (chapters db)"

definition find_progress :: "int \<Rightarrow> int \<Rightarrow> reading_db \<Rightarrow> progress_row option" where
  "find_progress uid nid db = row_by progress_key (uid, nid) (progress_rows db)"

definition find_overlay :: "int \<Rightarrow> int \<Rightarrow> rat \<Rightarrow> reading_db \<Rightarrow> overlay option" where
  "find_overlay uid nid num db = row_by overlay_key (uid, nid, num) (overlays db)"

definition update_chapter :: "int \<Rightarrow> rat \<Rightarrow> (chapter_row \<Rightarrow> chapter_row) \<Rightarrow> reading_db \<Rightarrow> reading_db" where
  "update_chapter nid num f db =
     db\<lparr>chapters := sql_update (\<lambda>c. chapter_key c = (nid, num)) f (chapters db)\<rparr>"

definition or_one :: "int \<Rightarrow> int" where
  "or_one v = (if v = 0 then 1 else v)"

section \<open>Renumbering a source\<close>

definition source_chapter_numbers :: "int \<Rightarrow> reading_db \<Rightarrow> rat list" where
  "source_chapter_numbers sid db =
     sort (map c_number (filter (\<lambda>c. c_source_id c = Some sid) (chapters db)))"

definition shift_if :: "rat list \<Rightarrow> rat \<Rightarrow> rat \<Rightarrow> rat" where
  "shift_if nums delta x = (if x \<in> set nums then x + delta else x)"

text \<open>
  An \<open>UPDATE\<close> of the chapter numbers of a source; a result that breaks the primary key
  \<open>(novel_id, number)\<close> is refused.
\<close>

definition shift_chapters :: "int \<Rightarrow> rat \<Rightarrow> (reading_db, unit) op" where
  "shift_chapters sid d db =
     (let cs = sql_update (\<lambda>c. c_source_id c = Some sid) (\<lambda>c. c\<lparr>c_number := c_number c + d\<rparr>) (chapters db)
      in if distinct (map chapter_key cs) then (Inr (), db\<lparr>chapters := cs\<rparr>)
         else (Inl (DatabaseError ''duplicate key value violates unique constraint''), db))"

definition renumber_source_chapters :: "int \<Rightarrow> int \<Rightarrow> rat \<Rightarrow> (reading_db, int) op" where
  "renumber_source_chapters sid nid delta db =
     (if delta = 0 then (Inr 0, db)
      else
        let nums = map c_number (filter (\<lambda>c. c_source_id c = Some sid) (chapters db));
            db1 = db\<lparr>bookmarks := sql_update (\<lambda>b. b_novel_id b = nid \<and> b_chapter b \<in> set nums)
                       (\<lambda>b. b\<lparr>b_chapter := b_chapter b + delta\<rparr>) (bookmarks db)\<rparr>;
            db2 = db1\<lparr>progress_rows := sql_update (\<lambda>r. rp_novel_id r = nid)
                       (\<lambda>r. r\<lparr>rp_last_chapter := map_option (shift_if nums delta) (rp_last_chapter r),
                              rp_max_chapter := map_option (shift_if nums delta) (rp_max_chapter r)\<rparr>) (progress_rows db1)\<rparr>
        in bindS (shift_chapters sid (delta + 1000000)) (\<lambda>_.
           bindS (shift_chapters sid (- 1000000)) (\<lambda>_.
             returnS (int (length nums)))) db2)"

section \<open>Progress and bookmarks\<close>

record progress =
  last_chapter :: "rat option"
  max_chapter_read :: "rat option"
  scroll_pct :: rat

definition repo_get_progress :: "int \<Rightarrow> int \<Rightarrow> reading_db \<Rightarrow> progress" where
  "repo_get_progress nid uid db =
     (case find_progress uid nid db of
        None \<Rightarrow> \<lparr>last_chapter = None, max_chapter_read = None, scroll_pct = 0\<rparr>
      | Some r \<Rightarrow> \<lparr>last_chapter = rp_last_chapter r, max_chapter_read = rp_max_chapter r,
                   scroll_pct = rp_scroll_pct r\<rparr>)"

definition chapter_exists :: "int \<Rightarrow> rat \<Rightarrow> reading_db \<Rightarrow> bool" where
  "chapter_exists nid num db = (find_chapter nid num db \<noteq> None)"

text \<open>\<open>INSERT ... ON CONFLICT (user_id, novel_id) DO UPDATE\<close>.\<close>

definition upsert_progress ::
  "progress_row \<Rightarrow> (progress_row \<Rightarrow> progress_row) \<Rightarrow> reading_db \<Rightarrow> reading_db" where
  "upsert_progress new f db =
     (case find_progress (rp_user_id new) (rp_novel_id new) db of
        None \<Rightarrow> db\<lparr>progress_rows := progress_rows db @ [new]\<rparr>
      | Some _ \<Rightarrow> db\<lparr>progress_rows := sql_update (\<lambda>r. progress_key r = progress_key new) f (progress_rows db)\<rparr>)"

definition repo_set_progress :: "int \<Rightarrow> int \<Rightarrow> rat \<Rightarrow> rat \<Rightarrow> reading_db \<Rightarrow> reading_db" where
  "repo_set_progress nid uid num scroll =
     upsert_progress \<lparr>rp_user_id = uid, rp_novel_id = nid, rp_last_chapter = Some num, rp_max_chapter = None,
         rp_scroll_pct = scroll\<rparr>
       (\<lambda>r. r\<lparr>rp_last_chapter := Some num, rp_scroll_pct := scroll\<rparr>)"

definition repo_list_bookmarks :: "int \<Rightarrow> int \<Rightarrow> reading_db \<Rightarrow> bookmark list" where
  "repo_list_bookmarks nid uid db =
     sort_key b_chapter (filter (\<lambda>b. b_novel_id b = nid \<and> b_user_id b = uid) (bookmarks db))"

definition repo_add_bookmark :: "clock \<Rightarrow> int \<Rightarrow> int \<Rightarrow> rat \<Rightarrow> string option \<Rightarrow> (reading_db, int) op" where
  "repo_add_bookmark clk nid uid num note db =
     (Inr (next_bookmark_id db),
      db\<lparr>bookmarks := bookmarks db @ [\<lparr>b_id = next_bookmark_id db, b_user_id = uid, b_novel_id = nid,
             b_chapter = num, b_note = note, b_created_at = now clk\<rparr>],
         next_bookmark_id := next_bookmark_id db + 1\<rparr>)"

definition repo_delete_bookmark :: "int \<Rightarrow> int \<Rightarrow> int \<Rightarrow> reading_db \<Rightarrow> reading_db" where
  "repo_delete_bookmark nid uid bid db =
     db\<lparr>bookmarks := sql_delete (\<lambda>b. b_id b = bid \<and> b_novel_id b = nid \<and> b_user_id b = uid) (bookmarks db)\<rparr>"

section \<open>The span of a novel and the trusted ceiling\<close>

definition novel_numbers :: "int \<Rightarrow> reading_db \<Rightarrow> rat list" where
  "novel_numbers nid db = map c_number (filter (\<lambda>c. c_novel_id c = nid) (chapters db))"

definition chapter_span :: "int \<Rightarrow> reading_db \<Rightarrow> int \<times> rat option \<times> rat option" where
  "chapter_span nid db =
     (let nums = novel_numbers nid db
      in (int (length nums),
          if nums = [] then None else Some (Min (set nums)),
          if nums = [] then None else Some (Max (set nums))))"

definition trusted_ceiling :: "int \<Rightarrow> int \<Rightarrow> reading_db \<Rightarrow> rat option" where
  "trusted_ceiling nid uid db =
     (case find_progress uid nid db of None \<Rightarrow> None | Some r \<Rightarrow> rp_max_chapter r)"

section \<open>Serving chapters\<close>

record chapter_item =
  ci_number :: rat
  ci_title :: "string option"
  ci_language :: "string option"
  ci_is_translated :: bool
  ci_translation_status :: string
  ci_has_content :: bool
  ci_word_count :: "int option"
  ci_kind :: string
  ci_part_label :: "string option"

definition repo_list_chapters :: "int \<Rightarrow> reading_db \<Rightarrow> chapter_item list" where
  "repo_list_chapters nid db =
     map (\<lambda>c. \<lparr>ci_number = c_number c, ci_title = c_title c, ci_language = c_language c,
            ci_is_translated = c_is_translated c, ci_translation_status = c_translation_status c,
            ci_has_content = (c_content c \<noteq> None \<or> c_raw_html c \<noteq> None), ci_word_count = c_word_count c,
            ci_kind = (case c_kind c of None \<Rightarrow> ''chapter'' | Some k \<Rightarrow> if k = [] then ''chapter'' else k),
            ci_part_label = c_part_label c\<rparr>)
       (sort_key c_number (filter (\<lambda>c. c_novel_id c = nid) (chapters db)))"

record snapshot =
  sn_number :: rat
  sn_title :: "string option"
  sn_content :: "string option"
  sn_raw_html :: "string option"
  sn_content_version :: int
  sn_word_count :: "int option"
  sn_has_original :: bool
  sn_language :: "string option"
  sn_is_translated :: bool
  sn_translation_status :: string
  sn_source_id :: "int option"
  sn_previous :: "(rat \<times> string option) option"
  sn_next :: "(rat \<times> string option) option"
  sn_next_is_raw :: bool
  sn_overlay_content :: "string option"
  sn_overlay_base_version :: "int option"
  sn_overlay_origin :: "string option"
  sn_overlay_conflict :: bool

definition previous_chapter :: "int \<Rightarrow> rat \<Rightarrow> reading_db \<Rightarrow> chapter_row option" where
  "previous_chapter nid num db =
     sql_first (\<lambda>c. - c_number c) (filter (\<lambda>c. c_novel_id c = nid \<and> c_number c < num) (chapters db))"

definition following_chapter :: "int \<Rightarrow> rat \<Rightarrow> reading_db \<Rightarrow> chapter_row option" where
  "following_chapter nid num db =
     sql_first c_number (filter (\<lambda>c. c_novel_id c = nid \<and> c_number c > num) (chapters db))"

text \<open>\<open>GREATEST(COALESCE(old, new), new)\<close>.\<close>

definition raise_max :: "rat \<Rightarrow> rat option \<Rightarrow> rat" where
  "raise_max num old = max (coalesce old num) num"

definition record_served :: "int \<Rightarrow> int \<Rightarrow> rat \<Rightarrow> reading_db \<Rightarrow> reading_db" where
  "record_served uid nid num =
     upsert_progress \<lparr>rp_user_id = uid, rp_novel_id = nid, rp_last_chapter = Some num, rp_max_chapter = Some num,
         rp_scroll_pct = 0\<rparr>
       (\<lambda>r. r\<lparr>rp_last_chapter := Some (coalesce (rp_last_chapter r) num),
              rp_max_chapter := Some (raise_max num (rp_max_chapter r))\<rparr>)"

definition snapshot_of :: "reading_db \<Rightarrow> int \<Rightarrow> rat \<Rightarrow> chapter_row \<Rightarrow> overlay option \<Rightarrow> snapshot" where
  "snapshot_of db nid num c ov =
     (let prv = previous_chapter nid num db; nxt = following_chapter nid num db; base = or_one (c_content_version c)
      in \<lparr>sn_number = c_number c, sn_title = c_title c, sn_content = c_content c, sn_raw_html = c_raw_html c,
          sn_content_version = base, sn_word_count = c_word_count c, sn_has_original = (c_original_text c \<noteq> None),
          sn_language = c_language c, sn_is_translated = c_is_translated c,
          sn_translation_status = c_translation_status c, sn_source_id = c_source_id c,
          sn_previous = map_option (\<lambda>p. (c_number p, c_title p)) prv,
          sn_next = map_option (\<lambda>n. (c_number n, c_title n)) nxt,
          sn_next_is_raw = (case nxt of None \<Rightarrow> False | Some n \<Rightarrow> c_content n = None \<and> c_original_text n \<noteq> None),
          sn_overlay_content = map_option o_content ov,
          sn_overlay_base_version = map_option o_base_version ov,
          sn_overlay_origin = map_option o_origin ov,
          sn_overlay_conflict = (case ov of None \<Rightarrow> False | Some r \<Rightarrow> o_conflict r \<or> o_base_version r < base)\<rparr>)"

definition repo_get_chapter :: "int \<Rightarrow> rat \<Rightarrow> int option \<Rightarrow> (reading_db, snapshot) op" where
  "repo_get_chapter nid num uid db =
     (case find_chapter nid num db of
        None \<Rightarrow> (Inl (NotFound ''Chapter not found.''), db)
      | Some c \<Rightarrow>
          (case uid of
             None \<Rightarrow> (Inr (snapshot_of db nid num c None), db)
           | Some u \<Rightarrow> (Inr (snapshot_of db nid num c (find_overlay u nid num db)), record_served u nid num db)))"

section \<open>Base content, overlays and contributions\<close>

definition chapter_version_and_source :: "int \<Rightarrow> rat \<Rightarrow> reading_db \<Rightarrow> (int \<times> bool) result" where
  "chapter_version_and_source nid num db =
     (case find_chapter nid num db of
        None \<Rightarrow> Inl (NotFound ''Chapter not found.'')
      | Some c \<Rightarrow> Inr (or_one (c_content_version c), c_original_text c \<noteq> None))"

definition flag_conflicts :: "int \<Rightarrow> rat \<Rightarrow> int \<Rightarrow> int option \<Rightarrow> reading_db \<Rightarrow> reading_db" where
  "flag_conflicts nid num ver keep db =
     db\<lparr>overlays := sql_update (\<lambda>r. o_novel_id r = nid \<and> o_chapter r = num \<and> o_base_version r < ver \<and>
            (case keep of None \<Rightarrow> True | Some u \<Rightarrow> o_user_id r \<noteq> u))
          (\<lambda>r. r\<lparr>o_conflict := True\<rparr>) (overlays db)\<rparr>"

definition reanchor_overlay :: "int \<Rightarrow> rat \<Rightarrow> int \<Rightarrow> int \<Rightarrow> reading_db \<Rightarrow> reading_db" where
  "reanchor_overlay nid num uid ver db =
     db\<lparr>overlays := sql_update (\<lambda>r. overlay_key r = (uid, nid, num))
          (\<lambda>r. r\<lparr>o_base_version := ver, o_conflict := False\<rparr>) (overlays db)\<rparr>"

definition update_base_content :: "int \<Rightarrow> rat \<Rightarrow> string \<Rightarrow> int option \<Rightarrow> (reading_db, int) op" where
  "update_base_content nid num content keep db =
     (case find_chapter nid num db of
        None \<Rightarrow> (Inl (NotFound ''Chapter not found.''), db)
      | Some c \<Rightarrow>
          (let ver = c_content_version c + 1;
               db1 = update_chapter nid num (\<lambda>c. c\<lparr>c_content := Some content, c_is_translated := True,
                       c_translation_status := ''done'', c_content_version := c_content_version c + 1\<rparr>) db;
               db2 = flag_conflicts nid num ver keep db1
           in (Inr ver, (case keep of None \<Rightarrow> db2 | Some u \<Rightarrow> reanchor_overlay nid num u ver db2))))"

definition repo_save_overlay :: "int \<Rightarrow> rat \<Rightarrow> int \<Rightarrow> string \<Rightarrow> int \<Rightarrow> string \<Rightarrow> reading_db \<Rightarrow> reading_db" where
  "repo_save_overlay nid num uid content ver origin db =
     (case find_overlay uid nid num db of
        None \<Rightarrow> db\<lparr>overlays := overlays db @ [\<lparr>o_user_id = uid, o_novel_id = nid, o_chapter = num, o_content = content,
                 o_base_version = ver, o_origin = origin, o_conflict = False\<rparr>]\<rparr>
      | Some _ \<Rightarrow> db\<lparr>overlays := sql_update (\<lambda>r. overlay_key r = (uid, nid, num))
                 (\<lambda>r. r\<lparr>o_content := content, o_base_version := ver, o_origin := origin, o_conflict := False\<rparr>) (overlays db)\<rparr>)"

definition repo_delete_overlay :: "int \<Rightarrow> rat \<Rightarrow> int \<Rightarrow> reading_db \<Rightarrow> reading_db" where
  "repo_delete_overlay nid num uid db =
     db\<lparr>overlays := sql_delete (\<lambda>r. overlay_key r = (uid, nid, num)) (overlays db)\<rparr>"

definition repo_get_overlay :: "int \<Rightarrow> rat \<Rightarrow> int \<Rightarrow> reading_db \<Rightarrow> (string \<times> int) option" where
  "repo_get_overlay nid num uid db = map_option (\<lambda>r. (o_content r, o_base_version r)) (find_overlay uid nid num db)"

definition create_contribution ::
  "clock \<Rightarrow> int \<Rightarrow> rat \<Rightarrow> int \<Rightarrow> string \<Rightarrow> int \<Rightarrow> string \<Rightarrow> bool \<Rightarrow> (reading_db, int) op" where
  "create_contribution clk nid num uid content ver st auto_merged db =
     (Inr (next_contribution_id db),
      db\<lparr>contributions := contributions db @ [\<lparr>k_id = next_contribution_id db, k_novel_id = nid, k_from_user_id = uid,
             k_chapter = num, k_content = content, k_base_version = ver, k_status = st, k_reviewed_by = None,
             k_created_at = now clk, k_reviewed_at = (if auto_merged then Some (now clk) else None)\<rparr>],
         next_contribution_id := next_contribution_id db + 1\<rparr>)"

record contribution_item =
  kc_row :: contribution
  kc_base_content :: "string option"
  kc_current_version :: "int option"

definition repo_list_contributions :: "int \<Rightarrow> string \<Rightarrow> reading_db \<Rightarrow> contribution_item list" where
  "repo_list_contributions nid st db =
     map (\<lambda>k. let c = find_chapter (k_novel_id k) (k_chapter k) db
              in \<lparr>kc_row = k, kc_base_content = (case c of None \<Rightarrow> None | Some r \<Rightarrow> c_content r),
                  kc_current_version = map_option c_content_version c\<rparr>)
       (take 200 (sort_key (\<lambda>k. - k_created_at k)
         (filter (\<lambda>k. k_novel_id k = nid \<and> (st = ''all'' \<or> k_status k = st)) (contributions db))))"

definition get_contribution :: "int \<Rightarrow> int \<Rightarrow> reading_db \<Rightarrow> contribution option" where
  "get_contribution nid kid db = find (\<lambda>k. k_id k = kid \<and> k_novel_id k = nid) (contributions db)"

definition mark_contribution_accepted :: "clock \<Rightarrow> int \<Rightarrow> int \<Rightarrow> string \<Rightarrow> reading_db \<Rightarrow> reading_db" where
  "mark_contribution_accepted clk kid reviewer content db =
     db\<lparr>contributions := sql_update (\<lambda>k. k_id k = kid)
          (\<lambda>k. k\<lparr>k_status := ''accepted'', k_content := content, k_reviewed_by := Some reviewer,
                 k_reviewed_at := Some (now clk)\<rparr>) (contributions db)\<rparr>"

definition repo_reject_contribution :: "clock \<Rightarrow> int \<Rightarrow> int \<Rightarrow> int \<Rightarrow> (reading_db, bool) op" where
  "repo_reject_contribution clk nid kid reviewer db =
     (let p = (\<lambda>k. k_id k = kid \<and> k_novel_id k = nid \<and> k_status k = ''pending'')
      in (Inr (\<exists>k \<in> set (contributions db). p k),
          db\<lparr>contributions := sql_update p (\<lambda>k. k\<lparr>k_status := ''rejected'', k_reviewed_by := Some reviewer,
                 k_reviewed_at := Some (now clk)\<rparr>) (contributions db)\<rparr>))"

end
