(* ===== verification/Reading_Service.thy ===== *)
theory Reading_Service
  imports Reading_Store
begin

text \<open>
  Progress, bookmarks and the spoiler ceiling: \<open>modules/reading/application/services.py\<close>. The catalogue's
  access check is a port of the service, here an argument; the locale \<open>reading_access\<close> states what the
  service relies on, and \<open>require_readable\<close> of the Catalog module provides it.
\<close>

section \<open>The service\<close>

type_synonym access_port = "int \<Rightarrow> principal option \<Rightarrow> novel result"

definition get_progress :: "access_port \<Rightarrow> int \<Rightarrow> principal \<Rightarrow> reading_db \<Rightarrow> progress result" where
  "get_progress access nid p db =
     bindE (access nid (Some p)) (\<lambda>_. Inr (repo_get_progress nid (user_id p) db))"

definition check_number :: "int \<Rightarrow> pyfloat \<Rightarrow> reading_db \<Rightarrow> rat result" where
  "check_number nid num db =
     (case num of
        Fin x \<Rightarrow> if chapter_exists nid x db then Inr x else Inl (NotFound ''Chapter not found.'')
      | _ \<Rightarrow> Inl (ValidationFailed ''Chapter number must be finite.''))"

definition set_progress :: "access_port \<Rightarrow> int \<Rightarrow> principal \<Rightarrow> pyfloat \<Rightarrow> pyfloat \<Rightarrow> (reading_db, unit) op" where
  "set_progress access nid p num scroll db =
     (case access nid (Some p) of
        Inl e \<Rightarrow> (Inl e, db)
      | Inr _ \<Rightarrow>
          (if \<not> fl_finite num then (Inl (ValidationFailed ''Chapter number must be finite.''), db)
           else (case scroll of
                   Fin s \<Rightarrow>
                     (if \<not> (0 \<le> s \<and> s \<le> 1)
                      then (Inl (ValidationFailed ''Scroll position must be between zero and one.''), db)
                      else (case check_number nid num db of
                              Inl e \<Rightarrow> (Inl e, db)
                            | Inr x \<Rightarrow> (Inr (), repo_set_progress nid (user_id p) x s db)))
                 | _ \<Rightarrow> (Inl (ValidationFailed ''Scroll position must be between zero and one.''), db))))"

definition list_bookmarks :: "access_port \<Rightarrow> int \<Rightarrow> principal \<Rightarrow> reading_db \<Rightarrow> bookmark list result" where
  "list_bookmarks access nid p db =
     bindE (access nid (Some p)) (\<lambda>_. Inr (repo_list_bookmarks nid (user_id p) db))"

definition add_bookmark ::
  "access_port \<Rightarrow> clock \<Rightarrow> int \<Rightarrow> principal \<Rightarrow> pyfloat \<Rightarrow> string option \<Rightarrow> (reading_db, int) op" where
  "add_bookmark access clk nid p num note db =
     (case access nid (Some p) of
        Inl e \<Rightarrow> (Inl e, db)
      | Inr _ \<Rightarrow> (case check_number nid num db of
                   Inl e \<Rightarrow> (Inl e, db)
                 | Inr x \<Rightarrow> repo_add_bookmark clk nid (user_id p) x note db))"

definition delete_bookmark :: "access_port \<Rightarrow> int \<Rightarrow> principal \<Rightarrow> int \<Rightarrow> (reading_db, unit) op" where
  "delete_bookmark access nid p bid db =
     (case access nid (Some p) of
        Inl e \<Rightarrow> (Inl e, db) | Inr _ \<Rightarrow> (Inr (), repo_delete_bookmark nid (user_id p) bid db))"

record ceiling =
  ec_novel :: novel
  ec_chapter_count :: int
  ec_min_chapter :: rat
  ec_max_chapter :: rat
  ec_requested :: "pyfloat option"
  ec_allowed :: rat
  ec_effective :: pyfloat
  ec_clamped :: bool

text \<open>Python's \<open>==\<close> on floats: NaN differs from itself.\<close>

definition fl_eq :: "pyfloat \<Rightarrow> pyfloat \<Rightarrow> bool" where
  "fl_eq a b = (a \<noteq> NaN \<and> b \<noteq> NaN \<and> a = b)"

definition effective_ceiling ::
  "access_port \<Rightarrow> int \<Rightarrow> principal option \<Rightarrow> pyfloat option \<Rightarrow> reading_db \<Rightarrow> ceiling result" where
  "effective_ceiling access nid p requested db =
     bindE (access nid p) (\<lambda>novel.
       case chapter_span nid db of
         (count, Some lo, Some hi) \<Rightarrow>
           (if count = 0 then Inl (NotFound ''No chapters found.'')
            else
              let progress = (case p of None \<Rightarrow> None | Some u \<Rightarrow> trusted_ceiling nid (user_id u) db);
                  trusted = coalesce progress lo;
                  allowed = max lo (min hi trusted);
                  effective = (case requested of
                                 None \<Rightarrow> Fin allowed
                               | Some r \<Rightarrow> py_max (Fin lo) (py_min r (Fin allowed)))
              in Inr \<lparr>ec_novel = novel, ec_chapter_count = count, ec_min_chapter = lo, ec_max_chapter = hi,
                     ec_requested = requested, ec_allowed = allowed, ec_effective = effective,
                     ec_clamped = (case requested of None \<Rightarrow> False | Some r \<Rightarrow> \<not> fl_eq effective r)\<rparr>)
       | _ \<Rightarrow> Inl (NotFound ''No chapters found.''))"

section \<open>The access port\<close>

locale reading_access =
  fixes access :: access_port
  assumes access_error: "access nid p = Inl e \<Longrightarrow> e = NotFound ''Novel not found.''"
begin

text \<open>A novel the principal may not read does not exist for any operation of the service.\<close>

lemma hidden_everywhere:
  assumes "\<And>n. access nid (Some p) \<noteq> Inr n"
  shows "get_progress access nid p db = Inl (NotFound ''Novel not found.'')"
    and "set_progress access nid p num scroll db = (Inl (NotFound ''Novel not found.''), db)"
    and "list_bookmarks access nid p db = Inl (NotFound ''Novel not found.'')"
    and "add_bookmark access clk nid p num note db = (Inl (NotFound ''Novel not found.''), db)"
    and "delete_bookmark access nid p bid db = (Inl (NotFound ''Novel not found.''), db)"
    and "effective_ceiling access nid (Some p) req db = Inl (NotFound ''Novel not found.'')"
proof -
  obtain e where "access nid (Some p) = Inl e" using assms by (cases "access nid (Some p)") auto
  then have "access nid (Some p) = Inl (NotFound ''Novel not found.'')" using access_error by simp
  then show "get_progress access nid p db = Inl (NotFound ''Novel not found.'')"
    and "set_progress access nid p num scroll db = (Inl (NotFound ''Novel not found.''), db)"
    and "list_bookmarks access nid p db = Inl (NotFound ''Novel not found.'')"
    and "add_bookmark access clk nid p num note db = (Inl (NotFound ''Novel not found.''), db)"
    and "delete_bookmark access nid p bid db = (Inl (NotFound ''Novel not found.''), db)"
    and "effective_ceiling access nid (Some p) req db = Inl (NotFound ''Novel not found.'')"
    by (simp_all add: get_progress_def set_progress_def list_bookmarks_def add_bookmark_def
        delete_bookmark_def effective_ceiling_def)
qed

end

interpretation readers: reading_access "\<lambda>nid p. require_readable nid p cat" for cat
  by unfold_locales (rule novels_access.hidden)

section \<open>Facts about the span and the ceiling\<close>

lemma chapter_span_Some:
  "chapter_span nid db = (count, Some lo, Some hi) \<Longrightarrow> lo \<le> hi \<and> count > 0 \<and>
    (\<forall>x \<in> set (novel_numbers nid db). lo \<le> x \<and> x \<le> hi) \<and>
    lo \<in> set (novel_numbers nid db) \<and> hi \<in> set (novel_numbers nid db)"
  by (auto simp: chapter_span_def Let_def split: if_splits)

lemma effective_ceiling_Inr:
  assumes "effective_ceiling access nid p req db = Inr e"
  shows "access nid p = Inr (ec_novel e)"
    and "chapter_span nid db = (ec_chapter_count e, Some (ec_min_chapter e), Some (ec_max_chapter e))"
    and "ec_allowed e = max (ec_min_chapter e) (min (ec_max_chapter e)
      (coalesce (case p of None \<Rightarrow> None | Some u \<Rightarrow> trusted_ceiling nid (user_id u) db) (ec_min_chapter e)))"
    and "ec_effective e = (case req of None \<Rightarrow> Fin (ec_allowed e)
      | Some r \<Rightarrow> py_max (Fin (ec_min_chapter e)) (py_min r (Fin (ec_allowed e))))"
    and "ec_clamped e = (case req of None \<Rightarrow> False | Some r \<Rightarrow> \<not> fl_eq (ec_effective e) r)"
proof -
  obtain n where n: "access nid p = Inr n"
    using assms by (cases "access nid p") (simp_all add: effective_ceiling_def)
  obtain c a b where sp: "chapter_span nid db = (c, a, b)" by (cases "chapter_span nid db")
  with assms n obtain lo hi where ab: "a = Some lo" "b = Some hi" "c \<noteq> 0"
    by (cases a; cases b) (simp_all add: effective_ceiling_def split: if_splits)
  note e = assms [unfolded effective_ceiling_def n sp ab bindE_simps Let_def prod.case option.case if_not_P [OF ab(3)]
      sum.inject, symmetric]
  show "access nid p = Inr (ec_novel e)" unfolding e using n by simp
  show "chapter_span nid db = (ec_chapter_count e, Some (ec_min_chapter e), Some (ec_max_chapter e))"
    unfolding e using sp ab by simp
  show "ec_allowed e = max (ec_min_chapter e) (min (ec_max_chapter e)
      (coalesce (case p of None \<Rightarrow> None | Some u \<Rightarrow> trusted_ceiling nid (user_id u) db) (ec_min_chapter e)))"
    unfolding e by simp
  show "ec_effective e = (case req of None \<Rightarrow> Fin (ec_allowed e)
      | Some r \<Rightarrow> py_max (Fin (ec_min_chapter e)) (py_min r (Fin (ec_allowed e))))"
    unfolding e by (cases req) simp_all
  show "ec_clamped e = (case req of None \<Rightarrow> False | Some r \<Rightarrow> \<not> fl_eq (ec_effective e) r)"
    unfolding e by (cases req) simp_all
qed

text \<open>Whatever number is asked for, NaN and the infinities included, the clamp lands in the interval.\<close>

lemma clamp_in_interval:
  assumes "lo \<le> al"
  shows "\<exists>x. py_max (Fin lo) (py_min r (Fin al)) = Fin x \<and> lo \<le> x \<and> x \<le> al"
  using assms by (cases r) (auto simp: py_max_def py_min_def)

lemma effective_in_interval:
  assumes e: "effective_ceiling access nid p req db = Inr e"
  shows "\<exists>x. ec_effective e = Fin x \<and> ec_min_chapter e \<le> x \<and> x \<le> ec_allowed e \<and> ec_allowed e \<le> ec_max_chapter e"
proof -
  have "ec_min_chapter e \<le> ec_max_chapter e" using chapter_span_Some [OF effective_ceiling_Inr(2) [OF e]] by simp
  moreover have "ec_min_chapter e \<le> ec_allowed e" by (simp add: effective_ceiling_Inr(3) [OF e])
  moreover from calculation have "ec_allowed e \<le> ec_max_chapter e" by (simp add: effective_ceiling_Inr(3) [OF e])
  ultimately show ?thesis
    using clamp_in_interval [of "ec_min_chapter e" "ec_allowed e"] effective_ceiling_Inr(4) [OF e]
    by (cases req) auto
qed

section \<open>Properties\<close>

text \<open>the effective ceiling is safe and exact. For every request, also NaN and the infinities, the
  effective ceiling is a chapter number between the first chapter and what the reader is allowed,
  which never passes the last chapter nor, beyond the first chapter, what was served to the reader (the
  first chapter when there is no reader); a finite request inside that interval is granted as it is
  and not reported as clamped, and every other request is reported as clamped.
\<close>

lemma effective_ceiling_safe:
  assumes e: "effective_ceiling access nid p req db = Inr e"
  shows "\<exists>x. ec_effective e = Fin x \<and> ec_min_chapter e \<le> x \<and> x \<le> ec_allowed e \<and> ec_allowed e \<le> ec_max_chapter e \<and>
    (x = ec_min_chapter e \<or> (\<exists>u t. p = Some u \<and> trusted_ceiling nid (user_id u) db = Some t \<and> x \<le> t)) \<and>
    (\<forall>r. req = Some r \<longrightarrow>
       (ec_clamped e \<longleftrightarrow> \<not> (\<exists>y. r = Fin y \<and> ec_min_chapter e \<le> y \<and> y \<le> ec_allowed e)) \<and>
       (\<not> ec_clamped e \<longrightarrow> r = Fin x))"
proof -
  obtain x where x: "ec_effective e = Fin x" "ec_min_chapter e \<le> x" "x \<le> ec_allowed e" "ec_allowed e \<le> ec_max_chapter e"
    using effective_in_interval [OF e] by blast
  have al: "ec_allowed e = max (ec_min_chapter e) (min (ec_max_chapter e)
      (coalesce (case p of None \<Rightarrow> None | Some u \<Rightarrow> trusted_ceiling nid (user_id u) db) (ec_min_chapter e)))"
    by (rule effective_ceiling_Inr(3) [OF e])
  have "x = ec_min_chapter e \<or> (\<exists>u t. p = Some u \<and> trusted_ceiling nid (user_id u) db = Some t \<and> x \<le> t)"
  proof (cases p)
    case None
    with al x(2,3) show ?thesis by simp
  next
    case (Some u)
    show ?thesis
    proof (cases "trusted_ceiling nid (user_id u) db")
      case None
      with Some al x(2,3) show ?thesis by simp
    next
      case t: (Some t)
      with Some al x(2,3) have "x \<le> max (ec_min_chapter e) (min (ec_max_chapter e) t)" by simp
      with x(2) have "x = ec_min_chapter e \<or> x \<le> t" by linarith
      with Some t show ?thesis by auto
    qed
  qed
  moreover have "(ec_clamped e \<longleftrightarrow> \<not> (\<exists>y. r = Fin y \<and> ec_min_chapter e \<le> y \<and> y \<le> ec_allowed e)) \<and>
       (\<not> ec_clamped e \<longrightarrow> r = Fin x)" if r: "req = Some r" for r
  proof -
    have eff: "Fin x = py_max (Fin (ec_min_chapter e)) (py_min r (Fin (ec_allowed e)))"
      using effective_ceiling_Inr(4) [OF e] r x(1) by simp
    have cl: "ec_clamped e \<longleftrightarrow> \<not> fl_eq (Fin x) r" using effective_ceiling_Inr(5) [OF e] r x(1) by simp
    show ?thesis
    proof (cases r)
      case (Fin y)
      with eff have "x = max (ec_min_chapter e) (min y (ec_allowed e))" by simp
      with Fin cl x(2,3) show ?thesis by (auto simp: fl_eq_def max_def min_def split: if_splits)
    qed (use cl in \<open>simp_all add: fl_eq_def\<close>)
  qed
  ultimately show ?thesis using x by blast
qed

definition demo_chapter :: "rat \<Rightarrow> chapter_row" where
  "demo_chapter k = \<lparr>c_novel_id = 3, c_number = k, c_source_id = Some 1, c_title = None, c_url = None, c_raw_html = None,
     c_original_text = Some ''raw'', c_content = Some ''base'', c_language = Some ''zh'', c_is_translated = True,
     c_translation_status = ''done'', c_translation_model = None, c_word_count = Some 1, c_content_version = 2,
     c_kind = None, c_part_label = None, c_run_id = None, c_source_sha = None\<rparr>"

definition demo_reading :: reading_db where
  "demo_reading = \<lparr>chapters = [demo_chapter 1, demo_chapter 2, demo_chapter 3],
     progress_rows = [\<lparr>rp_user_id = 7, rp_novel_id = 3, rp_last_chapter = Some 1, rp_max_chapter = Some 2, rp_scroll_pct = 0\<rparr>],
     bookmarks = [], next_bookmark_id = 1, overlays = [], contributions = [], next_contribution_id = 1\<rparr>"

lemma demo_span: "chapter_span 3 demo_reading = (3, Some 1, Some 3)"
  by (simp add: chapter_span_def novel_numbers_def demo_reading_def demo_chapter_def)

lemma effective_ceiling_safe_witness:
  "\<exists>e x. effective_ceiling (\<lambda>nid p. require_readable nid p demo_catalog) 3 (Some demo_user_b) (Some NaN) demo_reading = Inr e \<and>
     ec_effective e = Fin x \<and> 1 \<le> x \<and> x \<le> 2 \<and> ec_clamped e"
proof -
  have "require_readable 3 (Some demo_user_b) demo_catalog = Inr demo_novel"
    by (simp add: require_readable_def get_access_def demo_catalog_def demo_novel_def can_read_def demo_user_b_def)
  moreover have "trusted_ceiling 3 (user_id demo_user_b) demo_reading = Some 2"
    by (simp add: trusted_ceiling_def find_progress_def demo_reading_def progress_key_def demo_user_b_def)
  ultimately obtain e where e: "effective_ceiling (\<lambda>nid p. require_readable nid p demo_catalog) 3 (Some demo_user_b)
      (Some NaN) demo_reading = Inr e" and a: "ec_min_chapter e = 1" "ec_allowed e = 2"
    by (simp add: effective_ceiling_def demo_span Let_def)
  from effective_ceiling_safe [OF e] a e show ?thesis by auto
qed

end
