(* ===== verification/Reading_Content.thy ===== *)
theory Reading_Content
  imports Reading_Service
begin

text \<open>
  Chapters, overlays and contributions: \<open>modules/reading/application/migration.py\<close>. Each method that
  opens a unit of work is one transaction (\<open>atomicS\<close>). The catalogue's two access checks, the source
  metadata, the translation port and the quota port are arguments.
\<close>

section \<open>Reading\<close>

definition guarded :: "access_port \<Rightarrow> int \<Rightarrow> principal option \<Rightarrow> (novel \<Rightarrow> ('s, 'a) op) \<Rightarrow> ('s, 'a) op" where
  "guarded access nid p m s = (case access nid p of Inl e \<Rightarrow> (Inl e, s) | Inr n \<Rightarrow> m n s)"

definition list_chapters :: "access_port \<Rightarrow> int \<Rightarrow> principal option \<Rightarrow> reading_db \<Rightarrow> chapter_item list result" where
  "list_chapters access nid p db = bindE (access nid p) (\<lambda>_. Inr (repo_list_chapters nid db))"

record source_meta =
  sm_adapter :: "string option"
  sm_is_raw :: bool

record translation_result =
  tr_content :: "string option"
  tr_status :: string

type_synonym translate_port = "int \<Rightarrow> rat \<Rightarrow> principal option \<Rightarrow> (reading_db, translation_result) op"

record served_chapter =
  sc_snapshot :: snapshot
  sc_adapter :: "string option"
  sc_source_is_raw :: bool
  sc_novel :: novel
  sc_content :: "string option"
  sc_translation_status :: string
  sc_is_translated :: bool
  sc_prefetch_after :: "rat option"

text \<open>The transaction of \<open>get_chapter\<close>: the access check, then the repository's read, which records the
  chapter as served.\<close>

definition open_chapter :: "access_port \<Rightarrow> int \<Rightarrow> rat \<Rightarrow> principal option \<Rightarrow> (reading_db, novel \<times> snapshot) op" where
  "open_chapter access nid num p = atomicS (guarded access nid p (\<lambda>novel.
     bindS (repo_get_chapter nid num (map_option user_id p)) (\<lambda>sn. returnS (novel, sn))))"

definition get_chapter ::
  "access_port \<Rightarrow> (int option \<Rightarrow> source_meta) \<Rightarrow> translate_port \<Rightarrow> int \<Rightarrow> rat \<Rightarrow> principal option \<Rightarrow>
   (reading_db, served_chapter) op" where
  "get_chapter access meta translate nid num p =
     bindS (open_chapter access nid num p) (\<lambda>(novel, sn).
       let m = meta (sn_source_id sn);
           served = (\<lambda>content st tr pre.
             \<lparr>sc_snapshot = sn, sc_adapter = sm_adapter m, sc_source_is_raw = sm_is_raw m, sc_novel = novel,
              sc_content = content, sc_translation_status = st, sc_is_translated = tr, sc_prefetch_after = pre\<rparr>)
       in if sn_content sn = None \<and> sn_has_original sn
          then bindS (translate nid num p) (\<lambda>r.
                 returnS (served (tr_content r) (tr_status r) (tr_status r = ''done'')
                   (if tr_status r = ''done'' then Some num else None)))
          else returnS (served (sn_content sn) (sn_translation_status sn) (sn_is_translated sn) None))"

section \<open>Editing\<close>

definition edit_base_content :: "access_port \<Rightarrow> int \<Rightarrow> rat \<Rightarrow> string \<Rightarrow> principal \<Rightarrow> (reading_db, int) op" where
  "edit_base_content editable nid num content p =
     (let txt = py_strip content in
      atomicS (guarded editable nid (Some p) (\<lambda>_.
        if txt = [] then raiseS (ValidationFailed ''Content can't be empty.'')
        else bindS (\<lambda>db. (chapter_version_and_source nid num db, db)) (\<lambda>_.
               update_base_content nid num txt None))))"

definition save_overlay :: "access_port \<Rightarrow> int \<Rightarrow> rat \<Rightarrow> string \<Rightarrow> principal \<Rightarrow> (reading_db, unit) op" where
  "save_overlay access nid num content p =
     (let txt = py_strip content in
      atomicS (guarded access nid (Some p) (\<lambda>_.
        if txt = [] then raiseS (ValidationFailed ''Content can't be empty.'')
        else bindS (\<lambda>db. (chapter_version_and_source nid num db, db)) (\<lambda>(ver, _).
               \<lambda>db. (Inr (), repo_save_overlay nid num (user_id p) txt ver ''manual_edit'' db)))))"

definition delete_overlay :: "access_port \<Rightarrow> int \<Rightarrow> rat \<Rightarrow> principal \<Rightarrow> (reading_db, unit) op" where
  "delete_overlay access nid num p =
     atomicS (guarded access nid (Some p) (\<lambda>_ db. (Inr (), repo_delete_overlay nid num (user_id p) db)))"

definition resolve_overlay ::
  "access_port \<Rightarrow> int \<Rightarrow> rat \<Rightarrow> string \<Rightarrow> string option \<Rightarrow> principal \<Rightarrow> (reading_db, unit) op" where
  "resolve_overlay access nid num choice content p =
     (let c = py_lower choice in
      atomicS (guarded access nid (Some p) (\<lambda>_.
        if c \<notin> {''base'', ''mine'', ''merge''} then raiseS (ValidationFailed ''choice must be 'base', 'mine', or 'merge'.'')
        else bindS (\<lambda>db. (chapter_version_and_source nid num db, db)) (\<lambda>(ver, _).
               if c = ''base'' then (\<lambda>db. (Inr (), repo_delete_overlay nid num (user_id p) db))
               else if c = ''mine'' then (\<lambda>db. (Inr (), reanchor_overlay nid num (user_id p) ver db))
               else (let txt = py_strip (coalesce content []) in
                     if txt = [] then raiseS (ValidationFailed ''A merge needs the resolved content.'')
                     else (\<lambda>db. (Inr (), repo_save_overlay nid num (user_id p) txt ver ''manual_edit'' db)))))))"

section \<open>Self-translation\<close>

text \<open>Quota lives in another module's store: the method runs over both.\<close>

definition on_reading :: "(reading_db, 'a) op \<Rightarrow> (reading_db \<times> 'q, 'a) op" where
  "on_reading m s = (case m (fst s) of (r, db') \<Rightarrow> (r, (db', snd s)))"

definition on_quota :: "('q, 'a) op \<Rightarrow> (reading_db \<times> 'q, 'a) op" where
  "on_quota m s = (case m (snd s) of (r, q') \<Rightarrow> (r, (fst s, q')))"

definition self_translate ::
  "access_port \<Rightarrow> (principal \<Rightarrow> string \<Rightarrow> int \<Rightarrow> ('q, unit) op) \<Rightarrow> (int \<Rightarrow> rat \<Rightarrow> (reading_db, string option) op) \<Rightarrow>
   int \<Rightarrow> rat \<Rightarrow> principal \<Rightarrow> (reading_db \<times> 'q, string) op" where
  "self_translate access reserve_quota translate_raw nid num p =
     bindS (on_reading (guarded access nid (Some p) (\<lambda>_ db. (chapter_version_and_source nid num db, db)))) (\<lambda>(ver, has_source).
       if \<not> has_source then raiseS (Conflict ''This chapter has no source text to translate.'')
       else bindS (on_quota (reserve_quota p ''translated_chapters'' 1)) (\<lambda>_.
            bindS (on_reading (translate_raw nid num)) (\<lambda>translation.
              case translation of
                None \<Rightarrow> raiseS (Conflict ''This chapter could not be translated.'')
              | Some txt \<Rightarrow>
                  (if txt = [] then raiseS (Conflict ''This chapter could not be translated.'')
                   else bindS (on_reading (\<lambda>db. (Inr (), repo_save_overlay nid num (user_id p) txt ver ''self_translated'' db)))
                          (\<lambda>_. returnS txt)))))"

section \<open>Contributions\<close>

definition contribute :: "access_port \<Rightarrow> clock \<Rightarrow> int \<Rightarrow> rat \<Rightarrow> principal \<Rightarrow> (reading_db, string \<times> int) op" where
  "contribute access clk nid num p =
     atomicS (guarded access nid (Some p) (\<lambda>novel db.
       case repo_get_overlay nid num (user_id p) db of
         None \<Rightarrow> (Inl (Conflict ''You have no edit to offer for this chapter.''), db)
       | Some (content, base) \<Rightarrow>
           bindS (\<lambda>db. (chapter_version_and_source nid num db, db)) (\<lambda>(ver, _).
             let auto_merge = (contribution_policy novel = ''auto'' \<and> base \<ge> ver);
                 st = (if auto_merge then ''auto_merged'' else ''pending'')
             in bindS (create_contribution clk nid num (user_id p) content base st auto_merge) (\<lambda>kid.
                  if auto_merge
                  then bindS (update_base_content nid num content (Some (user_id p))) (\<lambda>_. returnS (st, kid))
                  else returnS (st, kid))) db))"

definition is_conflict_item :: "contribution_item \<Rightarrow> bool" where
  "is_conflict_item i = (case kc_current_version i of None \<Rightarrow> False | Some v \<Rightarrow> k_base_version (kc_row i) < v)"

definition list_contributions ::
  "access_port \<Rightarrow> int \<Rightarrow> string \<Rightarrow> principal \<Rightarrow> reading_db \<Rightarrow> (contribution_item \<times> bool) list result" where
  "list_contributions editable nid st p db =
     bindE (editable nid (Some p)) (\<lambda>_. Inr (map (\<lambda>i. (i, is_conflict_item i)) (repo_list_contributions nid st db)))"

definition accept_contribution ::
  "access_port \<Rightarrow> clock \<Rightarrow> int \<Rightarrow> int \<Rightarrow> string option \<Rightarrow> principal \<Rightarrow> (reading_db, unit) op" where
  "accept_contribution editable clk nid kid resolved_content p =
     atomicS (guarded editable nid (Some p) (\<lambda>_ db.
       case get_contribution nid kid db of
         None \<Rightarrow> (Inl (NotFound ''Contribution not found.''), db)
       | Some k \<Rightarrow>
           (if k_status k \<noteq> ''pending''
            then (Inl (Conflict (''Contribution is already '' @ [CHR 0x27] @ k_status k @ [CHR 0x27, CHR ''.''])), db)
            else bindS (\<lambda>db. (chapter_version_and_source nid (k_chapter k) db, db)) (\<lambda>(cur, _).
                   let resolved = py_strip (coalesce resolved_content []) in
                   if or_one (k_base_version k) < cur \<and> resolved = []
                   then raiseS (Conflict (''This contribution conflicts with the current base. '' @
                          ''Provide resolved content to accept it.''))
                   else (let content = (if resolved = [] then k_content k else resolved) in
                         bindS (update_base_content nid (k_chapter k) content (Some (k_from_user_id k))) (\<lambda>_ db.
                           (Inr (), mark_contribution_accepted clk kid (user_id p) content db)))) db)))"

definition reject_contribution :: "access_port \<Rightarrow> clock \<Rightarrow> int \<Rightarrow> int \<Rightarrow> principal \<Rightarrow> (reading_db, unit) op" where
  "reject_contribution editable clk nid kid p =
     atomicS (guarded editable nid (Some p) (\<lambda>_.
       bindS (repo_reject_contribution clk nid kid (user_id p)) (\<lambda>updated.
         if updated then returnS () else raiseS (NotFound ''No pending contribution with that id.''))))"

end
