(* ===== verification/Reading_Translation.thy ===== *)
theory Reading_Translation
  imports Reading_Content
begin

text \<open>
  The Reading side of translation and ingestion:
  \<open>modules/reading/adapters/outbound/translation.py\<close> (staging, reset, candidates, the optimistic
  commit) and \<open>modules/reading/adapters/outbound/ingestion.py\<close> (writing scraped or imported chapters).
  The digest of a source text, \<open>hashlib.sha256\<close> over its UTF-8 bytes, is the argument \<open>digest\<close>.
\<close>

section \<open>Queries\<close>

definition in_range :: "rat option \<Rightarrow> rat option \<Rightarrow> rat \<Rightarrow> bool" where
  "in_range lo hi x \<longleftrightarrow> (case lo of None \<Rightarrow> True | Some a \<Rightarrow> x \<ge> a) \<and> (case hi of None \<Rightarrow> True | Some b \<Rightarrow> x \<le> b)"

definition wants_translation :: "int \<Rightarrow> rat option \<Rightarrow> rat option \<Rightarrow> bool \<Rightarrow> chapter_row \<Rightarrow> bool" where
  "wants_translation nid lo hi force c \<longleftrightarrow> c_novel_id c = nid \<and> c_original_text c \<noteq> None \<and>
     (force \<or> c_content c = None) \<and> in_range lo hi (c_number c)"

definition count_pending :: "int \<Rightarrow> rat option \<Rightarrow> rat option \<Rightarrow> bool \<Rightarrow> reading_db \<Rightarrow> int" where
  "count_pending nid lo hi force db = int (sql_count (wants_translation nid lo hi force) (chapters db))"

definition translation_range :: "int \<Rightarrow> rat option \<Rightarrow> rat option \<Rightarrow> bool \<Rightarrow> reading_db \<Rightarrow> rat list" where
  "translation_range nid lo hi force db =
     sort (map c_number (filter (wants_translation nid lo hi force) (chapters db)))"

definition agy_pending :: "int \<Rightarrow> rat option \<Rightarrow> rat option \<Rightarrow> bool \<Rightarrow> reading_db \<Rightarrow> rat list" where
  "agy_pending nid lo hi force db =
     sort (map c_number (filter (\<lambda>c. wants_translation nid lo hi force c \<and> c_translation_status c \<noteq> ''translating'')
       (chapters db)))"

definition pending_after :: "int \<Rightarrow> rat \<Rightarrow> nat \<Rightarrow> reading_db \<Rightarrow> rat list" where
  "pending_after nid after count db =
     take count (sort (map c_number (filter (\<lambda>c. c_novel_id c = nid \<and> c_number c > after \<and> c_content c = None \<and>
        c_original_text c \<noteq> None \<and> c_translation_status c \<in> {''none'', ''pending'', ''failed''}) (chapters db))))"

section \<open>Staging a batch\<close>

definition blank :: "string option \<Rightarrow> bool" where
  "blank s = (case s of None \<Rightarrow> True | Some t \<Rightarrow> t = [])"

record staged_chapter =
  st_number :: rat
  st_title :: "string option"
  st_original_text :: string
  st_language :: string
  st_source_sha256 :: string
  st_content_version :: int

definition stageable :: "bool \<Rightarrow> chapter_row \<Rightarrow> bool" where
  "stageable force c \<longleftrightarrow> \<not> blank (c_original_text c) \<and> (blank (c_content c) \<or> force) \<and>
     c_translation_status c \<noteq> ''translating''"

definition staged :: "(string \<Rightarrow> string) \<Rightarrow> string \<Rightarrow> chapter_row \<Rightarrow> chapter_row" where
  "staged digest run c = c\<lparr>c_translation_status := ''translating'', c_run_id := Some run,
     c_source_sha := Some (digest (coalesce (c_original_text c) []))\<rparr>"

definition staged_view :: "(string \<Rightarrow> string) \<Rightarrow> chapter_row \<Rightarrow> staged_chapter" where
  "staged_view digest c =
     \<lparr>st_number = c_number c, st_title = c_title c, st_original_text = coalesce (c_original_text c) [],
      st_language = (case c_language c of None \<Rightarrow> ''the source language''
                     | Some l \<Rightarrow> if l = [] then ''the source language'' else l),
      st_source_sha256 = digest (coalesce (c_original_text c) []), st_content_version = or_one (c_content_version c)\<rparr>"

definition stage_translation_batch ::
  "(string \<Rightarrow> string) \<Rightarrow> int \<Rightarrow> rat list \<Rightarrow> string \<Rightarrow> bool \<Rightarrow> (reading_db, staged_chapter list) op" where
  "stage_translation_batch digest nid nums run force db =
     (let p = (\<lambda>c. c_novel_id c = nid \<and> c_number c \<in> set nums \<and> stageable force c)
      in (Inr (map (staged_view digest) (sort_key c_number (filter p (chapters db)))),
          db\<lparr>chapters := sql_update p (staged digest run) (chapters db)\<rparr>))"

definition reset_staged_translations :: "string \<Rightarrow> string \<Rightarrow> (reading_db, int) op" where
  "reset_staged_translations run st db =
     (let p = (\<lambda>c. c_run_id c = Some run \<and> c_translation_status c = ''translating'')
      in (Inr (int (sql_count p (chapters db))),
          db\<lparr>chapters := sql_update p (\<lambda>c. c\<lparr>c_translation_status := st, c_run_id := None\<rparr>) (chapters db)\<rparr>))"

definition mark_translation_started :: "int \<Rightarrow> rat \<Rightarrow> string \<Rightarrow> reading_db \<Rightarrow> reading_db" where
  "mark_translation_started nid num sha =
     update_chapter nid num (\<lambda>c. c\<lparr>c_translation_status := ''translating'', c_run_id := None, c_source_sha := Some sha\<rparr>)"

definition mark_translation_failed :: "int \<Rightarrow> rat \<Rightarrow> bool \<Rightarrow> reading_db \<Rightarrow> reading_db" where
  "mark_translation_failed nid num only_unowned db =
     db\<lparr>chapters := sql_update (\<lambda>c. chapter_key c = (nid, num) \<and>
            (only_unowned \<longrightarrow> c_run_id c = None \<and> c_translation_status c = ''translating''))
          (\<lambda>c. c\<lparr>c_translation_status := ''failed''\<rparr>) (chapters db)\<rparr>"

section \<open>The optimistic commit\<close>

record commit_result =
  cr_status :: string
  cr_content :: "string option"
  cr_idempotent :: bool

definition committed ::
  "string option \<Rightarrow> string \<Rightarrow> string \<Rightarrow> string option \<Rightarrow> string \<Rightarrow> chapter_row \<Rightarrow> chapter_row" where
  "committed ttl txt model run sha c =
     c\<lparr>c_title := (case ttl of None \<Rightarrow> c_title c | Some t \<Rightarrow> Some t), c_content := Some (py_strip txt),
       c_is_translated := True, c_translation_status := ''done'', c_translation_model := Some model,
       c_word_count := Some (int (length (py_split txt))), c_content_version := c_content_version c + 1,
       c_run_id := run, c_source_sha := Some sha\<rparr>"

definition clean_title :: "string option \<Rightarrow> string option" where
  "clean_title t = (let s = py_strip (coalesce t []) in if s = [] then None else Some s)"

definition reading_commit ::
  "(string \<Rightarrow> string) \<Rightarrow> int \<Rightarrow> rat \<Rightarrow> string \<Rightarrow> int \<Rightarrow> string option \<Rightarrow> string \<Rightarrow> string \<Rightarrow> string option \<Rightarrow>
   (reading_db, commit_result) op" where
  "reading_commit digest nid num sha ver ttl txt model run db =
     (case find_chapter nid num db of
        None \<Rightarrow> (Inl (RuntimeError ''chapter no longer exists''), db)
      | Some c \<Rightarrow>
          (if run \<noteq> None \<and> c_run_id c = run \<and> c_translation_status c = ''done'' \<and> c_source_sha c = Some sha
           then (Inr \<lparr>cr_status = ''done'', cr_content = c_content c, cr_idempotent = True\<rparr>, db)
           else if digest (coalesce (c_original_text c) []) \<noteq> sha \<or> or_one (c_content_version c) \<noteq> ver
           then (Inl (RuntimeError ''chapter source or content version changed''), db)
           else if run \<noteq> None \<and> c_run_id c \<noteq> run
           then (Inl (RuntimeError ''chapter is no longer staged by this AGY run''), db)
           else if run = None \<and> c_run_id c \<noteq> None
           then (Inl (RuntimeError ''chapter is staged by another translation worker''), db)
           else (Inr \<lparr>cr_status = ''done'', cr_content = Some (py_strip txt), cr_idempotent = False\<rparr>,
                 flag_conflicts nid num (c_content_version c + 1) None
                   (update_chapter nid num (committed (clean_title ttl) txt model run sha) db))))"

section \<open>Ingestion\<close>

record source_row =
  src_id :: int
  src_novel_id :: int
  src_is_raw :: bool
  src_language :: "string option"

record scraped_chapter =
  sch_title :: "string option"
  sch_url :: "string option"
  sch_raw_html :: "string option"
  sch_content :: "string option"

definition word_count_of :: "source_row \<Rightarrow> string \<Rightarrow> int" where
  "word_count_of s txt =
     (if src_is_raw s \<or> src_language s \<in> {Some ''zh'', Some ''ja'', Some ''ko''}
      then int (length (filter (\<lambda>c. \<not> is_py_space c) txt)) else int (length (py_split txt)))"

definition ingested_row :: "source_row \<Rightarrow> rat \<Rightarrow> scraped_chapter \<Rightarrow> string \<Rightarrow> string option \<Rightarrow> int \<Rightarrow> chapter_row" where
  "ingested_row s num ch kind part ver =
     (let txt = coalesce (sch_content ch) [] in
      \<lparr>c_novel_id = src_novel_id s, c_number = num, c_source_id = Some (src_id s), c_title = sch_title ch,
       c_url = sch_url ch, c_raw_html = sch_raw_html ch,
       c_original_text = (if src_is_raw s then Some txt else None),
       c_content = (if src_is_raw s then None else Some txt), c_language = src_language s,
       c_is_translated = False, c_translation_status = (if src_is_raw s then ''pending'' else ''none''),
       c_translation_model = None, c_word_count = Some (word_count_of s txt), c_content_version = ver,
       c_kind = Some kind, c_part_label = part, c_run_id = None, c_source_sha = None\<rparr>)"

text \<open>
  \<open>INSERT ... ON CONFLICT DO UPDATE\<close>: an insert takes the column defaults (version 1, no staging
  run); the update leaves \<open>translation_model\<close>, \<open>translation_run_id\<close> and \<open>translation_source_sha256\<close>
  of the old row as they are.
\<close>

definition base_changed :: "chapter_row \<Rightarrow> chapter_row \<Rightarrow> bool" where
  "base_changed old new \<longleftrightarrow> c_content old \<noteq> c_content new \<or> c_original_text old \<noteq> c_original_text new"

definition overwritten :: "chapter_row \<Rightarrow> int option \<Rightarrow> chapter_row \<Rightarrow> chapter_row" where
  "overwritten new min_ver old = new\<lparr>c_translation_model := c_translation_model old, c_run_id := c_run_id old,
     c_source_sha := c_source_sha old,
     c_content_version := max (if base_changed old new then c_content_version old + 1 else c_content_version old)
                              (coalesce min_ver 1)\<rparr>"

definition upsert_ingested_chapter ::
  "source_row \<Rightarrow> rat \<Rightarrow> scraped_chapter \<Rightarrow> bool \<Rightarrow> string \<Rightarrow> string option \<Rightarrow> int option \<Rightarrow> (reading_db, bool) op" where
  "upsert_ingested_chapter s num ch force kind part min_ver db =
     (let nid = src_novel_id s; new = ingested_row s num ch kind part 1 in
      case find_chapter nid num db of
        None \<Rightarrow>
          (let db1 = db\<lparr>chapters := chapters db @ [new]\<rparr>
           in (Inr True, if (case min_ver of None \<Rightarrow> False | Some m \<Rightarrow> m \<noteq> 0 \<and> 1 \<ge> m)
                         then flag_conflicts nid num 1 None db1 else db1))
      | Some old \<Rightarrow>
          (if \<not> force then (Inr False, db)
           else
             let row = overwritten new min_ver old;
                 db1 = update_chapter nid num (overwritten new min_ver) db;
                 ver = or_one (c_content_version row)
             in (Inr True, if base_changed old new \<or> (case min_ver of None \<Rightarrow> False | Some m \<Rightarrow> m \<noteq> 0 \<and> ver \<ge> m)
                           then flag_conflicts nid num ver None db1 else db1)))"

definition resume_url :: "int \<Rightarrow> reading_db \<Rightarrow> string option" where
  "resume_url sid db =
     (case sql_first (\<lambda>c. - c_number c) (filter (\<lambda>c. c_source_id c = Some sid \<and> c_url c \<noteq> None) (chapters db)) of
        None \<Rightarrow> None | Some c \<Rightarrow> c_url c)"

definition source_versions :: "int \<Rightarrow> reading_db \<Rightarrow> (rat \<times> int) list" where
  "source_versions sid db =
     map (\<lambda>c. (c_number c, or_one (c_content_version c))) (filter (\<lambda>c. c_source_id c = Some sid) (chapters db))"

definition delete_source_chapters :: "int \<Rightarrow> reading_db \<Rightarrow> reading_db" where
  "delete_source_chapters sid db = db\<lparr>chapters := sql_delete (\<lambda>c. c_source_id c = Some sid) (chapters db)\<rparr>"

definition mark_overlay_conflicts :: "int \<Rightarrow> rat list \<Rightarrow> reading_db \<Rightarrow> reading_db" where
  "mark_overlay_conflicts nid nums db =
     (if nums = [] then db
      else db\<lparr>overlays := sql_update (\<lambda>r. o_novel_id r = nid \<and> o_chapter r \<in> set nums) (\<lambda>r. r\<lparr>o_conflict := True\<rparr>) (overlays db)\<rparr>)"

definition other_source_numbers :: "int \<Rightarrow> int \<Rightarrow> reading_db \<Rightarrow> rat list" where
  "other_source_numbers nid sid db =
     map c_number (filter (\<lambda>c. c_novel_id c = nid \<and> c_source_id c \<noteq> Some sid) (chapters db))"

definition preserve_content_version :: "int \<Rightarrow> rat \<Rightarrow> int \<Rightarrow> (reading_db, int) op" where
  "preserve_content_version nid num minimum db =
     (let db1 = update_chapter nid num (\<lambda>c. c\<lparr>c_content_version := max (c_content_version c) minimum\<rparr>) db;
          ver = (case find_chapter nid num db1 of None \<Rightarrow> minimum
                 | Some c \<Rightarrow> if c_content_version c = 0 then minimum else c_content_version c)
      in (Inr ver, flag_conflicts nid num ver None db1))"

end
