(* ===== verification/Reading_Runs.thy ===== *)
theory Reading_Runs
  imports Reading_Translation
begin

text \<open>
  Interleavings of the Reading operations: any sequence of requests by any users, of translation
  commits, of re-scrapes and replacements, and of renumberings of a source. While no renumbering or
  replacement moves a chapter, a change of its base content always raises its version, so that no
  overlay goes stale unnoticed. Removing a whole novel, which cascades to its rows, is no action.
\<close>

section \<open>Actions\<close>

datatype reading_action =
    R_set_progress principal int pyfloat pyfloat
  | R_add_bookmark principal int pyfloat "string option"
  | R_delete_bookmark principal int int
  | R_open "principal option" int rat
  | R_edit principal int rat string
  | R_save_overlay principal int rat string
  | R_delete_overlay principal int rat
  | R_resolve principal int rat string "string option"
  | R_self_overlay principal int rat string int
  | R_contribute principal int rat
  | R_accept principal int int "string option"
  | R_reject principal int int
  | R_stage int "rat list" string bool
  | R_reset string string
  | R_started int rat string
  | R_failed int rat bool
  | R_commit int rat string int "string option" string string "string option"
  | R_upsert source_row rat scraped_chapter bool string "string option" "int option"
  | R_preserve int rat int
  | R_mark_conflicts int "rat list"
  | R_renumber int int rat
  | R_delete_source int

definition do_unit :: "('s \<Rightarrow> 's) \<Rightarrow> ('s, unit) op" where
  "do_unit f s = (Inr (), f s)"

definition ignoreR :: "('s, 'a) op \<Rightarrow> ('s, unit) op" where
  "ignoreR m = bindS m (\<lambda>_. returnS ())"

fun reading_act ::
  "access_port \<Rightarrow> access_port \<Rightarrow> (string \<Rightarrow> string) \<Rightarrow> reading_action \<Rightarrow> clock \<Rightarrow> (reading_db, unit) op" where
  "reading_act acc edt dig (R_set_progress p n x s) clk = set_progress acc n p x s"
| "reading_act acc edt dig (R_add_bookmark p n x note) clk = ignoreR (add_bookmark acc clk n p x note)"
| "reading_act acc edt dig (R_delete_bookmark p n b) clk = delete_bookmark acc n p b"
| "reading_act acc edt dig (R_open p n x) clk = ignoreR (open_chapter acc n x p)"
| "reading_act acc edt dig (R_edit p n x c) clk = ignoreR (edit_base_content edt n x c p)"
| "reading_act acc edt dig (R_save_overlay p n x c) clk = save_overlay acc n x c p"
| "reading_act acc edt dig (R_delete_overlay p n x) clk = delete_overlay acc n x p"
| "reading_act acc edt dig (R_resolve p n x ch c) clk = resolve_overlay acc n x ch c p"
| "reading_act acc edt dig (R_self_overlay p n x c ver) clk =
     do_unit (repo_save_overlay n x (user_id p) c ver ''self_translated'')"
| "reading_act acc edt dig (R_contribute p n x) clk = ignoreR (contribute acc clk n x p)"
| "reading_act acc edt dig (R_accept p n k c) clk = accept_contribution edt clk n k c p"
| "reading_act acc edt dig (R_reject p n k) clk = reject_contribution edt clk n k p"
| "reading_act acc edt dig (R_stage n xs run force) clk = ignoreR (stage_translation_batch dig n xs run force)"
| "reading_act acc edt dig (R_reset run st) clk = ignoreR (reset_staged_translations run st)"
| "reading_act acc edt dig (R_started n x sha) clk = do_unit (mark_translation_started n x sha)"
| "reading_act acc edt dig (R_failed n x only) clk = do_unit (mark_translation_failed n x only)"
| "reading_act acc edt dig (R_commit n x sha v ttl txt m run) clk = ignoreR (reading_commit dig n x sha v ttl txt m run)"
| "reading_act acc edt dig (R_upsert s x ch force kd part mv) clk = ignoreR (upsert_ingested_chapter s x ch force kd part mv)"
| "reading_act acc edt dig (R_preserve n x m) clk = ignoreR (preserve_content_version n x m)"
| "reading_act acc edt dig (R_mark_conflicts n xs) clk = do_unit (mark_overlay_conflicts n xs)"
| "reading_act acc edt dig (R_renumber sid n delta) clk = ignoreR (atomicS (renumber_source_chapters sid n delta))"
| "reading_act acc edt dig (R_delete_source sid) clk = do_unit (delete_source_chapters sid)"

fun reading_run ::
  "access_port \<Rightarrow> access_port \<Rightarrow> (string \<Rightarrow> string) \<Rightarrow> (clock \<times> reading_action) list \<Rightarrow> reading_db \<Rightarrow> reading_db" where
  "reading_run acc edt dig [] db = db"
| "reading_run acc edt dig (ca # cas) db =
     reading_run acc edt dig cas (snd (reading_act acc edt dig (snd ca) (fst ca) db))"

lemma reading_run_keeps:
  assumes "\<And>a clk. keeps I (reading_act acc edt dig a clk)" and "I db"
  shows "I (reading_run acc edt dig cas db)"
  using assms(2) by (induction cas arbitrary: db) (auto intro: keepsD [OF assms(1)])

lemma keeps_ignoreR [keeps_rules]: "keeps I m \<Longrightarrow> keeps I (ignoreR m)"
  unfolding ignoreR_def by (intro keeps_rules)

lemma keeps_guarded [keeps_rules]: "(\<And>n. keeps I (m n)) \<Longrightarrow> keeps I (guarded a nid p m)"
  by (auto simp: keeps_def guarded_def split: sum.splits)

lemma keeps_do_unit: "(\<And>s. I s \<Longrightarrow> I (f s)) \<Longrightarrow> keeps I (do_unit f)"
  by (simp add: keeps_def do_unit_def)

section \<open>How a chapter evolves\<close>

definition chapter_evolves :: "chapter_row \<Rightarrow> chapter_row \<Rightarrow> bool" where
  "chapter_evolves c0 c \<longleftrightarrow> chapter_key c = chapter_key c0 \<and> 1 \<le> c_content_version c \<and>
     c_content_version c0 \<le> c_content_version c \<and>
     (c_content c \<noteq> c_content c0 \<or> c_original_text c \<noteq> c_original_text c0 \<longrightarrow> c_content_version c0 < c_content_version c)"

definition chapters_evolve :: "reading_db \<Rightarrow> reading_db \<Rightarrow> bool" where
  "chapters_evolve db0 db \<longleftrightarrow> (\<forall>c \<in> set (chapters db). 1 \<le> c_content_version c) \<and>
     (\<forall>n x c0. find_chapter n x db0 = Some c0 \<longrightarrow> (\<exists>c. find_chapter n x db = Some c \<and> chapter_evolves c0 c))"

lemma chapter_evolves_trans: "chapter_evolves a b \<Longrightarrow> chapter_evolves b c \<Longrightarrow> chapter_evolves a c"
  unfolding chapter_evolves_def by auto

lemma chapter_evolves_refl: "1 \<le> c_content_version c \<Longrightarrow> chapter_evolves c c"
  by (simp add: chapter_evolves_def)

lemma chapters_evolve_same: "chapters db' = chapters db \<Longrightarrow> chapters_evolve db0 db \<Longrightarrow> chapters_evolve db0 db'"
  by (simp add: chapters_evolve_def find_chapter_def)

lemma chapters_evolve_update:
  assumes ev: "\<And>c. 1 \<le> c_content_version c \<Longrightarrow> p c \<Longrightarrow> chapter_evolves c (f c)" and h: "chapters_evolve db0 db"
    and same: "chapters db' = sql_update p f (chapters db)"
  shows "chapters_evolve db0 db'"
proof -
  let ?g = "\<lambda>c. if p c then f c else c"
  have v: "\<forall>c \<in> set (chapters db). 1 \<le> c_content_version c" using h by (simp add: chapters_evolve_def)
  have g: "chapter_evolves c (?g c)" if "1 \<le> c_content_version c" for c
    using ev [OF that] chapter_evolves_refl [OF that] by simp
  have row: "row_by chapter_key k (map ?g rows) = map_option ?g (row_by chapter_key k rows)"
    if "\<forall>c \<in> set rows. 1 \<le> c_content_version c" for k rows
    using that
  proof (induction rows)
    case Nil
    then show ?case by simp
  next
    case (Cons c rows)
    have "chapter_key (?g c) = chapter_key c" using g [of c] Cons.prems by (simp add: chapter_evolves_def)
    with Cons show ?case by simp
  qed
  have find': "find_chapter n x db' = map_option ?g (find_chapter n x db)" for n x
    using row [OF v] by (simp add: find_chapter_def same sql_update_def)
  have "\<forall>c \<in> set (chapters db'). 1 \<le> c_content_version c"
    using v ev by (auto simp: same set_sql_update chapter_evolves_def)
  moreover have "\<exists>c. find_chapter n x db' = Some c \<and> chapter_evolves c0 c" if c0: "find_chapter n x db0 = Some c0" for n x c0
  proof -
    obtain c where c: "find_chapter n x db = Some c" "chapter_evolves c0 c"
      using h c0 unfolding chapters_evolve_def by blast
    have "1 \<le> c_content_version c" using c(2) by (simp add: chapter_evolves_def)
    with c find' g chapter_evolves_trans show ?thesis by fastforce
  qed
  ultimately show ?thesis by (simp add: chapters_evolve_def)
qed

lemma evolve_key_update:
  assumes "\<And>c. 1 \<le> c_content_version c \<Longrightarrow> chapter_evolves c (f c)" and "chapters_evolve db0 db"
  shows "chapters_evolve db0 (update_chapter n x f db)"
  by (rule chapters_evolve_update [OF _ assms(2), where p = "\<lambda>c. chapter_key c = (n, x)" and f = f])
     (simp_all add: assms(1) update_chapter_def)

section \<open>Every operation keeps the history\<close>

lemma keeps_pure [keeps_rules]: "keeps I (\<lambda>s. (g s, s))"
  by (simp add: keeps_def)

lemma keeps_fun [keeps_rules]: "(\<And>s. I s \<Longrightarrow> I (f s)) \<Longrightarrow> keeps I (\<lambda>s. (Inr (g s), f s))"
  by (simp add: keeps_def)

lemma keeps_case_prod [keeps_rules]: "(\<And>a b. keeps I (f a b)) \<Longrightarrow> keeps I (case x of (a, b) \<Rightarrow> f a b)"
  by (cases x) simp

lemma keeps_case_prod_state [keeps_rules]:
  "(\<And>a b. keeps I (f a b)) \<Longrightarrow> keeps I (\<lambda>s. case x of (a, b) \<Rightarrow> f a b s)"
  by (cases x) simp

lemma keeps_read_option [keeps_rules]:
  "keeps I m \<Longrightarrow> (\<And>v. keeps I (f v)) \<Longrightarrow> keeps I (\<lambda>s. case g s of None \<Rightarrow> m s | Some v \<Rightarrow> f v s)"
  by (auto simp: keeps_def split: option.splits)

lemma keeps_if_state [keeps_rules]:
  "keeps I m \<Longrightarrow> keeps I n \<Longrightarrow> keeps I (\<lambda>s. if c then m s else n s)"
  by (simp add: keeps_def)

lemma same_chapters [simp]:
  "chapters (upsert_progress new f db) = chapters db"
  "chapters (repo_set_progress n u x s db) = chapters db"
  "chapters (record_served u n x db) = chapters db"
  "chapters (repo_delete_bookmark n u b db) = chapters db"
  "chapters (repo_save_overlay n x u c v origin db) = chapters db"
  "chapters (repo_delete_overlay n x u db) = chapters db"
  "chapters (reanchor_overlay n x u v db) = chapters db"
  "chapters (flag_conflicts n x v keep db) = chapters db"
  "chapters (mark_overlay_conflicts n xs db) = chapters db"
  "chapters (mark_contribution_accepted clk k rv c db) = chapters db"
  "chapters (snd (create_contribution clk n x u c v st am db)) = chapters db"
  "chapters (snd (repo_reject_contribution clk n k rv db)) = chapters db"
  "chapters (snd (repo_add_bookmark clk n u x note db)) = chapters db"
  by (simp_all add: upsert_progress_def repo_set_progress_def record_served_def repo_delete_bookmark_def
      repo_save_overlay_def repo_delete_overlay_def reanchor_overlay_def flag_conflicts_def mark_overlay_conflicts_def
      mark_contribution_accepted_def create_contribution_def repo_reject_contribution_def Let_def repo_add_bookmark_def
      split: option.splits)

lemma keeps_chapters_same:
  "(\<And>s. chapters (snd (m s)) = chapters s) \<Longrightarrow> keeps (chapters_evolve db0) m"
  unfolding keeps_def using chapters_evolve_same by blast

lemma evolve_update_base: "keeps (chapters_evolve db0) (update_base_content n x c keep)"
proof -
  let ?f = "\<lambda>r. r\<lparr>c_content := Some c, c_is_translated := True, c_translation_status := ''done'',
      c_content_version := c_content_version r + 1\<rparr>"
  have upd: "chapters_evolve db0 (update_chapter n x ?f db)" if "chapters_evolve db0 db" for db
    by (rule evolve_key_update [OF _ that]) (auto simp: chapter_evolves_def chapter_key_def)
  have "chapters (snd (update_base_content n x c keep db)) \<in>
      {chapters db, chapters (update_chapter n x ?f db)}" for db
    by (simp add: update_base_content_def Let_def split: option.splits)
  with upd show ?thesis unfolding keeps_def using chapters_evolve_same by blast
qed

lemma evolve_commit: "keeps (chapters_evolve db0) (reading_commit dig n x sha v ttl txt m run)"
proof -
  have upd: "chapters_evolve db0 (update_chapter n x (committed tt txt m run sha) db)" if "chapters_evolve db0 db" for db tt
    by (rule evolve_key_update [OF _ that]) (auto simp: chapter_evolves_def chapter_key_def committed_def)
  have "chapters (snd (reading_commit dig n x sha v ttl txt m run db)) \<in>
      {chapters db, chapters (update_chapter n x (committed (clean_title ttl) txt m run sha) db)}" for db
    by (simp add: reading_commit_def split: option.splits)
  with upd show ?thesis unfolding keeps_def using chapters_evolve_same by blast
qed

lemma find_chapter_append: "find_chapter n x (db\<lparr>chapters := chapters db @ [c]\<rparr>) =
    (case find_chapter n x db of None \<Rightarrow> if chapter_key c = (n, x) then Some c else None | Some r \<Rightarrow> Some r)"
  by (simp add: find_chapter_def row_by_append split: option.split)

lemma evolve_upsert: "keeps (chapters_evolve db0) (upsert_ingested_chapter s x ch force kd part mv)"
  unfolding keeps_def
proof (intro allI impI)
  fix db assume h: "chapters_evolve db0 db"
  let ?n = "src_novel_id s" and ?new = "ingested_row s x ch kd part 1"
  let ?db' = "snd (upsert_ingested_chapter s x ch force kd part mv db)"
  show "chapters_evolve db0 ?db'"
  proof (cases "find_chapter ?n x db")
    case None
    have "chapters_evolve db0 (db\<lparr>chapters := chapters db @ [?new]\<rparr>)"
      using h unfolding chapters_evolve_def find_chapter_append
      by (fastforce simp: ingested_row_def Let_def)
    moreover have "chapters ?db' = chapters (db\<lparr>chapters := chapters db @ [?new]\<rparr>)"
      using None by (simp add: upsert_ingested_chapter_def Let_def)
    ultimately show ?thesis using chapters_evolve_same by blast
  next
    case (Some old)
    have "chapters_evolve db0 (update_chapter ?n x (overwritten ?new mv) db)"
    proof (rule chapters_evolve_update [OF _ h, where p = "\<lambda>c. chapter_key c = (?n, x)" and f = "overwritten ?new mv"])
      fix c :: chapter_row assume "1 \<le> c_content_version c" "chapter_key c = (?n, x)"
      then show "chapter_evolves c (overwritten ?new mv c)"
        by (auto simp: chapter_evolves_def overwritten_def chapter_key_def ingested_row_def base_changed_def Let_def)
    qed (simp add: update_chapter_def)
    moreover have "chapters ?db' \<in> {chapters db, chapters (update_chapter ?n x (overwritten ?new mv) db)}"
      using Some by (simp add: upsert_ingested_chapter_def Let_def)
    ultimately show ?thesis using chapters_evolve_same h by blast
  qed
qed

lemma evolve_status_updates:
  "keeps (chapters_evolve db0) (stage_translation_batch dig n xs run force)"
  "keeps (chapters_evolve db0) (reset_staged_translations run st)"
  "keeps (chapters_evolve db0) (do_unit (mark_translation_started n x sha))"
  "keeps (chapters_evolve db0) (do_unit (mark_translation_failed n x only))"
  "keeps (chapters_evolve db0) (preserve_content_version n x m)"
proof -
  have u: "chapters_evolve db0 (db\<lparr>chapters := sql_update p f (chapters db)\<rparr>)" if "chapters_evolve db0 db"
    "\<And>c. chapter_key (f c) = chapter_key c" "\<And>c. c_content (f c) = c_content c"
    "\<And>c. c_original_text (f c) = c_original_text c" "\<And>c. c_content_version c \<le> c_content_version (f c)" for db p f
    by (rule chapters_evolve_update [OF _ that(1), where p = p and f = f])
      (use that(2-5) order_trans in \<open>fastforce simp: chapter_evolves_def\<close>)+
  show "keeps (chapters_evolve db0) (stage_translation_batch dig n xs run force)"
    unfolding keeps_def stage_translation_batch_def Let_def snd_conv
    by (intro allI impI, rule u) (auto simp: staged_def chapter_key_def)
  show "keeps (chapters_evolve db0) (reset_staged_translations run st)"
    unfolding keeps_def reset_staged_translations_def Let_def snd_conv
    by (intro allI impI, rule u) (auto simp: chapter_key_def)
  show "keeps (chapters_evolve db0) (do_unit (mark_translation_started n x sha))"
    unfolding keeps_def do_unit_def snd_conv mark_translation_started_def update_chapter_def
    by (intro allI impI, rule u) (auto simp: chapter_key_def)
  show "keeps (chapters_evolve db0) (do_unit (mark_translation_failed n x only))"
    unfolding keeps_def do_unit_def snd_conv mark_translation_failed_def
    by (intro allI impI, rule u) (auto simp: chapter_key_def)
  let ?raise = "\<lambda>db. db\<lparr>chapters := sql_update (\<lambda>c. chapter_key c = (n, x))
      (\<lambda>c. c\<lparr>c_content_version := max (c_content_version c) m\<rparr>) (chapters db)\<rparr>"
  have "chapters (snd (preserve_content_version n x m db)) = chapters (?raise db)" for db
    by (simp add: preserve_content_version_def Let_def update_chapter_def)
  moreover have "chapters_evolve db0 (?raise db)" if "chapters_evolve db0 db" for db
    by (rule u [OF that]) (auto simp: chapter_key_def)
  ultimately show "keeps (chapters_evolve db0) (preserve_content_version n x m)"
    unfolding keeps_def using chapters_evolve_same by blast
qed

lemma evolve_progress:
  "keeps (chapters_evolve db0) (set_progress acc n p x s)"
  "keeps (chapters_evolve db0) (add_bookmark acc clk n p x note)"
  "keeps (chapters_evolve db0) (delete_bookmark acc n p b)"
  by (intro keeps_chapters_same;
      simp add: set_progress_def add_bookmark_def delete_bookmark_def split: sum.splits pyfloat.splits)+

lemma evolve_open: "keeps (chapters_evolve db0) (open_chapter acc n x p)"
proof -
  have "keeps (chapters_evolve db0) (repo_get_chapter n x u)" for u
    by (rule keeps_chapters_same) (simp add: repo_get_chapter_def split: option.splits)
  then show ?thesis unfolding open_chapter_def by (intro keeps_rules)
qed

lemma evolve_same_rule: "(\<And>s. chapters (f s) = chapters s) \<Longrightarrow> chapters_evolve db0 s \<Longrightarrow> chapters_evolve db0 (f s)"
  using chapters_evolve_same by blast

lemma evolve_content:
  "keeps (chapters_evolve db0) (edit_base_content edt n x c p)"
  "keeps (chapters_evolve db0) (save_overlay acc n x c p)"
  "keeps (chapters_evolve db0) (delete_overlay acc n x p)"
  "keeps (chapters_evolve db0) (resolve_overlay acc n x ch oc p)"
  unfolding edit_base_content_def save_overlay_def delete_overlay_def resolve_overlay_def Let_def
  by (intro keeps_rules evolve_update_base; erule evolve_same_rule [rotated]; simp)+

lemma evolve_contributions:
  "keeps (chapters_evolve db0) (contribute acc clk n x p)"
  "keeps (chapters_evolve db0) (accept_contribution edt clk n k rc p)"
  "keeps (chapters_evolve db0) (reject_contribution edt clk n k p)"
proof -
  have cc: "keeps (chapters_evolve db0) (create_contribution clk n x u c v st am)" for u c v st am
    by (rule keeps_chapters_same) simp
  have rc: "keeps (chapters_evolve db0) (repo_reject_contribution clk n k u)" for u
    by (rule keeps_chapters_same) simp
  show "keeps (chapters_evolve db0) (contribute acc clk n x p)"
    unfolding contribute_def Let_def by (intro keeps_rules cc evolve_update_base)
  show "keeps (chapters_evolve db0) (accept_contribution edt clk n k rc p)"
    unfolding accept_contribution_def Let_def
    by (intro keeps_rules evolve_update_base; erule evolve_same_rule [rotated]; simp)
  show "keeps (chapters_evolve db0) (reject_contribution edt clk n k p)"
    unfolding reject_contribution_def by (intro keeps_rules rc)
qed

definition moves_chapters :: "reading_action \<Rightarrow> bool" where
  "moves_chapters a = (case a of R_renumber sid n delta \<Rightarrow> True | R_delete_source sid \<Rightarrow> True | _ \<Rightarrow> False)"

lemma act_chapters_evolve: "\<not> moves_chapters a \<Longrightarrow> keeps (chapters_evolve db0) (reading_act acc edt dig a clk)"
proof -
  assume m: "\<not> moves_chapters a"
  have "keeps (chapters_evolve db0) (do_unit f)" if "\<And>s. chapters (f s) = chapters s" for f
    using that by (intro keeps_chapters_same) (simp add: do_unit_def)
  with m show ?thesis
    by (cases a) (simp_all add: moves_chapters_def; intro keeps_rules evolve_progress evolve_open evolve_content evolve_contributions
        evolve_status_updates evolve_commit evolve_upsert; simp?)+
qed

section \<open>Renumbering and replacing a source\<close>

lemma sql_update_fixed: "(\<And>r. f r = r) \<Longrightarrow> sql_update p f rows = rows"
  unfolding sql_update_def by (rule map_idI) simp

text \<open>What a renumbering that succeeds does: every chapter of the source moves by \<open>delta\<close>, progress and bookmarks on them too.\<close>

lemma renumber_result:
  assumes "renumber_source_chapters sid n delta db = (Inr k, db')"
  shows "chapters db' = sql_update (\<lambda>c. c_source_id c = Some sid) (\<lambda>c. c\<lparr>c_number := c_number c + delta\<rparr>) (chapters db)"
    "progress_rows db' = sql_update (\<lambda>r. rp_novel_id r = n)
       (\<lambda>r. r\<lparr>rp_last_chapter := map_option (shift_if (source_chapter_numbers sid db) delta) (rp_last_chapter r),
              rp_max_chapter := map_option (shift_if (source_chapter_numbers sid db) delta) (rp_max_chapter r)\<rparr>) (progress_rows db)"
proof -
  let ?nums = "map c_number (filter (\<lambda>c. c_source_id c = Some sid) (chapters db))"
  have sh: "shift_if ?nums delta = shift_if (source_chapter_numbers sid db) delta"
    by (rule ext) (simp add: shift_if_def source_chapter_numbers_def)
  have id0: "shift_if xs 0 = (\<lambda>x. x)" for xs by (rule ext) (simp add: shift_if_def)
  show "chapters db' = sql_update (\<lambda>c. c_source_id c = Some sid) (\<lambda>c. c\<lparr>c_number := c_number c + delta\<rparr>) (chapters db)"
  proof (cases "delta = 0")
    case True
    then show ?thesis using assms by (simp add: renumber_source_chapters_def sql_update_fixed)
  next
    case False
    then show ?thesis
      using assms by (auto simp: renumber_source_chapters_def Let_def bindS_def shift_chapters_def sql_update_def comp_def split: if_splits)
  qed
  show "progress_rows db' = sql_update (\<lambda>r. rp_novel_id r = n)
       (\<lambda>r. r\<lparr>rp_last_chapter := map_option (shift_if (source_chapter_numbers sid db) delta) (rp_last_chapter r),
              rp_max_chapter := map_option (shift_if (source_chapter_numbers sid db) delta) (rp_max_chapter r)\<rparr>) (progress_rows db)"
  proof (cases "delta = 0")
    case True
    then show ?thesis using assms by (simp add: renumber_source_chapters_def id0 option.map_ident sql_update_fixed)
  next
    case False
    then show ?thesis
      using assms by (auto simp: renumber_source_chapters_def Let_def bindS_def shift_chapters_def sh [symmetric] split: if_splits)
  qed
qed

text \<open>
  \<open>quiet n x a db\<close>: the action neither removes the chapter \<open>x\<close> of the novel \<open>n\<close> with its source, nor renumbers the source it is of, nor one
  with a chapter that would get the number \<open>x\<close>.
\<close>

definition quiet :: "int \<Rightarrow> rat \<Rightarrow> reading_action \<Rightarrow> reading_db \<Rightarrow> bool" where
  "quiet n x a db =
     (case a of
        R_renumber sid m delta \<Rightarrow>
          \<forall>c \<in> set (chapters db). c_source_id c = Some sid \<longrightarrow> chapter_key c \<noteq> (n, x) \<and> chapter_key c \<noteq> (n, x - delta)
      | R_delete_source sid \<Rightarrow> \<forall>c \<in> set (chapters db). c_source_id c = Some sid \<longrightarrow> chapter_key c \<noteq> (n, x)
      | _ \<Rightarrow> True)"

fun undisturbed ::
  "access_port \<Rightarrow> access_port \<Rightarrow> (string \<Rightarrow> string) \<Rightarrow> int \<Rightarrow> rat \<Rightarrow> (clock \<times> reading_action) list \<Rightarrow> reading_db \<Rightarrow> bool" where
  "undisturbed acc edt dig n x [] db = True"
| "undisturbed acc edt dig n x (ca # cas) db =
     (quiet n x (snd ca) db \<and> undisturbed acc edt dig n x cas (snd (reading_act acc edt dig (snd ca) (fst ca) db)))"

lemma row_by_apart:
  assumes "\<And>r. r \<in> set rows \<Longrightarrow> p r \<Longrightarrow> k r \<noteq> i \<and> k (f r) \<noteq> i"
  shows "row_by k i (sql_update p f rows) = row_by k i rows"
  using assms by (induction rows) auto

lemma renumber_act:
  assumes v: "\<forall>c \<in> set (chapters db). 1 \<le> c_content_version c" and q: "quiet n x (R_renumber sid m delta) db"
  shows "(\<forall>c \<in> set (chapters (snd (reading_act acc edt dig (R_renumber sid m delta) clk db))). 1 \<le> c_content_version c) \<and>
    find_chapter n x (snd (reading_act acc edt dig (R_renumber sid m delta) clk db)) = find_chapter n x db"
proof -
  obtain r db' where run: "renumber_source_chapters sid m delta db = (r, db')" by (cases "renumber_source_chapters sid m delta db")
  show ?thesis
  proof (cases r)
    case (Inl e)
    then show ?thesis using v run by (simp add: ignoreR_def bindS_def atomicS_def)
  next
    case (Inr k)
    note ch = renumber_result(1) [OF run [unfolded Inr]]
    have "chapter_key (c\<lparr>c_number := c_number c + delta\<rparr>) \<noteq> (n, x)" if "c \<in> set (chapters db)" "c_source_id c = Some sid" for c
      using q that by (auto simp: quiet_def chapter_key_def)
    then have "find_chapter n x db' = find_chapter n x db"
      unfolding find_chapter_def ch using q by (intro row_by_apart) (auto simp: quiet_def)
    moreover have "\<forall>c \<in> set (chapters db'). 1 \<le> c_content_version c" using v by (auto simp: ch set_sql_update)
    moreover have "snd (reading_act acc edt dig (R_renumber sid m delta) clk db) = db'"
      using run Inr by (simp add: ignoreR_def bindS_def atomicS_def)
    ultimately show ?thesis by simp
  qed
qed

lemma delete_source_act:
  assumes v: "\<forall>c \<in> set (chapters db). 1 \<le> c_content_version c" and q: "quiet n x (R_delete_source sid) db"
  shows "(\<forall>c \<in> set (chapters (delete_source_chapters sid db)). 1 \<le> c_content_version c) \<and>
    find_chapter n x (delete_source_chapters sid db) = find_chapter n x db"
proof -
  have "row_by chapter_key (n, x) (filter (\<lambda>c. \<not> p c) rows) = row_by chapter_key (n, x) rows"
    if "\<forall>c \<in> set rows. p c \<longrightarrow> chapter_key c \<noteq> (n, x)" for p and rows :: "chapter_row list"
    using that by (induction rows) auto
  from this [of "chapters db" "\<lambda>c. c_source_id c = Some sid"] show ?thesis
    using v q by (simp add: find_chapter_def delete_source_chapters_def sql_delete_def quiet_def)
qed

lemma step_evolves:
  assumes v: "\<forall>c \<in> set (chapters db). 1 \<le> c_content_version c" and q: "quiet n x a db" and c0: "find_chapter n x db = Some c0"
  shows "(\<forall>c \<in> set (chapters (snd (reading_act acc edt dig a clk db))). 1 \<le> c_content_version c) \<and>
    (\<exists>c. find_chapter n x (snd (reading_act acc edt dig a clk db)) = Some c \<and> chapter_evolves c0 c)"
proof -
  have refl: "chapter_evolves c0 c0" using v c0 by (auto simp: find_chapter_def intro: chapter_evolves_refl dest: row_by_Some)
  show ?thesis
  proof (cases "moves_chapters a")
    case False
    have "chapters_evolve db db"
      using v by (auto simp: chapters_evolve_def find_chapter_def intro: chapter_evolves_refl dest: row_by_Some)
    from keepsD [OF act_chapters_evolve [OF False] this] show ?thesis using c0 unfolding chapters_evolve_def by blast
  next
    case True
    then consider sid m delta where "a = R_renumber sid m delta" | sid where "a = R_delete_source sid"
      by (auto simp: moves_chapters_def split: reading_action.splits)
    then show ?thesis
    proof cases
      case 1
      then show ?thesis using renumber_act [OF v, of n x sid m delta acc edt dig clk] q c0 refl by simp
    next
      case 2
      then show ?thesis using delete_source_act [OF v, of n x sid] q c0 refl by (simp add: do_unit_def)
    qed
  qed
qed

lemma run_chapter_evolves:
  assumes "\<forall>c \<in> set (chapters db). 1 \<le> c_content_version c" "undisturbed acc edt dig n x cas db" "find_chapter n x db = Some c0"
  shows "\<exists>c. find_chapter n x (reading_run acc edt dig cas db) = Some c \<and> chapter_evolves c0 c"
  using assms
proof (induction cas arbitrary: db c0)
  case Nil
  then show ?case by (auto simp: find_chapter_def intro: chapter_evolves_refl dest: row_by_Some)
next
  case (Cons ca cas)
  let ?db = "snd (reading_act acc edt dig (snd ca) (fst ca) db)"
  have q: "quiet n x (snd ca) db" "undisturbed acc edt dig n x cas ?db" using Cons.prems(2) by simp_all
  obtain c where c: "\<forall>c \<in> set (chapters ?db). 1 \<le> c_content_version c" "find_chapter n x ?db = Some c" "chapter_evolves c0 c"
    using step_evolves [OF Cons.prems(1) q(1) Cons.prems(3)] by blast
  from Cons.IH [OF c(1) q(2) c(2)] chapter_evolves_trans [OF c(3)] show ?case by auto
qed

end
