(* ===== verification/Reading_Ceiling.thy ===== *)
theory Reading_Ceiling
  imports Reading_Runs
begin

text \<open>
  The trusted ceiling under interleavings, and the properties of the Reading module that span its
  operations: the spoiler ceiling of a reader only moves by chapters served to that reader, a change
  of base content never goes unnoticed by an overlay, contributions are applied at most once and never
  over a base their author did not see.
\<close>

section \<open>What a run served\<close>

definition opened :: "access_port \<Rightarrow> int \<Rightarrow> int \<Rightarrow> reading_action \<Rightarrow> reading_db \<Rightarrow> rat set" where
  "opened acc u n a db =
     (case a of
        R_open (Some p) m x \<Rightarrow>
          (if user_id p = u \<and> m = n \<and> (\<exists>v. fst (open_chapter acc n x (Some p) db) = Inr v) then {x} else {})
      | _ \<Rightarrow> {})"

text \<open>
  A renumbering moves the chapters of a source, and with them what a reader has been served: \<open>moved n a db x\<close> is the number the chapter \<open>x\<close>
  has after the action. \<open>served\<close> collects, from the chapters \<open>S\<close> a reader starts with, the present numbers of all chapters the reader has got.
\<close>

definition moved :: "int \<Rightarrow> reading_action \<Rightarrow> reading_db \<Rightarrow> rat \<Rightarrow> rat" where
  "moved n a db x =
     (case a of
        R_renumber sid m delta \<Rightarrow>
          (if m = n \<and> (\<exists>k. fst (renumber_source_chapters sid m delta db) = Inr k) then shift_if (source_chapter_numbers sid db) delta x else x)
      | _ \<Rightarrow> x)"

fun served ::
  "access_port \<Rightarrow> access_port \<Rightarrow> (string \<Rightarrow> string) \<Rightarrow> int \<Rightarrow> int \<Rightarrow> rat set \<Rightarrow> (clock \<times> reading_action) list \<Rightarrow> reading_db \<Rightarrow> rat set" where
  "served acc edt dig u n S [] db = S"
| "served acc edt dig u n S (ca # cas) db =
     served acc edt dig u n (moved n (snd ca) db ` S \<union> opened acc u n (snd ca) db) cas
       (snd (reading_act acc edt dig (snd ca) (fst ca) db))"

definition ceiling_in :: "int \<Rightarrow> int \<Rightarrow> rat set \<Rightarrow> reading_db \<Rightarrow> bool" where
  "ceiling_in u n S db \<longleftrightarrow> (\<forall>t. trusted_ceiling n u db = Some t \<longrightarrow> t \<in> S)"

lemma ceiling_in_same: "progress_rows db' = progress_rows db \<Longrightarrow> ceiling_in u n S db \<Longrightarrow> ceiling_in u n S db'"
  by (simp add: ceiling_in_def trusted_ceiling_def find_progress_def)

lemma keeps_ceiling_same:
  "(\<And>s. progress_rows (snd (m s)) = progress_rows s) \<Longrightarrow> keeps (ceiling_in u n S) m"
  unfolding keeps_def using ceiling_in_same by blast

lemma find_progress_upsert:
  assumes "\<And>r. progress_key (f r) = progress_key r"
  shows "find_progress u n (upsert_progress new f db) =
    (if progress_key new = (u, n) then (case find_progress u n db of None \<Rightarrow> Some new | Some r \<Rightarrow> Some (f r))
     else find_progress u n db)"
proof (cases "find_progress (rp_user_id new) (rp_novel_id new) db")
  case None
  then show ?thesis
    by (auto simp: upsert_progress_def find_progress_def row_by_append progress_key_def split: option.splits)
next
  case (Some r)
  have "row_by progress_key (u, n) (sql_update (\<lambda>r. progress_key r = progress_key new) f (progress_rows db)) =
      (if (u, n) = progress_key new then map_option f (row_by progress_key (u, n) (progress_rows db))
       else row_by progress_key (u, n) (progress_rows db))"
    using row_by_update_key [of progress_key f "(u, n)" "progress_key new" "\<lambda>_. True" "progress_rows db"] assms by simp
  with Some show ?thesis
    by (auto simp: upsert_progress_def find_progress_def progress_key_def split: option.splits)
qed

lemma trusted_set_progress: "trusted_ceiling n u (repo_set_progress m v x s db) = trusted_ceiling n u db"
  unfolding repo_set_progress_def trusted_ceiling_def
  by (subst find_progress_upsert) (auto simp: progress_key_def split: option.splits)

lemma trusted_record_served:
  "trusted_ceiling n u (record_served v m x db) =
    (if v = u \<and> m = n then Some (raise_max x (trusted_ceiling n u db)) else trusted_ceiling n u db)"
  unfolding record_served_def trusted_ceiling_def
  by (subst find_progress_upsert) (auto simp: progress_key_def raise_max_def split: option.splits)

lemma same_progress [simp]:
  "progress_rows (repo_delete_bookmark n u b db) = progress_rows db"
  "progress_rows (repo_save_overlay n x u c v origin db) = progress_rows db"
  "progress_rows (repo_delete_overlay n x u db) = progress_rows db"
  "progress_rows (reanchor_overlay n x u v db) = progress_rows db"
  "progress_rows (flag_conflicts n x v keep db) = progress_rows db"
  "progress_rows (mark_overlay_conflicts n xs db) = progress_rows db"
  "progress_rows (mark_contribution_accepted clk k rv c db) = progress_rows db"
  "progress_rows (update_chapter n x f db) = progress_rows db"
  "progress_rows (delete_source_chapters sid db) = progress_rows db"
  "progress_rows (mark_translation_started n x sha db) = progress_rows db"
  "progress_rows (mark_translation_failed n x only db) = progress_rows db"
  "progress_rows (snd (update_base_content n x c keep db)) = progress_rows db"
  "progress_rows (snd (create_contribution clk n x u c v st am db)) = progress_rows db"
  "progress_rows (snd (repo_reject_contribution clk n k rv db)) = progress_rows db"
  "progress_rows (snd (repo_add_bookmark clk n u x note db)) = progress_rows db"
  "progress_rows (snd (stage_translation_batch dig n xs run force db)) = progress_rows db"
  "progress_rows (snd (reset_staged_translations run st db)) = progress_rows db"
  "progress_rows (snd (reading_commit dig n x sha ver ttl txt md rn db)) = progress_rows db"
  "progress_rows (snd (upsert_ingested_chapter src x ch force kd part mv db)) = progress_rows db"
  "progress_rows (snd (preserve_content_version n x m db)) = progress_rows db"
  by (simp_all add: repo_delete_bookmark_def repo_save_overlay_def repo_delete_overlay_def reanchor_overlay_def
      flag_conflicts_def mark_overlay_conflicts_def mark_contribution_accepted_def update_chapter_def
      mark_translation_started_def mark_translation_failed_def update_base_content_def create_contribution_def
      repo_reject_contribution_def repo_add_bookmark_def stage_translation_batch_def reset_staged_translations_def
      reading_commit_def upsert_ingested_chapter_def preserve_content_version_def delete_source_chapters_def Let_def split: option.splits)

lemma ceiling_prims:
  "keeps (ceiling_in u n S) (update_base_content m x c keep)"
  "keeps (ceiling_in u n S) (create_contribution clk m x v c ver st am)"
  "keeps (ceiling_in u n S) (repo_reject_contribution clk m k rv)"
  "keeps (ceiling_in u n S) (stage_translation_batch dig m xs run force)"
  "keeps (ceiling_in u n S) (reset_staged_translations run st)"
  "keeps (ceiling_in u n S) (reading_commit dig m x sha ver ttl txt md rn)"
  "keeps (ceiling_in u n S) (upsert_ingested_chapter src x ch force kd part mv)"
  "keeps (ceiling_in u n S) (preserve_content_version m x mm)"
  by (rule keeps_ceiling_same, simp)+

lemma ceiling_same_rule:
  "(\<And>s. progress_rows (f s) = progress_rows s) \<Longrightarrow> ceiling_in u n S s \<Longrightarrow> ceiling_in u n S (f s)"
  using ceiling_in_same by blast

lemma ceiling_service:
  "keeps (ceiling_in u n S) (set_progress acc m p x s)"
  "keeps (ceiling_in u n S) (add_bookmark acc clk m p x note)"
  "keeps (ceiling_in u n S) (delete_bookmark acc m p b)"
proof -
  show "keeps (ceiling_in u n S) (set_progress acc m p x s)"
    by (auto simp: keeps_def set_progress_def ceiling_in_def trusted_set_progress split: sum.splits pyfloat.splits)
  show "keeps (ceiling_in u n S) (add_bookmark acc clk m p x note)" "keeps (ceiling_in u n S) (delete_bookmark acc m p b)"
    by (intro keeps_ceiling_same; simp add: add_bookmark_def delete_bookmark_def split: sum.splits)+
qed

lemma ceiling_content:
  "keeps (ceiling_in u n S) (edit_base_content edt m x c p)"
  "keeps (ceiling_in u n S) (save_overlay acc m x c p)"
  "keeps (ceiling_in u n S) (delete_overlay acc m x p)"
  "keeps (ceiling_in u n S) (resolve_overlay acc m x ch oc p)"
  "keeps (ceiling_in u n S) (contribute acc clk m x p)"
  "keeps (ceiling_in u n S) (accept_contribution edt clk m k rc p)"
  "keeps (ceiling_in u n S) (reject_contribution edt clk m k p)"
  unfolding edit_base_content_def save_overlay_def delete_overlay_def resolve_overlay_def contribute_def
    accept_contribution_def reject_contribution_def Let_def
  by (intro keeps_rules ceiling_prims; (erule ceiling_same_rule [rotated]; simp)?)+

lemma ceiling_open:
  assumes "ceiling_in u n S db"
  shows "ceiling_in u n (S \<union> opened acc u n (R_open q m x) db) (snd (open_chapter acc m x q db))"
proof (cases "acc m q")
  case (Inl e)
  then have "snd (open_chapter acc m x q db) = db" by (simp add: open_chapter_def guarded_def atomicS_def)
  with assms show ?thesis by (auto simp: ceiling_in_def)
next
  case (Inr nv)
  show ?thesis
  proof (cases "find_chapter m x db")
    case None
    then have "snd (open_chapter acc m x q db) = db"
      using Inr by (simp add: open_chapter_def guarded_def atomicS_def repo_get_chapter_def bindS_def)
    with assms show ?thesis by (auto simp: ceiling_in_def)
  next
    case (Some c)
    show ?thesis
    proof (cases q)
      case None
      then have "snd (open_chapter acc m x q db) = db"
        using Inr Some by (simp add: open_chapter_def guarded_def atomicS_def repo_get_chapter_def bindS_def)
      with assms show ?thesis by (auto simp: ceiling_in_def)
    next
      case q: (Some p)
      have op: "open_chapter acc m x q db =
          (Inr (nv, snapshot_of db m x c (find_overlay (user_id p) m x db)), record_served (user_id p) m x db)"
        using Inr Some q by (simp add: open_chapter_def guarded_def atomicS_def repo_get_chapter_def bindS_def)
      show ?thesis
      proof (cases "user_id p = u \<and> m = n")
        case False
        with assms op show ?thesis by (auto simp: ceiling_in_def trusted_record_served)
      next
        case True
        then have "opened acc u n (R_open q m x) db = {x}" using op q by (simp add: opened_def)
        moreover have "raise_max x (trusted_ceiling n u db) \<in> S \<union> {x}"
          using assms by (cases "trusted_ceiling n u db") (auto simp: raise_max_def ceiling_in_def max_def)
        ultimately show ?thesis using op True by (simp add: ceiling_in_def trusted_record_served)
      qed
    qed
  qed
qed

text \<open>A renumbering moves the ceiling with the chapter it stands on.\<close>

lemma find_progress_update:
  assumes "\<And>r. progress_key (f r) = progress_key r"
  shows "row_by progress_key i (sql_update p f rows) = map_option (\<lambda>r. if p r then f r else r) (row_by progress_key i rows)"
  using row_by_sql_update [of p progress_key f i rows] assms by blast

lemma trusted_renumber:
  assumes "renumber_source_chapters sid m delta db = (Inr k, db')"
  shows "trusted_ceiling n u db' =
    (if m = n then map_option (shift_if (source_chapter_numbers sid db) delta) (trusted_ceiling n u db) else trusted_ceiling n u db)"
proof -
  let ?f = "\<lambda>r. r\<lparr>rp_last_chapter := map_option (shift_if (source_chapter_numbers sid db) delta) (rp_last_chapter r),
     rp_max_chapter := map_option (shift_if (source_chapter_numbers sid db) delta) (rp_max_chapter r)\<rparr>"
  have "find_progress u n db' = map_option (\<lambda>r. if rp_novel_id r = m then ?f r else r) (find_progress u n db)"
    unfolding find_progress_def renumber_result(2) [OF assms] by (rule find_progress_update) (simp add: progress_key_def)
  moreover have "rp_novel_id r = n" if "find_progress u n db = Some r" for r
    using that by (auto simp: find_progress_def progress_key_def dest: row_by_Some)
  ultimately show ?thesis by (auto simp: trusted_ceiling_def split: option.splits)
qed

lemma ceiling_renumber:
  assumes "ceiling_in u n S db"
  shows "ceiling_in u n (moved n (R_renumber sid m delta) db ` S) (snd (reading_act acc edt dig (R_renumber sid m delta) clk db))"
proof -
  obtain r db' where run: "renumber_source_chapters sid m delta db = (r, db')" by (cases "renumber_source_chapters sid m delta db")
  show ?thesis
  proof (cases r)
    case (Inl e)
    then show ?thesis using assms run by (simp add: ignoreR_def bindS_def atomicS_def moved_def)
  next
    case (Inr k)
    then have "snd (reading_act acc edt dig (R_renumber sid m delta) clk db) = db'" using run by (simp add: ignoreR_def bindS_def atomicS_def)
    then show ?thesis
      using assms run Inr trusted_renumber [OF run [unfolded Inr], of n u]
      by (cases "trusted_ceiling n u db") (auto simp: ceiling_in_def moved_def)
  qed
qed

lemma act_ceiling:
  assumes "ceiling_in u n S db"
  shows "ceiling_in u n (moved n a db ` S \<union> opened acc u n a db) (snd (reading_act acc edt dig a clk db))"
proof -
  consider q m x where "a = R_open q m x" | sid m delta where "a = R_renumber sid m delta"
    | "\<forall>q m x. a \<noteq> R_open q m x" "\<forall>sid m delta. a \<noteq> R_renumber sid m delta" by blast
  then show ?thesis
  proof cases
    case 1
    have "snd (ignoreR (open_chapter acc m x q) db) = snd (open_chapter acc m x q db)"
      by (simp add: ignoreR_def bindS_def split: prod.splits sum.splits)
    with ceiling_open [OF assms, of acc q m x] 1 show ?thesis by (simp add: moved_def)
  next
    case 2
    with ceiling_renumber [OF assms, of sid m delta acc edt dig clk] show ?thesis by (simp add: opened_def)
  next
    case 3
    have du: "keeps (ceiling_in u n S) (do_unit f)" if "\<And>s. progress_rows (f s) = progress_rows s" for f
      using that by (intro keeps_ceiling_same) (simp add: do_unit_def)
    have "keeps (ceiling_in u n S) (reading_act acc edt dig a clk)"
      using 3 du by (cases a) (simp_all; intro keeps_rules ceiling_prims ceiling_service ceiling_content; simp?)+
    moreover have "moved n a db = id" using 3 by (cases a) (auto simp: moved_def fun_eq_iff)
    ultimately show ?thesis using assms by (auto simp: keeps_def ceiling_in_def)
  qed
qed

lemma run_ceiling:
  "ceiling_in u n S db \<Longrightarrow> ceiling_in u n (served acc edt dig u n S cas db) (reading_run acc edt dig cas db)"
proof (induction cas arbitrary: S db)
  case Nil
  then show ?case by simp
next
  case (Cons ca cas)
  from Cons.IH [OF act_ceiling [OF Cons.prems, of "snd ca" acc edt dig "fst ca"]] show ?case by simp
qed

section \<open>Properties\<close>

text \<open>
  C2: readers are never told more than they were shown. After any interleaving of requests of all
  users, translation commits, re-scrapes, replacements and renumberings of sources, whatever ceiling a
  reader asks for (a number, NaN or an infinity), the ceiling the novel's search and codex views are
  answered at is the first chapter, or at most the present number of a chapter whose content was
  actually served to that very reader on the way, or of the chapter the reader's ceiling stood on at
  the start. Setting progress, bookmarks, edits and other readers never raise it, and a renumbering
  moves it only with the chapter it stands on.
\<close>

theorem spoiler_ceiling_run:
  assumes "effective_ceiling acc2 n (Some p) req (reading_run acc edt dig cas db) = Inr e"
  shows "\<exists>x. ec_effective e = Fin x \<and> (x = ec_min_chapter e \<or>
    (\<exists>y \<in> served acc edt dig (user_id p) n (set_option (trusted_ceiling n (user_id p) db)) cas db. x \<le> y))"
proof -
  let ?db' = "reading_run acc edt dig cas db"
  obtain x where x: "ec_effective e = Fin x" "ec_min_chapter e \<le> x" "x \<le> ec_allowed e"
    using effective_in_interval [OF assms] by blast
  have al: "ec_allowed e = max (ec_min_chapter e) (min (ec_max_chapter e)
      (coalesce (trusted_ceiling n (user_id p) ?db') (ec_min_chapter e)))"
    using effective_ceiling_Inr(3) [OF assms] by simp
  have "ceiling_in (user_id p) n (set_option (trusted_ceiling n (user_id p) db)) db"
    by (simp add: ceiling_in_def)
  from run_ceiling [OF this, of acc edt dig cas] have cin:
    "\<And>t. trusted_ceiling n (user_id p) ?db' = Some t \<Longrightarrow>
      t \<in> served acc edt dig (user_id p) n (set_option (trusted_ceiling n (user_id p) db)) cas db"
    by (simp add: ceiling_in_def)
  show ?thesis
  proof (cases "trusted_ceiling n (user_id p) ?db'")
    case None
    with al x(2,3) have "x = ec_min_chapter e" by simp
    with x(1) show ?thesis by blast
  next
    case (Some t)
    with al x(3) have "x \<le> max (ec_min_chapter e) (min (ec_max_chapter e) t)" by simp
    with x(2) have "x = ec_min_chapter e \<or> x \<le> t" by linarith
    with cin [OF Some] x(1) show ?thesis by blast
  qed
qed

lemma chapters_set_progress: "chapters (snd (set_progress acc n p x s db)) = chapters db"
  by (simp add: set_progress_def split: sum.splits pyfloat.splits)

lemma chapters_open: "chapters (snd (ignoreR (open_chapter acc n x q) db)) = chapters db"
  by (auto simp: ignoreR_def bindS_def open_chapter_def atomicS_def guarded_def repo_get_chapter_def
      split: sum.splits prod.splits option.splits)

definition demo_access :: access_port where
  "demo_access nid p = require_readable nid p demo_catalog"

definition demo_reading_cas :: "(clock \<times> reading_action) list" where
  "demo_reading_cas = [(demo_now, R_open (Some demo_user_b) 3 2), (demo_now, R_set_progress demo_user_b 3 (Fin 3) (Fin 1))]"

theorem spoiler_ceiling_run_witness:
  "\<exists>e x. effective_ceiling demo_access 3 (Some demo_user_b) (Some PosInf)
      (reading_run demo_access demo_access id demo_reading_cas demo_reading) = Inr e \<and> ec_effective e = Fin x \<and>
     (x = ec_min_chapter e \<or> x \<le> 2)"
proof -
  let ?db' = "reading_run demo_access demo_access id demo_reading_cas demo_reading"
  have acc: "demo_access 3 (Some demo_user_b) = Inr demo_novel"
    by (simp add: demo_access_def require_readable_def get_access_def demo_catalog_def demo_novel_def can_read_def demo_user_b_def)
  have f: "find_chapter 3 2 demo_reading = Some (demo_chapter 2)"
    by (simp add: find_chapter_def demo_reading_def demo_chapter_def chapter_key_def)
  have t: "trusted_ceiling 3 (user_id demo_user_b) demo_reading = Some 2"
    by (simp add: trusted_ceiling_def find_progress_def demo_reading_def progress_key_def demo_user_b_def)
  have "served demo_access demo_access id (user_id demo_user_b) 3 {2} demo_reading_cas demo_reading \<subseteq> {2}"
    by (auto simp: demo_reading_cas_def opened_def moved_def split: if_splits)
  moreover have "chapters ?db' = chapters demo_reading"
    by (simp add: demo_reading_cas_def chapters_set_progress chapters_open)
  then have span: "chapter_span 3 ?db' = (3, Some 1, Some 3)"
    using demo_span by (simp add: chapter_span_def novel_numbers_def)
  obtain e where e: "effective_ceiling demo_access 3 (Some demo_user_b) (Some PosInf) ?db' = Inr e"
    by (simp add: effective_ceiling_def acc span Let_def)
  from spoiler_ceiling_run [OF e] t calculation e show ?thesis by auto
qed

end
