(* ===== verification/Reading_Merge.thy ===== *)
theory Reading_Merge
  imports Reading_Ceiling
begin

text \<open>
  Properties of overlays, contributions, the optimistic translation commit and the renumbering of a
  source: what the version of a chapter protects, and two places where it does not.
\<close>

section \<open>Chapters and overlays after an update\<close>

lemma find_chapter_update:
  assumes "\<And>c. chapter_key (f c) = chapter_key c"
  shows "find_chapter m y (update_chapter n x f db) =
    (if m = n \<and> y = x then map_option f (find_chapter m y db) else find_chapter m y db)"
  using row_by_update_key [of chapter_key f "(m, y)" "(n, x)" "\<lambda>_. True" "chapters db"] assms
  by (simp add: find_chapter_def update_chapter_def)

lemma find_chapter_same [simp]:
  "find_chapter m y (flag_conflicts n x v keep db) = find_chapter m y db"
  "find_chapter m y (reanchor_overlay n x u v db) = find_chapter m y db"
  "find_chapter m y (mark_contribution_accepted clk k rv c db) = find_chapter m y db"
  "find_chapter m y (repo_save_overlay n x u c v origin db) = find_chapter m y db"
  "find_chapter m y (db\<lparr>contributions := ks, next_contribution_id := i\<rparr>) = find_chapter m y db"
  by (simp_all add: find_chapter_def)

definition base_written :: "string \<Rightarrow> chapter_row \<Rightarrow> chapter_row" where
  "base_written content c = c\<lparr>c_content := Some content, c_is_translated := True, c_translation_status := ''done'',
     c_content_version := c_content_version c + 1\<rparr>"

lemma update_base_content_result:
  assumes "find_chapter n x db = Some c"
  shows "\<exists>db'. update_base_content n x content keep db = (Inr (c_content_version c + 1), db') \<and>
    (\<forall>m y. find_chapter m y db' = (if m = n \<and> y = x then Some (base_written content c) else find_chapter m y db)) \<and>
    contributions db' = contributions db"
proof -
  have key: "\<And>c. chapter_key (base_written content c) = chapter_key c"
    by (simp add: base_written_def chapter_key_def)
  have "find_chapter m y (update_chapter n x (base_written content) db) =
      (if m = n \<and> y = x then Some (base_written content c) else find_chapter m y db)" for m y
    using find_chapter_update [where f = "base_written content", OF key] assms by simp
  moreover have "contributions (update_chapter n x f db) = contributions db" for f
    by (simp add: update_chapter_def)
  ultimately show ?thesis using assms
    by (simp add: update_base_content_def Let_def base_written_def [abs_def] flag_conflicts_def reanchor_overlay_def
        find_chapter_def split: option.split)
qed

section \<open>Properties\<close>

text \<open>
  C37: no base change goes unnoticed. Take a chapter at some moment and any later moment after any
  interleaving of operations in which no source is removed that holds the chapter, nor renumbered that
  holds it or has a chapter that gets its number. If its content or source text differs, then every
  reader whose overlay was made on the earlier version (or before) is told of a conflict when the
  chapter is served. The proviso is needed: overlays do not move with a renumbered source, which
  \<open>renumber_strands_overlays\<close> below shows.
\<close>

theorem base_change_noticed:
  assumes v: "\<forall>c \<in> set (chapters db). 1 \<le> c_content_version c" and c0: "find_chapter n x db = Some c0"
    and u: "undisturbed acc edt dig n x cas db" and c1: "find_chapter n x (reading_run acc edt dig cas db) = Some c1"
    and ch: "c_content c1 \<noteq> c_content c0 \<or> c_original_text c1 \<noteq> c_original_text c0"
    and o: "find_overlay (user_id p) n x (reading_run acc edt dig cas db) = Some r" "o_base_version r \<le> c_content_version c0"
    and s: "open_chapter acc n x (Some p) (reading_run acc edt dig cas db) = (Inr (nv, sn), db')"
  shows "sn_overlay_conflict sn \<and> sn_overlay_content sn = Some (o_content r)"
proof -
  have "chapter_evolves c0 c1"
    using run_chapter_evolves [OF v u c0] c1 by auto
  with ch o(2) have "o_base_version r < c_content_version c1" "1 \<le> c_content_version c1"
    by (auto simp: chapter_evolves_def)
  moreover have "sn = snapshot_of (reading_run acc edt dig cas db) n x c1 (Some r)"
    using s c1 o(1) by (auto simp: open_chapter_def atomicS_def guarded_def bindS_def repo_get_chapter_def split: sum.splits)
  ultimately show ?thesis by (simp add: snapshot_of_def Let_def or_one_def)
qed

definition demo_overlay :: overlay where
  "demo_overlay = \<lparr>o_user_id = 7, o_novel_id = 3, o_chapter = 2, o_content = ''mine'', o_base_version = 2,
     o_origin = ''manual_edit'', o_conflict = False\<rparr>"

definition demo_reading2 :: reading_db where
  "demo_reading2 = demo_reading\<lparr>overlays := [demo_overlay],
     contributions := [\<lparr>k_id = 4, k_novel_id = 3, k_from_user_id = 9, k_chapter = 2, k_content = ''theirs'',
       k_base_version = 2, k_status = ''pending'', k_reviewed_by = None, k_created_at = 1, k_reviewed_at = None\<rparr>]\<rparr>"

definition demo_edit_cas :: "(clock \<times> reading_action) list" where
  "demo_edit_cas = [(demo_now, R_commit 3 2 ''raw'' 2 None ''new base'' ''m'' None)]"

definition demo_reading3 :: reading_db where
  "demo_reading3 = reading_run demo_access demo_access id demo_edit_cas demo_reading2"

lemma demo_access_ok: "demo_access 3 (Some demo_user_b) = Inr demo_novel"
  by (simp add: demo_access_def require_readable_def get_access_def demo_catalog_def demo_novel_def can_read_def demo_user_b_def)

lemma demo_find2: "find_chapter 3 2 demo_reading2 = Some (demo_chapter 2)"
  by (simp add: find_chapter_def demo_reading2_def demo_reading_def demo_chapter_def chapter_key_def)

lemma demo_reading3_eq:
  "demo_reading3 = flag_conflicts 3 2 3 None (update_chapter 3 2 (committed None ''new base'' ''m'' None ''raw'') demo_reading2)"
proof -
  have "clean_title None = None" by (simp add: clean_title_def)
  moreover have "c_original_text (demo_chapter 2) = Some ''raw''" "c_content_version (demo_chapter 2) = 2"
    "c_run_id (demo_chapter 2) = None" by (simp_all add: demo_chapter_def)
  ultimately show ?thesis
    by (simp add: demo_reading3_def demo_edit_cas_def ignoreR_def bindS_def reading_commit_def demo_find2 or_one_def)
qed

theorem base_change_noticed_witness:
  "\<exists>nv sn db'. open_chapter demo_access 3 2 (Some demo_user_b) demo_reading3 = (Inr (nv, sn), db') \<and> sn_overlay_conflict sn"
proof -
  let ?f = "committed None ''new base'' ''m'' None ''raw''"
  have v: "\<forall>c \<in> set (chapters demo_reading2). 1 \<le> c_content_version c"
    by (simp add: demo_reading2_def demo_reading_def demo_chapter_def)
  have f3: "find_chapter 3 2 demo_reading3 = Some (?f (demo_chapter 2))"
    using demo_find2 find_chapter_update [of ?f 3 2 3 2 demo_reading2]
    by (simp add: demo_reading3_eq chapter_key_def committed_def)
  have ov: "find_overlay (user_id demo_user_b) 3 2 demo_reading3 = Some (demo_overlay\<lparr>o_conflict := True\<rparr>)"
    by (simp add: demo_reading3_eq find_overlay_def flag_conflicts_def update_chapter_def demo_reading2_def
        demo_overlay_def demo_user_b_def overlay_key_def)
  have "c_content (?f (demo_chapter 2)) \<noteq> c_content (demo_chapter 2)"
    by (simp add: committed_def demo_chapter_def py_strip_def py_lstrip_def py_rstrip_def is_py_space_def)
  moreover obtain nv sn db' where s: "open_chapter demo_access 3 2 (Some demo_user_b) demo_reading3 = (Inr (nv, sn), db')"
    using f3 by (simp add: open_chapter_def atomicS_def guarded_def demo_access_ok bindS_def repo_get_chapter_def)
  moreover have quiet: "undisturbed demo_access demo_access id 3 2 demo_edit_cas demo_reading2"
    by (simp add: demo_edit_cas_def quiet_def)
  moreover have "o_base_version (demo_overlay\<lparr>o_conflict := True\<rparr>) \<le> c_content_version (demo_chapter 2)"
    by (simp add: demo_overlay_def demo_chapter_def)
  ultimately show ?thesis
    using base_change_noticed [OF v demo_find2 quiet f3 [unfolded demo_reading3_def] _ ov [unfolded demo_reading3_def], of nv sn db']
    by (auto simp: demo_reading3_def [symmetric])
qed

text \<open>contributions are merged at most once and never over an unseen base. Accepting a pending
  contribution whose chapter has moved on since it was offered is refused, with the store unchanged,
  unless the reviewer supplies resolved text. An accepted one writes exactly the resolved text (or
  else the offered text), raises the version by one, changes no other chapter, and can be accepted
  again only with a refusal that changes nothing.
\<close>

lemma accept_contribution_safe:
  assumes e: "edt n (Some p) = Inr nv" and k: "get_contribution n kid db = Some k" "k_status k = ''pending''"
    and c: "find_chapter n (k_chapter k) db = Some c"
  shows "(or_one (k_base_version k) < or_one (c_content_version c) \<and> py_strip (coalesce rc []) = [] \<longrightarrow>
      (\<exists>m. accept_contribution edt clk n kid rc p db = (Inl (Conflict m), db))) \<and>
    (\<not> (or_one (k_base_version k) < or_one (c_content_version c) \<and> py_strip (coalesce rc []) = []) \<longrightarrow>
      (\<exists>db'. accept_contribution edt clk n kid rc p db = (Inr (), db') \<and>
         find_chapter n (k_chapter k) db' =
           Some (base_written (if py_strip (coalesce rc []) = [] then k_content k else py_strip (coalesce rc [])) c) \<and>
         (\<forall>m y. (m, y) \<noteq> (n, k_chapter k) \<longrightarrow> find_chapter m y db' = find_chapter m y db) \<and>
         (\<forall>clk' rc'. \<exists>m. accept_contribution edt clk' n kid rc' p db' = (Inl (Conflict m), db'))))"
proof (intro conjI impI)
  assume "or_one (k_base_version k) < or_one (c_content_version c) \<and> py_strip (coalesce rc []) = []"
  then show "\<exists>m. accept_contribution edt clk n kid rc p db = (Inl (Conflict m), db)"
    using e k c by (simp add: accept_contribution_def atomicS_def guarded_def bindS_def chapter_version_and_source_def Let_def)
next
  assume ok: "\<not> (or_one (k_base_version k) < or_one (c_content_version c) \<and> py_strip (coalesce rc []) = [])"
  let ?txt = "if py_strip (coalesce rc []) = [] then k_content k else py_strip (coalesce rc [])"
  obtain db1 where db1: "update_base_content n (k_chapter k) ?txt (Some (k_from_user_id k)) db = (Inr (c_content_version c + 1), db1)"
    "\<And>m y. find_chapter m y db1 = (if m = n \<and> y = k_chapter k then Some (base_written ?txt c) else find_chapter m y db)"
    "contributions db1 = contributions db"
    using update_base_content_result [OF c, of ?txt "Some (k_from_user_id k)"] by blast
  let ?db' = "mark_contribution_accepted clk kid (user_id p) ?txt db1"
  have run: "accept_contribution edt clk n kid rc p db = (Inr (), ?db')"
    using e k c ok db1(1)
    by (auto simp: accept_contribution_def atomicS_def guarded_def bindS_def chapter_version_and_source_def Let_def)
  have "find (\<lambda>k. k_id k = kid \<and> k_novel_id k = n) (sql_update (\<lambda>k. k_id k = kid) (\<lambda>k. k\<lparr>k_status := ''accepted'', k_content := ?txt,
        k_reviewed_by := Some (user_id p), k_reviewed_at := Some (now clk)\<rparr>) rows) =
      map_option (\<lambda>k. k\<lparr>k_status := ''accepted'', k_content := ?txt, k_reviewed_by := Some (user_id p), k_reviewed_at := Some (now clk)\<rparr>)
        (find (\<lambda>k. k_id k = kid \<and> k_novel_id k = n) rows)" for rows
    by (induction rows) auto
  from this [of "contributions db"] obtain k' where "get_contribution n kid ?db' = Some k'" "k_status k' = ''accepted''"
    using k db1(3) by (simp add: get_contribution_def mark_contribution_accepted_def)
  then have "\<exists>m. accept_contribution edt clk' n kid rc' p ?db' = (Inl (Conflict m), ?db')" for clk' rc'
    using e by (simp add: accept_contribution_def atomicS_def guarded_def)
  with run db1(2) show "\<exists>db'. accept_contribution edt clk n kid rc p db = (Inr (), db') \<and>
      find_chapter n (k_chapter k) db' = Some (base_written ?txt c) \<and>
      (\<forall>m y. (m, y) \<noteq> (n, k_chapter k) \<longrightarrow> find_chapter m y db' = find_chapter m y db) \<and>
      (\<forall>clk' rc'. \<exists>m. accept_contribution edt clk' n kid rc' p db' = (Inl (Conflict m), db'))"
    by (intro exI [of _ ?db']) auto
qed

lemma accept_contribution_safe_witness:
  "\<exists>db'. accept_contribution demo_access demo_now 3 4 None demo_user_b demo_reading2 = (Inr (), db') \<and>
     find_chapter 3 2 db' = Some (base_written ''theirs'' (demo_chapter 2))"
proof -
  obtain k where k: "get_contribution 3 4 demo_reading2 = Some k" "k_status k = ''pending''" "k_chapter k = 2"
    "k_content k = ''theirs''" "k_base_version k = 2"
    by (simp add: get_contribution_def demo_reading2_def)
  have "c_content_version (demo_chapter 2) = 2" by (simp add: demo_chapter_def)
  with accept_contribution_safe [of demo_access 3 demo_user_b demo_novel 4 demo_reading2 k "demo_chapter 2" None demo_now]
    demo_access_ok k demo_find2
  show ?thesis by (auto simp: or_one_def)
qed

text \<open>one translation wins. A commit that takes effect found the very source text, version and staging
  it was computed from; it raises the version by one, and then every other translation of the same
  snapshot is refused without a write: another worker's commit for the same version, and the same
  commit again without its run id. Repeating an AGY commit under its run id is a no-op that answers
  with the committed text.
\<close>

lemma reading_commit_once:
  assumes cm: "reading_commit dig n x sha ver ttl txt md run db = (Inr res, db')" and ni: "\<not> cr_idempotent res"
    and pos: "\<And>c. find_chapter n x db = Some c \<Longrightarrow> 1 \<le> c_content_version c"
  shows "\<exists>c. find_chapter n x db = Some c \<and> dig (coalesce (c_original_text c) []) = sha \<and> c_content_version c = ver \<and>
    c_run_id c = run \<and> find_chapter n x db' = Some (committed (clean_title ttl) txt md run sha c) \<and>
    (\<forall>ttl2 txt2 md2 run2. (run2 = None \<or> run2 \<noteq> run) \<longrightarrow>
       (\<exists>m. reading_commit dig n x sha ver ttl2 txt2 md2 run2 db' = (Inl (RuntimeError m), db'))) \<and>
    (\<forall>ttl2 txt2 md2. run \<noteq> None \<longrightarrow> reading_commit dig n x sha ver ttl2 txt2 md2 run db' =
       (Inr \<lparr>cr_status = ''done'', cr_content = Some (py_strip txt), cr_idempotent = True\<rparr>, db'))"
proof -
  from cm obtain c where c: "find_chapter n x db = Some c"
    by (auto simp: reading_commit_def split: option.splits)
  with cm ni have h: "dig (coalesce (c_original_text c) []) = sha" "or_one (c_content_version c) = ver" "c_run_id c = run"
    and db': "db' = flag_conflicts n x (c_content_version c + 1) None (update_chapter n x (committed (clean_title ttl) txt md run sha) db)"
    by (auto simp: reading_commit_def split: if_splits)
  have v: "c_content_version c = ver" using h(2) pos [OF c] by (simp add: or_one_def split: if_splits)
  let ?c' = "committed (clean_title ttl) txt md run sha c"
  have g': "find_chapter n x db' = Some ?c'"
    using c find_chapter_update [of "committed (clean_title ttl) txt md run sha" n x n x db]
    by (simp add: db' chapter_key_def committed_def)
  have f: "c_original_text ?c' = c_original_text c" "c_content_version ?c' = ver + 1" "c_run_id ?c' = run"
    "c_translation_status ?c' = ''done''" "c_source_sha ?c' = Some sha" "c_content ?c' = Some (py_strip txt)"
    using v by (simp_all add: committed_def)
  have "\<exists>m. reading_commit dig n x sha ver ttl2 txt2 md2 run2 db' = (Inl (RuntimeError m), db')"
    if "run2 = None \<or> run2 \<noteq> run" for ttl2 txt2 md2 run2
    using that g' f h(1) pos [OF c] v by (auto simp: reading_commit_def or_one_def)
  moreover have "reading_commit dig n x sha ver ttl2 txt2 md2 run db' =
       (Inr \<lparr>cr_status = ''done'', cr_content = Some (py_strip txt), cr_idempotent = True\<rparr>, db')"
    if "run \<noteq> None" for ttl2 txt2 md2
    using that g' f by (simp add: reading_commit_def)
  ultimately show ?thesis using c h v g' by blast
qed

lemma reading_commit_once_witness:
  "\<exists>m. reading_commit id 3 2 ''raw'' 2 None ''late'' ''m2'' (Some ''r9'') demo_reading3 = (Inl (RuntimeError m), demo_reading3)"
proof -
  have cm: "reading_commit id 3 2 ''raw'' 2 None ''new base'' ''m'' None demo_reading2 =
      (Inr \<lparr>cr_status = ''done'', cr_content = Some (py_strip ''new base''), cr_idempotent = False\<rparr>, demo_reading3)"
    using demo_find2 by (simp add: reading_commit_def demo_reading3_eq demo_chapter_def or_one_def clean_title_def)
  have pos: "\<And>c. find_chapter 3 2 demo_reading2 = Some c \<Longrightarrow> 1 \<le> c_content_version c"
    using demo_find2 by (simp add: demo_chapter_def)
  from reading_commit_once [OF cm _ pos] show ?thesis by auto
qed

section \<open>Where the version does not protect\<close>

text \<open>renumbering a source leaves overlays behind. After the chapters of a source move by \<open>delta\<close>,
  an overlay is still filed under the old number: when the chapter \<open>x\<close> and its predecessor
  \<open>x - delta\<close> both belong to the source, the reader's edit of \<open>x\<close> is shown in place of the text of the
  chapter that was \<open>x - delta\<close>.
\<close>

lemma renumber_strands_overlays:
  assumes r: "renumber_source_chapters sid n delta db = (Inr k, db')" and d: "delta \<noteq> 0"
    and ids: "distinct (map chapter_key (chapters db))"
    and c: "c \<in> set (chapters db)" "c_source_id c = Some sid" "c_novel_id c = n" "c_number c = x - delta"
    and o: "find_overlay u n x db = Some ov"
  shows "find_overlay u n x db' = Some ov \<and> find_chapter n x db' = Some (c\<lparr>c_number := x\<rparr>)"
proof -
  let ?src = "\<lambda>c. c_source_id c = Some sid"
  let ?sh = "\<lambda>d c. c\<lparr>c_number := c_number c + d\<rparr>"
  let ?cs1 = "sql_update ?src (?sh (delta + 1000000)) (chapters db)"
  let ?cs2 = "sql_update ?src (?sh (- 1000000)) ?cs1"
  from r d have d2: "distinct (map chapter_key ?cs2)" and ch: "chapters db' = ?cs2" and ov: "overlays db' = overlays db"
    by (auto simp: renumber_source_chapters_def Let_def bindS_def shift_chapters_def split: if_splits)
  have eq: "?cs2 = sql_update ?src (?sh delta) (chapters db)"
    unfolding sql_update_def by (simp add: comp_def)
  have "c\<lparr>c_number := x\<rparr> \<in> set (sql_update ?src (?sh delta) (chapters db))"
    using c unfolding set_sql_update by (intro image_eqI [of _ _ c]) simp_all
  then have "c\<lparr>c_number := x\<rparr> \<in> set ?cs2" by (simp only: eq)
  moreover have "chapter_key (c\<lparr>c_number := x\<rparr>) = (n, x)" using c(3) by (simp add: chapter_key_def)
  ultimately have "find_chapter n x db' = Some (c\<lparr>c_number := x\<rparr>)"
    using row_by_in [OF d2] ch by (metis find_chapter_def)
  with o ov show ?thesis by (simp add: find_overlay_def)
qed

lemma renumber_strands_overlays_witness:
  "\<exists>k db'. renumber_source_chapters 1 3 1 demo_reading2 = (Inr k, db') \<and> find_overlay 7 3 2 db' = Some demo_overlay \<and>
     find_chapter 3 2 db' = Some ((demo_chapter 1)\<lparr>c_number := 2\<rparr>)"
proof -
  obtain k db' where r: "renumber_source_chapters 1 3 1 demo_reading2 = (Inr k, db')"
    by (simp add: renumber_source_chapters_def Let_def bindS_def shift_chapters_def demo_reading2_def demo_reading_def
        demo_chapter_def chapter_key_def)
  have ids: "distinct (map chapter_key (chapters demo_reading2))"
    by (simp add: demo_reading2_def demo_reading_def demo_chapter_def chapter_key_def)
  have c: "demo_chapter 1 \<in> set (chapters demo_reading2)" "c_source_id (demo_chapter 1) = Some 1"
    "c_novel_id (demo_chapter 1) = 3" "c_number (demo_chapter 1) = 2 - 1"
    by (simp_all add: demo_reading2_def demo_reading_def demo_chapter_def)
  have o: "find_overlay 7 3 2 demo_reading2 = Some demo_overlay"
    by (simp add: find_overlay_def demo_reading2_def demo_overlay_def overlay_key_def)
  from renumber_strands_overlays [OF r _ ids c o] r show ?thesis by auto
qed

text \<open>
  C40: a failed self-translation keeps the reader's quota. When the translation port gives nothing back,
  \<open>self_translate\<close> raises \<open>Conflict\<close> after the reservation was made and before any refund.
\<close>

theorem self_translate_keeps_quota:
  assumes a: "acc n (Some p) = Inr nv" and c: "find_chapter n x db = Some c" "c_original_text c \<noteq> None"
    and q: "rq p ''translated_chapters'' 1 qs = (Inr (), qs')" and t: "fst (tr n x db) = Inr None"
  shows "\<exists>m. fst (self_translate acc rq tr n x p (db, qs)) = Inl (Conflict m) \<and>
     snd (snd (self_translate acc rq tr n x p (db, qs))) = qs'"
proof -
  obtain db1 where tr: "tr n x db = (Inr None, db1)" using t by (cases "tr n x db") auto
  show ?thesis
    using a c q tr by (simp add: self_translate_def bindS_def on_reading_def on_quota_def guarded_def chapter_version_and_source_def)
qed

theorem self_translate_keeps_quota_witness:
  "snd (snd (self_translate demo_access (\<lambda>p k i q. (Inr (), q + i)) (\<lambda>n x db. (Inr None, db)) 3 2 demo_user_b (demo_reading2, 0::int))) = 1"
  using self_translate_keeps_quota [of demo_access 3 demo_user_b demo_novel 2 demo_reading2 "demo_chapter 2"
      "\<lambda>p k i q. (Inr (), q + i)" "0::int" 1 "\<lambda>n x db. (Inr None, db)"] demo_access_ok demo_find2
  by (simp add: demo_chapter_def)

end
