(* ===== verification/Translation_Glossary.thy ===== *)
theory Translation_Glossary
  imports Reading_Merge Work_Process "HOL-Library.Char_ord" "HOL-Library.List_Lexorder" "HOL-Library.Product_Lexorder"
begin

text \<open>
  The per-novel glossary: the table \<open>translation_glossary\<close>, the statements of
  \<open>modules/translation/adapters/outbound/postgres.py\<close>, the service of
  \<open>modules/translation/application/glossary.py\<close>, and the two text functions of
  \<open>modules/translation/adapters/outbound/runtime.py\<close> that put the glossary into a prompt and read a
  response back.
\<close>

section \<open>The table\<close>

record glossary_row =
  g_id :: int
  g_novel_id :: int
  g_source_term :: string
  g_translation :: string
  g_term_type :: "string option"
  g_notes :: "string option"
  g_locked :: bool

record glossary_db =
  glossary :: "glossary_row list"
  next_glossary_id :: int

definition glossary_key :: "glossary_row \<Rightarrow> int \<times> string" where
  "glossary_key g = (g_novel_id g, g_source_term g)"

definition find_term :: "int \<Rightarrow> string \<Rightarrow> glossary_db \<Rightarrow> glossary_row option" where
  "find_term nid src db = row_by glossary_key (nid, src) (glossary db)"

text \<open>\<open>INSERT ... ON CONFLICT (novel_id, source_term) DO NOTHING\<close>; the result is whether a row was written.
  A conflicting insert still takes a number from the sequence.\<close>

definition insert_term ::
  "int \<Rightarrow> string \<Rightarrow> string \<Rightarrow> string option \<Rightarrow> string option \<Rightarrow> (glossary_db, bool) op" where
  "insert_term nid src tr ty notes db =
     (case find_term nid src db of
        Some _ \<Rightarrow> (Inr False, db\<lparr>next_glossary_id := next_glossary_id db + 1\<rparr>)
      | None \<Rightarrow> (Inr True,
          db\<lparr>glossary := glossary db @ [\<lparr>g_id = next_glossary_id db, g_novel_id = nid, g_source_term = src,
               g_translation = tr, g_term_type = ty, g_notes = notes, g_locked = False\<rparr>],
             next_glossary_id := next_glossary_id db + 1\<rparr>))"

record glossary_term =
  gt_id :: int
  gt_source_term :: string
  gt_translation :: string
  gt_term_type :: "string option"
  gt_notes :: "string option"
  gt_locked :: bool

text \<open>
  \<open>ORDER BY locked DESC, term_type NULLS LAST, source_term\<close>: strings compare by code points, the C
  collation.
\<close>

definition glossary_order :: "glossary_row \<Rightarrow> bool \<times> (bool \<times> string) \<times> string" where
  "glossary_order g = (\<not> g_locked g, (g_term_type g = None, coalesce (g_term_type g) []), g_source_term g)"

definition list_glossary :: "int \<Rightarrow> glossary_db \<Rightarrow> glossary_term list" where
  "list_glossary nid db =
     map (\<lambda>g. \<lparr>gt_id = g_id g, gt_source_term = g_source_term g, gt_translation = g_translation g,
             gt_term_type = g_term_type g, gt_notes = g_notes g, gt_locked = g_locked g\<rparr>)
       (sort_key glossary_order (filter (\<lambda>g. g_novel_id g = nid) (glossary db)))"

definition upsert_glossary ::
  "int \<Rightarrow> string \<Rightarrow> string \<Rightarrow> string option \<Rightarrow> string option \<Rightarrow> bool \<Rightarrow> (glossary_db, int) op" where
  "upsert_glossary nid src tr ty notes locked db =
     (let s = py_strip src; t = py_strip tr in
      case find_term nid s db of
        None \<Rightarrow> (Inr (next_glossary_id db),
          db\<lparr>glossary := glossary db @ [\<lparr>g_id = next_glossary_id db, g_novel_id = nid, g_source_term = s,
               g_translation = t, g_term_type = ty, g_notes = notes, g_locked = locked\<rparr>],
             next_glossary_id := next_glossary_id db + 1\<rparr>)
      | Some g \<Rightarrow> (Inr (g_id g),
          db\<lparr>glossary := sql_update (\<lambda>r. glossary_key r = (nid, s))
               (\<lambda>r. r\<lparr>g_translation := t, g_term_type := ty, g_notes := notes, g_locked := locked\<rparr>) (glossary db),
             next_glossary_id := next_glossary_id db + 1\<rparr>))"

definition delete_glossary :: "int \<Rightarrow> int \<Rightarrow> glossary_db \<Rightarrow> glossary_db" where
  "delete_glossary nid tid db =
     db\<lparr>glossary := sql_delete (\<lambda>g. g_id g = tid \<and> g_novel_id g = nid) (glossary db)\<rparr>"

section \<open>Terms seeded from the codex\<close>

record established_term =
  et_canonical_name :: "string option"
  et_entity_type :: string

definition seed_type :: "string \<Rightarrow> string" where
  "seed_type e =
     (if e = ''character'' then ''name'' else if e = ''location'' then ''place'' else if e = ''faction'' then ''name''
      else if e = ''organization'' then ''name'' else if e = ''item'' then ''item'' else ''term'')"

fun seed_established_terms :: "int \<Rightarrow> established_term list \<Rightarrow> (glossary_db, int) op" where
  "seed_established_terms nid [] = returnS 0"
| "seed_established_terms nid (t # ts) =
     (let name = py_strip (coalesce (et_canonical_name t) []) in
      if name = [] then seed_established_terms nid ts
      else bindS (insert_term nid name name (Some (seed_type (et_entity_type t))) (Some ''seeded from codex'')) (\<lambda>new.
           bindS (seed_established_terms nid ts) (\<lambda>n. returnS (of_bool new + n))))"

section \<open>Terms discovered by a translator\<close>

text \<open>
  A discovered term is a decoded JSON object. \<open>strip\<close> on a value that is not a string raises, and so
  does binding such a value to the text column \<open>term_type\<close>; a missing key raises \<open>KeyError\<close>, which
  the parser below rules out.
\<close>

definition json_get :: "string \<Rightarrow> json \<Rightarrow> json option" where
  "json_get k v = (case v of JObj kvs \<Rightarrow> map_of kvs k | _ \<Rightarrow> None)"

definition strip_json :: "json option \<Rightarrow> string result" where
  "strip_json v = (case v of
       Some (JStr s) \<Rightarrow> Inr (py_strip s)
     | None \<Rightarrow> Inl (LookupError ''KeyError'')
     | Some _ \<Rightarrow> Inl (AttributeError ''object has no attribute strip''))"

definition text_or_none :: "json option \<Rightarrow> string option result" where
  "text_or_none v = (case v of
       None \<Rightarrow> Inr None
     | Some w \<Rightarrow> if \<not> json_truthy w then Inr None
                 else (case w of JStr s \<Rightarrow> Inr (Some s) | _ \<Rightarrow> Inl (DatabaseError ''expected str'')))"

fun insert_discovered_terms :: "int \<Rightarrow> json list \<Rightarrow> (glossary_db, int) op" where
  "insert_discovered_terms nid [] = returnS 0"
| "insert_discovered_terms nid (t # ts) =
     bindS (liftS (strip_json (json_get ''source_term'' t))) (\<lambda>src.
     bindS (liftS (strip_json (json_get ''translation'' t))) (\<lambda>tr.
     bindS (liftS (text_or_none (json_get ''term_type'' t))) (\<lambda>ty.
     bindS (insert_term nid src tr ty None) (\<lambda>new.
     bindS (insert_discovered_terms nid ts) (\<lambda>n. returnS (of_bool new + n))))))"

section \<open>The service\<close>

text \<open>The catalogue's access checks, as in the Reading module, guard every method; the established terms
  are what the codex lists for the novel.\<close>

definition service_seed ::
  "access_port \<Rightarrow> (int \<Rightarrow> established_term list) \<Rightarrow> int \<Rightarrow> principal \<Rightarrow> (glossary_db, int) op" where
  "service_seed editable established nid p =
     atomicS (guarded editable nid (Some p) (\<lambda>_. seed_established_terms nid (established nid)))"

definition service_list :: "access_port \<Rightarrow> int \<Rightarrow> principal \<Rightarrow> glossary_db \<Rightarrow> glossary_term list result" where
  "service_list readable nid p db = bindE (readable nid (Some p)) (\<lambda>_. Inr (list_glossary nid db))"

definition service_upsert ::
  "access_port \<Rightarrow> int \<Rightarrow> principal \<Rightarrow> string \<Rightarrow> string \<Rightarrow> string option \<Rightarrow> string option \<Rightarrow> bool \<Rightarrow> (glossary_db, int) op" where
  "service_upsert editable nid p src tr ty notes locked =
     atomicS (guarded editable nid (Some p) (\<lambda>_. upsert_glossary nid src tr ty notes locked))"

definition service_delete :: "access_port \<Rightarrow> int \<Rightarrow> int \<Rightarrow> principal \<Rightarrow> (glossary_db, unit) op" where
  "service_delete editable nid tid p =
     atomicS (guarded editable nid (Some p) (\<lambda>_ db. (Inr (), delete_glossary nid tid db)))"

section \<open>The glossary in a prompt\<close>

definition load_glossary :: "int \<Rightarrow> glossary_db \<Rightarrow> glossary_row list" where
  "load_glossary nid db = sort_key (\<lambda>g. (\<not> g_locked g, g_id g)) (filter (\<lambda>g. g_novel_id g = nid) (glossary db))"

definition ESTABLISHED_CAP :: nat where
  "ESTABLISHED_CAP = 120"

text \<open>The arrow and the dash of the prompt lines, as the bytes of their UTF-8 encoding.\<close>

definition ARROW :: string where
  "ARROW = [CHR 0xE2, CHR 0x86, CHR 0x92]"

definition EM_DASH :: string where
  "EM_DASH = [CHR 0xE2, CHR 0x80, CHR 0x94]"

definition NEWLINE :: string where
  "NEWLINE = [CHR 0x0A]"

definition type_tag :: "glossary_row \<Rightarrow> string" where
  "type_tag g = (case g_term_type g of None \<Rightarrow> [] | Some t \<Rightarrow> if t = [] then [] else '' ['' @ t @ '']'')"

fun split_glossary :: "glossary_row list \<Rightarrow> string list \<times> string list" where
  "split_glossary [] = ([], [])"
| "split_glossary (g # gs) =
     (let src = py_strip (g_source_term g); tr = py_strip (g_translation g); (c, e) = split_glossary gs
      in if tr = [] then (c, e)
         else if src \<noteq> [] \<and> src \<noteq> tr then ((''- '' @ src @ '' '' @ ARROW @ '' '' @ tr @ type_tag g) # c, e)
         else (c, (''- '' @ tr @ type_tag g) # e))"

definition format_glossary :: "glossary_row list \<Rightarrow> string \<times> string" where
  "format_glossary rows =
     (let (confirmed, established) = split_glossary rows
      in (if confirmed = [] then ''(none yet '' @ EM_DASH @ '' establish names as you go)'' else py_join NEWLINE confirmed,
          if established = [] then ''(none)'' else py_join NEWLINE (take ESTABLISHED_CAP established)))"

section \<open>Reading a response\<close>

text \<open>
  \<open>json.loads\<close> and \<open>json_repair.loads\<close> are the arguments \<open>loads\<close> and \<open>repair\<close>; \<open>None\<close> is a raise.
\<close>

definition TITLE_MARK :: string where "TITLE_MARK = ''===TITLE===''"
definition TRANSLATION_MARK :: string where "TRANSLATION_MARK = ''===TRANSLATION===''"
definition TERMS_MARK :: string where "TERMS_MARK = ''===TERMS===''"

definition clean_terms :: "json \<Rightarrow> json list" where
  "clean_terms v = (case v of
       JArr ts \<Rightarrow> filter (\<lambda>t. (case json_get ''source_term'' t of None \<Rightarrow> False | Some s \<Rightarrow> json_truthy s) \<and>
                          (case json_get ''translation'' t of None \<Rightarrow> False | Some s \<Rightarrow> json_truthy s)) ts
     | _ \<Rightarrow> [])"

definition parse_terms :: "(string \<Rightarrow> json option) \<Rightarrow> (string \<Rightarrow> json option) \<Rightarrow> string \<Rightarrow> json list" where
  "parse_terms loads repair raw =
     (let tr = py_strip (py_replace ''```'' [] (py_replace ''```json'' [] (py_strip raw)))
      in if tr = [] then []
         else clean_terms (case loads tr of Some v \<Rightarrow> v
                           | None \<Rightarrow> (case repair tr of Some v \<Rightarrow> v | None \<Rightarrow> JArr [])))"

definition split_title :: "string \<Rightarrow> string \<times> string" where
  "split_title text =
     (case split_once TITLE_MARK text of
        Some (_, rest) \<Rightarrow>
          (case split_once TRANSLATION_MARK rest of
             Some (t, body) \<Rightarrow> (py_strip t, body)
           | None \<Rightarrow> (py_strip rest, []))
      | None \<Rightarrow>
          (case split_once TRANSLATION_MARK text of
             Some (_, body) \<Rightarrow> ([], body)
           | None \<Rightarrow> ([], text)))"

definition parse_translated ::
  "(string \<Rightarrow> json option) \<Rightarrow> (string \<Rightarrow> json option) \<Rightarrow> string \<Rightarrow> string \<times> string \<times> json list"
where
  "parse_translated loads repair raw =
     (case split_title raw of
        (ttl, body) \<Rightarrow>
          (case split_once TERMS_MARK body of
             None \<Rightarrow> (ttl, py_strip body, parse_terms loads repair [])
           | Some (b, tail) \<Rightarrow> (ttl, py_strip b, parse_terms loads repair tail)))"

section \<open>Framed responses\<close>

lemma split_once_first:
  assumes "sep \<noteq> []" "\<not> py_in sep (a @ butlast sep)"
  shows "split_once sep (a @ sep @ b) = Some (a, b)"
  using assms(2)
proof (induction a)
  case Nil
  from assms(1) obtain s ss where "sep = s # ss" by (cases sep) auto
  then show ?case by simp
next
  case (Cons c cs)
  have no: "take (length sep) (c # cs @ butlast sep) \<noteq> sep" "\<not> py_in sep (cs @ butlast sep)"
    using Cons.prems by (auto simp: py_in_def split: if_splits)
  have "c # cs @ sep @ b = (c # cs @ butlast sep) @ last sep # b"
    using append_butlast_last_id [OF assms(1)] by (metis append.assoc append_Cons append_Nil)
  moreover have "length sep \<le> length (c # cs @ butlast sep)" using assms(1) by simp
  ultimately have "take (length sep) (c # cs @ sep @ b) = take (length sep) (c # cs @ butlast sep)"
    by (metis append_Nil2 diff_is_0_eq take0 take_append)
  with no Cons.IH show ?case by simp
qed

lemmas marks = TITLE_MARK_def TRANSLATION_MARK_def TERMS_MARK_def

lemma mark_not_empty: "TITLE_MARK \<noteq> []" "TRANSLATION_MARK \<noteq> []" "TERMS_MARK \<noteq> []"
  by (simp_all add: marks)

text \<open>The frame the prompt asks for.\<close>

definition framed :: "string \<Rightarrow> string \<Rightarrow> string \<Rightarrow> string \<Rightarrow> string" where
  "framed pre ttl body trms = pre @ TITLE_MARK @ ttl @ TRANSLATION_MARK @ body @ TERMS_MARK @ trms"

text \<open>reading back a framed response. Whatever a model writes before the frame, if no part contains the
  marker that ends it, the parser returns exactly the stripped title, the stripped translation and the
  terms of the last block; and every term it returns, from any response, is an object with a
  non-empty source term and translation.
\<close>

lemma parse_framed:
  "(\<not> py_in TITLE_MARK (pre @ butlast TITLE_MARK) \<and> \<not> py_in TRANSLATION_MARK (ttl @ butlast TRANSLATION_MARK) \<and>
    \<not> py_in TERMS_MARK (body @ butlast TERMS_MARK) \<longrightarrow>
      parse_translated loads repair (framed pre ttl body trms) = (py_strip ttl, py_strip body, parse_terms loads repair trms)) \<and>
   (\<forall>raw a b ts. parse_translated loads repair raw = (a, b, ts) \<longrightarrow>
      list_all (\<lambda>t. \<exists>s v. json_get ''source_term'' t = Some s \<and> json_truthy s \<and>
                          json_get ''translation'' t = Some v \<and> json_truthy v) ts)"
proof (intro conjI impI allI)
  assume h: "\<not> py_in TITLE_MARK (pre @ butlast TITLE_MARK) \<and> \<not> py_in TRANSLATION_MARK (ttl @ butlast TRANSLATION_MARK) \<and>
    \<not> py_in TERMS_MARK (body @ butlast TERMS_MARK)"
  have "split_title (framed pre ttl body trms) = (py_strip ttl, body @ TERMS_MARK @ trms)"
    using h by (simp add: split_title_def framed_def split_once_first mark_not_empty)
  then show "parse_translated loads repair (framed pre ttl body trms) =
      (py_strip ttl, py_strip body, parse_terms loads repair trms)"
    using h by (simp add: parse_translated_def split_once_first mark_not_empty)
next
  fix raw a b ts
  assume "parse_translated loads repair raw = (a, b, ts)"
  then obtain tl where "ts = parse_terms loads repair tl"
    by (auto simp: parse_translated_def split: prod.splits option.splits)
  moreover have "list_all (\<lambda>t. \<exists>s v. json_get ''source_term'' t = Some s \<and> json_truthy s \<and>
      json_get ''translation'' t = Some v \<and> json_truthy v) (clean_terms v)" for v
    by (cases v) (auto simp: clean_terms_def list_all_iff split: option.splits)
  ultimately show "list_all (\<lambda>t. \<exists>s v. json_get ''source_term'' t = Some s \<and> json_truthy s \<and>
      json_get ''translation'' t = Some v \<and> json_truthy v) ts"
    by (simp add: parse_terms_def Let_def)
qed

lemma parse_framed_witness:
  "parse_translated (\<lambda>_. Some (JArr [])) (\<lambda>_. None) (framed ''ok '' '' Dawn '' '' It rose. '' ''[]'') = (''Dawn'', ''It rose.'', [])"
proof -
  have "\<not> py_in TITLE_MARK (''ok '' @ butlast TITLE_MARK) \<and> \<not> py_in TRANSLATION_MARK ('' Dawn '' @ butlast TRANSLATION_MARK) \<and>
    \<not> py_in TERMS_MARK ('' It rose. '' @ butlast TERMS_MARK)" by code_simp
  moreover have "py_strip '' Dawn '' = ''Dawn''" "py_strip '' It rose. '' = ''It rose.''"
    "parse_terms (\<lambda>_. Some (JArr [])) (\<lambda>_. None) ''[]'' = []" by code_simp+
  ultimately show ?thesis
    using parse_framed [of "''ok ''" "'' Dawn ''" "'' It rose. ''" "\<lambda>_. Some (JArr [])" "\<lambda>_. None" "''[]''", THEN conjunct1] by simp
qed

section \<open>The first spelling wins\<close>

lemma find_term_insert_term:
  "find_term m s (snd (insert_term nid src tr ty notes db)) =
    (case find_term m s db of Some g \<Rightarrow> Some g
     | None \<Rightarrow> if (m, s) = (nid, src)
               then Some \<lparr>g_id = next_glossary_id db, g_novel_id = nid, g_source_term = src, g_translation = tr,
                          g_term_type = ty, g_notes = notes, g_locked = False\<rparr>
               else None)"
  by (auto simp: insert_term_def find_term_def row_by_append glossary_key_def split: option.splits)

lemma insert_term_result:
  "insert_term nid src tr ty notes db = (Inr (find_term nid src db = None), snd (insert_term nid src tr ty notes db))"
  by (simp add: insert_term_def split: option.splits)

lemma length_insert_term:
  "length (glossary (snd (insert_term nid src tr ty notes db))) = length (glossary db) + of_bool (find_term nid src db = None)"
  by (simp add: insert_term_def split: option.splits)

definition has_term :: "int \<Rightarrow> string \<Rightarrow> glossary_row \<Rightarrow> glossary_db \<Rightarrow> bool" where
  "has_term nid s g db = (find_term nid s db = Some g)"

lemma keeps_has_term_insert [keeps_rules]: "keeps (has_term m s g) (insert_term nid src tr ty notes)"
  by (simp add: keeps_def has_term_def find_term_insert_term)

lemma keeps_has_term_discovered: "keeps (has_term m s g) (insert_discovered_terms nid ts)"
  by (induction ts) (auto intro!: keeps_rules)

lemma keeps_has_term_seed: "keeps (has_term m s g) (seed_established_terms nid ts)"
  by (induction ts) (auto simp: Let_def intro!: keeps_rules)

lemma discovered_recorded:
  "insert_discovered_terms nid ts db = (Inr n, db') \<Longrightarrow>
   int (length (glossary db')) = int (length (glossary db)) + n \<and>
   (\<forall>t \<in> set ts. \<exists>src. strip_json (json_get ''source_term'' t) = Inr src \<and> find_term nid src db' \<noteq> None)"
proof (induction ts arbitrary: db n)
  case Nil
  then show ?case by simp
next
  case (Cons t ts)
  from Cons.prems obtain src tr ty where v: "strip_json (json_get ''source_term'' t) = Inr src"
      "strip_json (json_get ''translation'' t) = Inr tr" "text_or_none (json_get ''term_type'' t) = Inr ty"
    by (auto simp: bindS_def split: sum.splits prod.splits)
  let ?db1 = "snd (insert_term nid src tr ty None db)"
  obtain n1 where r: "insert_discovered_terms nid ts ?db1 = (Inr n1, db')" "n = of_bool (find_term nid src db = None) + n1"
    using Cons.prems v insert_term_result [of nid src tr ty None db]
    by (auto simp: bindS_def split: sum.splits prod.splits)
  have "find_term nid src ?db1 \<noteq> None" by (simp add: find_term_insert_term split: option.splits)
  then obtain g where "has_term nid src g ?db1" by (auto simp: has_term_def)
  then have "has_term nid src g db'"
    using keepsD [OF keeps_has_term_discovered, of nid src g ?db1 nid ts] r(1) by simp
  with Cons.IH [OF r(1)] r(2) v(1) show ?case
    by (auto simp: length_insert_term has_term_def)
qed

text \<open>the first established spelling wins. Neither a translator's discovered terms nor a codex seed ever
  changes a glossary row that exists, whether the operation returns or raises; a batch that returns has
  a row for every reported source term, and the number it returns is the number of rows it added.
\<close>

lemma first_spelling_wins:
  "(find_term m s db = Some g \<longrightarrow>
      find_term m s (snd (insert_discovered_terms nid ts db)) = Some g \<and>
      find_term m s (snd (seed_established_terms nid es db)) = Some g) \<and>
   (\<forall>n db'. insert_discovered_terms nid ts db = (Inr n, db') \<longrightarrow>
      int (length (glossary db')) = int (length (glossary db)) + n \<and>
      (\<forall>t \<in> set ts. \<exists>src. strip_json (json_get ''source_term'' t) = Inr src \<and> find_term nid src db' \<noteq> None))"
  using keepsD [OF keeps_has_term_discovered, of m s g db nid ts] keepsD [OF keeps_has_term_seed, of m s g db nid es]
    discovered_recorded by (auto simp: has_term_def)

definition demo_glossary :: glossary_db where
  "demo_glossary = \<lparr>glossary = [\<lparr>g_id = 1, g_novel_id = 3, g_source_term = ''linxuan'', g_translation = ''Lin Xuan'',
     g_term_type = Some ''name'', g_notes = None, g_locked = False\<rparr>], next_glossary_id = 2\<rparr>"

lemma first_spelling_wins_witness:
  "map_option g_translation (find_term 3 ''linxuan'' (snd (insert_discovered_terms 3
     [JObj [(''source_term'', JStr ''linxuan''), (''translation'', JStr ''Lin Xan'')]] demo_glossary))) = Some ''Lin Xuan''"
proof -
  obtain g where g: "find_term 3 ''linxuan'' demo_glossary = Some g" "g_translation g = ''Lin Xuan''"
    by (simp add: demo_glossary_def find_term_def glossary_key_def)
  with first_spelling_wins [THEN conjunct1, THEN mp, OF g(1)] show ?thesis by (simp del: insert_discovered_terms.simps)
qed

end
