(* ===== verification/Translation_Flow.thy ===== *)
theory Translation_Flow
  imports Translation_Glossary
begin

text \<open>
  Translating chapters: \<open>workflows/commit_translation.py\<close> and the use cases of
  \<open>modules/translation/adapters/outbound/runtime.py\<close>, over the three stores they touch. The completion
  port is an operation over the whole site, so that whatever other requests and workers do while the
  provider answers is part of its effect. The per-chapter lock of the process is not modelled: it
  excludes other calls of \<open>translate_chapter\<close> in the same process, which the port may not perform
  then; the theorems hold for any effect of the port that leaves the quota of the user alone.
\<close>

section \<open>The site\<close>

record site =
  s_reading :: reading_db
  s_glossary :: glossary_db
  s_work :: work_db

definition in_reading :: "(reading_db, 'a) op \<Rightarrow> (site, 'a) op" where
  "in_reading m s = (case m (s_reading s) of (r, x) \<Rightarrow> (r, s\<lparr>s_reading := x\<rparr>))"

definition in_glossary :: "(glossary_db, 'a) op \<Rightarrow> (site, 'a) op" where
  "in_glossary m s = (case m (s_glossary s) of (r, x) \<Rightarrow> (r, s\<lparr>s_glossary := x\<rparr>))"

definition in_work :: "(work_db, 'a) op \<Rightarrow> (site, 'a) op" where
  "in_work m s = (case m (s_work s) of (r, x) \<Rightarrow> (r, s\<lparr>s_work := x\<rparr>))"

definition in_quota :: "(quota_table \<Rightarrow> (quota_table \<times> 'a) result) \<Rightarrow> (site, 'a) op" where
  "in_quota f s = (case f (quota (s_work s)) of
       Inl e \<Rightarrow> (Inl e, s)
     | Inr (q, x) \<Rightarrow> (Inr x, s\<lparr>s_work := (s_work s)\<lparr>quota := q\<rparr>\<rparr>))"

section \<open>The commit workflow\<close>

record translation_outcome =
  to_status :: string
  to_content :: "string option"
  to_idempotent :: bool
  to_new_terms :: "int option"

definition workflow_commit ::
  "(string \<Rightarrow> string) \<Rightarrow> clock \<Rightarrow> int \<Rightarrow> rat \<Rightarrow> string \<Rightarrow> int \<Rightarrow> string option \<Rightarrow> string \<Rightarrow> json list \<Rightarrow> string \<Rightarrow>
   string option \<Rightarrow> int option \<Rightarrow> (site, translation_outcome) op" where
  "workflow_commit digest clk nid num sha ver ttl txt terms model run jid =
     atomicS (bindS (in_reading (reading_commit digest nid num sha ver ttl txt model run)) (\<lambda>res.
       if cr_idempotent res
       then returnS \<lparr>to_status = cr_status res, to_content = cr_content res, to_idempotent = True, to_new_terms = None\<rparr>
       else bindS (in_glossary (insert_discovered_terms nid terms)) (\<lambda>_.
            bindS (case jid of None \<Rightarrow> returnS () | Some j \<Rightarrow> in_work (increment_quota_consumed clk j 1)) (\<lambda>_.
            returnS \<lparr>to_status = cr_status res, to_content = cr_content res, to_idempotent = False,
                     to_new_terms = Some (int (length terms))\<rparr>))))"

text \<open>\<open>commit_translation\<close> of the runtime: refuses an empty text and renames the errors of a chapter that
  changed (their messages start with \<open>chapter \<close>).\<close>

definition source_changed :: "py_error \<Rightarrow> py_error" where
  "source_changed e = (case e of
       RuntimeError m \<Rightarrow> if take 8 m = ''chapter '' then SourceChangedError m else e
     | _ \<Rightarrow> e)"

definition commit_translation ::
  "(string \<Rightarrow> string) \<Rightarrow> clock \<Rightarrow> int \<Rightarrow> rat \<Rightarrow> string \<Rightarrow> int \<Rightarrow> string option \<Rightarrow> string \<Rightarrow> json list \<Rightarrow> string \<Rightarrow>
   string option \<Rightarrow> int option \<Rightarrow> (site, translation_outcome) op" where
  "commit_translation digest clk nid num sha ver ttl txt terms model run jid =
     (if py_strip txt = [] then raiseS (ValueError ''translation must not be empty'')
      else catchS (workflow_commit digest clk nid num sha ver ttl txt terms model run jid)
             (\<lambda>e. raiseS (source_changed e)))"

section \<open>Translating one chapter\<close>

record translate_prompt =
  tp_language :: string
  tp_confirmed :: string
  tp_established :: string
  tp_number :: rat
  tp_title :: string
  tp_text :: string

text \<open>What the process is configured with: the model's name, the input limit, the decoders of JSON.\<close>

record translation_config =
  tc_model :: string
  tc_max_input_chars :: nat
  tc_loads :: "string \<Rightarrow> json option"
  tc_repair :: "string \<Rightarrow> json option"
  tc_digest :: "string \<Rightarrow> string"
  tc_prefetch :: int

type_synonym completion = "translate_prompt \<Rightarrow> (site, string) op"

definition prompt_for :: "translation_config \<Rightarrow> int \<Rightarrow> rat \<Rightarrow> chapter_row \<Rightarrow> glossary_db \<Rightarrow> translate_prompt" where
  "prompt_for cfg nid num c gdb =
     (let (confirmed, established) = format_glossary (load_glossary nid gdb)
      in \<lparr>tp_language = (if blank (c_language c) then ''the source language'' else coalesce (c_language c) []),
          tp_confirmed = confirmed, tp_established = established, tp_number = num,
          tp_title = (if blank (c_title c) then [] else '': '' @ coalesce (c_title c) []),
          tp_text = take (tc_max_input_chars cfg) (coalesce (c_original_text c) [])\<rparr>)"

definition status_result :: "string \<Rightarrow> string option \<Rightarrow> translation_outcome" where
  "status_result st content = \<lparr>to_status = st, to_content = content, to_idempotent = False, to_new_terms = None\<rparr>"

definition in_reading_unit :: "(reading_db \<Rightarrow> reading_db) \<Rightarrow> (site, unit) op" where
  "in_reading_unit f s = (Inr (), s\<lparr>s_reading := f (s_reading s)\<rparr>)"

text \<open>\<open>quota.refund(charged_user_id, 1)\<close> when somebody was charged.\<close>

definition refund_charged :: "clock \<Rightarrow> principal option \<Rightarrow> (site, unit) op" where
  "refund_charged clk meter =
     (case meter of
        None \<Rightarrow> returnS ()
      | Some u \<Rightarrow> bindS (in_quota (\<lambda>q. refund q (today clk) (Some (user_id u)) ''translated_chapters'' 1)) (\<lambda>_. returnS ()))"

definition reserve_metered :: "clock \<Rightarrow> principal option \<Rightarrow> (site, bool) op" where
  "reserve_metered clk meter =
     (case meter of
        None \<Rightarrow> returnS True
      | Some u \<Rightarrow> in_quota (\<lambda>q. reserve q (today clk) u ''translated_chapters'' 1))"

text \<open>The call of the model and the parse: an error, or an empty translation, is a raise.\<close>

definition ask_model :: "translation_config \<Rightarrow> completion \<Rightarrow> translate_prompt \<Rightarrow> (site, string \<times> string \<times> json list) op" where
  "ask_model cfg ai prompt =
     bindS (ai prompt) (\<lambda>raw.
       let parsed = parse_translated (tc_loads cfg) (tc_repair cfg) raw
       in if fst (snd parsed) = [] then raiseS (ValueError ''empty translation returned'') else returnS parsed)"

definition finish_translation ::
  "translation_config \<Rightarrow> completion \<Rightarrow> clock \<Rightarrow> int \<Rightarrow> rat \<Rightarrow> chapter_row \<Rightarrow> principal option \<Rightarrow> translate_prompt \<Rightarrow>
   (site, translation_outcome) op" where
  "finish_translation cfg ai clk nid num c meter prompt s =
     (case ask_model cfg ai prompt s of
        (Inl _, s1) \<Rightarrow>
          bindS (in_reading_unit (mark_translation_failed nid num False)) (\<lambda>_.
          bindS (refund_charged clk meter) (\<lambda>_. returnS (status_result ''failed'' None))) s1
      | (Inr (ttl, txt, terms), s1) \<Rightarrow>
          catchS (commit_translation (tc_digest cfg) clk nid num (tc_digest cfg (coalesce (c_original_text c) []))
              (or_one (c_content_version c)) (Some ttl) txt terms (tc_model cfg) None None)
            (\<lambda>_. bindS (in_reading_unit (mark_translation_failed nid num True)) (\<lambda>_.
                 bindS (refund_charged clk meter) (\<lambda>_. returnS (status_result ''failed'' None)))) s1)"

text \<open>One clock for the whole call: the reservation, the stamps of the commit and the refund.\<close>

definition translate_chapter ::
  "translation_config \<Rightarrow> completion \<Rightarrow> clock \<Rightarrow> int \<Rightarrow> rat \<Rightarrow> bool \<Rightarrow> principal option \<Rightarrow> (site, translation_outcome) op" where
  "translate_chapter cfg ai clk nid num force meter s =
     (case find_chapter nid num (s_reading s) of
        None \<Rightarrow> (Inr (status_result ''missing'' None), s)
      | Some c \<Rightarrow>
          (if \<not> blank (c_content c) \<and> \<not> force then (Inr (status_result ''done'' (c_content c)), s)
           else if blank (c_original_text c)
           then (Inr (status_result (if c_translation_status c = [] then ''none'' else c_translation_status c) (c_content c)), s)
           else if c_translation_status c = ''translating'' \<or> c_run_id c \<noteq> None
           then (Inr (status_result ''translating'' (c_content c)), s)
           else bindS (reserve_metered clk meter) (\<lambda>granted.
                  if \<not> granted then returnS (status_result ''quota_exceeded'' (c_content c))
                  else (\<lambda>s1.
                    let prompt = prompt_for cfg nid num c (s_glossary s1)
                    in bindS (in_reading_unit (mark_translation_started nid num (tc_digest cfg (coalesce (c_original_text c) []))))
                         (\<lambda>_. finish_translation cfg ai clk nid num c meter prompt) s1)) s))"

definition translate_raw_text ::
  "translation_config \<Rightarrow> completion \<Rightarrow> int \<Rightarrow> rat \<Rightarrow> (site, string option) op" where
  "translate_raw_text cfg ai nid num s =
     (case find_chapter nid num (s_reading s) of
        None \<Rightarrow> (Inr None, s)
      | Some c \<Rightarrow>
          (if blank (c_original_text c) then (Inr None, s)
           else bindS (ai (prompt_for cfg nid num c (s_glossary s))) (\<lambda>raw.
             let txt = fst (snd (parse_translated (tc_loads cfg) (tc_repair cfg) raw))
             in returnS (if txt = [] then None else Some txt)) s))"

section \<open>Ranges\<close>

text \<open>A background task logs an exception and goes on with the next chapter.\<close>

fun prefetch_each ::
  "translation_config \<Rightarrow> completion \<Rightarrow> clock \<Rightarrow> int \<Rightarrow> principal option \<Rightarrow> rat list \<Rightarrow> (site, unit) op" where
  "prefetch_each cfg ai clk nid meter [] s = (Inr (), s)"
| "prefetch_each cfg ai clk nid meter (num # nums) s =
     (case translate_chapter cfg ai clk nid num False meter s of
        (Inl _, s1) \<Rightarrow> prefetch_each cfg ai clk nid meter nums s1
      | (Inr r, s1) \<Rightarrow> if to_status r = ''quota_exceeded'' then (Inr (), s1)
                      else prefetch_each cfg ai clk nid meter nums s1)"

definition prefetch_translations ::
  "translation_config \<Rightarrow> completion \<Rightarrow> clock \<Rightarrow> int \<Rightarrow> rat \<Rightarrow> int option \<Rightarrow> principal option \<Rightarrow> (site, unit) op" where
  "prefetch_translations cfg ai clk nid after cnt meter s =
     (let n = coalesce cnt (tc_prefetch cfg)
      in if n \<le> 0 then (Inr (), s)
         else prefetch_each cfg ai clk nid meter (pending_after nid after (nat n) (s_reading s)) s)"

fun translate_each ::
  "translation_config \<Rightarrow> completion \<Rightarrow> clock \<Rightarrow> int \<Rightarrow> bool \<Rightarrow> principal option \<Rightarrow> rat list \<Rightarrow> (site, int) op" where
  "translate_each cfg ai clk nid force meter [] = returnS 0"
| "translate_each cfg ai clk nid force meter (num # nums) =
     bindS (translate_chapter cfg ai clk nid num force meter) (\<lambda>r.
       if to_status r = ''quota_exceeded'' then returnS 0
       else bindS (translate_each cfg ai clk nid force meter nums) (\<lambda>n.
              returnS (of_bool (to_status r = ''done'') + n)))"

definition translate_range ::
  "translation_config \<Rightarrow> completion \<Rightarrow> clock \<Rightarrow> int \<Rightarrow> rat option \<Rightarrow> rat option \<Rightarrow> bool \<Rightarrow> principal option \<Rightarrow> (site, int) op" where
  "translate_range cfg ai clk nid lo hi force meter s =
     translate_each cfg ai clk nid force meter (translation_range nid lo hi force (s_reading s)) s"

section \<open>A commit is all or nothing\<close>

lemma find_chapter_flag [simp]: "find_chapter n x (flag_conflicts a b v k db) = find_chapter n x db"
  by (simp add: find_chapter_def flag_conflicts_def)

lemma reading_commit_Inr:
  assumes "reading_commit dig n x sha ver ttl txt md run db = (Inr res, db')"
  shows "(cr_idempotent res \<and> db' = db) \<or>
    (\<not> cr_idempotent res \<and> (\<exists>c. find_chapter n x db = Some c \<and>
       db' = flag_conflicts n x (c_content_version c + 1) None (update_chapter n x (committed (clean_title ttl) txt md run sha) db)))"
  using assms by (auto simp: reading_commit_def split: option.splits if_splits)

lemma reading_commit_Inl: "reading_commit dig n x sha ver ttl txt md run db = (Inl e, db') \<Longrightarrow> db' = db"
  by (auto simp: reading_commit_def split: option.splits if_splits)

lemma committed_key: "chapter_key (committed ttl txt md run sha c) = chapter_key c"
  by (simp add: chapter_key_def committed_def)

text \<open>What a successful, not idempotent commit changes.\<close>

definition commit_effect ::
  "int \<Rightarrow> rat \<Rightarrow> string \<Rightarrow> string option \<Rightarrow> string \<Rightarrow> json list \<Rightarrow> string \<Rightarrow> string option \<Rightarrow> int option \<Rightarrow> site \<Rightarrow> site \<Rightarrow> bool" where
  "commit_effect nid num sha ttl txt terms model run jid s s' \<longleftrightarrow>
     (\<exists>c. find_chapter nid num (s_reading s) = Some c \<and>
        find_chapter nid num (s_reading s') = Some (committed (clean_title ttl) txt model run sha c)) \<and>
     (\<forall>m y. (m, y) \<noteq> (nid, num) \<longrightarrow> find_chapter m y (s_reading s') = find_chapter m y (s_reading s)) \<and>
     (\<forall>t \<in> set terms. \<exists>src. strip_json (json_get ''source_term'' t) = Inr src \<and> find_term nid src (s_glossary s') \<noteq> None) \<and>
     (\<forall>m src g. find_term m src (s_glossary s) = Some g \<longrightarrow> find_term m src (s_glossary s') = Some g) \<and>
     (case jid of
        None \<Rightarrow> s_work s' = s_work s
      | Some j \<Rightarrow> (\<exists>r r'. get_job j (s_work s) = Some r \<and> get_job j (s_work s') = Some r' \<and>
          j_quota_consumed r' = j_quota_consumed r + 1 \<and> j_quota_consumed r' \<le> j_quota_reserved r \<and>
          \<not> j_quota_finalized r) \<and> quota (s_work s') = quota (s_work s))"

lemma increment_Inr:
  assumes "increment_quota_consumed clk j 1 w = (Inr u, w')"
  shows "(\<exists>r r'. get_job j w = Some r \<and> get_job j w' = Some r' \<and> j_quota_consumed r' = j_quota_consumed r + 1 \<and>
     j_quota_consumed r' \<le> j_quota_reserved r \<and> \<not> j_quota_finalized r) \<and> quota w' = quota w"
proof -
  let ?p = "\<lambda>j. \<not> j_quota_finalized j \<and> j_quota_consumed j + 1 \<le> j_quota_reserved j"
  let ?f = "\<lambda>j. j\<lparr>j_quota_consumed := j_quota_consumed j + 1, j_updated_at := now clk\<rparr>"
  have w': "w' = snd (update_where j ?p ?f w)" and g: "\<exists>r. get_job j w = Some r \<and> ?p r"
    using assms by (auto simp: increment_quota_consumed_def bindS_def update_where_def split: option.splits if_splits)
  from g obtain r where r: "get_job j w = Some r" "?p r" by blast
  have "get_job j w' = Some (?f r)"
    unfolding w' by (subst get_job_update_where) (use r in auto)
  with r show ?thesis unfolding w' by auto
qed

text \<open>
  C9: a translation commit is atomic over three modules. It either raises and leaves the chapters, the
  glossary and the job exactly as they were, or is the idempotent repeat that changes nothing, or does
  all of it: the chapter holds the committed text and no other chapter changes, every reported term has
  a glossary row while existing rows stay, and the job, when there is one, has consumed exactly one
  more unit, within its reservation.
\<close>

theorem commit_atomic:
  "case workflow_commit dig clk nid num sha ver ttl txt terms model run jid s of
     (Inl e, s') \<Rightarrow> s' = s
   | (Inr r, s') \<Rightarrow> if to_idempotent r then s' = s else commit_effect nid num sha ttl txt terms model run jid s s'"
proof (cases "workflow_commit dig clk nid num sha ver ttl txt terms model run jid s")
  case (Pair res s')
  show ?thesis
  proof (cases res)
    case (Inl e)
    with Pair show ?thesis by (auto simp: workflow_commit_def atomicS_def split: prod.splits sum.splits)
  next
    case (Inr r)
    with Pair obtain cr rdb where rc: "reading_commit dig nid num sha ver ttl txt model run (s_reading s) = (Inr cr, rdb)"
      by (auto simp: workflow_commit_def atomicS_def bindS_def in_reading_def split: prod.splits sum.splits)
    show ?thesis
    proof (cases "cr_idempotent cr")
      case True
      then have "rdb = s_reading s" using reading_commit_Inr [OF rc] by simp
      with Pair Inr rc True show ?thesis
        by (auto simp: workflow_commit_def atomicS_def bindS_def in_reading_def)
    next
      case False
      then obtain c where c: "find_chapter nid num (s_reading s) = Some c"
        and rdb: "rdb = flag_conflicts nid num (c_content_version c + 1) None
            (update_chapter nid num (committed (clean_title ttl) txt model run sha) (s_reading s))"
        using reading_commit_Inr [OF rc] by blast
      from Pair Inr rc False obtain n gdb wdb where g: "insert_discovered_terms nid terms (s_glossary s) = (Inr n, gdb)"
        and w: "(case jid of None \<Rightarrow> wdb = s_work s | Some j \<Rightarrow> increment_quota_consumed clk j 1 (s_work s) = (Inr (), wdb))"
        and s': "s' = s\<lparr>s_reading := rdb, s_glossary := gdb, s_work := wdb\<rparr>" and ni: "\<not> to_idempotent r"
        by (auto simp: workflow_commit_def atomicS_def bindS_def in_reading_def in_glossary_def in_work_def
            split: prod.splits sum.splits option.splits)
      have fc: "find_chapter m y rdb = (if (m, y) = (nid, num)
          then map_option (committed (clean_title ttl) txt model run sha) (find_chapter m y (s_reading s))
          else find_chapter m y (s_reading s))" for m y
        unfolding rdb using find_chapter_update [of "committed (clean_title ttl) txt model run sha" m y nid num "s_reading s"]
        by (auto simp: committed_key)
      have gl: "\<forall>t \<in> set terms. \<exists>src. strip_json (json_get ''source_term'' t) = Inr src \<and> find_term nid src gdb \<noteq> None"
        using discovered_recorded [OF g] by blast
      have old: "find_term m src gdb = Some g0" if "find_term m src (s_glossary s) = Some g0" for m src g0
        using keepsD [OF keeps_has_term_discovered, of m src g0 "s_glossary s" nid terms] g that by (simp add: has_term_def)
      have "commit_effect nid num sha ttl txt terms model run jid s s'"
        unfolding commit_effect_def s'
        using fc c gl old w by (auto dest: increment_Inr split: option.splits)
      with Pair Inr ni show ?thesis by simp
    qed
  qed
qed

section \<open>A translation costs one unit or nothing\<close>

abbreviation monthly_used :: "clock \<Rightarrow> int \<Rightarrow> string \<Rightarrow> site \<Rightarrow> int" where
  "monthly_used clk u k s \<equiv> used (quota (s_work s)) u (current_period (today clk)) k"

text \<open>What is assumed of the completion port: what happens meanwhile leaves this counter alone.\<close>

definition leaves_usage :: "clock \<Rightarrow> int \<Rightarrow> completion \<Rightarrow> bool" where
  "leaves_usage clk u ai \<longleftrightarrow>
     (\<forall>pr s. monthly_used clk u ''translated_chapters'' (snd (ai pr s)) = monthly_used clk u ''translated_chapters'' s)"

text \<open>A result that came from a commit, not from an early exit, carries the number of new terms.\<close>

definition newly_translated :: "translation_outcome result \<Rightarrow> bool" where
  "newly_translated r = (case r of Inr t \<Rightarrow> to_new_terms t \<noteq> None | Inl _ \<Rightarrow> False)"

lemma tc_kind [simp]: "''translated_chapters'' \<in> set QUOTA_KINDS"
  by (simp add: QUOTA_KINDS_def)

lemma in_reading_unit_work [simp]: "s_work (snd (in_reading_unit f s)) = s_work s"
  by (simp add: in_reading_unit_def)

lemma workflow_commit_api:
  "s_work (snd (workflow_commit dig clk nid num sha ver ttl txt terms model run None s)) = s_work s"
proof -
  have "case workflow_commit dig clk nid num sha ver ttl txt terms model run None s of
     (Inl e, s') \<Rightarrow> s' = s
   | (Inr r, s') \<Rightarrow> if to_idempotent r then s' = s else commit_effect nid num sha ttl txt terms model run None s s'"
    by (rule commit_atomic)
  then show ?thesis by (auto simp: commit_effect_def split: prod.splits sum.splits if_splits)
qed

lemma commit_translation_work:
  "s_work (snd (commit_translation dig clk nid num sha ver ttl txt terms model run None s)) = s_work s"
  using workflow_commit_api [of dig clk nid num sha ver ttl "txt" terms model run s]
  by (auto simp: commit_translation_def catchS_def split: prod.splits sum.splits)

lemma commit_translation_new:
  assumes "commit_translation dig clk nid num sha ver ttl txt terms model None jid s = (Inr r, s')"
  shows "to_new_terms r \<noteq> None"
proof -
  have ni: "\<not> cr_idempotent res" if "reading_commit dig nid num sha ver ttl txt model None db = (Inr res, db')" for res db db'
    using that by (auto simp: reading_commit_def split: option.splits if_splits)
  have "workflow_commit dig clk nid num sha ver ttl txt terms model None jid s = (Inr r, s')"
    using assms by (auto simp: commit_translation_def catchS_def split: prod.splits sum.splits if_splits)
  then show ?thesis
    using ni by (fastforce simp: workflow_commit_def atomicS_def bindS_def in_reading_def split: prod.splits sum.splits)
qed

lemma reserve_count_one:
  assumes r: "reserve t d p kind 1 = Inr (t', ok)"
  shows "used t' (user_id p) (current_period d) kind = used t (user_id p) (current_period d) kind + of_bool ok"
proof -
  have k: "kind \<in> set QUOTA_KINDS" by (rule reserve_kind [OF r])
  from reserve_cases [OF r] consider "t' = t" "\<not> ok" | "ok" "bump t (user_id p) (current_period d) kind 1 = Inr t'"
    | l where "try_reserve t (user_id p) (current_period d) kind 1 l = Inr (t', ok)" by auto
  then show ?thesis
  proof cases
    case 2
    then show ?thesis using used_bump [OF 2(2) k] by simp
  next
    case 3
    then show ?thesis using pgq.reserve_count [OF k k 3, of "user_id p" "current_period d"] by simp
  qed simp
qed

lemma refund_charged_effect:
  assumes "0 < monthly_used clk (user_id u) ''translated_chapters'' s"
  shows "\<exists>s'. refund_charged clk (Some u) s = (Inr (), s') \<and>
    monthly_used clk (user_id u) ''translated_chapters'' s' = monthly_used clk (user_id u) ''translated_chapters'' s - 1"
proof -
  obtain q g where r: "pg_refund (quota (s_work s)) (user_id u) (current_period (today clk)) ''translated_chapters'' 1 = Inr (q, g)"
    using pgq.give_total [OF tc_kind] by blast
  have "g = 1" using pgq.give_amount [OF tc_kind r] assms by simp
  with pgq.give_count [OF tc_kind tc_kind r, of "user_id u" "current_period (today clk)"]
  have "used q (user_id u) (current_period (today clk)) ''translated_chapters'' =
      monthly_used clk (user_id u) ''translated_chapters'' s - 1" by simp
  with r show ?thesis
    by (simp add: refund_charged_def bindS_def in_quota_def refund_def)
qed

lemma reserve_metered_effect:
  assumes "reserve_metered clk (Some u) s = (r, s1)"
  shows "s_reading s1 = s_reading s \<and> s_glossary s1 = s_glossary s \<and>
    monthly_used clk (user_id u) ''translated_chapters'' s1 =
      monthly_used clk (user_id u) ''translated_chapters'' s + of_bool (r = Inr True)"
proof (cases "reserve (quota (s_work s)) (today clk) u ''translated_chapters'' 1")
  case (Inl e)
  with assms show ?thesis by (auto simp: reserve_metered_def in_quota_def)
next
  case (Inr p)
  obtain q ok where p: "p = (q, ok)" by (cases p)
  have "used q (user_id u) (current_period (today clk)) ''translated_chapters'' =
      monthly_used clk (user_id u) ''translated_chapters'' s + of_bool ok"
    using reserve_count_one [OF Inr [unfolded p]] by simp
  with assms Inr p show ?thesis by (auto simp: reserve_metered_def in_quota_def)
qed

lemma finish_translation_usage:
  assumes ai: "leaves_usage clk (user_id u) ai" and pos: "0 < monthly_used clk (user_id u) ''translated_chapters'' s"
  shows "\<exists>r s'. finish_translation cfg ai clk nid num c (Some u) prompt s = (Inr r, s') \<and>
    monthly_used clk (user_id u) ''translated_chapters'' s' =
      monthly_used clk (user_id u) ''translated_chapters'' s - of_bool (to_new_terms r = None) \<and>
    (to_new_terms r = None \<longrightarrow> to_status r = ''failed'')"
proof -
  let ?use = "monthly_used clk (user_id u) ''translated_chapters''"
  obtain m s1 where am: "ask_model cfg ai prompt s = (m, s1)" by (cases "ask_model cfg ai prompt s")
  have "s1 = snd (ai prompt s)"
    using am by (auto simp: ask_model_def bindS_def Let_def split: prod.splits sum.splits if_splits)
  with ai have u1: "?use s1 = ?use s" by (simp add: leaves_usage_def)
  show ?thesis
  proof (cases m)
    case (Inl e)
    let ?s2 = "snd (in_reading_unit (mark_translation_failed nid num False) s1)"
    have "0 < ?use ?s2" using pos u1 by simp
    from refund_charged_effect [OF this] obtain s' where "refund_charged clk (Some u) ?s2 = (Inr (), s')"
      "?use s' = ?use ?s2 - 1" by blast
    then show ?thesis using am Inl u1
      by (simp add: finish_translation_def bindS_def in_reading_unit_def status_result_def)
  next
    case (Inr p)
    obtain ttl body terms where p: "p = (ttl, body, terms)" by (cases p)
    let ?cm = "commit_translation (tc_digest cfg) clk nid num (tc_digest cfg (coalesce (c_original_text c) []))
              (or_one (c_content_version c)) (Some ttl) body terms (tc_model cfg) None None s1"
    obtain r2 s2 where cm: "?cm = (r2, s2)" by (cases ?cm)
    have w2: "s_work s2 = s_work s1"
      using commit_translation_work [of "tc_digest cfg" clk nid num "tc_digest cfg (coalesce (c_original_text c) [])"
          "or_one (c_content_version c)" "Some ttl" body terms "tc_model cfg" None s1] cm by simp
    show ?thesis
    proof (cases r2)
      case (Inr r)
      with cm have "to_new_terms r \<noteq> None" using commit_translation_new by blast
      with cm Inr am \<open>m = Inr p\<close> p u1 w2 show ?thesis
        by (auto simp: finish_translation_def catchS_def)
    next
      case (Inl e)
      let ?s3 = "snd (in_reading_unit (mark_translation_failed nid num True) s2)"
      have "0 < ?use ?s3" using pos u1 w2 by simp
      from refund_charged_effect [OF this] obtain s' where "refund_charged clk (Some u) ?s3 = (Inr (), s')"
        "?use s' = ?use ?s3 - 1" by blast
      then show ?thesis using cm Inl am \<open>m = Inr p\<close> p u1 w2
        by (simp add: finish_translation_def bindS_def catchS_def in_reading_unit_def status_result_def)
    qed
  qed
qed

text \<open>
  C29: a metered translation costs one unit exactly when it translated the chapter. Whatever
  \<open>translate_chapter\<close> meets (a missing, finished or staged chapter, an exhausted quota, a provider that
  fails or answers with nothing, a commit that loses its race), the reader's monthly counter afterwards
  is the old one, plus one if and only if the result is a fresh commit. The call is modelled with one clock:
  the claim is about a call whose reservation and refund fall into the same month, because a refund is
  credited to the month in which it is made.
\<close>

theorem translate_chapter_cost:
  assumes ai: "leaves_usage clk (user_id u) ai" and nn: "0 \<le> monthly_used clk (user_id u) ''translated_chapters'' s"
  shows "monthly_used clk (user_id u) ''translated_chapters'' (snd (translate_chapter cfg ai clk nid num force (Some u) s)) =
    monthly_used clk (user_id u) ''translated_chapters'' s +
    of_bool (newly_translated (fst (translate_chapter cfg ai clk nid num force (Some u) s)))"
proof -
  let ?use = "monthly_used clk (user_id u) ''translated_chapters''"
  let ?run = "translate_chapter cfg ai clk nid num force (Some u) s"
  have early: ?thesis if "?run = (Inr (status_result st x), s)" for st x
    using that by (simp add: newly_translated_def status_result_def)
  show ?thesis
  proof (cases "find_chapter nid num (s_reading s)")
    case None
    then show ?thesis by (intro early) (simp add: translate_chapter_def)
  next
    case (Some c)
    show ?thesis
    proof (cases "(\<not> blank (c_content c) \<and> \<not> force) \<or> blank (c_original_text c) \<or>
        c_translation_status c = ''translating'' \<or> c_run_id c \<noteq> None")
      case True
      then consider "\<not> blank (c_content c) \<and> \<not> force" | "\<not> (\<not> blank (c_content c) \<and> \<not> force)" "blank (c_original_text c)"
        | "\<not> (\<not> blank (c_content c) \<and> \<not> force)" "\<not> blank (c_original_text c)"
          "c_translation_status c = ''translating'' \<or> c_run_id c \<noteq> None" by blast
      then show ?thesis
      proof cases
        case 1
        then show ?thesis by (intro early [of "''done''" "c_content c"]) (simp add: translate_chapter_def Some)
      next
        case 2
        then show ?thesis
          by (intro early [of "if c_translation_status c = [] then ''none'' else c_translation_status c" "c_content c"])
             (auto simp add: translate_chapter_def Some)
      next
        case 3
        then show ?thesis by (intro early [of "''translating''" "c_content c"]) (auto simp add: translate_chapter_def Some)
      qed
    next
      case False
      obtain g s1 where rs: "reserve_metered clk (Some u) s = (g, s1)" by (cases "reserve_metered clk (Some u) s")
      note eff = reserve_metered_effect [OF rs]
      define start where "start = snd (in_reading_unit (mark_translation_started nid num (tc_digest cfg (coalesce (c_original_text c) []))) s1)"
      have run: "?run = (case g of Inl e \<Rightarrow> (Inl e, s1)
          | Inr ok \<Rightarrow> if \<not> ok then (Inr (status_result ''quota_exceeded'' (c_content c)), s1)
             else finish_translation cfg ai clk nid num c (Some u) (prompt_for cfg nid num c (s_glossary s1)) start)"
        using False Some rs by (auto simp: translate_chapter_def bindS_def start_def in_reading_unit_def Let_def split: sum.splits)
      have "(\<exists>e. g = Inl e) \<or> g = Inr False \<or> g = Inr True"
        by (metis (full_types) sum.exhaust)
      then consider (raise) e where "g = Inl e" | (no) "g = Inr False" | (yes) "g = Inr True" by blast
      then show ?thesis
      proof cases
        case yes
        have "?use start = ?use s + 1" using eff yes by (simp add: start_def)
        moreover from this nn have "0 < ?use start" by simp
        from finish_translation_usage [OF ai this] obtain r s' where
          "finish_translation cfg ai clk nid num c (Some u) (prompt_for cfg nid num c (s_glossary s1)) start = (Inr r, s')"
          "?use s' = ?use start - of_bool (to_new_terms r = None)" by blast
        ultimately show ?thesis using run yes by (simp add: newly_translated_def)
      qed (use run eff in \<open>simp_all add: newly_translated_def status_result_def\<close>)
    qed
  qed
qed

lemma fresh_is_done:
  assumes "translate_chapter cfg ai clk nid num force meter s = (Inr t, s')" "to_new_terms t \<noteq> None"
  shows "to_status t = ''done''"
proof -
  have cm: "to_status r = ''done''"
    if "commit_translation dig c n x sha ver ttl b terms model run jid s0 = (Inr r, s1)" for dig c n x sha ver ttl b terms model run jid s0 r s1
  proof -
    have "cr_status res = ''done''" if "reading_commit d n x h v tt b md rn db = (Inr res, db')" for d h v tt md rn db res db'
      using that by (auto simp: reading_commit_def split: option.splits if_splits)
    then show ?thesis using that
      by (auto simp: commit_translation_def catchS_def workflow_commit_def atomicS_def bindS_def in_reading_def
          split: prod.splits sum.splits if_splits)
  qed
  have ft: "to_status r = ''done''"
    if "finish_translation cfg ai clk nid num c meter p s0 = (Inr r, s1)" "to_new_terms r \<noteq> None" for c p s0 r s1
    using that cm
    by (auto simp: finish_translation_def catchS_def bindS_def status_result_def in_reading_unit_def
        split: prod.splits sum.splits)
  show ?thesis
    using assms ft
    by (auto simp: translate_chapter_def status_result_def bindS_def in_reading_unit_def Let_def
        split: option.splits if_splits prod.splits sum.splits)
qed

lemma translate_each_usage:
  assumes ai: "leaves_usage clk (user_id u) ai" and nn: "0 \<le> monthly_used clk (user_id u) ''translated_chapters'' s"
    and r: "translate_each cfg ai clk nid force (Some u) nums s = (res, s')"
  shows "monthly_used clk (user_id u) ''translated_chapters'' s \<le> monthly_used clk (user_id u) ''translated_chapters'' s' \<and>
    monthly_used clk (user_id u) ''translated_chapters'' s' \<le> monthly_used clk (user_id u) ''translated_chapters'' s + int (length nums) \<and>
    (\<forall>n. res = Inr n \<longrightarrow>
      monthly_used clk (user_id u) ''translated_chapters'' s' \<le> monthly_used clk (user_id u) ''translated_chapters'' s + n)"
  using nn r
proof (induction nums arbitrary: s res s')
  case Nil
  then show ?case by auto
next
  case (Cons x xs)
  let ?use = "monthly_used clk (user_id u) ''translated_chapters''"
  obtain r1 s1 where t1: "translate_chapter cfg ai clk nid x force (Some u) s = (r1, s1)"
    by (cases "translate_chapter cfg ai clk nid x force (Some u) s")
  have u1: "?use s1 = ?use s + of_bool (newly_translated r1)"
    using translate_chapter_cost [OF ai Cons.prems(1), of cfg nid x force] t1 by simp
  show ?case
  proof (cases r1)
    case (Inl e)
    with Cons.prems(2) t1 u1 show ?thesis by (auto simp: bindS_def newly_translated_def)
  next
    case (Inr t)
    have fresh: "newly_translated r1 \<longrightarrow> to_status t = ''done''"
      using fresh_is_done [of cfg ai clk nid x force "Some u" s] t1 Inr by (auto simp: newly_translated_def)
    show ?thesis
    proof (cases "to_status t = ''quota_exceeded''")
      case True
      with Cons.prems(2) t1 u1 Inr fresh show ?thesis by (auto simp: bindS_def)
    next
      case False
      obtain r2 s2 where t2: "translate_each cfg ai clk nid force (Some u) xs s1 = (r2, s2)"
        by (cases "translate_each cfg ai clk nid force (Some u) xs s1")
      have "0 \<le> ?use s1" using Cons.prems(1) u1 by simp
      note IH = Cons.IH [OF this t2]
      have "s' = s2" "res = (case r2 of Inl e \<Rightarrow> Inl e | Inr n \<Rightarrow> Inr (of_bool (to_status t = ''done'') + n))"
        using Cons.prems(2) t1 t2 Inr False by (auto simp: bindS_def split: sum.splits)
      with IH u1 fresh show ?thesis by (cases r2; cases "newly_translated r1") fastforce+
    qed
  qed
qed

definition demo_site :: site where
  "demo_site = \<lparr>s_reading = demo_reading2, s_glossary = demo_glossary, s_work = demo_db\<lparr>quota := demo_quota\<rparr>\<rparr>"

definition demo_tc :: translation_config where
  "demo_tc = \<lparr>tc_model = ''m'', tc_max_input_chars = 1000, tc_loads = (\<lambda>_. None), tc_repair = (\<lambda>_. None), tc_digest = id,
     tc_prefetch = 2\<rparr>"

definition demo_ai :: completion where
  "demo_ai = (\<lambda>_ s. (Inr ''===TITLE===Dawn===TRANSLATION===It rose.===TERMS==='', s))"

definition demo_down :: completion where
  "demo_down = (\<lambda>_ s. (Inl (RuntimeError ''provider down''), s))"

lemma demo_leaves: "leaves_usage demo_clk 7 demo_ai" "leaves_usage demo_clk 7 demo_down"
  by (simp_all add: leaves_usage_def demo_ai_def demo_down_def)

theorem translate_chapter_cost_witness:
  "monthly_used demo_clk 7 ''translated_chapters'' (snd (translate_chapter demo_tc demo_down demo_clk 3 2 False (Some demo_user) demo_site)) =
   monthly_used demo_clk 7 ''translated_chapters'' demo_site +
   of_bool (newly_translated (fst (translate_chapter demo_tc demo_down demo_clk 3 2 False (Some demo_user) demo_site)))"
proof -
  have id: "user_id demo_user = 7" by (simp add: demo_user_def)
  have "0 \<le> monthly_used demo_clk 7 ''translated_chapters'' demo_site" by code_simp
  from translate_chapter_cost [of demo_clk demo_user demo_down demo_site, unfolded id, OF demo_leaves(2) this]
  show ?thesis .
qed

text \<open>a batch is charged per chapter it translated. The counter never falls, rises by at most one per
  chapter of the range, whether the batch returns or an exception ends it, and when it returns a count,
  by no more than that count.
\<close>

lemma translate_range_cost:
  assumes "leaves_usage clk (user_id u) ai" and "0 \<le> monthly_used clk (user_id u) ''translated_chapters'' s"
    and "translate_range cfg ai clk nid lo hi force (Some u) s = (res, s')"
  shows "monthly_used clk (user_id u) ''translated_chapters'' s \<le> monthly_used clk (user_id u) ''translated_chapters'' s' \<and>
    monthly_used clk (user_id u) ''translated_chapters'' s' \<le>
      monthly_used clk (user_id u) ''translated_chapters'' s + count_pending nid lo hi force (s_reading s) \<and>
    (\<forall>n. res = Inr n \<longrightarrow>
      monthly_used clk (user_id u) ''translated_chapters'' s' \<le> monthly_used clk (user_id u) ''translated_chapters'' s + n)"
  using translate_each_usage [OF assms(1,2), of cfg nid force "translation_range nid lo hi force (s_reading s)"] assms(3)
  by (simp add: translate_range_def translation_range_def count_pending_def sql_count_def)

lemma translate_range_cost_witness:
  "\<exists>res s'. translate_range demo_tc demo_ai demo_clk 3 None None False (Some demo_user) demo_site = (res, s') \<and>
     monthly_used demo_clk 7 ''translated_chapters'' s' \<le>
       monthly_used demo_clk 7 ''translated_chapters'' demo_site + count_pending 3 None None False demo_reading2"
proof -
  have id: "user_id demo_user = 7" by (simp add: demo_user_def)
  have nn: "0 \<le> monthly_used demo_clk 7 ''translated_chapters'' demo_site" by code_simp
  obtain res s' where r: "translate_range demo_tc demo_ai demo_clk 3 None None False (Some demo_user) demo_site = (res, s')"
    by (cases "translate_range demo_tc demo_ai demo_clk 3 None None False (Some demo_user) demo_site")
  from translate_range_cost [of demo_clk demo_user demo_ai demo_site demo_tc 3 None None False res s', unfolded id, OF demo_leaves(1) nn r]
  have "monthly_used demo_clk 7 ''translated_chapters'' s' \<le>
       monthly_used demo_clk 7 ''translated_chapters'' demo_site + count_pending 3 None None False demo_reading2"
    by (simp add: demo_site_def)
  with r show ?thesis by blast
qed

section \<open>Chapters nobody translates any more\<close>

lemma sql_update_id: "(\<And>c. c \<in> set rows \<Longrightarrow> p c \<Longrightarrow> f c = c) \<Longrightarrow> sql_update p f rows = rows"
  by (induction rows) auto

lemma find_chapter_sql_update_other:
  assumes "\<And>c. chapter_key (f c) = chapter_key c"
  shows "find_chapter n x (db\<lparr>chapters := sql_update p f (chapters db)\<rparr>) =
    map_option (\<lambda>c. if p c then f c else c) (find_chapter n x db)"
  using row_by_sql_update [of p chapter_key f "(n, x)" "chapters db"] assms by (simp add: find_chapter_def)

lemma find_chapter_unique:
  assumes "distinct (map chapter_key (chapters db))" "find_chapter n x db = Some c" "d \<in> set (chapters db)" "chapter_key d = (n, x)"
  shows "d = c"
  using row_by_in [OF assms(1,3)] assms(2,4) by (simp add: find_chapter_def)

text \<open>a translation that is interrupted leaves its chapter untranslatable. When the process dies while
  the provider answers, the chapter stays \<open>translating\<close> without a run. From then on every request for
  it answers \<open>translating\<close> and changes nothing, the prefetch and the subscription worker never select
  it, staging skips it, and no reset of a run restores it.
\<close>

lemma interrupted_translation_blocks:
  assumes ids: "distinct (map chapter_key (chapters (s_reading s)))" and c0: "find_chapter nid num (s_reading s) = Some c0"
    and src: "\<not> blank (c_original_text c0)"
    and s1: "s1 = snd (in_reading_unit (mark_translation_started nid num sha) s)"
  shows "(\<forall>cfg ai clk force meter. force \<or> blank (c_content c0) \<longrightarrow>
      translate_chapter cfg ai clk nid num force meter s1 = (Inr (status_result ''translating'' (c_content c0)), s1)) \<and>
    (\<forall>lo hi force. num \<notin> set (agy_pending nid lo hi force (s_reading s1))) \<and>
    (\<forall>after n. num \<notin> set (pending_after nid after n (s_reading s1))) \<and>
    (\<forall>dig nums run force. find_chapter nid num (snd (stage_translation_batch dig nid nums run force (s_reading s1))) =
       find_chapter nid num (s_reading s1)) \<and>
    (\<forall>run st. find_chapter nid num (snd (reset_staged_translations run st (s_reading s1))) = find_chapter nid num (s_reading s1))"
proof -
  let ?c = "c0\<lparr>c_translation_status := ''translating'', c_run_id := None, c_source_sha := Some sha\<rparr>"
  let ?db = "s_reading s1"
  have db: "?db = mark_translation_started nid num sha (s_reading s)" by (simp add: s1 in_reading_unit_def)
  have c: "find_chapter nid num ?db = Some ?c"
    unfolding db mark_translation_started_def by (subst find_chapter_update) (use c0 in \<open>simp_all add: chapter_key_def\<close>)
  have ids1: "distinct (map chapter_key (chapters ?db))"
    unfolding db mark_translation_started_def update_chapter_def using ids by (simp add: map_sql_update chapter_key_def)
  have uniq: "c_translation_status d = ''translating''" if "d \<in> set (chapters ?db)" "c_novel_id d = nid" "c_number d = num" for d
    using find_chapter_unique [OF ids1 c that(1)] that(2,3) by (simp add: chapter_key_def)
  have "num \<notin> set (agy_pending nid lo hi force ?db)" for lo hi force
    using uniq by (auto simp: agy_pending_def wants_translation_def)
  moreover have "num \<notin> set (pending_after nid after n ?db)" for after n
    using uniq by (auto simp: pending_after_def dest!: in_set_takeD)
  moreover have "find_chapter nid num (snd (stage_translation_batch dig nid nums run force ?db)) = find_chapter nid num ?db" for dig nums run force
    unfolding stage_translation_batch_def Let_def snd_conv
    by (subst find_chapter_sql_update_other) (simp_all add: chapter_key_def staged_def c stageable_def)
  moreover have "find_chapter nid num (snd (reset_staged_translations run st ?db)) = find_chapter nid num ?db" for run st
    unfolding reset_staged_translations_def Let_def snd_conv
    by (subst find_chapter_sql_update_other) (simp_all add: chapter_key_def c)
  moreover have "translate_chapter cfg ai clk nid num force meter s1 = (Inr (status_result ''translating'' (c_content c0)), s1)"
    if "force \<or> blank (c_content c0)" for cfg ai clk force meter
    using c src that by (auto simp: translate_chapter_def)
  ultimately show ?thesis by blast
qed

lemma interrupted_translation_blocks_witness:
  "translate_chapter demo_tc demo_ai demo_clk 3 2 True None (snd (in_reading_unit (mark_translation_started 3 2 ''raw'') demo_site)) =
     (Inr (status_result ''translating'' (c_content (demo_chapter 2))), snd (in_reading_unit (mark_translation_started 3 2 ''raw'') demo_site))"
proof -
  have ids: "distinct (map chapter_key (chapters (s_reading demo_site)))"
    by (simp add: demo_site_def demo_reading2_def demo_reading_def demo_chapter_def chapter_key_def)
  have c: "find_chapter 3 2 (s_reading demo_site) = Some (demo_chapter 2)" using demo_find2 by (simp add: demo_site_def)
  have s: "\<not> blank (c_original_text (demo_chapter 2))" by (simp add: demo_chapter_def blank_def)
  from interrupted_translation_blocks [OF ids c s refl, of "''raw''", THEN conjunct1] show ?thesis by blast
qed

text \<open>a chapter translated by a subscription worker can never be retranslated on demand. The commit
  keeps the run id of the batch on the row, and \<open>translate_chapter\<close> takes any run id for a batch in
  progress: a forced retranslation answers \<open>translating\<close> and changes nothing, although the chapter is
  done; the same holds after the source was scraped again, when the chapter has lost its text and is
  pending.
\<close>

lemma subscription_translation_blocks_retranslation:
  assumes cm: "reading_commit dig nid num sha ver ttl txt md (Some run) db = (Inr res, db')" "\<not> cr_idempotent res"
    and src: "\<And>c. find_chapter nid num db = Some c \<Longrightarrow> \<not> blank (c_original_text c)"
  shows "\<exists>c. find_chapter nid num db' = Some c \<and> c_translation_status c = ''done'' \<and>
    (\<forall>s cfg ai clk meter. s_reading s = db' \<longrightarrow>
       translate_chapter cfg ai clk nid num True meter s = (Inr (status_result ''translating'' (Some (py_strip txt))), s)) \<and>
    (\<forall>src ch kd part mv ok db2 s cfg ai clk force meter. upsert_ingested_chapter src num ch True kd part mv db' = (Inr ok, db2) \<and>
       src_novel_id src = nid \<and> src_is_raw src \<and> \<not> blank (sch_content ch) \<and> s_reading s = db2 \<longrightarrow>
       translate_chapter cfg ai clk nid num force meter s = (Inr (status_result ''translating'' None), s))"
proof -
  obtain c where c: "find_chapter nid num db = Some c"
      "db' = flag_conflicts nid num (c_content_version c + 1) None (update_chapter nid num (committed (clean_title ttl) txt md (Some run) sha) db)"
    using reading_commit_Inr [OF cm(1)] cm(2) by blast
  let ?c = "committed (clean_title ttl) txt md (Some run) sha c"
  have c': "find_chapter nid num db' = Some ?c"
    unfolding c(2) find_chapter_flag by (subst find_chapter_update) (simp_all add: committed_key c(1))
  have orig: "\<not> blank (c_original_text c)" using src [OF c(1)] .
  have "translate_chapter cfg ai clk nid num True meter s = (Inr (status_result ''translating'' (Some (py_strip txt))), s)"
    if "s_reading s = db'" for s cfg ai clk meter
    using c' orig that by (simp add: translate_chapter_def committed_def)
  moreover have "translate_chapter cfg ai clk nid num force meter s = (Inr (status_result ''translating'' None), s)"
    if h: "upsert_ingested_chapter src num ch True kd part mv db' = (Inr ok, db2) \<and>
       src_novel_id src = nid \<and> src_is_raw src \<and> \<not> blank (sch_content ch) \<and> s_reading s = db2"
    for src ch kd part mv ok db2 s cfg ai clk force meter
  proof -
    let ?new = "ingested_row src num ch kd part 1"
    have new: "chapter_key (overwritten ?new mv d) = (nid, num)" for d
      using h by (simp add: overwritten_def ingested_row_def Let_def chapter_key_def)
    have "row_by chapter_key (nid, num) (sql_update (\<lambda>c. chapter_key c = (nid, num)) (overwritten ?new mv) (chapters db')) =
        map_option (\<lambda>c. if chapter_key c = (nid, num) then overwritten ?new mv c else c) (row_by chapter_key (nid, num) (chapters db'))"
      by (rule row_by_sql_update) (simp add: new)
    moreover have "chapter_key ?c = (nid, num)" using row_by_Some c' by (metis find_chapter_def)
    ultimately have "find_chapter nid num (update_chapter nid num (overwritten ?new mv) db') = Some (overwritten ?new mv ?c)"
      using c' by (simp add: find_chapter_def update_chapter_def)
    moreover have "\<exists>v. db2 = flag_conflicts nid num v None (update_chapter nid num (overwritten ?new mv) db') \<or>
        db2 = update_chapter nid num (overwritten ?new mv) db'"
    proof -
      have "upsert_ingested_chapter src num ch True kd part mv db' = (Inr ok, db2)" "src_novel_id src = nid" using h by simp_all
      then show ?thesis using c' by (auto simp: upsert_ingested_chapter_def Let_def split: if_splits)
    qed
    ultimately have "find_chapter nid num db2 = Some (overwritten ?new mv ?c)" by auto
    with h show ?thesis
      by (simp add: translate_chapter_def overwritten_def ingested_row_def Let_def committed_def blank_def split: option.splits)
  qed
  moreover have "c_translation_status ?c = ''done''" by (simp add: committed_def)
  ultimately show ?thesis using c' by blast
qed

lemma subscription_translation_blocks_retranslation_witness:
  "\<exists>res db'. reading_commit id 3 2 ''raw'' 2 None ''new'' ''agy:m'' (Some ''r1'')
       (snd (stage_translation_batch id 3 [2] ''r1'' True demo_reading2)) = (Inr res, db') \<and>
     translate_chapter demo_tc demo_ai demo_clk 3 2 True None (demo_site\<lparr>s_reading := db'\<rparr>) =
       (Inr (status_result ''translating'' (Some (py_strip ''new''))), demo_site\<lparr>s_reading := db'\<rparr>)"
proof -
  let ?db = "snd (stage_translation_batch id 3 [2] ''r1'' True demo_reading2)"
  have f: "find_chapter 3 2 ?db = Some (staged id ''r1'' (demo_chapter 2))"
    unfolding stage_translation_batch_def Let_def snd_conv
    by (subst find_chapter_sql_update_other)
       (simp_all add: chapter_key_def staged_def demo_find2 stageable_def demo_chapter_def blank_def)
  obtain res db' where cm: "reading_commit id 3 2 ''raw'' 2 None ''new'' ''agy:m'' (Some ''r1'') ?db = (Inr res, db')" "\<not> cr_idempotent res"
    using f by (simp add: reading_commit_def staged_def demo_chapter_def or_one_def)
  have "\<And>c. find_chapter 3 2 ?db = Some c \<Longrightarrow> \<not> blank (c_original_text c)"
    using f by (auto simp: staged_def demo_chapter_def blank_def)
  from subscription_translation_blocks_retranslation [OF cm this] cm(1) show ?thesis by fastforce
qed

end
