(* ===== verification/Ai_Policy.thy ===== *)
theory Ai_Policy
  imports Work_Worker "HOL-Library.Char_ord" "HOL-Library.List_Lexorder"
begin

text \<open>
  Subscription grants and backend resolution: \<open>modules/ai_execution/adapters/outbound/policy.py\<close>, with
  the queries it is wired to (\<open>modules/work/adapters/outbound/worker_state.py\<close>,
  \<open>bootstrap/ai_execution.py\<close>). The store pairs the table \<open>user_ai_backend_policies\<close> with the work
  store. Audit records are not modelled.
\<close>

section \<open>The keys of a provider\<close>

definition requested_backend_of :: "string \<Rightarrow> requested_backend result" where
  "requested_backend_of v =
     (case requested_of v of
        None \<Rightarrow> Inl (ValidationFailed ''ai_backend must be auto, api, agy, or openai_codex.'')
      | Some r \<Rightarrow> Inr r)"

fun implemented :: "execution_backend \<Rightarrow> workload list" where
  "implemented AGY = IMPLEMENTED_AGY_WORKLOADS"
| "implemented OPENAI_CODEX = IMPLEMENTED_OPENAI_CODEX_WORKLOADS"
| "implemented API = []"

fun globally_enabled :: "settings \<Rightarrow> execution_backend \<Rightarrow> bool" where
  "globally_enabled cfg AGY = AGY_ENABLED cfg"
| "globally_enabled cfg OPENAI_CODEX = OPENAI_CODEX_ENABLED cfg"
| "globally_enabled cfg API = True"

definition workload_globally_enabled :: "settings \<Rightarrow> workload \<Rightarrow> execution_backend \<Rightarrow> bool" where
  "workload_globally_enabled cfg w b =
     (if w \<noteq> CODEX_EXTRACT then True
      else case b of AGY \<Rightarrow> AGY_CODEX_ENABLED cfg | OPENAI_CODEX \<Rightarrow> OPENAI_CODEX_CODEX_ENABLED cfg | API \<Rightarrow> True)"

definition provider_name :: "execution_backend \<Rightarrow> string" where
  "provider_name b = (if b = AGY then ''Antigravity'' else ''OpenAI Codex'')"

definition model_for :: "settings \<Rightarrow> workload \<Rightarrow> execution_backend \<Rightarrow> string option" where
  "model_for cfg w b =
     (case b of
        AGY \<Rightarrow> (case w of
            TRANSLATE_BATCH \<Rightarrow> Some (AGY_MODEL_TRANSLATE cfg) | CODEX_EXTRACT \<Rightarrow> Some (AGY_MODEL_CODEX cfg)
          | SEGMENT_IMPORT \<Rightarrow> Some (AGY_MODEL_SEGMENT cfg) | OCR_PAGES \<Rightarrow> Some (AGY_MODEL_OCR cfg) | _ \<Rightarrow> None)
      | OPENAI_CODEX \<Rightarrow> (case w of
            TRANSLATE_BATCH \<Rightarrow> Some (OPENAI_CODEX_MODEL_TRANSLATE cfg)
          | CODEX_EXTRACT \<Rightarrow> Some (OPENAI_CODEX_MODEL_CODEX cfg) | _ \<Rightarrow> None)
      | API \<Rightarrow> (case w of
            TRANSLATE_BATCH \<Rightarrow> Some (MODEL_TRANSLATE cfg) | CODEX_EXTRACT \<Rightarrow> Some (MODEL_FLASH cfg)
          | SEGMENT_IMPORT \<Rightarrow> Some (SEGMENT_MODEL cfg) | OCR_PAGES \<Rightarrow> Some (GEMINI_VISION_MODEL cfg)
          | ASK \<Rightarrow> Some (MODEL_PRO cfg) | PROFILE_SYNTHESIS \<Rightarrow> Some (MODEL_PRO cfg)))"

type_synonym policy_table = "int \<rightharpoonup> ai_policy"

record ai_db =
  policies :: policy_table
  ai_work :: work_db

definition get_policy :: "int \<Rightarrow> ai_db \<Rightarrow> ai_policy option" where
  "get_policy uid db = policies db uid"

record heartbeat =
  hb_backend :: execution_backend
  hb_status :: string
  hb_at :: int

definition worker_available :: "settings \<Rightarrow> clock \<Rightarrow> heartbeat list \<Rightarrow> execution_backend \<Rightarrow> bool" where
  "worker_available cfg clk beats b =
     (if \<not> globally_enabled cfg b then False
      else let ttl = (if b = AGY then AGY_WORKER_HEALTH_TTL_SECONDS cfg else OPENAI_CODEX_WORKER_HEALTH_TTL_SECONDS cfg)
           in list_ex (\<lambda>h. hb_backend h = b \<and> hb_status h = ''healthy'' \<and> hb_at h \<ge> now clk - ttl) beats)"

record capability =
  cap_enabled :: bool
  cap_default_backend :: execution_backend
  cap_workloads :: "string list"
  cap_fallback_to_api :: bool
  cap_available :: bool

definition capability_for_user ::
  "settings \<Rightarrow> clock \<Rightarrow> heartbeat list \<Rightarrow> int \<Rightarrow> ai_db \<Rightarrow> execution_backend \<Rightarrow> capability" where
  "capability_for_user cfg clk beats uid db b =
     (case get_policy uid db of
        None \<Rightarrow> \<lparr>cap_enabled = False, cap_default_backend = API, cap_workloads = [], cap_fallback_to_api = False,
                 cap_available = False\<rparr>
      | Some p \<Rightarrow> \<lparr>cap_enabled = provider_enabled b p, cap_default_backend = default_backend p,
                   cap_workloads = provider_workloads b p, cap_fallback_to_api = ai_policy.fallback_to_api p,
                   cap_available = provider_enabled b p \<and> worker_available cfg clk beats b\<rparr>)"

section \<open>Resolution\<close>

definition active_job_count :: "int \<Rightarrow> execution_backend \<Rightarrow> work_db \<Rightarrow> int" where
  "active_job_count uid b db = int (sql_count
     (\<lambda>j. j_user_id j = Some uid \<and> j_execution_backend j = b \<and> j_status j \<in> {Queued, Running, Waiting_provider}) (jobs db))"

definition api_decision ::
  "settings \<Rightarrow> requested_backend \<Rightarrow> workload \<Rightarrow> string \<Rightarrow> int option \<Rightarrow> backend_decision" where
  "api_decision cfg req w reason ver =
     \<lparr>d_requested = req, d_resolved = API, d_workload = w, d_reason = reason, d_policy_version = ver,
      d_fallback_to_api = False, d_model = model_for cfg w API\<rparr>"

text \<open>The backend an explicit request names; \<open>AUTO\<close> takes the default of the policy.\<close>

definition selected_backend :: "requested_backend \<Rightarrow> ai_policy option \<Rightarrow> execution_backend" where
  "selected_backend req pol =
     (case req of
        Req_API \<Rightarrow> API | Req_AGY \<Rightarrow> AGY | Req_OPENAI_CODEX \<Rightarrow> OPENAI_CODEX
      | Req_AUTO \<Rightarrow> (case pol of None \<Rightarrow> API | Some p \<Rightarrow> default_backend p))"

definition is_granted :: "workload \<Rightarrow> execution_backend \<Rightarrow> ai_policy option \<Rightarrow> bool" where
  "is_granted w b pol =
     (case pol of None \<Rightarrow> False
      | Some p \<Rightarrow> provider_enabled b p \<and> workload_value w \<in> set (provider_workloads b p) \<and> w \<in> set (implemented b))"

definition or_one_limit :: "int \<Rightarrow> int" where
  "or_one_limit n = (if n = 0 then 1 else n)"

definition resolve_backend ::
  "settings \<Rightarrow> int \<Rightarrow> string \<Rightarrow> workload \<Rightarrow> string \<Rightarrow> bool \<Rightarrow> ai_db \<Rightarrow> backend_decision result" where
  "resolve_backend cfg uid user_status w requested enforce db =
     bindE (requested_backend_of requested) (\<lambda>req.
       if req = Req_API then Inr (api_decision cfg req w ''explicit_api'' None)
       else
         let pol = get_policy uid db
         in if req = Req_AUTO \<and> pol = None
            then Inr (api_decision cfg req w (if \<not> AGY_ENABLED cfg then ''global_disabled'' else ''not_granted'') None)
            else
              let b = selected_backend req pol
              in if b = API then Inr (api_decision cfg req w ''user_policy_default_api'' (map_option policy_version pol))
                 else if \<not> globally_enabled cfg b then
                   (if req \<noteq> Req_AUTO then Inl (ProviderUnavailable (provider_name b @ '' is temporarily unavailable.''))
                    else Inr (api_decision cfg req w ''global_disabled'' None))
                 else if \<not> workload_globally_enabled cfg w b then
                   (if req \<noteq> Req_AUTO
                    then Inl (ProviderUnavailable (provider_name b @ '' Codex extraction is temporarily disabled.''))
                    else Inr (api_decision cfg req w ''workload_disabled'' None))
                 else if \<not> is_granted w b pol then
                   (if req \<noteq> Req_AUTO then Inl (Forbidden (provider_name b @ '' is not enabled for this workload.''))
                    else Inr (api_decision cfg req w
                      (if w \<notin> set (implemented b) then ''workload_unimplemented'' else ''not_granted'') None))
                 else if user_status \<noteq> ''active'' then Inl (Forbidden ''This account cannot schedule AI work.'')
                 else if enforce \<and> (case pol of None \<Rightarrow> False | Some p \<Rightarrow>
                           active_job_count uid b (ai_work db) \<ge> or_one_limit (provider_concurrency b p))
                   then Inl (RateLimited (''Your '' @ provider_name b @ '' queue limit is already in use.'') None)
                 else (case pol of
                         None \<Rightarrow> Inl (TypeError ''NoneType object is not subscriptable'')
                       | Some p \<Rightarrow> Inr \<lparr>d_requested = req, d_resolved = b, d_workload = w,
                           d_reason = (if req \<noteq> Req_AUTO then ''explicit_'' @ backend_value b else ''user_policy_default''),
                           d_policy_version = Some (policy_version p), d_fallback_to_api = ai_policy.fallback_to_api p,
                           d_model = model_for cfg w b\<rparr>))"

definition reauthorize_job ::
  "settings \<Rightarrow> job \<Rightarrow> (int \<times> string) option \<Rightarrow> ai_db \<Rightarrow> bool \<times> string" where
  "reauthorize_job cfg j user db =
     (let b = j_execution_backend j in
      if b = API \<or> \<not> globally_enabled cfg b then (False, ''global_disabled'')
      else case user of
        None \<Rightarrow> (False, ''user_inactive'')
      | Some (uid, st) \<Rightarrow>
          (if st \<noteq> ''active'' then (False, ''user_inactive'')
           else case workload_for_job_kind (j_kind j) of
             None \<Rightarrow> (False, ''workload_unimplemented'')
           | Some w \<Rightarrow>
               (if w \<notin> set (implemented b) then (False, ''workload_unimplemented'')
                else if \<not> workload_globally_enabled cfg w b then (False, ''workload_disabled'')
                else case get_policy uid db of
                  None \<Rightarrow> (False, ''grant_revoked'')
                | Some p \<Rightarrow>
                    (if \<not> provider_enabled b p then (False, ''grant_revoked'')
                     else if workload_value w \<notin> set (provider_workloads b p) then (False, ''workload_revoked'')
                     else (True, if policy_version p \<noteq> coalesce (j_backend_policy_version j) 0
                                 then ''policy_version_changed'' else ''ok'')))))"

section \<open>Granting and revoking\<close>

text \<open>The values an admin sends; an absent key is its default.\<close>

record policy_values =
  pv_agy_enabled :: bool
  pv_openai_codex_enabled :: bool
  pv_default_backend :: string
  pv_agy_workloads :: "string list"
  pv_openai_codex_workloads :: "string list"
  pv_fallback_to_api :: bool
  pv_max_concurrent_agy_jobs :: int
  pv_max_concurrent_openai_codex_jobs :: int
  pv_notes :: "string option"

text \<open>\<open>notes or None\<close>.\<close>

definition nonblank_note :: "string option \<Rightarrow> string option" where
  "nonblank_note n = (if n = Some [] then None else n)"

definition sorted_set :: "string list \<Rightarrow> string list" where
  "sorted_set xs = sort (remdups xs)"

definition check_values :: "policy_values \<Rightarrow> execution_backend result" where
  "check_values v =
     (let unknown = filter (\<lambda>w. w \<notin> workload_value ` set workloads)
            (sorted_set (pv_agy_workloads v @ pv_openai_codex_workloads v))
      in if unknown \<noteq> [] then Inl (ValidationFailed (''Unknown AI workload(s): '' @ py_join '', '' unknown @ ''.''))
         else case backend_of (pv_default_backend v) of
           None \<Rightarrow> Inl (ValidationFailed ''A subscription backend can be the default only while its access is enabled.'')
         | Some d \<Rightarrow>
             (if (d = AGY \<and> \<not> pv_agy_enabled v) \<or> (d = OPENAI_CODEX \<and> \<not> pv_openai_codex_enabled v)
              then Inl (ValidationFailed ''A subscription backend can be the default only while its access is enabled.'')
              else if \<not> (1 \<le> pv_max_concurrent_agy_jobs v \<and> pv_max_concurrent_agy_jobs v \<le> 4)
              then Inl (ValidationFailed ''max_concurrent_agy_jobs must be between 1 and 4.'')
              else if \<not> (1 \<le> pv_max_concurrent_openai_codex_jobs v \<and> pv_max_concurrent_openai_codex_jobs v \<le> 4)
              then Inl (ValidationFailed ''max_concurrent_openai_codex_jobs must be between 1 and 4.'')
              else Inr d))"

definition new_policy :: "int \<Rightarrow> policy_values \<Rightarrow> execution_backend \<Rightarrow> int \<Rightarrow> int \<Rightarrow> ai_policy" where
  "new_policy uid v d admin ver =
     \<lparr>p_user_id = uid, agy_enabled = pv_agy_enabled v, openai_codex_enabled = pv_openai_codex_enabled v,
      default_backend = d, agy_workloads = sorted_set (pv_agy_workloads v),
      openai_codex_workloads = sorted_set (pv_openai_codex_workloads v), fallback_to_api = pv_fallback_to_api v,
      max_concurrent_agy_jobs = pv_max_concurrent_agy_jobs v,
      max_concurrent_openai_codex_jobs = pv_max_concurrent_openai_codex_jobs v, policy_version = ver,
      p_notes = nonblank_note (pv_notes v), granted_by = Some admin\<rparr>"

definition revoked_job_ids :: "int \<Rightarrow> string list \<Rightarrow> execution_backend \<Rightarrow> work_db \<Rightarrow> int list" where
  "revoked_job_ids uid kinds b db =
     map j_id (filter (\<lambda>j. j_user_id j = Some uid \<and> j_execution_backend j = b \<and> j_kind j \<in> set kinds \<and>
        j_status j \<in> {Queued, Running, Waiting_provider}) (jobs db))"

fun cancel_all :: "clock \<Rightarrow> int list \<Rightarrow> (work_db, int) op" where
  "cancel_all clk [] = returnS 0"
| "cancel_all clk (i # is) =
     bindS (cancel_job clk i) (\<lambda>c. bindS (cancel_all clk is) (\<lambda>n. returnS (n + of_bool c)))"

definition revoked_kinds :: "string set option \<Rightarrow> execution_backend \<Rightarrow> string list" where
  "revoked_kinds removed b =
     (let gone = (\<lambda>w. case removed of None \<Rightarrow> True | Some s \<Rightarrow> workload_value w \<in> s)
      in (if gone TRANSLATE_BATCH then [''translate''] else []) @
         (if gone CODEX_EXTRACT then ''codex_build'' # (if b = OPENAI_CODEX then [''codex_illustrate''] else []) else []))"

definition cancel_revoked_jobs ::
  "clock \<Rightarrow> int \<Rightarrow> string set option \<Rightarrow> execution_backend \<Rightarrow> (work_db, int) op" where
  "cancel_revoked_jobs clk uid removed b db =
     (let kinds = revoked_kinds removed b
      in if kinds = [] then (Inr 0, db) else cancel_all clk (revoked_job_ids uid kinds b db) db)"

definition on_work :: "(work_db, 'a) op \<Rightarrow> (ai_db, 'a) op" where
  "on_work m db = (case m (ai_work db) of (r, w) \<Rightarrow> (r, db\<lparr>ai_work := w\<rparr>))"

definition revoke_changed :: "clock \<Rightarrow> int \<Rightarrow> ai_policy \<Rightarrow> ai_policy \<Rightarrow> execution_backend \<Rightarrow> (work_db, unit) op" where
  "revoke_changed clk uid previous p b =
     (let removed = set (provider_workloads b previous) - set (provider_workloads b p)
      in if \<not> provider_enabled b p \<or> removed \<noteq> {}
         then bindS (cancel_revoked_jobs clk uid (if provider_enabled b p then Some removed else None) b) (\<lambda>_. returnS ())
         else returnS ())"

definition upsert_policy ::
  "clock \<Rightarrow> (int \<Rightarrow> bool) \<Rightarrow> int \<Rightarrow> policy_values \<Rightarrow> int \<Rightarrow> (ai_db, ai_policy) op" where
  "upsert_policy clk user_exists uid v admin db =
     (case check_values v of
        Inl e \<Rightarrow> (Inl e, db)
      | Inr d \<Rightarrow>
          (if \<not> user_exists uid then (Inl (NotFound ''User not found.''), db)
           else
             let previous = policies db uid;
                 p = new_policy uid v d admin (case previous of None \<Rightarrow> 1 | Some q \<Rightarrow> policy_version q + 1);
                 db1 = db\<lparr>policies := (policies db)(uid \<mapsto> p)\<rparr>
             in case previous of
                  None \<Rightarrow> (Inr p, db1)
                | Some q \<Rightarrow>
                    bindS (on_work (revoke_changed clk uid q p AGY)) (\<lambda>_.
                    bindS (on_work (revoke_changed clk uid q p OPENAI_CODEX)) (\<lambda>_. returnS p)) db1))"

definition delete_policy :: "clock \<Rightarrow> int \<Rightarrow> (ai_db, bool) op" where
  "delete_policy clk uid db =
     (case policies db uid of
        None \<Rightarrow> (Inr False, db)
      | Some _ \<Rightarrow>
          bindS (on_work (cancel_revoked_jobs clk uid None AGY)) (\<lambda>_.
          bindS (on_work (cancel_revoked_jobs clk uid None OPENAI_CODEX)) (\<lambda>_. returnS True))
            (db\<lparr>policies := (policies db)(uid := None)\<rparr>))"

section \<open>Resolution is authorised\<close>

lemma requested_backend_of_Inr: "requested_backend_of s = Inr r \<longleftrightarrow> requested_of s = Some r"
  by (auto simp: requested_backend_of_def split: option.splits)

fun explicit_backend :: "requested_backend \<Rightarrow> execution_backend option" where
  "explicit_backend Req_AUTO = None"
| "explicit_backend Req_API = Some API"
| "explicit_backend Req_AGY = Some AGY"
| "explicit_backend Req_OPENAI_CODEX = Some OPENAI_CODEX"

lemma resolve_backendD:
  assumes r: "resolve_backend cfg uid st w requested enforce db = Inr d" and s: "d_resolved d \<noteq> API"
  obtains p where "get_policy uid db = Some p" "globally_enabled cfg (d_resolved d)"
    "workload_globally_enabled cfg w (d_resolved d)" "is_granted w (d_resolved d) (Some p)" "st = ''active''"
    "enforce \<longrightarrow> active_job_count uid (d_resolved d) (ai_work db) < or_one_limit (provider_concurrency (d_resolved d) p)"
    "d_policy_version d = Some (policy_version p)" "d_model d = model_for cfg w (d_resolved d)"
proof -
  obtain req where req: "requested_backend_of requested = Inr req"
    using r by (auto simp: resolve_backend_def bindE_Inr_iff)
  let ?b = "selected_backend req (get_policy uid db)"
  have nb: "d_resolved (api_decision cfg rq w rs v) = API" for rq rs v by (simp add: api_decision_def)
  obtain p where p: "get_policy uid db = Some p" and d: "d_resolved d = ?b" "?b \<noteq> API" "globally_enabled cfg ?b"
      "workload_globally_enabled cfg w ?b" "is_granted w ?b (Some p)" "st = ''active''"
      "enforce \<longrightarrow> active_job_count uid ?b (ai_work db) < or_one_limit (provider_concurrency ?b p)"
      "d_policy_version d = Some (policy_version p)" "d_model d = model_for cfg w ?b"
  proof (cases "get_policy uid db")
    case None
    have "d_resolved d = API"
      using r unfolding resolve_backend_def req None Let_def is_granted_def
      by (auto simp: nb split: if_split_asm)
    with s show ?thesis by simp
  next
    case (Some p)
    let ?sub = "d_resolved d = ?b \<and> ?b \<noteq> API \<and> globally_enabled cfg ?b \<and>
      workload_globally_enabled cfg w ?b \<and> is_granted w ?b (Some p) \<and> st = ''active'' \<and>
      (enforce \<longrightarrow> active_job_count uid ?b (ai_work db) < or_one_limit (provider_concurrency ?b p)) \<and>
      d_policy_version d = Some (policy_version p) \<and> d_model d = model_for cfg w ?b"
    have "d_resolved d = API \<or> ?sub"
      using r unfolding resolve_backend_def req Some Let_def bindE_simps option.case
      by (cases "enforce \<and> or_one_limit (provider_concurrency (selected_backend req (Some p)) p)
             \<le> active_job_count uid (selected_backend req (Some p)) (ai_work db)")
         (simp_all add: nb not_le split: if_split_asm, auto simp: nb not_le)
    with s have ?sub by blast
    with Some that show ?thesis by blast
  qed
  show thesis using that [OF p] d by simp
qed

text \<open>backend resolution never grants by itself. A decision for a subscription backend exists only when
  the backend and the workload are globally enabled, the user's policy grants that workload on that
  backend, the account is active and, when asked, the user's active jobs are below the policy's limit;
  the decision carries the version of that policy. An explicit request is decided for exactly the
  requested backend or refused, never silently redirected.
\<close>

lemma resolve_backend_authorized:
  assumes r: "resolve_backend cfg uid st w requested enforce db = Inr d"
  shows "(d_resolved d \<noteq> API \<longrightarrow> (\<exists>p. policies db uid = Some p \<and> globally_enabled cfg (d_resolved d) \<and>
      workload_globally_enabled cfg w (d_resolved d) \<and> provider_enabled (d_resolved d) p \<and>
      workload_value w \<in> set (provider_workloads (d_resolved d) p) \<and> w \<in> set (implemented (d_resolved d)) \<and> st = ''active'' \<and>
      (enforce \<longrightarrow> active_job_count uid (d_resolved d) (ai_work db) < or_one_limit (provider_concurrency (d_resolved d) p)) \<and>
      d_policy_version d = Some (policy_version p))) \<and>
    (\<exists>req. requested_of requested = Some req \<and> d_requested d = req \<and>
       (\<forall>b. explicit_backend req = Some b \<longrightarrow> d_resolved d = b))"
proof (intro conjI impI)
  assume "d_resolved d \<noteq> API"
  then obtain p where p: "get_policy uid db = Some p" "is_granted w (d_resolved d) (Some p)"
    and rest: "globally_enabled cfg (d_resolved d)" "workload_globally_enabled cfg w (d_resolved d)" "st = ''active''"
    "enforce \<longrightarrow> active_job_count uid (d_resolved d) (ai_work db) < or_one_limit (provider_concurrency (d_resolved d) p)"
    "d_policy_version d = Some (policy_version p)"
    using resolve_backendD [OF r] by metis
  have "policies db uid = Some p" using p(1) by (simp add: get_policy_def)
  moreover have "provider_enabled (d_resolved d) p" "workload_value w \<in> set (provider_workloads (d_resolved d) p)"
    "w \<in> set (implemented (d_resolved d))"
    using p(2) by (simp_all add: is_granted_def)
  ultimately show "\<exists>p. policies db uid = Some p \<and> globally_enabled cfg (d_resolved d) \<and>
      workload_globally_enabled cfg w (d_resolved d) \<and> provider_enabled (d_resolved d) p \<and>
      workload_value w \<in> set (provider_workloads (d_resolved d) p) \<and> w \<in> set (implemented (d_resolved d)) \<and> st = ''active'' \<and>
      (enforce \<longrightarrow> active_job_count uid (d_resolved d) (ai_work db) < or_one_limit (provider_concurrency (d_resolved d) p)) \<and>
      d_policy_version d = Some (policy_version p)"
    using rest by blast
next
  obtain req where req: "requested_backend_of requested = Inr req"
    using r by (auto simp: resolve_backend_def bindE_Inr_iff)
  have nb: "d_resolved (api_decision cfg rq w rs v) = API" "d_requested (api_decision cfg rq w rs v) = rq" for rq rs v
    by (simp_all add: api_decision_def)
  have "d_requested d = req"
    using r unfolding resolve_backend_def req Let_def bindE_simps
    by (auto simp: nb split: if_split_asm option.split_asm)
  moreover have "d_resolved d = b" if "explicit_backend req = Some b" for b
  proof (cases "req = Req_API")
    case True
    with r that show ?thesis unfolding resolve_backend_def req Let_def bindE_simps by (auto simp: nb)
  next
    case False
    with that have na: "req \<noteq> Req_AUTO" by (cases req) simp_all
    have sel: "selected_backend req (get_policy uid db) = b" "b \<noteq> API"
      using that False by (cases req; simp add: selected_backend_def)+
    show ?thesis
      using r False na sel unfolding resolve_backend_def req Let_def bindE_simps
      by (auto split: if_split_asm option.split_asm)
  qed
  ultimately show "\<exists>req. requested_of requested = Some req \<and> d_requested d = req \<and>
       (\<forall>b. explicit_backend req = Some b \<longrightarrow> d_resolved d = b)"
    using req by (simp add: requested_backend_of_Inr)
qed

definition demo_policy :: ai_policy where
  "demo_policy = \<lparr>p_user_id = 7, agy_enabled = True, openai_codex_enabled = False, default_backend = AGY,
     agy_workloads = [''translate_batch''], openai_codex_workloads = [], fallback_to_api = True,
     max_concurrent_agy_jobs = 2, max_concurrent_openai_codex_jobs = 1, policy_version = 4, p_notes = None,
     granted_by = Some 1\<rparr>"

definition demo_ai_db :: ai_db where
  "demo_ai_db = \<lparr>policies = [7 \<mapsto> demo_policy], ai_work = demo_db\<rparr>"

lemma demo_resolve:
  "resolve_backend demo_settings 7 ''active'' TRANSLATE_BATCH ''auto'' True demo_ai_db =
    Inr \<lparr>d_requested = Req_AUTO, d_resolved = AGY, d_workload = TRANSLATE_BATCH, d_reason = ''user_policy_default'',
      d_policy_version = Some 4, d_fallback_to_api = True, d_model = Some ''agy-t''\<rparr>"
  by code_simp

lemma resolve_backend_authorized_witness:
  "\<exists>p. policies demo_ai_db 7 = Some p \<and> provider_enabled AGY p \<and> ''translate_batch'' \<in> set (provider_workloads AGY p)"
  using resolve_backend_authorized [OF demo_resolve] by auto

section \<open>Revocation\<close>

text \<open>A job that will not do more subscription work: settled, or running with a cancellation pending.\<close>

definition stopped :: "job \<Rightarrow> bool" where
  "stopped j \<longleftrightarrow> j_status j \<notin> {Queued, Waiting_provider} \<and> (j_status j = Running \<longrightarrow> j_cancel_requested_at j \<noteq> None)"

lemma stopped_settled [simp]: "stopped (settled clk b j) \<longleftrightarrow> stopped j"
  by (simp add: stopped_def settled_def)

lemma cancel_job_effect:
  assumes ok: "db_ok db"
  shows "\<exists>c db'. cancel_job clk jid db = (Inr c, db') \<and> db_ok db' \<and>
    (\<forall>i. i \<noteq> jid \<longrightarrow> get_job i db' = get_job i db) \<and>
    (\<forall>j'. get_job jid db' = Some j' \<longrightarrow> stopped j') \<and> (get_job jid db' = None \<longleftrightarrow> get_job jid db = None)"
proof -
  let ?p = "\<lambda>j. j_status j \<in> {Queued, Running, Waiting_provider}" and ?f = "cancel_row clk"
  let ?u = "snd (update_where jid ?p ?f db)"
  have ids: "\<And>j. j_id (?f j) = j_id j" by (simp add: cancel_row_def)
  have up: "update_where jid ?p ?f db =
      (Inr (case get_job jid db of None \<Rightarrow> None | Some j \<Rightarrow> if ?p j then Some (?f j) else None), ?u)"
    by (simp only: update_where_def snd_conv)
  have ok1: "db_ok ?u"
    by (rule update_where_db_ok [OF ids _ ok]) (auto simp: job_ok_def cancel_row_def)
  define h where "h = (\<lambda>j. if ?p j then ?f j else j)"
  have g: "get_job i ?u = (if i = jid then map_option h (get_job i db) else get_job i db)" for i
    unfolding h_def by (rule get_job_update_where [OF ids])
  have st: "stopped (h j)" for j
    by (cases "j_status j") (auto simp: h_def stopped_def cancel_row_def)
  obtain q where fin: "finalize clk jid False ?u = (Inr (), (settled_db clk False jid ?u)\<lparr>quota := q\<rparr>)"
    using finalize_total [OF ok1] by blast
  let ?v = "(settled_db clk False jid ?u)\<lparr>quota := q\<rparr>"
  have gv: "get_job i ?v = get_job i (settled_db clk False jid ?u)" for i by (simp add: get_job_def)
  have okv: "db_ok ?v" using keepsD [OF keeps_finalize ok1, of clk jid False] fin by simp
  have "\<exists>c. cancel_job clk jid db = (Inr c, ?u) \<or> cancel_job clk jid db = (Inr c, ?v)"
  proof -
    let ?r = "case get_job jid db of None \<Rightarrow> None | Some j \<Rightarrow> if ?p j then Some (?f j) else None"
    have run: "cancel_job clk jid db = (case ?r of None \<Rightarrow> returnS False
        | Some j \<Rightarrow> if j_status j = Canceled then bindS (finalize clk jid False) (\<lambda>_. returnS True) else returnS True) ?u"
      unfolding cancel_job_def by (rule bindS_Inr) (rule up)
    show ?thesis
    proof (cases ?r)
      case None
      have "cancel_job clk jid db = (Inr False, ?u)" unfolding run None by simp
      then show ?thesis by blast
    next
      case (Some j)
      have fr: "bindS (finalize clk jid False) (\<lambda>_. returnS True) ?u = (Inr True, ?v)"
        unfolding bindS_def fin by simp
      have "cancel_job clk jid db = (if j_status j = Canceled then (Inr True, ?v) else (Inr True, ?u))"
        unfolding run Some option.case by (cases "j_status j = Canceled") (simp_all only: fr simp_thms if_True if_False returnS_apply)
      then show ?thesis by (cases "j_status j = Canceled") (auto simp only: simp_thms if_True if_False)
    qed
  qed
  moreover have "(\<forall>i. i \<noteq> jid \<longrightarrow> get_job i ?u = get_job i db) \<and>
    (\<forall>j'. get_job jid ?u = Some j' \<longrightarrow> stopped j') \<and> (get_job jid ?u = None \<longleftrightarrow> get_job jid db = None)"
    unfolding g by (cases "get_job jid db") (simp_all add: st)
  moreover have "(\<forall>i. i \<noteq> jid \<longrightarrow> get_job i ?v = get_job i db) \<and>
    (\<forall>j'. get_job jid ?v = Some j' \<longrightarrow> stopped j') \<and> (get_job jid ?v = None \<longleftrightarrow> get_job jid db = None)"
    unfolding gv get_job_settled_db g by (cases "get_job jid db") (simp_all add: st)
  ultimately show ?thesis using ok1 okv by metis
qed

lemma cancel_all_effect:
  "db_ok db \<Longrightarrow> \<exists>n db'. cancel_all clk is db = (Inr n, db') \<and> db_ok db' \<and>
    (\<forall>i. i \<notin> set is \<longrightarrow> get_job i db' = get_job i db) \<and> (\<forall>i. get_job i db' = None \<longleftrightarrow> get_job i db = None) \<and>
    (\<forall>i \<in> set is. \<forall>j'. get_job i db' = Some j' \<longrightarrow> stopped j')"
proof (induction "is" arbitrary: db)
  case Nil
  then show ?case by simp
next
  case (Cons k ks)
  obtain c db1 where c: "cancel_job clk k db = (Inr c, db1)" "db_ok db1"
      "\<forall>i. i \<noteq> k \<longrightarrow> get_job i db1 = get_job i db" "\<forall>j'. get_job k db1 = Some j' \<longrightarrow> stopped j'"
      "get_job k db1 = None \<longleftrightarrow> get_job k db = None"
    using cancel_job_effect [OF Cons.prems, of clk k] by (elim exE conjE) (rule that; assumption)
  obtain n db' where a: "cancel_all clk ks db1 = (Inr n, db')" "db_ok db'"
      "\<forall>i. i \<notin> set ks \<longrightarrow> get_job i db' = get_job i db1" "\<forall>i \<in> set ks. \<forall>j'. get_job i db' = Some j' \<longrightarrow> stopped j'"
      "\<forall>i. get_job i db' = None \<longleftrightarrow> get_job i db1 = None"
    using Cons.IH [OF c(2)] by (elim exE conjE) (rule that; assumption)
  have "cancel_all clk (k # ks) db = (Inr (n + of_bool c), db')" using c(1) a(1) by (simp add: bindS_def)
  moreover have "stopped j'" if "get_job k db' = Some j'" for j'
    using that a(3,4) c(4) by (cases "k \<in> set ks") auto
  moreover have "get_job i db' = None \<longleftrightarrow> get_job i db = None" for i
    using a(5) c(3,5) by (cases "i = k") auto
  ultimately show ?case using a c(3) by auto
qed

text \<open>What cancelling the revoked jobs does: it stops the jobs concerned and leaves the others alone.\<close>

definition revoke_effect :: "int \<Rightarrow> execution_backend \<Rightarrow> string list \<Rightarrow> work_db \<Rightarrow> work_db \<Rightarrow> bool" where
  "revoke_effect uid b kinds db db' \<longleftrightarrow>
    (\<forall>i j. get_job i db = Some j \<longrightarrow> j_user_id j \<noteq> Some uid \<or> j_execution_backend j \<noteq> b \<longrightarrow> get_job i db' = Some j) \<and>
    (\<forall>i j. get_job i db = Some j \<longrightarrow> j_user_id j = Some uid \<longrightarrow> j_execution_backend j = b \<longrightarrow>
       j_kind j \<in> set kinds \<longrightarrow> (\<forall>j'. get_job i db' = Some j' \<longrightarrow> stopped j')) \<and>
    (\<forall>i j j'. get_job i db = Some j \<longrightarrow> stopped j \<longrightarrow> get_job i db' = Some j' \<longrightarrow> stopped j') \<and>
    (\<forall>i. get_job i db' = None \<longleftrightarrow> get_job i db = None)"

lemma revoke_effectD:
  assumes "revoke_effect uid b kinds db db'"
  shows "get_job i db = Some j \<Longrightarrow> j_user_id j \<noteq> Some uid \<or> j_execution_backend j \<noteq> b \<Longrightarrow> get_job i db' = Some j"
    and "get_job i db = Some j \<Longrightarrow> j_user_id j = Some uid \<Longrightarrow> j_execution_backend j = b \<Longrightarrow> j_kind j \<in> set kinds \<Longrightarrow>
      get_job i db' = Some j' \<Longrightarrow> stopped j'"
    and "get_job i db = Some j \<Longrightarrow> stopped j \<Longrightarrow> get_job i db' = Some j' \<Longrightarrow> stopped j'"
    and "get_job i db' = Some j' \<Longrightarrow> \<exists>j. get_job i db = Some j"
  using assms unfolding revoke_effect_def by (blast, blast, blast, metis option.exhaust)

lemma cancel_revoked_effect:
  assumes ok: "db_ok db"
  shows "\<exists>n db'. cancel_revoked_jobs clk uid removed b db = (Inr n, db') \<and> db_ok db' \<and>
    revoke_effect uid b (revoked_kinds removed b) db db'"
proof (cases "revoked_kinds removed b = []")
  case True
  then show ?thesis using ok by (auto simp: cancel_revoked_jobs_def revoke_effect_def)
next
  case False
  let ?ids = "revoked_job_ids uid (revoked_kinds removed b) b db"
  obtain n db' where a: "cancel_all clk ?ids db = (Inr n, db')" "db_ok db'"
      "\<forall>i. i \<notin> set ?ids \<longrightarrow> get_job i db' = get_job i db" "\<forall>i \<in> set ?ids. \<forall>j'. get_job i db' = Some j' \<longrightarrow> stopped j'"
      "\<forall>i. get_job i db' = None \<longleftrightarrow> get_job i db = None"
    using cancel_all_effect [OF ok, of clk ?ids] by (elim exE conjE) (rule that; assumption)
  have mem: "i \<in> set ?ids \<longleftrightarrow> j_user_id j = Some uid \<and> j_execution_backend j = b \<and>
      j_kind j \<in> set (revoked_kinds removed b) \<and> j_status j \<in> {Queued, Running, Waiting_provider}"
    if gj: "get_job i db = Some j" for i j
  proof -
    have row: "j \<in> set (jobs db)" "j_id j = i" using gj by (auto simp: get_job_def dest: row_by_Some)
    let ?P = "\<lambda>j. j_user_id j = Some uid \<and> j_execution_backend j = b \<and>
      j_kind j \<in> set (revoked_kinds removed b) \<and> j_status j \<in> {Queued, Running, Waiting_provider}"
    have "x = j" if x: "x \<in> set (jobs db)" "j_id x = i" for x
      using get_job_in [OF ok x(1)] x(2) gj by simp
    moreover have "i \<in> set ?ids \<longleftrightarrow> (\<exists>x. x \<in> set (jobs db) \<and> ?P x \<and> i = j_id x)"
      by (simp only: revoked_job_ids_def set_map set_filter image_iff mem_Collect_eq Bex_def conj_assoc)
    ultimately show ?thesis using row by blast
  qed
  have run: "cancel_revoked_jobs clk uid removed b db = (Inr n, db')"
    using a(1) False by (simp add: cancel_revoked_jobs_def)
  have s: "stopped j" if "get_job i db = Some j" "i \<notin> set ?ids" "j_user_id j = Some uid" "j_execution_backend j = b"
      "j_kind j \<in> set (revoked_kinds removed b)" for i j
    using mem [OF that(1)] that by (cases "j_status j") (auto simp: stopped_def)
  have "get_job i db' = Some j" if "get_job i db = Some j" "j_user_id j \<noteq> Some uid \<or> j_execution_backend j \<noteq> b" for i j
    using mem [OF that(1)] that a(3) by auto
  moreover have "stopped j'" if "get_job i db = Some j" "j_user_id j = Some uid" "j_execution_backend j = b"
      "j_kind j \<in> set (revoked_kinds removed b)" "get_job i db' = Some j'" for i j j'
    using a(3,4) s [OF that(1)] that by (cases "i \<in> set ?ids") auto
  moreover have "stopped j'" if "get_job i db = Some j" "stopped j" "get_job i db' = Some j'" for i j j'
    using a(3,4) that by (cases "i \<in> set ?ids") auto
  ultimately have "revoke_effect uid b (revoked_kinds removed b) db db'"
    using a(5) unfolding revoke_effect_def by blast
  with run a(2) show ?thesis by blast
qed

text \<open>revoking a grant stops the work it allowed. After \<open>delete_policy\<close> the user has no policy, nobody
  else's policy has changed, every job of the user on a subscription backend that runs a granted kind
  of work is settled or has a cancellation pending, and no job of another user is touched.
\<close>

lemma revocation_complete:
  assumes ok: "db_ok (ai_work db)" and p: "policies db uid = Some p"
  shows "\<exists>db'. delete_policy clk uid db = (Inr True, db') \<and> policies db' = (policies db)(uid := None) \<and> db_ok (ai_work db') \<and>
    (\<forall>i j b. get_job i (ai_work db) = Some j \<and> j_user_id j = Some uid \<and> j_execution_backend j = b \<and> b \<in> {AGY, OPENAI_CODEX} \<and>
       j_kind j \<in> set (revoked_kinds None b) \<longrightarrow> (\<forall>j'. get_job i (ai_work db') = Some j' \<longrightarrow> stopped j')) \<and>
    (\<forall>i j. get_job i (ai_work db) = Some j \<and> j_user_id j \<noteq> Some uid \<longrightarrow> get_job i (ai_work db') = Some j)"
proof -
  let ?w = "ai_work db"
  obtain n1 w1 where a: "cancel_revoked_jobs clk uid None AGY ?w = (Inr n1, w1)" "db_ok w1"
      "revoke_effect uid AGY (revoked_kinds None AGY) ?w w1"
    using cancel_revoked_effect [OF ok] by blast
  obtain n2 w2 where b: "cancel_revoked_jobs clk uid None OPENAI_CODEX w1 = (Inr n2, w2)" "db_ok w2"
      "revoke_effect uid OPENAI_CODEX (revoked_kinds None OPENAI_CODEX) w1 w2"
    using cancel_revoked_effect [OF a(2)] by blast
  let ?db' = "db\<lparr>policies := (policies db)(uid := None), ai_work := w2\<rparr>"
  have run: "delete_policy clk uid db = (Inr True, ?db')"
    using p a(1) b(1) by (simp add: delete_policy_def bindS_def on_work_def)
  have kept: "get_job i w2 = Some j" if "get_job i ?w = Some j" "j_user_id j \<noteq> Some uid" for i j
    using revoke_effectD(1) [OF b(3) revoke_effectD(1) [OF a(3) that(1)]] that(2) by blast
  have stops: "stopped j'" if j: "get_job i ?w = Some j" "j_user_id j = Some uid" "j_execution_backend j = c"
      "c \<in> {AGY, OPENAI_CODEX}" "j_kind j \<in> set (revoked_kinds None c)" "get_job i w2 = Some j'" for i j c j'
  proof (cases "c = AGY")
    case False
    with j have "c = OPENAI_CODEX" by simp
    with j revoke_effectD(1) [OF a(3) j(1)] show ?thesis using revoke_effectD(2) [OF b(3) _ j(2) _ _ j(6)] by simp
  next
    case True
    obtain j1 where j1: "get_job i w1 = Some j1" using revoke_effectD(4) [OF b(3) j(6)] by blast
    then have "stopped j1" using revoke_effectD(2) [OF a(3) j(1,2)] j(3,5) True by simp
    with revoke_effectD(3) [OF b(3) j1] j(6) show ?thesis by blast
  qed
  have "policies ?db' = (policies db)(uid := None)" "ai_work ?db' = w2" by simp_all
  with run b(2) show ?thesis
  proof (intro exI [of _ ?db'] conjI allI impI)
    fix i j c j'
    assume "get_job i ?w = Some j \<and> j_user_id j = Some uid \<and> j_execution_backend j = c \<and> c \<in> {AGY, OPENAI_CODEX} \<and>
        j_kind j \<in> set (revoked_kinds None c)" and "get_job i (ai_work ?db') = Some j'"
    then show "stopped j'" using stops [of i j c j'] by simp
  qed (use kept in simp_all)
qed

definition demo_agy_job :: job where
  "demo_agy_job = demo_job\<lparr>j_execution_backend := AGY\<rparr>"

definition demo_ai_db2 :: ai_db where
  "demo_ai_db2 = demo_ai_db\<lparr>ai_work := demo_db\<lparr>jobs := [demo_agy_job]\<rparr>\<rparr>"

lemma revocation_complete_witness:
  "\<exists>db'. delete_policy demo_clk 7 demo_ai_db2 = (Inr True, db') \<and> policies db' 7 = None \<and>
     \<not> (\<exists>j'. get_job 1 (ai_work db') = Some j' \<and> j_status j' = Queued)"
proof -
  have ok: "db_ok (ai_work demo_ai_db2)"
    using demo_db_ok by (simp add: demo_ai_db2_def demo_agy_job_def db_ok_def job_ok_def demo_db_def demo_job_def inserted_job_def)
  have p: "policies demo_ai_db2 7 = Some demo_policy" by (simp add: demo_ai_db2_def demo_ai_db_def)
  have j: "get_job 1 (ai_work demo_ai_db2) = Some demo_agy_job" "j_user_id demo_agy_job = Some 7"
    "j_execution_backend demo_agy_job = AGY" "j_kind demo_agy_job \<in> set (revoked_kinds None AGY)"
    by (simp_all add: demo_ai_db2_def demo_agy_job_def get_job_def demo_job_def inserted_job_def demo_new_job_def revoked_kinds_def Let_def)
  obtain db' where r: "delete_policy demo_clk 7 demo_ai_db2 = (Inr True, db')" "policies db' = (policies demo_ai_db2)(7 := None)"
    and st: "\<forall>i j b. get_job i (ai_work demo_ai_db2) = Some j \<and> j_user_id j = Some 7 \<and> j_execution_backend j = b \<and>
      b \<in> {AGY, OPENAI_CODEX} \<and> j_kind j \<in> set (revoked_kinds None b) \<longrightarrow>
      (\<forall>j'. get_job i (ai_work db') = Some j' \<longrightarrow> stopped j')"
    using revocation_complete [OF ok p, of demo_clk] by (elim exE conjE) (rule that; assumption)
  have "stopped j'" if "get_job 1 (ai_work db') = Some j'" for j'
    using st [THEN spec, of 1, THEN spec, of demo_agy_job, THEN spec, of AGY] j that by simp
  with r have "delete_policy demo_clk 7 demo_ai_db2 = (Inr True, db') \<and> policies db' 7 = None \<and>
     \<not> (\<exists>j'. get_job 1 (ai_work db') = Some j' \<and> j_status j' = Queued)"
    by (auto simp: stopped_def)
  then show ?thesis by blast
qed

section \<open>The constraints of the policy table\<close>

definition policy_ok :: "ai_policy \<Rightarrow> bool" where
  "policy_ok p \<longleftrightarrow>
     (default_backend p = AGY \<longrightarrow> agy_enabled p) \<and> (default_backend p = OPENAI_CODEX \<longrightarrow> openai_codex_enabled p) \<and>
     set (agy_workloads p) \<subseteq> workload_value ` set workloads \<and> set (openai_codex_workloads p) \<subseteq> workload_value ` set workloads \<and>
     distinct (agy_workloads p) \<and> distinct (openai_codex_workloads p) \<and>
     1 \<le> max_concurrent_agy_jobs p \<and> max_concurrent_agy_jobs p \<le> 4 \<and>
     1 \<le> max_concurrent_openai_codex_jobs p \<and> max_concurrent_openai_codex_jobs p \<le> 4 \<and> 1 \<le> policy_version p"

definition policies_ok :: "ai_db \<Rightarrow> bool" where
  "policies_ok db \<longleftrightarrow> (\<forall>uid p. policies db uid = Some p \<longrightarrow> policy_ok p \<and> p_user_id p = uid)"

lemma policies_on_work [simp]: "policies (snd (on_work m db)) = policies db"
  by (simp add: on_work_def split: prod.splits)

lemma keeps_on_work [keeps_rules]: "keeps policies_ok (on_work m)"
  by (simp add: keeps_def policies_ok_def)

lemma set_sorted_set [simp]: "set (sorted_set xs) = set xs"
  by (simp add: sorted_set_def)

lemma filter_none: "filter P xs = [] \<Longrightarrow> x \<in> set xs \<Longrightarrow> \<not> P x"
  by (metis filter_empty_conv)

lemma check_values_policy_ok:
  assumes c: "check_values v = Inr d" and v: "1 \<le> ver"
  shows "policy_ok (new_policy uid v d admin ver)"
proof -
  let ?bad = "\<lambda>w. w \<notin> workload_value ` set workloads"
  have known: "filter ?bad (sorted_set (pv_agy_workloads v @ pv_openai_codex_workloads v)) = []"
    using c by (simp add: check_values_def Let_def split: if_splits)
  have "w \<in> workload_value ` set workloads" if "w \<in> set (pv_agy_workloads v) \<union> set (pv_openai_codex_workloads v)" for w
    using filter_none [OF known, of w] that by simp
  moreover have "(d = AGY \<longrightarrow> pv_agy_enabled v) \<and> (d = OPENAI_CODEX \<longrightarrow> pv_openai_codex_enabled v) \<and>
      1 \<le> pv_max_concurrent_agy_jobs v \<and> pv_max_concurrent_agy_jobs v \<le> 4 \<and>
      1 \<le> pv_max_concurrent_openai_codex_jobs v \<and> pv_max_concurrent_openai_codex_jobs v \<le> 4"
    using c unfolding check_values_def Let_def known by (auto split: option.splits if_splits)
  ultimately show ?thesis
    using v by (auto simp: policy_ok_def new_policy_def sorted_set_def)
qed

text \<open>
  C39: the policy table stays well typed. Whatever an admin sends, \<open>upsert_policy\<close> and \<open>delete_policy\<close>
  keep every row within the table's constraints: the default backend is enabled, the workload arrays
  hold distinct known workloads, the concurrency limits are 1 to 4, the version is positive, and a row
  is filed under its own user. Refused values change nothing.
\<close>

theorem policies_well_typed:
  "keeps policies_ok (upsert_policy clk ex uid v admin) \<and> keeps policies_ok (delete_policy clk uid) \<and>
   (\<forall>e db. check_values v = Inl e \<longrightarrow> upsert_policy clk ex uid v admin db = (Inl e, db))"
proof (intro conjI allI impI)
  show "keeps policies_ok (upsert_policy clk ex uid v admin)"
    unfolding keeps_def
  proof (intro allI impI)
    fix db assume ok: "policies_ok db"
    show "policies_ok (snd (upsert_policy clk ex uid v admin db))"
    proof (cases "check_values v")
      case (Inl e)
      then show ?thesis using ok by (simp add: upsert_policy_def)
    next
      case (Inr d)
      let ?p = "new_policy uid v d admin (case policies db uid of None \<Rightarrow> 1 | Some q \<Rightarrow> policy_version q + 1)"
      have "1 \<le> (case policies db uid of None \<Rightarrow> 1 | Some q \<Rightarrow> policy_version q + 1)"
        using ok by (auto simp: policies_ok_def policy_ok_def split: option.splits) (smt (verit))
      then have new: "policy_ok ?p" by (rule check_values_policy_ok [OF Inr])
      have ok1: "policies_ok (db\<lparr>policies := (policies db)(uid \<mapsto> ?p)\<rparr>)"
        using ok new by (simp add: policies_ok_def new_policy_def)
      have "keeps policies_ok (bindS (on_work (revoke_changed clk uid q ?p AGY)) (\<lambda>_.
          bindS (on_work (revoke_changed clk uid q ?p OPENAI_CODEX)) (\<lambda>_. returnS ?p)))" for q
        by (intro keeps_rules)
      from keepsD [OF this ok1] show ?thesis using Inr ok ok1
        by (simp add: upsert_policy_def Let_def split: option.splits)
    qed
  qed
next
  show "keeps policies_ok (delete_policy clk uid)"
    unfolding keeps_def
  proof (intro allI impI)
    fix db assume ok: "policies_ok db"
    then have ok1: "policies_ok (db\<lparr>policies := (policies db)(uid := None)\<rparr>)" by (simp add: policies_ok_def)
    have "keeps policies_ok (bindS (on_work (cancel_revoked_jobs clk uid None AGY)) (\<lambda>_.
          bindS (on_work (cancel_revoked_jobs clk uid None OPENAI_CODEX)) (\<lambda>_. returnS True)))"
      by (intro keeps_rules)
    from keepsD [OF this ok1] show "policies_ok (snd (delete_policy clk uid db))" using ok
      by (simp add: delete_policy_def split: option.splits)
  qed
next
  fix e db assume "check_values v = Inl e"
  then show "upsert_policy clk ex uid v admin db = (Inl e, db)" by (simp add: upsert_policy_def)
qed

theorem policies_well_typed_witness:
  "policies_ok (snd (delete_policy demo_clk 8 demo_ai_db)) \<and>
   upsert_policy demo_clk (\<lambda>_. True) 7
     \<lparr>pv_agy_enabled = True, pv_openai_codex_enabled = False, pv_default_backend = ''agy'', pv_agy_workloads = [],
      pv_openai_codex_workloads = [], pv_fallback_to_api = False, pv_max_concurrent_agy_jobs = 5,
      pv_max_concurrent_openai_codex_jobs = 1, pv_notes = None\<rparr> 1 demo_ai_db =
     (Inl (ValidationFailed ''max_concurrent_agy_jobs must be between 1 and 4.''), demo_ai_db)"
proof
  have "policies_ok demo_ai_db"
    by (simp add: policies_ok_def demo_ai_db_def policy_ok_def demo_policy_def workloads_def)
  then show "policies_ok (snd (delete_policy demo_clk 8 demo_ai_db))"
    by (rule keepsD [OF policies_well_typed [THEN conjunct2, THEN conjunct1]])
next
  let ?v = "\<lparr>pv_agy_enabled = True, pv_openai_codex_enabled = False, pv_default_backend = ''agy'', pv_agy_workloads = [],
      pv_openai_codex_workloads = [], pv_fallback_to_api = False, pv_max_concurrent_agy_jobs = 5,
      pv_max_concurrent_openai_codex_jobs = 1, pv_notes = None\<rparr>"
  have "check_values ?v = Inl (ValidationFailed ''max_concurrent_agy_jobs must be between 1 and 4.'')"
    by (simp add: check_values_def Let_def sorted_set_def backend_of_def)
  then show "upsert_policy demo_clk (\<lambda>_. True) 7 ?v 1 demo_ai_db =
     (Inl (ValidationFailed ''max_concurrent_agy_jobs must be between 1 and 4.''), demo_ai_db)"
    by (rule policies_well_typed [THEN conjunct2, THEN conjunct2, THEN spec, THEN spec, THEN mp])
qed

end
