(* ===== verification/Translation_Schedule.thy ===== *)
theory Translation_Schedule
  imports Translation_Flow Ai_Policy
begin

text \<open>
  Scheduling a translation batch: \<open>workflows/schedule_ai_job.py\<close>,
  \<open>modules/translation/application/scheduling.py\<close> and the bridges of
  \<open>modules/translation/adapters/outbound/scheduling.py\<close>, over the policy and work stores. The catalogue's
  edit check and the rendering of chapter numbers are arguments; the Reading store is only read.
\<close>

section \<open>Reserve, schedule, refund\<close>

definition schedule_ai_job ::
  "('s, unit) op \<Rightarrow> ('s, int \<times> bool) op \<Rightarrow> ('s, unit) op \<Rightarrow> ('s, unit) op \<Rightarrow> ('s, int \<times> bool) op" where
  "schedule_ai_job reserve_op schedule_op refund_op before =
     bindS reserve_op (\<lambda>_.
     bindS (catchS (bindS before (\<lambda>_. schedule_op)) (\<lambda>e. bindS refund_op (\<lambda>_. raiseS e))) (\<lambda>(jid, created).
       if created then returnS (jid, created)
       else bindS refund_op (\<lambda>_. returnS (jid, created))))"

section \<open>The command\<close>

record schedule_translation =
  sd_from :: "rat option"
  sd_to :: "rat option"
  sd_force :: bool
  sd_seed :: bool
  sd_ai_backend :: string

definition bit_text :: "bool \<Rightarrow> string" where
  "bit_text b = (if b then ''1'' else ''0'')"

definition translate_key :: "(rat option \<Rightarrow> string) \<Rightarrow> int \<Rightarrow> schedule_translation \<Rightarrow> string" where
  "translate_key fmt nid cmd =
     ''translate:novel'' @ show_int nid @ '':'' @ fmt (sd_from cmd) @ '':'' @ fmt (sd_to cmd) @ '':'' @
     bit_text (sd_force cmd) @ '':seed'' @ bit_text (sd_seed cmd)"

record schedule_result =
  sr_message :: string
  sr_job_id :: int
  sr_deduped :: bool
  sr_chapters :: int
  sr_execution_backend :: execution_backend
  sr_model :: "string option"
  sr_backend_reason :: string

text \<open>\<open>int((job.get("progress") or {}).get("total") or 0)\<close>, for a total that is a number.\<close>

definition progress_total :: "job \<Rightarrow> int" where
  "progress_total j = (case json_get ''total'' (j_progress j) of Some (JInt n) \<Rightarrow> n | _ \<Rightarrow> 0)"

definition number_json :: "rat option \<Rightarrow> json" where
  "number_json x = (case x of None \<Rightarrow> JNull | Some r \<Rightarrow> JFloat r)"

definition translate_options :: "schedule_translation \<Rightarrow> json" where
  "translate_options cmd =
     JObj [(''from_chapter'', number_json (sd_from cmd)), (''to_chapter'', number_json (sd_to cmd)),
           (''force'', JBool (sd_force cmd)), (''seed_from_codex'', JBool (sd_seed cmd))]"

definition translate_job ::
  "settings \<Rightarrow> int \<Rightarrow> int \<Rightarrow> int \<Rightarrow> principal \<Rightarrow> schedule_translation \<Rightarrow> string \<Rightarrow> backend_decision \<Rightarrow> int \<Rightarrow> new_job" where
  "translate_job cfg agy_max codex_max nid p cmd key d reserved =
     \<lparr>nj_novel_id = Some nid, nj_user_id = Some (user_id p), nj_options = translate_options cmd,
      nj_idempotency_key = Some key,
      nj_quota_kind = (if reserved \<noteq> 0 then Some ''translated_chapters'' else None), nj_quota_reserved = reserved,
      nj_max_attempts = (case d_resolved d of AGY \<Rightarrow> Some agy_max | OPENAI_CODEX \<Rightarrow> Some codex_max | API \<Rightarrow> None),
      nj_backend_requested = requested_value (d_requested d), nj_execution_backend = d_resolved d,
      nj_backend_policy_version = d_policy_version d, nj_backend_fallback_allowed = d_fallback_to_api d,
      nj_backend_model = d_model d\<rparr>"

text \<open>The errors of \<open>create_job\<close> the work bridge renames.\<close>

definition bridge_error :: "py_error \<Rightarrow> py_error" where
  "bridge_error e = (case e of
       ActiveJobLimitError m \<Rightarrow> QuotaExceeded m
     | BackendPolicyChangedError m \<Rightarrow> Conflict m
     | _ \<Rightarrow> e)"

definition on_ai_quota :: "(quota_table \<Rightarrow> (quota_table \<times> 'a) result) \<Rightarrow> (ai_db, 'a) op" where
  "on_ai_quota f db = (case f (quota (ai_work db)) of
       Inl e \<Rightarrow> (Inl e, db)
     | Inr (q, x) \<Rightarrow> (Inr x, db\<lparr>ai_work := (ai_work db)\<lparr>quota := q\<rparr>\<rparr>))"

definition reserve_units :: "clock \<Rightarrow> principal \<Rightarrow> int \<Rightarrow> int \<Rightarrow> (ai_db, unit) op" where
  "reserve_units clk p pending reserved =
     (if reserved \<noteq> 0
      then on_ai_quota (\<lambda>q. bindE (check_and_reserve q (today clk) p ''translated_chapters'' reserved) (\<lambda>q'. Inr (q', ())))
      else (\<lambda>db. (check_available (quota (ai_work db)) (today clk) p ''translated_chapters'' pending, db)))"

definition refund_units :: "clock \<Rightarrow> principal \<Rightarrow> int \<Rightarrow> (ai_db, unit) op" where
  "refund_units clk p reserved =
     (if reserved \<noteq> 0
      then bindS (on_ai_quota (\<lambda>q. refund q (today clk) (Some (user_id p)) ''translated_chapters'' reserved)) (\<lambda>_. returnS ())
      else returnS ())"

definition create_translation ::
  "settings \<Rightarrow> clock \<Rightarrow> new_job \<Rightarrow> (ai_db, int \<times> bool) op" where
  "create_translation cfg clk nj db =
     catchS (on_work (create_job cfg clk ''translate'' nj (Some (\<lambda>uid. get_policy uid db)))) (\<lambda>e. raiseS (bridge_error e)) db"

definition schedule_decided ::
  "settings \<Rightarrow> int \<Rightarrow> int \<Rightarrow> clock \<Rightarrow> int \<Rightarrow> principal \<Rightarrow> schedule_translation \<Rightarrow> string \<Rightarrow> backend_decision \<Rightarrow> int \<Rightarrow>
   (ai_db, schedule_result) op" where
  "schedule_decided cfg agy_max codex_max clk nid p cmd key d pending =
     (let reserved = (if is_subscription (d_resolved d) then pending else 0)
      in bindS (schedule_ai_job (reserve_units clk p pending reserved)
                  (create_translation cfg clk (translate_job cfg agy_max codex_max nid p cmd key d reserved))
                  (refund_units clk p reserved) (returnS ()))
           (\<lambda>(jid, created). returnS
              \<lparr>sr_message = (if created then ''Translation job scheduled.'' else ''A translation for this range is already running.''),
               sr_job_id = jid, sr_deduped = (\<not> created), sr_chapters = pending, sr_execution_backend = d_resolved d,
               sr_model = d_model d, sr_backend_reason = d_reason d\<rparr>))"

definition schedule_batch ::
  "settings \<Rightarrow> int \<Rightarrow> int \<Rightarrow> access_port \<Rightarrow> (rat option \<Rightarrow> string) \<Rightarrow> clock \<Rightarrow> int \<Rightarrow> principal \<Rightarrow> schedule_translation \<Rightarrow>
   reading_db \<Rightarrow> (ai_db, schedule_result) op" where
  "schedule_batch cfg agy_max codex_max editable fmt clk nid p cmd rdb =
     guarded editable nid (Some p) (\<lambda>_ db.
       let key = translate_key fmt nid cmd in
       case find_active ''translate'' key (ai_work db) of
         Some j \<Rightarrow>
           (Inr \<lparr>sr_message = ''A translation for this range is already running.'', sr_job_id = j_id j, sr_deduped = True,
                 sr_chapters = progress_total j, sr_execution_backend = j_execution_backend j,
                 sr_model = j_backend_model j, sr_backend_reason = ''already_active''\<rparr>, db)
       | None \<Rightarrow>
           (case resolve_backend cfg (user_id p) (status p) TRANSLATE_BATCH (sd_ai_backend cmd) True db of
              Inl e \<Rightarrow> (Inl e, db)
            | Inr d \<Rightarrow> schedule_decided cfg agy_max codex_max clk nid p cmd key d
                         (count_pending nid (sd_from cmd) (sd_to cmd) (sd_force cmd) rdb) db))"

section \<open>The same request one await at a time\<close>

text \<open>
  \<open>TranslationSchedulingService.schedule\<close> awaits each of its calls, and other requests and workers run in
  between. \<open>schedule_step\<close> is the request up to its next await: the edit check, \<open>find_active\<close>, the
  resolution of the backend, the count of the pending chapters, the reservation, the creation, and the
  refund on either of its two branches (\<open>create_job\<close> raised; or it answered \<open>created = False\<close>, because
  another request inserted the job after our \<open>find_active\<close>).
\<close>

datatype schedule_pc =
    Checking
  | Finding
  | Resolving
  | Counting backend_decision
  | Reserving backend_decision int
  | Creating backend_decision int
  | Refunding backend_decision int "int result"
  | Finished "schedule_result result"

definition units_for :: "backend_decision \<Rightarrow> int \<Rightarrow> int" where
  "units_for d pending = (if is_subscription (d_resolved d) then pending else 0)"

definition schedule_answer :: "backend_decision \<Rightarrow> int \<Rightarrow> int \<Rightarrow> bool \<Rightarrow> schedule_result" where
  "schedule_answer d pending jid created =
     \<lparr>sr_message = (if created then ''Translation job scheduled.'' else ''A translation for this range is already running.''),
      sr_job_id = jid, sr_deduped = (\<not> created), sr_chapters = pending, sr_execution_backend = d_resolved d,
      sr_model = d_model d, sr_backend_reason = d_reason d\<rparr>"

fun schedule_step ::
  "settings \<Rightarrow> int \<Rightarrow> int \<Rightarrow> access_port \<Rightarrow> (rat option \<Rightarrow> string) \<Rightarrow> clock \<Rightarrow> int \<Rightarrow> principal \<Rightarrow> schedule_translation \<Rightarrow>
   reading_db \<Rightarrow> schedule_pc \<Rightarrow> ai_db \<Rightarrow> schedule_pc \<times> ai_db" where
  "schedule_step cfg am cm editable fmt clk nid p cmd rdb Checking db =
     ((case editable nid (Some p) of Inl e \<Rightarrow> Finished (Inl e) | Inr _ \<Rightarrow> Finding), db)"
| "schedule_step cfg am cm editable fmt clk nid p cmd rdb Finding db =
     ((case find_active ''translate'' (translate_key fmt nid cmd) (ai_work db) of
         Some j \<Rightarrow> Finished (Inr
           \<lparr>sr_message = ''A translation for this range is already running.'', sr_job_id = j_id j, sr_deduped = True,
            sr_chapters = progress_total j, sr_execution_backend = j_execution_backend j,
            sr_model = j_backend_model j, sr_backend_reason = ''already_active''\<rparr>)
       | None \<Rightarrow> Resolving), db)"
| "schedule_step cfg am cm editable fmt clk nid p cmd rdb Resolving db =
     ((case resolve_backend cfg (user_id p) (status p) TRANSLATE_BATCH (sd_ai_backend cmd) True db of
         Inl e \<Rightarrow> Finished (Inl e)
       | Inr d \<Rightarrow> Counting d), db)"
| "schedule_step cfg am cm editable fmt clk nid p cmd rdb (Counting d) db =
     (Reserving d (count_pending nid (sd_from cmd) (sd_to cmd) (sd_force cmd) rdb), db)"
| "schedule_step cfg am cm editable fmt clk nid p cmd rdb (Reserving d pending) db =
     (case reserve_units clk p pending (units_for d pending) db of
        (Inl e, db') \<Rightarrow> (Finished (Inl e), db')
      | (Inr _, db') \<Rightarrow> (Creating d pending, db'))"
| "schedule_step cfg am cm editable fmt clk nid p cmd rdb (Creating d pending) db =
     (case create_translation cfg clk
             (translate_job cfg am cm nid p cmd (translate_key fmt nid cmd) d (units_for d pending)) db of
        (Inl e, db') \<Rightarrow> (Refunding d pending (Inl e), db')
      | (Inr (jid, created), db') \<Rightarrow>
          ((if created then Finished (Inr (schedule_answer d pending jid True)) else Refunding d pending (Inr jid)), db'))"
| "schedule_step cfg am cm editable fmt clk nid p cmd rdb (Refunding d pending outcome) db =
     (case refund_units clk p (units_for d pending) db of
        (Inl e, db') \<Rightarrow> (Finished (Inl e), db')
      | (Inr _, db') \<Rightarrow>
          (Finished (case outcome of Inl e \<Rightarrow> Inl e | Inr jid \<Rightarrow> Inr (schedule_answer d pending jid False)), db'))"
| "schedule_step cfg am cm editable fmt clk nid p cmd rdb (Finished r) db = (Finished r, db)"

text \<open>Undisturbed, the steps are \<open>schedule_batch\<close>: eight of them always finish the request.\<close>

lemma schedule_batch_steps:
  "((\<lambda>(pc, db). schedule_step cfg am cm editable fmt clk nid p cmd rdb pc db) ^^ 8) (Checking, db) =
     (case schedule_batch cfg am cm editable fmt clk nid p cmd rdb db of (r, db') \<Rightarrow> (Finished r, db'))"
  by (simp add: eval_nat_numeral schedule_batch_def guarded_def Let_def schedule_decided_def schedule_ai_job_def
      bindS_def catchS_def returnS_def raiseS_def units_for_def [symmetric] schedule_answer_def
      split: sum.splits option.splits prod.splits)

primrec steps_left :: "schedule_pc \<Rightarrow> nat" where
  "steps_left Checking = 7"
| "steps_left Finding = 6"
| "steps_left Resolving = 5"
| "steps_left (Counting d) = 4"
| "steps_left (Reserving d n) = 3"
| "steps_left (Creating d n) = 2"
| "steps_left (Refunding d n r) = 1"
| "steps_left (Finished r) = 0"

lemma schedule_step_progress:
  "steps_left pc \<noteq> 0 \<Longrightarrow> steps_left (fst (schedule_step cfg am cm editable fmt clk nid p cmd rdb pc db)) < steps_left pc"
  by (cases pc) (auto split: sum.splits option.splits prod.splits)

text \<open>The units the request itself holds while it is under way.\<close>

fun held_units :: "schedule_pc \<Rightarrow> int" where
  "held_units (Creating d pending) = units_for d pending"
| "held_units (Refunding d pending outcome) = units_for d pending"
| "held_units _ = 0"

section \<open>Reservations are never leaked\<close>

abbreviation ai_used :: "clock \<Rightarrow> int \<Rightarrow> ai_db \<Rightarrow> int" where
  "ai_used clk u db \<equiv> used (quota (ai_work db)) u (current_period (today clk)) ''translated_chapters''"

lemma reserve_units_effect:
  assumes "reserve_units clk p pending n db = (r, db')" "0 \<le> n"
  shows "ai_used clk (user_id p) db' = ai_used clk (user_id p) db + (if r = Inr () then n else 0) \<and>
    (n \<noteq> 0 \<or> db' = db)"
proof (cases "n = 0")
  case True
  with assms show ?thesis by (auto simp: reserve_units_def)
next
  case False
  show ?thesis
  proof (cases "check_and_reserve (quota (ai_work db)) (today clk) p ''translated_chapters'' n")
    case (Inl e)
    with assms False show ?thesis by (auto simp: reserve_units_def on_ai_quota_def)
  next
    case (Inr q)
    then obtain ok where rs: "reserve (quota (ai_work db)) (today clk) p ''translated_chapters'' n = Inr (q, ok)" "ok"
      by (auto simp: check_and_reserve_def quota_limit_def result_iffs split: if_splits option.splits)
    have pos: "0 < n" using False assms(2) by simp
    from reserve_cases [OF rs(1)] rs(2) pos consider
        "bump (quota (ai_work db)) (user_id p) (current_period (today clk)) ''translated_chapters'' n = Inr q"
      | l where "try_reserve (quota (ai_work db)) (user_id p) (current_period (today clk)) ''translated_chapters'' n l = Inr (q, True)"
      by auto
    then have "used q (user_id p) (current_period (today clk)) ''translated_chapters'' = ai_used clk (user_id p) db + n"
    proof cases
      case 1
      then show ?thesis using used_bump [OF 1 tc_kind] by simp
    next
      case 2
      then show ?thesis using pgq.reserve_count [OF tc_kind tc_kind 2, of "user_id p" "current_period (today clk)"] by simp
    qed
    with Inr assms False show ?thesis by (auto simp: reserve_units_def on_ai_quota_def)
  qed
qed

lemma refund_units_effect:
  assumes "0 \<le> n" "n \<le> ai_used clk (user_id p) db"
  shows "\<exists>db'. refund_units clk p n db = (Inr (), db') \<and> ai_used clk (user_id p) db' = ai_used clk (user_id p) db - n"
proof (cases "n = 0")
  case True
  then show ?thesis by (simp add: refund_units_def)
next
  case False
  obtain q g where r: "pg_refund (quota (ai_work db)) (user_id p) (current_period (today clk)) ''translated_chapters'' n = Inr (q, g)"
    using pgq.give_total [OF tc_kind] by blast
  have "g = n" using pgq.give_amount [OF tc_kind r] assms by simp
  with pgq.give_count [OF tc_kind tc_kind r, of "user_id p" "current_period (today clk)"]
  have "used q (user_id p) (current_period (today clk)) ''translated_chapters'' = ai_used clk (user_id p) db - n" by simp
  with r False assms show ?thesis
    by (auto simp: refund_units_def bindS_def on_ai_quota_def refund_def)
qed

lemma create_job_quota [simp]: "quota (snd (create_job cfg clk kind nj look w)) = quota w"
  by (simp add: create_job_def Let_def split: option.splits sum.splits)

lemma create_translation_quota: "create_translation cfg clk nj db = (r, db') \<Longrightarrow> quota (ai_work db') = quota (ai_work db)"
proof -
  assume c: "create_translation cfg clk nj db = (r, db')"
  obtain r0 w where w: "create_job cfg clk ''translate'' nj (Some (\<lambda>uid. get_policy uid db)) (ai_work db) = (r0, w)"
    by (cases "create_job cfg clk ''translate'' nj (Some (\<lambda>uid. get_policy uid db)) (ai_work db)")
  then have "quota w = quota (ai_work db)" by (metis create_job_quota snd_conv)
  with c w show ?thesis by (auto simp: create_translation_def catchS_def on_work_def split: sum.splits)
qed

lemma create_translation_created:
  assumes ok: "\<forall>j \<in> set (jobs (ai_work db)). j_id j < next_job_id (ai_work db)"
    and c: "create_translation cfg clk nj db = (Inr (jid, True), db')"
  shows "\<exists>j. get_job jid (ai_work db') = Some j \<and> j_status j = Queued \<and> j_user_id j = nj_user_id nj \<and>
    j_quota_reserved j = nj_quota_reserved nj \<and> j_quota_kind j = nj_quota_kind nj \<and> \<not> j_quota_finalized j \<and>
    j_quota_consumed j = 0"
proof -
  have "row_by j_id (next_job_id (ai_work db)) (jobs (ai_work db)) = None"
    using ok by (auto simp: row_by_None_iff)
  with c show ?thesis
    by (auto simp: create_translation_def catchS_def on_work_def create_job_def Let_def get_job_def row_by_append
        inserted_job_def split: prod.splits sum.splits option.splits if_splits)
qed

lemma units_for_nonneg: "0 \<le> n \<Longrightarrow> 0 \<le> units_for d n"
  by (simp add: units_for_def)

lemma reserve_units_db_ok: "reserve_units clk p pending n db = (r, db') \<Longrightarrow> db_ok (ai_work db) \<Longrightarrow> db_ok (ai_work db')"
  by (auto simp: reserve_units_def on_ai_quota_def db_ok_def split: if_splits sum.splits)

lemma refund_units_db_ok: "refund_units clk p n db = (r, db') \<Longrightarrow> db_ok (ai_work db) \<Longrightarrow> db_ok (ai_work db')"
  by (auto simp: refund_units_def on_ai_quota_def bindS_def db_ok_def split: if_splits sum.splits)

lemma create_translation_db_ok:
  assumes "create_translation cfg clk (translate_job cfg am cm nid p cmd key d n) db = (r, db')" "0 \<le> n" "db_ok (ai_work db)"
  shows "db_ok (ai_work db')"
proof -
  let ?nj = "translate_job cfg am cm nid p cmd key d n"
  have "keeps db_ok (create_job cfg clk ''translate'' ?nj (Some (\<lambda>uid. get_policy uid db)))"
    by (rule keeps_create_job) (auto simp: translate_job_def assms(2) known_kind_def)
  then have "db_ok (snd (create_job cfg clk ''translate'' ?nj (Some (\<lambda>uid. get_policy uid db)) (ai_work db)))"
    using assms(3) by (auto simp: keeps_def)
  with assms(1) show ?thesis by (auto simp: create_translation_def catchS_def on_work_def split: sum.splits prod.splits)
qed

text \<open>
  The request among others. Each of its own steps may be taken at any time of one month and sees the
  Reading tables of that moment; between them anything may happen to the policies, the jobs and the
  counters, as long as nobody gives back units this request holds. The fifth argument adds up what the
  others did to the user's counter.
\<close>

abbreviation month_used :: "date \<Rightarrow> int \<Rightarrow> ai_db \<Rightarrow> int" where
  "month_used month u db \<equiv> used (quota (ai_work db)) u month ''translated_chapters''"

inductive interleaved ::
  "settings \<Rightarrow> int \<Rightarrow> int \<Rightarrow> access_port \<Rightarrow> (rat option \<Rightarrow> string) \<Rightarrow> int \<Rightarrow> principal \<Rightarrow> schedule_translation \<Rightarrow>
   date \<Rightarrow> ai_db \<Rightarrow> schedule_pc \<Rightarrow> int \<Rightarrow> ai_db \<Rightarrow> bool"
  for cfg am cm editable fmt nid p cmd month db0 where
  begins: "interleaved cfg am cm editable fmt nid p cmd month db0 Checking 0 db0"
| own_step: "interleaved cfg am cm editable fmt nid p cmd month db0 pc \<delta> db \<Longrightarrow> current_period (today clk) = month \<Longrightarrow>
    schedule_step cfg am cm editable fmt clk nid p cmd rdb pc db = (pc', db') \<Longrightarrow>
    interleaved cfg am cm editable fmt nid p cmd month db0 pc' \<delta> db'"
| others_step: "interleaved cfg am cm editable fmt nid p cmd month db0 pc \<delta> db \<Longrightarrow> db_ok (ai_work db') \<Longrightarrow>
    held_units pc \<le> month_used month (user_id p) db' \<Longrightarrow>
    interleaved cfg am cm editable fmt nid p cmd month db0 pc
      (\<delta> + (month_used month (user_id p) db' - month_used month (user_id p) db)) db'"

text \<open>What a request has added to the counter, at each point of it, and that its counts are no negative numbers.\<close>

definition granted_units :: "schedule_result result \<Rightarrow> int" where
  "granted_units r = (case r of
       Inr sr \<Rightarrow> if \<not> sr_deduped sr \<and> is_subscription (sr_execution_backend sr) then sr_chapters sr else 0
     | Inl _ \<Rightarrow> 0)"

fun added_units :: "schedule_pc \<Rightarrow> int" where
  "added_units (Finished r) = granted_units r"
| "added_units pc = held_units pc"

fun pending_nonneg :: "schedule_pc \<Rightarrow> bool" where
  "pending_nonneg (Reserving d n) \<longleftrightarrow> 0 \<le> n"
| "pending_nonneg (Creating d n) \<longleftrightarrow> 0 \<le> n"
| "pending_nonneg (Refunding d n r) \<longleftrightarrow> 0 \<le> n"
| "pending_nonneg _ \<longleftrightarrow> True"

lemma granted_units_simps [simp]:
  "granted_units (Inl e) = 0"
  "granted_units (Inr (schedule_answer d n jid True)) = units_for d n"
  "granted_units (Inr (schedule_answer d n jid False)) = 0"
  by (simp_all add: granted_units_def schedule_answer_def units_for_def)

definition request_inv :: "date \<Rightarrow> int \<Rightarrow> schedule_pc \<Rightarrow> ai_db \<Rightarrow> bool" where
  "request_inv month u pc db \<longleftrightarrow> db_ok (ai_work db) \<and> pending_nonneg pc \<and> held_units pc \<le> month_used month u db"

text \<open>One step keeps the invariant, and moves the counter by what it adds to the request's account.\<close>

lemma schedule_step_account:
  assumes inv: "request_inv (current_period (today clk)) (user_id p) pc db" and nn: "0 \<le> ai_used clk (user_id p) db"
    and run: "schedule_step cfg am cm editable fmt clk nid p cmd rdb pc db = (pc', db')"
  shows "request_inv (current_period (today clk)) (user_id p) pc' db' \<and>
    ai_used clk (user_id p) db' = ai_used clk (user_id p) db + (added_units pc' - added_units pc)"
proof (cases pc)
  case (Reserving d n)
  then have n: "0 \<le> n" using inv by (simp add: request_inv_def)
  obtain r db1 where r: "reserve_units clk p n (units_for d n) db = (r, db1)" by (cases "reserve_units clk p n (units_for d n) db")
  note eff = reserve_units_effect [OF r units_for_nonneg [OF n]] and ok = reserve_units_db_ok [OF r]
  show ?thesis using run Reserving r eff ok inv nn n by (cases r) (auto simp: request_inv_def)
next
  case (Creating d n)
  then have n: "0 \<le> n" using inv by (simp add: request_inv_def)
  let ?c = "create_translation cfg clk (translate_job cfg am cm nid p cmd (translate_key fmt nid cmd) d (units_for d n))"
  obtain r db1 where r: "?c db = (r, db1)" by (cases "?c db")
  note eff = create_translation_quota [OF r] and ok = create_translation_db_ok [OF r units_for_nonneg [OF n]]
  show ?thesis using run Creating r eff ok inv nn n by (cases r) (auto simp: request_inv_def split: if_splits)
next
  case (Refunding d n outcome)
  then have n: "0 \<le> n" "units_for d n \<le> ai_used clk (user_id p) db" using inv by (simp_all add: request_inv_def)
  obtain db1 where r: "refund_units clk p (units_for d n) db = (Inr (), db1)"
      "ai_used clk (user_id p) db1 = ai_used clk (user_id p) db - units_for d n"
    using refund_units_effect [OF units_for_nonneg [OF n(1)] n(2)] by blast
  show ?thesis using run Refunding r refund_units_db_ok [OF r(1)] inv n by (auto simp: request_inv_def split: sum.splits)
qed (use inv nn run in \<open>auto simp: request_inv_def count_pending_def granted_units_def split: sum.splits option.splits\<close>)

lemma held_nonneg: "pending_nonneg pc \<Longrightarrow> 0 \<le> held_units pc"
  by (cases pc) (auto simp: units_for_nonneg)

lemma interleaved_account:
  assumes "interleaved cfg am cm editable fmt nid p cmd month db0 pc \<delta> db"
    and "db_ok (ai_work db0)" "0 \<le> month_used month (user_id p) db0"
  shows "request_inv month (user_id p) pc db \<and>
    month_used month (user_id p) db = month_used month (user_id p) db0 + \<delta> + added_units pc"
  using assms
proof (induction rule: interleaved.induct)
  case begins
  then show ?case by (simp add: request_inv_def)
next
  case (own_step pc \<delta> db clk rdb pc' db')
  then have inv: "request_inv month (user_id p) pc db" by blast
  then have "0 \<le> month_used month (user_id p) db"
    using held_nonneg [of pc] by (auto simp: request_inv_def)
  with schedule_step_account [of clk p pc db cfg am cm editable fmt nid cmd rdb pc' db'] inv own_step show ?case by simp
next
  case (others_step pc \<delta> db db')
  then show ?case by (auto simp: request_inv_def)
qed

text \<open>
  C10: scheduling never leaks a reservation, whatever runs between the awaits of the request: other
  requests, workers and administrators may create, finish and delete jobs, change policies and move
  counters, as long as they do not give back units this request holds, and the request takes its steps in
  one month. When the request finishes (the edit check fails, the batch is already running, the backend is
  refused, the quota is exhausted, the creation is refused by the concurrency limit or a changed grant,
  the job is created, or another request inserted it between \<open>find_active\<close> and \<open>create_job\<close>), the user's
  monthly counter is the old one, plus what the others did to it, plus the chapters of the batch if and
  only if this request created a subscription job; and that job is then queued for this user with exactly
  those units reserved and none consumed. Only ordinary exceptions are compensated by the code, and only
  these are modelled: a task canceled from outside ends without its refund.
\<close>

theorem schedule_never_leaks:
  assumes run: "interleaved cfg am cm editable fmt nid p cmd month db0 pc \<delta> db"
    and ok: "db_ok (ai_work db0)" and nn: "0 \<le> month_used month (user_id p) db0"
    and going: "steps_left pc \<noteq> 0" and clk: "current_period (today clk) = month"
    and ends: "schedule_step cfg am cm editable fmt clk nid p cmd rdb pc db = (Finished r, db')"
  shows "month_used month (user_id p) db' = month_used month (user_id p) db0 + \<delta> +
      (case r of Inr sr \<Rightarrow> if \<not> sr_deduped sr \<and> is_subscription (sr_execution_backend sr) then sr_chapters sr else 0 | Inl _ \<Rightarrow> 0) \<and>
    (\<forall>sr. r = Inr sr \<and> \<not> sr_deduped sr \<longrightarrow> (\<exists>j. get_job (sr_job_id sr) (ai_work db') = Some j \<and> j_status j = Queued \<and>
       j_user_id j = Some (user_id p) \<and> j_quota_consumed j = 0 \<and> \<not> j_quota_finalized j \<and>
       j_quota_reserved j = (if is_subscription (sr_execution_backend sr) then sr_chapters sr else 0)))"
proof -
  have "month_used month (user_id p) db' = month_used month (user_id p) db0 + \<delta> + granted_units r"
    using interleaved_account [OF own_step [OF run clk ends] ok nn] by simp
  moreover have "\<exists>j. get_job (sr_job_id sr) (ai_work db') = Some j \<and> j_status j = Queued \<and>
       j_user_id j = Some (user_id p) \<and> j_quota_consumed j = 0 \<and> \<not> j_quota_finalized j \<and>
       j_quota_reserved j = (if is_subscription (sr_execution_backend sr) then sr_chapters sr else 0)"
    if sr: "r = Inr sr" "\<not> sr_deduped sr" for sr
  proof -
    have "db_ok (ai_work db)" using interleaved_account [OF run ok nn] by (simp add: request_inv_def)
    then have fresh: "\<forall>j \<in> set (jobs (ai_work db)). j_id j < next_job_id (ai_work db)" by (simp add: db_ok_def)
    from ends sr going obtain d n jid where
        c: "create_translation cfg clk (translate_job cfg am cm nid p cmd (translate_key fmt nid cmd) d (units_for d n)) db =
          (Inr (jid, True), db')" "sr = schedule_answer d n jid True"
      by (cases pc) (auto simp: schedule_answer_def split: sum.splits option.splits prod.splits if_splits)
    from create_translation_created [OF fresh c(1)] c(2) show ?thesis
      by (auto simp: translate_job_def schedule_answer_def units_for_def)
  qed
  ultimately show ?thesis by (auto simp: granted_units_def)
qed

definition demo_command :: schedule_translation where
  "demo_command = \<lparr>sd_from = None, sd_to = None, sd_force = True, sd_seed = False, sd_ai_backend = ''auto''\<rparr>"

definition demo_batch_user :: principal where
  "demo_batch_user = demo_user\<lparr>quota_limits := [''translated_chapters'' \<mapsto> 10]\<rparr>"

abbreviation demo_step :: "schedule_pc \<times> ai_db \<Rightarrow> schedule_pc \<times> ai_db" where
  "demo_step \<equiv> \<lambda>(pc, db). schedule_step demo_settings 3 2 demo_access (\<lambda>_. ''None'') demo_clk 3 demo_batch_user demo_command
     demo_reading2 pc db"

text \<open>
  A race: after our request has reserved its chapters, a second request for the same batch runs to its end
  and inserts the job; ours then finds \<open>created = False\<close> and gives its units back.
\<close>

definition demo_reserved :: "schedule_pc \<times> ai_db" where
  "demo_reserved = (demo_step ^^ 5) (Checking, demo_ai_db)"

definition demo_raced :: ai_db where
  "demo_raced = snd (schedule_batch demo_settings 3 2 demo_access (\<lambda>_. ''None'') demo_clk 3 demo_batch_user demo_command
     demo_reading2 (snd demo_reserved))"

abbreviation demo_interleaved :: "schedule_pc \<times> ai_db \<Rightarrow> int \<Rightarrow> bool" where
  "demo_interleaved s \<delta> \<equiv> interleaved demo_settings 3 2 demo_access (\<lambda>_. ''None'') 3 demo_batch_user demo_command (2025, 3, 1)
     demo_ai_db (fst s) \<delta> (snd s)"

lemma demo_own_step: "demo_interleaved s \<delta> \<Longrightarrow> demo_interleaved (demo_step s) \<delta>"
  by (rule own_step [where clk = demo_clk and rdb = demo_reading2])
    (auto simp: demo_clk_def current_period_def split: prod.splits)

lemma demo_race:
  "demo_interleaved (demo_step (fst demo_reserved, demo_raced)) 3"
proof (rule demo_own_step)
  have "demo_interleaved ((demo_step ^^ n) (Checking, demo_ai_db)) 0" for n
    by (induction n) (auto intro: demo_own_step begins simp del: split_paired_All split_def)
  then have "demo_interleaved demo_reserved 0" by (simp only: demo_reserved_def)
  moreover have u: "user_id demo_batch_user = 7" by code_simp
  moreover have "db_ok (ai_work demo_raced)" by code_simp
  moreover have "held_units (fst demo_reserved) = 3" "month_used (2025, 3, 1) 7 (snd demo_reserved) = 3"
    "month_used (2025, 3, 1) 7 demo_raced = 6" by code_simp+
  ultimately show "demo_interleaved (fst demo_reserved, demo_raced) 3"
    using others_step [of demo_settings 3 2 demo_access "\<lambda>_. ''None''" 3 demo_batch_user demo_command "(2025, 3, 1)" demo_ai_db
        "fst demo_reserved" 0 "snd demo_reserved" demo_raced] by simp
qed

theorem schedule_never_leaks_witness:
  "\<exists>r db'. demo_step (demo_step (fst demo_reserved, demo_raced)) = (Finished r, db') \<and>
     month_used (2025, 3, 1) 7 db' = 3 + granted_units r"
proof -
  let ?s = "demo_step (fst demo_reserved, demo_raced)"
  have "steps_left (fst (demo_step ?s)) = 0" by code_simp
  then obtain r db' where fin: "demo_step ?s = (Finished r, db')" by (cases "demo_step ?s"; cases "fst (demo_step ?s)") auto
  have u: "user_id demo_batch_user = 7" by code_simp
  have ok: "db_ok (ai_work demo_ai_db)" using demo_db_ok by (simp add: demo_ai_db_def)
  have going: "steps_left (fst ?s) \<noteq> 0" by code_simp
  have zero: "month_used (2025, 3, 1) 7 demo_ai_db = 0" by code_simp
  have clk: "current_period (today demo_clk) = (2025, 3, 1)" by code_simp
  from fin have ends: "schedule_step demo_settings 3 2 demo_access (\<lambda>_. ''None'') demo_clk 3 demo_batch_user demo_command
      demo_reading2 (fst ?s) (snd ?s) = (Finished r, db')" by (simp add: split_def)
  have "month_used (2025, 3, 1) 7 db' = 3 + granted_units r"
    using schedule_never_leaks [OF demo_race ok _ going clk ends, unfolded u zero] by (simp add: granted_units_def)
  with fin show ?thesis by blast
qed

end
