(* ===== verification/Codex_Chunk.thy ===== *)
theory Codex_Chunk
  imports Prelude
begin

text \<open>
  Chunking chapters for the codex: \<open>modules/codex/adapters/outbound/ingest/chunk.py\<close>. The tokenizer is the
  argument \<open>tok\<close>, which counts the tokens of a text. The loop that groups pieces into chunks is a partial
  function: not returning is \<open>None\<close>, so that termination is a theorem, with its hypothesis on \<open>tok\<close>.
\<close>

section \<open>Pieces\<close>

lemma length_dropWhile_less [termination_simp]: "length (dropWhile P xs) < Suc (length xs)"
  using length_dropWhile_le [of P xs] by simp

text \<open>\<open>re.split(r"(?<=[.!?])\s+", text)\<close>: a run of white space right after a stop is a separator.\<close>

definition is_stop :: "char \<Rightarrow> bool" where
  "is_stop c \<longleftrightarrow> c \<in> {CHR ''.'', CHR ''!'', CHR ''?''}"

fun split_after_stops :: "bool \<Rightarrow> string \<Rightarrow> string \<Rightarrow> string list" where
  "split_after_stops stop acc [] = [rev acc]"
| "split_after_stops stop acc (c # cs) =
     (if stop \<and> is_py_space c then rev acc # split_after_stops False [] (dropWhile is_py_space cs)
      else split_after_stops (is_stop c) (c # acc) cs)"

definition split_by_sentences :: "string \<Rightarrow> string list" where
  "split_by_sentences text = filter (\<lambda>s. s \<noteq> []) (map py_strip (split_after_stops False [] text))"

text \<open>\<open>text.split(sep)\<close> for a non-empty separator.\<close>

function split_all :: "string \<Rightarrow> string \<Rightarrow> string list" where
  "split_all sep s =
     (if sep = [] then [s] else case split_once sep s of None \<Rightarrow> [s] | Some (a, b) \<Rightarrow> a # split_all sep b)"
  by pat_completeness auto
termination
  by (relation "measure (\<lambda>(sep, s). length s)") (auto dest: split_once_shorter)

declare split_all.simps [simp del]

definition BLANK_LINE :: string where
  "BLANK_LINE = [CHR 0x0A, CHR 0x0A]"

definition chunk_pieces :: "(string \<Rightarrow> nat) \<Rightarrow> nat \<Rightarrow> string \<Rightarrow> string list" where
  "chunk_pieces tok target text =
     concat (map (\<lambda>p. if tok p > target then split_by_sentences p else [p])
       (filter (\<lambda>p. p \<noteq> []) (map py_strip (split_all BLANK_LINE text))))"

section \<open>Grouping\<close>

text \<open>How many of the last pieces fit into the overlap, and their tokens.\<close>

fun backtrack :: "(string \<Rightarrow> nat) \<Rightarrow> nat \<Rightarrow> nat \<Rightarrow> string list \<Rightarrow> nat \<times> nat" where
  "backtrack tok avail acc [] = (acc, 0)"
| "backtrack tok avail acc (x # xs) =
     (if acc + tok x \<le> avail then (case backtrack tok avail (acc + tok x) xs of (a, k) \<Rightarrow> (a, k + 1))
      else (acc, 0))"

text \<open>
  The state of the loop is the index, the current pieces, their tokens and the chunks so far; the
  result is the chunks and the pieces left over. Python's \<open>max(0, target - count)\<close> is subtraction of
  natural numbers.
\<close>

partial_function (option) chunk_loop ::
  "(string \<Rightarrow> nat) \<Rightarrow> nat \<Rightarrow> nat \<Rightarrow> string list \<Rightarrow> nat \<Rightarrow> string list \<Rightarrow> nat \<Rightarrow> string list \<Rightarrow>
   (string list \<times> string list) option" where
  "chunk_loop tok target overlap pieces i cur n chunks =
     (if length pieces \<le> i then Some (chunks, cur)
      else if n + tok (pieces ! i) \<le> target
      then chunk_loop tok target overlap pieces (i + 1) (cur @ [pieces ! i]) (n + tok (pieces ! i)) chunks
      else
        (let cur1 = (if cur = [] then [pieces ! i] else cur);
             i1 = (if cur = [] then i + 1 else i);
             chunks1 = chunks @ [py_join BLANK_LINE cur1]
         in if i1 = length pieces then Some (chunks1, [])
            else
              let avail = min overlap (target - tok (pieces ! i1));
                  (acc, k) = backtrack tok avail 0 (rev cur1)
              in chunk_loop tok target overlap pieces i1 (drop (length cur1 - k) cur1) acc chunks1))"

definition chunk_chapter_text ::
  "(string \<Rightarrow> nat) \<Rightarrow> int \<Rightarrow> int \<Rightarrow> string \<Rightarrow> string list result option" where
  "chunk_chapter_text tok target overlap text =
     (if target \<le> 0 then Some (Inl (ValueError ''target_tokens must be positive''))
      else if overlap < 0 then Some (Inl (ValueError ''overlap_tokens must be nonnegative''))
      else case chunk_loop tok (nat target) (nat overlap) (chunk_pieces tok (nat target) text) 0 [] 0 [] of
        None \<Rightarrow> None
      | Some (chunks, cur) \<Rightarrow> Some (Inr (if cur = [] then chunks else chunks @ [py_join BLANK_LINE cur])))"

section \<open>Segments\<close>

text \<open>A chunk is the join of the pieces from \<open>a\<close> up to \<open>b\<close>.\<close>

definition segment :: "'a list \<Rightarrow> nat \<times> nat \<Rightarrow> 'a list" where
  "segment xs ab = take (snd ab - fst ab) (drop (fst ab) xs)"

definition tokens_of :: "(string \<Rightarrow> nat) \<Rightarrow> string list \<Rightarrow> nat" where
  "tokens_of tok ps = sum_list (map tok ps)"

text \<open>Segments that cover everything from \<open>e\<close> up to \<open>e'\<close>, each starting inside what is covered and
  ending later than the one before.\<close>

fun covers :: "nat \<Rightarrow> (nat \<times> nat) list \<Rightarrow> nat \<Rightarrow> bool" where
  "covers e [] e' = (e = e')"
| "covers e ((a, b) # ss) e' = (a \<le> e \<and> a < b \<and> e < b \<and> covers b ss e')"

lemma covers_append: "covers e (ss @ [(a, b)]) e' \<longleftrightarrow> (\<exists>m. covers e ss m \<and> a \<le> m \<and> a < b \<and> m < b \<and> b = e')"
  by (induction ss arbitrary: e) auto

lemma segment_Suc: "a \<le> i \<Longrightarrow> i < length xs \<Longrightarrow> segment xs (a, i) @ [xs ! i] = segment xs (a, i + 1)"
  by (simp add: segment_def Suc_diff_le take_Suc_conv_app_nth)

lemma tokens_snoc: "tokens_of tok (xs @ [x]) = tokens_of tok xs + tok x"
  by (simp add: tokens_of_def)

lemma segment_single: "i < length xs \<Longrightarrow> segment xs (i, i + 1) = [xs ! i]"
  by (simp add: segment_def take_Suc_conv_app_nth)

lemma segment_empty_iff: "i \<le> length xs \<Longrightarrow> a \<le> i \<Longrightarrow> segment xs (a, i) = [] \<longleftrightarrow> a = i"
  by (auto simp: segment_def)

lemma length_segment: "i \<le> length xs \<Longrightarrow> a \<le> i \<Longrightarrow> length (segment xs (a, i)) = i - a"
  by (simp add: segment_def)

lemma drop_segment: "a \<le> i \<Longrightarrow> i \<le> length xs \<Longrightarrow> k \<le> i - a \<Longrightarrow> drop (i - a - k) (segment xs (a, i)) = segment xs (i - k, i)"
  by (simp add: segment_def drop_take)

lemma backtrack_spec:
  "backtrack tok avail acc xs = (a, k) \<Longrightarrow>
   k \<le> length xs \<and> a = acc + tokens_of tok (take k xs) \<and> (acc \<le> avail \<longrightarrow> a \<le> avail)"
proof (induction xs arbitrary: acc a k)
  case (Cons x xs)
  show ?case
  proof (cases "acc + tok x \<le> avail")
    case True
    obtain a' k' where b: "backtrack tok avail (acc + tok x) xs = (a', k')" by fastforce
    then show ?thesis using Cons.IH [OF b] Cons.prems True by (auto simp: tokens_of_def)
  next
    case False
    then show ?thesis using Cons.prems by (simp add: tokens_of_def)
  qed
qed (simp add: tokens_of_def)

lemma backtrack_zero: "\<forall>x \<in> set xs. 0 < tok x \<Longrightarrow> backtrack tok 0 0 xs = (0, 0)"
  by (cases xs) auto

lemma tokens_of_rev: "tokens_of tok (rev xs) = tokens_of tok xs"
  by (induction xs) (simp_all add: tokens_of_def)

lemma tokens_of_drop: "k \<le> length xs \<Longrightarrow> tokens_of tok (take k (rev xs)) = tokens_of tok (drop (length xs - k) xs)"
  by (simp add: take_rev tokens_of_rev)

section \<open>The loop returns\<close>

text \<open>Within the budget, or a single piece that is larger than it.\<close>

definition segment_ok :: "(string \<Rightarrow> nat) \<Rightarrow> nat \<Rightarrow> string list \<Rightarrow> nat \<times> nat \<Rightarrow> bool" where
  "segment_ok tok target pieces s \<longleftrightarrow> tokens_of tok (segment pieces s) \<le> target \<or> snd s = fst s + 1"

definition chunking :: "(string \<Rightarrow> nat) \<Rightarrow> nat \<Rightarrow> string list \<Rightarrow> (nat \<times> nat) list \<Rightarrow> nat \<Rightarrow> string list \<Rightarrow> bool" where
  "chunking tok target pieces segs e chunks \<longleftrightarrow>
     covers 0 segs e \<and> chunks = map (\<lambda>s. py_join BLANK_LINE (segment pieces s)) segs \<and>
     (\<forall>s \<in> set segs. segment_ok tok target pieces s)"

lemma chunking_Nil: "chunking tok target pieces [] 0 []"
  by (simp add: chunking_def)

lemma chunking_snoc:
  assumes "chunking tok target pieces segs e chunks" "a \<le> e" "a < b" "e < b" "segment_ok tok target pieces (a, b)"
  shows "chunking tok target pieces (segs @ [(a, b)]) b (chunks @ [py_join BLANK_LINE (segment pieces (a, b))])"
  using assms by (auto simp: chunking_def covers_append)

definition open_piece :: "(string \<Rightarrow> nat) \<Rightarrow> nat \<Rightarrow> string list \<Rightarrow> nat \<Rightarrow> nat \<Rightarrow> bool" where
  "open_piece tok target pieces i n \<longleftrightarrow> i < length pieces \<and> n + tok (pieces ! i) \<le> target"

definition loop_inv ::
  "(string \<Rightarrow> nat) \<Rightarrow> nat \<Rightarrow> string list \<Rightarrow> nat \<Rightarrow> nat \<Rightarrow> nat \<Rightarrow> string list \<Rightarrow> nat \<Rightarrow> bool" where
  "loop_inv tok target pieces a e i cur n \<longleftrightarrow>
     a \<le> e \<and> e \<le> i \<and> i \<le> length pieces \<and> cur = segment pieces (a, i) \<and> n = tokens_of tok cur \<and> n \<le> target \<and>
     (a = i \<longrightarrow> e = i) \<and> (e < i \<or> a = i \<or> open_piece tok target pieces i n)"

definition loop_rank :: "(string \<Rightarrow> nat) \<Rightarrow> nat \<Rightarrow> string list \<Rightarrow> nat \<Rightarrow> string list \<Rightarrow> nat \<Rightarrow> nat" where
  "loop_rank tok target pieces i cur n =
     2 * (length pieces - i) + (if cur \<noteq> [] \<and> \<not> open_piece tok target pieces i n then 1 else 0)"

lemma after_backtrack:
  assumes pos: "\<forall>p \<in> set pieces. 0 < tok p" and i: "i < length pieces" and a: "a \<le> i"
    and c: "cur = segment pieces (a, i)"
    and b: "backtrack tok (min overlap (target - tok (pieces ! i))) 0 (rev cur) = (acc, k)"
  shows "loop_inv tok target pieces (i - k) i i (drop (length cur - k) cur) acc"
    and "loop_rank tok target pieces i (drop (length cur - k) cur) acc = 2 * (length pieces - i)"
proof -
  have len: "length cur = i - a" using c a i by (simp add: length_segment)
  have spec: "k \<le> length cur" "acc = tokens_of tok (drop (length cur - k) cur)"
    "acc \<le> min overlap (target - tok (pieces ! i))"
    using backtrack_spec [OF b] tokens_of_drop [of k cur tok] by simp_all
  have new: "drop (length cur - k) cur = segment pieces (i - k, i)"
    unfolding len unfolding c by (rule drop_segment) (use a i spec(1) len in simp_all)
  have small: "acc \<le> target" using spec(3) by linarith
  have "set cur \<subseteq> set pieces" using c by (auto simp: segment_def dest: in_set_takeD in_set_dropD)
  then have p: "\<forall>x \<in> set (rev cur). 0 < tok x" using pos by auto
  have "k = 0" if big: "\<not> tok (pieces ! i) \<le> target"
    using b big backtrack_zero [OF p] by simp
  then have fits: "k = 0 \<or> open_piece tok target pieces i acc"
    using spec(3) i by (auto simp: open_piece_def)
  show "loop_inv tok target pieces (i - k) i i (drop (length cur - k) cur) acc"
    using fits small spec(2) i by (auto simp: loop_inv_def new)
  show "loop_rank tok target pieces i (drop (length cur - k) cur) acc = 2 * (length pieces - i)"
    using fits by (auto simp: loop_rank_def)
qed

lemma chunk_loop_returns:
  assumes pos: "\<forall>p \<in> set pieces. 0 < tok p"
  shows "loop_inv tok target pieces a e i cur n \<Longrightarrow> chunking tok target pieces segs e chunks \<Longrightarrow>
    \<exists>chunks' cur' segs'. chunk_loop tok target overlap pieces i cur n chunks = Some (chunks', cur') \<and>
      chunking tok target pieces segs' (length pieces)
        (if cur' = [] then chunks' else chunks' @ [py_join BLANK_LINE cur'])"
proof (induction "loop_rank tok target pieces i cur n" arbitrary: a e i cur n segs chunks rule: less_induct)
  case less
  note inv = less.prems(1) and ch = less.prems(2)
  note I = inv [unfolded loop_inv_def]
  consider (stop) "i = length pieces" | (fit) "open_piece tok target pieces i n"
    | (emit) "i < length pieces" "\<not> open_piece tok target pieces i n"
    using I by (metis le_neq_implies_less)
  then show ?case
  proof cases
    case stop
    have run: "chunk_loop tok target overlap pieces i cur n chunks = Some (chunks, cur)"
      by (subst chunk_loop.simps) (simp add: stop)
    show ?thesis
    proof (cases "cur = []")
      case True
      then have "e = length pieces" using I stop segment_empty_iff [of i pieces a] by auto
      then show ?thesis using run True ch by auto
    next
      case False
      then have a: "a < i" using I segment_empty_iff [of i pieces a] by (metis le_neq_implies_less order_trans)
      then have "e < i" using I stop by (auto simp: open_piece_def)
      then have "chunking tok target pieces (segs @ [(a, i)]) i (chunks @ [py_join BLANK_LINE cur])"
        using chunking_snoc [OF ch, of a i] I a by (auto simp: segment_ok_def)
      then show ?thesis using run False stop by auto
    qed
  next
    case fit
    have run: "chunk_loop tok target overlap pieces i cur n chunks =
        chunk_loop tok target overlap pieces (i + 1) (cur @ [pieces ! i]) (n + tok (pieces ! i)) chunks"
      by (subst chunk_loop.simps) (use fit in \<open>simp add: open_piece_def\<close>)
    have inv': "loop_inv tok target pieces a e (i + 1) (cur @ [pieces ! i]) (n + tok (pieces ! i))"
      unfolding loop_inv_def
    proof (intro conjI)
      have "a \<le> i" "i < length pieces" using I fit by (auto simp: open_piece_def)
      then show "cur @ [pieces ! i] = segment pieces (a, i + 1)" using I segment_Suc by metis
    qed (use I fit in \<open>auto simp: open_piece_def tokens_snoc\<close>)
    have "loop_rank tok target pieces (i + 1) (cur @ [pieces ! i]) (n + tok (pieces ! i)) < loop_rank tok target pieces i cur n"
      using fit by (auto simp: loop_rank_def open_piece_def)
    from less.hyps [OF this inv' ch] show ?thesis using run by simp
  next
    case emit
    define cur1 where "cur1 = (if cur = [] then [pieces ! i] else cur)"
    define i1 where "i1 = (if cur = [] then i + 1 else i)"
    define a1 where "a1 = (if cur = [] then i else a)"
    define chunks1 where "chunks1 = chunks @ [py_join BLANK_LINE cur1]"
    have e: "cur = [] \<Longrightarrow> a = i \<and> e = i" using I segment_empty_iff [of i pieces a] by auto
    have ne: "cur \<noteq> [] \<Longrightarrow> a < i \<and> e < i" using I emit(2) by (cases "a = i") (auto simp: segment_def)
    have b: "a1 \<le> e" "a1 < i1" "e < i1" "i1 \<le> length pieces" "cur1 = segment pieces (a1, i1)"
      using I e ne emit(1) segment_single [OF emit(1)] by (auto simp: a1_def i1_def cur1_def)
    have "segment_ok tok target pieces (a1, i1)"
      using I e by (auto simp: segment_ok_def a1_def i1_def)
    from chunking_snoc [OF ch b(1,2,3) this]
    have ch1: "chunking tok target pieces (segs @ [(a1, i1)]) i1 chunks1" by (simp add: b(5) chunks1_def)
    have nfit: "\<not> length pieces \<le> i" "\<not> n + tok (pieces ! i) \<le> target" using emit by (auto simp: open_piece_def)
    show ?thesis
    proof (cases "i1 = length pieces")
      case True
      have "chunk_loop tok target overlap pieces i cur n chunks = Some (chunks1, [])"
        by (subst chunk_loop.simps)
          (use True in \<open>simp only: nfit if_False Let_def cur1_def [symmetric] i1_def [symmetric] chunks1_def [symmetric] if_True simp_thms\<close>)
      then show ?thesis using ch1 True by auto
    next
      case False
      obtain acc k where bt: "backtrack tok (min overlap (target - tok (pieces ! i1))) 0 (rev cur1) = (acc, k)"
        by fastforce
      have run: "chunk_loop tok target overlap pieces i cur n chunks =
          chunk_loop tok target overlap pieces i1 (drop (length cur1 - k) cur1) acc chunks1"
        by (subst chunk_loop.simps)
          (use False in \<open>simp only: nfit if_False Let_def cur1_def [symmetric] i1_def [symmetric] chunks1_def [symmetric] bt prod.case\<close>)
      have i1: "i1 < length pieces" and a1: "a1 \<le> i1" using b False by simp_all
      note after = after_backtrack [OF pos i1 a1 b(5) bt]
      have "loop_rank tok target pieces i1 (drop (length cur1 - k) cur1) acc < loop_rank tok target pieces i cur n"
        unfolding after(2) using emit by (auto simp: loop_rank_def i1_def)
      from less.hyps [OF this after(1) ch1] show ?thesis using run by simp
    qed
  qed
qed

lemma py_strip_pieces: "p \<in> set (chunk_pieces tok target text) \<Longrightarrow> p \<noteq> []"
  by (auto simp: chunk_pieces_def split_by_sentences_def split: if_splits)

text \<open>
  C35: Chunking a chapter returns, provided the tokenizer gives every non-empty text a token: the chunks
  are joins of consecutive pieces, they cover all pieces in order without a gap, each starts inside
  what the chunks before it cover and ends later, and each is within the token budget unless it is a
  single piece. An illegal budget or overlap is a \<open>ValueError\<close>.
\<close>

theorem chunk_chapter_text_returns:
  assumes tok: "\<forall>s. s \<noteq> [] \<longrightarrow> 0 < tok s"
  shows "(target \<le> 0 \<longrightarrow> chunk_chapter_text tok target overlap t = Some (Inl (ValueError ''target_tokens must be positive''))) \<and>
    (0 < target \<longrightarrow> overlap < 0 \<longrightarrow>
       chunk_chapter_text tok target overlap t = Some (Inl (ValueError ''overlap_tokens must be nonnegative''))) \<and>
    (0 < target \<longrightarrow> 0 \<le> overlap \<longrightarrow>
       (\<exists>segs. covers 0 segs (length (chunk_pieces tok (nat target) t)) \<and>
          chunk_chapter_text tok target overlap t =
            Some (Inr (map (\<lambda>s. py_join BLANK_LINE (segment (chunk_pieces tok (nat target) t) s)) segs)) \<and>
          (\<forall>s \<in> set segs. tokens_of tok (segment (chunk_pieces tok (nat target) t) s) \<le> nat target \<or> snd s = fst s + 1)))"
proof -
  let ?ps = "chunk_pieces tok (nat target) t"
  have pos: "\<forall>p \<in> set ?ps. 0 < tok p" using tok py_strip_pieces by blast
  have inv: "loop_inv tok (nat target) ?ps 0 0 0 [] 0"
    by (simp add: loop_inv_def segment_def tokens_of_def)
  from chunk_loop_returns [OF pos inv chunking_Nil, of "nat overlap"]
  obtain ch cur segs where "chunk_loop tok (nat target) (nat overlap) ?ps 0 [] 0 [] = Some (ch, cur)"
    "chunking tok (nat target) ?ps segs (length ?ps) (if cur = [] then ch else ch @ [py_join BLANK_LINE cur])"
    by blast
  then show ?thesis
    by (auto simp: chunk_chapter_text_def chunking_def segment_ok_def)
qed

definition demo_tok :: "string \<Rightarrow> nat" where
  "demo_tok s = length s"

theorem chunk_chapter_text_returns_witness:
  "\<exists>segs. covers 0 segs (length (chunk_pieces demo_tok 8 ''One. Two! A very long one. End'')) \<and>
     chunk_chapter_text demo_tok 8 4 ''One. Two! A very long one. End'' =
       Some (Inr (map (\<lambda>s. py_join BLANK_LINE (segment (chunk_pieces demo_tok 8 ''One. Two! A very long one. End'') s)) segs))"
proof -
  have "\<forall>s. s \<noteq> [] \<longrightarrow> 0 < demo_tok s" by (simp add: demo_tok_def)
  from chunk_chapter_text_returns [OF this, of 8 4 "''One. Two! A very long one. End''"]
  show ?thesis by auto
qed

end
