(* ===== verification/Codex_Store.thy ===== *)
theory Codex_Store
  imports Codex_Chunk Reading_Translation
begin

text \<open>
  Storing the chunks of chapters: \<open>chunk_chapter\<close> and \<open>chunk_all_chapters\<close> of
  \<open>modules/codex/adapters/outbound/ingest/chunk.py\<close>, with the queries of
  \<open>modules/reading/adapters/outbound/codex.py\<close> they read chapters through. The structured tables of the
  codex enter as the list of their rows' keys (table, novel, chapter).
\<close>

section \<open>Reading chapters\<close>

record codex_snapshot =
  cs_title :: "string option"
  cs_content :: "string option"
  cs_kind :: string
  cs_part_label :: "string option"
  cs_narrative_part_chapters :: "rat list"

definition NARRATIVE_KINDS :: "string list" where
  "NARRATIVE_KINDS = [''chapter'', ''interlude'']"

text \<open>\<open>content ~ '[^[:space:]]'\<close>, for the ASCII white space.\<close>

definition is_sql_space :: "char \<Rightarrow> bool" where
  "is_sql_space c \<longleftrightarrow> c \<in> {CHR 0x20, CHR 0x09, CHR 0x0A, CHR 0x0B, CHR 0x0C, CHR 0x0D}"

definition has_content :: "chapter_row \<Rightarrow> bool" where
  "has_content c \<longleftrightarrow> (case c_content c of None \<Rightarrow> False | Some t \<Rightarrow> \<exists>x \<in> set t. \<not> is_sql_space x)"

definition kind_of :: "chapter_row \<Rightarrow> string" where
  "kind_of c = coalesce (c_kind c) ''chapter''"

definition narrative_part_chapters :: "int \<Rightarrow> string option \<Rightarrow> reading_db \<Rightarrow> rat list" where
  "narrative_part_chapters nid part db =
     sort (map c_number (filter (\<lambda>c. c_novel_id c = nid \<and> has_content c \<and> kind_of c \<in> set NARRATIVE_KINDS \<and> c_part_label c = part)
       (chapters db)))"

definition chapter_snapshot :: "int \<Rightarrow> rat \<Rightarrow> reading_db \<Rightarrow> codex_snapshot option" where
  "chapter_snapshot nid num db =
     map_option (\<lambda>c. \<lparr>cs_title = c_title c, cs_content = c_content c, cs_kind = kind_of c, cs_part_label = c_part_label c,
         cs_narrative_part_chapters = narrative_part_chapters nid (c_part_label c) db\<rparr>)
       (find_chapter nid num db)"

definition chapter_numbers :: "int \<Rightarrow> rat option \<Rightarrow> rat option \<Rightarrow> bool \<Rightarrow> bool \<Rightarrow> reading_db \<Rightarrow> rat list" where
  "chapter_numbers nid lo hi require_content narrative_only db =
     sort (map c_number (filter (\<lambda>c. c_novel_id c = nid \<and>
         (case lo of None \<Rightarrow> True | Some a \<Rightarrow> a \<le> c_number c) \<and> (case hi of None \<Rightarrow> True | Some b \<Rightarrow> c_number c \<le> b) \<and>
         (require_content \<longrightarrow> has_content c) \<and> (narrative_only \<longrightarrow> kind_of c \<in> set NARRATIVE_KINDS)) (chapters db)))"

section \<open>The chunks table\<close>

record chunk_row =
  ck_id :: int
  ck_novel_id :: int
  ck_chapter :: rat
  ck_index :: nat
  ck_text :: string
  ck_token_count :: nat
  ck_embedding :: "rat list option"

record codex_db =
  cx_chunks :: "chunk_row list"
  cx_next_chunk_id :: int
  cx_structured :: "(string \<times> int \<times> rat) list"

definition chunk_key :: "chunk_row \<Rightarrow> (int \<times> rat) \<times> nat" where
  "chunk_key r = ((ck_novel_id r, ck_chapter r), ck_index r)"

definition in_chapter :: "int \<Rightarrow> rat \<Rightarrow> chunk_row \<Rightarrow> bool" where
  "in_chapter nid num r \<longleftrightarrow> ck_novel_id r = nid \<and> ck_chapter r = num"

definition DEPENDENT_TABLES :: "string list" where
  "DEPENDENT_TABLES = [''extraction_state'', ''entities'', ''entity_descriptions'', ''entity_aliases'', ''identity_links'',
     ''entity_facts'', ''relationships'', ''events'', ''chapter_summaries'', ''entity_activity'', ''entity_state_transitions'',
     ''relationship_state_transitions'', ''plot_thread_updates'', ''extraction_contexts'']"

definition dependent :: "int \<Rightarrow> rat \<Rightarrow> codex_db \<Rightarrow> bool" where
  "dependent nid num db \<longleftrightarrow> (\<exists>t \<in> set DEPENDENT_TABLES. (t, nid, num) \<in> set (cx_structured db))"

definition checkpointed :: "int \<Rightarrow> rat \<Rightarrow> codex_db \<Rightarrow> bool" where
  "checkpointed nid num db \<longleftrightarrow> (''extraction_state'', nid, num) \<in> set (cx_structured db)"

text \<open>
  \<open>INSERT ... ON CONFLICT (novel_id, chapter, chunk_index) DO UPDATE\<close>. The sequence of ids advances
  also when the row exists.
\<close>

definition rewritten :: "string \<Rightarrow> nat \<Rightarrow> chunk_row \<Rightarrow> chunk_row" where
  "rewritten txt n r = r\<lparr>ck_text := txt, ck_token_count := n,
     ck_embedding := (if ck_text r = txt then ck_embedding r else None)\<rparr>"

definition put_chunk :: "int \<Rightarrow> rat \<Rightarrow> nat \<Rightarrow> string \<Rightarrow> nat \<Rightarrow> codex_db \<Rightarrow> codex_db" where
  "put_chunk nid num i txt n db =
     (if row_by chunk_key ((nid, num), i) (cx_chunks db) = None
      then db\<lparr>cx_chunks := cx_chunks db @ [\<lparr>ck_id = cx_next_chunk_id db, ck_novel_id = nid, ck_chapter = num, ck_index = i,
                ck_text = txt, ck_token_count = n, ck_embedding = None\<rparr>], cx_next_chunk_id := cx_next_chunk_id db + 1\<rparr>
      else db\<lparr>cx_chunks := sql_update (\<lambda>r. chunk_key r = ((nid, num), i)) (rewritten txt n) (cx_chunks db),
                cx_next_chunk_id := cx_next_chunk_id db + 1\<rparr>)"

fun put_chunks :: "(string \<Rightarrow> nat) \<Rightarrow> int \<Rightarrow> rat \<Rightarrow> nat \<Rightarrow> string list \<Rightarrow> codex_db \<Rightarrow> codex_db" where
  "put_chunks tok nid num i [] db = db"
| "put_chunks tok nid num i (t # ts) db = put_chunks tok nid num (i + 1) ts (put_chunk nid num i t (tok t) db)"

definition drop_chunks :: "int \<Rightarrow> rat \<Rightarrow> nat \<Rightarrow> codex_db \<Rightarrow> codex_db" where
  "drop_chunks nid num n db = db\<lparr>cx_chunks := sql_delete (\<lambda>r. in_chapter nid num r \<and> n \<le> ck_index r) (cx_chunks db)\<rparr>"

text \<open>The comparison of the stored texts with the new ones.\<close>

definition chunks_changed :: "string list \<Rightarrow> chunk_row list \<Rightarrow> bool" where
  "chunks_changed ts existing \<longleftrightarrow>
     set (map ck_index existing) \<noteq> set [0..<length ts] \<or>
     (\<exists>i \<in> set [0..<length ts]. map_option ck_text (row_by ck_index i existing) \<noteq> Some (ts ! i))"

definition store_chunks :: "(string \<Rightarrow> nat) \<Rightarrow> int \<Rightarrow> rat \<Rightarrow> bool \<Rightarrow> string list \<Rightarrow> (codex_db, int) op" where
  "store_chunks tok nid num force ts db =
     (let existing = filter (in_chapter nid num) (cx_chunks db)
      in if existing \<noteq> [] \<and> \<not> force then (Inr 0, db)
         else if existing \<noteq> [] \<and> chunks_changed ts existing \<and> checkpointed nid num db
         then (Inl (RuntimeError (''refusing to change checkpointed chunk text; invalidate the chapter '' @
                 ''extraction before re-chunking'')), db)
         else (Inr (int (length ts)), drop_chunks nid num (length ts) (put_chunks tok nid num 0 ts db)))"

definition remove_chunks :: "int \<Rightarrow> rat \<Rightarrow> (codex_db, int) op" where
  "remove_chunks nid num db =
     (if dependent nid num db
      then (Inl (RuntimeError (''non-narrative chapter has structured Codex dependencies; '' @
              ''run reset-codex before the v2 rebuild'')), db)
      else (Inr 0, db\<lparr>cx_chunks := sql_delete (in_chapter nid num) (cx_chunks db)\<rparr>))"

text \<open>\<open>None\<close> is a call that does not return; \<open>target\<close> and \<open>overlap\<close> are the settings.\<close>

definition chunk_chapter ::
  "(string \<Rightarrow> nat) \<Rightarrow> int \<Rightarrow> int \<Rightarrow> int \<Rightarrow> rat \<Rightarrow> bool \<Rightarrow> reading_db \<Rightarrow> codex_db \<Rightarrow> (int result \<times> codex_db) option" where
  "chunk_chapter tok target overlap nid num force rdb db =
     (case chapter_snapshot nid num rdb of
        None \<Rightarrow> Some (Inr 0, db)
      | Some c \<Rightarrow>
          if blank (cs_content c) then Some (Inr 0, db)
          else if (if cs_kind c = [] then ''chapter'' else cs_kind c) \<notin> set NARRATIVE_KINDS then Some (remove_chunks nid num db)
          else (case chunk_chapter_text tok target overlap (coalesce (cs_content c) []) of
                  None \<Rightarrow> None
                | Some (Inl e) \<Rightarrow> Some (Inl e, db)
                | Some (Inr ts) \<Rightarrow> Some (store_chunks tok nid num force ts db)))"

text \<open>\<open>cancel_check\<close> may raise between chapters.\<close>

fun chunk_each ::
  "(string \<Rightarrow> nat) \<Rightarrow> int \<Rightarrow> int \<Rightarrow> int \<Rightarrow> bool \<Rightarrow> (rat \<Rightarrow> unit result) \<Rightarrow> reading_db \<Rightarrow> rat list \<Rightarrow> codex_db \<Rightarrow>
   (int result \<times> codex_db) option" where
  "chunk_each tok target overlap nid force cancel rdb [] db = Some (Inr 0, db)"
| "chunk_each tok target overlap nid force cancel rdb (num # nums) db =
     (case cancel num of
        Inl e \<Rightarrow> Some (Inl e, db)
      | Inr _ \<Rightarrow>
          (case chunk_chapter tok target overlap nid num force rdb db of
             None \<Rightarrow> None
           | Some (Inl e, db1) \<Rightarrow> Some (Inl e, db1)
           | Some (Inr k, db1) \<Rightarrow>
               map_option (\<lambda>(r, db2). (bindE r (\<lambda>n. Inr (k + n)), db2))
                 (chunk_each tok target overlap nid force cancel rdb nums db1)))"

definition chunk_all_chapters ::
  "(string \<Rightarrow> nat) \<Rightarrow> int \<Rightarrow> int \<Rightarrow> int \<Rightarrow> bool \<Rightarrow> rat option \<Rightarrow> rat option \<Rightarrow> (rat \<Rightarrow> unit result) \<Rightarrow> reading_db \<Rightarrow> codex_db \<Rightarrow>
   (int result \<times> codex_db) option" where
  "chunk_all_chapters tok target overlap nid force lo hi cancel rdb db =
     chunk_each tok target overlap nid force cancel rdb (chapter_numbers nid lo hi True False rdb) db"

section \<open>What is stored\<close>

text \<open>The abstract store: the texts of each chapter by index.\<close>

type_synonym chunk_store = "int \<times> rat \<Rightarrow> nat \<Rightarrow> string option"

definition stored_texts :: "codex_db \<Rightarrow> chunk_store" where
  "stored_texts db c i = map_option ck_text (row_by chunk_key (c, i) (cx_chunks db))"

definition nth_opt :: "'a list \<Rightarrow> nat \<Rightarrow> 'a option" where
  "nth_opt xs i = (if i < length xs then Some (xs ! i) else None)"

lemma row_by_put_chunk:
  "row_by chunk_key k (cx_chunks (put_chunk nid num i t n db)) =
    (if k = ((nid, num), i)
     then Some (case row_by chunk_key k (cx_chunks db) of
         None \<Rightarrow> \<lparr>ck_id = cx_next_chunk_id db, ck_novel_id = nid, ck_chapter = num, ck_index = i, ck_text = t,
                   ck_token_count = n, ck_embedding = None\<rparr>
       | Some r \<Rightarrow> rewritten t n r)
     else row_by chunk_key k (cx_chunks db))"
proof (cases "row_by chunk_key ((nid, num), i) (cx_chunks db)")
  case None
  then show ?thesis
    by (auto simp: put_chunk_def row_by_append chunk_key_def split: option.splits)
next
  case (Some r)
  have key: "\<And>r. chunk_key (rewritten t n r) = chunk_key r" by (simp add: chunk_key_def rewritten_def)
  show ?thesis using Some row_by_update_key [of chunk_key "rewritten t n" k "((nid, num), i)" "\<lambda>_. True", OF key]
    by (simp add: put_chunk_def)
qed

lemma put_chunk_keys: "distinct (map chunk_key (cx_chunks db)) \<Longrightarrow> distinct (map chunk_key (cx_chunks (put_chunk nid num i t n db)))"
proof -
  assume d: "distinct (map chunk_key (cx_chunks db))"
  have key: "\<And>r. chunk_key (rewritten t n r) = chunk_key r" by (simp add: chunk_key_def rewritten_def)
  have "map chunk_key (sql_update (\<lambda>r. chunk_key r = ((nid, num), i)) (rewritten t n) (cx_chunks db)) = map chunk_key (cx_chunks db)"
    by (rule map_sql_update) (simp add: key)
  then show ?thesis using d by (auto simp: put_chunk_def row_by_None_iff chunk_key_def)
qed

lemma put_chunks_keys:
  "distinct (map chunk_key (cx_chunks db)) \<Longrightarrow> distinct (map chunk_key (cx_chunks (put_chunks tok nid num i ts db)))"
  by (induction ts arbitrary: i db) (simp_all add: put_chunk_keys)

lemma put_chunks_outside:
  "c \<noteq> (nid, num) \<or> j < i \<or> i + length ts \<le> j \<Longrightarrow>
   row_by chunk_key (c, j) (cx_chunks (put_chunks tok nid num i ts db)) = row_by chunk_key (c, j) (cx_chunks db)"
  by (induction ts arbitrary: i db) (auto simp: row_by_put_chunk)

lemma put_chunks_inside:
  "i \<le> j \<Longrightarrow> j < i + length ts \<Longrightarrow>
   \<exists>r. row_by chunk_key ((nid, num), j) (cx_chunks (put_chunks tok nid num i ts db)) = Some r \<and>
     (case row_by chunk_key ((nid, num), j) (cx_chunks db) of
        None \<Rightarrow> ck_text r = ts ! (j - i) \<and> ck_embedding r = None
      | Some r0 \<Rightarrow> r = rewritten (ts ! (j - i)) (tok (ts ! (j - i))) r0)"
proof (induction ts arbitrary: i db)
  case (Cons t ts)
  show ?case
  proof (cases "j = i")
    case True
    then show ?thesis by (auto simp: put_chunks_outside row_by_put_chunk split: option.splits)
  next
    case False
    then have le: "i + 1 \<le> j" "j < i + 1 + length ts" using Cons.prems by auto
    then have at: "(t # ts) ! (j - i) = ts ! (j - (i + 1))" by (simp add: nth_Cons')
    have old: "row_by chunk_key ((nid, num), j) (cx_chunks (put_chunk nid num i t (tok t) db)) =
        row_by chunk_key ((nid, num), j) (cx_chunks db)"
      using False by (simp add: row_by_put_chunk)
    show ?thesis using Cons.IH [OF le, of "put_chunk nid num i t (tok t) db"] unfolding at old put_chunks.simps .
  qed
qed simp

lemma row_by_drop_chunks:
  "row_by chunk_key (c, j) (cx_chunks (drop_chunks nid num n db)) =
    (if c = (nid, num) \<and> n \<le> j then None else row_by chunk_key (c, j) (cx_chunks db))"
proof -
  have "\<And>r. chunk_key r = (c, j) \<Longrightarrow> (in_chapter nid num r \<and> n \<le> ck_index r) = (c = (nid, num) \<and> n \<le> j)"
    by (auto simp: in_chapter_def chunk_key_def)
  from row_by_delete_if [of chunk_key, OF this] show ?thesis by (simp add: drop_chunks_def)
qed

lemma row_by_remove:
  "row_by chunk_key (c, j) (sql_delete (in_chapter nid num) rows) = (if c = (nid, num) then None else row_by chunk_key (c, j) rows)"
  by (rule row_by_delete_if) (auto simp: in_chapter_def chunk_key_def)

text \<open>A row that stays keeps its id, and its embedding exactly when its text did not change.\<close>

definition rows_kept :: "codex_db \<Rightarrow> codex_db \<Rightarrow> bool" where
  "rows_kept db db' \<longleftrightarrow> (\<forall>k r r'. row_by chunk_key k (cx_chunks db) = Some r \<longrightarrow> row_by chunk_key k (cx_chunks db') = Some r' \<longrightarrow>
     ck_id r' = ck_id r \<and> ck_embedding r' = (if ck_text r' = ck_text r then ck_embedding r else None))"

lemma rows_kept_refl: "rows_kept db db"
  by (simp add: rows_kept_def)

definition written :: "(string \<Rightarrow> nat) \<Rightarrow> int \<Rightarrow> rat \<Rightarrow> string list \<Rightarrow> codex_db \<Rightarrow> codex_db" where
  "written tok nid num ts db = drop_chunks nid num (length ts) (put_chunks tok nid num 0 ts db)"

lemma stored_written:
  "stored_texts (written tok nid num ts db) = (stored_texts db)((nid, num) := nth_opt ts)"
proof (intro ext)
  fix c j
  show "stored_texts (written tok nid num ts db) c j = ((stored_texts db)((nid, num) := nth_opt ts)) c j"
  proof (cases "c = (nid, num) \<and> j < length ts")
    case True
    from put_chunks_inside [of 0 j ts nid num tok db]
    obtain r where "row_by chunk_key ((nid, num), j) (cx_chunks (put_chunks tok nid num 0 ts db)) = Some r" "ck_text r = ts ! j"
      using True by (auto simp: rewritten_def split: option.splits)
    then show ?thesis using True by (auto simp: written_def stored_texts_def row_by_drop_chunks nth_opt_def)
  next
    case False
    then have "c \<noteq> (nid, num) \<or> length ts \<le> j" by auto
    then show ?thesis
      by (auto simp: written_def stored_texts_def row_by_drop_chunks nth_opt_def put_chunks_outside)
  qed
qed

lemma rows_kept_written: "rows_kept db (written tok nid num ts db)"
  unfolding rows_kept_def
proof (intro allI impI)
  fix k r r'
  assume a: "row_by chunk_key k (cx_chunks db) = Some r" "row_by chunk_key k (cx_chunks (written tok nid num ts db)) = Some r'"
  obtain c j where k: "k = (c, j)" by (cases k)
  show "ck_id r' = ck_id r \<and> ck_embedding r' = (if ck_text r' = ck_text r then ck_embedding r else None)"
  proof (cases "c = (nid, num) \<and> j < length ts")
    case True
    then show ?thesis using a put_chunks_inside [of 0 j ts nid num tok db]
      by (auto simp: k written_def row_by_drop_chunks rewritten_def)
  next
    case False
    then have "c \<noteq> (nid, num) \<or> length ts \<le> j" by auto
    then show ?thesis using a
      by (auto simp: k written_def row_by_drop_chunks put_chunks_outside split: if_splits)
  qed
qed

lemma written_keys: "distinct (map chunk_key (cx_chunks db)) \<Longrightarrow> distinct (map chunk_key (cx_chunks (written tok nid num ts db)))"
  unfolding written_def drop_chunks_def by (simp add: distinct_sql_delete put_chunks_keys)

lemma row_by_filter_chapter:
  "row_by ck_index i (filter (in_chapter nid num) rows) = row_by chunk_key ((nid, num), i) rows"
  by (induction rows) (auto simp: in_chapter_def chunk_key_def)

lemma unchanged_stored:
  assumes "\<not> chunks_changed ts (filter (in_chapter nid num) (cx_chunks db))"
  shows "stored_texts db (nid, num) = nth_opt ts"
proof
  fix i
  let ?ex = "filter (in_chapter nid num) (cx_chunks db)"
  have idx: "ck_index ` set ?ex = {0..<length ts}" and texts: "\<And>i. i < length ts \<Longrightarrow> map_option ck_text (row_by ck_index i ?ex) = Some (ts ! i)"
    using assms by (auto simp: chunks_changed_def)
  have "row_by ck_index i ?ex = None" if "length ts \<le> i"
    using that idx by (auto simp: row_by_None_iff)
  then show "stored_texts db (nid, num) i = nth_opt ts i"
    using texts [of i] by (auto simp: stored_texts_def nth_opt_def row_by_filter_chapter not_less)
qed

lemma store_chunks_cases:
  assumes "store_chunks tok nid num force ts db = (r, db')"
  shows "(db' = db \<and> (r = Inr 0 \<or> (\<exists>e. r = Inl e))) \<or>
    (r = Inr (int (length ts)) \<and> db' = written tok nid num ts db \<and>
       (checkpointed nid num db \<longrightarrow> filter (in_chapter nid num) (cx_chunks db) \<noteq> [] \<longrightarrow> stored_texts db (nid, num) = nth_opt ts))"
  using assms unchanged_stored [of ts nid num db]
  by (auto simp: store_chunks_def Let_def written_def split: if_splits)

lemma chunk_chapter_cases:
  assumes run: "chunk_chapter tok target overlap nid num force rdb db = Some (r, db')"
  shows "db' = db \<or>
    r = Inr 0 \<and> \<not> dependent nid num db \<and> db' = db\<lparr>cx_chunks := sql_delete (in_chapter nid num) (cx_chunks db)\<rparr> \<or>
    (\<exists>c tx ts. chapter_snapshot nid num rdb = Some c \<and> cs_content c = Some tx \<and>
       chunk_chapter_text tok target overlap tx = Some (Inr ts) \<and> store_chunks tok nid num force ts db = (r, db'))"
proof (cases "chapter_snapshot nid num rdb")
  case (Some c)
  show ?thesis
  proof (cases "cs_content c")
    case (Some tx)
    then show ?thesis using run \<open>chapter_snapshot nid num rdb = Some c\<close>
      by (auto simp: chunk_chapter_def remove_chunks_def blank_def split: option.splits sum.splits if_splits)
  qed (use run Some in \<open>simp add: chunk_chapter_def blank_def\<close>)
qed (use run in \<open>simp add: chunk_chapter_def\<close>)

text \<open>
  C36: chunking a chapter refines replacing its texts in an abstract store. Whenever \<open>chunk_chapter\<close>
  returns, it either left everything as it was (also on every error), or cleared a chapter that is not
  narrative and that no structured table depends on, or made the stored texts of the chapter exactly the
  list that \<open>chunk_chapter_text\<close> computes, numbered from 0 without a gap; no other chapter changes. Keys
  stay unique, a row that stays keeps its id, and its embedding exactly when its text did not change; and
  once the chapter is checkpointed by the extraction, its stored texts do not change at all.
\<close>

theorem chunk_chapter_refines:
  assumes run: "chunk_chapter tok target overlap nid num force rdb db = Some (r, db')"
    and keys: "distinct (map chunk_key (cx_chunks db))"
  shows "(db' = db \<or>
      r = Inr 0 \<and> \<not> dependent nid num db \<and> stored_texts db' = (stored_texts db)((nid, num) := \<lambda>_. None) \<or>
      (\<exists>txt ts. map_option cs_content (chapter_snapshot nid num rdb) = Some (Some txt) \<and>
         chunk_chapter_text tok target overlap txt = Some (Inr ts) \<and> r = Inr (int (length ts)) \<and>
         stored_texts db' = (stored_texts db)((nid, num) := nth_opt ts))) \<and>
    distinct (map chunk_key (cx_chunks db')) \<and> rows_kept db db' \<and>
    (checkpointed nid num db \<longrightarrow> (\<exists>i. stored_texts db (nid, num) i \<noteq> None) \<longrightarrow> stored_texts db' = stored_texts db)"
proof -
  define del where "del = db\<lparr>cx_chunks := sql_delete (in_chapter nid num) (cx_chunks db)\<rparr>"
  have del: "stored_texts del = (stored_texts db)((nid, num) := \<lambda>_. None)" "rows_kept db del" "distinct (map chunk_key (cx_chunks del))"
    using keys by (auto simp: del_def stored_texts_def rows_kept_def row_by_remove distinct_sql_delete fun_eq_iff)
  have dep: "checkpointed nid num db \<Longrightarrow> dependent nid num db"
    by (auto simp: checkpointed_def dependent_def DEPENDENT_TABLES_def)
  have some: "filter (in_chapter nid num) (cx_chunks db) \<noteq> []" if "stored_texts db (nid, num) i \<noteq> None" for i
    using that row_by_filter_chapter [of i nid num "cx_chunks db"] by (auto simp: stored_texts_def)
  consider (same) "db' = db" | (clear) "r = Inr 0" "\<not> dependent nid num db" "db' = del"
    | (store) c tx ts where "chapter_snapshot nid num rdb = Some c" "cs_content c = Some tx"
        "chunk_chapter_text tok target overlap tx = Some (Inr ts)" "store_chunks tok nid num force ts db = (r, db')"
    using chunk_chapter_cases [OF run] unfolding del_def by blast
  then show ?thesis
  proof cases
    case same
    then show ?thesis using keys rows_kept_refl by simp
  next
    case clear
    then show ?thesis using del dep by auto
  next
    case store
    consider (quiet) "db' = db" | (stored) "r = Inr (int (length ts))" "db' = written tok nid num ts db"
        "checkpointed nid num db \<longrightarrow> filter (in_chapter nid num) (cx_chunks db) \<noteq> [] \<longrightarrow> stored_texts db (nid, num) = nth_opt ts"
      using store_chunks_cases [OF store(4)] by blast
    then show ?thesis
    proof cases
      case quiet
      then show ?thesis using keys rows_kept_refl by simp
    next
      case stored
      note w = stored(1,2) and cp = stored(3)
      have keep: "stored_texts db' = stored_texts db" if "checkpointed nid num db" "stored_texts db (nid, num) i \<noteq> None" for i
        using that some cp by (auto simp: w(2) stored_written)
      have st: "stored_texts db' = (stored_texts db)((nid, num) := nth_opt ts)" by (simp add: w(2) stored_written)
      have "\<exists>txt ts. map_option cs_content (chapter_snapshot nid num rdb) = Some (Some txt) \<and>
         chunk_chapter_text tok target overlap txt = Some (Inr ts) \<and> r = Inr (int (length ts)) \<and>
         stored_texts db' = (stored_texts db)((nid, num) := nth_opt ts)"
        using store w(1) st by (intro exI [of _ tx] exI [of _ ts]) simp
      then show ?thesis using keep keys by (simp add: w(2) written_keys rows_kept_written) blast
    qed
  qed
qed

definition demo_chapter_tokens :: "string \<Rightarrow> nat" where
  "demo_chapter_tokens s = length s"

definition demo_reading_chapter :: chapter_row where
  "demo_reading_chapter = \<lparr>c_novel_id = 1, c_number = 2, c_source_id = None, c_title = None, c_url = None, c_raw_html = None,
     c_original_text = None, c_content = Some ''A. B.'', c_language = None, c_is_translated = False,
     c_translation_status = ''none'', c_translation_model = None, c_word_count = None, c_content_version = 1, c_kind = None,
     c_part_label = None, c_run_id = None, c_source_sha = None\<rparr>"

definition demo_codex_reading :: reading_db where
  "demo_codex_reading = \<lparr>chapters = [demo_reading_chapter], progress_rows = [], bookmarks = [], next_bookmark_id = 1, overlays = [],
     contributions = [], next_contribution_id = 1\<rparr>"

definition demo_codex_db :: codex_db where
  "demo_codex_db = \<lparr>cx_chunks = [\<lparr>ck_id = 5, ck_novel_id = 1, ck_chapter = 2, ck_index = 0, ck_text = ''A. B.'', ck_token_count = 9,
     ck_embedding = Some [1]\<rparr>], cx_next_chunk_id = 6, cx_structured = [(''extraction_state'', 1, 2)]\<rparr>"

theorem chunk_chapter_refines_witness:
  "\<exists>db'. chunk_chapter demo_chapter_tokens 8 4 1 2 True demo_codex_reading demo_codex_db = Some (Inr 1, db') \<and>
     rows_kept demo_codex_db db' \<and> stored_texts db' = stored_texts demo_codex_db"
proof -
  obtain db' where run: "chunk_chapter demo_chapter_tokens 8 4 1 2 True demo_codex_reading demo_codex_db = Some (Inr 1, db')"
  proof
    have snap: "chapter_snapshot 1 2 demo_codex_reading = Some \<lparr>cs_title = None, cs_content = Some ''A. B.'', cs_kind = ''chapter'',
        cs_part_label = None, cs_narrative_part_chapters = [2]\<rparr>"
      by code_simp
    have pieces: "chunk_pieces demo_chapter_tokens 8 ''A. B.'' = [''A. B.'']"
      by code_simp
    have loop: "chunk_loop demo_chapter_tokens 8 4 [''A. B.''] 0 [] 0 [] = Some ([], [''A. B.''])"
      by (simp add: chunk_loop.simps [of _ _ _ _ 0] chunk_loop.simps [of _ _ _ _ "Suc 0"] demo_chapter_tokens_def)
    have chunks: "chunk_chapter_text demo_chapter_tokens 8 4 ''A. B.'' = Some (Inr [''A. B.''])"
      by (simp add: chunk_chapter_text_def pieces loop)
    have store: "fst (store_chunks demo_chapter_tokens 1 2 True [''A. B.''] demo_codex_db) = Inr 1"
      by code_simp
    show "chunk_chapter demo_chapter_tokens 8 4 1 2 True demo_codex_reading demo_codex_db =
        Some (Inr 1, snd (store_chunks demo_chapter_tokens 1 2 True [''A. B.''] demo_codex_db))"
      using store by (simp add: chunk_chapter_def snap chunks blank_def NARRATIVE_KINDS_def prod_eq_iff)
  qed
  have "distinct (map chunk_key (cx_chunks demo_codex_db))" "checkpointed 1 2 demo_codex_db"
    "stored_texts demo_codex_db (1, 2) 0 \<noteq> None"
    by (simp_all add: demo_codex_db_def checkpointed_def stored_texts_def chunk_key_def)
  then show ?thesis using chunk_chapter_refines [OF run] run by blast
qed

end
