(* ===== verification/Codex_Retrieval.thy ===== *)
theory Codex_Retrieval
  imports Codex_Store "HOL-Library.Product_Lexorder" "HOL-Library.Countable"
begin

text \<open>
  Retrieval of passages under a reader's ceiling: \<open>retrieval/bm25.py\<close>, \<open>dense.py\<close>, \<open>fuse.py\<close>,
  \<open>rerank.py\<close> and the passage tools of \<open>tools.py\<close> in \<open>modules/codex/adapters/outbound\<close>. The lexical
  index is the library \<open>bm25s\<close>: \<open>build\<close> tokenizes and indexes texts (\<open>None\<close> without a vocabulary) and
  \<open>retrieve\<close> returns positions with scores (\<open>None\<close> when it raises). The embedding model and the
  distance of pgvector are arguments as well, and so is the scan \<open>ix\<close> that delivers the rows of the chunk
  table in the order of their distance: up to 2000 dimensions it is an approximate HNSW index
  (\<open>db/schema.py\<close>), beyond that a raw scan. Scores are exact rationals.
\<close>

section \<open>The lexical index of a novel\<close>

record doc =
  dc_id :: int
  dc_chapter :: rat
  dc_text :: string

record hit =
  h_id :: int
  h_chapter :: rat
  h_text :: string
  h_score :: rat

record bm_signature =
  sg_novel_id :: int
  sg_count :: nat
  sg_max_id :: int
  sg_total_chars :: nat
  sg_content_sha256 :: string
  sg_dim :: int

record 'i bm25 =
  bm_novel_id :: int
  bm_corpus :: "doc list"
  bm_retriever :: "'i option"
  bm_prefix :: "(nat \<times> 'i option \<times> nat list) list"
  bm_loaded :: bool

text \<open>What the process is configured with, and the library.\<close>

record 'i bm_config =
  bc_build :: "string list \<Rightarrow> 'i option"
  bc_retrieve :: "'i \<Rightarrow> string \<Rightarrow> nat \<Rightarrow> (nat \<times> rat) list option"
  bc_digest :: "doc list \<Rightarrow> string"
  bc_dim :: int
  bc_cache_size :: nat

definition fresh_manager :: "int \<Rightarrow> 'i bm25" where
  "fresh_manager nid = \<lparr>bm_novel_id = nid, bm_corpus = [], bm_retriever = None, bm_prefix = [], bm_loaded = False\<rparr>"

definition corpus_rows :: "int \<Rightarrow> codex_db \<Rightarrow> doc list" where
  "corpus_rows nid db = map (\<lambda>r. \<lparr>dc_id = ck_id r, dc_chapter = ck_chapter r, dc_text = ck_text r\<rparr>)
     (sort_key ck_id (filter (\<lambda>r. ck_novel_id r = nid) (cx_chunks db)))"

definition load_corpus_rows :: "codex_db \<Rightarrow> 'i bm25 \<Rightarrow> 'i bm25" where
  "load_corpus_rows db m = m\<lparr>bm_corpus := corpus_rows (bm_novel_id m) db, bm_prefix := []\<rparr>"

definition db_signature :: "'i bm_config \<Rightarrow> 'i bm25 \<Rightarrow> bm_signature" where
  "db_signature cfg m =
     \<lparr>sg_novel_id = bm_novel_id m, sg_count = length (bm_corpus m),
      sg_max_id = (if bm_corpus m = [] then 0 else Max (set (map dc_id (bm_corpus m)))),
      sg_total_chars = sum_list (map (length \<circ> dc_text) (bm_corpus m)),
      sg_content_sha256 = bc_digest cfg (bm_corpus m), sg_dim = bc_dim cfg\<rparr>"

definition build_retriever :: "'i bm_config \<Rightarrow> 'i bm25 \<Rightarrow> 'i bm25" where
  "build_retriever cfg m =
     (if bm_corpus m = [] then m\<lparr>bm_retriever := None\<rparr>
      else m\<lparr>bm_retriever := bc_build cfg (map dc_text (bm_corpus m)), bm_prefix := []\<rparr>)"

text \<open>
  \<open>_retriever_for_ceiling\<close>: the index over the chapters up to the ceiling and the positions it covers.
  The cache is ordered from the least recently used.
\<close>

definition eligible_positions :: "rat \<Rightarrow> doc list \<Rightarrow> nat list" where
  "eligible_positions c corpus = filter (\<lambda>i. dc_chapter (corpus ! i) \<le> c) [0..<length corpus]"

definition retriever_for_ceiling :: "'i bm_config \<Rightarrow> rat \<Rightarrow> 'i bm25 \<Rightarrow> ('i option \<times> nat list) \<times> 'i bm25" where
  "retriever_for_ceiling cfg c m =
     (let eligible = eligible_positions c (bm_corpus m); key = length eligible in
      if eligible = [] then ((None, eligible), m)
      else if length eligible = length (bm_corpus m) then ((bm_retriever m, eligible), m)
      else case map_of (bm_prefix m) key of
        Some v \<Rightarrow> (v, m\<lparr>bm_prefix := filter (\<lambda>e. fst e \<noteq> key) (bm_prefix m) @ [(key, v)]\<rparr>)
      | None \<Rightarrow>
          let v = (bc_build cfg (map (\<lambda>i. dc_text (bm_corpus m ! i)) eligible), eligible);
              cache = bm_prefix m @ [(key, v)]
          in (v, m\<lparr>bm_prefix := drop (length cache - bc_cache_size cfg) cache\<rparr>))"

text \<open>The files of an index: what \<open>_save\<close> wrote last.\<close>

type_synonym 'i bm_disk = "(bm_signature \<times> 'i) option"

definition save_index :: "'i bm_config \<Rightarrow> 'i bm25 \<Rightarrow> 'i bm_disk \<Rightarrow> 'i bm_disk" where
  "save_index cfg m disk = (case bm_retriever m of None \<Rightarrow> disk | Some idx \<Rightarrow> Some (db_signature cfg m, idx))"

definition try_load_from_disk :: "'i bm_config \<Rightarrow> 'i bm_disk \<Rightarrow> 'i bm25 \<Rightarrow> 'i bm25 option" where
  "try_load_from_disk cfg disk m =
     (case disk of None \<Rightarrow> None
      | Some (sig, idx) \<Rightarrow> if sig = db_signature cfg m then Some (m\<lparr>bm_retriever := Some idx\<rparr>) else None)"

definition rebuild_index :: "'i bm_config \<Rightarrow> codex_db \<Rightarrow> 'i bm25 \<times> 'i bm_disk \<Rightarrow> 'i bm25 \<times> 'i bm_disk" where
  "rebuild_index cfg db md =
     (let m = load_corpus_rows db ((fst md)\<lparr>bm_loaded := False\<rparr>) in
      if bm_corpus m = [] then (m\<lparr>bm_retriever := None, bm_loaded := True\<rparr>, snd md)
      else let m1 = build_retriever cfg m in (m1\<lparr>bm_loaded := True\<rparr>, save_index cfg m1 (snd md)))"

definition load_or_build_index :: "'i bm_config \<Rightarrow> codex_db \<Rightarrow> 'i bm25 \<times> 'i bm_disk \<Rightarrow> 'i bm25 \<times> 'i bm_disk" where
  "load_or_build_index cfg db md =
     (let m = load_corpus_rows db ((fst md)\<lparr>bm_loaded := False\<rparr>) in
      if bm_corpus m = [] then (m\<lparr>bm_retriever := None, bm_loaded := True\<rparr>, snd md)
      else case try_load_from_disk cfg (snd md) m of
        Some m1 \<Rightarrow> (m1\<lparr>bm_loaded := True\<rparr>, snd md)
      | None \<Rightarrow> let m1 = build_retriever cfg m in (m1\<lparr>bm_loaded := True\<rparr>, save_index cfg m1 (snd md)))"

definition ensure_loaded :: "'i bm_config \<Rightarrow> codex_db \<Rightarrow> 'i bm25 \<times> 'i bm_disk \<Rightarrow> 'i bm25 \<times> 'i bm_disk" where
  "ensure_loaded cfg db md = (if bm_loaded (fst md) then md else load_or_build_index cfg db md)"

text \<open>The loop over what the library found; a position outside the corpus is an \<open>IndexError\<close>.\<close>

fun collect_hits :: "doc list \<Rightarrow> nat list \<Rightarrow> rat \<Rightarrow> (nat \<times> rat) list \<Rightarrow> hit list result" where
  "collect_hits corpus eligible c [] = Inr []"
| "collect_hits corpus eligible c ((i, score) # rs) =
     (if score \<le> 0 then collect_hits corpus eligible c rs
      else if length eligible \<le> i then Inl (LookupError ''index out of range'')
      else let d = corpus ! (eligible ! i) in
        if dc_chapter d > c then collect_hits corpus eligible c rs
        else bindE (collect_hits corpus eligible c rs) (\<lambda>hs.
          Inr (\<lparr>h_id = dc_id d, h_chapter = dc_chapter d, h_text = dc_text d, h_score = score\<rparr> # hs)))"

definition bm_search :: "'i bm_config \<Rightarrow> string \<Rightarrow> rat \<Rightarrow> nat \<Rightarrow> 'i bm25 \<Rightarrow> hit list result \<times> 'i bm25" where
  "bm_search cfg q c k m =
     (if bm_corpus m = [] \<or> bm_retriever m = None then (Inr [], m)
      else case retriever_for_ceiling cfg c m of
        ((None, _), m1) \<Rightarrow> (Inr [], m1)
      | ((Some idx, eligible), m1) \<Rightarrow>
          (if eligible = [] \<or> min k (length eligible) = 0 then (Inr [], m1)
           else case bc_retrieve cfg idx q (min k (length eligible)) of
             None \<Rightarrow> (Inr [], m1)
           | Some rs \<Rightarrow> (collect_hits (bm_corpus m1) eligible c rs, m1)))"

section \<open>The dense search\<close>

text \<open>\<open>emb\<close> is the embedding of the query, \<open>None\<close> when it fails or is empty; \<open>df\<close> is pgvector's \<open><=>\<close>.\<close>

text \<open>
  The conditions of the query are applied to the rows the scan delivers, and the first \<open>k\<close> that pass are
  the answer.
\<close>

definition dense_search ::
  "(rat list \<Rightarrow> chunk_row list \<Rightarrow> chunk_row list) \<Rightarrow> (string \<Rightarrow> rat list option) \<Rightarrow> (rat list \<Rightarrow> rat list \<Rightarrow> rat) \<Rightarrow>
   int \<Rightarrow> string \<Rightarrow> rat \<Rightarrow> nat \<Rightarrow> codex_db \<Rightarrow> hit list" where
  "dense_search ix emb df nid q c k db =
     (case emb q of
        None \<Rightarrow> []
      | Some v \<Rightarrow>
          map (\<lambda>(r, e). \<lparr>h_id = ck_id r, h_chapter = ck_chapter r, h_text = ck_text r, h_score = 1 - df e v\<rparr>)
            (take k (List.map_filter (\<lambda>r. if ck_chapter r \<le> c \<and> ck_novel_id r = nid
               then map_option (\<lambda>e. (r, e)) (ck_embedding r) else None) (ix v (cx_chunks db)))))"

section \<open>Reciprocal rank fusion\<close>

record fused_hit =
  f_id :: int
  f_chapter :: rat
  f_text :: string
  f_fused_score :: rat

type_synonym fusion = "int list \<times> (int \<rightharpoonup> rat \<times> nat \<times> hit)"

fun add_hits :: "int \<Rightarrow> nat \<Rightarrow> hit list \<Rightarrow> fusion \<Rightarrow> fusion" where
  "add_hits rrf_k rank [] s = s"
| "add_hits rrf_k rank (h # hs) (ids, m) =
     (let gain = 1 / (of_int rrf_k + of_nat rank)
      in add_hits rrf_k (rank + 1) hs
           (case m (h_id h) of
              None \<Rightarrow> (ids @ [h_id h], m(h_id h \<mapsto> (gain, rank, h)))
            | Some (score, best, _) \<Rightarrow> (ids, m(h_id h \<mapsto> (score + gain, min rank best, h)))))"

definition rank_key :: "fusion \<Rightarrow> int \<Rightarrow> rat \<times> nat \<times> int" where
  "rank_key s i = (case the (snd s i) of (score, best, _) \<Rightarrow> (- score, best, i))"

text \<open>\<open>round\<close> of Python: to the nearest integer, halves to the even one.\<close>

definition py_round :: "rat \<Rightarrow> int" where
  "py_round x = (let n = \<lfloor>x\<rfloor>; r = x - of_int n in
     if r < 1 / 2 then n else if 1 / 2 < r then n + 1 else if even n then n else n + 1)"

definition source_quota :: "rat \<Rightarrow> nat \<Rightarrow> nat" where
  "source_quota ratio limit = min limit (nat (max 1 (py_round (of_nat limit * ratio))))"

definition required_ids :: "rat \<Rightarrow> nat \<Rightarrow> hit list \<Rightarrow> hit list \<Rightarrow> int set" where
  "required_ids ratio limit sparse dense =
     set (map h_id (take (source_quota ratio limit) sparse)) \<union> set (map h_id (take (source_quota ratio limit) dense))"

definition limit_ids :: "rat \<Rightarrow> nat \<Rightarrow> hit list \<Rightarrow> hit list \<Rightarrow> fusion \<Rightarrow> int list \<Rightarrow> int list" where
  "limit_ids ratio limit sparse dense s sorted_ids =
     (let required = required_ids ratio limit sparse dense;
          selected = filter (\<lambda>i. i \<in> required) sorted_ids;
          extended = selected @ take (limit - length selected) (filter (\<lambda>i. i \<notin> required) sorted_ids)
      in sort_key (rank_key s) (take limit extended))"

definition fused :: "int \<Rightarrow> hit list \<Rightarrow> hit list \<Rightarrow> fusion" where
  "fused rrf_k sparse dense = add_hits rrf_k 1 dense (add_hits rrf_k 1 sparse ([], Map.empty))"

definition fused_view :: "fusion \<Rightarrow> int \<Rightarrow> fused_hit" where
  "fused_view s i = (case the (snd s i) of (score, _, h) \<Rightarrow>
     \<lparr>f_id = h_id h, f_chapter = h_chapter h, f_text = h_text h, f_fused_score = score\<rparr>)"

definition reciprocal_rank_fusion :: "int \<Rightarrow> rat \<Rightarrow> nat option \<Rightarrow> hit list \<Rightarrow> hit list \<Rightarrow> fused_hit list" where
  "reciprocal_rank_fusion rrf_k ratio limit sparse dense =
     (let s = fused rrf_k sparse dense;
          sorted_ids = sort_key (rank_key s) (fst s);
          ids = (case limit of None \<Rightarrow> sorted_ids | Some l \<Rightarrow> limit_ids ratio l sparse dense s sorted_ids)
      in map (fused_view s) ids)"

section \<open>Tools\<close>

record 'i search_config =
  sc_bm :: "'i bm_config"
  sc_scan :: "rat list \<Rightarrow> chunk_row list \<Rightarrow> chunk_row list"
  sc_embed :: "string \<Rightarrow> rat list option"
  sc_dist :: "rat list \<Rightarrow> rat list \<Rightarrow> rat"
  sc_rrf_k :: int
  sc_ratio :: rat

definition hybrid_search ::
  "'i search_config \<Rightarrow> string \<Rightarrow> rat \<Rightarrow> nat \<Rightarrow> codex_db \<Rightarrow> 'i bm25 \<times> 'i bm_disk \<Rightarrow> fused_hit list result \<times> 'i bm25 \<times> 'i bm_disk" where
  "hybrid_search cfg q c k db md =
     (let md1 = ensure_loaded (sc_bm cfg) db md in
      case bm_search (sc_bm cfg) q c k (fst md1) of
        (Inl e, m2) \<Rightarrow> (Inl e, m2, snd md1)
      | (Inr sparse, m2) \<Rightarrow>
          (Inr (take k (reciprocal_rank_fusion (sc_rrf_k cfg) (sc_ratio cfg) (Some k) sparse
             (dense_search (sc_scan cfg) (sc_embed cfg) (sc_dist cfg) (bm_novel_id m2) q c k db))), m2, snd md1))"

text \<open>\<open>rerank_hits\<close>: \<open>ranked\<close> is the provider's answer (\<open>None\<close> when it fails), positions with scores; the score of a
  result is the provider's.\<close>

definition rerank_hits :: "nat \<Rightarrow> (nat \<times> rat) list option \<Rightarrow> fused_hit list \<Rightarrow> fused_hit list" where
  "rerank_hits top_n ranked hits =
     (if hits = [] then []
      else case ranked of
        None \<Rightarrow> take top_n hits
      | Some rs \<Rightarrow> List.map_filter (\<lambda>(i, score). if i < length hits then Some ((hits ! i)\<lparr>f_fused_score := score\<rparr>) else None) rs)"

definition get_chunk :: "int \<Rightarrow> int \<Rightarrow> rat \<Rightarrow> codex_db \<Rightarrow> chunk_row option" where
  "get_chunk nid cid c db = find (\<lambda>r. ck_id r = cid \<and> ck_chapter r \<le> c \<and> ck_novel_id r = nid) (cx_chunks db)"

section \<open>The cache is invisible\<close>

text \<open>The reference: index the visible documents afresh for every search.\<close>

definition visible :: "rat \<Rightarrow> doc list \<Rightarrow> doc list" where
  "visible c corpus = filter (\<lambda>d. dc_chapter d \<le> c) corpus"

definition hit_of :: "doc \<Rightarrow> rat \<Rightarrow> hit" where
  "hit_of d score = \<lparr>h_id = dc_id d, h_chapter = dc_chapter d, h_text = dc_text d, h_score = score\<rparr>"

fun hits_of :: "doc list \<Rightarrow> (nat \<times> rat) list \<Rightarrow> hit list result" where
  "hits_of docs [] = Inr []"
| "hits_of docs ((i, score) # rs) =
     (if score \<le> 0 then hits_of docs rs
      else if length docs \<le> i then Inl (LookupError ''index out of range'')
      else bindE (hits_of docs rs) (\<lambda>hs. Inr (hit_of (docs ! i) score # hs)))"

definition reference_search :: "'i bm_config \<Rightarrow> string \<Rightarrow> rat \<Rightarrow> nat \<Rightarrow> doc list \<Rightarrow> hit list result" where
  "reference_search cfg q c k corpus =
     (let docs = visible c corpus in
      if docs = [] \<or> k = 0 \<or> bc_build cfg (map dc_text corpus) = None then Inr []
      else case bc_build cfg (map dc_text docs) of
        None \<Rightarrow> Inr []
      | Some idx \<Rightarrow> (case bc_retrieve cfg idx q (min k (length docs)) of None \<Rightarrow> Inr [] | Some rs \<Rightarrow> hits_of docs rs))"

lemma eligible_docs: "map ((!) corpus) (eligible_positions c corpus) = visible c corpus"
proof -
  have "visible c corpus = filter (\<lambda>d. dc_chapter d \<le> c) (map ((!) corpus) [0..<length corpus])"
    by (simp add: visible_def map_nth)
  also have "\<dots> = map ((!) corpus) (eligible_positions c corpus)"
    by (simp add: filter_map eligible_positions_def comp_def)
  finally show ?thesis by simp
qed

lemma eligible_length: "length (eligible_positions c corpus) = length (visible c corpus)"
  by (metis eligible_docs length_map)

text \<open>Two ceilings with equally many visible documents see the same ones.\<close>

lemma eligible_by_length:
  assumes "length (eligible_positions a corpus) = length (eligible_positions b corpus)"
  shows "eligible_positions a corpus = eligible_positions b corpus"
proof -
  have le: "eligible_positions a corpus = eligible_positions b corpus"
    if "a \<le> b" "length (eligible_positions a corpus) = length (eligible_positions b corpus)" for a b
  proof -
    let ?A = "set (eligible_positions a corpus)" and ?B = "set (eligible_positions b corpus)"
    have d: "distinct (eligible_positions x corpus)" for x by (simp add: eligible_positions_def)
    have "?A \<subseteq> ?B" using that(1) by (auto simp: eligible_positions_def)
    moreover have "card ?A = card ?B" using that(2) d by (simp add: distinct_card)
    ultimately have "?A = ?B" by (simp add: card_subset_eq)
    moreover have "sorted (eligible_positions x corpus)" for x by (simp add: eligible_positions_def sorted_wrt_filter)
    ultimately show ?thesis using d by (intro sorted_distinct_set_unique)
  qed
  show ?thesis
  proof (cases "a \<le> b")
    case True
    then show ?thesis using assms by (rule le)
  next
    case False
    then have "b \<le> a" by simp
    then show ?thesis using le [of b a] assms [symmetric] by (simp only:)
  qed
qed

lemma collect_hits_eligible:
  "collect_hits corpus (eligible_positions c corpus) c rs = hits_of (visible c corpus) rs"
proof (induction rs)
  case (Cons r rs)
  obtain i score where r: "r = (i, score)" by (cases r)
  show ?case
  proof (cases "score \<le> 0 \<or> length (visible c corpus) \<le> i")
    case True
    then show ?thesis using Cons.IH by (auto simp: r eligible_length)
  next
    case False
    then have i: "i < length (visible c corpus)" and s: "\<not> score \<le> 0" by auto
    then have at: "corpus ! (eligible_positions c corpus ! i) = visible c corpus ! i"
      using eligible_docs [of corpus c] eligible_length [of c corpus] by (metis nth_map)
    have "dc_chapter (visible c corpus ! i) \<le> c" using nth_mem [OF i] by (simp add: visible_def)
    then have "\<not> c < dc_chapter (visible c corpus ! i)" by simp
    then show ?thesis using i s by (simp add: r eligible_length at Let_def hit_of_def Cons.IH)
  qed
qed simp

text \<open>A manager between two operations: what it holds is what a fresh build would hold.\<close>

definition prefix_ok :: "'i bm_config \<Rightarrow> doc list \<Rightarrow> nat \<times> 'i option \<times> nat list \<Rightarrow> bool" where
  "prefix_ok cfg corpus e \<longleftrightarrow> (case e of (key, idx, positions) \<Rightarrow>
     \<exists>c. positions = eligible_positions c corpus \<and> key = length positions \<and> idx = bc_build cfg (map dc_text (visible c corpus)))"

definition bm_ok :: "'i bm_config \<Rightarrow> 'i bm25 \<Rightarrow> bool" where
  "bm_ok cfg m \<longleftrightarrow> (bm_corpus m \<noteq> [] \<longrightarrow> bm_retriever m = bc_build cfg (map dc_text (bm_corpus m))) \<and>
     (\<forall>e \<in> set (bm_prefix m). prefix_ok cfg (bm_corpus m) e)"

text \<open>The files hold an index together with the signature of the corpus it was built from.\<close>

definition disk_ok :: "'i bm_config \<Rightarrow> 'i bm_disk \<Rightarrow> bool" where
  "disk_ok cfg disk \<longleftrightarrow> (\<forall>sig idx. disk = Some (sig, idx) \<longrightarrow>
     (\<exists>corpus. sg_content_sha256 sig = bc_digest cfg corpus \<and> bc_build cfg (map dc_text corpus) = Some idx))"

lemma retriever_for_ceiling_spec:
  assumes ok: "bm_ok cfg m" and ne: "eligible_positions c (bm_corpus m) \<noteq> []"
  shows "\<exists>m1. retriever_for_ceiling cfg c m =
      ((bc_build cfg (map dc_text (visible c (bm_corpus m))), eligible_positions c (bm_corpus m)), m1) \<and>
    bm_ok cfg m1 \<and> bm_corpus m1 = bm_corpus m \<and> bm_retriever m1 = bm_retriever m \<and> bm_loaded m1 = bm_loaded m \<and>
    bm_novel_id m1 = bm_novel_id m"
proof -
  let ?el = "eligible_positions c (bm_corpus m)" and ?key = "length (eligible_positions c (bm_corpus m))"
  have texts: "map (\<lambda>i. dc_text (bm_corpus m ! i)) ?el = map dc_text (visible c (bm_corpus m))"
    by (simp add: eligible_docs [symmetric])
  consider (full) "?key = length (bm_corpus m)" | (hit) v where "?key \<noteq> length (bm_corpus m)" "map_of (bm_prefix m) ?key = Some v"
    | (miss) "?key \<noteq> length (bm_corpus m)" "map_of (bm_prefix m) ?key = None"
    by (cases "map_of (bm_prefix m) ?key") auto
  then show ?thesis
  proof cases
    case full
    have all: "visible c (bm_corpus m) = bm_corpus m"
      using full eligible_length [of c "bm_corpus m"] length_filter_less [of _ "bm_corpus m" "\<lambda>d. dc_chapter d \<le> c"]
      unfolding visible_def by (metis filter_True less_irrefl_nat)
    then show ?thesis using full ne ok by (auto simp: retriever_for_ceiling_def bm_ok_def Let_def eligible_positions_def)
  next
    case hit
    have e: "(?key, v) \<in> set (bm_prefix m)" using hit(2) by (rule map_of_SomeD)
    then obtain c' where c': "snd v = eligible_positions c' (bm_corpus m)" "length (snd v) = ?key"
      "fst v = bc_build cfg (map dc_text (visible c' (bm_corpus m)))"
      using ok by (fastforce simp: bm_ok_def prefix_ok_def)
    have same: "eligible_positions c' (bm_corpus m) = ?el" using c'(1,2) by (intro eligible_by_length) simp
    then have "visible c' (bm_corpus m) = visible c (bm_corpus m)" by (simp add: eligible_docs [symmetric])
    then have v: "v = (bc_build cfg (map dc_text (visible c (bm_corpus m))), ?el)" using c' same by (simp add: prod_eq_iff)
    show ?thesis using hit ne ok e by (auto simp: retriever_for_ceiling_def Let_def v [symmetric] bm_ok_def)
  next
    case miss
    have "prefix_ok cfg (bm_corpus m) (?key, bc_build cfg (map dc_text (visible c (bm_corpus m))), ?el)"
      by (auto simp: prefix_ok_def)
    then show ?thesis using miss ne ok
      by (auto simp: retriever_for_ceiling_def Let_def texts bm_ok_def dest: in_set_dropD)
  qed
qed

lemma bm_search_reference:
  assumes ok: "bm_ok cfg m"
  shows "fst (bm_search cfg q c k m) = reference_search cfg q c k (bm_corpus m) \<and> bm_ok cfg (snd (bm_search cfg q c k m)) \<and>
    bm_corpus (snd (bm_search cfg q c k m)) = bm_corpus m \<and> bm_loaded (snd (bm_search cfg q c k m)) = bm_loaded m \<and>
    bm_novel_id (snd (bm_search cfg q c k m)) = bm_novel_id m"
proof (cases "bm_corpus m = [] \<or> bm_retriever m = None")
  case True
  then have "reference_search cfg q c k (bm_corpus m) = Inr []"
    using ok by (auto simp: reference_search_def bm_ok_def visible_def Let_def)
  moreover have "bm_search cfg q c k m = (Inr [], m)" using True by (simp add: bm_search_def)
  ultimately show ?thesis using ok by simp
next
  case False
  then have b: "bc_build cfg (map dc_text (bm_corpus m)) \<noteq> None" using ok by (auto simp: bm_ok_def)
  show ?thesis
  proof (cases "eligible_positions c (bm_corpus m) = []")
    case True
    then have "retriever_for_ceiling cfg c m = ((None, []), m)" by (simp add: retriever_for_ceiling_def Let_def)
    then have "bm_search cfg q c k m = (Inr [], m)" using False by (simp add: bm_search_def)
    moreover have "visible c (bm_corpus m) = []" using True eligible_docs [of "bm_corpus m" c] by simp
    ultimately show ?thesis using ok by (simp add: reference_search_def)
  next
    case ne: False
    from retriever_for_ceiling_spec [OF ok ne] obtain m1 where
      r: "retriever_for_ceiling cfg c m =
        ((bc_build cfg (map dc_text (visible c (bm_corpus m))), eligible_positions c (bm_corpus m)), m1)"
      and m1: "bm_ok cfg m1" "bm_corpus m1 = bm_corpus m" "bm_loaded m1 = bm_loaded m" "bm_novel_id m1 = bm_novel_id m" by blast
    have v: "visible c (bm_corpus m) \<noteq> []" using ne eligible_docs [of "bm_corpus m" c] by auto
    have "fst (bm_search cfg q c k m) = reference_search cfg q c k (bm_corpus m) \<and> snd (bm_search cfg q c k m) = m1"
    proof (cases "bc_build cfg (map dc_text (visible c (bm_corpus m)))")
      case None
      have "bm_search cfg q c k m = (Inr [], m1)" unfolding bm_search_def r None using False by auto
      then show ?thesis using None by (simp add: reference_search_def Let_def)
    next
      case (Some idx)
      have "bm_search cfg q c k m = (if k = 0 then (Inr [], m1)
          else case bc_retrieve cfg idx q (min k (length (visible c (bm_corpus m)))) of
            None \<Rightarrow> (Inr [], m1) | Some rs \<Rightarrow> (hits_of (visible c (bm_corpus m)) rs, m1))"
        unfolding bm_search_def r Some using False ne v by (auto simp: m1(2) collect_hits_eligible eligible_length min_def split: option.splits)
      then show ?thesis using b v Some by (auto simp: reference_search_def Let_def split: option.splits)
    qed
    then show ?thesis using m1 by simp
  qed
qed

section \<open>Every operation keeps the manager faithful\<close>

datatype bm_op = Ensure | Rebuild | Search string rat nat

text \<open>One operation in the order the manager's lock gives them, over the database it finds.\<close>

fun bm_step :: "'i bm_config \<Rightarrow> codex_db \<times> bm_op \<Rightarrow> 'i bm25 \<times> 'i bm_disk \<Rightarrow> 'i bm25 \<times> 'i bm_disk" where
  "bm_step cfg (db, Ensure) md = ensure_loaded cfg db md"
| "bm_step cfg (db, Rebuild) md = rebuild_index cfg db md"
| "bm_step cfg (db, Search q c k) md = (snd (bm_search cfg q c k (fst md)), snd md)"

definition bm_run :: "'i bm_config \<Rightarrow> (codex_db \<times> bm_op) list \<Rightarrow> 'i bm25 \<times> 'i bm_disk \<Rightarrow> 'i bm25 \<times> 'i bm_disk" where
  "bm_run cfg ops md = fold (bm_step cfg) ops md"

lemma load_corpus_prefix: "bm_prefix (load_corpus_rows db m) = []"
  by (simp add: load_corpus_rows_def)

lemma built_ok: "bm_prefix m = [] \<Longrightarrow> bm_ok cfg (build_retriever cfg m) \<and> bm_corpus (build_retriever cfg m) = bm_corpus m"
  by (simp add: bm_ok_def build_retriever_def)

lemma save_disk_ok:
  assumes "disk_ok cfg disk" "bm_ok cfg m" "bm_corpus m \<noteq> []"
  shows "disk_ok cfg (save_index cfg m disk)"
  using assms by (auto simp: save_index_def disk_ok_def db_signature_def bm_ok_def split: option.splits)

lemma rebuild_ok:
  assumes "disk_ok cfg (snd md)"
  shows "bm_ok cfg (fst (rebuild_index cfg db md)) \<and> disk_ok cfg (snd (rebuild_index cfg db md)) \<and>
    bm_corpus (fst (rebuild_index cfg db md)) = corpus_rows (bm_novel_id (fst md)) db \<and>
    bm_loaded (fst (rebuild_index cfg db md)) \<and> bm_novel_id (fst (rebuild_index cfg db md)) = bm_novel_id (fst md)"
proof -
  let ?m = "load_corpus_rows db ((fst md)\<lparr>bm_loaded := False\<rparr>)"
  have c: "bm_corpus ?m = corpus_rows (bm_novel_id (fst md)) db" "bm_prefix ?m = []" "bm_novel_id ?m = bm_novel_id (fst md)"
    by (simp_all add: load_corpus_rows_def)
  note b = built_ok [OF c(2), of cfg]
  have nid: "bm_novel_id (build_retriever cfg ?m) = bm_novel_id (fst md)" by (simp add: build_retriever_def c(3))
  have flag: "bm_ok cfg (x\<lparr>bm_loaded := True\<rparr>) = bm_ok cfg x" for x by (simp add: bm_ok_def)
  show ?thesis
  proof (cases "bm_corpus ?m = []")
    case True
    then show ?thesis using assms c by (simp add: rebuild_index_def Let_def bm_ok_def)
  next
    case False
    have "disk_ok cfg (save_index cfg (build_retriever cfg ?m) (snd md))"
      using b False assms by (intro save_disk_ok) auto
    then show ?thesis using False b c(1) nid by (simp add: rebuild_index_def Let_def flag)
  qed
qed

lemma ensure_ok:
  assumes inj: "\<And>a b. bc_digest cfg a = bc_digest cfg b \<Longrightarrow> a = b"
    and d: "disk_ok cfg (snd md)" and ok: "bm_ok cfg (fst md)"
  shows "bm_ok cfg (fst (ensure_loaded cfg db md)) \<and> disk_ok cfg (snd (ensure_loaded cfg db md)) \<and>
    bm_loaded (fst (ensure_loaded cfg db md)) \<and> bm_novel_id (fst (ensure_loaded cfg db md)) = bm_novel_id (fst md)"
proof (cases "bm_loaded (fst md)")
  case True
  then show ?thesis using ok d by (simp add: ensure_loaded_def)
next
  case False
  let ?m = "load_corpus_rows db ((fst md)\<lparr>bm_loaded := False\<rparr>)"
  have c: "bm_prefix ?m = []" "bm_novel_id ?m = bm_novel_id (fst md)"
    by (simp_all add: load_corpus_rows_def)
  have flag: "bm_ok cfg (x\<lparr>bm_loaded := True\<rparr>) = bm_ok cfg x" for x by (simp add: bm_ok_def)
  show ?thesis
  proof (cases "bm_corpus ?m = [] \<or> try_load_from_disk cfg (snd md) ?m = None")
    case True
    then have "load_or_build_index cfg db md = rebuild_index cfg db md"
      by (auto simp: load_or_build_index_def rebuild_index_def Let_def)
    then show ?thesis using False rebuild_ok [OF d, of db] by (simp add: ensure_loaded_def)
  next
    case loaded: False
    then obtain sig idx where s: "snd md = Some (sig, idx)" "sig = db_signature cfg ?m"
      "try_load_from_disk cfg (snd md) ?m = Some (?m\<lparr>bm_retriever := Some idx\<rparr>)"
      by (auto simp: try_load_from_disk_def split: option.splits if_splits)
    obtain corpus where "sg_content_sha256 sig = bc_digest cfg corpus" "bc_build cfg (map dc_text corpus) = Some idx"
      using d s(1) by (auto simp: disk_ok_def)
    then have "bc_build cfg (map dc_text (bm_corpus ?m)) = Some idx"
      using inj s(2) by (metis bm_signature.select_convs(5) db_signature_def)
    then have "bm_ok cfg (?m\<lparr>bm_retriever := Some idx\<rparr>)" using c by (simp add: bm_ok_def)
    then show ?thesis using False loaded s(3) d c(2) by (simp add: ensure_loaded_def load_or_build_index_def Let_def flag)
  qed
qed

definition manager_ok :: "'i bm_config \<Rightarrow> 'i bm25 \<times> 'i bm_disk \<Rightarrow> bool" where
  "manager_ok cfg md \<longleftrightarrow> bm_ok cfg (fst md) \<and> disk_ok cfg (snd md)"

lemma bm_step_ok:
  assumes inj: "\<And>a b. bc_digest cfg a = bc_digest cfg b \<Longrightarrow> a = b" and ok: "manager_ok cfg md"
  shows "manager_ok cfg (bm_step cfg op md)"
proof -
  obtain db a where op: "op = (db, a)" by (cases op)
  show ?thesis
  proof (cases a)
    case Ensure
    then show ?thesis using ensure_ok [where cfg = cfg and md = md and db = db, OF inj] ok by (simp add: op manager_ok_def)
  next
    case Rebuild
    then show ?thesis using rebuild_ok [where cfg = cfg and md = md and db = db] ok by (simp add: op manager_ok_def)
  next
    case (Search q c k)
    then show ?thesis using bm_search_reference [of cfg "fst md" q c k] ok by (simp add: op manager_ok_def)
  qed
qed

lemma bm_run_ok:
  assumes inj: "\<And>a b. bc_digest cfg a = bc_digest cfg b \<Longrightarrow> a = b"
  shows "manager_ok cfg md \<Longrightarrow> manager_ok cfg (bm_run cfg ops md)"
proof (induction ops arbitrary: md)
  case (Cons op ops)
  then show ?case using bm_step_ok [OF inj Cons.prems, of op] by (simp add: bm_run_def)
qed (simp add: bm_run_def)

lemma fresh_ok: "disk_ok cfg disk \<Longrightarrow> manager_ok cfg (fresh_manager nid, disk)"
  by (simp add: manager_ok_def bm_ok_def fresh_manager_def)

text \<open>
  C34: the caches of the lexical search are invisible. After any sequence of loads, rebuilds and
  searches of a new manager, over whatever the database held at each of them and with files that some
  earlier process saved, a search returns exactly what indexing the visible documents afresh would
  return: the least recently used cache of ceiling indexes and the index persisted on disk never show.
  The hypothesis is that the digest of the corpus has no collisions.
\<close>

theorem search_equals_fresh_index:
  assumes "\<And>a b. bc_digest cfg a = bc_digest cfg b \<Longrightarrow> a = b" and "disk_ok cfg disk"
  shows "fst (bm_search cfg q c k (fst (bm_run cfg ops (fresh_manager nid, disk)))) =
    reference_search cfg q c k (bm_corpus (fst (bm_run cfg ops (fresh_manager nid, disk))))"
  by (rule bm_search_reference [THEN conjunct1])
    (rule bm_run_ok [where cfg = cfg and ops = ops, OF assms(1) fresh_ok [OF assms(2), of nid], unfolded manager_ok_def, THEN conjunct1])

text \<open>A library whose index is the list of texts and that finds those that contain the query.\<close>

definition demo_digest :: "doc list \<Rightarrow> string" where
  "demo_digest ds = replicate (to_nat (map (\<lambda>d. (dc_id d, dc_chapter d, dc_text d)) ds)) CHR ''x''"

definition demo_bm_config :: "string list bm_config" where
  "demo_bm_config = \<lparr>bc_build = (\<lambda>ts. if ts = [] then None else Some ts),
     bc_retrieve = (\<lambda>ts q k. Some (take k (filter (\<lambda>(i, score). 0 < score)
        (map (\<lambda>i. (i, if py_in q (ts ! i) then 1 else 0)) [0..<length ts])))),
     bc_digest = demo_digest, bc_dim = 3, bc_cache_size = 1\<rparr>"

lemma demo_digest_inj: "demo_digest a = demo_digest b \<Longrightarrow> a = b"
proof -
  assume "demo_digest a = demo_digest b"
  then have "map (\<lambda>d. (dc_id d, dc_chapter d, dc_text d)) a = map (\<lambda>d. (dc_id d, dc_chapter d, dc_text d)) b"
    by (simp add: demo_digest_def replicate_eq_replicate)
  then show "a = b" by (rule map_injective) (auto intro!: injI simp: doc.splits)
qed

theorem search_equals_fresh_index_witness:
  "fst (bm_search demo_bm_config ''B'' 2 5 (fst (bm_run demo_bm_config
       [(demo_codex_db, Ensure), (demo_codex_db, Search ''A'' 1 5), (demo_codex_db, Rebuild)] (fresh_manager 1, None)))) =
    reference_search demo_bm_config ''B'' 2 5 (bm_corpus (fst (bm_run demo_bm_config
       [(demo_codex_db, Ensure), (demo_codex_db, Search ''A'' 1 5), (demo_codex_db, Rebuild)] (fresh_manager 1, None))))"
  by (rule search_equals_fresh_index) (simp_all add: demo_bm_config_def disk_ok_def demo_digest_inj)

section \<open>Fusion\<close>

definition fusion_ok :: "hit set \<Rightarrow> fusion \<Rightarrow> bool" where
  "fusion_ok H s \<longleftrightarrow> distinct (fst s) \<and> set (fst s) = dom (snd s) \<and>
     (\<forall>i score best h. snd s i = Some (score, best, h) \<longrightarrow> h \<in> H \<and> h_id h = i)"

lemma add_hits_ok:
  "fusion_ok H s \<Longrightarrow> fusion_ok (H \<union> set hs) (add_hits rrf_k rank hs s) \<and>
   set (fst (add_hits rrf_k rank hs s)) = set (fst s) \<union> h_id ` set hs"
proof (induction hs arbitrary: rank s H)
  case (Cons h hs)
  obtain ids m where s: "s = (ids, m)" by (cases s)
  define s1 where "s1 = (case m (h_id h) of
      None \<Rightarrow> (ids @ [h_id h], m(h_id h \<mapsto> (1 / (of_int rrf_k + of_nat rank), rank, h)))
    | Some (score, best, _) \<Rightarrow> (ids, m(h_id h \<mapsto> (score + 1 / (of_int rrf_k + of_nat rank), min rank best, h))))"
  have run: "add_hits rrf_k rank (h # hs) s = add_hits rrf_k (rank + 1) hs s1"
    by (simp add: s s1_def Let_def)
  have "fusion_ok (insert h H) s1"
  proof (cases "m (h_id h)")
    case None
    then show ?thesis using Cons.prems by (auto simp: fusion_ok_def s s1_def)
  next
    case (Some v)
    then show ?thesis using Cons.prems
      by (cases v) (auto simp: fusion_ok_def s s1_def split: if_splits)
  qed
  moreover have "set (fst s1) = insert (h_id h) (set (fst s))"
    using Cons.prems by (auto simp: fusion_ok_def s s1_def split: option.splits)
  ultimately show ?case using Cons.IH [of "insert h H" s1 "rank + 1"] by (simp add: run insert_commute Un_commute)
qed simp

lemma fused_ok:
  "fusion_ok (set sparse \<union> set dense) (fused rrf_k sparse dense)"
  "set (fst (fused rrf_k sparse dense)) = h_id ` (set sparse \<union> set dense)"
proof -
  have e: "fusion_ok {} ([], Map.empty)" by (simp add: fusion_ok_def)
  note a = add_hits_ok [OF e, of sparse rrf_k 1]
  note b = add_hits_ok [OF a [THEN conjunct1], of dense rrf_k 1]
  show "fusion_ok (set sparse \<union> set dense) (fused rrf_k sparse dense)" using b by (simp add: fused_def)
  show "set (fst (fused rrf_k sparse dense)) = h_id ` (set sparse \<union> set dense)"
    using a b by (simp add: fused_def image_Un)
qed

lemma fused_view_in:
  assumes "fusion_ok H s" "i \<in> set (fst s)"
  shows "f_id (fused_view s i) = i" "\<exists>h \<in> H. h_id h = i \<and> f_chapter (fused_view s i) = h_chapter h \<and> f_text (fused_view s i) = h_text h"
    "rank_key s i \<le> rank_key s j \<Longrightarrow> j \<in> set (fst s) \<Longrightarrow> f_fused_score (fused_view s j) \<le> f_fused_score (fused_view s i)"
proof -
  have at: "\<exists>score best h. snd s i = Some (score, best, h) \<and> h \<in> H \<and> h_id h = i" if "i \<in> set (fst s)" for i
    using that assms(1) unfolding fusion_ok_def by (metis domD prod_cases3)
  show "f_id (fused_view s i) = i"
    "\<exists>h \<in> H. h_id h = i \<and> f_chapter (fused_view s i) = h_chapter h \<and> f_text (fused_view s i) = h_text h"
    using at [OF assms(2)] by (auto simp: fused_view_def)
  assume "rank_key s i \<le> rank_key s j" "j \<in> set (fst s)"
  then show "f_fused_score (fused_view s j) \<le> f_fused_score (fused_view s i)"
    using at [OF assms(2)] at [of j] by (auto simp: fused_view_def rank_key_def less_eq_prod_def)
qed

text \<open>The ids a limited fusion keeps.\<close>

lemma limit_ids_spec:
  assumes d: "distinct sorted_ids" and s: "set sparse \<union> set dense \<subseteq> {h. h_id h \<in> set sorted_ids}"
  shows "distinct (limit_ids ratio l sparse dense f sorted_ids)"
    "set (limit_ids ratio l sparse dense f sorted_ids) \<subseteq> set sorted_ids"
    "length (limit_ids ratio l sparse dense f sorted_ids) = min l (length sorted_ids)"
    "card (required_ids ratio l sparse dense) \<le> l \<Longrightarrow> required_ids ratio l sparse dense \<subseteq> set (limit_ids ratio l sparse dense f sorted_ids)"
    "sorted (map (rank_key f) (limit_ids ratio l sparse dense f sorted_ids))"
proof -
  let ?required = "required_ids ratio l sparse dense"
  let ?sel = "filter (\<lambda>i. i \<in> ?required) sorted_ids" and ?rest = "filter (\<lambda>i. i \<notin> ?required) sorted_ids"
  let ?ext = "?sel @ take (l - length ?sel) ?rest"
  have eq: "limit_ids ratio l sparse dense f sorted_ids = sort_key (rank_key f) (take l ?ext)"
    by (simp only: limit_ids_def Let_def)
  have "set (take n ?rest) \<subseteq> set ?rest" for n by (rule set_take_subset)
  then have ext: "distinct ?ext" "set ?ext \<subseteq> set sorted_ids" using d by (auto dest: in_set_takeD)
  have len: "length sorted_ids = length ?sel + length ?rest"
    using sum_length_filter_compl [of "\<lambda>i. i \<in> ?required" sorted_ids] by simp
  show "distinct (limit_ids ratio l sparse dense f sorted_ids)" using ext(1) by (simp add: eq distinct_take del: take_append)
  show "set (limit_ids ratio l sparse dense f sorted_ids) \<subseteq> set sorted_ids"
    using order_trans [OF set_take_subset [of l ?ext] ext(2)] by (simp only: eq set_sort)
  show "length (limit_ids ratio l sparse dense f sorted_ids) = min l (length sorted_ids)"
    using len unfolding eq length_sort length_take length_append by linarith
  show "sorted (map (rank_key f) (limit_ids ratio l sparse dense f sorted_ids))" by (simp add: eq)
  assume c: "card ?required \<le> l"
  have "?required \<subseteq> set sorted_ids" using s by (auto simp: required_ids_def dest!: in_set_takeD)
  then have sel: "set ?sel = ?required" by auto
  then have "length ?sel \<le> l" using c d distinct_card [of ?sel] by simp
  then have "take l ?ext = ?sel @ take (l - length ?sel) ?rest" by simp
  then show "?required \<subseteq> set (limit_ids ratio l sparse dense f sorted_ids)" using sel by (simp only: eq set_sort set_append) blast
qed

text \<open>what fusion returns. Every passage appears once, under its id, best score first; an unlimited
  fusion returns all passages, a limited one as many as the limit allows; and when the two quotas fit
  into the limit together, the best passages of each source are all kept, however low they score.
\<close>

lemma fusion_complete:
  fixes sparse dense :: "hit list"
  defines "all_ids \<equiv> h_id ` (set sparse \<union> set dense)"
  shows "(\<forall>limit. distinct (map f_id (reciprocal_rank_fusion rrf_k ratio limit sparse dense)) \<and>
      sorted_wrt (\<lambda>a b. f_fused_score b \<le> f_fused_score a) (reciprocal_rank_fusion rrf_k ratio limit sparse dense)) \<and>
    f_id ` set (reciprocal_rank_fusion rrf_k ratio None sparse dense) = all_ids \<and>
    (\<forall>l. f_id ` set (reciprocal_rank_fusion rrf_k ratio (Some l) sparse dense) \<subseteq> all_ids \<and>
      length (reciprocal_rank_fusion rrf_k ratio (Some l) sparse dense) = min l (card all_ids) \<and>
      (2 * source_quota ratio l \<le> l \<longrightarrow>
        required_ids ratio l sparse dense \<subseteq> f_id ` set (reciprocal_rank_fusion rrf_k ratio (Some l) sparse dense)))"
proof -
  let ?s = "fused rrf_k sparse dense"
  let ?sorted = "sort_key (rank_key ?s) (fst ?s)"
  define kept where "kept = (\<lambda>limit. case limit of None \<Rightarrow> ?sorted | Some l \<Rightarrow> limit_ids ratio l sparse dense ?s ?sorted)"
  have run: "reciprocal_rank_fusion rrf_k ratio limit sparse dense = map (fused_view ?s) (kept limit)" for limit
    by (simp add: reciprocal_rank_fusion_def Let_def kept_def)
  note ok = fused_ok(1) [of sparse dense rrf_k] and ids = fused_ok(2) [of rrf_k sparse dense]
  have d: "distinct ?sorted" using ok by (simp add: fusion_ok_def)
  have all: "set ?sorted = all_ids" by (simp add: ids all_ids_def)
  have cover: "set sparse \<union> set dense \<subseteq> {h. h_id h \<in> set ?sorted}" unfolding all all_ids_def by auto
  note lim = limit_ids_spec [where ratio = ratio and f = "fused rrf_k sparse dense", OF d cover]
  have kd: "distinct (kept limit)" and ks: "set (kept limit) \<subseteq> set (fst ?s)" and ko: "sorted (map (rank_key ?s) (kept limit))" for limit
    using d lim(1,2,5) by (auto simp: kept_def split: option.splits)
  have view: "map f_id (map (fused_view ?s) (kept limit)) = kept limit" for limit
    using ks [of limit] fused_view_in(1) [OF ok] by (simp add: map_idI subset_iff)
  have fids: "f_id ` set (reciprocal_rank_fusion rrf_k ratio limit sparse dense) = set (kept limit)" for limit
    unfolding run using view [of limit] by (metis list.set_map)
  have ord: "sorted_wrt (\<lambda>a b. f_fused_score b \<le> f_fused_score a) (map (fused_view ?s) (kept limit))" for limit
    unfolding sorted_wrt_map
  proof (rule sorted_wrt_mono_rel)
    show "sorted_wrt (\<lambda>a b. rank_key ?s a \<le> rank_key ?s b) (kept limit)" using ko [of limit] by (simp add: sorted_map)
    fix a b assume "a \<in> set (kept limit)" "b \<in> set (kept limit)" "rank_key ?s a \<le> rank_key ?s b"
    then show "f_fused_score (fused_view ?s b) \<le> f_fused_score (fused_view ?s a)"
      using ks [of limit] fused_view_in(3) [OF ok] by blast
  qed
  have len: "length (fst ?s) = card all_ids"
    using ok ids by (simp add: fusion_ok_def all_ids_def distinct_card [symmetric])
  have quota: "card (required_ids ratio l sparse dense) \<le> 2 * source_quota ratio l" for l
  proof -
    have "card (set (map h_id (take n hs))) \<le> n" for n and hs :: "hit list"
      using card_length [of "map h_id (take n hs)"] by simp
    then have "card (set (map h_id (take (source_quota ratio l) sparse))) + card (set (map h_id (take (source_quota ratio l) dense))) \<le>
        2 * source_quota ratio l" by (metis add_mono mult_2)
    then show ?thesis unfolding required_ids_def using card_Un_le order_trans by blast
  qed
  show ?thesis
  proof (intro conjI allI impI)
    fix limit show "distinct (map f_id (reciprocal_rank_fusion rrf_k ratio limit sparse dense))"
      unfolding run view by (rule kd)
    show "sorted_wrt (\<lambda>a b. f_fused_score b \<le> f_fused_score a) (reciprocal_rank_fusion rrf_k ratio limit sparse dense)"
      unfolding run by (rule ord)
  next
    show "f_id ` set (reciprocal_rank_fusion rrf_k ratio None sparse dense) = all_ids"
      unfolding fids using all by (simp add: kept_def)
  next
    fix l
    show "f_id ` set (reciprocal_rank_fusion rrf_k ratio (Some l) sparse dense) \<subseteq> all_ids"
      unfolding fids using lim(2) all by (simp add: kept_def)
    show "length (reciprocal_rank_fusion rrf_k ratio (Some l) sparse dense) = min l (card all_ids)"
      unfolding run using lim(3) len by (simp add: kept_def)
    assume "2 * source_quota ratio l \<le> l"
    then show "required_ids ratio l sparse dense \<subseteq> f_id ` set (reciprocal_rank_fusion rrf_k ratio (Some l) sparse dense)"
      unfolding fids using lim(4) quota [of l] by (simp add: kept_def)
  qed
qed

definition demo_hits :: "int list \<Rightarrow> hit list" where
  "demo_hits ids = map (\<lambda>i. \<lparr>h_id = i, h_chapter = of_int i, h_text = [], h_score = 1\<rparr>) ids"

lemma fusion_complete_witness:
  "required_ids (2 / 5) 5 (demo_hits [1, 2, 3]) (demo_hits [4, 5, 6]) \<subseteq>
     f_id ` set (reciprocal_rank_fusion 60 (2 / 5) (Some 5) (demo_hits [1, 2, 3]) (demo_hits [4, 5, 6]))"
proof -
  have "2 * source_quota (2 / 5) 5 \<le> 5" by code_simp
  then show ?thesis
    using fusion_complete [of 60 "2 / 5" "demo_hits [1, 2, 3]" "demo_hits [4, 5, 6]",
      THEN conjunct2, THEN conjunct2, THEN spec, of 5] by blast
qed

section \<open>Nothing past the ceiling shows\<close>

text \<open>The chunks a reader of the novel may see.\<close>

definition chunk_visible :: "int \<Rightarrow> rat \<Rightarrow> chunk_row \<Rightarrow> bool" where
  "chunk_visible nid c r \<longleftrightarrow> ck_novel_id r = nid \<and> ck_chapter r \<le> c"

lemma map_filter_restrict:
  "List.map_filter (\<lambda>r. if P r then f r else None) xs = List.map_filter f (filter P xs)"
  by (induction xs) (auto simp: List.map_filter_simps split: option.splits)

text \<open>
  A scan that delivers rows of the table only, and one that is exact: the rows it delivers of a part of the
  table do not depend on the rest of it. A raw scan that sorts by distance is exact; an HNSW index is
  not, because it stops after a fixed number of candidates.
\<close>

definition delivers_rows :: "('v \<Rightarrow> 'r list \<Rightarrow> 'r list) \<Rightarrow> bool" where
  "delivers_rows ix \<longleftrightarrow> (\<forall>v rows. set (ix v rows) \<subseteq> set rows)"

definition exact_scan :: "('v \<Rightarrow> 'r list \<Rightarrow> 'r list) \<Rightarrow> bool" where
  "exact_scan ix \<longleftrightarrow> (\<forall>v P rows. filter P (ix v rows) = ix v (filter P rows))"

definition raw_scan :: "(rat list \<Rightarrow> rat list \<Rightarrow> rat) \<Rightarrow> rat list \<Rightarrow> chunk_row list \<Rightarrow> chunk_row list" where
  "raw_scan df v rows = sort_key (\<lambda>r. case ck_embedding r of None \<Rightarrow> 0 | Some e \<Rightarrow> df e v) rows"

lemma raw_scan_laws: "delivers_rows (raw_scan df)" "exact_scan (raw_scan df)"
  by (simp_all add: delivers_rows_def exact_scan_def raw_scan_def filter_sort)

lemma dense_search_visible:
  assumes ix: "exact_scan ix"
    and rows: "filter (chunk_visible nid c) (cx_chunks db) = filter (chunk_visible nid c) (cx_chunks db')"
  shows "dense_search ix emb df nid q c k db = dense_search ix emb df nid q c k db'"
proof -
  have eq: "(\<lambda>r. if ck_chapter r \<le> c \<and> ck_novel_id r = nid then map_option (\<lambda>e. (r, e)) (ck_embedding r) else None) =
      (\<lambda>r. if chunk_visible nid c r then map_option (\<lambda>e. (r, e)) (ck_embedding r) else None)"
    by (auto simp: chunk_visible_def)
  have "filter (chunk_visible nid c) (ix v (cx_chunks db)) = filter (chunk_visible nid c) (ix v (cx_chunks db'))" for v
    using ix rows unfolding exact_scan_def by metis
  then show ?thesis unfolding dense_search_def eq map_filter_restrict by (simp split: option.split)
qed

lemma dense_search_stored:
  assumes "delivers_rows ix" "h \<in> set (dense_search ix emb df nid q c k db)"
  shows "\<exists>r \<in> set (cx_chunks db). chunk_visible nid c r \<and> ck_id r = h_id h \<and> ck_chapter r = h_chapter h \<and> ck_text r = h_text h"
  using assms unfolding delivers_rows_def
  by (fastforce simp: dense_search_def List.map_filter_def chunk_visible_def dest!: in_set_takeD split: option.splits if_splits)

text \<open>The passages of the lexical index are documents of the visible corpus.\<close>

lemma hits_of_visible:
  "hits_of (visible c corpus) rs = Inr hs \<Longrightarrow> h \<in> set hs \<Longrightarrow>
    \<exists>d \<in> set (visible c corpus). dc_id d = h_id h \<and> dc_chapter d = h_chapter h \<and> dc_text d = h_text h"
proof (induction rs arbitrary: hs)
  case (Cons r rs)
  obtain i score where r: "r = (i, score)" by (cases r)
  show ?case
  proof (cases "\<exists>x. hits_of (visible c corpus) rs = Inr x \<and> h \<in> set x")
    case True
    then show ?thesis using Cons.IH by blast
  next
    case False
    with Cons.prems have "i < length (visible c corpus) \<and>
        h = \<lparr>h_id = dc_id (visible c corpus ! i), h_chapter = dc_chapter (visible c corpus ! i),
          h_text = dc_text (visible c corpus ! i), h_score = score\<rparr>"
      by (auto simp: r hit_of_def bindE_Inr_iff not_le split: if_splits)
    then show ?thesis by (intro bexI [of _ "visible c corpus ! i"]) simp_all
  qed
qed simp

lemma reference_search_stored:
  "reference_search cfg q c k corpus = Inr hs \<Longrightarrow> h \<in> set hs \<Longrightarrow>
    \<exists>d \<in> set corpus. dc_chapter d \<le> c \<and> dc_id d = h_id h \<and> dc_chapter d = h_chapter h \<and> dc_text d = h_text h"
  by (auto simp: reference_search_def Let_def split: if_splits option.splits dest!: hits_of_visible) (auto simp: visible_def intro!: bexI)

lemma reference_search_visible:
  assumes "visible c a = visible c b" "bc_build cfg (map dc_text a) \<noteq> None" "bc_build cfg (map dc_text b) \<noteq> None"
  shows "reference_search cfg q c k a = reference_search cfg q c k b"
  using assms by (auto simp: reference_search_def Let_def)

lemma hybrid_search_loaded:
  assumes ok: "manager_ok (sc_bm cfg) md" and l: "bm_loaded (fst md)"
  shows "fst (hybrid_search cfg q c k db md) =
    bindE (reference_search (sc_bm cfg) q c k (bm_corpus (fst md))) (\<lambda>sparse.
      Inr (take k (reciprocal_rank_fusion (sc_rrf_k cfg) (sc_ratio cfg) (Some k) sparse
        (dense_search (sc_scan cfg) (sc_embed cfg) (sc_dist cfg) (bm_novel_id (fst md)) q c k db))))"
proof -
  have "bm_ok (sc_bm cfg) (fst md)" using ok by (simp add: manager_ok_def)
  note b = bm_search_reference [OF this, of q c k]
  obtain m2 where r: "bm_search (sc_bm cfg) q c k (fst md) = (reference_search (sc_bm cfg) q c k (bm_corpus (fst md)), m2)"
    using b by (metis prod.collapse)
  have e: "ensure_loaded (sc_bm cfg) db md = md" using l by (simp add: ensure_loaded_def)
  have n: "bm_novel_id m2 = bm_novel_id (fst md)" using b r by simp
  show ?thesis unfolding hybrid_search_def e Let_def r
    by (cases "reference_search (sc_bm cfg) q c k (bm_corpus (fst md))") (simp_all add: n)
qed

text \<open>Every passage of a fusion is one of the passages fused, limited or not.\<close>

lemma fusion_passages:
  assumes "h \<in> set (reciprocal_rank_fusion rrf_k ratio limit sparse dense)"
  shows "\<exists>h0 \<in> set sparse \<union> set dense. h_id h0 = f_id h \<and> h_chapter h0 = f_chapter h \<and> h_text h0 = f_text h"
proof -
  let ?s = "fused rrf_k sparse dense"
  let ?sorted = "sort_key (rank_key ?s) (fst ?s)"
  note ok = fused_ok(1) [of sparse dense rrf_k] and ids = fused_ok(2) [of rrf_k sparse dense]
  have "distinct ?sorted" using ok by (simp add: fusion_ok_def)
  moreover have "set sparse \<union> set dense \<subseteq> {h. h_id h \<in> set ?sorted}" unfolding set_sort ids by auto
  ultimately have sub: "set (limit_ids ratio l sparse dense ?s ?sorted) \<subseteq> set (fst ?s)" for l
    using limit_ids_spec(2) by (metis set_sort)
  then have "set (case limit of None \<Rightarrow> ?sorted | Some l \<Rightarrow> limit_ids ratio l sparse dense ?s ?sorted) \<subseteq> set (fst ?s)"
    by (cases limit) simp_all
  then have "h \<in> fused_view ?s ` set (fst ?s)"
    using assms unfolding reciprocal_rank_fusion_def Let_def by auto
  then obtain i where i: "h = fused_view ?s i" "i \<in> set (fst ?s)" by (rule imageE)
  show ?thesis using fused_view_in(1,2) [OF ok i(2)] i(1) by auto
qed

text \<open>
  C3: a search under a ceiling shows nothing of later chapters. Whatever rows the index delivers, in
  whatever order, every passage of a hybrid search is, with its id, chapter and text, a document of the
  lexical corpus or a stored chunk of this novel, of a chapter up to the ceiling. And when the chunks are
  read by an exact scan (as without an HNSW index), the search learns nothing of later chapters either: two
  states of the novel that agree on the chunks up to the ceiling, each with a loaded lexical index
  whose corpus agrees up to it as well, and both with some vocabulary, give the same passages
  with the same scores in the same order. With an HNSW index this second part is not claimed;
  \<open>index_crowds_out\<close> below shows that it fails.
\<close>

theorem search_spoiler_free:
  assumes a: "manager_ok (sc_bm cfg) md" "bm_loaded (fst md)" "bc_build (sc_bm cfg) (map dc_text (bm_corpus (fst md))) \<noteq> None"
    and b: "manager_ok (sc_bm cfg) md'" "bm_loaded (fst md')" "bc_build (sc_bm cfg) (map dc_text (bm_corpus (fst md'))) \<noteq> None"
    and nid: "bm_novel_id (fst md) = nid" "bm_novel_id (fst md') = nid"
    and corpus: "visible c (bm_corpus (fst md)) = visible c (bm_corpus (fst md'))"
    and rows: "filter (chunk_visible nid c) (cx_chunks db) = filter (chunk_visible nid c) (cx_chunks db')"
    and scan: "delivers_rows (sc_scan cfg)"
  shows "(\<forall>hs h. fst (hybrid_search cfg q c k db md) = Inr hs \<and> h \<in> set hs \<longrightarrow> f_chapter h \<le> c \<and>
      ((\<exists>d \<in> set (bm_corpus (fst md)). dc_id d = f_id h \<and> dc_chapter d = f_chapter h \<and> dc_text d = f_text h) \<or>
       (\<exists>r \<in> set (cx_chunks db). ck_novel_id r = nid \<and> ck_id r = f_id h \<and> ck_chapter r = f_chapter h \<and> ck_text r = f_text h))) \<and>
    (exact_scan (sc_scan cfg) \<longrightarrow> fst (hybrid_search cfg q c k db md) = fst (hybrid_search cfg q c k db' md'))"
proof (intro conjI allI impI)
  assume "exact_scan (sc_scan cfg)"
  note dense = dense_search_visible [OF this rows]
  show "fst (hybrid_search cfg q c k db md) = fst (hybrid_search cfg q c k db' md')"
    unfolding hybrid_search_loaded [OF a(1,2)] hybrid_search_loaded [OF b(1,2)] nid dense
      reference_search_visible [OF corpus a(3) b(3)] ..
next
  fix hs h assume hs: "fst (hybrid_search cfg q c k db md) = Inr hs \<and> h \<in> set hs"
  let ?dense = "dense_search (sc_scan cfg) (sc_embed cfg) (sc_dist cfg) nid q c k db"
  obtain sparse where sp: "reference_search (sc_bm cfg) q c k (bm_corpus (fst md)) = Inr sparse"
    and eq: "hs = take k (reciprocal_rank_fusion (sc_rrf_k cfg) (sc_ratio cfg) (Some k) sparse ?dense)"
    using hs hybrid_search_loaded [OF a(1,2), of q c k db] nid by (auto simp: bindE_Inr_iff)
  have "h \<in> set (reciprocal_rank_fusion (sc_rrf_k cfg) (sc_ratio cfg) (Some k) sparse ?dense)"
    using hs eq by (blast dest: in_set_takeD)
  then obtain h0 where h0: "h0 \<in> set sparse \<union> set ?dense" "h_id h0 = f_id h" "h_chapter h0 = f_chapter h" "h_text h0 = f_text h"
    using fusion_passages by blast
  from h0(1) show "f_chapter h \<le> c"
    using reference_search_stored [OF sp, of h0]
      dense_search_stored [OF scan, of h0 "sc_embed cfg" "sc_dist cfg" nid q c k db] h0(3)
    by (auto simp: chunk_visible_def)
  from h0(1) show "(\<exists>d \<in> set (bm_corpus (fst md)). dc_id d = f_id h \<and> dc_chapter d = f_chapter h \<and> dc_text d = f_text h) \<or>
       (\<exists>r \<in> set (cx_chunks db). ck_novel_id r = nid \<and> ck_id r = f_id h \<and> ck_chapter r = f_chapter h \<and> ck_text r = f_text h)"
  proof
    assume "h0 \<in> set sparse" then show ?thesis using reference_search_stored [OF sp, of h0] h0 by auto
  next
    assume "h0 \<in> set ?dense" then show ?thesis
      using dense_search_stored [OF scan, of h0 "sc_embed cfg" "sc_dist cfg" nid q c k db] h0 by (auto simp: chunk_visible_def)
  qed
qed

text \<open>The same novel before and after its fifth chapter is chunked.\<close>

definition demo_later_db :: codex_db where
  "demo_later_db = demo_codex_db\<lparr>cx_chunks := cx_chunks demo_codex_db @ [\<lparr>ck_id = 6, ck_novel_id = 1, ck_chapter = 5, ck_index = 0,
     ck_text = ''B dies.'', ck_token_count = 2, ck_embedding = Some [2]\<rparr>]\<rparr>"

definition demo_search_config :: "string list search_config" where
  "demo_search_config = \<lparr>sc_bm = demo_bm_config, sc_scan = raw_scan (\<lambda>a b. \<bar>hd a - hd b\<bar>), sc_embed = (\<lambda>_. Some [1]),
     sc_dist = (\<lambda>a b. \<bar>hd a - hd b\<bar>), sc_rrf_k = 60, sc_ratio = 2 / 5\<rparr>"

definition demo_manager :: "codex_db \<Rightarrow> string list bm25 \<times> string list bm_disk" where
  "demo_manager db = bm_run demo_bm_config [(db, Rebuild)] (fresh_manager 1, None)"

lemma demo_manager_facts:
  "manager_ok (sc_bm demo_search_config) (demo_manager db)" "bm_loaded (fst (demo_manager db))"
  "bm_novel_id (fst (demo_manager db)) = 1" "bm_corpus (fst (demo_manager db)) = corpus_rows 1 db"
proof -
  have d: "disk_ok demo_bm_config None" by (simp add: disk_ok_def)
  have inj: "\<And>a b. bc_digest demo_bm_config a = bc_digest demo_bm_config b \<Longrightarrow> a = b"
    by (simp add: demo_bm_config_def demo_digest_inj)
  show "manager_ok (sc_bm demo_search_config) (demo_manager db)"
    unfolding demo_search_config_def search_config.select_convs demo_manager_def by (rule bm_run_ok [OF inj fresh_ok [OF d]])
  have "disk_ok demo_bm_config (snd (fresh_manager 1 :: string list bm25, None :: string list bm_disk))" using d by simp
  from rebuild_ok [OF this, of db] show "bm_loaded (fst (demo_manager db))"
    "bm_novel_id (fst (demo_manager db)) = 1" "bm_corpus (fst (demo_manager db)) = corpus_rows 1 db"
    by (simp_all add: demo_manager_def bm_run_def fresh_manager_def)
qed

theorem search_spoiler_free_witness:
  "fst (hybrid_search demo_search_config ''B'' 2 5 demo_codex_db (demo_manager demo_codex_db)) =
   fst (hybrid_search demo_search_config ''B'' 2 5 demo_later_db (demo_manager demo_later_db))"
proof (rule search_spoiler_free [THEN conjunct2, THEN mp])
  show "delivers_rows (sc_scan demo_search_config)" "exact_scan (sc_scan demo_search_config)"
    by (simp_all add: demo_search_config_def raw_scan_laws)
  have rows: "corpus_rows 1 demo_codex_db = [\<lparr>dc_id = 5, dc_chapter = 2, dc_text = ''A. B.''\<rparr>]"
    "corpus_rows 1 demo_later_db = [\<lparr>dc_id = 5, dc_chapter = 2, dc_text = ''A. B.''\<rparr>, \<lparr>dc_id = 6, dc_chapter = 5, dc_text = ''B dies.''\<rparr>]"
    by (simp_all add: corpus_rows_def demo_later_db_def demo_codex_db_def)
  show "visible 2 (bm_corpus (fst (demo_manager demo_codex_db))) = visible 2 (bm_corpus (fst (demo_manager demo_later_db)))"
    by (simp add: demo_manager_facts rows visible_def)
  show "filter (chunk_visible 1 2) (cx_chunks demo_codex_db) = filter (chunk_visible 1 2) (cx_chunks demo_later_db)"
    by (simp add: demo_later_db_def demo_codex_db_def chunk_visible_def)
  show "bc_build (sc_bm demo_search_config) (map dc_text (bm_corpus (fst (demo_manager demo_codex_db)))) \<noteq> None"
    "bc_build (sc_bm demo_search_config) (map dc_text (bm_corpus (fst (demo_manager demo_later_db)))) \<noteq> None"
    by (simp_all add: demo_manager_facts rows demo_search_config_def demo_bm_config_def)
qed (rule demo_manager_facts)+

text \<open>
  An HNSW index delivers a fixed number of candidates of the whole table, and the ceiling is applied to
  these: with room for one candidate, the fifth chapter, nearer to the question, takes the place of the
  second, and the reader of the second chapter, who found a passage before it was chunked, finds none.
\<close>

lemma index_crowds_out:
  defines "index \<equiv> \<lambda>v rows. take 1 (raw_scan (\<lambda>a b. \<bar>hd a - hd b\<bar>) v rows)"
  shows "delivers_rows index \<and>
    filter (chunk_visible 1 2) (cx_chunks demo_codex_db) = filter (chunk_visible 1 2) (cx_chunks demo_later_db) \<and>
    dense_search index (\<lambda>_. Some [2]) (\<lambda>a b. \<bar>hd a - hd b\<bar>) 1 ''B'' 2 5 demo_codex_db \<noteq> [] \<and>
    dense_search index (\<lambda>_. Some [2]) (\<lambda>a b. \<bar>hd a - hd b\<bar>) 1 ''B'' 2 5 demo_later_db = []"
proof (intro conjI)
  show "delivers_rows index"
    using raw_scan_laws(1) unfolding delivers_rows_def index_def by (blast dest: in_set_takeD)
  show "filter (chunk_visible 1 2) (cx_chunks demo_codex_db) = filter (chunk_visible 1 2) (cx_chunks demo_later_db)"
    by (simp add: demo_later_db_def demo_codex_db_def chunk_visible_def)
  show "dense_search index (\<lambda>_. Some [2]) (\<lambda>a b. \<bar>hd a - hd b\<bar>) 1 ''B'' 2 5 demo_codex_db \<noteq> []"
    "dense_search index (\<lambda>_. Some [2]) (\<lambda>a b. \<bar>hd a - hd b\<bar>) 1 ''B'' 2 5 demo_later_db = []"
    by (simp_all add: index_def demo_later_db_def demo_codex_db_def dense_search_def raw_scan_def List.map_filter_simps)
qed

end
