(* ===== verification/Ai_Worker.thy ===== *)
theory Ai_Worker
  imports Ai_Policy Work_Process Catalog_Access
begin

text \<open>
  The subscription worker: one claimed job in \<open>modules/ai_execution/application/worker.py\<close> and the
  operations \<open>modules/ai_execution/adapters/inbound/worker.py\<close> wires it with. A handler is an argument: it
  returns its progress or raises, and changes the store on the way. Audit records, logging and the
  process's heartbeats are not modelled.
\<close>

section \<open>Errors of a provider\<close>

record worker_error =
  we_canceled :: bool
  we_code :: string
  we_type :: string
  we_safe_detail :: "string option"

text \<open>An exception of the application has no code of its own.\<close>

definition plain_error :: "py_error \<Rightarrow> worker_error" where
  "plain_error e = \<lparr>we_canceled = False, we_code = ''unknown'', we_type = takeWhile (\<lambda>c. c \<noteq> CHR '':'') (error_text e),
     we_safe_detail = None\<rparr>"

definition safe_error_summary :: "execution_backend \<Rightarrow> worker_error \<Rightarrow> string" where
  "safe_error_summary b x =
     (let summary = we_code x @ '': '' @ we_type x
      in if b \<noteq> OPENAI_CODEX then summary
         else case we_safe_detail x of
           None \<Rightarrow> summary
         | Some d \<Rightarrow>
             (if d \<noteq> [] \<and> length d \<le> 80 \<and> (\<forall>c \<in> set d. is_py_alnum c \<or> c \<in> set '' _-()'')
              then summary @ '' ('' @ d @ '')'' else summary))"

definition provider_wait_codes :: "execution_backend \<Rightarrow> string list" where
  "provider_wait_codes b =
     (if b = OPENAI_CODEX then [''openai_codex_quota_likely_exhausted'', ''openai_codex_provider_unavailable'']
      else [''agy_quota_likely_exhausted'', ''agy_provider_unavailable''])"

definition UNHEALTHY_CODES :: "string list" where
  "UNHEALTHY_CODES =
     [''agy_not_authenticated'', ''agy_permission_blocked'', ''agy_plugin_invalid'', ''agy_version_unsupported'',
      ''agy_model_missing'', ''openai_codex_not_authenticated'', ''openai_codex_permission_blocked'',
      ''openai_codex_version_unsupported'', ''openai_codex_model_missing'', ''openai_codex_protocol_error'']"

section \<open>Processing\<close>

type_synonym 's handler = "job \<Rightarrow> 's \<Rightarrow> (worker_error + json) \<times> 's"

record 's ai_worker_ops =
  ao_reauthorize :: "job \<Rightarrow> 's \<Rightarrow> bool \<times> string"
  ao_resolve_handler :: "string \<Rightarrow> 's handler option"
  ao_cancel :: "int \<Rightarrow> ('s, bool) op"
  ao_mark_canceled :: "int \<Rightarrow> ('s, bool) op"
  ao_mark_done :: "int \<Rightarrow> json \<Rightarrow> ('s, bool) op"
  ao_finalize :: "int \<Rightarrow> bool \<Rightarrow> ('s, unit) op"
  ao_is_canceled :: "int \<Rightarrow> 's \<Rightarrow> bool"
  ao_wait_for_provider :: "int \<Rightarrow> string \<Rightarrow> ('s, bool) op"
  ao_fallback_to_api :: "job \<Rightarrow> worker_error \<Rightarrow> ('s, bool) op"
  ao_fail_or_retry :: "job \<Rightarrow> string \<Rightarrow> ('s, unit) op"
  ao_unsupported_error :: worker_error
  ao_error_summary :: "worker_error \<Rightarrow> string"
  ao_provider_wait_code :: "string \<Rightarrow> bool"

text \<open>The dictionary \<open>state\<close> the worker's heartbeat reports from.\<close>

record worker_state =
  ws_status :: string
  ws_error :: "string option"
  ws_job_id :: "int option"

definition raised :: "('s, 'a) op \<Rightarrow> 's \<Rightarrow> (worker_error + 'a) \<times> 's" where
  "raised m s = (case m s of (Inl e, s1) \<Rightarrow> (Inl (plain_error e), s1) | (Inr x, s1) \<Rightarrow> (Inr x, s1))"

text \<open>The body of the \<open>try\<close>.\<close>

definition attempt :: "'s ai_worker_ops \<Rightarrow> job \<Rightarrow> 's \<Rightarrow> (worker_error + unit) \<times> 's" where
  "attempt ops j s =
     (let jid = j_id j in
      if \<not> fst (ao_reauthorize ops j s)
      then raised (bindS (ao_cancel ops jid) (\<lambda>_. bindS (ao_mark_canceled ops jid) (\<lambda>_. returnS ()))) s
      else case ao_resolve_handler ops (j_kind j) of
             None \<Rightarrow> (Inl (ao_unsupported_error ops), s)
           | Some h \<Rightarrow>
               (case h j s of
                  (Inl x, s1) \<Rightarrow> (Inl x, s1)
                | (Inr progress, s1) \<Rightarrow>
                    raised (bindS (ao_mark_done ops jid progress) (\<lambda>changed.
                      if changed then ao_finalize ops jid True
                      else bindS (ao_mark_canceled ops jid) (\<lambda>_. returnS ()))) s1))"

text \<open>The \<open>except\<close> clause: the operation on the store and what the worker reports of itself.\<close>

definition handle_error :: "'s ai_worker_ops \<Rightarrow> job \<Rightarrow> worker_error \<Rightarrow> ('s, unit) op" where
  "handle_error ops j x s =
     (let jid = j_id j; summary = ao_error_summary ops x in
      if we_canceled x then bindS (ao_mark_canceled ops jid) (\<lambda>_. returnS ()) s
      else if ao_is_canceled ops jid s then bindS (ao_mark_canceled ops jid) (\<lambda>_. returnS ()) s
      else if ao_provider_wait_code ops (we_code x) \<or> we_code x \<in> set UNHEALTHY_CODES
      then bindS (ao_wait_for_provider ops jid summary) (\<lambda>_. returnS ()) s
      else bindS (ao_fallback_to_api ops j x) (\<lambda>done. if done then returnS () else ao_fail_or_retry ops j summary) s)"

definition report_error :: "'s ai_worker_ops \<Rightarrow> job \<Rightarrow> worker_error \<Rightarrow> 's \<Rightarrow> worker_state \<Rightarrow> worker_state" where
  "report_error ops j x s w =
     (if \<not> we_canceled x \<and> \<not> ao_is_canceled ops (j_id j) s \<and> \<not> ao_provider_wait_code ops (we_code x) \<and>
         we_code x \<in> set UNHEALTHY_CODES
      then w\<lparr>ws_status := ''unhealthy'', ws_error := Some (ao_error_summary ops x)\<rparr> else w)"

definition subscription_process ::
  "'s ai_worker_ops \<Rightarrow> job \<Rightarrow> 's \<Rightarrow> worker_state \<Rightarrow> unit result \<times> 's \<times> worker_state" where
  "subscription_process ops j s w =
     (case attempt ops j s of
        (Inr _, s1) \<Rightarrow> (Inr (), s1, w\<lparr>ws_job_id := None\<rparr>)
      | (Inl x, s1) \<Rightarrow>
          (case handle_error ops j x s1 of (r, s2) \<Rightarrow> (r, s2, (report_error ops j x s1 w)\<lparr>ws_job_id := None\<rparr>)))"

section \<open>The contract of the operations\<close>

text \<open>
  What the worker relies on, over any store. While the claimed job is at hand every operation returns;
  \<open>off\<close> is a store in which the job has left the worker, \<open>asked\<close> one in which the job may be canceled,
  \<open>ended\<close> one in which it only has to be settled.
\<close>

locale worker_contract =
  fixes ops :: "'s ai_worker_ops"
    and hand :: "job \<Rightarrow> 's \<Rightarrow> bool"
    and asked :: "job \<Rightarrow> 's \<Rightarrow> bool"
    and ended :: "job \<Rightarrow> 's \<Rightarrow> bool"
    and off :: "job \<Rightarrow> 's \<Rightarrow> bool"
  assumes mark_canceled_ends: "hand c s \<Longrightarrow> asked c s \<Longrightarrow> \<exists>x s'. ao_mark_canceled ops (j_id c) s = (Inr x, s') \<and> off c s'"
    and is_canceled_asked: "hand c s \<Longrightarrow> ao_is_canceled ops (j_id c) s \<Longrightarrow> asked c s"
    and wait_ends: "hand c s \<Longrightarrow> \<exists>x s'. ao_wait_for_provider ops (j_id c) m s = (Inr x, s') \<and> off c s'"
    and fallback_ends: "hand c s \<Longrightarrow> \<exists>x s'. ao_fallback_to_api ops c e s = (Inr x, s') \<and> (if x then off c s' else hand c s')"
    and fail_ends: "hand c s \<Longrightarrow> \<exists>s'. ao_fail_or_retry ops c m s = (Inr (), s') \<and> off c s'"
    and mark_done_ends: "hand c s \<Longrightarrow> \<exists>x s'. ao_mark_done ops (j_id c) pr s = (Inr x, s') \<and>
      (if x then ended c s' else hand c s' \<and> asked c s')"
    and finalize_ends: "ended c s \<Longrightarrow> \<exists>s'. ao_finalize ops (j_id c) b s = (Inr (), s') \<and> off c s'"
begin

lemma canceled_ends:
  "hand c s \<Longrightarrow> asked c s \<Longrightarrow> \<exists>s'. bindS (ao_mark_canceled ops (j_id c)) (\<lambda>_. returnS ()) s = (Inr (), s') \<and> off c s'"
  using mark_canceled_ends by (fastforce simp: bindS_def)

lemma handle_error_ends:
  assumes h: "hand c s" and x: "we_canceled x \<Longrightarrow> asked c s"
  shows "\<exists>s'. handle_error ops c x s = (Inr (), s') \<and> off c s'"
proof -
  let ?parked = "ao_provider_wait_code ops (we_code x) \<or> we_code x \<in> set UNHEALTHY_CODES"
  consider (cancel) "we_canceled x \<or> ao_is_canceled ops (j_id c) s"
    | (wait) "\<not> (we_canceled x \<or> ao_is_canceled ops (j_id c) s)" ?parked
    | (fail) "\<not> (we_canceled x \<or> ao_is_canceled ops (j_id c) s)" "\<not> ?parked"
    by blast
  then show ?thesis
  proof cases
    case cancel
    then have "asked c s" using x is_canceled_asked [OF h] by blast
    from canceled_ends [OF h this] cancel show ?thesis by (auto simp: handle_error_def Let_def)
  next
    case wait
    obtain y s' where "ao_wait_for_provider ops (j_id c) (ao_error_summary ops x) s = (Inr y, s')" "off c s'"
      using wait_ends [OF h] by blast
    then show ?thesis using wait by (auto simp: handle_error_def Let_def bindS_def)
  next
    case fail
    obtain y s1 where f: "ao_fallback_to_api ops c x s = (Inr y, s1)" "if y then off c s1 else hand c s1"
      using fallback_ends [OF h] by blast
    have run: "handle_error ops c x s = (if y then (Inr (), s1) else ao_fail_or_retry ops c (ao_error_summary ops x) s1)"
      using fail f(1) by (simp add: handle_error_def Let_def bindS_def)
    then show ?thesis using f(2) fail_ends [of c s1 "ao_error_summary ops x"] by (cases y) auto
  qed
qed

lemma process_ends:
  assumes allowed: "fst (ao_reauthorize ops c s)" and h: "hand c s"
    and handler: "\<And>f. ao_resolve_handler ops (j_kind c) = Some f \<Longrightarrow> hand c (snd (f c s)) \<and>
      (\<forall>x. fst (f c s) = Inl x \<longrightarrow> we_canceled x \<longrightarrow> asked c (snd (f c s)))"
    and plain: "\<not> we_canceled (ao_unsupported_error ops)"
  shows "\<exists>s' w'. subscription_process ops c s w = (Inr (), s', w') \<and> off c s' \<and> ws_job_id w' = None"
proof -
  have "(\<exists>s'. attempt ops c s = (Inr (), s') \<and> off c s') \<or>
    (\<exists>x s'. attempt ops c s = (Inl x, s') \<and> hand c s' \<and> (we_canceled x \<longrightarrow> asked c s'))"
  proof (cases "ao_resolve_handler ops (j_kind c)")
    case None
    then show ?thesis using allowed h plain by (simp add: attempt_def Let_def)
  next
    case (Some f)
    obtain r s1 where r: "f c s = (r, s1)" by fastforce
    have H: "hand c s1" "\<And>x. r = Inl x \<Longrightarrow> we_canceled x \<Longrightarrow> asked c s1" using handler [OF Some] r by auto
    show ?thesis
    proof (cases r)
      case (Inl x)
      then show ?thesis using allowed Some r H by (auto simp: attempt_def Let_def)
    next
      case (Inr pr)
      obtain y s2 where d: "ao_mark_done ops (j_id c) pr s1 = (Inr y, s2)" "if y then ended c s2 else hand c s2 \<and> asked c s2"
        using mark_done_ends [OF H(1)] by blast
      have run: "attempt ops c s = raised (if y then ao_finalize ops (j_id c) True
          else bindS (ao_mark_canceled ops (j_id c)) (\<lambda>_. returnS ())) s2"
        using allowed Some r Inr d(1) by (simp add: attempt_def Let_def raised_def bindS_def)
      show ?thesis
      proof (cases y)
        case True
        then show ?thesis using run d(2) finalize_ends [of c s2 True] by (auto simp: raised_def)
      next
        case False
        then show ?thesis using run d(2) canceled_ends [of c s2] by (auto simp: raised_def)
      qed
    qed
  qed
  then show ?thesis
  proof (elim disjE exE conjE)
    fix s' assume "attempt ops c s = (Inr (), s')" "off c s'"
    then show ?thesis by (simp add: subscription_process_def)
  next
    fix x s1 assume a: "attempt ops c s = (Inl x, s1)" "hand c s1" "we_canceled x \<longrightarrow> asked c s1"
    obtain s' where "handle_error ops c x s1 = (Inr (), s')" "off c s'"
      using handle_error_ends [OF a(2), of x] a(3) by blast
    then show ?thesis using a(1) by (simp add: subscription_process_def)
  qed
qed

end

section \<open>The wiring\<close>

record worker_config =
  wc_settings :: settings
  wc_backend :: execution_backend
  wc_retry_minutes :: int
  wc_users :: "int \<Rightarrow> principal option"

definition smoke_kind :: "execution_backend \<Rightarrow> string" where
  "smoke_kind b = (if b = OPENAI_CODEX then ''openai_codex_smoke'' else ''agy_smoke'')"

record worker_site =
  wk_ai :: ai_db
  wk_catalog :: catalog_db

definition worker_reauthorize :: "worker_config \<Rightarrow> job \<Rightarrow> worker_site \<Rightarrow> bool \<times> string" where
  "worker_reauthorize cfg j s =
     (let b = wc_backend cfg in
      case Option.bind (j_user_id j) (wc_users cfg) of
        None \<Rightarrow> (False, ''user_missing'')
      | Some u \<Rightarrow>
          if j_kind j = smoke_kind b then (status u = ''active'' \<and> role u = ''admin'', ''admin_smoke'')
          else (case reauthorize_job (wc_settings cfg) j (Some (user_id u, status u)) (wk_ai s) of
                  (False, reason) \<Rightarrow> (False, reason)
                | (True, reason) \<Rightarrow>
                    (case j_novel_id j of
                       None \<Rightarrow> (False, ''novel_edit_revoked'')
                     | Some nid \<Rightarrow>
                         (case require_editable nid (Some u) (wk_catalog s) of
                            Inl _ \<Rightarrow> (False, ''novel_edit_revoked'')
                          | Inr _ \<Rightarrow>
                              (case get_policy (user_id u) (wk_ai s) of
                                 None \<Rightarrow> (False, ''grant_revoked'')
                               | Some p \<Rightarrow>
                                   (if active_job_count (user_id u) b (ai_work (wk_ai s)) > or_one_limit (provider_concurrency b p)
                                    then (False, ''user_concurrency_exceeded'') else (True, reason)))))))"

definition in_jobs :: "(work_db, 'a) op \<Rightarrow> (worker_site, 'a) op" where
  "in_jobs m s = (case m (ai_work (wk_ai s)) of (r, d) \<Rightarrow> (r, s\<lparr>wk_ai := (wk_ai s)\<lparr>ai_work := d\<rparr>\<rparr>))"

definition worker_fallback :: "worker_config \<Rightarrow> clock \<Rightarrow> job \<Rightarrow> worker_error \<Rightarrow> (work_db, bool) op" where
  "worker_fallback cfg clk j x =
     (if \<not> j_backend_fallback_allowed j \<or> j_attempts j < j_max_attempts j then returnS False
      else bindS (if j_kind j = ''translate'' then release_translation_reservation_for_fallback clk (j_id j) else returnS ()) (\<lambda>_.
        fallback_to_api clk (wc_backend cfg) (j_id j)
          (model_for (wc_settings cfg) (if j_kind j = ''translate'' then TRANSLATE_BATCH else CODEX_EXTRACT) API)
          (JOB_MAX_ATTEMPTS (wc_settings cfg)) (safe_error_summary (wc_backend cfg) x)))"

definition subscription_ops ::
  "worker_config \<Rightarrow> clock \<Rightarrow> (string \<Rightarrow> worker_site handler option) \<Rightarrow> worker_site ai_worker_ops" where
  "subscription_ops cfg clk registry =
     \<lparr>ao_reauthorize = worker_reauthorize cfg,
      ao_resolve_handler = registry,
      ao_cancel = (\<lambda>jid. in_jobs (cancel_job clk jid)),
      ao_mark_canceled = (\<lambda>jid. in_jobs (mark_canceled_if_running clk jid)),
      ao_mark_done = (\<lambda>jid pr. in_jobs (mark_done_if_running clk jid (Some pr))),
      ao_finalize = (\<lambda>jid ok. in_jobs (finalize clk jid ok)),
      ao_is_canceled = (\<lambda>jid s. is_canceled jid (ai_work (wk_ai s))),
      ao_wait_for_provider = (\<lambda>jid summary. in_jobs (wait_for_provider clk jid summary (wc_retry_minutes cfg))),
      ao_fallback_to_api = (\<lambda>j x. in_jobs (worker_fallback cfg clk j x)),
      ao_fail_or_retry = (\<lambda>j summary. in_jobs (fail_or_retry clk (j_id j) summary)),
      ao_unsupported_error = \<lparr>we_canceled = False, we_code = backend_value (wc_backend cfg) @ ''_artifact_invalid'',
        we_type = ''AgyError'', we_safe_detail = None\<rparr>,
      ao_error_summary = safe_error_summary (wc_backend cfg),
      ao_provider_wait_code = (\<lambda>c. c \<in> set (provider_wait_codes (wc_backend cfg)))\<rparr>"

section \<open>What each operation does to the claimed job\<close>

text \<open>Somebody may have taken the job off the worker, but then it is resolved.\<close>

definition at_hand :: "int \<Rightarrow> job \<Rightarrow> work_db \<Rightarrow> bool" where
  "at_hand jid j d \<longleftrightarrow> db_ok d \<and> get_job jid d = Some j \<and> j_attempts j \<le> 28 \<and> (j_status j = Running \<or> resolved jid d)"

definition off_worker :: "int \<Rightarrow> work_db \<Rightarrow> bool" where
  "off_worker jid d \<longleftrightarrow> db_ok d \<and> resolved jid d"

lemma update_at:
  assumes ok: "db_ok d" and g: "get_job jid d = Some j"
    and ids: "\<And>j. j_id (f j) = j_id j" and pres: "\<And>j. job_ok j \<Longrightarrow> p j \<Longrightarrow> job_ok (f j)"
  shows "\<exists>u. update_where jid p f d = (Inr (if p j then Some (f j) else None), u) \<and> db_ok u \<and>
    get_job jid u = Some (if p j then f j else j)"
proof -
  let ?u = "snd (update_where jid p f d)"
  have "update_where jid p f d = (Inr (if p j then Some (f j) else None), ?u)"
    using g by (simp add: update_where_def)
  moreover have "db_ok ?u" by (rule update_where_db_ok [OF ids pres ok])
  moreover have "get_job jid ?u = Some (if p j then f j else j)"
    using g get_job_update_where [OF ids, where i = jid and jid = jid and p = p and db = d] by simp
  ultimately show ?thesis by blast
qed

lemma resolved_iff: "get_job jid d = Some j \<Longrightarrow> resolved jid d \<longleftrightarrow>
    j_status j \<noteq> Running \<and> (j_quota_finalized j \<or> j_status j \<in> {Queued, Waiting_provider})"
  by (simp add: resolved_def)

lemma finalize_off:
  assumes "db_ok d" "get_job jid d = Some j" "j_status j \<noteq> Running"
  shows "\<exists>d'. finalize clk jid b d = (Inr (), d') \<and> off_worker jid d'"
  using finalize_resolves [OF assms, of clk b] keepsD [OF keeps_finalize assms(1), of clk jid b]
  by (auto simp: off_worker_def)

lemma mark_canceled_off:
  assumes h: "at_hand jid j d" and c: "j_status j = Running \<longrightarrow> j_cancel_requested_at j \<noteq> None"
  shows "\<exists>x d'. mark_canceled_if_running clk jid d = (Inr x, d') \<and> off_worker jid d'"
proof -
  let ?p = "\<lambda>j. j_status j = Running \<and> j_cancel_requested_at j \<noteq> None" and ?f = "released Canceled ''canceled'' clk"
  have H: "db_ok d" "get_job jid d = Some j" "j_status j = Running \<or> resolved jid d" using h by (simp_all add: at_hand_def)
  obtain u where u: "update_where jid ?p ?f d = (Inr (if ?p j then Some (?f j) else None), u)" "db_ok u"
      "get_job jid u = Some (if ?p j then ?f j else j)"
    using update_at [OF H(1,2), of ?f ?p] by (auto simp: released_def job_ok_def)
  have run: "mark_canceled_if_running clk jid d =
      (if ?p j then bindS (finalize clk jid False) (\<lambda>_. returnS True) u else (Inr False, u))"
    unfolding mark_canceled_if_running_def bindS_def [of "update_where _ _ _"] u(1) by auto
  show ?thesis
  proof (cases "?p j")
    case True
    then have g: "get_job jid u = Some (?f j)" using u(3) by simp
    have "j_status (?f j) \<noteq> Running" by (simp add: released_def)
    from finalize_off [OF u(2) g this, of clk False] obtain d' where "finalize clk jid False u = (Inr (), d')" "off_worker jid d'"
      by blast
    then show ?thesis using True by (auto simp: run bindS_def)
  next
    case False
    then have "j_status j \<noteq> Running" using c by auto
    then show ?thesis using False H u by (auto simp: run off_worker_def resolved_iff)
  qed
qed

lemma wait_off:
  assumes h: "at_hand jid j d"
  shows "\<exists>x d'. wait_for_provider clk jid summary mins d = (Inr x, d') \<and> off_worker jid d'"
proof -
  let ?p = "\<lambda>j. j_status j = Running"
  let ?f = "\<lambda>j. (released Waiting_provider
               (if j_execution_backend j = OPENAI_CODEX then ''waiting for OpenAI Codex provider''
                else ''waiting for AGY provider'') clk j)
              \<lparr>j_error := Some (take 4000 summary), j_not_before := Some (now clk + 60 * max 1 mins)\<rparr>"
  have H: "db_ok d" "get_job jid d = Some j" "j_status j = Running \<or> resolved jid d" using h by (simp_all add: at_hand_def)
  obtain u where u: "update_where jid ?p ?f d = (Inr (if ?p j then Some (?f j) else None), u)" "db_ok u"
      "get_job jid u = Some (if ?p j then ?f j else j)"
    using update_at [OF H(1,2), of ?f ?p] by (auto simp: released_def job_ok_def)
  have "wait_for_provider clk jid summary mins d = (Inr (?p j), u)"
    unfolding wait_for_provider_def bindS_def u(1) by simp
  then show ?thesis using u H by (auto simp: off_worker_def resolved_def released_def)
qed

lemma fail_or_retry_off:
  assumes h: "at_hand jid j d"
  shows "\<exists>d'. fail_or_retry clk jid e d = (Inr (), d') \<and> off_worker jid d'"
  using h fail_or_retry_resolves [of d jid j clk e] keepsD [OF keeps_fail_or_retry, of d clk jid e]
  by (auto simp: at_hand_def off_worker_def backoff_overflows_def)

lemma mark_done_at:
  assumes h: "at_hand jid j d"
  shows "\<exists>d' j'. mark_done_if_running clk jid pr d = (Inr (j_status j = Running), d') \<and> db_ok d' \<and>
    get_job jid d' = Some j' \<and> j_status j' \<noteq> Running \<and> (j_status j \<noteq> Running \<longrightarrow> at_hand jid j' d')"
proof -
  have H: "db_ok d" "get_job jid d = Some j" "j_attempts j \<le> 28" "j_status j = Running \<or> resolved jid d"
    using h by (simp_all add: at_hand_def)
  let ?f = "\<lambda>j. (released Done ''done'' clk j)\<lparr>j_error := None, j_progress := coalesce pr (j_progress j)\<rparr>"
  let ?p = "\<lambda>j. j_status j = Running"
  obtain u where u: "update_where jid ?p ?f d = (Inr (if ?p j then Some (?f j) else None), u)" "db_ok u"
      "get_job jid u = Some (if ?p j then ?f j else j)"
    using update_at [OF H(1,2), of ?f ?p] by (auto simp: released_def job_ok_def)
  have marked: "mark_done_if_running clk jid pr d = (Inr (?p j), u)"
    unfolding mark_done_if_running_def bindS_def u(1) by simp
  show ?thesis
  proof (cases "?p j")
    case True
    then show ?thesis using marked u(2,3) by (auto simp: released_def)
  next
    case False
    then have "at_hand jid j u" using H u by (simp add: at_hand_def resolved_iff)
    then show ?thesis using marked u(2,3) False by auto
  qed
qed

lemma fallback_off:
  assumes h: "at_hand jid j d" and i: "j_id c = jid"
  shows "\<exists>x d'. worker_fallback cfg clk c e d = (Inr x, d') \<and>
    (if x then off_worker jid d' else \<exists>j'. at_hand jid j' d')"
proof (cases "\<not> j_backend_fallback_allowed c \<or> j_attempts c < j_max_attempts c")
  case True
  then show ?thesis using h by (auto simp: worker_fallback_def)
next
  case False
  define release where "release = (if j_kind c = ''translate'' then finalize clk jid False else returnS ())"
  have "\<exists>d1 j1. release d = (Inr (), d1) \<and> at_hand jid j1 d1"
  proof (cases "j_kind c = ''translate''")
    case True
    have H: "db_ok d" "get_job jid d = Some j" "j_attempts j \<le> 28" "j_status j = Running \<or> resolved jid d"
      using h by (simp_all add: at_hand_def)
    obtain q where f: "finalize clk jid False d = (Inr (), (settled_db clk False jid d)\<lparr>quota := q\<rparr>)"
      using finalize_total [OF H(1)] by blast
    let ?d = "(settled_db clk False jid d)\<lparr>quota := q\<rparr>"
    let ?j = "if \<not> j_quota_finalized j then settled clk False j else j"
    have "get_job jid ?d = Some ?j"
      using H(2) get_job_settled_db [of jid clk False jid d] by (simp add: get_job_def)
    moreover have "db_ok ?d" using keepsD [OF keeps_finalize H(1), of clk jid False] f by simp
    ultimately have "at_hand jid ?j ?d"
      using H(2-4) by (auto simp: at_hand_def resolved_iff settled_def)
    then show ?thesis using f True by (auto simp: release_def)
  qed (use h in \<open>auto simp: release_def\<close>)
  then obtain d1 j1 where r: "release d = (Inr (), d1)" and h1: "at_hand jid j1 d1" by blast
  let ?m = "model_for (wc_settings cfg) (if j_kind c = ''translate'' then TRANSLATE_BATCH else CODEX_EXTRACT) API"
  let ?f = "\<lambda>j. (released Queued (provider_label (wc_backend cfg) @ '' failed; switching to API'') clk j)
              \<lparr>j_execution_backend := API, j_backend_fallback_from := Some (backend_value (wc_backend cfg)),
               j_backend_model := ?m, j_backend_fallback_allowed := False, j_attempts := 0,
               j_max_attempts := JOB_MAX_ATTEMPTS (wc_settings cfg), j_error := Some (safe_error_summary (wc_backend cfg) e),
               j_not_before := None, j_cancel_requested_at := None\<rparr>"
  let ?p = "\<lambda>j. j_status j = Running"
  have H1: "db_ok d1" "get_job jid d1 = Some j1" "j_attempts j1 \<le> 28" "j_status j1 = Running \<or> resolved jid d1"
    using h1 by (simp_all add: at_hand_def)
  obtain u where u: "update_where jid ?p ?f d1 = (Inr (if ?p j1 then Some (?f j1) else None), u)" "db_ok u"
      "get_job jid u = Some (if ?p j1 then ?f j1 else j1)"
    using update_at [OF H1(1,2), of ?f ?p] by (auto simp: released_def job_ok_def)
  have "fallback_to_api clk (wc_backend cfg) jid ?m (JOB_MAX_ATTEMPTS (wc_settings cfg))
      (safe_error_summary (wc_backend cfg) e) d1 = (Inr (?p j1), u)"
    unfolding fallback_to_api_def bindS_def u(1) by simp
  moreover have "worker_fallback cfg clk c e d = fallback_to_api clk (wc_backend cfg) jid ?m (JOB_MAX_ATTEMPTS (wc_settings cfg))
      (safe_error_summary (wc_backend cfg) e) d1"
    using False i r [unfolded release_def]
    by (cases "j_kind c = ''translate''") (simp_all add: worker_fallback_def bindS_def release_translation_reservation_for_fallback_def)
  moreover have "if ?p j1 then off_worker jid u else \<exists>j'. at_hand jid j' u"
    using u H1 by (auto simp: off_worker_def at_hand_def resolved_iff released_def)
  ultimately show ?thesis by auto
qed

section \<open>The wiring keeps the contract\<close>

definition job_at_hand :: "job \<Rightarrow> worker_site \<Rightarrow> bool" where
  "job_at_hand c s \<longleftrightarrow> (\<exists>j. at_hand (j_id c) j (ai_work (wk_ai s)))"

definition stop_asked :: "job \<Rightarrow> worker_site \<Rightarrow> bool" where
  "stop_asked c s \<longleftrightarrow> (\<forall>j. get_job (j_id c) (ai_work (wk_ai s)) = Some j \<longrightarrow> j_status j = Running \<longrightarrow> j_cancel_requested_at j \<noteq> None)"

definition job_ended :: "job \<Rightarrow> worker_site \<Rightarrow> bool" where
  "job_ended c s \<longleftrightarrow> db_ok (ai_work (wk_ai s)) \<and> (\<exists>j. get_job (j_id c) (ai_work (wk_ai s)) = Some j \<and> j_status j \<noteq> Running)"

definition job_off :: "job \<Rightarrow> worker_site \<Rightarrow> bool" where
  "job_off c s \<longleftrightarrow> off_worker (j_id c) (ai_work (wk_ai s))"

lemmas contract_defs = job_at_hand_def stop_asked_def job_ended_def job_off_def

lemma in_jobs_bind: "in_jobs (bindS m f) = bindS (in_jobs m) (\<lambda>x. in_jobs (f x))"
  by (rule ext) (auto simp: in_jobs_def bindS_def split: sum.splits prod.splits)

lemma in_jobs_return: "in_jobs (returnS x) = returnS x"
  by (rule ext) (simp add: in_jobs_def)

lemma in_jobs_step:
  assumes "\<exists>x d'. m (ai_work (wk_ai s)) = (Inr x, d') \<and> P x d'"
  shows "\<exists>x s'. in_jobs m s = (Inr x, s') \<and> P x (ai_work (wk_ai s'))"
  using assms by (auto simp: in_jobs_def)

interpretation subscription: worker_contract "subscription_ops cfg clk reg" job_at_hand stop_asked job_ended job_off
  for cfg clk reg
proof
  fix c s
  assume "job_at_hand c s"
  then obtain j where h: "at_hand (j_id c) j (ai_work (wk_ai s))" by (auto simp: job_at_hand_def)
  then have g: "get_job (j_id c) (ai_work (wk_ai s)) = Some j" by (simp add: at_hand_def)
  show "\<exists>x s'. ao_mark_canceled (subscription_ops cfg clk reg) (j_id c) s = (Inr x, s') \<and> job_off c s'" if "stop_asked c s"
  proof -
    have "j_status j = Running \<longrightarrow> j_cancel_requested_at j \<noteq> None" using that g by (simp add: stop_asked_def)
    from in_jobs_step [of "mark_canceled_if_running clk (j_id c)" s "\<lambda>_. off_worker (j_id c)", OF mark_canceled_off [OF h this]]
    show ?thesis by (simp add: subscription_ops_def job_off_def)
  qed
  show "stop_asked c s" if "ao_is_canceled (subscription_ops cfg clk reg) (j_id c) s"
    using that g by (auto simp: subscription_ops_def is_canceled_def stop_asked_def)
  show "\<exists>x s'. ao_wait_for_provider (subscription_ops cfg clk reg) (j_id c) m s = (Inr x, s') \<and> job_off c s'" for m
    using in_jobs_step [of "wait_for_provider clk (j_id c) m (wc_retry_minutes cfg)" s "\<lambda>_. off_worker (j_id c)", OF wait_off [OF h]]
    by (simp add: subscription_ops_def job_off_def)
  show "\<exists>x s'. ao_fallback_to_api (subscription_ops cfg clk reg) c e s = (Inr x, s') \<and>
      (if x then job_off c s' else job_at_hand c s')" for e
  proof -
    from fallback_off [OF h refl, of cfg clk e] obtain x d' where
      "worker_fallback cfg clk c e (ai_work (wk_ai s)) = (Inr x, d')"
      "if x then off_worker (j_id c) d' else \<exists>j'. at_hand (j_id c) j' d'" by blast
    then show ?thesis by (cases x) (auto simp: subscription_ops_def in_jobs_def job_off_def job_at_hand_def)
  qed
  show "\<exists>s'. ao_fail_or_retry (subscription_ops cfg clk reg) c m s = (Inr (), s') \<and> job_off c s'" for m
    using fail_or_retry_off [OF h, of clk m] by (auto simp: subscription_ops_def job_off_def in_jobs_def)
  show "\<exists>x s'. ao_mark_done (subscription_ops cfg clk reg) (j_id c) pr s = (Inr x, s') \<and>
      (if x then job_ended c s' else job_at_hand c s' \<and> stop_asked c s')" for pr
  proof -
    from mark_done_at [OF h, of clk "Some pr"] obtain d' j' where
      "mark_done_if_running clk (j_id c) (Some pr) (ai_work (wk_ai s)) = (Inr (j_status j = Running), d')" "db_ok d'"
      "get_job (j_id c) d' = Some j'" "j_status j' \<noteq> Running" "j_status j \<noteq> Running \<longrightarrow> at_hand (j_id c) j' d'" by blast
    then show ?thesis by (auto simp: subscription_ops_def in_jobs_def contract_defs)
  qed
next
  fix c s b
  assume "job_ended c s"
  then obtain j where "db_ok (ai_work (wk_ai s))" "get_job (j_id c) (ai_work (wk_ai s)) = Some j" "j_status j \<noteq> Running"
    by (auto simp: job_ended_def)
  from finalize_off [OF this, of clk b]
  show "\<exists>s'. ao_finalize (subscription_ops cfg clk reg) (j_id c) b s = (Inr (), s') \<and> job_off c s'"
    by (auto simp: subscription_ops_def in_jobs_def job_off_def)
qed

lemma finalize_at:
  assumes ok: "db_ok d" and g: "get_job jid d = Some j"
  shows "\<exists>d' j'. finalize clk jid b d = (Inr (), d') \<and> db_ok d' \<and> get_job jid d' = Some j' \<and>
    j_status j' = j_status j \<and> j_quota_finalized j' \<and> j_cancel_requested_at j' = j_cancel_requested_at j"
proof -
  obtain q where f: "finalize clk jid b d = (Inr (), (settled_db clk b jid d)\<lparr>quota := q\<rparr>)"
    using finalize_total [OF ok] by blast
  have "get_job jid ((settled_db clk b jid d)\<lparr>quota := q\<rparr>) = Some (if \<not> j_quota_finalized j then settled clk b j else j)"
    using g get_job_settled_db [of jid clk b jid d] by (simp add: get_job_def)
  moreover have "db_ok ((settled_db clk b jid d)\<lparr>quota := q\<rparr>)" using keepsD [OF keeps_finalize ok, of clk jid b] f by simp
  ultimately show ?thesis using f by (auto simp: settled_def)
qed

text \<open>Both steps of stopping a job that is not allowed to run: request, then settle.\<close>

lemma mark_canceled_at:
  assumes ok: "db_ok d" and g: "get_job jid d = Some j"
    and c: "j_status j = Running \<and> j_cancel_requested_at j \<noteq> None \<or> j_status j = Canceled \<and> j_quota_finalized j"
  shows "\<exists>x d' j'. mark_canceled_if_running clk jid d = (Inr x, d') \<and> db_ok d' \<and> get_job jid d' = Some j' \<and>
    j_status j' = Canceled \<and> j_quota_finalized j'"
proof -
  let ?p = "\<lambda>j. j_status j = Running \<and> j_cancel_requested_at j \<noteq> None" and ?f = "released Canceled ''canceled'' clk"
  obtain u where u: "update_where jid ?p ?f d = (Inr (if ?p j then Some (?f j) else None), u)" "db_ok u"
      "get_job jid u = Some (if ?p j then ?f j else j)"
    using update_at [OF ok g, of ?f ?p] by (auto simp: released_def job_ok_def)
  have run: "mark_canceled_if_running clk jid d =
      (if ?p j then bindS (finalize clk jid False) (\<lambda>_. returnS True) u else (Inr False, u))"
    unfolding mark_canceled_if_running_def bindS_def [of "update_where _ _ _"] u(1) by auto
  show ?thesis
  proof (cases "?p j")
    case True
    then have gu: "get_job jid u = Some (?f j)" using u(3) by simp
    from finalize_at [OF u(2) gu, of clk False] obtain d' j' where
      "finalize clk jid False u = (Inr (), d')" "db_ok d'" "get_job jid d' = Some j'" "j_status j' = Canceled" "j_quota_finalized j'"
      by (auto simp: released_def)
    then show ?thesis using True by (auto simp: run bindS_def)
  next
    case False
    then show ?thesis using c u by (auto simp: run)
  qed
qed

lemma cancel_then_mark:
  assumes ok: "db_ok d" and g: "get_job jid d = Some j" and r: "j_status j = Running"
  shows "\<exists>d' j'. bindS (cancel_job clk jid) (\<lambda>_. bindS (mark_canceled_if_running clk jid) (\<lambda>_. returnS ())) d = (Inr (), d') \<and>
    db_ok d' \<and> get_job jid d' = Some j' \<and> j_status j' = Canceled \<and> j_quota_finalized j'"
proof -
  let ?p = "\<lambda>j. j_status j \<in> {Queued, Running, Waiting_provider}" and ?f = "cancel_row clk"
  have ids: "\<And>j. j_id (?f j) = j_id j" by (simp add: cancel_row_def)
  have pres: "\<And>j. job_ok j \<Longrightarrow> ?p j \<Longrightarrow> job_ok (?f j)" by (auto simp: cancel_row_def job_ok_def)
  obtain u where u: "update_where jid ?p ?f d = (Inr (if ?p j then Some (?f j) else None), u)" "db_ok u"
      "get_job jid u = Some (if ?p j then ?f j else j)"
    using update_at [OF ok g, of ?f ?p, OF ids pres] by blast
  have gu: "get_job jid u = Some (?f j)" using u(3) r by simp
  have run: "cancel_job clk jid d =
      (if j_status (?f j) = Canceled then bindS (finalize clk jid False) (\<lambda>_. returnS True) u else (Inr True, u))"
    unfolding cancel_job_def bindS_def [of "update_where _ _ _"] u(1) using r by auto
  have "\<exists>x d1 j1. cancel_job clk jid d = (Inr x, d1) \<and> db_ok d1 \<and> get_job jid d1 = Some j1 \<and>
      (j_status j1 = Running \<and> j_cancel_requested_at j1 \<noteq> None \<or> j_status j1 = Canceled \<and> j_quota_finalized j1)"
  proof (cases "j_status (?f j) = Canceled")
    case True
    from finalize_at [OF u(2) gu, of clk False] obtain d1 j1 where
      "finalize clk jid False u = (Inr (), d1)" "db_ok d1" "get_job jid d1 = Some j1"
      "j_status j1 = j_status (?f j)" "j_quota_finalized j1" by blast
    then show ?thesis using True by (auto simp: run bindS_def)
  next
    case False
    then have "j_status (?f j) = Running \<and> j_cancel_requested_at (?f j) \<noteq> None"
      by (auto simp: cancel_row_def split: if_splits)
    then show ?thesis using False u(2) gu by (auto simp: run)
  qed
  then obtain x d1 j1 where c: "cancel_job clk jid d = (Inr x, d1)" "db_ok d1" "get_job jid d1 = Some j1"
    "j_status j1 = Running \<and> j_cancel_requested_at j1 \<noteq> None \<or> j_status j1 = Canceled \<and> j_quota_finalized j1" by blast
  from mark_canceled_at [OF c(2-4), of clk] obtain y d' j' where
    "mark_canceled_if_running clk jid d1 = (Inr y, d')" "db_ok d'" "get_job jid d' = Some j'" "j_status j' = Canceled" "j_quota_finalized j'"
    by blast
  then show ?thesis using c(1) by (auto simp: bindS_def)
qed

text \<open>
  C31: every attempt of the subscription worker ends. When the worker may run the job and the handler
  behaves (it leaves a healthy store in which the job has at most 28 attempts and is running or already
  resolved, and raises the cancellation only for a job asked to stop), \<open>subscription_process\<close> raises
  nothing, whatever the handler returns or raises: afterwards the job is not running and is settled,
  queued again or waiting for the provider, and the worker no longer claims to hold it. An unknown kind
  of job is handled the same way.
\<close>

theorem subscription_process_resolves:
  assumes allowed: "fst (worker_reauthorize cfg c s)" and running: "job_at_hand c s"
    and handler: "\<And>h. reg (j_kind c) = Some h \<Longrightarrow> job_at_hand c (snd (h c s)) \<and>
      (\<forall>x. fst (h c s) = Inl x \<longrightarrow> we_canceled x \<longrightarrow> stop_asked c (snd (h c s)))"
  shows "\<exists>s' w'. subscription_process (subscription_ops cfg clk reg) c s w = (Inr (), s', w') \<and>
    db_ok (ai_work (wk_ai s')) \<and> resolved (j_id c) (ai_work (wk_ai s')) \<and> ws_job_id w' = None"
proof -
  have "\<exists>s' w'. subscription_process (subscription_ops cfg clk reg) c s w = (Inr (), s', w') \<and> job_off c s' \<and> ws_job_id w' = None"
    by (rule subscription.process_ends) (use allowed running handler in \<open>simp_all add: subscription_ops_def\<close>)
  then show ?thesis by (simp add: job_off_def off_worker_def)
qed

text \<open>
  C28: a subscription job runs only under a live grant. When the worker processes a claimed job that is
  not a smoke test, then either the job's user exists and is active, the backend is globally enabled, the
  user's policy enables it for the workload of this kind of job, the novel is editable by the user and
  the user's active jobs are within the policy's limit; or no handler runs (the outcome is the same for
  every registry of handlers), the job is canceled and its quota settled, and catalogue and policies are
  untouched.
\<close>

theorem only_granted_jobs_run:
  assumes ok: "db_ok (ai_work (wk_ai s))" and g: "get_job (j_id c) (ai_work (wk_ai s)) = Some j" "j_status j = Running"
    and kind: "j_kind c \<noteq> smoke_kind (wc_backend cfg)" and b: "j_execution_backend c = wc_backend cfg"
  shows "(\<exists>u p nid n wl. Option.bind (j_user_id c) (wc_users cfg) = Some u \<and> status u = ''active'' \<and>
      globally_enabled (wc_settings cfg) (wc_backend cfg) \<and> workload_for_job_kind (j_kind c) = Some wl \<and>
      get_policy (user_id u) (wk_ai s) = Some p \<and> is_granted wl (wc_backend cfg) (Some p) \<and>
      j_novel_id c = Some nid \<and> require_editable nid (Some u) (wk_catalog s) = Inr n \<and>
      active_job_count (user_id u) (wc_backend cfg) (ai_work (wk_ai s)) \<le> or_one_limit (provider_concurrency (wc_backend cfg) p)) \<or>
    (\<exists>s' j'. (\<forall>reg w. subscription_process (subscription_ops cfg clk reg) c s w = (Inr (), s', w\<lparr>ws_job_id := None\<rparr>)) \<and>
      get_job (j_id c) (ai_work (wk_ai s')) = Some j' \<and> j_status j' = Canceled \<and> j_quota_finalized j' \<and>
      wk_catalog s' = wk_catalog s \<and> policies (wk_ai s') = policies (wk_ai s))"
proof (cases "fst (worker_reauthorize cfg c s)")
  case True
  then show ?thesis using kind b
    by (fastforce simp: worker_reauthorize_def reauthorize_job_def is_granted_def Let_def
        split: option.splits if_splits prod.splits bool.splits sum.splits)
next
  case False
  from cancel_then_mark [OF ok g, of clk] obtain d' j' where
    d: "bindS (cancel_job clk (j_id c)) (\<lambda>_. bindS (mark_canceled_if_running clk (j_id c)) (\<lambda>_. returnS ()))
        (ai_work (wk_ai s)) = (Inr (), d')"
    and j': "get_job (j_id c) d' = Some j'" "j_status j' = Canceled" "j_quota_finalized j'" by blast
  let ?s = "s\<lparr>wk_ai := (wk_ai s)\<lparr>ai_work := d'\<rparr>\<rparr>"
  have "attempt (subscription_ops cfg clk reg) c s = (Inr (), ?s)" for reg
  proof -
    have "attempt (subscription_ops cfg clk reg) c s =
        raised (bindS (in_jobs (cancel_job clk (j_id c))) (\<lambda>_. bindS (in_jobs (mark_canceled_if_running clk (j_id c))) (\<lambda>_. returnS ()))) s"
      using False by (simp add: attempt_def subscription_ops_def Let_def)
    also have "\<dots> = raised (in_jobs (bindS (cancel_job clk (j_id c)) (\<lambda>_. bindS (mark_canceled_if_running clk (j_id c)) (\<lambda>_. returnS ())))) s"
      by (simp add: raised_def in_jobs_bind in_jobs_return)
    finally show ?thesis using d by (simp add: raised_def in_jobs_def)
  qed
  then have "\<forall>reg w. subscription_process (subscription_ops cfg clk reg) c s w = (Inr (), ?s, w\<lparr>ws_job_id := None\<rparr>)"
    by (simp add: subscription_process_def)
  then show ?thesis using j' by (intro disjI2 exI [of _ ?s] exI [of _ j']) simp
qed

section \<open>Witnesses\<close>

definition demo_running :: job where
  "demo_running = demo_job\<lparr>j_kind := ''translate'', j_execution_backend := AGY, j_status := Running, j_claim_token := Some ''t'',
     j_claimed_at := Some 100, j_attempts := 1\<rparr>"

definition demo_worker_config :: worker_config where
  "demo_worker_config = \<lparr>wc_settings = demo_settings, wc_backend = AGY, wc_retry_minutes = 15, wc_users = [7 \<mapsto> demo_user_b]\<rparr>"

definition demo_worker_site :: worker_site where
  "demo_worker_site = \<lparr>wk_ai = demo_ai_db\<lparr>ai_work := demo_db\<lparr>jobs := [demo_running]\<rparr>\<rparr>, wk_catalog = demo_catalog\<rparr>"

text \<open>A handler that times out.\<close>

definition demo_handlers :: "string \<Rightarrow> worker_site handler option" where
  "demo_handlers kind = (if kind = ''translate''
     then Some (\<lambda>j s. (Inl \<lparr>we_canceled = False, we_code = ''agy_timeout'', we_type = ''AgyError'', we_safe_detail = None\<rparr>, s)) else None)"

lemma demo_running_ok:
  "at_hand 1 demo_running (ai_work (wk_ai demo_worker_site))"
  "fst (worker_reauthorize demo_worker_config demo_running demo_worker_site)"
  "j_id demo_running = 1" "j_kind demo_running = ''translate''" "j_status demo_running = Running"
  by (simp_all add: at_hand_def demo_worker_site_def demo_ai_db_def demo_db_def demo_running_def demo_job_def inserted_job_def
      demo_new_job_def db_ok_def job_ok_def get_job_def KINDS_def known_kind_def QUOTA_KINDS_def)
    code_simp

theorem subscription_process_resolves_witness:
  "\<exists>s' w'. subscription_process (subscription_ops demo_worker_config demo_clk demo_handlers) demo_running demo_worker_site
      \<lparr>ws_status = ''healthy'', ws_error = None, ws_job_id = Some 1\<rparr> = (Inr (), s', w') \<and>
    resolved 1 (ai_work (wk_ai s'))"
proof -
  have h: "job_at_hand demo_running demo_worker_site"
    using demo_running_ok(1) by (auto simp: job_at_hand_def demo_running_ok(3))
  have behaves: "job_at_hand demo_running (snd (f demo_running demo_worker_site)) \<and>
      (\<forall>x. fst (f demo_running demo_worker_site) = Inl x \<longrightarrow> we_canceled x \<longrightarrow>
        stop_asked demo_running (snd (f demo_running demo_worker_site)))"
    if "demo_handlers (j_kind demo_running) = Some f" for f
    using that h by (auto simp: demo_running_ok(4) demo_handlers_def)
  have "\<exists>s' w'. subscription_process (subscription_ops demo_worker_config demo_clk demo_handlers) demo_running demo_worker_site
      \<lparr>ws_status = ''healthy'', ws_error = None, ws_job_id = Some 1\<rparr> = (Inr (), s', w') \<and>
    db_ok (ai_work (wk_ai s')) \<and> resolved (j_id demo_running) (ai_work (wk_ai s')) \<and> ws_job_id w' = None"
    by (rule subscription_process_resolves) (fact demo_running_ok(2), fact h, rule behaves)
  then show ?thesis unfolding demo_running_ok(3) by blast
qed

text \<open>The grant was withdrawn while the job was queued.\<close>

definition demo_revoked_site :: worker_site where
  "demo_revoked_site = demo_worker_site\<lparr>wk_ai := (wk_ai demo_worker_site)\<lparr>policies := Map.empty\<rparr>\<rparr>"

theorem only_granted_jobs_run_witness:
  "\<exists>s' j'. subscription_process (subscription_ops demo_worker_config demo_clk demo_handlers) demo_running demo_revoked_site
      \<lparr>ws_status = ''healthy'', ws_error = None, ws_job_id = Some 1\<rparr> =
        (Inr (), s', \<lparr>ws_status = ''healthy'', ws_error = None, ws_job_id = None\<rparr>) \<and>
    get_job 1 (ai_work (wk_ai s')) = Some j' \<and> j_status j' = Canceled \<and> j_quota_finalized j'"
proof -
  have w: "ai_work (wk_ai demo_revoked_site) = ai_work (wk_ai demo_worker_site)" by (simp add: demo_revoked_site_def)
  have h: "db_ok (ai_work (wk_ai demo_revoked_site))" "get_job (j_id demo_running) (ai_work (wk_ai demo_revoked_site)) = Some demo_running"
    unfolding w using demo_running_ok by (simp_all add: at_hand_def)
  have k: "j_kind demo_running \<noteq> smoke_kind (wc_backend demo_worker_config)"
    "j_execution_backend demo_running = wc_backend demo_worker_config"
    by (simp_all add: demo_running_def demo_worker_config_def smoke_kind_def)
  have none: "get_policy u (wk_ai demo_revoked_site) = None" for u by (simp add: get_policy_def demo_revoked_site_def)
  from only_granted_jobs_run [OF h demo_running_ok(5) k, of demo_clk] obtain s' j' where
    "\<forall>reg w. subscription_process (subscription_ops demo_worker_config demo_clk reg) demo_running demo_revoked_site w =
       (Inr (), s', w\<lparr>ws_job_id := None\<rparr>)"
    "get_job (j_id demo_running) (ai_work (wk_ai s')) = Some j'" "j_status j' = Canceled" "j_quota_finalized j'"
    by (auto simp: none)
  then show ?thesis by (intro exI [of _ s'] exI [of _ j']) (simp add: demo_running_ok(3))
qed

end
