(* ===== verification/Codex_Memory.thy ===== *)
theory Codex_Memory
  imports Prelude "HOL-Library.Product_Lexorder"
begin

text \<open>
  The knowledge tables of the codex (\<open>db/schema.py\<close>) and the projections of
  \<open>modules/codex/adapters/outbound/context.py\<close> over them: the state of an entity replayed from its
  transitions, the current state of a relationship, and the shape of the chapter memory (when a
  checkpoint or a volume closes). JSONB columns hold decoded documents; chapters are exact rationals.
  Columns that no modelled query reads (time stamps, run ids, provenance of facts, relations and events)
  are left out; one sequence numbers the rows of all tables but the entities.
\<close>

section \<open>Tables\<close>

record entity_row =
  en_id :: int
  en_novel_id :: int
  en_name :: string
  en_type :: string
  en_description :: "string option"
  en_embedding :: "rat list option"
  en_first_seen :: rat

record description_row =
  de_novel_id :: int
  de_entity_id :: int
  de_chapter :: rat
  de_text :: string

record alias_row =
  al_novel_id :: int
  al_entity_id :: int
  al_alias :: string
  al_revealed :: rat

record link_row =
  li_id :: int
  li_novel_id :: int
  li_a :: int
  li_b :: int
  li_revealed :: rat
  li_note :: "string option"

record fact_row =
  fa_id :: int
  fa_novel_id :: int
  fa_entity_id :: int
  fa_chapter :: rat
  fa_type :: "string option"
  fa_content :: string
  fa_data :: "json option"

record relationship_row =
  rl_id :: int
  rl_novel_id :: int
  rl_source :: int
  rl_target :: int
  rl_chapter :: rat
  rl_type :: "string option"
  rl_directed :: "bool option"
  rl_content :: "string option"
  rl_data :: "json option"

record event_row =
  ev_id :: int
  ev_novel_id :: int
  ev_chapter :: rat
  ev_description :: "string option"
  ev_participants :: "int list option"
  ev_location :: "int option"

record activity_row =
  ac_novel_id :: int
  ac_entity_id :: int
  ac_chapter :: rat
  ac_mentions :: int
  ac_claims :: int
  ac_events :: int
  ac_salience :: rat
  ac_chunks :: "int list"
  ac_version :: string

record state_row =
  sr_id :: int
  sr_novel_id :: int
  sr_entity_id :: int
  sr_chapter :: rat
  sr_key :: string
  sr_operation :: string
  sr_value :: "json option"
  sr_perspective :: "int option"
  sr_certainty :: string
  sr_scope :: string
  sr_chunks :: "int list"
  sr_version :: string

record relation_state_row =
  rs_id :: int
  rs_novel_id :: int
  rs_source :: int
  rs_target :: int
  rs_chapter :: rat
  rs_key :: string
  rs_operation :: string
  rs_value :: "json option"
  rs_certainty :: string
  rs_chunks :: "int list"
  rs_version :: string

record thread_row =
  th_id :: int
  th_novel_id :: int
  th_title :: string
  th_introduced :: rat
  th_version :: string

record thread_update_row =
  tu_id :: int
  tu_novel_id :: int
  tu_thread_id :: int
  tu_chapter :: rat
  tu_operation :: string
  tu_summary :: string
  tu_participants :: "int list"
  tu_keywords :: "string list"
  tu_chunks :: "int list"
  tu_version :: string

record wiki_row =
  wi_novel_id :: int
  wi_entity_id :: int
  wi_ceiling :: rat
  wi_rendered :: string
  wi_model :: "string option"
  wi_evidence :: "json option"

record query_cache_row =
  qc_novel_id :: int
  qc_hash :: string
  qc_ceiling :: rat
  qc_answer :: "string option"

record knowledge =
  kb_entities :: "entity_row list"
  kb_next_entity_id :: int
  kb_sequence :: int
  kb_descriptions :: "description_row list"
  kb_aliases :: "alias_row list"
  kb_links :: "link_row list"
  kb_facts :: "fact_row list"
  kb_relationships :: "relationship_row list"
  kb_events :: "event_row list"
  kb_activity :: "activity_row list"
  kb_states :: "state_row list"
  kb_relation_states :: "relation_state_row list"
  kb_threads :: "thread_row list"
  kb_thread_updates :: "thread_update_row list"
  kb_wiki :: "wiki_row list"
  kb_queries :: "query_cache_row list"

text \<open>The settings the modelled code reads.\<close>

record codex_settings =
  ks_condition_age :: int
  ks_custody_age :: int
  ks_goal_age :: int
  ks_occupation_age :: int
  ks_location_age :: int
  ks_pipeline_version :: string
  ks_max_facts :: nat
  ks_max_relationships :: nat
  ks_max_timeline :: nat
  ks_max_entities :: nat
  ks_max_threads :: nat
  ks_checkpoint_chapters :: int
  ks_fuzzy_match :: rat
  ks_fuzzy_accept :: rat
  ks_semantic_match :: rat

text \<open>\<open>SELECT DISTINCT ON (key)\<close> over rows in order: the first row of every key.\<close>

primrec distinct_on :: "('r \<Rightarrow> 'k) \<Rightarrow> 'r list \<Rightarrow> 'r list" where
  "distinct_on k [] = []"
| "distinct_on k (r # rs) = r # filter (\<lambda>s. k s \<noteq> k r) (distinct_on k rs)"

lemma set_distinct_on: "set (distinct_on k rs) \<subseteq> set rs"
  by (induction rs) auto

lemma distinct_on_distinct: "distinct (map k (distinct_on k rs))"
  by (induction rs) (auto simp: distinct_map_filter)

section \<open>Python values\<close>

text \<open>Equality of decoded documents: numbers and booleans compare by value.\<close>

primrec json_norm :: "json \<Rightarrow> json" where
  "json_norm JNull = JNull"
| "json_norm (JBool b) = JFloat (if b then 1 else 0)"
| "json_norm (JInt n) = JFloat (of_int n)"
| "json_norm (JFloat x) = JFloat x"
| "json_norm (JStr s) = JStr s"
| "json_norm (JArr xs) = JArr (map json_norm xs)"
| "json_norm (JObj kvs) = JObj (map (map_prod id json_norm) kvs)"

definition json_eq :: "json \<Rightarrow> json \<Rightarrow> bool" where
  "json_eq a b = (json_norm a = json_norm b)"

lemma json_eq_refl [simp]: "json_eq v v"
  by (simp add: json_eq_def)

lemma json_eq_trans: "json_eq a b \<Longrightarrow> json_eq b c \<Longrightarrow> json_eq a c"
  by (simp add: json_eq_def)

lemma json_eq_sym: "json_eq a b \<Longrightarrow> json_eq b a"
  by (simp add: json_eq_def)

lemma json_norm_JNull: "json_norm v = JNull \<longleftrightarrow> v = JNull"
  by (cases v) auto

lemma json_eq_JNull [simp]: "json_eq v JNull \<longleftrightarrow> v = JNull" "json_eq JNull v \<longleftrightarrow> v = JNull"
  by (cases v; simp add: json_eq_def)+

section \<open>The state of an entity\<close>

record state_entry =
  se_value :: json
  se_certainty :: string
  se_perspective :: "string option"
  se_chapter :: rat
  se_transition_id :: int
  se_chunks :: "int list"

datatype slot = Single state_entry | Multi "state_entry list"

type_synonym entity_state = "string \<rightharpoonup> slot"

definition MULTI_STATE_KEYS :: "string list" where
  "MULTI_STATE_KEYS = [''affiliation'', ''possession'', ''ability'', ''identity'', ''title'', ''knowledge'']"

text \<open>A transition row joined with the name of its perspective.\<close>

type_synonym transition = "state_row \<times> string option"

definition transition_value :: "transition \<Rightarrow> json" where
  "transition_value t = coalesce (sr_value (fst t)) JNull"

definition state_entry_of :: "transition \<Rightarrow> state_entry" where
  "state_entry_of t =
     \<lparr>se_value = transition_value t, se_certainty = (if sr_certainty (fst t) = [] then ''confirmed'' else sr_certainty (fst t)),
      se_perspective = snd t, se_chapter = sr_chapter (fst t), se_transition_id = sr_id (fst t), se_chunks = sr_chunks (fst t)\<rparr>"

definition multi_entries :: "entity_state \<Rightarrow> string \<Rightarrow> state_entry list" where
  "multi_entries state k = (case state k of Some (Multi es) \<Rightarrow> es | _ \<Rightarrow> [])"

definition other_values :: "json \<Rightarrow> state_entry list \<Rightarrow> state_entry list" where
  "other_values v es = filter (\<lambda>e. \<not> json_eq (se_value e) v) es"

definition apply_multi :: "transition \<Rightarrow> state_entry list \<Rightarrow> state_entry list" where
  "apply_multi t current =
     (let op = sr_operation (fst t); v = transition_value t in
      if op = ''set'' then (if v = JNull then [] else [state_entry_of t])
      else if op \<in> {''add'', ''confirm''} \<and> v \<noteq> JNull then other_values v current @ [state_entry_of t]
      else if op \<in> {''remove'', ''contradict''} then other_values v current
      else if op = ''clear'' then []
      else current)"

definition apply_transition :: "transition \<Rightarrow> entity_state \<Rightarrow> entity_state" where
  "apply_transition t state =
     (let k = sr_key (fst t); op = sr_operation (fst t); v = transition_value t in
      if sr_scope (fst t) \<noteq> ''current'' then state
      else if k \<in> set MULTI_STATE_KEYS then
        (let current = apply_multi t (multi_entries state k) in state(k := if current = [] then None else Some (Multi current)))
      else if op \<in> {''set'', ''add'', ''confirm''} then state(k \<mapsto> Single (state_entry_of t))
      else if op = ''clear'' \<or>
          op \<in> {''remove'', ''contradict''} \<and> (case state k of Some (Single e) \<Rightarrow> json_eq (se_value e) v | _ \<Rightarrow> False)
      then state(k := None)
      else state)"

definition replay :: "transition list \<Rightarrow> entity_state" where
  "replay ts = fold apply_transition ts Map.empty"

text \<open>Expired observations and living-only state after death.\<close>

definition life_value :: "json \<Rightarrow> json" where
  "life_value v =
     (case v of JObj kvs \<Rightarrow>
        (let a = coalesce (map_of kvs ''value'') JNull in if json_truthy a then a else coalesce (map_of kvs ''status'') JNull)
      | _ \<Rightarrow> v)"

definition value_is_dead :: "slot option \<Rightarrow> bool" where
  "value_is_dead s =
     (case s of Some (Single e) \<Rightarrow>
        py_lower (py_strip (se_certainty e)) = ''confirmed'' \<and>
        (case life_value (se_value e) of JStr w \<Rightarrow> py_lower (py_strip w) \<in> {''dead'', ''deceased'', ''killed'', ''confirmed dead''}
         | _ \<Rightarrow> False)
      | _ \<Rightarrow> False)"

definition state_max_ages :: "codex_settings \<Rightarrow> (string \<times> int) list" where
  "state_max_ages cfg = [(''condition'', ks_condition_age cfg), (''custody'', ks_custody_age cfg), (''goal'', ks_goal_age cfg),
     (''occupation'', ks_occupation_age cfg), (''last_known_location'', ks_location_age cfg)]"

definition expire_key :: "rat \<Rightarrow> string \<times> int \<Rightarrow> entity_state \<Rightarrow> entity_state" where
  "expire_key c ka state =
     (case state (fst ka) of
        Some (Multi es) \<Rightarrow>
          (let kept = filter (\<lambda>e. c - se_chapter e \<le> of_int (snd ka)) es
           in state(fst ka := if kept = [] then None else Some (Multi kept)))
      | Some (Single e) \<Rightarrow> if c - se_chapter e > of_int (snd ka) then state(fst ka := None) else state
      | None \<Rightarrow> state)"

definition LIVING_KEYS :: "string list" where
  "LIVING_KEYS = [''goal'', ''occupation'', ''condition'', ''custody'']"

definition reconcile_entity_state :: "codex_settings \<Rightarrow> rat \<Rightarrow> entity_state \<Rightarrow> entity_state" where
  "reconcile_entity_state cfg c state =
     (let s = fold (expire_key c) (state_max_ages cfg) state
      in if value_is_dead (s ''life_status'') then fold (\<lambda>k s. s(k := None)) LIVING_KEYS s else s)"

text \<open>The query and the loop of \<open>current_entity_state\<close>; an entity without rows is absent.\<close>

definition entity_name :: "int \<Rightarrow> knowledge \<Rightarrow> string option" where
  "entity_name i kb = map_option en_name (row_by en_id i (kb_entities kb))"

definition transition_rows :: "codex_settings \<Rightarrow> int \<Rightarrow> int list \<Rightarrow> rat \<Rightarrow> knowledge \<Rightarrow> transition list" where
  "transition_rows cfg nid ids c kb =
     map (\<lambda>r. (r, Option.bind (sr_perspective r) (\<lambda>p. entity_name p kb)))
       (sort_key (\<lambda>r. (sr_chapter r, sr_id r))
         (filter (\<lambda>r. sr_novel_id r = nid \<and> sr_entity_id r \<in> set ids \<and> sr_chapter r \<le> c \<and>
            sr_version r = ks_pipeline_version cfg) (kb_states kb)))"

definition current_entity_state ::
  "codex_settings \<Rightarrow> int \<Rightarrow> int list \<Rightarrow> rat \<Rightarrow> knowledge \<Rightarrow> (int \<rightharpoonup> entity_state)" where
  "current_entity_state cfg nid ids c kb =
     (let rows = transition_rows cfg nid ids c kb in
      (\<lambda>i. if \<exists>t \<in> set rows. sr_entity_id (fst t) = i
           then Some (reconcile_entity_state cfg c (replay (filter (\<lambda>t. sr_entity_id (fst t) = i) rows)))
           else None))"

section \<open>The state of relationships\<close>

record relation_view =
  rv_row :: relation_state_row
  rv_source_name :: string
  rv_target_name :: string

definition relation_key :: "relation_state_row \<Rightarrow> int \<times> int \<times> string" where
  "relation_key r = (rs_source r, rs_target r, rs_key r)"

definition latest_relation_states ::
  "codex_settings \<Rightarrow> int \<Rightarrow> int list \<Rightarrow> rat \<Rightarrow> bool \<Rightarrow> knowledge \<Rightarrow> relation_state_row list" where
  "latest_relation_states cfg nid ids c both kb =
     distinct_on relation_key (sort_key (\<lambda>r. (- rs_chapter r, - rs_id r))
       (filter (\<lambda>r. rs_novel_id r = nid \<and>
           (if both then rs_source r \<in> set ids \<and> rs_target r \<in> set ids else rs_source r \<in> set ids \<or> rs_target r \<in> set ids) \<and>
           rs_chapter r \<le> c \<and> rs_version r = ks_pipeline_version cfg) (kb_relation_states kb)))"

definition novel_entity :: "int \<Rightarrow> int \<Rightarrow> knowledge \<Rightarrow> entity_row option" where
  "novel_entity nid i kb = find (\<lambda>e. en_id e = i \<and> en_novel_id e = nid) (kb_entities kb)"

definition relation_view_of :: "int \<Rightarrow> knowledge \<Rightarrow> relation_state_row \<Rightarrow> relation_view option" where
  "relation_view_of nid kb r =
     (case (novel_entity nid (rs_source r) kb, novel_entity nid (rs_target r) kb) of
        (Some a, Some b) \<Rightarrow> Some \<lparr>rv_row = r, rv_source_name = en_name a, rv_target_name = en_name b\<rparr>
      | _ \<Rightarrow> None)"

definition current_relationship_state ::
  "codex_settings \<Rightarrow> int \<Rightarrow> int list \<Rightarrow> rat \<Rightarrow> bool \<Rightarrow> knowledge \<Rightarrow> relation_view list" where
  "current_relationship_state cfg nid ids c both kb =
     (if ids = [] then []
      else take (ks_max_relationships cfg)
        (List.map_filter (\<lambda>r. if rs_operation r \<in> {''set'', ''add'', ''confirm''} then relation_view_of nid kb r else None)
          (latest_relation_states cfg nid ids c both kb)))"

section \<open>The shape of the chapter memory\<close>

record chapter_meta =
  me_kind :: "string option"
  me_part_label :: "string option"
  me_part_chapters :: "rat list"

record memory_target =
  mt_kind :: string
  mt_start :: rat
  mt_end :: rat
  mt_through :: rat
  mt_part_label :: "string option"
  mt_covered :: "rat list"

datatype memory_shape =
    NotNarrative "(string \<times> string option) option"
  | Narrative (shape_kind: string) (shape_part: "string option") (shape_targets: "memory_target list")
      (shape_block: "rat list") (shape_numbers: "rat list") (shape_start: nat)

definition MEMORY_KINDS :: "string list" where
  "MEMORY_KINDS = [''chapter'', ''interlude'']"

primrec index_of :: "'a \<Rightarrow> 'a list \<Rightarrow> nat option" where
  "index_of x [] = None"
| "index_of x (y # ys) = (if y = x then Some 0 else map_option Suc (index_of x ys))"

definition or_chapter :: "string option \<Rightarrow> string" where
  "or_chapter k = (if coalesce k [] = [] then ''chapter'' else coalesce k [])"

definition checkpoint_width :: "codex_settings \<Rightarrow> nat" where
  "checkpoint_width cfg = nat (max 1 (ks_checkpoint_chapters cfg))"

definition memory_targets :: "nat \<Rightarrow> rat \<Rightarrow> string option \<Rightarrow> rat list \<Rightarrow> nat \<Rightarrow> memory_target list" where
  "memory_targets w chap part numbers i =
     (let s = (i div w) * w;
          e = min (s + w - 1) (length numbers - 1);
          last_of_part = (coalesce part [] \<noteq> [] \<and> i = length numbers - 1);
          checkpoint = \<lparr>mt_kind = ''checkpoint'', mt_start = numbers ! s, mt_end = numbers ! e, mt_through = chap,
            mt_part_label = part, mt_covered = drop s (take (i + 1) numbers)\<rparr>;
          volume = \<lparr>mt_kind = ''volume'', mt_start = numbers ! 0, mt_end = last numbers, mt_through = chap,
            mt_part_label = part, mt_covered = numbers\<rparr>
      in (if i = s + w - 1 \<or> last_of_part then [checkpoint] else []) @ (if last_of_part then [volume] else []))"

definition chapter_memory_shape :: "codex_settings \<Rightarrow> rat \<Rightarrow> chapter_meta option \<Rightarrow> memory_shape" where
  "chapter_memory_shape cfg chap meta =
     (let m = coalesce meta \<lparr>me_kind = Some ''chapter'', me_part_label = None, me_part_chapters = [chap]\<rparr>;
          kind = or_chapter (me_kind m); part = me_part_label m; numbers = me_part_chapters m; w = checkpoint_width cfg
      in if kind \<notin> set MEMORY_KINDS then NotNarrative (Some (kind, part))
         else case index_of chap numbers of
           None \<Rightarrow> NotNarrative None
         | Some i \<Rightarrow> Narrative kind part (memory_targets w chap part numbers i)
             (drop ((i div w) * w) (take i numbers)) numbers ((i div w) * w))"

section \<open>Replay is last-writer-wins\<close>

text \<open>
  The specification reads the transitions as a log. A transition asserts an entry; a later one ends
  it: any assertion for a single-valued key, an overwrite or the same value for a multi-valued one,
  a clear, or a retraction of the same value. An entry is current when no later transition ends it.
\<close>

definition asserting :: "string \<Rightarrow> transition \<Rightarrow> bool" where
  "asserting k t \<longleftrightarrow> sr_scope (fst t) = ''current'' \<and> sr_key (fst t) = k \<and>
     sr_operation (fst t) \<in> {''set'', ''add'', ''confirm''} \<and> (k \<in> set MULTI_STATE_KEYS \<longrightarrow> transition_value t \<noteq> JNull)"

definition ending :: "string \<Rightarrow> json \<Rightarrow> transition \<Rightarrow> bool" where
  "ending k v t \<longleftrightarrow> sr_scope (fst t) = ''current'' \<and> sr_key (fst t) = k \<and>
     (if k \<in> set MULTI_STATE_KEYS
      then sr_operation (fst t) \<in> {''set'', ''clear''} \<or>
        sr_operation (fst t) \<in> {''add'', ''confirm'', ''remove'', ''contradict''} \<and> json_eq v (transition_value t)
      else sr_operation (fst t) \<in> {''set'', ''add'', ''confirm'', ''clear''} \<or>
        sr_operation (fst t) \<in> {''remove'', ''contradict''} \<and> json_eq v (transition_value t))"

definition holding :: "string \<Rightarrow> state_entry \<Rightarrow> transition list \<Rightarrow> bool" where
  "holding k e ts \<longleftrightarrow>
     (\<exists>xs t ys. ts = xs @ t # ys \<and> asserting k t \<and> e = state_entry_of t \<and> (\<forall>u \<in> set ys. \<not> ending k (se_value e) u))"

fun slot_entries :: "slot option \<Rightarrow> state_entry list" where
  "slot_entries None = []"
| "slot_entries (Some (Single e)) = [e]"
| "slot_entries (Some (Multi es)) = es"

definition state_ok :: "entity_state \<Rightarrow> bool" where
  "state_ok s \<longleftrightarrow> (\<forall>k. case s k of None \<Rightarrow> True | Some (Single e) \<Rightarrow> k \<notin> set MULTI_STATE_KEYS
     | Some (Multi es) \<Rightarrow> k \<in> set MULTI_STATE_KEYS \<and> (\<forall>e \<in> set es. se_value e \<noteq> JNull))"

lemma state_okD:
  "state_ok s \<Longrightarrow> case s k of None \<Rightarrow> True | Some (Single e) \<Rightarrow> k \<notin> set MULTI_STATE_KEYS
     | Some (Multi es) \<Rightarrow> k \<in> set MULTI_STATE_KEYS \<and> (\<forall>e \<in> set es. se_value e \<noteq> JNull)"
  unfolding state_ok_def by (drule spec)

lemma se_value_of [simp]: "se_value (state_entry_of t) = transition_value t"
  by (simp add: state_entry_of_def)

lemma holding_Nil [simp]: "\<not> holding k e []"
  by (simp add: holding_def)

lemma holding_snoc:
  "holding k e (ts @ [t]) \<longleftrightarrow> asserting k t \<and> e = state_entry_of t \<or> holding k e ts \<and> \<not> ending k (se_value e) t"
  (is "?l \<longleftrightarrow> ?r")
proof
  assume ?l
  then obtain xs u ys where u: "ts @ [t] = xs @ u # ys" "asserting k u" "e = state_entry_of u"
    "\<forall>w \<in> set ys. \<not> ending k (se_value e) w" unfolding holding_def by blast
  show ?r
  proof (cases ys rule: rev_cases)
    case Nil
    then show ?thesis using u by simp
  next
    case (snoc zs z)
    then have ts: "ts = xs @ u # zs" and z: "z = t" using u(1) by simp_all
    have "holding k e ts" unfolding holding_def
      by (rule exI [of _ xs], rule exI [of _ u], rule exI [of _ zs]) (use u ts snoc in simp)
    then show ?thesis using u snoc z by simp
  qed
next
  assume ?r
  then show ?l
  proof (elim disjE conjE)
    assume "asserting k t" "e = state_entry_of t"
    then show ?l unfolding holding_def by (intro exI [of _ ts] exI [of _ t] exI [of _ "[]"]) simp
  next
    assume "holding k e ts" and no: "\<not> ending k (se_value e) t"
    then obtain xs u ys where "ts = xs @ u # ys" "asserting k u" "e = state_entry_of u"
      "\<forall>w \<in> set ys. \<not> ending k (se_value e) w" unfolding holding_def by blast
    then show ?l using no unfolding holding_def
      by (intro exI [of _ xs] exI [of _ u] exI [of _ "ys @ [t]"]) auto
  qed
qed

lemma multi_entries_slot: "state_ok s \<Longrightarrow> k \<in> set MULTI_STATE_KEYS \<Longrightarrow> multi_entries s k = slot_entries (s k)"
  using state_okD [of s k] by (cases "s k" rule: slot_entries.cases) (simp_all add: multi_entries_def)

lemma slot_entries_multi [simp]: "slot_entries (if es = [] then None else Some (Multi es)) = es"
  by simp

lemma apply_other: "sr_key (fst t) \<noteq> k \<or> sr_scope (fst t) \<noteq> ''current'' \<Longrightarrow> apply_transition t s k = s k"
  unfolding apply_transition_def Let_def by auto

lemma apply_multi_set:
  assumes k: "k \<in> set MULTI_STATE_KEYS" "sr_key (fst t) = k" "sr_scope (fst t) = ''current''"
    and nn: "\<forall>e \<in> set es. se_value e \<noteq> JNull"
  shows "e \<in> set (apply_multi t es) \<longleftrightarrow>
    asserting k t \<and> e = state_entry_of t \<or> e \<in> set es \<and> \<not> ending k (se_value e) t"
  using assms unfolding apply_multi_def asserting_def ending_def other_values_def Let_def by auto

lemma apply_slot:
  assumes ok: "state_ok s"
  shows "e \<in> set (slot_entries (apply_transition t s k)) \<longleftrightarrow>
    asserting k t \<and> e = state_entry_of t \<or> e \<in> set (slot_entries (s k)) \<and> \<not> ending k (se_value e) t"
proof (cases "sr_key (fst t) = k \<and> sr_scope (fst t) = ''current''")
  case False
  then have "\<not> asserting k t" "\<not> ending k (se_value e) t" "apply_transition t s k = s k"
    by (auto simp: asserting_def ending_def apply_other)
  then show ?thesis by simp
next
  case True
  then have k: "sr_key (fst t) = k" and cur: "sr_scope (fst t) = ''current''" by simp_all
  show ?thesis
  proof (cases "k \<in> set MULTI_STATE_KEYS")
    case True
    have "apply_transition t s k = (let es = apply_multi t (multi_entries s k) in if es = [] then None else Some (Multi es))"
      using k cur True by (simp add: apply_transition_def Let_def)
    then have a: "slot_entries (apply_transition t s k) = apply_multi t (slot_entries (s k))"
      by (simp only: Let_def slot_entries_multi multi_entries_slot [OF ok True])
    have nn: "\<forall>e \<in> set (slot_entries (s k)). se_value e \<noteq> JNull"
      using state_okD [OF ok, of k] True by (cases "s k" rule: slot_entries.cases) simp_all
    show ?thesis unfolding a by (rule apply_multi_set [OF True k cur nn])
  next
    case False
    have s: "s k = None \<or> (\<exists>d. s k = Some (Single d))"
      using state_okD [OF ok, of k] False by (cases "s k" rule: slot_entries.cases) simp_all
    then show ?thesis using False k cur
      by (elim disjE exE) (auto simp: apply_transition_def Let_def asserting_def ending_def)
  qed
qed

lemma state_ok_step:
  assumes ok: "state_ok s"
  shows "state_ok (apply_transition t s)"
  unfolding state_ok_def
proof
  fix k
  let ?s = "apply_transition t s"
  note old = state_okD [OF ok, of k]
  show "case ?s k of None \<Rightarrow> True | Some (Single e) \<Rightarrow> k \<notin> set MULTI_STATE_KEYS
     | Some (Multi es) \<Rightarrow> k \<in> set MULTI_STATE_KEYS \<and> (\<forall>e \<in> set es. se_value e \<noteq> JNull)"
  proof (cases "sr_key (fst t) = k \<and> sr_scope (fst t) = ''current''")
    case False
    then have "?s k = s k" by (auto simp: apply_other)
    then show ?thesis using old by simp
  next
    case True
    show ?thesis
    proof (cases "k \<in> set MULTI_STATE_KEYS")
      case multi: True
      let ?es = "apply_multi t (multi_entries s k)"
      have "\<forall>e \<in> set (multi_entries s k). se_value e \<noteq> JNull"
        using old by (auto simp: multi_entries_def split: option.splits slot.splits)
      then have "\<forall>e \<in> set ?es. se_value e \<noteq> JNull"
        unfolding apply_multi_def other_values_def Let_def by auto
      moreover have "?s k = (if ?es = [] then None else Some (Multi ?es))"
        using True multi by (simp add: apply_transition_def Let_def)
      ultimately show ?thesis using multi by simp
    next
      case False
      have "?s k = s k \<or> ?s k = None \<or> (\<exists>d. ?s k = Some (Single d))"
        using True False by (auto simp: apply_transition_def Let_def)
      then show ?thesis using False old by auto
    qed
  qed
qed

lemma replay_snoc: "replay (ts @ [t]) = apply_transition t (replay ts)"
  by (simp add: replay_def)

lemma replay_ok: "state_ok (replay ts)"
  by (induction ts rule: rev_induct) (simp_all add: replay_snoc state_ok_step, simp add: replay_def state_ok_def)

lemma replay_holding: "e \<in> set (slot_entries (replay ts k)) \<longleftrightarrow> holding k e ts"
proof (induction ts rule: rev_induct)
  case Nil
  show ?case by (simp add: replay_def)
next
  case (snoc t ts)
  then show ?case by (simp add: replay_snoc apply_slot [OF replay_ok] holding_snoc)
qed

text \<open>Reconciliation keeps an entry unless it has expired or the entity is dead.\<close>

definition fresh :: "codex_settings \<Rightarrow> rat \<Rightarrow> string \<Rightarrow> state_entry \<Rightarrow> bool" where
  "fresh cfg c k e = (case map_of (state_max_ages cfg) k of None \<Rightarrow> True | Some a \<Rightarrow> c - se_chapter e \<le> of_int a)"

definition died :: "entity_state \<Rightarrow> bool" where
  "died s \<longleftrightarrow> value_is_dead (s ''life_status'')"

lemma expire_other: "k \<noteq> fst ka \<Longrightarrow> expire_key c ka s k = s k"
  by (simp add: expire_key_def Let_def split: option.splits slot.splits)

lemma expire_here:
  "e \<in> set (slot_entries (expire_key c (k, a) s k)) \<longleftrightarrow> e \<in> set (slot_entries (s k)) \<and> c - se_chapter e \<le> of_int a"
proof (cases "s k" rule: slot_entries.cases)
  case (3 es)
  have "expire_key c (k, a) s k =
      (if filter (\<lambda>e. c - se_chapter e \<le> of_int a) es = [] then None else Some (Multi (filter (\<lambda>e. c - se_chapter e \<le> of_int a) es)))"
    using 3 by (simp add: expire_key_def Let_def)
  then show ?thesis by (simp only: slot_entries_multi 3 slot_entries.simps(3)) auto
qed (auto simp: expire_key_def)

lemma expire_all:
  "distinct (map fst kas) \<Longrightarrow>
   e \<in> set (slot_entries (fold (expire_key c) kas s k)) \<longleftrightarrow>
   e \<in> set (slot_entries (s k)) \<and> (case map_of kas k of None \<Rightarrow> True | Some a \<Rightarrow> c - se_chapter e \<le> of_int a)"
proof (induction kas arbitrary: s)
  case (Cons ka kas)
  obtain j a where ka: "ka = (j, a)" by (cases ka)
  show ?case
  proof (cases "j = k")
    case True
    then have "map_of kas k = None" using Cons.prems ka by (auto simp: map_of_eq_None_iff)
    then show ?thesis using Cons.IH [of "expire_key c ka s"] Cons.prems True ka by (simp add: expire_here)
  next
    case False
    then show ?thesis using Cons.IH [of "expire_key c ka s"] Cons.prems ka by (simp add: expire_other)
  qed
qed simp

lemma expire_absent: "k \<notin> fst ` set kas \<Longrightarrow> fold (expire_key c) kas s k = s k"
proof (induction kas arbitrary: s)
  case (Cons ka kas)
  then show ?case by (simp add: expire_other)
qed simp

lemma drop_keys: "fold (\<lambda>k s. s(k := None)) ks s j = (if j \<in> set ks then None else s j)"
  by (induction ks arbitrary: s) auto

lemma reconcile_entries:
  "e \<in> set (slot_entries (reconcile_entity_state cfg c s k)) \<longleftrightarrow>
   e \<in> set (slot_entries (s k)) \<and> fresh cfg c k e \<and> \<not> (died s \<and> k \<in> set LIVING_KEYS)"
proof -
  have d: "distinct (map fst (state_max_ages cfg))" by (simp add: state_max_ages_def)
  have life: "fold (expire_key c) (state_max_ages cfg) s ''life_status'' = s ''life_status''"
    by (rule expire_absent) (simp add: state_max_ages_def)
  show ?thesis
    by (auto simp: reconcile_entity_state_def Let_def life died_def drop_keys fresh_def expire_all [OF d])
qed

text \<open>The current entries of an entity, read off the projection.\<close>

definition entries_at :: "(int \<rightharpoonup> entity_state) \<Rightarrow> int \<Rightarrow> string \<Rightarrow> state_entry list" where
  "entries_at st i k = (case st i of None \<Rightarrow> [] | Some s \<Rightarrow> slot_entries (s k))"

definition log_of :: "codex_settings \<Rightarrow> int \<Rightarrow> int list \<Rightarrow> rat \<Rightarrow> knowledge \<Rightarrow> int \<Rightarrow> transition list" where
  "log_of cfg nid ids c kb i = filter (\<lambda>t. sr_entity_id (fst t) = i) (transition_rows cfg nid ids c kb)"

definition dead_entry :: "state_entry \<Rightarrow> bool" where
  "dead_entry e = value_is_dead (Some (Single e))"

lemma dead_slot: "state_ok s \<Longrightarrow> died s \<longleftrightarrow> (\<exists>e \<in> set (slot_entries (s ''life_status'')). dead_entry e)"
proof -
  assume "state_ok s"
  from state_okD [OF this, of "''life_status''"] show ?thesis
    by (cases "s ''life_status''" rule: slot_entries.cases)
      (auto simp: died_def dead_entry_def value_is_dead_def MULTI_STATE_KEYS_def)
qed

text \<open>C6: The state a reader sees of an entity is exactly what the log of its transitions up to the ceiling says: an entry of a
  key is shown if and only if some transition asserted it, no later transition of the log overwrote, cleared or retracted it, it is not
  older than the key's maximal age, and the key is not one that ends with a confirmed death.\<close>

theorem current_state_last_writer:
  "e \<in> set (entries_at (current_entity_state cfg nid ids c kb) i k) \<longleftrightarrow>
     holding k e (log_of cfg nid ids c kb i) \<and> fresh cfg c k e \<and>
     \<not> (k \<in> set LIVING_KEYS \<and> (\<exists>d. holding ''life_status'' d (log_of cfg nid ids c kb i) \<and> dead_entry d))"
proof (cases "\<exists>t \<in> set (transition_rows cfg nid ids c kb). sr_entity_id (fst t) = i")
  case True
  then have "entries_at (current_entity_state cfg nid ids c kb) i k =
      slot_entries (reconcile_entity_state cfg c (replay (log_of cfg nid ids c kb i)) k)"
    by (simp add: entries_at_def current_entity_state_def Let_def log_of_def)
  then show ?thesis
    by (auto simp: reconcile_entries replay_holding dead_slot [OF replay_ok])
next
  case False
  then have "log_of cfg nid ids c kb i = []" unfolding log_of_def by (auto simp: filter_empty_conv)
  then show ?thesis using False by (simp add: entries_at_def current_entity_state_def Let_def)
qed

section \<open>Checkpoints partition a part\<close>

definition checkpoints :: "memory_shape \<Rightarrow> memory_target list" where
  "checkpoints s = (case s of NotNarrative _ \<Rightarrow> [] | Narrative _ _ ts _ _ _ \<Rightarrow> filter (\<lambda>t. mt_kind t = ''checkpoint'') ts)"

text \<open>All checkpoints of a part, in the order in which the extraction of its chapters emits them.\<close>

definition part_checkpoints :: "codex_settings \<Rightarrow> string \<Rightarrow> string \<Rightarrow> rat list \<Rightarrow> memory_target list" where
  "part_checkpoints cfg kind p xs = concat (map (\<lambda>n. checkpoints (chapter_memory_shape cfg n
     (Some \<lparr>me_kind = Some kind, me_part_label = Some p, me_part_chapters = xs\<rparr>))) xs)"

lemma index_of_nth: "distinct xs \<Longrightarrow> i < length xs \<Longrightarrow> index_of (xs ! i) xs = Some i"
proof (induction xs arbitrary: i)
  case (Cons x xs)
  then show ?case by (cases i) auto
qed simp

lemma checkpoint_width_pos [simp]: "0 < checkpoint_width cfg"
  by (simp add: checkpoint_width_def)

definition block_of :: "nat \<Rightarrow> string \<Rightarrow> rat list \<Rightarrow> nat \<Rightarrow> memory_target" where
  "block_of w p xs i = \<lparr>mt_kind = ''checkpoint'', mt_start = xs ! (i div w * w), mt_end = xs ! i, mt_through = xs ! i,
     mt_part_label = Some p, mt_covered = drop (i div w * w) (take (i + 1) xs)\<rparr>"

lemma block_of_ok:
  assumes "0 < w" "i < length xs"
  shows "length (mt_covered (block_of w p xs i)) = i mod w + 1" "mt_covered (block_of w p xs i) \<noteq> []"
    "hd (mt_covered (block_of w p xs i)) = mt_start (block_of w p xs i)"
    "last (mt_covered (block_of w p xs i)) = mt_end (block_of w p xs i)"
    "last (mt_covered (block_of w p xs i)) = mt_through (block_of w p xs i)"
proof -
  have d: "i div w * w \<le> i" by simp
  have m: "i - i div w * w = i mod w" by (simp add: modulo_nat_def)
  show l: "length (mt_covered (block_of w p xs i)) = i mod w + 1" using assms m by (simp add: block_of_def Suc_diff_le [OF d])
  then show ne: "mt_covered (block_of w p xs i) \<noteq> []" by auto
  have lt: "i div w * w < length (take (i + 1) xs)" using assms(2) d by (auto simp only: length_take min_less_iff_conj)
  have "hd (drop (i div w * w) (take (i + 1) xs)) = xs ! (i div w * w)"
    using hd_drop_conv_nth [OF lt] d by (simp only: nth_take le_imp_less_Suc Suc_eq_plus1 [symmetric])
  then show "hd (mt_covered (block_of w p xs i)) = mt_start (block_of w p xs i)" by (simp add: block_of_def)
  have "last (drop (i div w * w) (take (i + 1) xs)) = last (take (i + 1) xs)"
    by (rule last_drop [OF lt])
  also have "\<dots> = xs ! i" using assms by (simp add: take_Suc_conv_app_nth)
  finally show "last (mt_covered (block_of w p xs i)) = mt_end (block_of w p xs i)"
    "last (mt_covered (block_of w p xs i)) = mt_through (block_of w p xs i)" by (simp_all add: block_of_def)
qed

lemma cover_at:
  assumes "distinct xs" "i < length xs" "k \<in> set MEMORY_KINDS" "p \<noteq> []"
  shows "checkpoints (chapter_memory_shape cfg (xs ! i) (Some \<lparr>me_kind = Some k, me_part_label = Some p, me_part_chapters = xs\<rparr>)) =
    (if Suc i mod checkpoint_width cfg = 0 \<or> i = length xs - 1 then [block_of (checkpoint_width cfg) p xs i] else [])"
proof -
  let ?w = "checkpoint_width cfg"
  have a: "i = i div ?w * ?w + i mod ?w" by simp
  have m: "i mod ?w < ?w" by simp
  have "i = i div ?w * ?w + ?w - 1 \<longleftrightarrow> i mod ?w = ?w - 1" using a m by linarith
  also have "\<dots> \<longleftrightarrow> Suc i mod ?w = 0" using m by (auto simp: mod_Suc)
  finally have e: "i = i div ?w * ?w + ?w - 1 \<longleftrightarrow> Suc i mod ?w = 0" .
  have "Suc i mod ?w = 0 \<or> i = length xs - 1 \<Longrightarrow> min (i div ?w * ?w + ?w - 1) (length xs - 1) = i"
    using e a m assms(2) by linarith
  moreover have "or_chapter (Some k) = k" using assms(3) by (auto simp: or_chapter_def MEMORY_KINDS_def)
  ultimately show ?thesis using assms e
    by (auto simp: chapter_memory_shape_def Let_def index_of_nth checkpoints_def memory_targets_def block_of_def)
qed

lemma part_checkpoints_blocks:
  assumes "distinct xs" "k \<in> set MEMORY_KINDS" "p \<noteq> []"
  shows "part_checkpoints cfg k p xs = concat (map (\<lambda>i. if Suc i mod checkpoint_width cfg = 0 \<or> i = length xs - 1
      then [block_of (checkpoint_width cfg) p xs i] else []) [0..<length xs])"
proof -
  let ?c = "\<lambda>n. checkpoints (chapter_memory_shape cfg n (Some \<lparr>me_kind = Some k, me_part_label = Some p, me_part_chapters = xs\<rparr>))"
  have "map ?c xs = map (\<lambda>i. ?c (xs ! i)) [0..<length xs]" by (rule nth_equalityI) simp_all
  also have "\<dots> = map (\<lambda>i. if Suc i mod checkpoint_width cfg = 0 \<or> i = length xs - 1
      then [block_of (checkpoint_width cfg) p xs i] else []) [0..<length xs]"
    by (rule map_cong [OF refl]) (simp add: cover_at [OF assms(1) _ assms(2,3)])
  finally show ?thesis by (simp only: part_checkpoints_def)
qed

lemma cover_prefix:
  fixes w :: nat
  assumes w: "0 < w" and k: "k < length xs"
  shows "concat (map (\<lambda>i. if Suc i mod w = 0 \<or> i = length xs - 1 then drop (i div w * w) (take (i + 1) xs) else []) [0..<k]) =
    take (k div w * w) xs"
  using k
proof (induction k)
  case (Suc k)
  have d: "k div w * w \<le> k" by simp
  show ?case
  proof (cases "Suc k mod w = 0")
    case True
    then have s: "Suc k div w * w = Suc k" by (metis add_0_right div_mult_mod_eq)
    have "take (k div w * w) xs @ drop (k div w * w) (take (Suc k) xs) = take (Suc k) xs"
      using append_take_drop_id [of "k div w * w" "take (Suc k) xs"] d by (simp add: min_def)
    then show ?thesis using Suc True s by simp
  next
    case False
    then have "Suc k div w = k div w" by (simp add: div_Suc)
    moreover have "k \<noteq> length xs - 1" using Suc.prems by simp
    ultimately show ?thesis using Suc False by simp
  qed
qed simp

text \<open>C27: The checkpoints emitted while the chapters of a labelled part are extracted partition the part: their covered chapters,
  in the order of emission, are the chapters of the part, each exactly once; every checkpoint covers at least one chapter and at most
  the configured number (at least one), every one but the last exactly that number; and it starts with its first covered
  chapter, ends with its last one and is emitted while that one is extracted.\<close>

theorem checkpoints_partition_part:
  assumes "distinct xs" "kind \<in> set MEMORY_KINDS" "p \<noteq> []"
  shows "concat (map mt_covered (part_checkpoints cfg kind p xs)) = xs \<and>
    (\<forall>t \<in> set (part_checkpoints cfg kind p xs). mt_covered t \<noteq> [] \<and>
      int (length (mt_covered t)) \<le> max 1 (ks_checkpoint_chapters cfg) \<and>
      mt_start t = hd (mt_covered t) \<and> mt_end t = last (mt_covered t) \<and> mt_through t = last (mt_covered t)) \<and>
    (\<forall>t \<in> set (butlast (part_checkpoints cfg kind p xs)). int (length (mt_covered t)) = max 1 (ks_checkpoint_chapters cfg))"
proof (cases xs rule: rev_cases)
  case (snoc ys y)
  let ?w = "checkpoint_width cfg"
  let ?b = "\<lambda>i. if Suc i mod ?w = 0 \<or> i = length xs - 1 then [block_of ?w p xs i] else []"
  let ?n = "length ys"
  have n: "length xs = Suc ?n" using snoc by simp
  have w: "int ?w = max 1 (ks_checkpoint_chapters cfg)" by (simp add: checkpoint_width_def)
  have ts: "part_checkpoints cfg kind p xs = concat (map ?b [0..<?n]) @ [block_of ?w p xs ?n]"
    by (simp add: part_checkpoints_blocks [OF assms] n)
  have "concat (map mt_covered (concat (map ?b is))) =
      concat (map (\<lambda>i. if Suc i mod ?w = 0 \<or> i = length xs - 1 then drop (i div ?w * ?w) (take (i + 1) xs) else []) is)" for "is"
    by (induction "is") (auto simp: block_of_def)
  then have "concat (map mt_covered (part_checkpoints cfg kind p xs)) = take (?n div ?w * ?w) xs @ drop (?n div ?w * ?w) xs"
    using cover_prefix [of ?w ?n xs] n by (simp add: ts block_of_def)
  moreover have "mt_covered t \<noteq> [] \<and> int (length (mt_covered t)) \<le> int ?w \<and>
      mt_start t = hd (mt_covered t) \<and> mt_end t = last (mt_covered t) \<and> mt_through t = last (mt_covered t)"
    if t: "t \<in> set (part_checkpoints cfg kind p xs)" for t
  proof -
    have "t \<in> block_of ?w p xs ` {..?n}" using t by (auto simp: ts split: if_splits)
    then obtain i where i: "t = block_of ?w p xs i" "i \<in> {..?n}" by (rule imageE)
    then have l: "i < length xs" using n by simp
    have "i mod ?w + 1 \<le> ?w" by (metis Suc_eq_plus1 Suc_leI checkpoint_width_pos mod_less_divisor)
    with block_of_ok [OF checkpoint_width_pos l, of cfg p] show ?thesis unfolding i(1) by simp
  qed
  moreover have "length (mt_covered t) = ?w" if t: "t \<in> set (butlast (part_checkpoints cfg kind p xs))" for t
  proof -
    have "t \<in> block_of ?w p xs ` {i. i < ?n \<and> Suc i mod ?w = 0}" using t n by (auto simp: ts split: if_splits)
    then obtain i where i: "t = block_of ?w p xs i" "i \<in> {i. i < ?n \<and> Suc i mod ?w = 0}" by (rule imageE)
    then have l: "i < length xs" "Suc i mod ?w = 0" using n by simp_all
    from l(2) have "i mod ?w + 1 = ?w" by (simp add: mod_Suc split: if_splits)
    with block_of_ok(1) [OF checkpoint_width_pos l(1), of cfg p] show ?thesis unfolding i(1) by simp
  qed
  ultimately show ?thesis unfolding w [symmetric] by simp
qed (simp add: part_checkpoints_def)

theorem checkpoints_partition_part_witness:
  "concat (map mt_covered (part_checkpoints
       \<lparr>ks_condition_age = 30, ks_custody_age = 50, ks_goal_age = 75, ks_occupation_age = 100, ks_location_age = 100,
        ks_pipeline_version = ''2.1'', ks_max_facts = 200, ks_max_relationships = 120, ks_max_timeline = 250, ks_max_entities = 200,
        ks_max_threads = 10, ks_checkpoint_chapters = 2, ks_fuzzy_match = 35/100, ks_fuzzy_accept = 6/10, ks_semantic_match = 85/100\<rparr>
       ''chapter'' ''I'' [1, 3/2, 4])) = [1, 3/2, 4]"
  by (rule checkpoints_partition_part [THEN conjunct1]) (simp_all add: MEMORY_KINDS_def)

end
