(* ===== verification/Codex_Personas.thy ===== *)
theory Codex_Personas
  imports Codex_Memory "HOL-Library.List_Lexorder"
begin

text \<open>
  The read tools of \<open>retrieval/tools.py\<close> over the knowledge tables: connected personas, resolution of
  a name, profile, relationships, identity links, timeline and listing. The trigram \<open>similarity\<close> and
  the pattern operator \<open>ILIKE\<close> of PostgreSQL are arguments; text sorts by code points. The last section
  shows that below a ceiling the tools see nothing of what lies above it.
\<close>

section \<open>Connected personas\<close>

definition visible_entity :: "int \<Rightarrow> rat \<Rightarrow> knowledge \<Rightarrow> int \<Rightarrow> bool" where
  "visible_entity nid c kb i \<longleftrightarrow> (\<exists>e \<in> set (kb_entities kb). en_id e = i \<and> en_novel_id e = nid \<and> en_first_seen e \<le> c)"

definition other_end :: "link_row \<Rightarrow> int \<Rightarrow> int" where
  "other_end l i = (if li_a l = i then li_b l else li_a l)"

definition neighbours :: "int \<Rightarrow> rat \<Rightarrow> knowledge \<Rightarrow> int \<Rightarrow> int list" where
  "neighbours nid c kb i =
     filter (visible_entity nid c kb) (map (\<lambda>l. other_end l i)
       (filter (\<lambda>l. (li_a l = i \<or> li_b l = i) \<and> li_revealed l \<le> c \<and> li_novel_id l = nid) (kb_links kb)))"

text \<open>The evaluation of \<open>WITH RECURSIVE ... UNION\<close>: the working table holds the rows the last round added.\<close>

function cte_loop :: "int \<Rightarrow> rat \<Rightarrow> knowledge \<Rightarrow> int list \<Rightarrow> int list \<Rightarrow> int list" where
  "cte_loop nid c kb found working =
     (if working = [] then found
      else let new = remdups (filter (\<lambda>i. i \<notin> set found) (concat (map (neighbours nid c kb) working)))
           in cte_loop nid c kb (found @ new) new)"
  by pat_completeness auto

lemma visible_known: "visible_entity nid c kb i \<Longrightarrow> i \<in> en_id ` set (kb_entities kb)"
  by (auto simp: visible_entity_def)

lemma neighbours_known: "j \<in> set (neighbours nid c kb i) \<Longrightarrow> j \<in> en_id ` set (kb_entities kb)"
  by (rule visible_known [of nid c]) (simp add: neighbours_def)

termination cte_loop
proof (relation "measure (\<lambda>(nid, c, kb, found, working).
    2 * card (en_id ` set (kb_entities kb) - set found) + (if working = [] then 0 else 1))")
  fix nid c kb found and working new :: "int list"
  assume w: "working \<noteq> []" and new: "new = remdups (filter (\<lambda>i. i \<notin> set found) (concat (map (neighbours nid c kb) working)))"
  let ?ids = "en_id ` set (kb_entities kb)"
  have sub: "set new \<subseteq> ?ids - set found" using neighbours_known by (fastforce simp: new)
  show "((nid, c, kb, found @ new, new), nid, c, kb, found, working) \<in> measure (\<lambda>(nid, c, kb, found, working).
    2 * card (en_id ` set (kb_entities kb) - set found) + (if working = [] then 0 else 1))"
  proof (cases "new = []")
    case True
    then show ?thesis using w by simp
  next
    case False
    then have "?ids - set (found @ new) \<subset> ?ids - set found" using sub by (cases new) auto
    then have "card (?ids - set (found @ new)) < card (?ids - set found)" by (intro psubset_card_mono) simp
    then show ?thesis using w by simp
  qed
qed simp

declare cte_loop.simps [simp del]

definition get_connected_personas :: "int \<Rightarrow> int \<Rightarrow> rat \<Rightarrow> knowledge \<Rightarrow> int list" where
  "get_connected_personas nid i c kb = (let base = (if visible_entity nid c kb i then [i] else []) in cte_loop nid c kb base base)"

section \<open>Resolving a name\<close>

record resolved_entity =
  rz_id :: int
  rz_name :: string
  rz_type :: string
  rz_first_seen :: rat
  rz_linked :: "int list"

definition seen_in :: "int \<Rightarrow> rat \<Rightarrow> entity_row \<Rightarrow> bool" where
  "seen_in nid c e \<longleftrightarrow> en_first_seen e \<le> c \<and> en_novel_id e = nid"

definition known_alias :: "rat \<Rightarrow> knowledge \<Rightarrow> (string \<Rightarrow> bool) \<Rightarrow> entity_row \<Rightarrow> bool" where
  "known_alias c kb p e \<longleftrightarrow> (\<exists>a \<in> set (kb_aliases kb). al_entity_id a = en_id e \<and> al_revealed a \<le> c \<and> p (al_alias a))"

definition same_name :: "string \<Rightarrow> string \<Rightarrow> bool" where
  "same_name a b = (py_lower a = py_lower b)"

definition exact_matches :: "codex_settings \<Rightarrow> int \<Rightarrow> string \<Rightarrow> rat \<Rightarrow> knowledge \<Rightarrow> entity_row list" where
  "exact_matches cfg nid nm c kb =
     take (ks_max_entities cfg) (sort_key en_id
       (filter (\<lambda>e. (same_name (en_name e) nm \<or> known_alias c kb (same_name nm) e) \<and> seen_in nid c e) (kb_entities kb)))"

definition fuzzy_matches :: "(string \<Rightarrow> string \<Rightarrow> rat) \<Rightarrow> int \<Rightarrow> string \<Rightarrow> rat \<Rightarrow> knowledge \<Rightarrow> entity_row list" where
  "fuzzy_matches sim nid nm c kb =
     take 5 (sort_key (\<lambda>e. - sim (en_name e) nm)
       (filter (\<lambda>e. (sim (en_name e) nm > 3 / 10 \<or> known_alias c kb (\<lambda>a. sim a nm > 3 / 10) e) \<and> seen_in nid c e)
         (kb_entities kb)))"

definition resolve_entity ::
  "codex_settings \<Rightarrow> (string \<Rightarrow> string \<Rightarrow> rat) \<Rightarrow> int \<Rightarrow> string \<Rightarrow> rat \<Rightarrow> knowledge \<Rightarrow> resolved_entity list" where
  "resolve_entity cfg sim nid nm c kb =
     (let q = py_strip nm in
      if q = [] then []
      else let exact = exact_matches cfg nid q c kb; rows = (if exact = [] then fuzzy_matches sim nid q c kb else exact) in
        map (\<lambda>e. \<lparr>rz_id = en_id e, rz_name = en_name e, rz_type = en_type e, rz_first_seen = en_first_seen e,
          rz_linked = get_connected_personas nid (en_id e) c kb\<rparr>) rows)"

section \<open>Profile\<close>

definition code_points :: "string \<Rightarrow> nat list" where
  "code_points s = map of_char s"

text \<open>The code points of \<open>str.casefold\<close> below 256: the micro sign and the sharp s leave the range.\<close>

definition casefold_points :: "string \<Rightarrow> nat list" where
  "casefold_points s = concat (map (\<lambda>ch. if of_char ch = (223 :: nat) then [115, 115]
     else if of_char ch = (181 :: nat) then [956] else [of_char (lower_char ch)]) s)"

definition latest_description :: "rat \<Rightarrow> knowledge \<Rightarrow> entity_row \<Rightarrow> string option" where
  "latest_description c kb e =
     (case sql_first (\<lambda>d. - de_chapter d) (filter (\<lambda>d. de_entity_id d = en_id e \<and> de_chapter d \<le> c) (kb_descriptions kb)) of
        None \<Rightarrow> en_description e | Some d \<Rightarrow> Some (de_text d))"

record open_thread =
  ot_id :: int
  ot_title :: string
  ot_update :: thread_update_row

definition latest_update :: "codex_settings \<Rightarrow> int \<Rightarrow> rat \<Rightarrow> knowledge \<Rightarrow> int \<Rightarrow> thread_update_row option" where
  "latest_update cfg nid c kb t =
     sql_first (\<lambda>u. (- tu_chapter u, - tu_id u)) (filter (\<lambda>u. tu_thread_id u = t \<and> tu_novel_id u = nid \<and> tu_chapter u \<le> c \<and>
       tu_version u = ks_pipeline_version cfg) (kb_thread_updates kb))"

definition open_thread_of :: "codex_settings \<Rightarrow> int \<Rightarrow> int list \<Rightarrow> rat \<Rightarrow> knowledge \<Rightarrow> thread_row \<Rightarrow> open_thread option" where
  "open_thread_of cfg nid ids c kb t =
     (if th_novel_id t = nid \<and> th_version t = ks_pipeline_version cfg
      then (case latest_update cfg nid c kb (th_id t) of
          None \<Rightarrow> None
        | Some u \<Rightarrow> if set (tu_participants u) \<inter> set ids \<noteq> {} \<and> tu_operation u \<notin> {''resolve'', ''mark_dormant''}
            then Some \<lparr>ot_id = th_id t, ot_title = th_title t, ot_update = u\<rparr> else None)
      else None)"

definition open_threads :: "codex_settings \<Rightarrow> int \<Rightarrow> int list \<Rightarrow> rat \<Rightarrow> knowledge \<Rightarrow> open_thread list" where
  "open_threads cfg nid ids c kb =
     take (ks_max_threads cfg) (sort_key (\<lambda>o1. - tu_chapter (ot_update o1))
       (List.map_filter (open_thread_of cfg nid ids c kb) (kb_threads kb)))"

record profile =
  pf_id :: int
  pf_name :: string
  pf_type :: string
  pf_description :: "string option"
  pf_first_seen :: rat
  pf_aliases :: "string list"
  pf_facts :: "fact_row list"
  pf_linked :: "int list"
  pf_state :: "int \<rightharpoonup> entity_state"
  pf_relationship_state :: "relation_view list"
  pf_threads :: "open_thread list"

definition facts_of :: "codex_settings \<Rightarrow> nat \<Rightarrow> int \<Rightarrow> int list \<Rightarrow> rat \<Rightarrow> knowledge \<Rightarrow> fact_row list" where
  "facts_of cfg n nid ids c kb =
     take n (sort_key (\<lambda>f. (- fa_chapter f, - fa_id f))
       (filter (\<lambda>f. fa_entity_id f \<in> set ids \<and> fa_chapter f \<le> c \<and> fa_novel_id f = nid) (kb_facts kb)))"

definition aliases_of :: "int \<Rightarrow> int list \<Rightarrow> rat \<Rightarrow> knowledge \<Rightarrow> string list" where
  "aliases_of nid ids c kb =
     sort_key casefold_points (remdups (map al_alias
       (take 200 (sort_key (\<lambda>a. (- al_revealed a, code_points (al_alias a)))
         (filter (\<lambda>a. al_entity_id a \<in> set ids \<and> al_revealed a \<le> c \<and> al_novel_id a = nid) (kb_aliases kb))))))"

definition get_entity_profile :: "codex_settings \<Rightarrow> int \<Rightarrow> int \<Rightarrow> rat \<Rightarrow> knowledge \<Rightarrow> profile option" where
  "get_entity_profile cfg nid i c kb =
     (case find (\<lambda>e. en_id e = i \<and> seen_in nid c e) (kb_entities kb) of
        None \<Rightarrow> None
      | Some e \<Rightarrow>
          let ids = get_connected_personas nid i c kb in
          Some \<lparr>pf_id = en_id e, pf_name = en_name e, pf_type = en_type e, pf_description = latest_description c kb e,
            pf_first_seen = en_first_seen e, pf_aliases = aliases_of nid ids c kb,
            pf_facts = rev (facts_of cfg (ks_max_facts cfg) nid ids c kb), pf_linked = ids,
            pf_state = current_entity_state cfg nid ids c kb,
            pf_relationship_state = current_relationship_state cfg nid ids c False kb,
            pf_threads = open_threads cfg nid ids c kb\<rparr>)"

section \<open>Relationships, identities, timeline, listing\<close>

record relationship_view =
  rw_row :: relationship_row
  rw_source_name :: string
  rw_source_type :: string
  rw_target_name :: string
  rw_target_type :: string

definition seen_entity :: "int \<Rightarrow> rat \<Rightarrow> knowledge \<Rightarrow> int \<Rightarrow> entity_row option" where
  "seen_entity nid c kb i = find (\<lambda>e. en_id e = i \<and> seen_in nid c e) (kb_entities kb)"

definition relationship_view_of :: "int \<Rightarrow> rat \<Rightarrow> knowledge \<Rightarrow> relationship_row \<Rightarrow> relationship_view option" where
  "relationship_view_of nid c kb r =
     (case (seen_entity nid c kb (rl_source r), seen_entity nid c kb (rl_target r)) of
        (Some a, Some b) \<Rightarrow> Some \<lparr>rw_row = r, rw_source_name = en_name a, rw_source_type = en_type a,
          rw_target_name = en_name b, rw_target_type = en_type b\<rparr>
      | _ \<Rightarrow> None)"

definition relationship_rows ::
  "codex_settings \<Rightarrow> int \<Rightarrow> (relationship_row \<Rightarrow> bool) \<Rightarrow> rat \<Rightarrow> knowledge \<Rightarrow> relationship_view list" where
  "relationship_rows cfg nid p c kb =
     rev (take (ks_max_relationships cfg) (sort_key (\<lambda>v. (- rl_chapter (rw_row v), - rl_id (rw_row v)))
       (List.map_filter (\<lambda>r. if p r \<and> rl_chapter r \<le> c \<and> rl_novel_id r = nid then relationship_view_of nid c kb r else None)
         (kb_relationships kb))))"

definition get_relationships ::
  "codex_settings \<Rightarrow> int \<Rightarrow> int \<Rightarrow> rat \<Rightarrow> int option \<Rightarrow> knowledge \<Rightarrow> relationship_view list" where
  "get_relationships cfg nid i c other kb =
     (let ids = get_connected_personas nid i c kb in
      if ids = [] then []
      else if coalesce other 0 \<noteq> 0 then
        (let others = get_connected_personas nid (coalesce other 0) c kb in
         if others = [] then []
         else relationship_rows cfg nid (\<lambda>r. rl_source r \<in> set ids \<and> rl_target r \<in> set others \<or>
             rl_source r \<in> set others \<and> rl_target r \<in> set ids) c kb)
      else relationship_rows cfg nid (\<lambda>r. rl_source r \<in> set ids \<or> rl_target r \<in> set ids) c kb)"

record identity_view =
  iv_id :: "int option"
  iv_other_id :: int
  iv_other_name :: string
  iv_other_type :: string
  iv_revealed :: rat
  iv_note :: "string option"

definition first_link :: "int \<Rightarrow> rat \<Rightarrow> knowledge \<Rightarrow> int \<Rightarrow> link_row option" where
  "first_link nid c kb j = sql_first li_revealed
     (filter (\<lambda>l. (li_a l = j \<or> li_b l = j) \<and> li_revealed l \<le> c \<and> li_novel_id l = nid) (kb_links kb))"

definition identity_view_of :: "int \<Rightarrow> rat \<Rightarrow> knowledge \<Rightarrow> int \<Rightarrow> identity_view option" where
  "identity_view_of nid c kb j =
     map_option (\<lambda>e. \<lparr>iv_id = map_option li_id (first_link nid c kb j), iv_other_id = j, iv_other_name = en_name e,
         iv_other_type = en_type e, iv_revealed = (case first_link nid c kb j of None \<Rightarrow> c | Some l \<Rightarrow> li_revealed l),
         iv_note = Option.bind (first_link nid c kb j) li_note\<rparr>) (seen_entity nid c kb j)"

definition get_identity_links :: "int \<Rightarrow> int \<Rightarrow> rat \<Rightarrow> knowledge \<Rightarrow> identity_view list" where
  "get_identity_links nid i c kb =
     List.map_filter (identity_view_of nid c kb) (filter (\<lambda>j. j \<noteq> i) (get_connected_personas nid i c kb))"

record timeline_item =
  tl_id :: int
  tl_chapter :: rat
  tl_kind :: string
  tl_label :: string
  tl_content :: "string option"

definition fact_item :: "fact_row \<Rightarrow> timeline_item" where
  "fact_item f = \<lparr>tl_id = fa_id f, tl_chapter = fa_chapter f, tl_kind = ''fact'',
     tl_label = ''Fact ('' @ coalesce (fa_type f) ''None'' @ '')'', tl_content = Some (fa_content f)\<rparr>"

definition event_item :: "event_row \<Rightarrow> timeline_item" where
  "event_item e = \<lparr>tl_id = ev_id e, tl_chapter = ev_chapter e, tl_kind = ''event'', tl_label = ''Event'',
     tl_content = ev_description e\<rparr>"

definition involves :: "int list \<Rightarrow> event_row \<Rightarrow> bool" where
  "involves ids e \<longleftrightarrow> (case ev_participants e of None \<Rightarrow> False | Some ps \<Rightarrow> set ps \<inter> set ids \<noteq> {}) \<or>
     (case ev_location e of None \<Rightarrow> False | Some l \<Rightarrow> l \<in> set ids)"

text \<open>\<open>xs[-n:]\<close>; for \<open>n = 0\<close> this is the whole list.\<close>

definition last_n :: "nat \<Rightarrow> 'a list \<Rightarrow> 'a list" where
  "last_n n xs = (if n = 0 then xs else drop (length xs - n) xs)"

definition get_timeline :: "codex_settings \<Rightarrow> int \<Rightarrow> int \<Rightarrow> rat \<Rightarrow> knowledge \<Rightarrow> timeline_item list" where
  "get_timeline cfg nid i c kb =
     (let ids = get_connected_personas nid i c kb; n = ks_max_timeline cfg in
      if ids = [] then []
      else last_n n (sort_key (\<lambda>x. (tl_chapter x, tl_id x))
        (map fact_item (facts_of cfg n nid ids c kb) @
         map event_item (take n (sort_key (\<lambda>e. (- ev_chapter e, - ev_id e))
           (filter (\<lambda>e. involves ids e \<and> ev_chapter e \<le> c \<and> ev_novel_id e = nid) (kb_events kb)))))))"

record listed_entity =
  lx_id :: int
  lx_name :: string
  lx_type :: string
  lx_description :: "string option"
  lx_first_seen :: rat

definition list_entities ::
  "codex_settings \<Rightarrow> (string \<Rightarrow> string \<Rightarrow> bool) \<Rightarrow> int \<Rightarrow> rat \<Rightarrow> string option \<Rightarrow> string option \<Rightarrow> knowledge \<Rightarrow> listed_entity list" where
  "list_entities cfg ilike nid c typ q kb =
     map (\<lambda>e. \<lparr>lx_id = en_id e, lx_name = en_name e, lx_type = en_type e, lx_description = latest_description c kb e,
         lx_first_seen = en_first_seen e\<rparr>)
       (take (ks_max_entities cfg) (sort_key (\<lambda>e. code_points (en_name e))
         (filter (\<lambda>e. seen_in nid c e \<and> (coalesce typ [] \<noteq> [] \<longrightarrow> en_type e = coalesce typ []) \<and>
             (coalesce q [] \<noteq> [] \<longrightarrow>
               ilike (en_name e) (''%'' @ coalesce q [] @ ''%'') \<or>
               (\<exists>a \<in> set (kb_aliases kb). al_entity_id a = en_id e \<and> ilike (al_alias a) (''%'' @ coalesce q [] @ ''%'') \<and>
                  al_revealed a \<le> c \<and> al_novel_id a = nid)))
           (kb_entities kb))))"

section \<open>The recursive query computes the closure\<close>

text \<open>The meaning of the query: personas of one being are connected by links revealed up to the ceiling, through
  entities of the novel seen up to it.\<close>

inductive persona :: "int \<Rightarrow> rat \<Rightarrow> knowledge \<Rightarrow> int \<Rightarrow> int \<Rightarrow> bool" for nid c kb i where
  persona_self: "visible_entity nid c kb i \<Longrightarrow> persona nid c kb i i"
| persona_link: "persona nid c kb i j \<Longrightarrow> l \<in> set (kb_links kb) \<Longrightarrow> li_novel_id l = nid \<Longrightarrow> li_revealed l \<le> c \<Longrightarrow>
    li_a l = j \<and> li_b l = k \<or> li_b l = j \<and> li_a l = k \<Longrightarrow> visible_entity nid c kb k \<Longrightarrow> persona nid c kb i k"

lemma in_neighbours:
  "k \<in> set (neighbours nid c kb j) \<longleftrightarrow>
   (\<exists>l \<in> set (kb_links kb). li_novel_id l = nid \<and> li_revealed l \<le> c \<and> (li_a l = j \<and> li_b l = k \<or> li_b l = j \<and> li_a l = k)) \<and>
   visible_entity nid c kb k"
  by (auto simp: neighbours_def other_end_def)

lemma neighbours_sym: "k \<in> set (neighbours nid c kb j) \<Longrightarrow> visible_entity nid c kb j \<Longrightarrow> j \<in> set (neighbours nid c kb k)"
  by (auto simp: in_neighbours)

lemma persona_next: "persona nid c kb i j \<Longrightarrow> k \<in> set (neighbours nid c kb j) \<Longrightarrow> persona nid c kb i k"
  by (auto simp: in_neighbours intro: persona_link)

lemma persona_visible: "persona nid c kb i j \<Longrightarrow> visible_entity nid c kb i \<and> visible_entity nid c kb j"
  by (induction rule: persona.induct) simp_all

lemma persona_induct_next [consumes 1, case_names self more]:
  assumes "persona nid c kb i j" "visible_entity nid c kb i \<Longrightarrow> P i"
    "\<And>j k. persona nid c kb i j \<Longrightarrow> P j \<Longrightarrow> k \<in> set (neighbours nid c kb j) \<Longrightarrow> P k"
  shows "P j"
  using assms(1)
proof (induction rule: persona.induct)
  case (persona_link j l k)
  have "k \<in> set (neighbours nid c kb j)" unfolding in_neighbours using persona_link.hyps by blast
  then show ?case by (rule assms(3) [OF persona_link.hyps(1) persona_link.IH])
qed (use assms(2) in simp)

lemma persona_trans: "persona nid c kb i j \<Longrightarrow> persona nid c kb j k \<Longrightarrow> persona nid c kb i k"
  by (rotate_tac 1, erule persona.induct) (auto intro: persona_link)

lemma persona_sym: "persona nid c kb i j \<Longrightarrow> persona nid c kb j i"
proof (induction rule: persona.induct)
  case (persona_link j l k)
  have "persona nid c kb k j"
    using persona_self [OF persona_link.hyps(6)] persona_link.hyps(2-5) persona_visible [OF persona_link.hyps(1)]
    by (auto intro: persona.persona_link)
  then show ?case using persona_link.IH by (rule persona_trans)
qed (rule persona_self)

lemma cte_loop_closure:
  assumes "set working \<subseteq> set found" "distinct found"
    and "\<And>i. i \<in> set found - set working \<Longrightarrow> set (neighbours nid c kb i) \<subseteq> set found"
  shows "set found \<subseteq> set (cte_loop nid c kb found working) \<and> distinct (cte_loop nid c kb found working) \<and>
    (\<forall>i \<in> set (cte_loop nid c kb found working). set (neighbours nid c kb i) \<subseteq> set (cte_loop nid c kb found working))"
  using assms
proof (induction nid c kb found working rule: cte_loop.induct)
  case (1 nid c kb found working)
  show ?case
  proof (cases "working = []")
    case True
    then show ?thesis using "1.prems" by (simp add: cte_loop.simps [of _ _ _ _ "[]"])
  next
    case False
    define new where "new = remdups (filter (\<lambda>i. i \<notin> set found) (concat (map (neighbours nid c kb) working)))"
    have step: "cte_loop nid c kb found working = cte_loop nid c kb (found @ new) new"
      using False by (subst cte_loop.simps) (simp add: new_def Let_def)
    have nb: "set (neighbours nid c kb i) \<subseteq> set (found @ new)" if "i \<in> set (found @ new) - set new" for i
    proof (cases "i \<in> set working")
      case True
      then show ?thesis by (auto simp: new_def)
    next
      case False
      then show ?thesis using that "1.prems"(3) [of i] by auto
    qed
    have d: "distinct (found @ new)" using "1.prems"(2) by (auto simp: new_def)
    have "set (found @ new) \<subseteq> set (cte_loop nid c kb (found @ new) new) \<and> distinct (cte_loop nid c kb (found @ new) new) \<and>
      (\<forall>i \<in> set (cte_loop nid c kb (found @ new) new). set (neighbours nid c kb i) \<subseteq> set (cte_loop nid c kb (found @ new) new))"
      by (rule "1.IH" [OF False new_def _ d nb]) simp
    then show ?thesis unfolding step by auto
  qed
qed

lemma cte_loop_sound:
  assumes "\<And>j. j \<in> set found \<union> set working \<Longrightarrow> persona nid c kb i j" "j \<in> set (cte_loop nid c kb found working)"
  shows "persona nid c kb i j"
  using assms
proof (induction nid c kb found working rule: cte_loop.induct)
  case (1 nid c kb found working)
  show ?case
  proof (cases "working = []")
    case True
    then show ?thesis using "1.prems" by (simp add: cte_loop.simps [of _ _ _ _ "[]"])
  next
    case False
    let ?new = "remdups (filter (\<lambda>i. i \<notin> set found) (concat (map (neighbours nid c kb) working)))"
    have j: "j \<in> set (cte_loop nid c kb (found @ ?new) ?new)"
      using "1.prems"(2) False by (subst (asm) cte_loop.simps) (simp add: Let_def)
    have ok: "persona nid c kb i k" if "k \<in> set (found @ ?new) \<union> set ?new" for k
      using that "1.prems"(1) by (auto intro: persona_next)
    show ?thesis by (rule "1.IH" [OF False refl ok j])
  qed
qed

lemma connected_iff: "j \<in> set (get_connected_personas nid i c kb) \<longleftrightarrow> persona nid c kb i j"
proof (cases "visible_entity nid c kb i")
  case False
  then show ?thesis using persona_visible by (auto simp: get_connected_personas_def cte_loop.simps)
next
  case True
  then have g: "get_connected_personas nid i c kb = cte_loop nid c kb [i] [i]" by (simp add: get_connected_personas_def Let_def)
  have c: "i \<in> set (cte_loop nid c kb [i] [i])"
    "\<And>j k. j \<in> set (cte_loop nid c kb [i] [i]) \<Longrightarrow> k \<in> set (neighbours nid c kb j) \<Longrightarrow> k \<in> set (cte_loop nid c kb [i] [i])"
    using cte_loop_closure [of "[i]" "[i]" nid c kb] by auto
  show ?thesis unfolding g
  proof
    assume "j \<in> set (cte_loop nid c kb [i] [i])"
    then show "persona nid c kb i j" by (rule cte_loop_sound [rotated]) (simp add: persona_self [OF True])
  next
    assume "persona nid c kb i j"
    then show "j \<in> set (cte_loop nid c kb [i] [i])"
      by (induction rule: persona_induct_next) (use c in auto)
  qed
qed

lemma connected_distinct: "distinct (get_connected_personas nid i c kb)"
  using cte_loop_closure [of "if visible_entity nid c kb i then [i] else []" "if visible_entity nid c kb i then [i] else []" nid c kb]
  by (simp add: get_connected_personas_def Let_def split: if_splits)

text \<open>C14: The recursive query of the connected personas terminates on every table, links in cycles included, and returns each
  persona once: exactly the entities connected to the queried one by reveals up to the ceiling, through entities already seen. Two
  entities are listed together exactly when they are visible and the query answers the same group for both.\<close>

theorem connected_personas_exact:
  "distinct (get_connected_personas nid i c kb) \<and>
   set (get_connected_personas nid i c kb) = {j. persona nid c kb i j} \<and>
   (j \<in> set (get_connected_personas nid i c kb) \<longleftrightarrow>
      visible_entity nid c kb i \<and> visible_entity nid c kb j \<and>
      set (get_connected_personas nid j c kb) = set (get_connected_personas nid i c kb))"
proof -
  have "persona nid c kb i j \<longleftrightarrow> visible_entity nid c kb i \<and> visible_entity nid c kb j \<and>
      (\<forall>k. persona nid c kb j k \<longleftrightarrow> persona nid c kb i k)"
    (is "?p \<longleftrightarrow> ?i \<and> ?j \<and> ?same")
  proof
    assume p: ?p
    have "persona nid c kb j k \<longleftrightarrow> persona nid c kb i k" for k
      using persona_trans [OF p] persona_trans [OF persona_sym [OF p]] by blast
    then show "?i \<and> ?j \<and> ?same" using persona_visible [OF p] by simp
  next
    assume "?i \<and> ?j \<and> ?same"
    then show ?p using persona_self [of nid c kb j] by blast
  qed
  moreover have "set (get_connected_personas nid j c kb) = {k. persona nid c kb j k}" for j
    using connected_iff by blast
  ultimately show ?thesis using connected_distinct by (simp only: set_eq_iff mem_Collect_eq simp_thms)
qed

section \<open>Nothing above the ceiling is seen\<close>

text \<open>Two tables with the same rows up to the ceiling.\<close>

definition same_below :: "rat \<Rightarrow> knowledge \<Rightarrow> knowledge \<Rightarrow> bool" where
  "same_below c kb kb' \<longleftrightarrow>
     filter (\<lambda>e. en_first_seen e \<le> c) (kb_entities kb) = filter (\<lambda>e. en_first_seen e \<le> c) (kb_entities kb') \<and>
     filter (\<lambda>d. de_chapter d \<le> c) (kb_descriptions kb) = filter (\<lambda>d. de_chapter d \<le> c) (kb_descriptions kb') \<and>
     filter (\<lambda>a. al_revealed a \<le> c) (kb_aliases kb) = filter (\<lambda>a. al_revealed a \<le> c) (kb_aliases kb') \<and>
     filter (\<lambda>l. li_revealed l \<le> c) (kb_links kb) = filter (\<lambda>l. li_revealed l \<le> c) (kb_links kb') \<and>
     filter (\<lambda>f. fa_chapter f \<le> c) (kb_facts kb) = filter (\<lambda>f. fa_chapter f \<le> c) (kb_facts kb') \<and>
     filter (\<lambda>r. rl_chapter r \<le> c) (kb_relationships kb) = filter (\<lambda>r. rl_chapter r \<le> c) (kb_relationships kb') \<and>
     filter (\<lambda>e. ev_chapter e \<le> c) (kb_events kb) = filter (\<lambda>e. ev_chapter e \<le> c) (kb_events kb') \<and>
     filter (\<lambda>r. sr_chapter r \<le> c) (kb_states kb) = filter (\<lambda>r. sr_chapter r \<le> c) (kb_states kb') \<and>
     filter (\<lambda>r. rs_chapter r \<le> c) (kb_relation_states kb) = filter (\<lambda>r. rs_chapter r \<le> c) (kb_relation_states kb') \<and>
     filter (\<lambda>t. th_introduced t \<le> c) (kb_threads kb) = filter (\<lambda>t. th_introduced t \<le> c) (kb_threads kb') \<and>
     filter (\<lambda>u. tu_chapter u \<le> c) (kb_thread_updates kb) = filter (\<lambda>u. tu_chapter u \<le> c) (kb_thread_updates kb')"

text \<open>
  What extraction maintains and the joins without a ceiling rely on: a transition names entities already seen in its chapter, and
  an update belongs to a thread already introduced.
\<close>

definition seen_by :: "rat \<Rightarrow> int \<Rightarrow> knowledge \<Rightarrow> bool" where
  "seen_by c i kb \<longleftrightarrow> (\<forall>e \<in> set (kb_entities kb). en_id e = i \<longrightarrow> en_first_seen e \<le> c)"

definition timely :: "knowledge \<Rightarrow> bool" where
  "timely kb \<longleftrightarrow>
     (\<forall>r \<in> set (kb_states kb). \<forall>p \<in> set_option (sr_perspective r). seen_by (sr_chapter r) p kb) \<and>
     (\<forall>r \<in> set (kb_relation_states kb). seen_by (rs_chapter r) (rs_source r) kb \<and> seen_by (rs_chapter r) (rs_target r) kb) \<and>
     (\<forall>u \<in> set (kb_thread_updates kb). \<forall>t \<in> set (kb_threads kb). th_id t = tu_thread_id u \<longrightarrow> th_introduced t \<le> tu_chapter u)"

text \<open>Queries whose condition implies visibility agree on tables with the same visible rows.\<close>

lemma filter_within: "(\<And>x. x \<in> set xs \<Longrightarrow> P x \<Longrightarrow> V x) \<Longrightarrow> filter P (filter V xs) = filter P xs"
  by (induction xs) auto

lemma filter_agree:
  assumes "filter V xs = filter V ys" "\<And>x. x \<in> set xs \<union> set ys \<Longrightarrow> P x \<Longrightarrow> V x"
  shows "filter P xs = filter P ys"
  using filter_within [of xs P V] filter_within [of ys P V] assms by (metis UnI1 UnI2)

lemma bex_agree:
  assumes "filter V xs = filter V ys" "\<And>x. P x \<Longrightarrow> V x"
  shows "(\<exists>x \<in> set xs. P x) \<longleftrightarrow> (\<exists>x \<in> set ys. P x)"
  using filter_agree [of V xs ys P] assms by (metis filter_empty_conv)

lemma find_by_filter: "find P xs = (case filter P xs of [] \<Rightarrow> None | x # _ \<Rightarrow> Some x)"
  by (induction xs) auto

lemma find_agree:
  assumes "filter V xs = filter V ys" "\<And>x. x \<in> set xs \<union> set ys \<Longrightarrow> P x \<Longrightarrow> V x"
  shows "find P xs = find P ys"
  by (simp only: find_by_filter filter_agree [of V xs ys P, OF assms])

lemma map_filter_within: "(\<And>x. x \<in> set xs \<Longrightarrow> f x \<noteq> None \<Longrightarrow> V x) \<Longrightarrow> List.map_filter f (filter V xs) = List.map_filter f xs"
  by (induction xs) (auto split: option.splits)

lemma map_filter_eq: "(\<And>x. x \<in> set xs \<Longrightarrow> f x = g x) \<Longrightarrow> List.map_filter f xs = List.map_filter g xs"
  by (induction xs) (auto split: option.splits)

lemma map_filter_agree:
  assumes "filter V xs = filter V ys" "\<And>x. x \<in> set xs \<union> set ys \<Longrightarrow> f x \<noteq> None \<Longrightarrow> V x"
  shows "List.map_filter f xs = List.map_filter f ys"
  using map_filter_within [of xs f V] map_filter_within [of ys f V] assms by (metis UnI1 UnI2)

lemma same_belowD:
  assumes "same_below c kb kb'"
  shows same_entities: "filter (\<lambda>e. en_first_seen e \<le> c) (kb_entities kb) = filter (\<lambda>e. en_first_seen e \<le> c) (kb_entities kb')"
    and same_descriptions: "filter (\<lambda>d. de_chapter d \<le> c) (kb_descriptions kb) = filter (\<lambda>d. de_chapter d \<le> c) (kb_descriptions kb')"
    and same_aliases: "filter (\<lambda>a. al_revealed a \<le> c) (kb_aliases kb) = filter (\<lambda>a. al_revealed a \<le> c) (kb_aliases kb')"
    and same_links: "filter (\<lambda>l. li_revealed l \<le> c) (kb_links kb) = filter (\<lambda>l. li_revealed l \<le> c) (kb_links kb')"
    and same_facts: "filter (\<lambda>f. fa_chapter f \<le> c) (kb_facts kb) = filter (\<lambda>f. fa_chapter f \<le> c) (kb_facts kb')"
    and same_relationships: "filter (\<lambda>r. rl_chapter r \<le> c) (kb_relationships kb) = filter (\<lambda>r. rl_chapter r \<le> c) (kb_relationships kb')"
    and same_events: "filter (\<lambda>e. ev_chapter e \<le> c) (kb_events kb) = filter (\<lambda>e. ev_chapter e \<le> c) (kb_events kb')"
    and same_states: "filter (\<lambda>r. sr_chapter r \<le> c) (kb_states kb) = filter (\<lambda>r. sr_chapter r \<le> c) (kb_states kb')"
    and same_relation_states:
      "filter (\<lambda>r. rs_chapter r \<le> c) (kb_relation_states kb) = filter (\<lambda>r. rs_chapter r \<le> c) (kb_relation_states kb')"
    and same_threads: "filter (\<lambda>t. th_introduced t \<le> c) (kb_threads kb) = filter (\<lambda>t. th_introduced t \<le> c) (kb_threads kb')"
    and same_updates: "filter (\<lambda>u. tu_chapter u \<le> c) (kb_thread_updates kb) = filter (\<lambda>u. tu_chapter u \<le> c) (kb_thread_updates kb')"
  using assms unfolding same_below_def by blast+

lemma visible_entity_same:
  assumes "same_below c kb kb'"
  shows "visible_entity nid c kb = visible_entity nid c kb'"
  unfolding visible_entity_def by (rule ext, rule bex_agree [OF same_entities [OF assms]]) simp

lemma neighbours_same:
  assumes "same_below c kb kb'"
  shows "neighbours nid c kb = neighbours nid c kb'"
proof
  fix i
  have "filter (\<lambda>l. (li_a l = i \<or> li_b l = i) \<and> li_revealed l \<le> c \<and> li_novel_id l = nid) (kb_links kb) =
    filter (\<lambda>l. (li_a l = i \<or> li_b l = i) \<and> li_revealed l \<le> c \<and> li_novel_id l = nid) (kb_links kb')"
    by (rule filter_agree [OF same_links [OF assms]]) simp
  then show "neighbours nid c kb i = neighbours nid c kb' i"
    by (simp add: neighbours_def visible_entity_same [OF assms])
qed

lemma cte_loop_same:
  "neighbours nid c kb = neighbours nid c kb' \<Longrightarrow> cte_loop nid c kb found working = cte_loop nid c kb' found working"
proof (induction nid c kb found working rule: cte_loop.induct)
  case (1 nid c kb found working)
  show ?case
  proof (cases "working = []")
    case True
    then show ?thesis by (simp add: cte_loop.simps)
  next
    case False
    show ?thesis
      unfolding cte_loop.simps [of nid c kb found working] cte_loop.simps [of nid c kb' found working] "1.prems" [symmetric]
      using "1.IH" [OF False refl "1.prems"] False by (simp add: Let_def)
  qed
qed

lemma connected_same: "same_below c kb kb' \<Longrightarrow> get_connected_personas nid i c kb = get_connected_personas nid i c kb'"
  unfolding get_connected_personas_def
  by (simp only: visible_entity_same cte_loop_same [OF neighbours_same])

lemma known_alias_same:
  assumes "same_below c kb kb'"
  shows "known_alias c kb = known_alias c kb'"
  unfolding known_alias_def by (rule ext, rule ext, rule bex_agree [OF same_aliases [OF assms]]) simp

lemma seen_filter_same:
  assumes "same_below c kb kb'"
  shows "filter (\<lambda>e. P e \<and> seen_in nid c e) (kb_entities kb) = filter (\<lambda>e. P e \<and> seen_in nid c e) (kb_entities kb')"
  by (rule filter_agree [OF same_entities [OF assms]]) (simp add: seen_in_def)

lemma resolve_same:
  assumes s: "same_below c kb kb'"
  shows "resolve_entity cfg sim nid nm c kb = resolve_entity cfg sim nid nm c kb'"
proof -
  have "exact_matches cfg nid q c kb = exact_matches cfg nid q c kb'" "fuzzy_matches sim nid q c kb = fuzzy_matches sim nid q c kb'" for q
    unfolding exact_matches_def fuzzy_matches_def known_alias_same [OF s] seen_filter_same [OF s] by (rule refl)+
  then show ?thesis by (simp only: resolve_entity_def connected_same [OF s])
qed

lemma latest_description_same:
  assumes s: "same_below c kb kb'"
  shows "latest_description c kb = latest_description c kb'"
proof
  fix e :: entity_row
  have "filter (\<lambda>d. de_entity_id d = en_id e \<and> de_chapter d \<le> c) (kb_descriptions kb) =
    filter (\<lambda>d. de_entity_id d = en_id e \<and> de_chapter d \<le> c) (kb_descriptions kb')"
    by (rule filter_agree [OF same_descriptions [OF s]]) simp
  then show "latest_description c kb e = latest_description c kb' e" by (simp add: latest_description_def)
qed

lemma seen_entity_same:
  assumes "same_below c kb kb'"
  shows "seen_entity nid c kb = seen_entity nid c kb'"
  unfolding seen_entity_def by (rule ext, rule find_agree [OF same_entities [OF assms]]) (simp add: seen_in_def)

lemma facts_same:
  assumes "same_below c kb kb'"
  shows "facts_of cfg n nid ids c kb = facts_of cfg n nid ids c kb'"
proof -
  have "filter (\<lambda>f. fa_entity_id f \<in> set ids \<and> fa_chapter f \<le> c \<and> fa_novel_id f = nid) (kb_facts kb) =
    filter (\<lambda>f. fa_entity_id f \<in> set ids \<and> fa_chapter f \<le> c \<and> fa_novel_id f = nid) (kb_facts kb')"
    by (rule filter_agree [OF same_facts [OF assms]]) simp
  then show ?thesis by (simp only: facts_of_def)
qed

lemma aliases_same:
  assumes "same_below c kb kb'"
  shows "aliases_of nid ids c kb = aliases_of nid ids c kb'"
proof -
  have "filter (\<lambda>a. al_entity_id a \<in> set ids \<and> al_revealed a \<le> c \<and> al_novel_id a = nid) (kb_aliases kb) =
    filter (\<lambda>a. al_entity_id a \<in> set ids \<and> al_revealed a \<le> c \<and> al_novel_id a = nid) (kb_aliases kb')"
    by (rule filter_agree [OF same_aliases [OF assms]]) simp
  then show ?thesis by (simp only: aliases_of_def)
qed

lemma latest_update_same:
  assumes s: "same_below c kb kb'"
  shows "latest_update cfg nid c kb = latest_update cfg nid c kb'"
proof
  fix t
  have "filter (\<lambda>u. tu_thread_id u = t \<and> tu_novel_id u = nid \<and> tu_chapter u \<le> c \<and> tu_version u = ks_pipeline_version cfg) (kb_thread_updates kb) =
    filter (\<lambda>u. tu_thread_id u = t \<and> tu_novel_id u = nid \<and> tu_chapter u \<le> c \<and> tu_version u = ks_pipeline_version cfg) (kb_thread_updates kb')"
    by (rule filter_agree [OF same_updates [OF s]]) simp
  then show "latest_update cfg nid c kb t = latest_update cfg nid c kb' t" by (simp only: latest_update_def)
qed

lemma open_thread_introduced:
  assumes "timely kb" "t \<in> set (kb_threads kb)" "open_thread_of cfg nid ids c kb t \<noteq> None"
  shows "th_introduced t \<le> c"
proof -
  obtain u where u: "latest_update cfg nid c kb (th_id t) = Some u"
    using assms(3) by (auto simp: open_thread_of_def split: if_splits option.splits)
  have "u \<in> set (kb_thread_updates kb)" "tu_thread_id u = th_id t" "tu_chapter u \<le> c"
    using sql_first_Some_in [OF u [unfolded latest_update_def]] by simp_all
  then show ?thesis using assms(1,2) unfolding timely_def by force
qed

lemma open_threads_same:
  assumes "same_below c kb kb'" "timely kb" "timely kb'"
  shows "open_threads cfg nid ids c kb = open_threads cfg nid ids c kb'"
proof -
  have f: "open_thread_of cfg nid ids c kb = open_thread_of cfg nid ids c kb'"
    by (rule ext) (simp only: open_thread_of_def latest_update_same [OF assms(1)])
  have "List.map_filter (open_thread_of cfg nid ids c kb) (kb_threads kb) =
    List.map_filter (open_thread_of cfg nid ids c kb) (kb_threads kb')"
    by (rule map_filter_agree [OF same_threads [OF assms(1)]], erule UnE)
      (erule open_thread_introduced [OF assms(2)], assumption,
       erule open_thread_introduced [OF assms(3)], simp add: f)
  then show ?thesis by (simp add: open_threads_def f)
qed

lemma entity_name_same:
  assumes "same_below c kb kb'" "seen_by c i kb" "seen_by c i kb'"
  shows "entity_name i kb = entity_name i kb'"
proof -
  have "find (\<lambda>e. en_id e = i) (kb_entities kb) = find (\<lambda>e. en_id e = i) (kb_entities kb')"
    by (rule find_agree [OF same_entities [OF assms(1)]]) (use assms(2,3) in \<open>auto simp: seen_by_def\<close>)
  then show ?thesis by (simp add: entity_name_def row_by_def)
qed

lemma novel_entity_same:
  assumes "same_below c kb kb'" "seen_by c i kb" "seen_by c i kb'"
  shows "novel_entity nid i kb = novel_entity nid i kb'"
  unfolding novel_entity_def
  by (rule find_agree [OF same_entities [OF assms(1)]]) (use assms(2,3) in \<open>auto simp: seen_by_def\<close>)

lemma seen_by_mono: "seen_by a i kb \<Longrightarrow> a \<le> c \<Longrightarrow> seen_by c i kb"
  unfolding seen_by_def by (meson order_trans)

lemma below_in_other:
  assumes "filter V xs = filter V ys" "x \<in> set xs" "V x"
  shows "x \<in> set ys"
proof -
  have "x \<in> set (filter V xs)" using assms(2,3) by simp
  then show ?thesis unfolding assms(1) by simp
qed

lemma transition_rows_same:
  assumes s: "same_below c kb kb'" and t: "timely kb" "timely kb'"
  shows "transition_rows cfg nid ids c kb = transition_rows cfg nid ids c kb'"
proof -
  let ?q = "\<lambda>r. sr_novel_id r = nid \<and> sr_entity_id r \<in> set ids \<and> sr_chapter r \<le> c \<and> sr_version r = ks_pipeline_version cfg"
  have f: "filter ?q (kb_states kb) = filter ?q (kb_states kb')"
    by (rule filter_agree [OF same_states [OF s]]) simp
  have "Option.bind (sr_perspective r) (\<lambda>p. entity_name p kb) = Option.bind (sr_perspective r) (\<lambda>p. entity_name p kb')"
    if r: "r \<in> set (kb_states kb)" "sr_chapter r \<le> c" for r
  proof (cases "sr_perspective r")
    case (Some p)
    have r': "r \<in> set (kb_states kb')" by (rule below_in_other [OF same_states [OF s] r])
    have "seen_by c p kb" "seen_by c p kb'"
      using t r r' Some unfolding timely_def by (fastforce intro: seen_by_mono [OF _ r(2)])+
    then show ?thesis using Some entity_name_same [OF s] by simp
  qed simp
  then show ?thesis unfolding transition_rows_def f [symmetric] by (intro map_cong) auto
qed

lemma relationship_state_same:
  assumes s: "same_below c kb kb'" and t: "timely kb" "timely kb'"
  shows "current_relationship_state cfg nid ids c both kb = current_relationship_state cfg nid ids c both kb'"
proof -
  have l: "latest_relation_states cfg nid ids c both kb = latest_relation_states cfg nid ids c both kb'"
    unfolding latest_relation_states_def by (subst filter_agree [OF same_relation_states [OF s]]) simp_all
  have "relation_view_of nid kb r = relation_view_of nid kb' r" if "r \<in> set (latest_relation_states cfg nid ids c both kb)" for r
  proof -
    have r: "r \<in> set (kb_relation_states kb)" "rs_chapter r \<le> c"
      using that set_distinct_on unfolding latest_relation_states_def by fastforce+
    have r': "r \<in> set (kb_relation_states kb')" by (rule below_in_other [OF same_relation_states [OF s] r])
    have "seen_by c (rs_source r) kb" "seen_by c (rs_target r) kb" "seen_by c (rs_source r) kb'" "seen_by c (rs_target r) kb'"
      using t r r' unfolding timely_def by (blast intro: seen_by_mono [OF _ r(2)])+
    then show ?thesis using novel_entity_same [OF s] by (simp add: relation_view_of_def)
  qed
  then show ?thesis unfolding current_relationship_state_def l [symmetric]
    by (auto intro!: arg_cong [where f = "take _"] map_filter_eq)
qed

lemma entity_state_same:
  "same_below c kb kb' \<Longrightarrow> timely kb \<Longrightarrow> timely kb' \<Longrightarrow>
   current_entity_state cfg nid ids c kb = current_entity_state cfg nid ids c kb'"
  by (simp only: current_entity_state_def transition_rows_same)

lemma profile_same:
  assumes "same_below c kb kb'" "timely kb" "timely kb'"
  shows "get_entity_profile cfg nid i c kb = get_entity_profile cfg nid i c kb'"
  unfolding get_entity_profile_def seen_entity_def [symmetric] connected_same [OF assms(1)] aliases_same [OF assms(1)]
    facts_same [OF assms(1)] entity_state_same [OF assms] relationship_state_same [OF assms] open_threads_same [OF assms]
    latest_description_same [OF assms(1)] seen_entity_same [OF assms(1)] ..

lemma relationships_same:
  assumes s: "same_below c kb kb'"
  shows "get_relationships cfg nid i c other kb = get_relationships cfg nid i c other kb'"
proof -
  have v: "relationship_view_of nid c kb = relationship_view_of nid c kb'"
    by (rule ext) (simp only: relationship_view_of_def seen_entity_same [OF s])
  have "relationship_rows cfg nid p c kb = relationship_rows cfg nid p c kb'" for p
    unfolding relationship_rows_def v
    by (subst map_filter_agree [OF same_relationships [OF s]]) (simp_all split: if_splits)
  then show ?thesis by (simp only: get_relationships_def connected_same [OF s])
qed

lemma identity_links_same:
  assumes s: "same_below c kb kb'"
  shows "get_identity_links nid i c kb = get_identity_links nid i c kb'"
proof -
  have "first_link nid c kb = first_link nid c kb'"
    unfolding first_link_def by (rule ext, subst filter_agree [OF same_links [OF s]]) simp_all
  then have "identity_view_of nid c kb = identity_view_of nid c kb'"
    by (intro ext) (simp only: identity_view_of_def seen_entity_same [OF s])
  then show ?thesis by (simp only: get_identity_links_def connected_same [OF s])
qed

lemma timeline_same:
  assumes s: "same_below c kb kb'"
  shows "get_timeline cfg nid i c kb = get_timeline cfg nid i c kb'"
proof -
  have "filter (\<lambda>e. involves ids e \<and> ev_chapter e \<le> c \<and> ev_novel_id e = nid) (kb_events kb) =
    filter (\<lambda>e. involves ids e \<and> ev_chapter e \<le> c \<and> ev_novel_id e = nid) (kb_events kb')" for ids
    by (rule filter_agree [OF same_events [OF s]]) simp
  then show ?thesis by (simp only: get_timeline_def connected_same [OF s] facts_same [OF s])
qed

lemma listing_same:
  assumes s: "same_below c kb kb'"
  shows "list_entities cfg ilike nid c typ q kb = list_entities cfg ilike nid c typ q kb'"
proof -
  have "(\<exists>a \<in> set (kb_aliases kb). al_entity_id a = i \<and> ilike (al_alias a) pat \<and> al_revealed a \<le> c \<and> al_novel_id a = nid) \<longleftrightarrow>
    (\<exists>a \<in> set (kb_aliases kb'). al_entity_id a = i \<and> ilike (al_alias a) pat \<and> al_revealed a \<le> c \<and> al_novel_id a = nid)" for i pat
    by (rule bex_agree [OF same_aliases [OF s]]) simp
  then show ?thesis unfolding list_entities_def latest_description_same [OF s]
    by (subst filter_agree [OF same_entities [OF s]]) (simp_all add: seen_in_def)
qed

text \<open>C4: Below a ceiling the structured tools do not depend on anything above it: on two knowledge bases with the same rows up to
  the ceiling (later entities, names, reveals, facts, relations, events, states and thread updates may differ in any way), each of them
  gives the same answer, provided that transitions name only entities already seen in their chapter.\<close>

theorem tools_spoiler_free:
  assumes "same_below c kb kb'" "timely kb" "timely kb'"
  shows "get_entity_profile cfg nid i c kb = get_entity_profile cfg nid i c kb' \<and>
    resolve_entity cfg sim nid nm c kb = resolve_entity cfg sim nid nm c kb' \<and>
    get_relationships cfg nid i c other kb = get_relationships cfg nid i c other kb' \<and>
    get_identity_links nid i c kb = get_identity_links nid i c kb' \<and>
    get_timeline cfg nid i c kb = get_timeline cfg nid i c kb' \<and>
    list_entities cfg ilike nid c typ nm' kb = list_entities cfg ilike nid c typ nm' kb'"
  by (intro conjI profile_same [OF assms] resolve_same [OF assms(1)] relationships_same [OF assms(1)]
    identity_links_same [OF assms(1)] timeline_same [OF assms(1)] listing_same [OF assms(1)])

text \<open>A witness: two entities linked at chapter 5; at chapter 4 a later entity, its reveal and its facts make no difference.\<close>

definition demo_ks :: codex_settings where
  "demo_ks = \<lparr>ks_condition_age = 30, ks_custody_age = 50, ks_goal_age = 75, ks_occupation_age = 100, ks_location_age = 100,
     ks_pipeline_version = ''2.1'', ks_max_facts = 200, ks_max_relationships = 120, ks_max_timeline = 250, ks_max_entities = 200,
     ks_max_threads = 10, ks_checkpoint_chapters = 25, ks_fuzzy_match = 35/100, ks_fuzzy_accept = 6/10, ks_semantic_match = 85/100\<rparr>"

definition demo_entity :: "int \<Rightarrow> string \<Rightarrow> rat \<Rightarrow> entity_row" where
  "demo_entity i nm seen = \<lparr>en_id = i, en_novel_id = 1, en_name = nm, en_type = ''character'', en_description = None,
     en_embedding = None, en_first_seen = seen\<rparr>"

definition demo_link :: "int \<Rightarrow> int \<Rightarrow> int \<Rightarrow> rat \<Rightarrow> link_row" where
  "demo_link i a b rev_ch = \<lparr>li_id = i, li_novel_id = 1, li_a = a, li_b = b, li_revealed = rev_ch, li_note = None\<rparr>"

definition demo_kb :: "entity_row list \<Rightarrow> link_row list \<Rightarrow> relation_state_row list \<Rightarrow> knowledge" where
  "demo_kb es ls rs = \<lparr>kb_entities = es, kb_next_entity_id = 100, kb_sequence = 100, kb_descriptions = [], kb_aliases = [], kb_links = ls, kb_facts = [],
     kb_relationships = [], kb_events = [], kb_activity = [], kb_states = [], kb_relation_states = rs, kb_threads = [],
     kb_thread_updates = [], kb_wiki = [], kb_queries = []\<rparr>"

lemmas demo_defs = demo_ks_def demo_entity_def demo_link_def demo_kb_def

theorem tools_spoiler_free_witness:
  "get_entity_profile demo_ks 1 1 4 (demo_kb [demo_entity 1 ''Klein'' 1] [] []) =
   get_entity_profile demo_ks 1 1 4
     (demo_kb [demo_entity 1 ''Klein'' 1, demo_entity 2 ''The Fool'' 5] [demo_link 1 1 2 5] []) \<and>
   get_entity_profile demo_ks 1 1 4 (demo_kb [demo_entity 1 ''Klein'' 1] [] []) \<noteq> None"
  using tools_spoiler_free [of 4 "demo_kb [demo_entity 1 ''Klein'' 1] [] []"
      "demo_kb [demo_entity 1 ''Klein'' 1, demo_entity 2 ''The Fool'' 5] [demo_link 1 1 2 5] []" demo_ks 1 1]
  by (simp add: demo_defs same_below_def timely_def) (simp add: get_entity_profile_def seen_in_def Let_def)

text \<open>
  \<open>get_identity_links\<close> reports, for every other persona, the earliest link of that persona: in the chain 1 - 2 (chapter 9),
  2 - 3 (chapter 2), the query for 1 says that 2 was revealed in chapter 2, seven chapters before the reveal.
\<close>

lemma identity_links_report_any_link:
  "map (\<lambda>v. (iv_other_id v, iv_revealed v)) (get_identity_links 1 1 10
     (demo_kb [demo_entity 1 ''A'' 1, demo_entity 2 ''B'' 1, demo_entity 3 ''C'' 1] [demo_link 1 1 2 9, demo_link 2 2 3 2] [])) =
   [(2, 2), (3, 2)]"
  by (simp add: demo_defs get_identity_links_def get_connected_personas_def visible_entity_def neighbours_def other_end_def
      cte_loop.simps identity_view_of_def seen_entity_def seen_in_def first_link_def)

end
