(* ===== verification/Codex_Entities.thy ===== *)
theory Codex_Entities
  imports Codex_Personas
begin

text \<open>
  Entities of the codex: \<open>modules/codex/adapters/outbound/ingest/link.py\<close> (resolution of a mention, creation,
  promotion of a canonical name, merging of duplicates) with the cache invalidation of \<open>outbound/cache.py\<close> and the
  name gate of \<open>ai_execution/application/contracts.py\<close>. The embedding model, the trigram similarity, the vector
  distance, the rows an index reaches and the answer of the disambiguating model are arguments.
\<close>

section \<open>Which surfaces are names\<close>

definition GENERIC_ENTITY_SURFACES :: "string list" where
  "GENERIC_ENTITY_SURFACES =
     [''courier'', ''giant lizard'', ''hydra'', ''lucky rat'', ''dining hall'', ''pub'',
      ''yellow cylinder'', ''man'', ''young man'', ''old man'', ''woman'', ''young woman'',
      ''young lady'', ''boy'', ''girl'', ''child'', ''baby'', ''maid'', ''maidservant'',
      ''young mistress'', ''master'', ''teacher'', ''professor'', ''guard'', ''soldier'',
      ''merchant'', ''innkeeper'', ''adventurer'', ''doctor'', ''nurse'', ''driver'',
      ''the protagonist'', ''the narrator'', ''mother'', ''father'', ''sister'', ''brother'']"

definition PERSON_ROLE_WORDS :: "string list" where
  "PERSON_ROLE_WORDS =
     [''man'', ''woman'', ''boy'', ''girl'', ''child'', ''baby'', ''lady'', ''maid'', ''mistress'',
      ''master'', ''guard'', ''soldier'', ''merchant'', ''teacher'', ''professor'', ''doctor'', ''nurse'', ''driver'']"

definition DESCRIPTIVE_PERSON_MODIFIERS :: "string list" where
  "DESCRIPTIVE_PERSON_MODIFIERS =
     [''young'', ''old'', ''elderly'', ''middle-aged'', ''little'', ''big'', ''large'', ''tall'',
      ''short'', ''thin'', ''slender'', ''stocky'', ''burly'', ''muscular'', ''fat'', ''pale'',
      ''beautiful'', ''handsome'', ''pretty'', ''masked'', ''hooded'', ''cloaked'', ''armored'',
      ''scarred'', ''bearded'', ''bald'', ''blind'', ''wounded'', ''injured'', ''dying'', ''dead'',
      ''mysterious'', ''strange'', ''unknown'', ''unnamed'']"

text \<open>\<open>str.casefold\<close> up to the micro sign, whose image lies outside the modelled range.\<close>

definition py_casefold :: "string \<Rightarrow> string" where
  "py_casefold s = concat (map (\<lambda>ch. if of_char ch = (223 :: nat) then ''ss'' else [lower_char ch]) s)"

definition is_ascii_letter :: "char \<Rightarrow> bool" where
  "is_ascii_letter ch = (let n = (of_char ch :: nat) in (65 \<le> n \<and> n \<le> 90) \<or> (97 \<le> n \<and> n \<le> 122))"

definition in_word_token :: "char \<Rightarrow> bool" where
  "in_word_token ch \<longleftrightarrow> is_ascii_letter ch \<or> ch \<in> set ([CHR 0x27] @ ''.-'')"

text \<open>\<open>re.findall(r"[A-Za-z][A-Za-z'.-]*", value)\<close>.\<close>

function word_tokens :: "string \<Rightarrow> string list" where
  "word_tokens s =
     (let r = dropWhile (\<lambda>ch. \<not> is_ascii_letter ch) s in
      if r = [] then [] else takeWhile in_word_token r # word_tokens (dropWhile in_word_token r))"
  by pat_completeness auto
termination
proof (relation "measure length")
  fix s r :: string
  assume r: "r = dropWhile (\<lambda>ch. \<not> is_ascii_letter ch) s" "r \<noteq> []"
  from r(2) obtain x xs where x: "r = x # xs" by (meson neq_Nil_conv)
  then have "is_ascii_letter x" using r by (metis hd_dropWhile list.sel(1))
  then have "length (dropWhile in_word_token r) \<le> length xs"
    using x length_dropWhile_le [of in_word_token xs] by (simp add: in_word_token_def)
  also have "\<dots> < length r" using x by simp
  also have "\<dots> \<le> length s" using r length_dropWhile_le [of "\<lambda>ch. \<not> is_ascii_letter ch" s] by simp
  finally show "(dropWhile in_word_token r, s) \<in> measure length" by simp
qed simp

declare word_tokens.simps [simp del]

definition strip_chars :: "string \<Rightarrow> string \<Rightarrow> string" where
  "strip_chars cs s = rev (dropWhile (\<lambda>ch. ch \<in> set cs) (rev (dropWhile (\<lambda>ch. ch \<in> set cs) s)))"

definition ends_with :: "string \<Rightarrow> string \<Rightarrow> bool" where
  "ends_with s t = (length t \<le> length s \<and> drop (length s - length t) s = t)"

definition starts_with :: "string \<Rightarrow> string \<Rightarrow> bool" where
  "starts_with s t = (take (length t) s = t)"

definition is_descriptive_person_surface :: "string \<Rightarrow> bool" where
  "is_descriptive_person_surface value =
     (let tokens = word_tokens value in
      if \<not> (2 \<le> length tokens \<and> length tokens \<le> 3) \<or> py_casefold (last tokens) \<notin> set PERSON_ROLE_WORDS then False
      else let modifiers = map (\<lambda>t. strip_chars ([CHR 0x27] @ ''.-'') (py_casefold t)) (butlast tokens) in
        ends_with (hd modifiers) ([CHR 0x27] @ ''s'') \<or> (\<forall>m \<in> set modifiers. m \<in> set DESCRIPTIVE_PERSON_MODIFIERS))"

definition char_is_upper :: "char \<Rightarrow> bool" where
  "char_is_upper ch = (let n = (of_char ch :: nat) in (65 \<le> n \<and> n \<le> 90) \<or> (192 \<le> n \<and> n \<le> 222 \<and> n \<noteq> 215))"

definition char_is_lower :: "char \<Rightarrow> bool" where
  "char_is_lower ch = (let n = (of_char ch :: nat) in
     (97 \<le> n \<and> n \<le> 122) \<or> n \<in> {170, 181, 186} \<or> (223 \<le> n \<and> n \<noteq> 247))"

definition collapse_space :: "string \<Rightarrow> string" where
  "collapse_space s = py_join '' '' (py_split s)"

definition eligible_entity_surface :: "string \<Rightarrow> string \<Rightarrow> bool" where
  "eligible_entity_surface surface typ =
     (let value = collapse_space (py_strip surface); low = py_casefold value in
      if value = [] \<or> length value > 160 \<or> low \<in> set GENERIC_ENTITY_SURFACES then False
      else if (\<exists>p \<in> set [''a '', ''an '', ''the '', ''my '', ''our '', ''your '', ''his '', ''her '', ''its '', ''their '', ''this '',
                 ''that '', ''these '', ''those '']. starts_with low p) then False
      else if (\<exists>ch \<in> set value. char_is_lower ch \<or> char_is_upper ch) \<and> \<not> (\<exists>ch \<in> set value. char_is_upper ch) then False
      else if typ = ''character'' \<and> is_descriptive_person_surface value then False
      else True)"

section \<open>Resolution of a mention\<close>

record link_config =
  lc_settings :: codex_settings
  lc_similarity :: "string \<Rightarrow> string \<Rightarrow> rat"
  lc_embedding :: "string \<Rightarrow> rat list"
  lc_distance :: "rat list \<Rightarrow> rat list \<Rightarrow> rat"
  lc_reached :: "rat list \<Rightarrow> entity_row list \<Rightarrow> entity_row \<Rightarrow> bool"
  lc_disambiguate :: "string \<Rightarrow> (int \<times> string \<times> rat) list \<Rightarrow> json option"

definition type_matches :: "string \<Rightarrow> entity_row \<Rightarrow> bool" where
  "type_matches typ e \<longleftrightarrow> en_type e = typ \<or>
     en_type e \<in> {''faction'', ''organization''} \<and> typ \<in> {''faction'', ''organization''}"

definition exact_match :: "int \<Rightarrow> string \<Rightarrow> string \<Rightarrow> rat \<Rightarrow> knowledge \<Rightarrow> entity_row option" where
  "exact_match nid nm typ chap kb =
     sql_first en_id (filter (\<lambda>e. (same_name (en_name e) nm \<or> known_alias chap kb (same_name nm) e) \<and> seen_in nid chap e \<and>
       type_matches typ e) (kb_entities kb))"

definition known_aliases :: "rat \<Rightarrow> knowledge \<Rightarrow> entity_row \<Rightarrow> string list" where
  "known_aliases c kb e = map al_alias (filter (\<lambda>a. al_entity_id a = en_id e \<and> al_revealed a \<le> c) (kb_aliases kb))"

text \<open>\<open>GREATEST(similarity(name), COALESCE(MAX(similarity(alias)), 0))\<close>.\<close>

definition name_score :: "link_config \<Rightarrow> string \<Rightarrow> rat \<Rightarrow> knowledge \<Rightarrow> entity_row \<Rightarrow> rat" where
  "name_score cfg nm c kb e =
     (let as = map (\<lambda>a. lc_similarity cfg a nm) (known_aliases c kb e)
      in max (lc_similarity cfg (en_name e) nm) (if as = [] then 0 else foldr max (tl as) (hd as)))"

definition fuzzy_candidates :: "link_config \<Rightarrow> int \<Rightarrow> string \<Rightarrow> string \<Rightarrow> rat \<Rightarrow> knowledge \<Rightarrow> (int \<times> string \<times> rat) list" where
  "fuzzy_candidates cfg nid nm typ chap kb =
     map (\<lambda>e. (en_id e, en_name e, name_score cfg nm chap kb e))
       (take 5 (sort_key (\<lambda>e. - name_score cfg nm chap kb e)
         (filter (\<lambda>e. seen_in nid chap e \<and> type_matches typ e \<and> name_score cfg nm chap kb e > ks_fuzzy_match (lc_settings cfg))
           (kb_entities kb))))"

text \<open>The query of \<open>resolve_entity\<close> filters the joined rows instead of the groups.\<close>

definition fuzzy_joined :: "link_config \<Rightarrow> int \<Rightarrow> string \<Rightarrow> string \<Rightarrow> rat \<Rightarrow> knowledge \<Rightarrow> (int \<times> string \<times> rat) list" where
  "fuzzy_joined cfg nid nm typ chap kb =
     map (\<lambda>e. (en_id e, en_name e, name_score cfg nm chap kb e))
       (take 5 (sort_key (\<lambda>e. - name_score cfg nm chap kb e)
         (filter (\<lambda>e. (lc_similarity cfg (en_name e) nm > ks_fuzzy_match (lc_settings cfg) \<or>
             known_alias chap kb (\<lambda>a. lc_similarity cfg a nm > ks_fuzzy_match (lc_settings cfg)) e) \<and>
             seen_in nid chap e \<and> type_matches typ e) (kb_entities kb))))"

definition embed_text :: "string \<Rightarrow> string \<Rightarrow> string" where
  "embed_text nm desc = (if desc = [] then nm else nm @ '': '' @ desc)"

text \<open>The nearest row; rows without an embedding sort last and have no similarity.\<close>

text \<open>\<open>lc_reached\<close> are the rows the index on the embeddings delivers: all of them for a raw scan, some for an HNSW index.\<close>

definition nearest_embedded :: "link_config \<Rightarrow> int \<Rightarrow> rat list \<Rightarrow> string \<Rightarrow> rat \<Rightarrow> knowledge \<Rightarrow> (int \<times> rat) option" where
  "nearest_embedded cfg nid v typ chap kb =
     map_option (\<lambda>(e, x). (en_id e, 1 - lc_distance cfg x v))
       (sql_first (\<lambda>(e, x). lc_distance cfg x v)
         (List.map_filter (\<lambda>e. if seen_in nid chap e \<and> type_matches typ e then map_option (\<lambda>x. (e, x)) (en_embedding e) else None)
           (filter (lc_reached cfg v (kb_entities kb)) (kb_entities kb))))"

definition some_row :: "int \<Rightarrow> string \<Rightarrow> rat \<Rightarrow> knowledge \<Rightarrow> bool" where
  "some_row nid typ chap kb \<longleftrightarrow> (\<exists>e \<in> set (kb_entities kb). seen_in nid chap e \<and> type_matches typ e)"

record resolution_proposal =
  pr_existing :: "int option"
  pr_candidates :: "(int \<times> string \<times> rat) list"

definition find_resolution_candidates ::
  "link_config \<Rightarrow> int \<Rightarrow> string \<Rightarrow> string \<Rightarrow> rat \<Rightarrow> string option \<Rightarrow> knowledge \<Rightarrow> resolution_proposal result" where
  "find_resolution_candidates cfg nid mention typ chap desc kb =
     (let nm = py_strip mention in
      if nm = [] then Inl (ValueError ''Mention name cannot be empty.'')
      else case exact_match nid nm typ chap kb of
        Some e \<Rightarrow> Inr \<lparr>pr_existing = Some (en_id e), pr_candidates = []\<rparr>
      | None \<Rightarrow>
          let cands = fuzzy_candidates cfg nid nm typ chap kb in
          if length cands = 1 \<and> snd (snd (hd cands)) \<ge> ks_fuzzy_accept (lc_settings cfg)
          then Inr \<lparr>pr_existing = Some (fst (hd cands)), pr_candidates = []\<rparr>
          else let v = lc_embedding cfg (embed_text nm (py_strip (coalesce desc []))) in
            (case (if v = [] then None else nearest_embedded cfg nid v typ chap kb) of
               Some (i, s) \<Rightarrow> if s > ks_semantic_match (lc_settings cfg) then Inr \<lparr>pr_existing = Some i, pr_candidates = []\<rparr>
                 else Inr \<lparr>pr_existing = None, pr_candidates = cands\<rparr>
             | None \<Rightarrow> Inr \<lparr>pr_existing = None, pr_candidates = cands\<rparr>))"

definition insert_entity :: "int \<Rightarrow> string \<Rightarrow> string \<Rightarrow> string option \<Rightarrow> rat list \<Rightarrow> rat \<Rightarrow> knowledge \<Rightarrow> int \<times> knowledge" where
  "insert_entity nid nm typ desc v chap kb =
     (kb_next_entity_id kb,
      kb\<lparr>kb_entities := kb_entities kb @ [\<lparr>en_id = kb_next_entity_id kb, en_novel_id = nid, en_name = nm, en_type = typ,
           en_description = desc, en_embedding = (if v = [] then None else Some v), en_first_seen = chap\<rparr>],
         kb_next_entity_id := kb_next_entity_id kb + 1\<rparr>)"

definition desc_or_none :: "string option \<Rightarrow> string option" where
  "desc_or_none d = (if py_strip (coalesce d []) = [] then None else Some (py_strip (coalesce d [])))"

definition create_entity :: "link_config \<Rightarrow> int \<Rightarrow> string \<Rightarrow> string \<Rightarrow> rat \<Rightarrow> string option \<Rightarrow> (knowledge, int) op" where
  "create_entity cfg nid mention typ chap desc kb =
     (let nm = py_strip mention;
          r = insert_entity nid nm (if typ = [] then ''concept'' else typ) (desc_or_none desc)
            (lc_embedding cfg (embed_text nm (coalesce (desc_or_none desc) []))) chap kb
      in (Inr (fst r), snd r))"

text \<open>\<open>int(match_id)\<close> of a decoded value; a string is read as a decimal number.\<close>

definition is_digit :: "char \<Rightarrow> bool" where
  "is_digit ch = (let n = (of_char ch :: nat) in 48 \<le> n \<and> n \<le> 57)"

definition digits_value :: "string \<Rightarrow> int" where
  "digits_value ds = foldl (\<lambda>a ch. 10 * a + (int (of_char ch) - 48)) 0 ds"

fun digit_groups :: "string \<Rightarrow> string option" where
  "digit_groups [] = None"
| "digit_groups [ch] = (if is_digit ch then Some [ch] else None)"
| "digit_groups (ch # d # cs) =
     (if \<not> is_digit ch then None
      else if d = CHR ''_'' then map_option ((#) ch) (digit_groups cs)
      else map_option ((#) ch) (digit_groups (d # cs)))"

definition int_of_str :: "string \<Rightarrow> int option" where
  "int_of_str s =
     (case py_strip s of
        [] \<Rightarrow> None
      | ch # cs \<Rightarrow>
          if ch = CHR ''-'' then map_option (\<lambda>d. - digits_value d) (digit_groups cs)
          else if ch = CHR ''+'' then map_option digits_value (digit_groups cs)
          else map_option digits_value (digit_groups (ch # cs)))"

definition truncate :: "rat \<Rightarrow> int" where
  "truncate x = (if 0 \<le> x then \<lfloor>x\<rfloor> else - \<lfloor>- x\<rfloor>)"

fun int_of_json :: "json \<Rightarrow> int option" where
  "int_of_json (JInt n) = Some n"
| "int_of_json (JBool b) = Some (if b then 1 else 0)"
| "int_of_json (JFloat x) = Some (truncate x)"
| "int_of_json (JStr s) = int_of_str s"
| "int_of_json _ = None"

text \<open>The disambiguating model: an answer that is no object, names no candidate or cannot be read falls through.\<close>

definition disambiguated :: "json option \<Rightarrow> (int \<times> string \<times> rat) list \<Rightarrow> int option" where
  "disambiguated reply cands =
     (case reply of
        Some (JObj kvs) \<Rightarrow>
          (case coalesce (map_of kvs ''match_id'') JNull of
             JNull \<Rightarrow> None
           | j \<Rightarrow> if j = JStr ''NEW'' then None
               else (case int_of_json j of None \<Rightarrow> None | Some i \<Rightarrow> if i \<in> fst ` set cands then Some i else None))
      | _ \<Rightarrow> None)"

definition insert_alias :: "int \<Rightarrow> int \<Rightarrow> string \<Rightarrow> rat \<Rightarrow> knowledge \<Rightarrow> knowledge" where
  "insert_alias nid i alias chap kb =
     (if \<exists>a \<in> set (kb_aliases kb). al_entity_id a = i \<and> al_alias a = alias then kb
      else kb\<lparr>kb_aliases := kb_aliases kb @ [\<lparr>al_novel_id = nid, al_entity_id = i, al_alias = alias, al_revealed = chap\<rparr>]\<rparr>)"

definition create_with_alias :: "int \<Rightarrow> string \<Rightarrow> string \<Rightarrow> string option \<Rightarrow> rat list \<Rightarrow> rat \<Rightarrow> (knowledge, int) op" where
  "create_with_alias nid nm typ desc v chap kb =
     (let r = insert_entity nid nm typ desc v chap kb in (Inr (fst r), insert_alias nid (fst r) nm chap (snd r)))"

definition link_semantic :: "link_config \<Rightarrow> int \<Rightarrow> string \<Rightarrow> string \<Rightarrow> rat \<Rightarrow> string option \<Rightarrow> (knowledge, int) op" where
  "link_semantic cfg nid nm typ chap desc kb =
     (let v = lc_embedding cfg (embed_text nm (coalesce (desc_or_none desc) [])) in
      if v = [] \<or> \<not> some_row nid typ chap kb then create_with_alias nid nm typ (desc_or_none desc) v chap kb
      else case nearest_embedded cfg nid v typ chap kb of
        None \<Rightarrow> (Inl (TypeError ''NoneType > float''), kb)
      | Some (i, s) \<Rightarrow> if s > ks_semantic_match (lc_settings cfg) then (Inr i, kb)
          else create_with_alias nid nm typ (desc_or_none desc) v chap kb)"

definition link_resolve_entity :: "link_config \<Rightarrow> int \<Rightarrow> string \<Rightarrow> string \<Rightarrow> rat \<Rightarrow> string option \<Rightarrow> (knowledge, int) op" where
  "link_resolve_entity cfg nid mention typ chap desc kb =
     (let nm = py_strip mention in
      if nm = [] then (Inl (ValueError ''Mention name cannot be empty.''), kb)
      else case exact_match nid nm typ chap kb of
        Some e \<Rightarrow> (Inr (en_id e), kb)
      | None \<Rightarrow>
          let cands = fuzzy_joined cfg nid nm typ chap kb in
          if length cands = 1 \<and> snd (snd (hd cands)) \<ge> ks_fuzzy_accept (lc_settings cfg) then (Inr (fst (hd cands)), kb)
          else case (if cands = [] then None else disambiguated (lc_disambiguate cfg nm cands) cands) of
            Some i \<Rightarrow> (Inr i, kb)
          | None \<Rightarrow> link_semantic cfg nid nm typ chap desc kb)"

section \<open>Promotion of a canonical name\<close>

definition promotable :: "entity_row \<Rightarrow> string \<Rightarrow> bool" where
  "promotable e alias \<longleftrightarrow>
     (let candidate = collapse_space (py_strip alias); current = py_strip (en_name e);
          typ = (if en_type e = [] then ''concept'' else en_type e) in
      candidate \<noteq> [] \<and> py_casefold candidate \<noteq> py_casefold current \<and>
      eligible_entity_surface candidate typ \<and> \<not> eligible_entity_surface current typ)"

definition promote_canonical_name_if_safe ::
  "link_config \<Rightarrow> int \<Rightarrow> int \<Rightarrow> string \<Rightarrow> rat \<Rightarrow> (knowledge, bool) op" where
  "promote_canonical_name_if_safe cfg nid i alias rev_ch kb =
     (case novel_entity nid i kb of
        None \<Rightarrow> (Inr False, kb)
      | Some e \<Rightarrow>
          if en_first_seen e \<noteq> rev_ch \<or> \<not> promotable e alias then (Inr False, kb)
          else let candidate = collapse_space (py_strip alias);
                   v = lc_embedding cfg (embed_text candidate (py_strip (coalesce (en_description e) []))) in
            (Inr True, kb\<lparr>kb_entities := sql_update (\<lambda>r. en_novel_id r = nid \<and> en_id r = i)
               (\<lambda>r. r\<lparr>en_name := candidate, en_embedding := (if v = [] then None else Some v)\<rparr>) (kb_entities kb)\<rparr>))"

section \<open>Caches\<close>

definition clear_caches :: "int \<Rightarrow> rat option \<Rightarrow> int option \<Rightarrow> knowledge \<Rightarrow> knowledge" where
  "clear_caches nid chap ent kb =
     (case chap of
        Some n \<Rightarrow> kb\<lparr>kb_queries := sql_delete (\<lambda>q. qc_ceiling q \<ge> n \<and> qc_novel_id q = nid) (kb_queries kb),
                   kb_wiki := sql_delete (\<lambda>w. wi_ceiling w \<ge> n \<and> wi_novel_id w = nid) (kb_wiki kb)\<rparr>
      | None \<Rightarrow> (case ent of
          Some i \<Rightarrow> kb\<lparr>kb_wiki := sql_delete (\<lambda>w. wi_entity_id w = i \<and> wi_novel_id w = nid) (kb_wiki kb)\<rparr>
        | None \<Rightarrow> kb\<lparr>kb_queries := sql_delete (\<lambda>q. qc_novel_id q = nid) (kb_queries kb),
                   kb_wiki := sql_delete (\<lambda>w. wi_novel_id w = nid) (kb_wiki kb)\<rparr>))"

section \<open>Merging duplicates\<close>

definition redirect :: "int \<Rightarrow> int \<Rightarrow> int \<Rightarrow> int" where
  "redirect keep drp i = (if i = drp then keep else i)"

definition merged_participants :: "int \<Rightarrow> int \<Rightarrow> int list \<Rightarrow> int list" where
  "merged_participants keep drp ps = (if drp \<in> set ps then sort (remdups (map (redirect keep drp) ps)) else ps)"

definition activity_key :: "activity_row \<Rightarrow> int \<times> int \<times> rat \<times> string" where
  "activity_key r = (ac_novel_id r, ac_entity_id r, ac_chapter r, ac_version r)"

definition add_activity :: "activity_row \<Rightarrow> activity_row list \<Rightarrow> activity_row list" where
  "add_activity r rows =
     (if activity_key r \<in> activity_key ` set rows
      then sql_update (\<lambda>s. activity_key s = activity_key r) (\<lambda>s. s\<lparr>ac_mentions := ac_mentions s + ac_mentions r,
          ac_claims := ac_claims s + ac_claims r, ac_events := ac_events s + ac_events r, ac_salience := ac_salience s + ac_salience r,
          ac_chunks := sort (remdups (ac_chunks s @ ac_chunks r))\<rparr>) rows
      else rows @ [r])"

definition merge_activity :: "int \<Rightarrow> int \<Rightarrow> activity_row list \<Rightarrow> activity_row list" where
  "merge_activity keep drp rows =
     sql_delete (\<lambda>r. ac_entity_id r = drp)
       (fold (\<lambda>r. add_activity (r\<lparr>ac_entity_id := keep\<rparr>)) (filter (\<lambda>r. ac_entity_id r = drp) rows) rows)"

definition put_alias :: "int \<Rightarrow> int \<Rightarrow> string \<times> rat \<Rightarrow> alias_row list \<Rightarrow> alias_row list" where
  "put_alias nid keep sa rows =
     (if \<exists>a \<in> set rows. al_entity_id a = keep \<and> al_alias a = fst sa
      then sql_update (\<lambda>a. al_entity_id a = keep \<and> al_alias a = fst sa) (\<lambda>a. a\<lparr>al_revealed := min (al_revealed a) (snd sa)\<rparr>) rows
      else rows @ [\<lparr>al_novel_id = nid, al_entity_id = keep, al_alias = fst sa, al_revealed = snd sa\<rparr>])"

definition merge_aliases :: "int \<Rightarrow> entity_row \<Rightarrow> entity_row \<Rightarrow> alias_row list \<Rightarrow> alias_row list" where
  "merge_aliases nid kept dropped rows =
     (let own = (if en_name dropped \<noteq> en_name kept then [(en_name dropped, en_first_seen dropped)] else []);
          theirs = map (\<lambda>a. (al_alias a, al_revealed a)) (filter (\<lambda>a. al_entity_id a = en_id dropped) rows)
      in sql_delete (\<lambda>a. al_entity_id a = en_id dropped) (fold (put_alias nid (en_id kept)) (own @ theirs) rows))"

definition put_description :: "int \<Rightarrow> int \<Rightarrow> description_row \<Rightarrow> description_row list \<Rightarrow> description_row list" where
  "put_description nid keep d rows =
     (if \<exists>r \<in> set rows. de_entity_id r = keep \<and> de_chapter r = de_chapter d then rows
      else rows @ [d\<lparr>de_novel_id := nid, de_entity_id := keep\<rparr>])"

definition merge_descriptions :: "int \<Rightarrow> int \<Rightarrow> int \<Rightarrow> description_row list \<Rightarrow> description_row list" where
  "merge_descriptions nid keep drp rows =
     fold (put_description nid keep) (filter (\<lambda>d. de_entity_id d = drp) rows) rows"

definition merge_links :: "int \<Rightarrow> int \<Rightarrow> link_row list \<Rightarrow> link_row list" where
  "merge_links keep drp rows =
     sql_delete (\<lambda>l. li_a l = li_b l)
       (sql_update (\<lambda>l. li_b l = drp) (\<lambda>l. l\<lparr>li_b := keep\<rparr>) (sql_update (\<lambda>l. li_a l = drp) (\<lambda>l. l\<lparr>li_a := keep\<rparr>) rows))"

text \<open>\<open>DELETE FROM entities\<close> with the actions of the foreign keys.\<close>

definition delete_entity :: "int \<Rightarrow> knowledge \<Rightarrow> knowledge" where
  "delete_entity i kb = kb\<lparr>
     kb_entities := sql_delete (\<lambda>e. en_id e = i) (kb_entities kb),
     kb_descriptions := sql_delete (\<lambda>d. de_entity_id d = i) (kb_descriptions kb),
     kb_aliases := sql_delete (\<lambda>a. al_entity_id a = i) (kb_aliases kb),
     kb_links := sql_delete (\<lambda>l. li_a l = i \<or> li_b l = i) (kb_links kb),
     kb_facts := sql_delete (\<lambda>f. fa_entity_id f = i) (kb_facts kb),
     kb_relationships := sql_delete (\<lambda>r. rl_source r = i \<or> rl_target r = i) (kb_relationships kb),
     kb_events := sql_update (\<lambda>e. ev_location e = Some i) (\<lambda>e. e\<lparr>ev_location := None\<rparr>) (kb_events kb),
     kb_activity := sql_delete (\<lambda>a. ac_entity_id a = i) (kb_activity kb),
     kb_states := sql_update (\<lambda>r. sr_perspective r = Some i) (\<lambda>r. r\<lparr>sr_perspective := None\<rparr>)
       (sql_delete (\<lambda>r. sr_entity_id r = i) (kb_states kb)),
     kb_relation_states := sql_delete (\<lambda>r. rs_source r = i \<or> rs_target r = i) (kb_relation_states kb),
     kb_wiki := sql_delete (\<lambda>w. wi_entity_id w = i) (kb_wiki kb)\<rparr>"

definition merge_rows :: "int \<Rightarrow> entity_row \<Rightarrow> entity_row \<Rightarrow> knowledge \<Rightarrow> knowledge" where
  "merge_rows nid kept dropped kb =
     (let keep = en_id kept; drp = en_id dropped in
      kb\<lparr>
       kb_facts := sql_update (\<lambda>f. fa_entity_id f = drp) (\<lambda>f. f\<lparr>fa_entity_id := keep\<rparr>) (kb_facts kb),
       kb_relationships := sql_update (\<lambda>r. rl_target r = drp) (\<lambda>r. r\<lparr>rl_target := keep\<rparr>)
         (sql_update (\<lambda>r. rl_source r = drp) (\<lambda>r. r\<lparr>rl_source := keep\<rparr>) (kb_relationships kb)),
       kb_events := sql_update (\<lambda>e. ev_location e = Some drp) (\<lambda>e. e\<lparr>ev_location := Some keep\<rparr>)
         (map (\<lambda>e. e\<lparr>ev_participants := map_option (merged_participants keep drp) (ev_participants e)\<rparr>) (kb_events kb)),
       kb_activity := merge_activity keep drp (kb_activity kb),
       kb_states := sql_update (\<lambda>r. sr_perspective r = Some drp) (\<lambda>r. r\<lparr>sr_perspective := Some keep\<rparr>)
         (sql_update (\<lambda>r. sr_entity_id r = drp) (\<lambda>r. r\<lparr>sr_entity_id := keep\<rparr>) (kb_states kb)),
       kb_relation_states := sql_update (\<lambda>r. rs_target r = drp) (\<lambda>r. r\<lparr>rs_target := keep\<rparr>)
         (sql_update (\<lambda>r. rs_source r = drp) (\<lambda>r. r\<lparr>rs_source := keep\<rparr>) (kb_relation_states kb)),
       kb_thread_updates := map (\<lambda>u. u\<lparr>tu_participants := merged_participants keep drp (tu_participants u)\<rparr>) (kb_thread_updates kb),
       kb_aliases := merge_aliases nid kept dropped (kb_aliases kb),
       kb_descriptions := merge_descriptions nid keep drp (kb_descriptions kb),
       kb_links := merge_links keep drp (kb_links kb)\<rparr>)"

definition merge_entities :: "int \<Rightarrow> int \<Rightarrow> int \<Rightarrow> (knowledge, unit) op" where
  "merge_entities nid keep drp kb =
     (if keep = drp then (Inl (ValueError ''keep and drop entity ids must differ''), kb)
      else case (novel_entity nid keep kb, novel_entity nid drp kb) of
        (Some kept, Some dropped) \<Rightarrow>
          (Inr (), clear_caches nid None (Some drp) (clear_caches nid None (Some keep)
             (delete_entity drp (merge_rows nid kept dropped kb))))
      | _ \<Rightarrow> (Inl (ValueError ''both entities must belong to the supplied novel''), kb))"

text \<open>A row of any table that refers to an entity.\<close>

definition refers :: "int \<Rightarrow> knowledge \<Rightarrow> bool" where
  "refers i kb \<longleftrightarrow>
     i \<in> en_id ` set (kb_entities kb) \<or> i \<in> de_entity_id ` set (kb_descriptions kb) \<or> i \<in> al_entity_id ` set (kb_aliases kb) \<or>
     i \<in> li_a ` set (kb_links kb) \<or> i \<in> li_b ` set (kb_links kb) \<or> i \<in> fa_entity_id ` set (kb_facts kb) \<or>
     i \<in> rl_source ` set (kb_relationships kb) \<or> i \<in> rl_target ` set (kb_relationships kb) \<or>
     (\<exists>e \<in> set (kb_events kb). ev_location e = Some i \<or> (\<exists>ps. ev_participants e = Some ps \<and> i \<in> set ps)) \<or>
     i \<in> ac_entity_id ` set (kb_activity kb) \<or> i \<in> sr_entity_id ` set (kb_states kb) \<or>
     Some i \<in> sr_perspective ` set (kb_states kb) \<or> i \<in> rs_source ` set (kb_relation_states kb) \<or>
     i \<in> rs_target ` set (kb_relation_states kb) \<or> (\<exists>u \<in> set (kb_thread_updates kb). i \<in> set (tu_participants u)) \<or>
     i \<in> wi_entity_id ` set (kb_wiki kb)"

text \<open>The names of an entity known at a ceiling, besides its canonical one.\<close>

definition names_in :: "alias_row list \<Rightarrow> rat \<Rightarrow> int \<Rightarrow> string set" where
  "names_in rows c i = {n. \<exists>a \<in> set rows. al_alias a = n \<and> al_entity_id a = i \<and> al_revealed a \<le> c}"

definition alias_names :: "knowledge \<Rightarrow> rat \<Rightarrow> int \<Rightarrow> string set" where
  "alias_names kb c i = names_in (kb_aliases kb) c i"

lemma novel_entity_id: "novel_entity nid i kb = Some e \<Longrightarrow> e \<in> set (kb_entities kb) \<and> en_id e = i \<and> en_novel_id e = nid"
  by (auto simp: novel_entity_def find_Some_iff)

lemma merged_participants_gone: "keep \<noteq> drp \<Longrightarrow> drp \<notin> set (merged_participants keep drp ps)"
  by (auto simp: merged_participants_def redirect_def)

lemma merge_entities_ok:
  assumes "merge_entities nid keep drp kb = (Inr u, kb')"
  obtains kept dropped where "keep \<noteq> drp" "novel_entity nid keep kb = Some kept" "novel_entity nid drp kb = Some dropped"
    "kb' = clear_caches nid None (Some drp) (clear_caches nid None (Some keep) (delete_entity drp (merge_rows nid kept dropped kb)))"
  using assms by (auto simp: merge_entities_def split: if_splits option.splits)

lemma names_put_alias:
  "names_in (put_alias nid keep (s, x) rows) c j = names_in rows c j \<union> (if j = keep \<and> x \<le> c then {s} else {})"
proof (cases "\<exists>a \<in> set rows. al_entity_id a = keep \<and> al_alias a = s")
  case False
  then show ?thesis by (auto simp: put_alias_def names_in_def)
next
  case True
  let ?f = "\<lambda>a. if al_entity_id a = keep \<and> al_alias a = s then a\<lparr>al_revealed := min (al_revealed a) x\<rparr> else a"
  have rows: "set (put_alias nid keep (s, x) rows) = ?f ` set rows"
    using True by (simp add: put_alias_def set_sql_update)
  have f: "al_alias (?f a) = al_alias a" "al_entity_id (?f a) = al_entity_id a" for a by simp_all
  have r: "al_revealed (?f a) \<le> c \<longleftrightarrow> al_revealed a \<le> c \<or> (al_entity_id a = keep \<and> al_alias a = s \<and> x \<le> c)" for a
    by (auto simp: min_le_iff_disj)
  have "names_in (put_alias nid keep (s, x) rows) c j =
      {n. \<exists>a \<in> set rows. al_alias a = n \<and> al_entity_id a = j \<and> (al_revealed a \<le> c \<or> (al_entity_id a = keep \<and> al_alias a = s \<and> x \<le> c))}"
    unfolding names_in_def rows bex_simps(7) f r ..
  then show ?thesis using True unfolding names_in_def by auto
qed

lemma names_fold_put:
  "names_in (fold (put_alias nid keep) sas rows) c j =
   names_in rows c j \<union> (if j = keep then {s. \<exists>x. (s, x) \<in> set sas \<and> x \<le> c} else {})"
proof (induction sas arbitrary: rows)
  case (Cons sa sas)
  obtain s x where "sa = (s, x)" by (cases sa)
  then show ?case by (auto simp: Cons.IH names_put_alias)
qed simp

lemma names_merge:
  assumes "en_id kept \<noteq> en_id dropped"
  shows "names_in (merge_aliases nid kept dropped rows) c (en_id kept) =
    names_in rows c (en_id kept) \<union> names_in rows c (en_id dropped) \<union>
    (if en_name dropped \<noteq> en_name kept \<and> en_first_seen dropped \<le> c then {en_name dropped} else {})"
proof -
  have "names_in (sql_delete (\<lambda>a. al_entity_id a = en_id dropped) rs) c (en_id kept) = names_in rs c (en_id kept)" for rs
    using assms by (auto simp: names_in_def set_sql_delete)
  then show ?thesis
    by (auto simp: merge_aliases_def Let_def names_fold_put) (auto simp: names_in_def)
qed

lemma moved_rows:
  assumes "keep \<noteq> drp" "\<And>r. g (f r) = keep"
  shows "sql_delete (\<lambda>r. g r = drp) (sql_update (\<lambda>r. g r = drp) f rows) = map (\<lambda>r. if g r = drp then f r else r) rows"
proof -
  have "filter (\<lambda>r. g r \<noteq> drp) (map (\<lambda>r. if g r = drp then f r else r) rows) = map (\<lambda>r. if g r = drp then f r else r) rows"
    by (rule filter_True) (use assms in auto)
  then show ?thesis by (simp add: sql_delete_def sql_update_def)
qed

lemma merged_facts:
  "keep \<noteq> drp \<Longrightarrow> sql_delete (\<lambda>f. fa_entity_id f = drp) (sql_update (\<lambda>f. fa_entity_id f = drp) (\<lambda>f. f\<lparr>fa_entity_id := keep\<rparr>) rows) =
     map (\<lambda>f. f\<lparr>fa_entity_id := redirect keep drp (fa_entity_id f)\<rparr>) rows"
  by (subst moved_rows) (auto simp: redirect_def)

lemma merged_states:
  "keep \<noteq> drp \<Longrightarrow> sql_update (\<lambda>r. sr_perspective r = Some drp) (\<lambda>r. r\<lparr>sr_perspective := None\<rparr>)
     (sql_delete (\<lambda>r. sr_entity_id r = drp) (sql_update (\<lambda>r. sr_perspective r = Some drp) (\<lambda>r. r\<lparr>sr_perspective := Some keep\<rparr>)
       (sql_update (\<lambda>r. sr_entity_id r = drp) (\<lambda>r. r\<lparr>sr_entity_id := keep\<rparr>) rows))) =
   map (\<lambda>r. r\<lparr>sr_entity_id := redirect keep drp (sr_entity_id r),
      sr_perspective := map_option (redirect keep drp) (sr_perspective r)\<rparr>) rows"
proof (induction rows)
  case (Cons a rows)
  show ?case using Cons by (cases a, cases "sr_perspective a") (auto simp: redirect_def sql_delete_def)
qed (simp add: sql_delete_def)

lemma merged_relation_states:
  "keep \<noteq> drp \<Longrightarrow> sql_delete (\<lambda>r. rs_source r = drp \<or> rs_target r = drp)
     (sql_update (\<lambda>r. rs_target r = drp) (\<lambda>r. r\<lparr>rs_target := keep\<rparr>) (sql_update (\<lambda>r. rs_source r = drp) (\<lambda>r. r\<lparr>rs_source := keep\<rparr>) rows)) =
   map (\<lambda>r. r\<lparr>rs_source := redirect keep drp (rs_source r), rs_target := redirect keep drp (rs_target r)\<rparr>) rows"
  by (induction rows) (auto simp: redirect_def sql_delete_def)

lemma merged_relationships:
  "keep \<noteq> drp \<Longrightarrow> sql_delete (\<lambda>r. rl_source r = drp \<or> rl_target r = drp)
     (sql_update (\<lambda>r. rl_target r = drp) (\<lambda>r. r\<lparr>rl_target := keep\<rparr>) (sql_update (\<lambda>r. rl_source r = drp) (\<lambda>r. r\<lparr>rl_source := keep\<rparr>) rows)) =
   map (\<lambda>r. r\<lparr>rl_source := redirect keep drp (rl_source r), rl_target := redirect keep drp (rl_target r)\<rparr>) rows"
  by (induction rows) (auto simp: redirect_def sql_delete_def)

definition merged_db :: "int \<Rightarrow> entity_row \<Rightarrow> entity_row \<Rightarrow> knowledge \<Rightarrow> knowledge" where
  "merged_db nid kept dropped kb = clear_caches nid None (Some (en_id dropped)) (clear_caches nid None (Some (en_id kept))
     (delete_entity (en_id dropped) (merge_rows nid kept dropped kb)))"

lemma merged_db_sel:
  assumes "en_id kept \<noteq> en_id dropped"
  shows "kb_entities (merged_db nid kept dropped kb) = sql_delete (\<lambda>e. en_id e = en_id dropped) (kb_entities kb)"
    "kb_facts (merged_db nid kept dropped kb) =
       map (\<lambda>f. f\<lparr>fa_entity_id := redirect (en_id kept) (en_id dropped) (fa_entity_id f)\<rparr>) (kb_facts kb)"
    "kb_relationships (merged_db nid kept dropped kb) = map (\<lambda>r. r\<lparr>rl_source := redirect (en_id kept) (en_id dropped) (rl_source r),
       rl_target := redirect (en_id kept) (en_id dropped) (rl_target r)\<rparr>) (kb_relationships kb)"
    "kb_states (merged_db nid kept dropped kb) = map (\<lambda>r. r\<lparr>sr_entity_id := redirect (en_id kept) (en_id dropped) (sr_entity_id r),
       sr_perspective := map_option (redirect (en_id kept) (en_id dropped)) (sr_perspective r)\<rparr>) (kb_states kb)"
    "kb_relation_states (merged_db nid kept dropped kb) =
       map (\<lambda>r. r\<lparr>rs_source := redirect (en_id kept) (en_id dropped) (rs_source r),
         rs_target := redirect (en_id kept) (en_id dropped) (rs_target r)\<rparr>) (kb_relation_states kb)"
    "kb_threads (merged_db nid kept dropped kb) = kb_threads kb"
    "kb_thread_updates (merged_db nid kept dropped kb) =
       map (\<lambda>u. u\<lparr>tu_participants := merged_participants (en_id kept) (en_id dropped) (tu_participants u)\<rparr>) (kb_thread_updates kb)"
    "kb_links (merged_db nid kept dropped kb) =
       sql_delete (\<lambda>l. li_a l = en_id dropped \<or> li_b l = en_id dropped) (merge_links (en_id kept) (en_id dropped) (kb_links kb))"
    "kb_aliases (merged_db nid kept dropped kb) =
       sql_delete (\<lambda>a. al_entity_id a = en_id dropped) (merge_aliases nid kept dropped (kb_aliases kb))"
  using assms
  by (simp_all add: merged_db_def clear_caches_def delete_entity_def merge_rows_def Let_def merged_facts merged_relationships
      merged_states merged_relation_states)

lemma merged_refers:
  assumes ne: "en_id kept \<noteq> en_id dropped"
  shows "\<not> refers (en_id dropped) (merged_db nid kept dropped kb)"
proof -
  let ?kb = "merged_db nid kept dropped kb" and ?d = "en_id dropped"
  have rd: "redirect (en_id kept) ?d i \<noteq> ?d" "?d \<noteq> redirect (en_id kept) ?d i" for i using ne by (simp_all add: redirect_def)
  have "?d \<notin> de_entity_id ` set (kb_descriptions ?kb)" "?d \<notin> ac_entity_id ` set (kb_activity ?kb)" "?d \<notin> wi_entity_id ` set (kb_wiki ?kb)"
    by (auto simp: merged_db_def clear_caches_def delete_entity_def set_sql_delete)
  moreover have "\<not> (\<exists>e \<in> set (kb_events ?kb). ev_location e = Some ?d \<or> (\<exists>ps. ev_participants e = Some ps \<and> ?d \<in> set ps))"
    using merged_participants_gone [OF ne]
    by (auto simp: merged_db_def clear_caches_def delete_entity_def merge_rows_def Let_def set_sql_update)
  moreover have "?d \<notin> en_id ` set (kb_entities ?kb)" "?d \<notin> al_entity_id ` set (kb_aliases ?kb)" "?d \<notin> li_a ` set (kb_links ?kb)"
    "?d \<notin> li_b ` set (kb_links ?kb)"
    by (auto simp: merged_db_sel [OF ne] set_sql_delete)
  moreover have "?d \<notin> fa_entity_id ` set (kb_facts ?kb)" "?d \<notin> rl_source ` set (kb_relationships ?kb)"
    "?d \<notin> rl_target ` set (kb_relationships ?kb)" "?d \<notin> sr_entity_id ` set (kb_states ?kb)" "Some ?d \<notin> sr_perspective ` set (kb_states ?kb)"
    "?d \<notin> rs_source ` set (kb_relation_states ?kb)" "?d \<notin> rs_target ` set (kb_relation_states ?kb)"
    using rd by (auto simp: merged_db_sel [OF ne] image_def dest: sym)
  moreover have "\<not> (\<exists>u \<in> set (kb_thread_updates ?kb). ?d \<in> set (tu_participants u))"
    using merged_participants_gone [OF ne] by (auto simp: merged_db_sel [OF ne])
  ultimately show ?thesis unfolding refers_def by blast
qed

lemma merge_entities_db:
  assumes "merge_entities nid keep drp kb = (Inr u, kb')"
  obtains kept dropped where "keep \<noteq> drp" "novel_entity nid keep kb = Some kept" "novel_entity nid drp kb = Some dropped"
    "en_id kept = keep" "en_id dropped = drp" "kb' = merged_db nid kept dropped kb"
proof (rule merge_entities_ok [OF assms])
  fix kept dropped
  assume a: "keep \<noteq> drp" "novel_entity nid keep kb = Some kept" "novel_entity nid drp kb = Some dropped"
    "kb' = clear_caches nid None (Some drp) (clear_caches nid None (Some keep) (delete_entity drp (merge_rows nid kept dropped kb)))"
  then have "en_id kept = keep" "en_id dropped = drp" using novel_entity_id by blast+
  then show ?thesis using a that [of kept dropped] by (simp add: merged_db_def)
qed

text \<open>What a merge does to the tables it does not simply redirect. Participants keep their members.\<close>

lemma set_merged_participants: "set (merged_participants keep drp ps) = redirect keep drp ` set ps"
  by (auto simp: merged_participants_def redirect_def image_iff)

lemma merged_events:
  assumes "en_id kept \<noteq> en_id dropped"
  shows "kb_events (merged_db nid kept dropped kb) =
    map (\<lambda>e. e\<lparr>ev_participants := map_option (merged_participants (en_id kept) (en_id dropped)) (ev_participants e),
      ev_location := map_option (redirect (en_id kept) (en_id dropped)) (ev_location e)\<rparr>) (kb_events kb)"
  using assms by (auto simp: merged_db_def clear_caches_def delete_entity_def merge_rows_def Let_def sql_update_def redirect_def
      map_option_case split: option.splits)

lemma merged_links:
  assumes "keep \<noteq> drp"
  shows "sql_delete (\<lambda>l. li_a l = drp \<or> li_b l = drp) (merge_links keep drp rows) =
    filter (\<lambda>l. li_a l \<noteq> li_b l) (map (\<lambda>l. l\<lparr>li_a := redirect keep drp (li_a l), li_b := redirect keep drp (li_b l)\<rparr>) rows)"
  using assms by (induction rows) (auto simp: merge_links_def redirect_def sql_delete_def)

text \<open>The activity counted for an entity in a chapter, by one extraction version, and the description of a chapter.\<close>

definition activity_total :: "(activity_row \<Rightarrow> 'a :: comm_monoid_add) \<Rightarrow> int \<times> int \<times> rat \<times> string \<Rightarrow> activity_row list \<Rightarrow> 'a" where
  "activity_total f k rows = sum_list (map f (filter (\<lambda>r. activity_key r = k) rows))"

definition activity_chunks :: "int \<times> int \<times> rat \<times> string \<Rightarrow> activity_row list \<Rightarrow> int set" where
  "activity_chunks k rows = \<Union> (set ` ac_chunks ` {r \<in> set rows. activity_key r = k})"

definition described :: "int \<Rightarrow> rat \<Rightarrow> description_row list \<Rightarrow> string option" where
  "described i c rows = map_option de_text (find (\<lambda>d. de_entity_id d = i \<and> de_chapter d = c) rows)"

text \<open>A field that \<open>ON CONFLICT\<close> adds up.\<close>

definition adds_up :: "(activity_row \<Rightarrow> 'a :: comm_monoid_add) \<Rightarrow> bool" where
  "adds_up f \<longleftrightarrow> (\<forall>s r cs. f (s\<lparr>ac_mentions := ac_mentions s + ac_mentions r, ac_claims := ac_claims s + ac_claims r,
     ac_events := ac_events s + ac_events r, ac_salience := ac_salience s + ac_salience r, ac_chunks := cs\<rparr>) = f s + f r) \<and>
   (\<forall>r i. f (r\<lparr>ac_entity_id := i\<rparr>) = f r)"

lemma counters_add_up: "adds_up ac_mentions" "adds_up ac_claims" "adds_up ac_events" "adds_up ac_salience"
  by (simp_all add: adds_up_def)

lemma add_activity_keys: "distinct (map activity_key rows) \<Longrightarrow> distinct (map activity_key (add_activity r rows))"
  by (auto simp: add_activity_def activity_key_def map_sql_update)

lemma activity_total_sql_update:
  assumes key: "\<And>s. activity_key (u s) = activity_key s" and f: "\<And>s. f (u s) = f s + d"
    and "distinct (map activity_key rows)" "k0 \<in> activity_key ` set rows"
  shows "activity_total f k (sql_update (\<lambda>s. activity_key s = k0) u rows) =
    activity_total f k rows + (if k0 = k then d else 0)"
  using assms(3,4)
proof (induction rows)
  case (Cons s rows)
  have absent: "activity_total f k (sql_update (\<lambda>s. activity_key s = k0) u rs) = activity_total f k rs"
    if "k0 \<notin> activity_key ` set rs" for rs
    using that by (induction rs) (auto simp: activity_total_def)
  show ?case
  proof (cases "activity_key s = k0")
    case True
    then have "k0 \<notin> activity_key ` set rows" using Cons.prems by auto
    from absent [OF this] show ?thesis using True by (auto simp: activity_total_def key f ac_simps)
  next
    case False
    then show ?thesis using Cons by (auto simp: activity_total_def ac_simps)
  qed
qed simp

lemma activity_total_add:
  assumes f: "adds_up f" and d: "distinct (map activity_key rows)"
  shows "activity_total f k (add_activity r rows) = activity_total f k rows + (if activity_key r = k then f r else 0)"
proof (cases "activity_key r \<in> activity_key ` set rows")
  case True
  then show ?thesis unfolding add_activity_def if_P [OF True]
    using f d by (intro activity_total_sql_update) (simp_all add: adds_up_def activity_key_def)
qed (simp add: add_activity_def activity_total_def)

lemma activity_total_fold:
  assumes "adds_up f" "distinct (map activity_key rows)"
  shows "activity_total f k (fold (\<lambda>r. add_activity (r\<lparr>ac_entity_id := keep\<rparr>)) rs rows) =
    activity_total f k rows + activity_total f k (map (\<lambda>r. r\<lparr>ac_entity_id := keep\<rparr>) rs)"
  using assms(2)
proof (induction rs arbitrary: rows)
  case (Cons r rs)
  then show ?case using activity_total_add [OF assms(1) Cons.prems] add_activity_keys [OF Cons.prems]
    by (simp add: activity_total_def ac_simps)
qed (simp add: activity_total_def)

lemma activity_chunks_Cons:
  "activity_chunks k (x # xs) = (if activity_key x = k then set (ac_chunks x) else {}) \<union> activity_chunks k xs"
  by (auto simp: activity_chunks_def)

lemma activity_chunks_sql_update:
  assumes key: "\<And>s. activity_key (u s) = activity_key s" and u: "\<And>s. set (ac_chunks (u s)) = set (ac_chunks s) \<union> d"
  shows "activity_chunks k (sql_update (\<lambda>s. activity_key s = k0) u rows) =
    activity_chunks k rows \<union> (if k0 = k \<and> k0 \<in> activity_key ` set rows then d else {})"
proof (induction rows)
  case (Cons s rows)
  show ?case by (cases "activity_key s = k0") (auto simp: Cons.IH activity_chunks_Cons key u)
qed simp

lemma activity_chunks_add:
  "activity_chunks k (add_activity r rows) = activity_chunks k rows \<union> (if activity_key r = k then set (ac_chunks r) else {})"
proof (cases "activity_key r \<in> activity_key ` set rows")
  case True
  then show ?thesis unfolding add_activity_def if_P [OF True]
    by (subst activity_chunks_sql_update) (simp_all add: activity_key_def)
qed (auto simp: add_activity_def activity_chunks_def)

lemma activity_chunks_fold:
  "activity_chunks k (fold (\<lambda>r. add_activity (r\<lparr>ac_entity_id := keep\<rparr>)) rs rows) =
    activity_chunks k rows \<union> activity_chunks k (map (\<lambda>r. r\<lparr>ac_entity_id := keep\<rparr>) rs)"
proof (induction rs arbitrary: rows)
  case (Cons r rs)
  then show ?case by (simp add: activity_chunks_add activity_chunks_Cons Un_assoc)
qed (simp add: activity_chunks_def)

lemma add_activity_others:
  "ac_entity_id r = keep \<Longrightarrow> filter (\<lambda>r. ac_entity_id r \<notin> {keep, drp}) (add_activity r rows) =
    filter (\<lambda>r. ac_entity_id r \<notin> {keep, drp}) rows"
proof -
  assume r: "ac_entity_id r = keep"
  have "filter (\<lambda>r. ac_entity_id r \<notin> {keep, drp}) (sql_update (\<lambda>s. activity_key s = activity_key r) u rs) =
      filter (\<lambda>r. ac_entity_id r \<notin> {keep, drp}) rs" if "\<And>s. ac_entity_id (u s) = ac_entity_id s" for u rs
    using that r by (induction rs) (auto simp: activity_key_def)
  then show ?thesis using r by (auto simp: add_activity_def)
qed

lemma merged_activity:
  assumes ne: "keep \<noteq> drp" and d: "distinct (map activity_key rows)"
  defines "rows' \<equiv> sql_delete (\<lambda>a. ac_entity_id a = drp) (merge_activity keep drp rows)"
  shows "adds_up f \<Longrightarrow> activity_total f (n, keep, c, v) rows' =
      activity_total f (n, keep, c, v) rows + activity_total f (n, drp, c, v) rows"
    and "activity_chunks (n, keep, c, v) rows' = activity_chunks (n, keep, c, v) rows \<union> activity_chunks (n, drp, c, v) rows"
    and "filter (\<lambda>r. ac_entity_id r \<notin> {keep, drp}) rows' = filter (\<lambda>r. ac_entity_id r \<notin> {keep, drp}) rows"
proof -
  let ?rs = "filter (\<lambda>r. ac_entity_id r = drp) rows" and ?mv = "\<lambda>r. r\<lparr>ac_entity_id := keep\<rparr>"
  let ?fold = "fold (\<lambda>r. add_activity (?mv r)) ?rs rows"
  have rows': "rows' = filter (\<lambda>r. ac_entity_id r \<noteq> drp) ?fold" by (simp add: rows'_def merge_activity_def sql_delete_def)
  have key: "activity_key r = (n, keep, c, v) \<Longrightarrow> ac_entity_id r \<noteq> drp" for r using ne by (auto simp: activity_key_def)
  have keep_key: "filter (\<lambda>r. activity_key r = (n, keep, c, v)) rows' = filter (\<lambda>r. activity_key r = (n, keep, c, v)) ?fold"
    unfolding rows' filter_filter by (rule filter_cong) (use key in auto)
  show "activity_total f (n, keep, c, v) rows' =
      activity_total f (n, keep, c, v) rows + activity_total f (n, drp, c, v) rows" if f: "adds_up f"
  proof -
    have "activity_total f (n, keep, c, v) (map ?mv (filter (\<lambda>r. ac_entity_id r = drp) xs)) = activity_total f (n, drp, c, v) xs" for xs
      using f by (induction xs) (auto simp: activity_total_def activity_key_def adds_up_def)
    then show ?thesis using activity_total_fold [OF f d, of "(n, keep, c, v)" keep ?rs]
      by (simp add: activity_total_def keep_key)
  qed
  have "activity_chunks (n, keep, c, v) rows' = activity_chunks (n, keep, c, v) ?fold"
    using arg_cong [OF keep_key, of set] by (simp add: activity_chunks_def)
  moreover have "activity_chunks (n, keep, c, v) (map ?mv ?rs) = activity_chunks (n, drp, c, v) rows"
    by (auto simp: activity_chunks_def activity_key_def)
  ultimately show "activity_chunks (n, keep, c, v) rows' = activity_chunks (n, keep, c, v) rows \<union> activity_chunks (n, drp, c, v) rows"
    by (simp add: activity_chunks_fold)
  have "filter (\<lambda>r. ac_entity_id r \<notin> {keep, drp}) (fold (\<lambda>r. add_activity (?mv r)) rs xs) =
      filter (\<lambda>r. ac_entity_id r \<notin> {keep, drp}) xs" for rs xs
  proof (induction rs arbitrary: xs)
    case (Cons r rs)
    have "ac_entity_id (?mv r) = keep" by simp
    from add_activity_others [OF this] show ?case by (simp only: fold_simps Cons.IH)
  qed simp
  moreover have "filter (\<lambda>r. ac_entity_id r \<notin> {keep, drp}) rows' = filter (\<lambda>r. ac_entity_id r \<notin> {keep, drp}) ?fold"
    unfolding rows' filter_filter by (rule filter_cong) auto
  ultimately show "filter (\<lambda>r. ac_entity_id r \<notin> {keep, drp}) rows' = filter (\<lambda>r. ac_entity_id r \<notin> {keep, drp}) rows"
    by simp
qed

text \<open>A chapter described for the dropped entity is described by the same text for the other, unless that has its own.\<close>

lemma find_append: "find p (xs @ ys) = (case find p xs of None \<Rightarrow> find p ys | Some x \<Rightarrow> Some x)"
  by (induction xs) auto

lemma described_put:
  "described keep c (put_description nid keep d rows) =
    (case described keep c rows of Some t \<Rightarrow> Some t | None \<Rightarrow> if de_chapter d = c then Some (de_text d) else None)"
proof (cases "\<exists>r \<in> set rows. de_entity_id r = keep \<and> de_chapter r = de_chapter d")
  case True
  then have "described keep (de_chapter d) rows \<noteq> None" by (auto simp: described_def find_None_iff)
  with True show ?thesis by (auto simp: put_description_def split: option.split)
next
  case False
  then have "find (\<lambda>d. de_entity_id d = keep \<and> de_chapter d = de_chapter d') rows = None" if "de_chapter d = de_chapter d'" for d'
    using that by (auto simp: find_None_iff)
  with False show ?thesis
    by (cases "de_chapter d = c") (auto simp: put_description_def described_def find_append split: option.split)
qed

lemma described_fold:
  "described keep c (fold (put_description nid keep) ds rows) =
    (case described keep c rows of Some t \<Rightarrow> Some t | None \<Rightarrow> map_option de_text (find (\<lambda>d. de_chapter d = c) ds))"
  by (induction ds arbitrary: rows) (auto simp: described_put split: option.split)

lemma described_merge:
  assumes "keep \<noteq> drp"
  shows "described keep c (sql_delete (\<lambda>d. de_entity_id d = drp) (merge_descriptions nid keep drp rows)) =
    (case described keep c rows of Some t \<Rightarrow> Some t | None \<Rightarrow> described drp c rows)"
proof -
  have "find (\<lambda>d. de_entity_id d = keep \<and> de_chapter d = c) (filter (\<lambda>d. de_entity_id d \<noteq> drp) ds) =
      find (\<lambda>d. de_entity_id d = keep \<and> de_chapter d = c) ds" for ds :: "description_row list"
    using assms by (induction ds) auto
  moreover have "find (\<lambda>d. de_chapter d = c) (filter (\<lambda>d. de_entity_id d = drp) ds) =
      find (\<lambda>d. de_entity_id d = drp \<and> de_chapter d = c) ds" for ds :: "description_row list"
    by (induction ds) auto
  ultimately have "described keep c (sql_delete (\<lambda>d. de_entity_id d = drp) ds) = described keep c ds"
    "map_option de_text (find (\<lambda>d. de_chapter d = c) (filter (\<lambda>d. de_entity_id d = drp) ds)) = described drp c ds" for ds
    by (simp_all only: described_def sql_delete_def)
  then show ?thesis by (simp only: merge_descriptions_def described_fold)
qed

text \<open>The aliases and descriptions of other entities.\<close>

lemma merged_others:
  "filter (\<lambda>a. al_entity_id a \<notin> {en_id kept, en_id dropped}) (sql_delete (\<lambda>a. al_entity_id a = en_id dropped) (merge_aliases nid kept dropped as)) =
    filter (\<lambda>a. al_entity_id a \<notin> {en_id kept, en_id dropped}) as"
  "filter (\<lambda>d. de_entity_id d \<notin> {keep, drp}) (sql_delete (\<lambda>d. de_entity_id d = drp) (merge_descriptions nid keep drp ds)) =
    filter (\<lambda>d. de_entity_id d \<notin> {keep, drp}) ds"
proof -
  have a: "filter (\<lambda>a. al_entity_id a \<notin> {k, e}) (put_alias nid k sa rows) = filter (\<lambda>a. al_entity_id a \<notin> {k, e}) rows" for k e sa rows
  proof -
    have "filter (\<lambda>a. al_entity_id a \<notin> {k, e}) (sql_update (\<lambda>a. al_entity_id a = k \<and> al_alias a = s) (\<lambda>a. a\<lparr>al_revealed := min (al_revealed a) x\<rparr>) rs) =
        filter (\<lambda>a. al_entity_id a \<notin> {k, e}) rs" for s x rs
      by (induction rs) auto
    then show ?thesis by (auto simp: put_alias_def)
  qed
  have "filter (\<lambda>a. al_entity_id a \<notin> {k, e}) (fold (put_alias nid k) sas rows) = filter (\<lambda>a. al_entity_id a \<notin> {k, e}) rows" for k e sas rows
    by (induction sas arbitrary: rows) (simp_all only: fold_simps a)
  moreover have "filter (\<lambda>a. al_entity_id a \<notin> {k, e}) (sql_delete (\<lambda>a. al_entity_id a = e) rows) = filter (\<lambda>a. al_entity_id a \<notin> {k, e}) rows"
    for k e and rows :: "alias_row list"
    unfolding sql_delete_def filter_filter by (rule filter_cong) auto
  ultimately show "filter (\<lambda>a. al_entity_id a \<notin> {en_id kept, en_id dropped})
      (sql_delete (\<lambda>a. al_entity_id a = en_id dropped) (merge_aliases nid kept dropped as)) =
    filter (\<lambda>a. al_entity_id a \<notin> {en_id kept, en_id dropped}) as"
    by (simp only: merge_aliases_def Let_def)
  have d: "filter (\<lambda>d. de_entity_id d \<notin> {k, e}) (put_description nid k d rows) = filter (\<lambda>d. de_entity_id d \<notin> {k, e}) rows" for k e d rows
    by (simp add: put_description_def)
  have "filter (\<lambda>d. de_entity_id d \<notin> {k, e}) (fold (put_description nid k) xs rows) = filter (\<lambda>d. de_entity_id d \<notin> {k, e}) rows" for k e xs rows
    by (induction xs arbitrary: rows) (simp_all only: fold_simps d)
  moreover have "filter (\<lambda>d. de_entity_id d \<notin> {k, e}) (sql_delete (\<lambda>d. de_entity_id d = e) rows) = filter (\<lambda>d. de_entity_id d \<notin> {k, e}) rows"
    for k e and rows :: "description_row list"
    unfolding sql_delete_def filter_filter by (rule filter_cong) auto
  ultimately show "filter (\<lambda>d. de_entity_id d \<notin> {keep, drp}) (sql_delete (\<lambda>d. de_entity_id d = drp) (merge_descriptions nid keep drp ds)) =
    filter (\<lambda>d. de_entity_id d \<notin> {keep, drp}) ds"
    by (simp only: merge_descriptions_def)
qed


definition demo_merge :: knowledge where
  "demo_merge = demo_kb [demo_entity 1 ''Klein'' 1, demo_entity 2 ''The Fool'' 2, demo_entity 3 ''Azik'' 1]
     [demo_link 1 1 2 2, demo_link 2 2 3 2] []"


lemma seen_by_redirect:
  assumes "seen_by c i kb" "distinct (map en_id (kb_entities kb))" "kept \<in> set (kb_entities kb)" "dropped \<in> set (kb_entities kb)"
    "en_id kept \<noteq> en_id dropped" "en_first_seen kept \<le> en_first_seen dropped"
  shows "seen_by c (redirect (en_id kept) (en_id dropped) i) (merged_db nid kept dropped kb)"
  unfolding seen_by_def merged_db_sel [OF assms(5)]
proof (intro ballI impI)
  fix e
  assume e: "e \<in> set (sql_delete (\<lambda>e. en_id e = en_id dropped) (kb_entities kb))"
    "en_id e = redirect (en_id kept) (en_id dropped) i"
  then have in_kb: "e \<in> set (kb_entities kb)" by (simp add: set_sql_delete)
  show "en_first_seen e \<le> c"
  proof (cases "i = en_id dropped")
    case True
    then have "e = kept" using e in_kb assms(2,3) by (auto simp: redirect_def distinct_map inj_on_def)
    moreover have "en_first_seen dropped \<le> c" using assms(1,4) True by (simp add: seen_by_def)
    ultimately show ?thesis using assms(6) by simp
  next
    case False
    then show ?thesis using e in_kb assms(1) by (simp add: redirect_def seen_by_def)
  qed
qed

text \<open>A merge that keeps the entity seen first preserves the condition under which the reading tools are free of spoilers; every
  transition still names only entities seen by its chapter.\<close>

lemma merge_keeps_timely:
  assumes "merge_entities nid keep drp kb = (Inr (), kb')" "timely kb" "distinct (map en_id (kb_entities kb))"
    "novel_entity nid keep kb = Some kept" "novel_entity nid drp kb = Some dropped" "en_first_seen kept \<le> en_first_seen dropped"
  shows "timely kb'"
proof -
  have m: "keep \<noteq> drp" "kept \<in> set (kb_entities kb)" "dropped \<in> set (kb_entities kb)" "en_id kept = keep" "en_id dropped = drp"
    "kb' = merged_db nid kept dropped kb"
    using merge_entities_db [OF assms(1)] novel_entity_id [OF assms(4)] novel_entity_id [OF assms(5)] assms(4,5) by auto
  have ne: "en_id kept \<noteq> en_id dropped" using m by simp
  note seen = seen_by_redirect [OF _ assms(3) m(2,3) ne assms(6), of _ _ nid]
  have "\<forall>r \<in> set (kb_states kb'). \<forall>p \<in> set_option (sr_perspective r). seen_by (sr_chapter r) p kb'"
    using assms(2) seen unfolding timely_def m(6) merged_db_sel [OF ne] by fastforce
  moreover have "\<forall>r \<in> set (kb_relation_states kb'). seen_by (rs_chapter r) (rs_source r) kb' \<and> seen_by (rs_chapter r) (rs_target r) kb'"
    using assms(2) seen unfolding timely_def m(6) merged_db_sel [OF ne] by fastforce
  moreover have "\<forall>u \<in> set (kb_thread_updates kb'). \<forall>t \<in> set (kb_threads kb'). th_id t = tu_thread_id u \<longrightarrow> th_introduced t \<le> tu_chapter u"
    using assms(2) unfolding timely_def m(6) merged_db_sel [OF ne] by auto
  ultimately show ?thesis unfolding timely_def by blast
qed

text \<open>
  Keeping the entity seen later breaks it. A stranger met in chapter 3 is merged into Lord Hades, first named in chapter 10;
  at ceiling 5 the profile of the protagonist then names Lord Hades, whom the same reader cannot look up yet.
\<close>

definition demo_relation :: "int \<Rightarrow> int \<Rightarrow> relation_state_row" where
  "demo_relation a b = \<lparr>rs_id = 1, rs_novel_id = 1, rs_source = a, rs_target = b, rs_chapter = 3, rs_key = ''trust'',
     rs_operation = ''set'', rs_value = None, rs_certainty = ''confirmed'', rs_chunks = [], rs_version = ''2.1''\<rparr>"

definition demo_strangers :: knowledge where
  "demo_strangers = demo_kb [demo_entity 1 ''Klein'' 1, demo_entity 2 ''Stranger'' 3, demo_entity 3 ''Lord Hades'' 10] [] [demo_relation 1 2]"

definition related_names :: "knowledge \<Rightarrow> string list" where
  "related_names kb = (case get_entity_profile demo_ks 1 1 5 kb of None \<Rightarrow> []
     | Some p \<Rightarrow> map rv_target_name (pf_relationship_state p))"

lemma demo_strangers_merge:
  "merge_entities 1 3 2 demo_strangers =
     (Inr (), demo_kb [demo_entity 1 ''Klein'' 1, demo_entity 3 ''Lord Hades'' 10] [] [demo_relation 1 3]
       \<lparr>kb_aliases := [\<lparr>al_novel_id = 1, al_entity_id = 3, al_alias = ''Stranger'', al_revealed = 3\<rparr>]\<rparr>)"
  by (simp add: demo_strangers_def demo_defs demo_relation_def merge_entities_def novel_entity_def merge_rows_def delete_entity_def
      clear_caches_def merge_activity_def merge_aliases_def merge_descriptions_def merge_links_def put_alias_def sql_delete_def Let_def)

lemmas related_defs = related_names_def get_entity_profile_def seen_in_def get_connected_personas_def visible_entity_def neighbours_def
  current_relationship_state_def latest_relation_states_def relation_view_of_def novel_entity_def

text \<open>Merging into an entity that appears later discloses it: from a knowledge base in which every transition names entities
  already seen, a merge accepted by the code leads to one in which the profile of another entity, read at ceiling 5, contains the name of
  an entity first seen in chapter 10, which no lookup at that ceiling finds.\<close>

lemma merge_reveals_later_name:
  "timely demo_strangers \<and> fst (merge_entities 1 3 2 demo_strangers) = Inr () \<and>
   related_names demo_strangers = [''Stranger''] \<and>
   related_names (snd (merge_entities 1 3 2 demo_strangers)) = [''Lord Hades''] \<and>
   \<not> visible_entity 1 5 (snd (merge_entities 1 3 2 demo_strangers)) 3"
proof -
  have "timely demo_strangers"
    by (simp add: demo_strangers_def demo_defs demo_relation_def timely_def seen_by_def)
  moreover have "related_names demo_strangers = [''Stranger'']"
    by (simp add: demo_strangers_def demo_defs demo_relation_def related_defs cte_loop.simps Let_def)
  moreover have "related_names (demo_kb [demo_entity 1 ''Klein'' 1, demo_entity 3 ''Lord Hades'' 10] [] [demo_relation 1 3]
       \<lparr>kb_aliases := [\<lparr>al_novel_id = 1, al_entity_id = 3, al_alias = ''Stranger'', al_revealed = 3\<rparr>]\<rparr>) = [''Lord Hades'']"
    by (simp add: demo_defs demo_relation_def related_defs cte_loop.simps Let_def)
  moreover have "\<not> visible_entity 1 5 (snd (merge_entities 1 3 2 demo_strangers)) 3"
    unfolding demo_strangers_merge by (simp add: demo_defs visible_entity_def)
  ultimately show ?thesis by (simp only: demo_strangers_merge fst_conv snd_conv simp_thms)
qed

lemma merge_keeps_timely_witness:
  "timely (snd (merge_entities 1 2 3 demo_strangers))"
proof -
  obtain kb' where run: "merge_entities 1 2 3 demo_strangers = (Inr (), kb')"
    by (simp add: demo_strangers_def demo_defs merge_entities_def novel_entity_def)
  have "timely kb'"
    by (rule merge_keeps_timely [OF run, of "demo_entity 2 ''Stranger'' 3" "demo_entity 3 ''Lord Hades'' 10"])
      (simp_all add: demo_strangers_def demo_defs demo_relation_def timely_def seen_by_def novel_entity_def)
  then show ?thesis by (simp add: run)
qed

section \<open>Resolution stays below the chapter\<close>

lemma exact_match_seen:
  "exact_match nid nm typ chap kb = Some e \<Longrightarrow> visible_entity nid chap kb (en_id e)"
  unfolding exact_match_def visible_entity_def by (drule sql_first_Some_in) (auto simp: seen_in_def)

lemma fuzzy_joined_seen:
  assumes "i \<in> fst ` set (fuzzy_joined cfg nid nm typ chap kb)"
  shows "visible_entity nid chap kb i"
proof -
  obtain e where "e \<in> set (kb_entities kb)" "seen_in nid chap e" "en_id e = i"
    using assms by (auto simp: fuzzy_joined_def dest!: in_set_takeD)
  then show ?thesis by (auto simp: visible_entity_def seen_in_def)
qed

lemma nearest_seen:
  assumes "nearest_embedded cfg nid v typ chap kb = Some (i, s)"
  shows "visible_entity nid chap kb i"
proof -
  let ?f = "\<lambda>e. if seen_in nid chap e \<and> type_matches typ e then map_option (\<lambda>x. (e, x)) (en_embedding e) else None"
  have in_mf: "y \<in> set (List.map_filter f xs) \<Longrightarrow> \<exists>x \<in> set xs. f x = Some y" for y and f :: "entity_row \<Rightarrow> (entity_row \<times> rat list) option" and xs
    by (induction xs) (auto split: option.splits)
  obtain e x where e: "(e, x) \<in> set (List.map_filter ?f (filter (lc_reached cfg v (kb_entities kb)) (kb_entities kb)))" "en_id e = i"
    using assms sql_first_Some_in unfolding nearest_embedded_def by fastforce
  then obtain e' where "e' \<in> set (kb_entities kb)" "?f e' = Some (e, x)" using in_mf [OF e(1)] by auto
  then show ?thesis using e(2) by (auto simp: visible_entity_def seen_in_def split: if_splits)
qed

lemma disambiguated_candidate: "disambiguated reply cands = Some i \<Longrightarrow> i \<in> fst ` set cands"
  by (auto simp: disambiguated_def split: option.splits json.splits if_splits)

lemma create_with_alias_sel:
  "create_with_alias nid nm typ desc v chap kb =
     (Inr (kb_next_entity_id kb), insert_alias nid (kb_next_entity_id kb) nm chap (snd (insert_entity nid nm typ desc v chap kb)))"
  by (simp add: create_with_alias_def insert_entity_def Let_def)

lemma insert_alias_sel [simp]:
  "kb_entities (insert_alias nid i alias chap kb) = kb_entities kb"
  by (simp add: insert_alias_def)

lemma link_semantic_cases:
  assumes "link_semantic cfg nid nm typ chap desc kb = (Inr i, kb')"
  shows "kb' = kb \<and> visible_entity nid chap kb i \<or> (\<exists>v. create_with_alias nid nm typ (desc_or_none desc) v chap kb = (Inr i, kb'))"
proof -
  let ?v = "lc_embedding cfg (embed_text nm (coalesce (desc_or_none desc) []))"
  show ?thesis
  proof (cases "create_with_alias nid nm typ (desc_or_none desc) ?v chap kb = (Inr i, kb')")
    case False
    then obtain s where "nearest_embedded cfg nid ?v typ chap kb = Some (i, s)" "kb' = kb"
      using assms by (auto simp: link_semantic_def Let_def split: if_splits option.splits)
    then show ?thesis using nearest_seen by blast
  qed blast
qed

lemma link_resolve_cases:
  assumes "link_resolve_entity cfg nid mention typ chap desc kb = (Inr i, kb')"
  shows "py_strip mention \<noteq> [] \<and>
    (kb' = kb \<and> visible_entity nid chap kb i \<or>
     exact_match nid (py_strip mention) typ chap kb = None \<and>
     (\<exists>v. create_with_alias nid (py_strip mention) typ (desc_or_none desc) v chap kb = (Inr i, kb')))"
proof -
  let ?nm = "py_strip mention" and ?cands = "fuzzy_joined cfg nid (py_strip mention) typ chap kb"
  have n: "?nm \<noteq> []" using assms by (auto simp: link_resolve_entity_def Let_def)
  show ?thesis
  proof (cases "exact_match nid ?nm typ chap kb")
    case (Some e)
    then show ?thesis using assms n exact_match_seen [OF Some] by (simp add: link_resolve_entity_def Let_def)
  next
    case None
    show ?thesis
    proof (cases "length ?cands = 1 \<and> snd (snd (hd ?cands)) \<ge> ks_fuzzy_accept (lc_settings cfg)")
      case True
      then have "fst (hd ?cands) \<in> fst ` set ?cands" by (cases ?cands) auto
      then have "visible_entity nid chap kb (fst (hd ?cands))" by (rule fuzzy_joined_seen)
      moreover have "i = fst (hd ?cands)" "kb' = kb" using assms n None True by (auto simp: link_resolve_entity_def Let_def)
      ultimately show ?thesis using n by simp
    next
      case no_single: False
      show ?thesis
      proof (cases "if ?cands = [] then None else disambiguated (lc_disambiguate cfg ?nm ?cands) ?cands")
        case (Some j)
        then have "visible_entity nid chap kb j"
          using fuzzy_joined_seen disambiguated_candidate by (metis option.distinct(1))
        moreover have "i = j" "kb' = kb" using assms n None no_single Some by (auto simp: link_resolve_entity_def Let_def)
        ultimately show ?thesis using n by simp
      next
        case none: None
        have "link_resolve_entity cfg nid mention typ chap desc kb = link_semantic cfg nid ?nm typ chap desc kb"
          by (simp only: link_resolve_entity_def Let_def n None no_single none if_False option.case)
        then have "link_semantic cfg nid ?nm typ chap desc kb = (Inr i, kb')" using assms by simp
        from link_semantic_cases [OF this] n None show ?thesis by blast
      qed
    qed
  qed
qed

text \<open>C15: Resolving a mention never returns an entity of a later chapter, whatever the embedding model, the similarity and the
  disambiguating model answer; and when it has created an entity, the same mention resolves to that entity again, without another
  creation and without asking any model.\<close>

theorem link_resolution_stable:
  assumes "link_resolve_entity cfg nid mention typ chap desc kb = (Inr i, kb')"
    and "\<forall>e \<in> set (kb_entities kb). en_id e < kb_next_entity_id kb"
  shows "visible_entity nid chap kb' i \<and>
    (kb' \<noteq> kb \<longrightarrow> (\<forall>cfg' desc'. link_resolve_entity cfg' nid mention typ chap desc' kb' = (Inr i, kb')))"
proof -
  let ?nm = "py_strip mention" and ?i = "kb_next_entity_id kb"
  from link_resolve_cases [OF assms(1)] consider
      "kb' = kb" "visible_entity nid chap kb i"
    | v where "?nm \<noteq> []" "exact_match nid ?nm typ chap kb = None" "create_with_alias nid ?nm typ (desc_or_none desc) v chap kb = (Inr i, kb')"
    by blast
  then show ?thesis
  proof cases
    case 1
    then show ?thesis by simp
  next
    case (2 v)
    let ?new = "\<lparr>en_id = ?i, en_novel_id = nid, en_name = ?nm, en_type = typ, en_description = desc_or_none desc,
      en_embedding = (if v = [] then None else Some v), en_first_seen = chap\<rparr>"
    have i: "i = ?i" and kb': "kb' = insert_alias nid ?i ?nm chap (snd (insert_entity nid ?nm typ (desc_or_none desc) v chap kb))"
      using 2(3) by (auto simp: create_with_alias_sel)
    have es: "kb_entities kb' = kb_entities kb @ [?new]" by (simp add: kb' insert_entity_def)
    have as: "a \<in> set (kb_aliases kb') \<Longrightarrow> a \<in> set (kb_aliases kb) \<or> al_entity_id a = ?i" for a
      by (auto simp: kb' insert_alias_def insert_entity_def split: if_splits)
    have old: "known_alias chap kb' (same_name ?nm) e \<Longrightarrow> known_alias chap kb (same_name ?nm) e" if "e \<in> set (kb_entities kb)" for e
      using as assms(2) that by (fastforce simp: known_alias_def)
    let ?p = "\<lambda>kb e. (same_name (en_name e) ?nm \<or> known_alias chap kb (same_name ?nm) e) \<and> seen_in nid chap e \<and> type_matches typ e"
    have "filter (?p kb) (kb_entities kb) = []"
      using 2(2) by (simp add: exact_match_def sql_first_None_iff)
    then have "filter (?p kb') (kb_entities kb) = []" using old by (auto simp: filter_empty_conv)
    moreover have "?p kb' ?new" by (simp add: same_name_def seen_in_def type_matches_def)
    ultimately have "exact_match nid ?nm typ chap kb' = Some ?new" by (simp add: exact_match_def es)
    then have "link_resolve_entity cfg' nid mention typ chap desc' kb' = (Inr i, kb')" for cfg' desc'
      using 2(1) i by (simp add: link_resolve_entity_def Let_def)
    then show ?thesis using i by (auto simp: visible_entity_def es)
  qed
qed

definition demo_link_config :: "rat list \<Rightarrow> link_config" where
  "demo_link_config v = \<lparr>lc_settings = demo_ks, lc_similarity = (\<lambda>a b. 0), lc_embedding = (\<lambda>_. v),
     lc_distance = (\<lambda>_ _. 1), lc_reached = (\<lambda>_ _ _. True), lc_disambiguate = (\<lambda>_ _. None)\<rparr>"

lemmas link_demo_defs = link_resolve_entity_def exact_match_def fuzzy_joined_def link_semantic_def demo_link_config_def demo_defs
  known_alias_def same_name_def py_lower_def lower_char_def py_strip_def py_lstrip_def py_rstrip_def is_py_space_def Let_def

theorem link_resolution_stable_witness:
  "\<exists>kb'. link_resolve_entity (demo_link_config []) 1 ''Audrey'' ''character'' 4 None (demo_kb [demo_entity 1 ''Klein'' 1] [] []) = (Inr 100, kb') \<and>
     link_resolve_entity (demo_link_config [1]) 1 ''Audrey'' ''character'' 4 None kb' = (Inr 100, kb')"
proof -
  let ?kb = "demo_kb [demo_entity 1 ''Klein'' 1] [] []"
  obtain kb' where run: "link_resolve_entity (demo_link_config []) 1 ''Audrey'' ''character'' 4 None ?kb = (Inr 100, kb')" and ne: "kb' \<noteq> ?kb"
    by (simp add: link_demo_defs create_with_alias_def insert_entity_def insert_alias_def)
  have "\<forall>e \<in> set (kb_entities ?kb). en_id e < kb_next_entity_id ?kb" by (simp add: demo_defs)
  from link_resolution_stable [OF run this] ne have
    "link_resolve_entity (demo_link_config [1]) 1 ''Audrey'' ''character'' 4 None kb' = (Inr 100, kb')" by simp
  with run show ?thesis by (intro exI conjI)
qed

text \<open>
  The semantic stage of \<open>resolve_entity\<close> does not exclude rows without an embedding, as \<open>find_resolution_candidates\<close> does: when
  every visible entity of the type was created while the embedding model failed, resolving a new mention compares NULL and raises.
\<close>

lemma link_resolution_null_embedding:
  "fst (link_resolve_entity (demo_link_config [1]) 1 ''Audrey'' ''character'' 4 None (demo_kb [demo_entity 1 ''Klein'' 1] [] [])) =
     Inl (TypeError ''NoneType > float'') \<and>
   find_resolution_candidates (demo_link_config [1]) 1 ''Audrey'' ''character'' 4 None (demo_kb [demo_entity 1 ''Klein'' 1] [] []) =
     Inr \<lparr>pr_existing = None, pr_candidates = []\<rparr>"
proof -
  let ?kb = "demo_kb [demo_entity 1 ''Klein'' 1] [] []"
  show ?thesis
    by (simp add: link_demo_defs find_resolution_candidates_def fuzzy_candidates_def name_score_def known_aliases_def nearest_embedded_def
        some_row_def seen_in_def type_matches_def)
qed

end
