(* ===== verification/Codex_Extraction.thy ===== *)
theory Codex_Extraction
  imports Codex_Entities Codex_Store
begin

text \<open>
  Committing the extraction of a chapter: \<open>PostgresCodexExtractionTransactionService.commit_extraction\<close> and
  \<open>_clear_extraction_chapter\<close> of \<open>modules/codex/adapters/outbound/ingest/extract.py\<close> under
  \<open>workflows/commit_codex_extraction.py\<close>. The model starts from a proposal that has passed the validation of its shape
  (\<open>ExtractionPayload\<close>, reference graph, summary and memory checks); the quarantine of ungrounded items (instantiated in Codex_Grounding), the digests of the chapter, of the
  memory and of the rebuilt context, and the tokenizer are arguments. Columns no modelled query reads are left out.
\<close>

section \<open>The proposal\<close>

record x_mention =
  xm_ref :: string
  xm_surface :: string
  xm_type :: string
  xm_description :: string

record x_fact =
  xf_ref :: string
  xf_type :: string
  xf_content :: string
  xf_evidence :: "string option"
  xf_chunks :: "int list"

record x_relationship =
  xr_source :: string
  xr_target :: string
  xr_type :: string
  xr_directed :: bool
  xr_content :: string
  xr_evidence :: "string option"
  xr_chunks :: "int list"

record x_event =
  xe_description :: string
  xe_participants :: "string list"
  xe_location :: "string option"
  xe_evidence :: "string option"
  xe_chunks :: "int list"

record x_reveal =
  xi_persona :: string
  xi_true :: string
  xi_note :: string
  xi_evidence :: "string option"
  xi_chunks :: "int list"

record x_alias =
  xa_ref :: string
  xa_alias :: string
  xa_evidence :: "string option"
  xa_chunks :: "int list"

record x_state =
  xs_ref :: string
  xs_key :: string
  xs_operation :: string
  xs_value :: json
  xs_value_ref :: "string option"
  xs_perspective :: "string option"
  xs_certainty :: string
  xs_scope :: string
  xs_evidence :: "string option"
  xs_chunks :: "int list"

record x_relation_state =
  xt_source :: string
  xt_target :: string
  xt_key :: string
  xt_operation :: string
  xt_value :: json
  xt_certainty :: string
  xt_evidence :: "string option"
  xt_chunks :: "int list"

record x_thread =
  xu_ref :: string
  xu_operation :: string
  xu_title :: "string option"
  xu_summary :: string
  xu_participants :: "string list"
  xu_keywords :: "string list"
  xu_evidence :: "string option"
  xu_chunks :: "int list"

record x_memory =
  xy_kind :: string
  xy_summary :: string
  xy_chunks :: "int list"

record extraction =
  x_mentions :: "x_mention list"
  x_facts :: "x_fact list"
  x_relationships :: "x_relationship list"
  x_events :: "x_event list"
  x_reveals :: "x_reveal list"
  x_aliases :: "x_alias list"
  x_states :: "x_state list"
  x_relation_states :: "x_relation_state list"
  x_threads :: "x_thread list"
  x_memories :: "x_memory list"

section \<open>The tables of the pipeline\<close>

record summary_row =
  cu_novel_id :: int
  cu_chapter :: rat
  cu_text :: string
  cu_tokens :: nat
  cu_source :: string
  cu_chunks :: "int list"
  cu_version :: string

record segment_row =
  mg_novel_id :: int
  mg_kind :: string
  mg_start :: rat
  mg_end :: rat
  mg_through :: rat
  mg_part_label :: "string option"
  mg_text :: string
  mg_tokens :: nat
  mg_hash :: string
  mg_version :: string

record context_row =
  cc_novel_id :: int
  cc_chapter :: rat
  cc_version :: string
  cc_source :: string
  cc_context :: string

record extraction_state_row =
  xz_novel_id :: int
  xz_chapter :: rat
  xz_summary :: string
  xz_run :: "int option"
  xz_source :: string
  xz_version :: string
  xz_context :: "string option"

record extraction_db =
  xd_kb :: knowledge
  xd_summaries :: "summary_row list"
  xd_segments :: "segment_row list"
  xd_contexts :: "context_row list"
  xd_states :: "extraction_state_row list"

definition on_kb :: "(knowledge \<Rightarrow> knowledge) \<Rightarrow> extraction_db \<Rightarrow> extraction_db" where
  "on_kb f db = db\<lparr>xd_kb := f (xd_kb db)\<rparr>"

definition clear_kb :: "int \<Rightarrow> rat \<Rightarrow> knowledge \<Rightarrow> knowledge" where
  "clear_kb nid n kb =
     (let updates = sql_delete (\<lambda>u. tu_novel_id u = nid \<and> tu_chapter u \<ge> n) (kb_thread_updates kb) in kb\<lparr>
       kb_facts := sql_delete (\<lambda>f. fa_novel_id f = nid \<and> fa_chapter f = n) (kb_facts kb),
       kb_relationships := sql_delete (\<lambda>r. rl_novel_id r = nid \<and> rl_chapter r = n) (kb_relationships kb),
       kb_events := sql_delete (\<lambda>e. ev_novel_id e = nid \<and> ev_chapter e = n) (kb_events kb),
       kb_entities := sql_update (\<lambda>e. en_novel_id e = nid \<and> en_first_seen e = n) (\<lambda>e. e\<lparr>en_description := None\<rparr>) (kb_entities kb),
       kb_descriptions := sql_delete (\<lambda>d. de_novel_id d = nid \<and> de_chapter d = n) (kb_descriptions kb),
       kb_links := sql_delete (\<lambda>l. li_novel_id l = nid \<and> li_revealed l = n) (kb_links kb),
       kb_aliases := sql_delete (\<lambda>a. al_novel_id a = nid \<and> al_revealed a = n \<and> al_revealed a \<noteq> 0) (kb_aliases kb),
       kb_activity := sql_delete (\<lambda>a. ac_novel_id a = nid \<and> ac_chapter a \<ge> n) (kb_activity kb),
       kb_states := sql_delete (\<lambda>r. sr_novel_id r = nid \<and> sr_chapter r \<ge> n) (kb_states kb),
       kb_relation_states := sql_delete (\<lambda>r. rs_novel_id r = nid \<and> rs_chapter r \<ge> n) (kb_relation_states kb),
       kb_thread_updates := updates,
       kb_threads := sql_delete (\<lambda>t. th_novel_id t = nid \<and> th_introduced t \<ge> n \<and> th_id t \<notin> tu_thread_id ` set updates) (kb_threads kb)\<rparr>)"

definition clear_extraction_chapter :: "int \<Rightarrow> rat \<Rightarrow> extraction_db \<Rightarrow> extraction_db" where
  "clear_extraction_chapter nid n db = db\<lparr>
     xd_kb := clear_kb nid n (xd_kb db),
     xd_segments := sql_delete (\<lambda>g. mg_novel_id g = nid \<and> mg_through g \<ge> n) (xd_segments db),
     xd_summaries := sql_delete (\<lambda>s. cu_novel_id s = nid \<and> cu_chapter s \<ge> n) (xd_summaries db),
     xd_contexts := sql_delete (\<lambda>x. cc_novel_id x = nid \<and> cc_chapter x \<ge> n) (xd_contexts db),
     xd_states := sql_delete (\<lambda>s. xz_novel_id s = nid \<and> xz_chapter s \<ge> n) (xd_states db)\<rparr>"

section \<open>Writing the items\<close>

text \<open>What the commit works with: the tables, the local references and the activity of the entities.\<close>

record activity_count =
  ay_mentions :: int
  ay_claims :: int
  ay_events :: int
  ay_chunks :: "int list"

record commit_state =
  ct_kb :: knowledge
  ct_local :: "string \<rightharpoonup> int"
  ct_threads :: "string \<rightharpoonup> int"
  ct_activity :: "(int \<times> activity_count) list"

type_synonym 'a commit = "(commit_state, 'a) op"

definition with_kb :: "(knowledge \<Rightarrow> knowledge) \<Rightarrow> unit commit" where
  "with_kb f s = (Inr (), s\<lparr>ct_kb := f (ct_kb s)\<rparr>)"

definition read_commit :: "(commit_state \<Rightarrow> 'a) \<Rightarrow> 'a commit" where
  "read_commit f s = (Inr (f s), s)"

definition no_activity :: activity_count where
  "no_activity = \<lparr>ay_mentions = 0, ay_claims = 0, ay_events = 0, ay_chunks = []\<rparr>"

definition count_activity :: "string \<Rightarrow> int list \<Rightarrow> activity_count \<Rightarrow> activity_count" where
  "count_activity kind chunks a =
     (let b = a\<lparr>ay_chunks := ay_chunks a @ chunks\<rparr> in
      if kind = ''mentions'' then b\<lparr>ay_mentions := ay_mentions b + 1\<rparr>
      else if kind = ''claims'' then b\<lparr>ay_claims := ay_claims b + 1\<rparr>
      else b\<lparr>ay_events := ay_events b + 1\<rparr>)"

definition note_activity :: "int \<Rightarrow> string \<Rightarrow> int list \<Rightarrow> unit commit" where
  "note_activity i kind chunks s =
     (Inr (), s\<lparr>ct_activity := (if i \<in> fst ` set (ct_activity s)
        then map (\<lambda>(j, a). (j, if j = i then count_activity kind chunks a else a)) (ct_activity s)
        else ct_activity s @ [(i, count_activity kind chunks no_activity)])\<rparr>)"

definition clean_chunk_ids :: "int list \<Rightarrow> int list \<Rightarrow> int list result" where
  "clean_chunk_ids raw valid =
     (if raw = [] then Inl (ValueError ''material extraction item lacks source_chunk_ids'')
      else let ids = rev (remdups (rev (filter (\<lambda>x. x \<in> set valid) raw))) in
        if ids = [] then Inl (ValueError ''material extraction item cites no valid chapter chunks'') else Inr ids)"

definition ensure_entity_id :: "string \<Rightarrow> int commit" where
  "ensure_entity_id ref =
     bindS (read_commit (\<lambda>s. ct_local s (py_strip ref))) (\<lambda>r. case r of
       Some i \<Rightarrow> returnS i
     | None \<Rightarrow> raiseS (ValueError (''proposal references undeclared entity ref: '' @ py_strip ref)))"

fun each :: "('x \<Rightarrow> unit commit) \<Rightarrow> 'x list \<Rightarrow> unit commit" where
  "each f [] = returnS ()"
| "each f (x # xs) = bindS (f x) (\<lambda>_. each f xs)"

fun ensure_all :: "string list \<Rightarrow> int list commit" where
  "ensure_all [] = returnS []"
| "ensure_all (r # rs) = bindS (ensure_entity_id r) (\<lambda>i. bindS (ensure_all rs) (\<lambda>is. returnS (i # is)))"

definition ensure_opt :: "string option \<Rightarrow> int option commit" where
  "ensure_opt r = (if coalesce r [] = [] then returnS None else bindS (ensure_entity_id (coalesce r [])) (\<lambda>i. returnS (Some i)))"

text \<open>The number of the next row.\<close>

definition numbered :: "(int \<Rightarrow> knowledge \<Rightarrow> knowledge) \<Rightarrow> knowledge \<Rightarrow> knowledge" where
  "numbered f kb = f (kb_sequence kb) (kb\<lparr>kb_sequence := kb_sequence kb + 1\<rparr>)"

text \<open>\<open>re.search\<close> of an escaped surface between word boundaries, ignoring case.\<close>

definition is_word_char :: "char option \<Rightarrow> bool" where
  "is_word_char ch = (case ch of None \<Rightarrow> False | Some c \<Rightarrow> is_py_alnum c \<or> c = CHR ''_'')"

fun occurs_after :: "char option \<Rightarrow> string \<Rightarrow> string \<Rightarrow> bool" where
  "occurs_after prev s [] = (s = [] \<and> \<not> is_word_char prev)"
| "occurs_after prev s (c # cs) =
     ((py_lower (take (length s) (c # cs)) = py_lower s \<and> \<not> is_word_char prev \<and>
       \<not> is_word_char (case drop (length s) (c # cs) of [] \<Rightarrow> None | d # _ \<Rightarrow> Some d)) \<or>
      occurs_after (Some c) s cs)"

record commit_input =
  ci_link :: link_config
  ci_novel :: int
  ci_chapter :: rat
  ci_text :: string
  ci_resolver :: bool
  ci_resolved :: "string \<rightharpoonup> int option"
  ci_roster :: "string \<rightharpoonup> int"
  ci_chunks :: "int list"

definition opt_text :: "string \<Rightarrow> string option" where
  "opt_text s = (if s = [] then None else Some s)"

text \<open>A mention: its entity is the one resolved before, the resolver's, or a new one.\<close>

definition lift_kb :: "(knowledge, 'a) op \<Rightarrow> 'a commit" where
  "lift_kb m s = (case m (ct_kb s) of (r, kb) \<Rightarrow> (r, s\<lparr>ct_kb := kb\<rparr>))"

definition mention_entity :: "commit_input \<Rightarrow> x_mention \<Rightarrow> string \<Rightarrow> string \<Rightarrow> int commit" where
  "mention_entity ci x ref surface =
     (let typ = (if xm_type x = [] then ''concept'' else xm_type x);
          make = lift_kb (create_entity (ci_link ci) (ci_novel ci) surface typ (ci_chapter ci) (Some (xm_description x)))
      in case ci_resolved ci ref of
        Some (Some i) \<Rightarrow> returnS i
      | Some None \<Rightarrow> make
      | None \<Rightarrow>
          if ci_resolver ci
          then lift_kb (link_resolve_entity (ci_link ci) (ci_novel ci) surface typ (ci_chapter ci) (Some (xm_description x)))
          else raiseS (ValueError (''unresolved entity reference: '' @ ref)))"

definition upsert_description :: "int \<Rightarrow> int \<Rightarrow> rat \<Rightarrow> string \<Rightarrow> knowledge \<Rightarrow> knowledge" where
  "upsert_description nid i n d kb =
     (if \<exists>r \<in> set (kb_descriptions kb). de_entity_id r = i \<and> de_chapter r = n
      then kb\<lparr>kb_descriptions := sql_update (\<lambda>r. de_entity_id r = i \<and> de_chapter r = n) (\<lambda>r. r\<lparr>de_text := d\<rparr>) (kb_descriptions kb)\<rparr>
      else kb\<lparr>kb_descriptions := kb_descriptions kb @ [\<lparr>de_novel_id = nid, de_entity_id = i, de_chapter = n, de_text = d\<rparr>]\<rparr>)"

definition set_local :: "string \<Rightarrow> int \<Rightarrow> unit commit" where
  "set_local ref i s = (Inr (), s\<lparr>ct_local := (ct_local s)(ref \<mapsto> i)\<rparr>)"

definition commit_mention :: "commit_input \<Rightarrow> x_mention \<Rightarrow> unit commit" where
  "commit_mention ci x =
     (let ref = py_strip (xm_ref x); surface = py_strip (if xm_surface x = [] then ref else xm_surface x);
          d = py_strip (xm_description x)
      in if ref = [] \<or> surface = [] \<or> ci_roster ci ref \<noteq> None then returnS ()
         else if \<not> occurs_after None surface (ci_text ci)
         then raiseS (ValueError (''mention surface does not occur in the chapter: '' @ surface))
         else bindS (mention_entity ci x ref surface) (\<lambda>i.
           bindS (set_local ref i) (\<lambda>_. bindS (note_activity i ''mentions'' []) (\<lambda>_.
             if d = [] then returnS () else with_kb (upsert_description (ci_novel ci) i (ci_chapter ci) d)))))"

definition commit_fact :: "commit_input \<Rightarrow> x_fact \<Rightarrow> unit commit" where
  "commit_fact ci x =
     (if xf_ref x = [] \<or> xf_content x = [] then returnS ()
      else bindS (ensure_entity_id (xf_ref x)) (\<lambda>i. bindS (liftS (clean_chunk_ids (xf_chunks x) (ci_chunks ci))) (\<lambda>ch.
        bindS (with_kb (numbered (\<lambda>k kb. kb\<lparr>kb_facts := kb_facts kb @ [\<lparr>fa_id = k, fa_novel_id = ci_novel ci, fa_entity_id = i,
            fa_chapter = ci_chapter ci, fa_type = Some (xf_type x), fa_content = xf_content x, fa_data = None\<rparr>]\<rparr>)))
          (\<lambda>_. note_activity i ''claims'' ch))))"

definition commit_relationship :: "commit_input \<Rightarrow> x_relationship \<Rightarrow> unit commit" where
  "commit_relationship ci x =
     (if xr_source x = [] \<or> xr_target x = [] then returnS ()
      else bindS (ensure_entity_id (xr_source x)) (\<lambda>a. bindS (ensure_entity_id (xr_target x)) (\<lambda>b.
        bindS (liftS (clean_chunk_ids (xr_chunks x) (ci_chunks ci))) (\<lambda>ch.
        bindS (with_kb (numbered (\<lambda>k kb. kb\<lparr>kb_relationships := kb_relationships kb @ [\<lparr>rl_id = k, rl_novel_id = ci_novel ci,
            rl_source = a, rl_target = b, rl_chapter = ci_chapter ci, rl_type = Some (xr_type x), rl_directed = Some (xr_directed x),
            rl_content = Some (xr_content x), rl_data = None\<rparr>]\<rparr>)))
          (\<lambda>_. bindS (note_activity a ''claims'' ch) (\<lambda>_. note_activity b ''claims'' ch))))))"

definition commit_event :: "commit_input \<Rightarrow> x_event \<Rightarrow> unit commit" where
  "commit_event ci x =
     bindS (ensure_all (filter (\<lambda>r. r \<noteq> []) (xe_participants x))) (\<lambda>ps. bindS (ensure_opt (xe_location x)) (\<lambda>loc.
       bindS (liftS (clean_chunk_ids (xe_chunks x) (ci_chunks ci))) (\<lambda>ch.
       bindS (with_kb (numbered (\<lambda>k kb. kb\<lparr>kb_events := kb_events kb @ [\<lparr>ev_id = k, ev_novel_id = ci_novel ci,
           ev_chapter = ci_chapter ci, ev_description = Some (xe_description x), ev_participants = Some ps, ev_location = loc\<rparr>]\<rparr>)))
         (\<lambda>_. each (\<lambda>i. note_activity i ''events'' ch)
           (remdups (ps @ (case loc of None \<Rightarrow> [] | Some l \<Rightarrow> if l = 0 then [] else [l])))))))"

definition insert_link :: "int \<Rightarrow> rat \<Rightarrow> int \<Rightarrow> int \<Rightarrow> string \<Rightarrow> knowledge \<Rightarrow> knowledge" where
  "insert_link nid n a b note kb =
     (if \<exists>l \<in> set (kb_links kb). li_novel_id l = nid \<and> (li_a l = a \<and> li_b l = b \<or> li_a l = b \<and> li_b l = a) then kb
      else numbered (\<lambda>k kb. kb\<lparr>kb_links := kb_links kb @ [\<lparr>li_id = k, li_novel_id = nid, li_a = a, li_b = b,
        li_revealed = n, li_note = Some note\<rparr>]\<rparr>) kb)"

definition commit_reveal :: "commit_input \<Rightarrow> x_reveal \<Rightarrow> unit commit" where
  "commit_reveal ci x =
     (if xi_persona x = [] \<or> xi_true x = [] then returnS ()
      else bindS (ensure_entity_id (xi_persona x)) (\<lambda>a. bindS (ensure_entity_id (xi_true x)) (\<lambda>b.
        bindS (liftS (clean_chunk_ids (xi_chunks x) (ci_chunks ci))) (\<lambda>ch.
        bindS (if a = b then returnS () else with_kb (insert_link (ci_novel ci) (ci_chapter ci) a b (xi_note x)))
          (\<lambda>_. bindS (note_activity a ''claims'' ch) (\<lambda>_. note_activity b ''claims'' ch))))))"

fun update_first :: "('r \<Rightarrow> bool) \<Rightarrow> ('r \<Rightarrow> 'r) \<Rightarrow> 'r list \<Rightarrow> 'r list" where
  "update_first p f [] = []"
| "update_first p f (r # rs) = (if p r then f r # rs else r # update_first p f rs)"

definition learn_alias :: "int \<Rightarrow> rat \<Rightarrow> int \<Rightarrow> string \<Rightarrow> knowledge \<Rightarrow> knowledge" where
  "learn_alias nid n i alias kb =
     (let same = (\<lambda>a. al_entity_id a = i \<and> py_lower (strip_chars '' '' (al_alias a)) = py_lower (strip_chars '' '' alias)) in
      if \<exists>a \<in> set (kb_aliases kb). same a
      then kb\<lparr>kb_aliases := update_first same (\<lambda>a. a\<lparr>al_revealed := min (al_revealed a) n\<rparr>) (kb_aliases kb)\<rparr>
      else kb\<lparr>kb_aliases := kb_aliases kb @ [\<lparr>al_novel_id = nid, al_entity_id = i, al_alias = alias, al_revealed = n\<rparr>]\<rparr>)"

definition commit_alias :: "commit_input \<Rightarrow> x_alias \<Rightarrow> unit commit" where
  "commit_alias ci x =
     (if xa_ref x = [] \<or> xa_alias x = [] then returnS ()
      else bindS (liftS (clean_chunk_ids (xa_chunks x) (ci_chunks ci))) (\<lambda>ch. bindS (ensure_entity_id (xa_ref x)) (\<lambda>i.
        bindS (read_commit (\<lambda>s. coalesce (map_option en_name (novel_entity (ci_novel ci) i (ct_kb s))) [])) (\<lambda>canonical.
        let alias = collapse_space (py_strip (xa_alias x)) in
        if py_casefold alias = py_casefold (py_strip canonical) then returnS ()
        else bindS (with_kb (learn_alias (ci_novel ci) (ci_chapter ci) i alias)) (\<lambda>_.
          bindS (lift_kb (promote_canonical_name_if_safe (ci_link ci) (ci_novel ci) i alias (ci_chapter ci))) (\<lambda>_.
            note_activity i ''claims'' ch))))))"

definition state_value :: "string option \<Rightarrow> string option \<Rightarrow> json \<Rightarrow> json" where
  "state_value ref nm v = (if coalesce ref [] = [] then v
     else JObj [(''entity'', case nm of None \<Rightarrow> JNull | Some n \<Rightarrow> JStr n), (''value'', v)])"

definition json_column :: "json \<Rightarrow> json option" where
  "json_column v = (if v = JNull then None else Some v)"

definition or_else :: "string \<Rightarrow> string \<Rightarrow> string" where
  "or_else s d = (if s = [] then d else s)"

definition commit_state_change :: "commit_input \<Rightarrow> x_state \<Rightarrow> unit commit" where
  "commit_state_change ci x =
     bindS (ensure_entity_id (xs_ref x)) (\<lambda>i. bindS (liftS (clean_chunk_ids (xs_chunks x) (ci_chunks ci))) (\<lambda>ch.
       bindS (ensure_opt (xs_value_ref x)) (\<lambda>vi.
       bindS (read_commit (\<lambda>s. Option.bind vi (\<lambda>v. map_option en_name (novel_entity (ci_novel ci) v (ct_kb s))))) (\<lambda>nm.
       bindS (ensure_opt (xs_perspective x)) (\<lambda>p.
       bindS (with_kb (numbered (\<lambda>k kb. kb\<lparr>kb_states := kb_states kb @ [\<lparr>sr_id = k, sr_novel_id = ci_novel ci, sr_entity_id = i,
           sr_chapter = ci_chapter ci, sr_key = xs_key x, sr_operation = xs_operation x,
           sr_value = json_column (state_value (xs_value_ref x) nm (xs_value x)), sr_perspective = p,
           sr_certainty = or_else (xs_certainty x) ''confirmed'', sr_scope = or_else (xs_scope x) ''current'', sr_chunks = ch,
           sr_version = ks_pipeline_version (lc_settings (ci_link ci))\<rparr>]\<rparr>)))
         (\<lambda>_. bindS (note_activity i ''claims'' ch) (\<lambda>_. case p of None \<Rightarrow> returnS ()
            | Some q \<Rightarrow> if q = 0 then returnS () else note_activity q ''claims'' ch)))))))"

definition commit_relation_change :: "commit_input \<Rightarrow> x_relation_state \<Rightarrow> unit commit" where
  "commit_relation_change ci x =
     bindS (ensure_entity_id (xt_source x)) (\<lambda>a. bindS (ensure_entity_id (xt_target x)) (\<lambda>b.
       bindS (liftS (clean_chunk_ids (xt_chunks x) (ci_chunks ci))) (\<lambda>ch.
       bindS (with_kb (numbered (\<lambda>k kb. kb\<lparr>kb_relation_states := kb_relation_states kb @ [\<lparr>rs_id = k, rs_novel_id = ci_novel ci,
           rs_source = a, rs_target = b, rs_chapter = ci_chapter ci, rs_key = xt_key x, rs_operation = xt_operation x,
           rs_value = json_column (xt_value x), rs_certainty = or_else (xt_certainty x) ''confirmed'', rs_chunks = ch,
           rs_version = ks_pipeline_version (lc_settings (ci_link ci))\<rparr>]\<rparr>)))
         (\<lambda>_. bindS (note_activity a ''claims'' ch) (\<lambda>_. note_activity b ''claims'' ch)))))"

text \<open>A thread update: the thread is known, found by its title, or opened.\<close>

definition is_new_thread_ref :: "string \<Rightarrow> bool" where
  "is_new_thread_ref r = (case r of c # d # ds \<Rightarrow> c = CHR ''p'' \<and> is_digit d \<and> d \<noteq> CHR ''0'' \<and> (\<forall>x \<in> set ds. is_digit x) | _ \<Rightarrow> False)"

definition find_thread :: "commit_input \<Rightarrow> string \<Rightarrow> knowledge \<Rightarrow> thread_row option" where
  "find_thread ci title1 kb =
     sql_first (\<lambda>t. (th_introduced t, th_id t)) (filter (\<lambda>t. th_novel_id t = ci_novel ci \<and>
       th_version t = ks_pipeline_version (lc_settings (ci_link ci)) \<and> py_lower (th_title t) = py_lower title1) (kb_threads kb))"

definition opened_thread :: "commit_input \<Rightarrow> string \<Rightarrow> int commit" where
  "opened_thread ci title1 s =
     (case find_thread ci title1 (ct_kb s) of
        Some t \<Rightarrow> (Inr (th_id t), s)
      | None \<Rightarrow> let k = kb_sequence (ct_kb s) in
          (Inr k, s\<lparr>ct_kb := numbered (\<lambda>k kb. kb\<lparr>kb_threads := kb_threads kb @ [\<lparr>th_id = k, th_novel_id = ci_novel ci, th_title = title1,
             th_introduced = ci_chapter ci, th_version = ks_pipeline_version (lc_settings (ci_link ci))\<rparr>]\<rparr>) (ct_kb s)\<rparr>))"

definition set_thread :: "string \<Rightarrow> int \<Rightarrow> unit commit" where
  "set_thread ref i s = (Inr (), s\<lparr>ct_threads := (ct_threads s)(ref \<mapsto> i)\<rparr>)"

definition thread_id_of :: "commit_input \<Rightarrow> x_thread \<Rightarrow> int commit" where
  "thread_id_of ci x =
     bindS (read_commit (\<lambda>s. ct_threads s (xu_ref x))) (\<lambda>r. case r of
       Some i \<Rightarrow> returnS i
     | None \<Rightarrow>
         (let title1 = py_strip (coalesce (xu_title x) []) in
          if xu_operation x \<noteq> ''open'' \<or> title1 = []
          then raiseS (ValueError ''a new plot thread requires operation=open and a title'')
          else if \<not> is_new_thread_ref (xu_ref x)
          then raiseS (ValueError ''a new plot thread must use a pN local reference'')
          else bindS (opened_thread ci title1) (\<lambda>i. bindS (set_thread (xu_ref x) i) (\<lambda>_. returnS i))))"

definition previous_update :: "commit_input \<Rightarrow> int \<Rightarrow> knowledge \<Rightarrow> thread_update_row option" where
  "previous_update ci i kb =
     sql_first (\<lambda>u. (- tu_chapter u, - tu_id u)) (filter (\<lambda>u. tu_novel_id u = ci_novel ci \<and> tu_thread_id u = i \<and>
       tu_chapter u < ci_chapter ci \<and> tu_version u = ks_pipeline_version (lc_settings (ci_link ci))) (kb_thread_updates kb))"

definition commit_thread :: "commit_input \<Rightarrow> x_thread \<Rightarrow> unit commit" where
  "commit_thread ci x =
     bindS (thread_id_of ci x) (\<lambda>i. bindS (ensure_all (xu_participants x)) (\<lambda>ps.
       bindS (read_commit (\<lambda>s. previous_update ci i (ct_kb s))) (\<lambda>prev.
       let old_ps = (case prev of None \<Rightarrow> [] | Some u \<Rightarrow> tu_participants u);
           old_ks = (case prev of None \<Rightarrow> [] | Some u \<Rightarrow> tu_keywords u) in
       bindS (liftS (clean_chunk_ids (xu_chunks x) (ci_chunks ci))) (\<lambda>ch.
       bindS (with_kb (numbered (\<lambda>k kb. kb\<lparr>kb_thread_updates := kb_thread_updates kb @ [\<lparr>tu_id = k, tu_novel_id = ci_novel ci,
           tu_thread_id = i, tu_chapter = ci_chapter ci, tu_operation = xu_operation x, tu_summary = xu_summary x,
           tu_participants = take 50 (sort (remdups (old_ps @ ps))),
           tu_keywords = take 12 (rev (remdups (rev (old_ks @ xu_keywords x)))), tu_chunks = ch,
           tu_version = ks_pipeline_version (lc_settings (ci_link ci))\<rparr>]\<rparr>)))
         (\<lambda>_. each (\<lambda>p. note_activity p ''claims'' ch) ps)))))"

definition commit_items :: "commit_input \<Rightarrow> extraction \<Rightarrow> unit commit" where
  "commit_items ci x =
     bindS (each (commit_mention ci) (x_mentions x)) (\<lambda>_.
     bindS (each (commit_fact ci) (x_facts x)) (\<lambda>_.
     bindS (each (commit_relationship ci) (x_relationships x)) (\<lambda>_.
     bindS (each (commit_event ci) (x_events x)) (\<lambda>_.
     bindS (each (commit_reveal ci) (x_reveals x)) (\<lambda>_.
     bindS (each (commit_alias ci) (x_aliases x)) (\<lambda>_.
     bindS (each (commit_state_change ci) (x_states x)) (\<lambda>_.
     bindS (each (commit_relation_change ci) (x_relation_states x)) (\<lambda>_.
     each (commit_thread ci) (x_threads x)))))))))"

section \<open>Activity, summaries, memory\<close>

definition put_activity :: "commit_input \<Rightarrow> int \<times> activity_count \<Rightarrow> activity_row list \<Rightarrow> activity_row list" where
  "put_activity ci ia rows =
     (let a = snd ia; r = \<lparr>ac_novel_id = ci_novel ci, ac_entity_id = fst ia, ac_chapter = ci_chapter ci, ac_mentions = ay_mentions a,
         ac_claims = ay_claims a, ac_events = ay_events a, ac_salience = of_int (ay_mentions a + ay_claims a + ay_events a),
         ac_chunks = sort (remdups (ay_chunks a)), ac_version = ks_pipeline_version (lc_settings (ci_link ci))\<rparr>
      in if activity_key r \<in> activity_key ` set rows then sql_update (\<lambda>s. activity_key s = activity_key r) (\<lambda>_. r) rows else rows @ [r])"

record commit_meta =
  cm_run :: "int option"
  cm_source :: string
  cm_context :: string
  cm_targets :: "memory_target list"
  cm_summary :: string
  cm_tokens :: "string \<Rightarrow> nat"
  cm_max_summary :: nat
  cm_max_checkpoint :: nat
  cm_max_volume :: nat
  cm_digest :: "memory_target \<Rightarrow> x_memory \<Rightarrow> string option \<Rightarrow> string"

definition put_summary :: "int \<Rightarrow> rat \<Rightarrow> string \<Rightarrow> string \<Rightarrow> nat \<Rightarrow> string \<Rightarrow> int list \<Rightarrow> extraction_db \<Rightarrow> extraction_db" where
  "put_summary nid n ver text1 toks source1 chunks db =
     (let r = \<lparr>cu_novel_id = nid, cu_chapter = n, cu_text = text1, cu_tokens = toks, cu_source = source1, cu_chunks = chunks, cu_version = ver\<rparr>;
          same = (\<lambda>s. cu_novel_id s = nid \<and> cu_chapter s = n \<and> cu_version s = ver)
      in db\<lparr>xd_summaries := (if \<exists>s \<in> set (xd_summaries db). same s then sql_update same (\<lambda>_. r) (xd_summaries db)
           else xd_summaries db @ [r])\<rparr>)"

definition segment_of :: "int \<Rightarrow> string \<Rightarrow> memory_target \<Rightarrow> string \<Rightarrow> nat \<Rightarrow> string \<Rightarrow> segment_row" where
  "segment_of nid ver g text1 toks h =
     \<lparr>mg_novel_id = nid, mg_kind = mt_kind g, mg_start = mt_start g, mg_end = mt_end g, mg_through = mt_through g,
      mg_part_label = mt_part_label g, mg_text = text1, mg_tokens = toks, mg_hash = h, mg_version = ver\<rparr>"

definition segment_key :: "segment_row \<Rightarrow> int \<times> string \<times> rat \<times> rat \<times> rat \<times> string" where
  "segment_key g = (mg_novel_id g, mg_kind g, mg_start g, mg_end g, mg_through g, mg_version g)"

text \<open>The hash of the checkpoint written in the same transaction is part of the evidence of a volume.\<close>

definition put_memory ::
  "int \<Rightarrow> string \<Rightarrow> commit_meta \<Rightarrow> int list \<Rightarrow> x_memory list \<Rightarrow> string \<Rightarrow> string option \<Rightarrow> (extraction_db, string option) op" where
  "put_memory nid ver cm valid ups kind prev =
     (case find (\<lambda>u. xy_kind u = kind) (rev ups) of
        None \<Rightarrow> returnS None
      | Some u \<Rightarrow> (case find (\<lambda>g. mt_kind g = kind) (rev (cm_targets cm)) of
          None \<Rightarrow> raiseS (ValueError (''unsupported memory update target: '' @ kind))
        | Some g \<Rightarrow>
            if cm_tokens cm (xy_summary u) > (if kind = ''checkpoint'' then cm_max_checkpoint cm else cm_max_volume cm)
            then raiseS (ValueError (kind @ '' summary exceeds the configured token limit''))
            else bindS (liftS (if xy_chunks u = [] then Inr [] else clean_chunk_ids (xy_chunks u) valid)) (\<lambda>_ db.
              let h = cm_digest cm g u prev; r = segment_of nid ver g (py_strip (xy_summary u)) (cm_tokens cm (xy_summary u)) h in
              if segment_key r \<in> segment_key ` set (xd_segments db)
              then (Inl (DatabaseError ''duplicate key value violates unique constraint''), db)
              else (Inr (Some h), db\<lparr>xd_segments := xd_segments db @ [r]\<rparr>))))"

definition put_context :: "int \<Rightarrow> rat \<Rightarrow> string \<Rightarrow> commit_meta \<Rightarrow> extraction_db \<Rightarrow> extraction_db" where
  "put_context nid n ver cm db =
     (let r = \<lparr>cc_novel_id = nid, cc_chapter = n, cc_version = ver, cc_source = cm_source cm, cc_context = cm_context cm\<rparr>;
          same = (\<lambda>x. cc_novel_id x = nid \<and> cc_chapter x = n \<and> cc_version x = ver)
      in if cm_context cm = [] then db
         else db\<lparr>xd_contexts := (if \<exists>x \<in> set (xd_contexts db). same x then sql_update same (\<lambda>_. r) (xd_contexts db)
           else xd_contexts db @ [r])\<rparr>)"

definition put_state :: "int \<Rightarrow> rat \<Rightarrow> string \<Rightarrow> commit_meta \<Rightarrow> extraction_db \<Rightarrow> extraction_db" where
  "put_state nid n ver cm db =
     (let r = \<lparr>xz_novel_id = nid, xz_chapter = n, xz_summary = py_strip (cm_summary cm), xz_run = cm_run cm, xz_source = cm_source cm,
            xz_version = ver, xz_context = opt_text (cm_context cm)\<rparr>;
          same = (\<lambda>s. xz_novel_id s = nid \<and> xz_chapter s = n)
      in db\<lparr>xd_states := (if \<exists>s \<in> set (xd_states db). same s then sql_update same (\<lambda>_. r) (xd_states db) else xd_states db @ [r])\<rparr>)"

section \<open>The commit\<close>

definition find_state :: "int \<Rightarrow> rat \<Rightarrow> extraction_db \<Rightarrow> extraction_state_row option" where
  "find_state nid n db = find (\<lambda>s. xz_novel_id s = nid \<and> xz_chapter s = n) (xd_states db)"

definition already_done :: "string \<Rightarrow> commit_meta \<Rightarrow> extraction_state_row option \<Rightarrow> bool" where
  "already_done ver cm existing \<longleftrightarrow> (case existing of None \<Rightarrow> False
     | Some s \<Rightarrow> xz_version s = ver \<and> cm_run cm \<noteq> None \<and> xz_run s = cm_run cm \<and> xz_source s = cm_source cm)"

definition commit_start :: "commit_input \<Rightarrow> (string \<rightharpoonup> int) \<Rightarrow> extraction_db \<Rightarrow> commit_state" where
  "commit_start ci threads db = \<lparr>ct_kb = xd_kb db, ct_local = ci_roster ci, ct_threads = threads, ct_activity = []\<rparr>"

definition write_items :: "commit_input \<Rightarrow> (string \<rightharpoonup> int) \<Rightarrow> extraction \<Rightarrow> (extraction_db, (int \<times> activity_count) list) op" where
  "write_items ci threads x db =
     (case commit_items ci x (commit_start ci threads db) of
        (Inl e, s) \<Rightarrow> (Inl e, db\<lparr>xd_kb := ct_kb s\<rparr>)
      | (Inr _, s) \<Rightarrow> (Inr (ct_activity s), db\<lparr>xd_kb := ct_kb s\<rparr>))"

definition finish_commit :: "commit_input \<Rightarrow> commit_meta \<Rightarrow> x_memory list \<Rightarrow> (int \<times> activity_count) list \<Rightarrow> (extraction_db, bool) op" where
  "finish_commit ci cm ups acts =
     (let nid = ci_novel ci; n = ci_chapter ci; ver = ks_pipeline_version (lc_settings (ci_link ci)); txt1 = py_strip (cm_summary cm) in
      if cm_tokens cm txt1 > cm_max_summary cm then raiseS (ValueError ''chapter summary exceeds the configured token limit'')
      else bindS (\<lambda>db. (Inr (), put_summary nid n ver txt1 (cm_tokens cm txt1) (cm_source cm) (ci_chunks ci) db)) (\<lambda>_.
        bindS (put_memory nid ver cm (ci_chunks ci) ups ''checkpoint'' None) (\<lambda>h.
        bindS (put_memory nid ver cm (ci_chunks ci) ups ''volume'' h) (\<lambda>_.
        (\<lambda>db. (Inr False, put_state nid n ver cm (put_context nid n ver cm
           (on_kb (\<lambda>kb. kb\<lparr>kb_activity := fold (put_activity ci) acts (kb_activity kb)\<rparr>) db))))))))"

text \<open>\<open>_validate_current_chunk_provenance\<close>: every item cites a chunk of the chapter.\<close>

fun clean_all :: "int list \<Rightarrow> int list list \<Rightarrow> unit result" where
  "clean_all valid [] = Inr ()"
| "clean_all valid (c # cs) = bindE (clean_chunk_ids c valid) (\<lambda>_. clean_all valid cs)"

definition cited_chunks :: "extraction \<Rightarrow> int list list" where
  "cited_chunks x = map xf_chunks (x_facts x) @ map xr_chunks (x_relationships x) @ map xe_chunks (x_events x) @
     map xi_chunks (x_reveals x) @ map xa_chunks (x_aliases x) @ map xs_chunks (x_states x) @
     map xt_chunks (x_relation_states x) @ map xu_chunks (x_threads x) @ map xy_chunks (x_memories x)"

text \<open>
  \<open>ground\<close> is the quarantine of items whose evidence the chapter does not contain, \<open>rebuild\<close> the digest of the context rebuilt
  from the tables. The result tells whether the run had been committed before.
\<close>

definition commit_extraction ::
  "commit_input \<Rightarrow> commit_meta \<Rightarrow> (extraction \<Rightarrow> extraction result) \<Rightarrow> (extraction_db \<Rightarrow> string) \<Rightarrow> (string \<rightharpoonup> int) \<Rightarrow> bool \<Rightarrow>
   extraction \<Rightarrow> (extraction_db, bool) op" where
  "commit_extraction ci cm ground rebuild threads force x db =
     (let nid = ci_novel ci; n = ci_chapter ci; ver = ks_pipeline_version (lc_settings (ci_link ci)); existing = find_state nid n db in
      if already_done ver cm existing then (Inr True, db)
      else if (case existing of None \<Rightarrow> False | Some s \<Rightarrow> xz_version s = ver) \<and> \<not> force
      then (Inl (RuntimeError ''chapter extraction was committed by another worker''), db)
      else if ci_chunks ci = [] then (Inl (RuntimeError ''codex extraction commit requires current-chapter chunks''), db)
      else case bindE (clean_all (ci_chunks ci) (cited_chunks x)) (\<lambda>_. ground x) of
        Inl e \<Rightarrow> (Inl e, db)
      | Inr y \<Rightarrow>
          if cm_context cm \<noteq> [] \<and> rebuild db \<noteq> cm_context cm then (Inl (RuntimeError ''stale_extraction_context''), db)
          else bindS (write_items ci threads y) (finish_commit ci cm (x_memories y))
            (on_kb (clear_caches nid (Some n) None) (clear_extraction_chapter nid n db)))"

text \<open>The workflow: the chapter is locked and its digest compared, then everything is one transaction.\<close>

definition chunk_ids_of :: "int \<Rightarrow> rat \<Rightarrow> codex_db \<Rightarrow> int list" where
  "chunk_ids_of nid n cdb = map ck_id (sort_key ck_index (filter (in_chapter nid n) (cx_chunks cdb)))"

definition commit_codex_extraction ::
  "(string \<Rightarrow> string) \<Rightarrow> reading_db \<Rightarrow> codex_db \<Rightarrow> commit_input \<Rightarrow> commit_meta \<Rightarrow> (extraction \<Rightarrow> extraction result) \<Rightarrow>
   (extraction_db \<Rightarrow> string) \<Rightarrow> (string \<rightharpoonup> int) \<Rightarrow> bool \<Rightarrow> extraction \<Rightarrow> (extraction_db, bool) op" where
  "commit_codex_extraction digest rdb cdb ci cm ground rebuild threads force x =
     atomicS (case chapter_snapshot (ci_novel ci) (ci_chapter ci) rdb of
        None \<Rightarrow> raiseS (RuntimeError ''source_changed'')
      | Some s \<Rightarrow>
          if digest (coalesce (cs_content s) []) \<noteq> cm_source cm then raiseS (RuntimeError ''source_changed'')
          else commit_extraction (ci\<lparr>ci_text := coalesce (cs_content s) [], ci_chunks := chunk_ids_of (ci_novel ci) (ci_chapter ci) cdb\<rparr>)
            cm ground rebuild threads force x)"

section \<open>Nothing below the chapter changes\<close>

text \<open>The primary key of the entities.\<close>

definition keyed :: "knowledge \<Rightarrow> bool" where
  "keyed kb \<longleftrightarrow> distinct (map en_id (kb_entities kb)) \<and> (\<forall>e \<in> set (kb_entities kb). en_id e < kb_next_entity_id kb)"

text \<open>What a reader below a ceiling can see, and the activity the extraction of later chapters reads.\<close>

definition unchanged_below :: "rat \<Rightarrow> knowledge \<Rightarrow> knowledge \<Rightarrow> bool" where
  "unchanged_below c kb kb' \<longleftrightarrow> same_below c kb kb' \<and>
     filter (\<lambda>a. ac_chapter a \<le> c) (kb_activity kb) = filter (\<lambda>a. ac_chapter a \<le> c) (kb_activity kb')"

definition harmless :: "rat \<Rightarrow> (knowledge \<Rightarrow> knowledge) \<Rightarrow> bool" where
  "harmless c f \<longleftrightarrow> (\<forall>kb. keyed kb \<longrightarrow> unchanged_below c kb (f kb) \<and> keyed (f kb))"

definition frame :: "rat \<Rightarrow> knowledge \<Rightarrow> commit_state \<Rightarrow> bool" where
  "frame c kb0 s \<longleftrightarrow> keyed (ct_kb s) \<and> unchanged_below c kb0 (ct_kb s)"

lemma unchanged_refl [simp]: "unchanged_below c kb kb"
  by (simp add: unchanged_below_def same_below_def)

lemma unchanged_trans: "unchanged_below c a b \<Longrightarrow> unchanged_below c b d \<Longrightarrow> unchanged_below c a d"
  by (simp add: unchanged_below_def same_below_def)

lemma filter_delete: "(\<And>r. p r \<Longrightarrow> \<not> V r) \<Longrightarrow> filter V (sql_delete p rows) = filter V rows"
  by (induction rows) (auto simp: sql_delete_def)

lemma filter_update:
  "(\<And>r. r \<in> set rows \<Longrightarrow> p r \<Longrightarrow> \<not> V r \<and> \<not> V (f r)) \<Longrightarrow> filter V (sql_update p f rows) = filter V rows"
  by (induction rows) auto

lemma filter_update_first:
  "(\<And>r. p r \<Longrightarrow> if V r then f r = r else \<not> V (f r)) \<Longrightarrow> filter V (update_first p f rows) = filter V rows"
proof (induction rows)
  case (Cons r rows)
  show ?case using Cons.IH [OF Cons.prems] Cons.prems [of r] by auto
qed simp

lemma harmlessI:
  "(\<And>kb. keyed kb \<Longrightarrow> unchanged_below c kb (f kb)) \<Longrightarrow> (\<And>kb. keyed kb \<Longrightarrow> keyed (f kb)) \<Longrightarrow> harmless c f"
  by (simp add: harmless_def)

lemma harmless_if [keeps_rules]: "(b \<Longrightarrow> harmless c f) \<Longrightarrow> (\<not> b \<Longrightarrow> harmless c g) \<Longrightarrow> harmless c (if b then f else g)"
  by simp

lemma harmless_comp: "harmless c f \<Longrightarrow> harmless c g \<Longrightarrow> harmless c (\<lambda>kb. g (f kb))"
  unfolding harmless_def by (blast intro: unchanged_trans)

lemma keeps_with_kb [keeps_rules]: "harmless c f \<Longrightarrow> keeps (frame c kb0) (with_kb f)"
  by (auto simp: keeps_def frame_def with_kb_def harmless_def intro: unchanged_trans)

lemma keeps_lift_kb [keeps_rules]: "(\<And>kb. keyed kb \<Longrightarrow> unchanged_below c kb (snd (m kb)) \<and> keyed (snd (m kb))) \<Longrightarrow> keeps (frame c kb0) (lift_kb m)"
  by (auto simp: keeps_def frame_def lift_kb_def split: prod.splits intro: unchanged_trans) (metis snd_conv unchanged_trans)+

lemma keeps_reads [keeps_rules]:
  "keeps (frame c kb0) (read_commit f)" "keeps (frame c kb0) (note_activity i kind ch)" "keeps (frame c kb0) (set_local ref i)"
  "keeps (frame c kb0) (set_thread ref i)"
  by (simp_all add: keeps_def frame_def read_commit_def note_activity_def set_local_def set_thread_def)

lemma keeps_each [keeps_rules]: "(\<And>x. keeps I (f x)) \<Longrightarrow> keeps I (each f xs)"
proof (induction xs)
  case Nil
  show ?case unfolding each.simps by (rule keeps_returnS)
next
  case (Cons x xs)
  show ?case unfolding each.simps by (intro keeps_rules Cons.IH Cons.prems)
qed

lemma keeps_ensure [keeps_rules]: "keeps (frame c kb0) (ensure_entity_id ref)"
  unfolding ensure_entity_id_def by (intro keeps_rules)

lemma keeps_ensure_all [keeps_rules]: "keeps (frame c kb0) (ensure_all refs)"
proof (induction refs)
  case Nil
  show ?case unfolding ensure_all.simps by (rule keeps_returnS)
next
  case (Cons r refs)
  show ?case unfolding ensure_all.simps by (intro keeps_rules Cons.IH)
qed

lemma keeps_ensure_opt [keeps_rules]: "keeps (frame c kb0) (ensure_opt ref)"
  unfolding ensure_opt_def by (intro keeps_rules)

text \<open>The statements, at a ceiling below the chapter.\<close>

lemma keyed_other:
  "kb_entities kb' = kb_entities kb \<Longrightarrow> kb_next_entity_id kb' = kb_next_entity_id kb \<Longrightarrow> keyed kb' = keyed kb"
  by (simp add: keyed_def)

lemma keyed_update: "keyed kb \<Longrightarrow> (\<And>e. en_id (f e) = en_id e) \<Longrightarrow> keyed (kb\<lparr>kb_entities := sql_update p f (kb_entities kb)\<rparr>)"
  by (auto simp: keyed_def map_sql_update set_sql_update)

lemma insert_entity_harmless:
  assumes "c < n" "keyed kb"
  shows "unchanged_below c kb (snd (insert_entity nid nm typ desc v n kb)) \<and> keyed (snd (insert_entity nid nm typ desc v n kb))"
  using assms by (fastforce simp: insert_entity_def unchanged_below_def same_below_def keyed_def)

lemma insert_alias_harmless:
  "c < n \<Longrightarrow> unchanged_below c kb (insert_alias nid i a n kb) \<and> keyed (insert_alias nid i a n kb) = keyed kb"
  by (simp add: insert_alias_def unchanged_below_def same_below_def keyed_def)

lemma create_harmless:
  "c < n \<Longrightarrow> keyed kb \<Longrightarrow> unchanged_below c kb (snd (create_entity cfg nid m typ n desc kb)) \<and> keyed (snd (create_entity cfg nid m typ n desc kb))"
  using insert_entity_harmless by (simp add: create_entity_def Let_def)

lemma create_with_alias_harmless:
  "c < n \<Longrightarrow> keyed kb \<Longrightarrow> unchanged_below c kb (snd (create_with_alias nid nm typ desc v n kb)) \<and> keyed (snd (create_with_alias nid nm typ desc v n kb))"
  using insert_entity_harmless insert_alias_harmless by (simp add: create_with_alias_def Let_def) (blast intro: unchanged_trans)

lemma link_resolve_harmless:
  assumes "c < n" "keyed kb"
  shows "unchanged_below c kb (snd (link_resolve_entity cfg nid m typ n desc kb)) \<and> keyed (snd (link_resolve_entity cfg nid m typ n desc kb))"
  using create_with_alias_harmless [OF assms] assms
  by (auto simp: link_resolve_entity_def link_semantic_def Let_def split: option.splits if_splits)

lemma promote_harmless:
  assumes "c < n" "keyed kb"
  shows "unchanged_below c kb (snd (promote_canonical_name_if_safe cfg nid i alias n kb)) \<and>
    keyed (snd (promote_canonical_name_if_safe cfg nid i alias n kb))"
proof (cases "novel_entity nid i kb")
  case None
  then show ?thesis using assms by (simp add: promote_canonical_name_if_safe_def)
next
  case (Some e)
  have e: "e \<in> set (kb_entities kb)" "en_id e = i" using novel_entity_id [OF Some] by simp_all
  have only: "r = e" if "r \<in> set (kb_entities kb)" "en_id r = i" for r
    using assms(2) e that by (auto simp: keyed_def distinct_map inj_on_def)
  have "filter (\<lambda>e. en_first_seen e \<le> c) (sql_update (\<lambda>r. en_novel_id r = nid \<and> en_id r = i) (\<lambda>r. r\<lparr>en_name := x, en_embedding := y\<rparr>) (kb_entities kb)) =
      filter (\<lambda>e. en_first_seen e \<le> c) (kb_entities kb)" if "en_first_seen e = n" for x y
    by (rule filter_update) (use only that assms(1) in auto)
  then show ?thesis using Some assms
    by (auto simp: promote_canonical_name_if_safe_def Let_def unchanged_below_def same_below_def intro!: keyed_update)
qed

lemma numbered_harmless:
  assumes "\<And>k kb. unchanged_below c kb (f k kb)" "\<And>k kb. kb_entities (f k kb) = kb_entities kb" "\<And>k kb. kb_next_entity_id (f k kb) = kb_next_entity_id kb"
  shows "harmless c (numbered f)"
proof (rule harmlessI)
  fix kb
  assume "keyed kb"
  show "unchanged_below c kb (numbered f kb)"
    unfolding numbered_def by (rule unchanged_trans [OF _ assms(1)]) (simp add: unchanged_below_def same_below_def)
  show "keyed (numbered f kb)" using \<open>keyed kb\<close> by (simp add: numbered_def keyed_def assms(2,3))
qed

lemma upsert_harmless: "c < n \<Longrightarrow> harmless c (upsert_description nid i n d)"
  by (rule harmlessI) (auto simp: upsert_description_def unchanged_below_def same_below_def keyed_def intro!: filter_update [symmetric])

lemma learn_harmless: "c < n \<Longrightarrow> harmless c (learn_alias nid n i alias)"
  by (rule harmlessI)
    (auto simp: learn_alias_def Let_def unchanged_below_def same_below_def keyed_def min_def intro!: filter_update_first [symmetric])

lemma insert_link_harmless: "c < n \<Longrightarrow> harmless c (insert_link nid n a b note)"
  by (rule harmlessI) (auto simp: insert_link_def numbered_def unchanged_below_def same_below_def keyed_def)

lemma clear_kb_harmless: "c < n \<Longrightarrow> harmless c (clear_kb nid n)"
proof (rule harmlessI)
  fix kb
  assume n: "c < n" and k: "keyed kb"
  show "unchanged_below c kb (clear_kb nid n kb)"
    unfolding unchanged_below_def same_below_def using n
    by (auto simp: clear_kb_def Let_def intro!: filter_delete [symmetric] filter_update [symmetric])
  show "keyed (clear_kb nid n kb)"
    using k by (auto simp: keyed_def clear_kb_def Let_def map_sql_update set_sql_update)
qed

lemma clear_caches_harmless: "harmless c (clear_caches nid m i)"
  by (rule harmlessI) (auto simp: clear_caches_def unchanged_below_def same_below_def keyed_def split: option.splits)

lemma open_thread_frame: "c < ci_chapter ci \<Longrightarrow> keeps (frame c kb0) (opened_thread ci title1)"
  by (auto simp: keeps_def opened_thread_def frame_def numbered_def unchanged_below_def same_below_def keyed_def Let_def split: option.splits)

lemma thread_id_frame: "c < ci_chapter ci \<Longrightarrow> keeps (frame c kb0) (thread_id_of ci x)"
  unfolding thread_id_of_def Let_def by (intro keeps_rules open_thread_frame)

lemma mention_entity_frame: "c < ci_chapter ci \<Longrightarrow> keeps (frame c kb0) (mention_entity ci x ref surface)"
  unfolding mention_entity_def Let_def
  by (auto split: option.splits intro!: keeps_rules create_harmless link_resolve_harmless)

lemma item_frames:
  assumes n: "c < ci_chapter ci"
  shows "keeps (frame c kb0) (commit_mention ci m)" "keeps (frame c kb0) (commit_fact ci f)" "keeps (frame c kb0) (commit_relationship ci r)"
    "keeps (frame c kb0) (commit_event ci e)" "keeps (frame c kb0) (commit_reveal ci v)" "keeps (frame c kb0) (commit_alias ci a)"
    "keeps (frame c kb0) (commit_state_change ci s)" "keeps (frame c kb0) (commit_relation_change ci t)" "keeps (frame c kb0) (commit_thread ci u)"
  unfolding commit_mention_def commit_fact_def commit_relationship_def commit_event_def commit_reveal_def commit_alias_def
    commit_state_change_def commit_relation_change_def commit_thread_def Let_def
  by (intro keeps_rules mention_entity_frame [OF n] thread_id_frame [OF n] upsert_harmless [OF n] learn_harmless [OF n]
      insert_link_harmless [OF n] promote_harmless [OF n] numbered_harmless; use n in \<open>simp add: unchanged_below_def same_below_def\<close>)+

lemma items_frame: "c < ci_chapter ci \<Longrightarrow> keeps (frame c kb0) (commit_items ci x)"
  unfolding commit_items_def by (intro keeps_rules item_frames)

lemma finish_kb:
  assumes "finish_commit ci cm ups acts db = (r, db')"
  shows "\<exists>rows. xd_kb db' = (xd_kb db)\<lparr>kb_activity := rows\<rparr>"
proof -
  let ?I = "\<lambda>d. \<exists>rows. xd_kb d = (xd_kb db)\<lparr>kb_activity := rows\<rparr>"
  have pm: "keeps ?I (put_memory nid ver cm valid ups kind prev)" for nid ver valid kind prev
    unfolding put_memory_def Let_def by (intro keeps_rules) (auto simp: keeps_def split: if_splits)
  have ps: "keeps ?I (\<lambda>db. (Inr (), put_summary nid n ver t k s ch db))" for nid n ver t k s ch
    by (auto simp: keeps_def put_summary_def Let_def)
  have pf: "keeps ?I (\<lambda>db. (Inr False, put_state nid n ver cm (put_context nid n ver cm (on_kb (\<lambda>kb. kb\<lparr>kb_activity := g kb\<rparr>) db))))" for nid n ver g
    by (auto simp: keeps_def put_state_def put_context_def on_kb_def Let_def)
  have "keeps ?I (finish_commit ci cm ups acts)"
    unfolding finish_commit_def Let_def by (intro keeps_rules pm ps pf)
  moreover have "?I db" by (rule exI [of _ "kb_activity (xd_kb db)"]) simp
  ultimately show ?thesis using keepsD [of ?I "finish_commit ci cm ups acts" db] assms by simp
qed

lemma finish_commitD:
  assumes "finish_commit ci cm ups acts db = (Inr b, db')"
  obtains d1 d2 h h' where
    "put_memory (ci_novel ci) (ks_pipeline_version (lc_settings (ci_link ci))) cm (ci_chunks ci) ups ''checkpoint'' None
       (put_summary (ci_novel ci) (ci_chapter ci) (ks_pipeline_version (lc_settings (ci_link ci))) (py_strip (cm_summary cm))
          (cm_tokens cm (py_strip (cm_summary cm))) (cm_source cm) (ci_chunks ci) db) = (Inr h, d1)"
    "put_memory (ci_novel ci) (ks_pipeline_version (lc_settings (ci_link ci))) cm (ci_chunks ci) ups ''volume'' h d1 = (Inr h', d2)"
    "db' = put_state (ci_novel ci) (ci_chapter ci) (ks_pipeline_version (lc_settings (ci_link ci))) cm
       (put_context (ci_novel ci) (ci_chapter ci) (ks_pipeline_version (lc_settings (ci_link ci))) cm
         (on_kb (\<lambda>kb. kb\<lparr>kb_activity := fold (put_activity ci) acts (kb_activity kb)\<rparr>) d2))" "\<not> b"
  using assms by (auto simp: finish_commit_def Let_def split: if_splits elim!: bindS_InrE)

lemma put_memoryD:
  assumes "put_memory nid ver cm valid ups kind prev d = (Inr h, d')"
  shows "d' = d \<or> (\<exists>g \<in> set (cm_targets cm). \<exists>r. mg_novel_id r = nid \<and> mg_end r = mt_end g \<and> mg_through r = mt_through g \<and>
    d' = d\<lparr>xd_segments := xd_segments d @ [r]\<rparr>)"
proof (cases "find (\<lambda>u. xy_kind u = kind) (rev ups)")
  case None
  then show ?thesis using assms by (simp add: put_memory_def)
next
  case (Some u)
  then obtain g where g: "find (\<lambda>g. mt_kind g = kind) (rev (cm_targets cm)) = Some g"
    using assms by (auto simp: put_memory_def split: option.splits)
  then have "g \<in> set (cm_targets cm)" by (auto simp: find_Some_iff) (metis length_rev nth_mem set_rev)
  moreover have "d' = d\<lparr>xd_segments := xd_segments d @
      [segment_of nid ver g (py_strip (xy_summary u)) (cm_tokens cm (xy_summary u)) (cm_digest cm g u prev)]\<rparr>"
    using assms Some g by (auto simp: put_memory_def Let_def bindS_def split: if_splits sum.splits)
  moreover have "mg_novel_id (segment_of nid ver g t k e) = nid \<and> mg_end (segment_of nid ver g t k e) = mt_end g \<and>
      mg_through (segment_of nid ver g t k e) = mt_through g" for t k e
    by (simp add: segment_of_def)
  ultimately show ?thesis by blast
qed

lemma put_activity_low: "c < ci_chapter ci \<Longrightarrow> filter (\<lambda>a. ac_chapter a \<le> c) (put_activity ci ia rows) = filter (\<lambda>a. ac_chapter a \<le> c) rows"
  by (auto simp: put_activity_def Let_def activity_key_def intro!: filter_update)

lemma put_activities_low:
  "c < ci_chapter ci \<Longrightarrow> filter (\<lambda>a. ac_chapter a \<le> c) (fold (put_activity ci) acts rows) = filter (\<lambda>a. ac_chapter a \<le> c) rows"
  by (induction acts arbitrary: rows) (simp_all add: put_activity_low)

lemma finish_activity:
  assumes "finish_commit ci cm ups acts db = (Inr b, db')"
  shows "kb_activity (xd_kb db') = fold (put_activity ci) acts (kb_activity (xd_kb db))"
proof -
  have pm: "put_memory nid ver cm valid ups kind prev d = (Inr h, d') \<Longrightarrow> xd_kb d' = xd_kb d" for nid ver valid kind prev d h d'
    using put_memoryD by fastforce
  show ?thesis by (rule finish_commitD [OF assms])
    (auto simp: put_state_def put_context_def put_summary_def on_kb_def Let_def dest!: pm)
qed

lemma commit_extraction_below:
  assumes "commit_extraction ci cm ground rebuild threads force x db = (Inr b, db')" "keyed (xd_kb db)" "c < ci_chapter ci"
  shows "keyed (xd_kb db') \<and> unchanged_below c (xd_kb db) (xd_kb db')"
proof -
  let ?nid = "ci_novel ci" and ?n = "ci_chapter ci"
  let ?start = "on_kb (clear_caches ?nid (Some ?n) None) (clear_extraction_chapter ?nid ?n db)"
  have start: "keyed (xd_kb ?start) \<and> unchanged_below c (xd_kb db) (xd_kb ?start)"
    using clear_kb_harmless [OF assms(3), of ?nid] clear_caches_harmless [of c ?nid "Some ?n" None] assms(2)
    by (auto simp: on_kb_def clear_extraction_chapter_def harmless_def intro: unchanged_trans)
  show ?thesis
  proof (cases "db' = db")
    case True
    then show ?thesis using assms(2) by simp
  next
    case False
    then obtain y where run: "bindS (write_items ci threads y) (finish_commit ci cm (x_memories y)) ?start = (Inr b, db')"
      using assms(1) by (auto simp: commit_extraction_def Let_def split: if_splits sum.splits)
    obtain acts d where w: "write_items ci threads y ?start = (Inr acts, d)" and f: "finish_commit ci cm (x_memories y) acts d = (Inr b, db')"
      using run by (auto simp: bindS_def split: prod.splits sum.splits)
    have "frame c (xd_kb db) (commit_start ci threads ?start)" using start by (simp add: frame_def commit_start_def)
    from keepsD [OF items_frame [OF assms(3)] this] have "frame c (xd_kb db) (snd (commit_items ci y (commit_start ci threads ?start)))" .
    then have "keyed (xd_kb d) \<and> unchanged_below c (xd_kb db) (xd_kb d)"
      using w by (auto simp: write_items_def frame_def split: prod.splits sum.splits)
    moreover obtain rows where "xd_kb db' = (xd_kb d)\<lparr>kb_activity := rows\<rparr>" using finish_kb [OF f] by blast
    ultimately show ?thesis using finish_activity [OF f] put_activities_low [OF assms(3)]
      by (simp add: keyed_def unchanged_below_def same_below_def)
  qed
qed

text \<open>C5: Extracting a chapter, for the first time or again, changes nothing a reader below it can see: whatever the proposal
  contains and whatever the models answer, and also when the commit fails, the rows of the knowledge base up to any earlier ceiling stay
  exactly as they were.\<close>

theorem extraction_below_unchanged:
  assumes "commit_codex_extraction digest rdb cdb ci cm ground rebuild threads force x db = (r, db')" "keyed (xd_kb db)" "c < ci_chapter ci"
  shows "unchanged_below c (xd_kb db) (xd_kb db')"
proof (cases r)
  case (Inl e)
  then have "db' = db" using assms(1) by (auto simp: commit_codex_extraction_def atomicS_def split: prod.splits sum.splits)
  then show ?thesis by simp
next
  case (Inr b)
  then obtain text1 chunks where
    "commit_extraction (ci\<lparr>ci_text := text1, ci_chunks := chunks\<rparr>) cm ground rebuild threads force x db = (Inr b, db')"
    using assms(1) by (auto simp: commit_codex_extraction_def atomicS_def split: prod.splits sum.splits option.splits if_splits)
  then show ?thesis using commit_extraction_below [of "ci\<lparr>ci_text := text1, ci_chunks := chunks\<rparr>"] assms(2,3) by simp
qed

section \<open>A commit keeps transitions timely\<close>

text \<open>The ids of the tables, and those they refer to, lie below the sequences, and an update belongs to a thread of its novel. That a
  referenced row exists is not part of it.\<close>

definition grounded :: "knowledge \<Rightarrow> bool" where
  "grounded kb \<longleftrightarrow> keyed kb \<and>
     (\<forall>r \<in> set (kb_states kb). \<forall>p \<in> set_option (sr_perspective r). p < kb_next_entity_id kb) \<and>
     (\<forall>r \<in> set (kb_relation_states kb). rs_source r < kb_next_entity_id kb \<and> rs_target r < kb_next_entity_id kb) \<and>
     distinct (map th_id (kb_threads kb)) \<and> (\<forall>t \<in> set (kb_threads kb). th_id t < kb_sequence kb) \<and>
     (\<forall>u \<in> set (kb_thread_updates kb). tu_thread_id u < kb_sequence kb \<and>
        (\<forall>t \<in> set (kb_threads kb). th_id t = tu_thread_id u \<longrightarrow> th_novel_id t = tu_novel_id u))"

definition known_entity :: "rat \<Rightarrow> knowledge \<Rightarrow> int \<Rightarrow> bool" where
  "known_entity n kb i \<longleftrightarrow> i < kb_next_entity_id kb \<and> seen_by n i kb"

definition known_thread :: "int \<Rightarrow> rat \<Rightarrow> knowledge \<Rightarrow> int \<Rightarrow> bool" where
  "known_thread nid n kb i \<longleftrightarrow> i < kb_sequence kb \<and>
     (\<forall>t \<in> set (kb_threads kb). th_id t = i \<longrightarrow> th_introduced t \<le> n \<and> th_novel_id t = nid)"

definition good_kb :: "int \<Rightarrow> rat \<Rightarrow> knowledge \<Rightarrow> bool" where
  "good_kb nid n kb \<longleftrightarrow> grounded kb \<and> timely kb \<and> (\<forall>t \<in> set (kb_threads kb). th_novel_id t = nid \<longrightarrow> th_introduced t \<le> n)"

definition good :: "commit_input \<Rightarrow> commit_state \<Rightarrow> bool" where
  "good ci s \<longleftrightarrow> good_kb (ci_novel ci) (ci_chapter ci) (ct_kb s) \<and>
     (\<forall>i \<in> ran (ct_local s). known_entity (ci_chapter ci) (ct_kb s) i) \<and>
     (\<forall>i. Some i \<in> ran (ci_resolved ci) \<longrightarrow> known_entity (ci_chapter ci) (ct_kb s) i) \<and>
     (\<forall>i \<in> ran (ct_threads s). known_thread (ci_novel ci) (ci_chapter ci) (ct_kb s) i)"

text \<open>Steps of a commit that returns.\<close>

definition steps :: "('s \<Rightarrow> bool) \<Rightarrow> ('s, 'a) op \<Rightarrow> bool" where
  "steps I m \<longleftrightarrow> (\<forall>s x s'. I s \<longrightarrow> m s = (Inr x, s') \<longrightarrow> I s')"

lemma stepsI: "(\<And>s x s'. I s \<Longrightarrow> m s = (Inr x, s') \<Longrightarrow> I s') \<Longrightarrow> steps I m"
  unfolding steps_def by blast

lemma steps_bind: "steps I m \<Longrightarrow> (\<And>x. steps I (f x)) \<Longrightarrow> steps I (bindS m f)"
  unfolding steps_def by (blast elim: bindS_InrE)

lemma steps_return: "steps I (returnS x)"
  by (simp add: steps_def)

lemma steps_each: "(\<And>x. steps I (f x)) \<Longrightarrow> steps I (each f xs)"
proof (induction xs)
  case Nil
  show ?case unfolding each.simps by (rule steps_return)
next
  case (Cons x xs)
  show ?case unfolding each.simps by (intro steps_bind Cons.IH Cons.prems)
qed

lemma ensure_Inr: "ensure_entity_id r s = (Inr i, s') \<longleftrightarrow> s' = s \<and> ct_local s (py_strip r) = Some i"
  by (auto simp: ensure_entity_id_def bindS_def read_commit_def split: option.splits)

lemma ensure_all_Inr: "ensure_all rs s = (Inr is, s') \<Longrightarrow> s' = s \<and> set is \<subseteq> ran (ct_local s)"
proof (induction rs arbitrary: "is")
  case (Cons r rs)
  from Cons.prems obtain i js where "ct_local s (py_strip r) = Some i" "ensure_all rs s = (Inr js, s')" "is = i # js"
    by (auto elim!: bindS_InrE simp: ensure_Inr)
  then show ?case using Cons.IH [of js] by (auto simp: ran_def)
qed simp

lemma ensure_opt_Inr: "ensure_opt r s = (Inr v, s') \<Longrightarrow> s' = s \<and> set_option v \<subseteq> ran (ct_local s)"
  by (auto simp: ensure_opt_def ensure_Inr ran_def split: if_splits elim!: bindS_InrE)

lemma read_Inr: "read_commit f s = (Inr x, s') \<longleftrightarrow> x = f s \<and> s' = s"
  by (auto simp: read_commit_def)

lemma with_kb_Inr: "with_kb f s = (Inr u, s') \<longleftrightarrow> s' = s\<lparr>ct_kb := f (ct_kb s)\<rparr>"
  by (auto simp: with_kb_def)

lemma liftS_Inr: "liftS r s = (Inr x, s') \<longleftrightarrow> r = Inr x \<and> s' = s"
  by auto

lemmas success = ensure_Inr read_Inr with_kb_Inr liftS_Inr returnS_apply raiseS_apply

lemma good_note: "steps (good ci) (note_activity i k ch)"
  by (auto simp: steps_def note_activity_def good_def)

lemma known_local: "good ci s \<Longrightarrow> ct_local s r = Some i \<Longrightarrow> known_entity (ci_chapter ci) (ct_kb s) i"
  unfolding good_def by (auto simp: ran_def)

text \<open>Statements on the other tables.\<close>

lemma good_neutral:
  assumes "good ci s" "kb_entities kb' = kb_entities (ct_kb s)" "kb_next_entity_id kb' = kb_next_entity_id (ct_kb s)"
    "kb_states kb' = kb_states (ct_kb s)" "kb_relation_states kb' = kb_relation_states (ct_kb s)"
    "kb_threads kb' = kb_threads (ct_kb s)" "kb_thread_updates kb' = kb_thread_updates (ct_kb s)" "kb_sequence (ct_kb s) \<le> kb_sequence kb'"
  shows "good ci (s\<lparr>ct_kb := kb'\<rparr>)"
proof -
  have "seen_by c i kb' = seen_by c i (ct_kb s)" for c i by (simp add: seen_by_def assms(2))
  then show ?thesis using assms
    by (fastforce simp: good_def good_kb_def grounded_def keyed_def timely_def known_entity_def known_thread_def)
qed

lemma good_neutral_kb: "good ci s \<Longrightarrow> (\<And>kb. kb_entities (f kb) = kb_entities kb) \<Longrightarrow> (\<And>kb. kb_next_entity_id (f kb) = kb_next_entity_id kb) \<Longrightarrow>
   (\<And>kb. kb_states (f kb) = kb_states kb) \<Longrightarrow> (\<And>kb. kb_relation_states (f kb) = kb_relation_states kb) \<Longrightarrow>
   (\<And>kb. kb_threads (f kb) = kb_threads kb) \<Longrightarrow> (\<And>kb. kb_thread_updates (f kb) = kb_thread_updates kb) \<Longrightarrow>
   (\<And>kb. kb_sequence kb \<le> kb_sequence (f kb)) \<Longrightarrow> good ci (s\<lparr>ct_kb := f (ct_kb s)\<rparr>)"
  by (rule good_neutral) simp_all

text \<open>Entities.\<close>

lemma seen_by_entities: "kb_entities kb' = kb_entities kb \<Longrightarrow> seen_by c i kb' = seen_by c i kb"
  by (simp add: seen_by_def)

lemma timely_entities:
  assumes "timely kb" "\<And>c i. seen_by c i kb \<Longrightarrow> i < kb_next_entity_id kb \<Longrightarrow> seen_by c i kb'"
    "grounded kb" "kb_states kb' = kb_states kb" "kb_relation_states kb' = kb_relation_states kb" "kb_threads kb' = kb_threads kb"
    "kb_thread_updates kb' = kb_thread_updates kb"
  shows "timely kb'"
  using assms unfolding timely_def grounded_def by simp

lemma good_entities:
  assumes g: "good ci s" and seen: "\<And>c i. seen_by c i (ct_kb s) \<Longrightarrow> i < kb_next_entity_id (ct_kb s) \<Longrightarrow> seen_by c i kb'"
    and k: "keyed kb'" "kb_next_entity_id (ct_kb s) \<le> kb_next_entity_id kb'"
    and rest: "kb_states kb' = kb_states (ct_kb s)" "kb_relation_states kb' = kb_relation_states (ct_kb s)"
    "kb_threads kb' = kb_threads (ct_kb s)" "kb_thread_updates kb' = kb_thread_updates (ct_kb s)" "kb_sequence kb' = kb_sequence (ct_kb s)"
  shows "good ci (s\<lparr>ct_kb := kb'\<rparr>)"
proof -
  let ?kb = "ct_kb s"
  have gr: "grounded ?kb" "timely ?kb" using g by (simp_all add: good_def good_kb_def)
  have "grounded kb'" using gr(1) k unfolding grounded_def rest by fastforce
  moreover have "timely kb'" by (rule timely_entities [OF gr(2) seen gr(1) rest(1-4)])
  moreover have "known_entity n ?kb i \<Longrightarrow> known_entity n kb' i" for n i using seen k(2) by (simp add: known_entity_def)
  moreover have "known_thread nid n kb' i = known_thread nid n ?kb i" for nid n i by (simp add: known_thread_def rest)
  ultimately show ?thesis using g by (simp add: good_def good_kb_def rest)
qed

lemma good_insert_alias: "good ci s \<Longrightarrow> good ci (s\<lparr>ct_kb := insert_alias nid i a n (ct_kb s)\<rparr>)"
  by (rule good_neutral) (simp_all add: insert_alias_def)

lemma good_insert_entity:
  assumes "good ci s"
  shows "good ci (s\<lparr>ct_kb := snd (insert_entity nid nm typ desc v (ci_chapter ci) (ct_kb s))\<rparr>)"
    and "known_entity (ci_chapter ci) (snd (insert_entity nid nm typ desc v (ci_chapter ci) (ct_kb s))) (kb_next_entity_id (ct_kb s))"
proof -
  have k: "keyed (ct_kb s)" using assms by (simp add: good_def good_kb_def grounded_def)
  show "good ci (s\<lparr>ct_kb := snd (insert_entity nid nm typ desc v (ci_chapter ci) (ct_kb s))\<rparr>)"
    by (rule good_entities [OF assms]) (use k in \<open>auto simp: insert_entity_def seen_by_def keyed_def\<close>)
  show "known_entity (ci_chapter ci) (snd (insert_entity nid nm typ desc v (ci_chapter ci) (ct_kb s))) (kb_next_entity_id (ct_kb s))"
    using k by (auto simp: insert_entity_def known_entity_def seen_by_def keyed_def)
qed

lemma known_visible: "keyed kb \<Longrightarrow> visible_entity nid n kb i \<Longrightarrow> known_entity n kb i"
  by (auto simp: known_entity_def visible_entity_def seen_by_def keyed_def distinct_map inj_on_def)

lemma good_create:
  assumes "good ci s" "create_entity cfg nid m typ (ci_chapter ci) desc (ct_kb s) = (Inr i, kb')"
  shows "good ci (s\<lparr>ct_kb := kb'\<rparr>) \<and> known_entity (ci_chapter ci) kb' i"
  using assms(2) good_insert_entity [OF assms(1)] by (auto simp: create_entity_def Let_def insert_entity_def)

lemma good_resolve:
  assumes g: "good ci s" and run: "link_resolve_entity cfg nid m typ (ci_chapter ci) desc (ct_kb s) = (Inr i, kb')"
  shows "good ci (s\<lparr>ct_kb := kb'\<rparr>) \<and> known_entity (ci_chapter ci) kb' i"
proof -
  have k: "keyed (ct_kb s)" using g by (simp add: good_def good_kb_def grounded_def)
  from link_resolve_cases [OF run] consider "kb' = ct_kb s" "visible_entity nid (ci_chapter ci) (ct_kb s) i"
    | v where "create_with_alias nid (py_strip m) typ (desc_or_none desc) v (ci_chapter ci) (ct_kb s) = (Inr i, kb')" by blast
  then show ?thesis
  proof cases
    case 1
    then show ?thesis using g known_visible [OF k] by simp
  next
    case (2 v)
    let ?kb1 = "snd (insert_entity nid (py_strip m) typ (desc_or_none desc) v (ci_chapter ci) (ct_kb s))"
    have i: "i = kb_next_entity_id (ct_kb s)" "kb' = insert_alias nid i (py_strip m) (ci_chapter ci) ?kb1"
      using 2 by (auto simp: create_with_alias_sel)
    have "good ci (s\<lparr>ct_kb := ?kb1\<rparr>)" by (rule good_insert_entity [OF g])
    then have "good ci (s\<lparr>ct_kb := kb'\<rparr>)" using good_insert_alias [of ci "s\<lparr>ct_kb := ?kb1\<rparr>" nid i "py_strip m" "ci_chapter ci"] i(2) by simp
    moreover have "known_entity (ci_chapter ci) ?kb1 i" unfolding i(1) by (rule good_insert_entity [OF g])
    then have "known_entity (ci_chapter ci) kb' i" by (simp add: i(2) known_entity_def seen_by_def insert_alias_def)
    ultimately show ?thesis ..
  qed
qed

lemma good_promote:
  assumes g: "good ci s"
  shows "good ci (s\<lparr>ct_kb := snd (promote_canonical_name_if_safe cfg nid i alias n (ct_kb s))\<rparr>)"
proof -
  have k: "keyed (ct_kb s)" using g by (simp add: good_def good_kb_def grounded_def)
  have upd: "good ci (s\<lparr>ct_kb := (ct_kb s)\<lparr>kb_entities := sql_update p (\<lambda>r. r\<lparr>en_name := x, en_embedding := y\<rparr>) (kb_entities (ct_kb s))\<rparr>\<rparr>)" for p x y
    by (rule good_entities [OF g]) (auto intro!: keyed_update [OF k] simp: seen_by_def set_sql_update)
  show ?thesis using g upd by (auto simp: promote_canonical_name_if_safe_def Let_def split: option.splits)
qed

lemma good_resolved: "good ci s \<Longrightarrow> ci_resolved ci r = Some (Some i) \<Longrightarrow> known_entity (ci_chapter ci) (ct_kb s) i"
  unfolding good_def by (auto simp: ran_def)

lemma lift_kb_Inr: "lift_kb m s = (Inr x, s') \<longleftrightarrow> (\<exists>kb. m (ct_kb s) = (Inr x, kb) \<and> s' = s\<lparr>ct_kb := kb\<rparr>)"
  by (auto simp: lift_kb_def split: prod.splits)

lemma mention_entity_good:
  assumes g: "good ci s" and run: "mention_entity ci x ref surface s = (Inr i, s')"
  shows "good ci s' \<and> known_entity (ci_chapter ci) (ct_kb s') i"
proof (cases "ci_resolved ci ref")
  case None
  then obtain ty kb where "link_resolve_entity (ci_link ci) (ci_novel ci) surface ty (ci_chapter ci) (Some (xm_description x)) (ct_kb s) = (Inr i, kb)"
    "s' = s\<lparr>ct_kb := kb\<rparr>"
    using run by (auto simp: mention_entity_def lift_kb_Inr Let_def split: if_splits)
  then show ?thesis using good_resolve [OF g] by simp
next
  case (Some r)
  show ?thesis
  proof (cases r)
    case None
    then obtain ty kb where "create_entity (ci_link ci) (ci_novel ci) surface ty (ci_chapter ci) (Some (xm_description x)) (ct_kb s) = (Inr i, kb)"
      "s' = s\<lparr>ct_kb := kb\<rparr>"
      using run Some by (auto simp: mention_entity_def lift_kb_Inr Let_def split: if_splits)
    then show ?thesis using good_create [OF g] by simp
  next
    case (Some j)
    then have "i = j" "s' = s" using run \<open>ci_resolved ci ref = Some r\<close> by (auto simp: mention_entity_def Let_def)
    then show ?thesis using g good_resolved [OF g] Some \<open>ci_resolved ci ref = Some r\<close> by simp
  qed
qed

lemma good_set_local: "good ci s \<Longrightarrow> known_entity (ci_chapter ci) (ct_kb s) i \<Longrightarrow> good ci (s\<lparr>ct_local := (ct_local s)(r \<mapsto> i)\<rparr>)"
  by (auto simp: good_def ran_def)

lemma good_set_thread:
  "good ci s \<Longrightarrow> known_thread (ci_novel ci) (ci_chapter ci) (ct_kb s) i \<Longrightarrow> good ci (s\<lparr>ct_threads := (ct_threads s)(r \<mapsto> i)\<rparr>)"
  by (auto simp: good_def ran_def)

lemma good_notes: "good ci s \<Longrightarrow> note_activity i k ch s = (Inr u, s') \<Longrightarrow> good ci s'"
  using good_note unfolding steps_def by blast

lemma good_each_note: "good ci s \<Longrightarrow> each (\<lambda>i. note_activity i k ch) is s = (Inr u, s') \<Longrightarrow> good ci s'"
  using steps_each [of "good ci" "\<lambda>i. note_activity i k ch" "is"] good_note unfolding steps_def by blast

text \<open>New transitions.\<close>

lemma good_add_state:
  assumes g: "good ci s" and p: "\<forall>q \<in> set_option (sr_perspective row). known_entity (ci_chapter ci) (ct_kb s) q"
    and n: "sr_chapter row = ci_chapter ci"
  shows "good ci (s\<lparr>ct_kb := (ct_kb s)\<lparr>kb_sequence := kb_sequence (ct_kb s) + 1, kb_states := kb_states (ct_kb s) @ [row]\<rparr>\<rparr>)"
  using assms by (fastforce simp: good_def good_kb_def grounded_def keyed_def timely_def known_entity_def known_thread_def seen_by_def)

lemma good_add_relation_state:
  assumes g: "good ci s" and k: "known_entity (ci_chapter ci) (ct_kb s) (rs_source row)" "known_entity (ci_chapter ci) (ct_kb s) (rs_target row)"
    and n: "rs_chapter row = ci_chapter ci"
  shows "good ci (s\<lparr>ct_kb := (ct_kb s)\<lparr>kb_sequence := kb_sequence (ct_kb s) + 1, kb_relation_states := kb_relation_states (ct_kb s) @ [row]\<rparr>\<rparr>)"
  using assms by (fastforce simp: good_def good_kb_def grounded_def keyed_def timely_def known_entity_def known_thread_def seen_by_def)

lemma good_add_update:
  assumes g: "good ci s" and k: "known_thread (ci_novel ci) (ci_chapter ci) (ct_kb s) (tu_thread_id row)"
    and n: "tu_chapter row = ci_chapter ci" "tu_novel_id row = ci_novel ci"
  shows "good ci (s\<lparr>ct_kb := (ct_kb s)\<lparr>kb_sequence := kb_sequence (ct_kb s) + 1, kb_thread_updates := kb_thread_updates (ct_kb s) @ [row]\<rparr>\<rparr>)"
  using assms by (fastforce simp: good_def good_kb_def grounded_def keyed_def timely_def known_entity_def known_thread_def seen_by_def)

lemma good_open_thread:
  assumes g: "good ci s" and run: "opened_thread ci title1 s = (Inr i, s')"
  shows "good ci s' \<and> known_thread (ci_novel ci) (ci_chapter ci) (ct_kb s') i"
proof (cases "find_thread ci title1 (ct_kb s)")
  case (Some t)
  then have t: "t \<in> set (kb_threads (ct_kb s))" "th_novel_id t = ci_novel ci" "i = th_id t" "s' = s"
    using run sql_first_Some_in [OF Some [unfolded find_thread_def]] by (auto simp: opened_thread_def)
  have "u = t" if "u \<in> set (kb_threads (ct_kb s))" "th_id u = th_id t" for u
    using g t that by (auto simp: good_def good_kb_def grounded_def distinct_map inj_on_def)
  moreover have "th_introduced t \<le> ci_chapter ci" "th_id t < kb_sequence (ct_kb s)"
    using g t(1,2) unfolding good_def good_kb_def grounded_def by blast+
  ultimately show ?thesis using g t by (auto simp: known_thread_def)
next
  case None
  let ?kb = "ct_kb s"
  let ?row = "\<lparr>th_id = kb_sequence ?kb, th_novel_id = ci_novel ci, th_title = title1, th_introduced = ci_chapter ci,
    th_version = ks_pipeline_version (lc_settings (ci_link ci))\<rparr>"
  let ?kb' = "?kb\<lparr>kb_sequence := kb_sequence ?kb + 1, kb_threads := kb_threads ?kb @ [?row]\<rparr>"
  have s': "s' = s\<lparr>ct_kb := ?kb'\<rparr>" "i = kb_sequence ?kb"
    using run None by (auto simp: opened_thread_def Let_def numbered_def)
  have gk: "good_kb (ci_novel ci) (ci_chapter ci) ?kb" using g by (simp add: good_def)
  have "grounded ?kb'" using gk by (fastforce simp: good_kb_def grounded_def keyed_def)
  moreover have "timely ?kb'" using gk by (fastforce simp: good_kb_def grounded_def timely_def seen_by_def)
  moreover have "known_entity (ci_chapter ci) ?kb' j = known_entity (ci_chapter ci) ?kb j" for j by (simp add: known_entity_def seen_by_def)
  moreover have "known_thread (ci_novel ci) (ci_chapter ci) ?kb j \<Longrightarrow> known_thread (ci_novel ci) (ci_chapter ci) ?kb' j" for j
    by (auto simp: known_thread_def)
  moreover have "known_thread (ci_novel ci) (ci_chapter ci) ?kb' (kb_sequence ?kb)"
    using gk by (auto simp: known_thread_def good_kb_def grounded_def)
  ultimately show ?thesis using g unfolding s' by (auto simp: good_def good_kb_def)
qed

text \<open>The items.\<close>

lemma upsert_good: "good ci s \<Longrightarrow> good ci (s\<lparr>ct_kb := upsert_description nid i n d (ct_kb s)\<rparr>)"
  by (rule good_neutral) (simp_all add: upsert_description_def)

lemma commit_mention_good: "steps (good ci) (commit_mention ci x)"
proof (rule stepsI)
  fix s u s'
  assume g: "good ci s" and run: "commit_mention ci x s = (Inr u, s')"
  show "good ci s'"
  proof (cases "py_strip (xm_ref x) = [] \<or> py_strip (if xm_surface x = [] then py_strip (xm_ref x) else xm_surface x) = [] \<or>
      ci_roster ci (py_strip (xm_ref x)) \<noteq> None")
    case True
    then show ?thesis using run g by (auto simp: commit_mention_def Let_def)
  next
    case False
    then obtain i s1 s2 where m: "mention_entity ci x (py_strip (xm_ref x)) (py_strip (if xm_surface x = [] then py_strip (xm_ref x) else xm_surface x)) s = (Inr i, s1)"
      and n: "note_activity i ''mentions'' [] (s1\<lparr>ct_local := (ct_local s1)(py_strip (xm_ref x) \<mapsto> i)\<rparr>) = (Inr (), s2)"
      and d: "good ci s2 \<longrightarrow> good ci s'"
      using run by (auto simp: commit_mention_def Let_def set_local_def success upsert_good split: if_splits elim!: bindS_InrE)
    have "good ci s2" using mention_entity_good [OF g m] good_set_local good_notes [OF _ n] by blast
    then show ?thesis using d by blast
  qed
qed

lemma commit_fact_good: "steps (good ci) (commit_fact ci x)"
proof (rule stepsI)
  fix s u s'
  assume g: "good ci s" and run: "commit_fact ci x s = (Inr u, s')"
  let ?add = "\<lambda>row s. s\<lparr>ct_kb := (ct_kb s)\<lparr>kb_sequence := kb_sequence (ct_kb s) + 1, kb_facts := kb_facts (ct_kb s) @ [row]\<rparr>\<rparr>"
  have "s' = s \<or> (\<exists>row i ch. note_activity i ''claims'' ch (?add row s) = (Inr u, s'))"
    using run by (auto simp: commit_fact_def numbered_def success split: if_splits elim!: bindS_InrE)
  moreover have "good ci (?add row s)" for row by (rule good_neutral [OF g]) simp_all
  ultimately show "good ci s'" using g good_notes by blast
qed

lemma good_note_pair: "good ci s \<Longrightarrow> note_activity a k ch s = (Inr v, s1) \<Longrightarrow> note_activity b k ch s1 = (Inr u, s') \<Longrightarrow> good ci s'"
  by (blast intro: good_notes)

lemma commit_relationship_good: "steps (good ci) (commit_relationship ci x)"
proof (rule stepsI)
  fix s u s'
  assume g: "good ci s" and run: "commit_relationship ci x s = (Inr u, s')"
  let ?add = "\<lambda>row s. s\<lparr>ct_kb := (ct_kb s)\<lparr>kb_sequence := kb_sequence (ct_kb s) + 1, kb_relationships := kb_relationships (ct_kb s) @ [row]\<rparr>\<rparr>"
  show "good ci s'"
  proof (cases "xr_source x = [] \<or> xr_target x = []")
    case False
    then obtain row a b ch s2 where n: "note_activity a ''claims'' ch (?add row s) = (Inr (), s2)" "note_activity b ''claims'' ch s2 = (Inr u, s')"
      using run unfolding commit_relationship_def if_not_P [OF False] by (elim bindS_InrE) (auto simp: numbered_def success)
    have "good ci (?add row s)" by (rule good_neutral [OF g]) simp_all
    then show ?thesis using n by (rule good_note_pair)
  qed (use g run in \<open>auto simp: commit_relationship_def\<close>)
qed

lemma commit_event_good: "steps (good ci) (commit_event ci x)"
proof (rule stepsI)
  fix s u s'
  assume g: "good ci s" and run: "commit_event ci x s = (Inr u, s')"
  let ?add = "\<lambda>row s. s\<lparr>ct_kb := (ct_kb s)\<lparr>kb_sequence := kb_sequence (ct_kb s) + 1, kb_events := kb_events (ct_kb s) @ [row]\<rparr>\<rparr>"
  obtain row js ch where n: "each (\<lambda>i. note_activity i ''events'' ch) js (?add row s) = (Inr u, s')"
    using run unfolding commit_event_def
    by (elim bindS_InrE) (auto simp: numbered_def success dest!: ensure_all_Inr ensure_opt_Inr)
  have "good ci (?add row s)" by (rule good_neutral [OF g]) simp_all
  then show "good ci s'" using n by (rule good_each_note)
qed

lemma commit_reveal_good: "steps (good ci) (commit_reveal ci x)"
proof (rule stepsI)
  fix s u s'
  assume g: "good ci s" and run: "commit_reveal ci x s = (Inr u, s')"
  show "good ci s'"
  proof (cases "xi_persona x = [] \<or> xi_true x = []")
    case False
    have g1: "good ci (s\<lparr>ct_kb := insert_link (ci_novel ci) (ci_chapter ci) a b nt (ct_kb s)\<rparr>)" for a b nt
      by (rule good_neutral [OF g]) (simp_all add: insert_link_def numbered_def)
    obtain a b ch s1 s2 where n: "note_activity a ''claims'' ch s1 = (Inr (), s2)" "note_activity b ''claims'' ch s2 = (Inr u, s')"
      and "good ci s1"
      using run g g1 unfolding commit_reveal_def if_not_P [OF False] by (elim bindS_InrE) (auto simp: success split: if_splits)
    from this(3) show ?thesis using n by (rule good_note_pair)
  qed (use g run in \<open>auto simp: commit_reveal_def\<close>)
qed

lemma commit_alias_good: "steps (good ci) (commit_alias ci x)"
proof (rule stepsI)
  fix s u s'
  assume g: "good ci s" and run: "commit_alias ci x s = (Inr u, s')"
  have learn: "good ci (s\<lparr>ct_kb := learn_alias (ci_novel ci) (ci_chapter ci) i a (ct_kb s)\<rparr>)" for i a
    by (rule good_neutral [OF g]) (simp_all add: learn_alias_def Let_def)
  have "s' = s \<or> (\<exists>i a ch kb b. promote_canonical_name_if_safe (ci_link ci) (ci_novel ci) i a (ci_chapter ci)
        (learn_alias (ci_novel ci) (ci_chapter ci) i a (ct_kb s)) = (Inr b, kb) \<and>
      note_activity i ''claims'' ch (s\<lparr>ct_kb := kb\<rparr>) = (Inr u, s'))"
    using run unfolding commit_alias_def
    by (auto simp: success lift_kb_Inr Let_def split: if_splits elim!: bindS_InrE) blast+
  moreover have "good ci (s\<lparr>ct_kb := kb\<rparr>)"
    if "promote_canonical_name_if_safe (ci_link ci) (ci_novel ci) i a (ci_chapter ci)
        (learn_alias (ci_novel ci) (ci_chapter ci) i a (ct_kb s)) = (Inr b, kb)" for i a b kb
    using good_promote [OF learn [of i a], of "ci_link ci" "ci_novel ci" i a "ci_chapter ci"] that by simp
  ultimately show "good ci s'" using g good_notes by blast
qed

lemma commit_state_change_good: "steps (good ci) (commit_state_change ci x)"
proof (rule stepsI)
  fix s u s'
  assume g: "good ci s" and run: "commit_state_change ci x s = (Inr u, s')"
  let ?add = "\<lambda>row s. s\<lparr>ct_kb := (ct_kb s)\<lparr>kb_sequence := kb_sequence (ct_kb s) + 1, kb_states := kb_states (ct_kb s) @ [row]\<rparr>\<rparr>"
  obtain row i ch p s1 where n: "note_activity i ''claims'' ch (?add row s) = (Inr (), s1)"
    and p: "set_option p \<subseteq> ran (ct_local s)" and row: "sr_perspective row = p" "sr_chapter row = ci_chapter ci"
    and e: "(case p of None \<Rightarrow> returnS () | Some q \<Rightarrow> if q = 0 then returnS () else note_activity q ''claims'' ch) s1 = (Inr u, s')"
    using run unfolding commit_state_change_def
    by (elim bindS_InrE) (auto simp: numbered_def success dest!: ensure_opt_Inr)
  have "\<forall>q \<in> set_option (sr_perspective row). known_entity (ci_chapter ci) (ct_kb s) q"
    using p row g unfolding good_def by blast
  then have "good ci s1" using good_notes [OF good_add_state [OF g _ row(2)] n] by simp
  then show "good ci s'" using e good_notes by (auto split: option.splits if_splits)
qed

lemma commit_relation_change_good: "steps (good ci) (commit_relation_change ci x)"
proof (rule stepsI)
  fix s u s'
  assume g: "good ci s" and run: "commit_relation_change ci x s = (Inr u, s')"
  let ?add = "\<lambda>row s. s\<lparr>ct_kb := (ct_kb s)\<lparr>kb_sequence := kb_sequence (ct_kb s) + 1, kb_relation_states := kb_relation_states (ct_kb s) @ [row]\<rparr>\<rparr>"
  obtain row a b ch s2 where n: "note_activity a ''claims'' ch (?add row s) = (Inr (), s2)" "note_activity b ''claims'' ch s2 = (Inr u, s')"
    and l: "ct_local s (py_strip (xt_source x)) = Some a" "ct_local s (py_strip (xt_target x)) = Some b"
    and row: "rs_source row = a" "rs_target row = b" "rs_chapter row = ci_chapter ci"
    using run unfolding commit_relation_change_def by (elim bindS_InrE) (auto simp: numbered_def success)
  have "good ci (?add row s)"
    by (rule good_add_relation_state [OF g _ _ row(3)]) (simp_all add: row known_local [OF g l(1)] known_local [OF g l(2)])
  then show "good ci s'" using n by (rule good_note_pair)
qed

lemma thread_id_good:
  assumes g: "good ci s" and run: "thread_id_of ci x s = (Inr i, s')"
  shows "good ci s' \<and> known_thread (ci_novel ci) (ci_chapter ci) (ct_kb s') i"
proof (cases "ct_threads s (xu_ref x)")
  case (Some j)
  then have "s' = s" "i = j" using run by (auto simp: thread_id_of_def success elim!: bindS_InrE)
  then show ?thesis using g Some by (auto simp: good_def ran_def)
next
  case None
  then obtain ttl s1 where o1: "opened_thread ci ttl s = (Inr i, s1)" and s': "s' = s1\<lparr>ct_threads := (ct_threads s1)(xu_ref x \<mapsto> i)\<rparr>"
    using run by (auto simp: thread_id_of_def set_thread_def success Let_def split: if_splits elim!: bindS_InrE)
  show ?thesis using good_open_thread [OF g o1] good_set_thread s' by simp
qed

lemma commit_thread_good: "steps (good ci) (commit_thread ci x)"
proof (rule stepsI)
  fix s u s'
  assume g: "good ci s" and run: "commit_thread ci x s = (Inr u, s')"
  let ?add = "\<lambda>row s. s\<lparr>ct_kb := (ct_kb s)\<lparr>kb_sequence := kb_sequence (ct_kb s) + 1, kb_thread_updates := kb_thread_updates (ct_kb s) @ [row]\<rparr>\<rparr>"
  obtain i s1 row ch ps where n: "each (\<lambda>p. note_activity p ''claims'' ch) ps (?add row s1) = (Inr u, s')"
    and id1: "thread_id_of ci x s = (Inr i, s1)"
    and row: "tu_thread_id row = i" "tu_chapter row = ci_chapter ci" "tu_novel_id row = ci_novel ci"
    using run unfolding commit_thread_def Let_def
    by (elim bindS_InrE) (auto simp: numbered_def success dest!: ensure_all_Inr)
  have k: "good ci s1" "known_thread (ci_novel ci) (ci_chapter ci) (ct_kb s1) (tu_thread_id row)"
    using thread_id_good [OF g id1] row(1) by simp_all
  show "good ci s'" by (rule good_each_note [OF good_add_update [OF k row(2,3)] n])
qed

lemmas item_goods = commit_mention_good commit_fact_good commit_relationship_good commit_event_good commit_reveal_good commit_alias_good
  commit_state_change_good commit_relation_change_good commit_thread_good

lemma items_good: "steps (good ci) (commit_items ci x)"
  unfolding commit_items_def by (intro steps_bind steps_each item_goods)

text \<open>The start of a commit: after the chapter's suffix is cleared, no thread of the novel was introduced from it on.\<close>

lemma clear_kb_good:
  assumes g: "grounded kb" and tm: "timely kb"
  shows "good_kb nid n (clear_kb nid n kb)"
proof -
  let ?kb = "clear_kb nid n kb"
  have es: "seen_by c i ?kb = seen_by c i kb" for c i
    by (auto simp: seen_by_def clear_kb_def Let_def set_sql_update simp del: if_image_distrib)
  have sub: "set (kb_states ?kb) \<subseteq> set (kb_states kb)" "set (kb_relation_states ?kb) \<subseteq> set (kb_relation_states kb)"
    "set (kb_threads ?kb) \<subseteq> set (kb_threads kb)" "set (kb_thread_updates ?kb) \<subseteq> set (kb_thread_updates kb)"
    by (auto simp: clear_kb_def Let_def set_sql_delete)
  have kept: "set (kb_threads ?kb) = {t \<in> set (kb_threads kb). \<not> (th_novel_id t = nid \<and> th_introduced t \<ge> n \<and>
      th_id t \<notin> tu_thread_id ` set (kb_thread_updates ?kb))}"
    by (simp add: clear_kb_def Let_def set_sql_delete)
  have eqs: "kb_next_entity_id ?kb = kb_next_entity_id kb" "kb_sequence ?kb = kb_sequence kb" by (simp_all add: clear_kb_def Let_def)
  have k: "keyed ?kb" using g by (auto simp: grounded_def keyed_def clear_kb_def Let_def map_sql_update set_sql_update)
  have d: "distinct (map th_id (kb_threads ?kb))"
    using g by (simp add: grounded_def clear_kb_def Let_def distinct_sql_delete)
  have gr: "grounded ?kb"
    using g sub k d unfolding grounded_def eqs by blast
  have tm': "timely ?kb" using tm sub unfolding timely_def es by blast
  have "th_introduced t \<le> n" if t: "t \<in> set (kb_threads ?kb)" "th_novel_id t = nid" for t
  proof (cases "th_introduced t \<ge> n")
    case True
    have t': "t \<in> set (kb_threads kb)" using t(1) sub(3) by blast
    have "t \<in> {t \<in> set (kb_threads kb). \<not> (th_novel_id t = nid \<and> th_introduced t \<ge> n \<and> th_id t \<notin> tu_thread_id ` set (kb_thread_updates ?kb))}"
      using t(1) unfolding kept by simp
    then have "th_id t \<in> tu_thread_id ` set (kb_thread_updates ?kb)" using t(2) True by blast
    then obtain u where u: "u \<in> set (kb_thread_updates ?kb)" "tu_thread_id u = th_id t" by force
    have u': "u \<in> set (kb_thread_updates kb)" "\<not> (tu_novel_id u = nid \<and> tu_chapter u \<ge> n)"
      using u(1) by (auto simp: clear_kb_def Let_def set_sql_delete)
    have "th_novel_id t = tu_novel_id u" using g u'(1) t' u(2) unfolding grounded_def by force
    then have "tu_chapter u < n" using u'(2) t(2) by auto
    moreover have "th_introduced t \<le> tu_chapter u" using tm u'(1) t' u(2) unfolding timely_def by force
    ultimately show ?thesis by simp
  qed simp
  then show ?thesis using gr tm' by (simp add: good_kb_def)
qed

text \<open>What the caller supplies: references to entities and threads of the novel visible at the chapter.\<close>

definition supplied :: "commit_input \<Rightarrow> (string \<rightharpoonup> int) \<Rightarrow> knowledge \<Rightarrow> bool" where
  "supplied ci threads kb \<longleftrightarrow>
     (\<forall>i \<in> ran (ci_roster ci). known_entity (ci_chapter ci) kb i) \<and>
     (\<forall>i. Some i \<in> ran (ci_resolved ci) \<longrightarrow> known_entity (ci_chapter ci) kb i) \<and>
     (\<forall>i \<in> ran threads. known_thread (ci_novel ci) (ci_chapter ci) kb i)"

lemma commit_extraction_good:
  assumes run: "commit_extraction ci cm ground rebuild threads force x db = (Inr b, db')"
    and g: "grounded (xd_kb db)" "timely (xd_kb db)" "supplied ci threads (xd_kb db)"
  shows "grounded (xd_kb db') \<and> timely (xd_kb db')"
proof (cases "db' = db")
  case True
  then show ?thesis using g by simp
next
  case False
  let ?nid = "ci_novel ci" and ?n = "ci_chapter ci"
  let ?start = "on_kb (clear_caches ?nid (Some ?n) None) (clear_extraction_chapter ?nid ?n db)"
  obtain y where "bindS (write_items ci threads y) (finish_commit ci cm (x_memories y)) ?start = (Inr b, db')"
    using run False by (auto simp: commit_extraction_def Let_def split: if_splits sum.splits)
  then obtain acts d where w: "write_items ci threads y ?start = (Inr acts, d)" and f: "finish_commit ci cm (x_memories y) acts d = (Inr b, db')"
    by (rule bindS_InrE)
  let ?kb = "clear_kb ?nid ?n (xd_kb db)"
  have start: "xd_kb ?start = clear_caches ?nid (Some ?n) None ?kb" by (simp add: on_kb_def clear_extraction_chapter_def)
  have "known_entity ?n (xd_kb db) i \<Longrightarrow> known_entity ?n ?kb i" for i
    by (auto simp: known_entity_def seen_by_def clear_kb_def Let_def set_sql_update simp del: if_image_distrib)
  moreover have "known_thread ?nid ?n (xd_kb db) i \<Longrightarrow> known_thread ?nid ?n ?kb i" for i
    by (auto simp: known_thread_def clear_kb_def Let_def set_sql_delete)
  ultimately have "good ci \<lparr>ct_kb = ?kb, ct_local = ci_roster ci, ct_threads = threads, ct_activity = []\<rparr>"
    using clear_kb_good [OF g(1,2)] g(3) by (auto simp: good_def supplied_def)
  then have "good ci (\<lparr>ct_kb = ?kb, ct_local = ci_roster ci, ct_threads = threads, ct_activity = []\<rparr>\<lparr>ct_kb := xd_kb ?start\<rparr>)"
    unfolding start by (rule good_neutral) (simp_all add: clear_caches_def)
  then have st: "good ci (commit_start ci threads ?start)" by (simp add: commit_start_def)
  obtain s where s: "commit_items ci y (commit_start ci threads ?start) = (Inr (), s)" "xd_kb d = ct_kb s"
    using w by (auto simp: write_items_def split: prod.splits sum.splits)
  have "good ci s" using items_good st s(1) unfolding steps_def by blast
  then have gk: "grounded (xd_kb d) \<and> timely (xd_kb d)" by (simp add: good_def good_kb_def s(2))
  obtain rows where "xd_kb db' = (xd_kb d)\<lparr>kb_activity := rows\<rparr>" using finish_kb [OF f] by blast
  then show ?thesis using gk by (simp add: grounded_def keyed_def timely_def seen_by_def)
qed

text \<open>C7: Extraction maintains what the reading tools rely on: a commit, given references to entities and threads visible at its chapter,
  keeps the ids the tables refer to below their sequences and every transition timely (it names only entities already seen in its chapter, and every
  update belongs to a thread already introduced), on every proposal, and when a chapter in the middle of the book is extracted again.\<close>

theorem extraction_keeps_timely:
  assumes "commit_codex_extraction digest rdb cdb ci cm ground rebuild threads force x db = (r, db')"
    and "grounded (xd_kb db)" "timely (xd_kb db)" "supplied ci threads (xd_kb db)"
  shows "grounded (xd_kb db') \<and> timely (xd_kb db')"
proof (cases r)
  case (Inl e)
  then have "db' = db" using assms(1) by (auto simp: commit_codex_extraction_def atomicS_def split: prod.splits sum.splits)
  then show ?thesis using assms(2,3) by simp
next
  case (Inr b)
  then obtain text1 chunks where
    "commit_extraction (ci\<lparr>ci_text := text1, ci_chunks := chunks\<rparr>) cm ground rebuild threads force x db = (Inr b, db')"
    using assms(1) by (auto simp: commit_codex_extraction_def atomicS_def split: prod.splits sum.splits option.splits if_splits)
  moreover have "supplied (ci\<lparr>ci_text := text1, ci_chunks := chunks\<rparr>) threads (xd_kb db)" using assms(4) by (simp add: supplied_def)
  ultimately show ?thesis using commit_extraction_good assms(2,3) by blast
qed


section \<open>A commit is made once\<close>

lemma put_memory_states: "put_memory nid ver cm valid ups kind prev d = (Inr h, d') \<Longrightarrow> xd_states d' = xd_states d"
  by (auto simp: put_memory_def Let_def success split: option.splits if_splits elim!: bindS_InrE)

lemma find_put_state:
  "find_state nid n (put_state nid n ver cm db) = Some \<lparr>xz_novel_id = nid, xz_chapter = n, xz_summary = py_strip (cm_summary cm),
     xz_run = cm_run cm, xz_source = cm_source cm, xz_version = ver, xz_context = opt_text (cm_context cm)\<rparr>"
proof -
  have "(\<exists>s \<in> set rows. same s) \<Longrightarrow> same r \<Longrightarrow> find same (sql_update same (\<lambda>_. r) rows) = Some r" for rows same and r :: extraction_state_row
    by (induction rows) auto
  moreover have "\<not> (\<exists>s \<in> set rows. same s) \<Longrightarrow> same r \<Longrightarrow> find same (rows @ [r]) = Some r" for rows same and r :: extraction_state_row
    by (induction rows) auto
  ultimately show ?thesis by (simp add: find_state_def put_state_def Let_def)
qed

lemma commit_extraction_state:
  assumes "commit_extraction ci cm ground rebuild threads force x db = (Inr b, db')" "cm_run cm \<noteq> None"
  shows "already_done (ks_pipeline_version (lc_settings (ci_link ci))) cm (find_state (ci_novel ci) (ci_chapter ci) db') \<and>
    (b \<longrightarrow> db' = db) \<and> (\<not> b \<longrightarrow> (\<forall>s \<in> set (xd_states db'). xz_novel_id s = ci_novel ci \<longrightarrow> xz_chapter s \<le> ci_chapter ci))"
proof (cases "already_done (ks_pipeline_version (lc_settings (ci_link ci))) cm (find_state (ci_novel ci) (ci_chapter ci) db)")
  case True
  then show ?thesis using assms(1) by (simp add: commit_extraction_def Let_def)
next
  case False
  let ?nid = "ci_novel ci" and ?n = "ci_chapter ci" and ?ver = "ks_pipeline_version (lc_settings (ci_link ci))"
  let ?start = "on_kb (clear_caches ?nid (Some ?n) None) (clear_extraction_chapter ?nid ?n db)"
  obtain y where "bindS (write_items ci threads y) (finish_commit ci cm (x_memories y)) ?start = (Inr b, db')"
    using assms(1) False by (auto simp: commit_extraction_def Let_def split: if_splits sum.splits)
  then obtain acts d where w: "write_items ci threads y ?start = (Inr acts, d)" and f: "finish_commit ci cm (x_memories y) acts d = (Inr b, db')"
    by (rule bindS_InrE)
  have sd: "xd_states d = sql_delete (\<lambda>s. xz_novel_id s = ?nid \<and> xz_chapter s \<ge> ?n) (xd_states db)"
    using w by (auto simp: write_items_def on_kb_def clear_extraction_chapter_def split: prod.splits sum.splits)
  obtain e where e: "xd_states e = xd_states d" "db' = put_state ?nid ?n ?ver cm e" "\<not> b"
  proof -
    obtain d1 d2 h h' where "put_memory ?nid ?ver cm (ci_chunks ci) (x_memories y) ''checkpoint'' None
          (put_summary ?nid ?n ?ver (py_strip (cm_summary cm)) (cm_tokens cm (py_strip (cm_summary cm))) (cm_source cm) (ci_chunks ci) d) = (Inr h, d1)"
      "put_memory ?nid ?ver cm (ci_chunks ci) (x_memories y) ''volume'' h d1 = (Inr h', d2)"
      "db' = put_state ?nid ?n ?ver cm (put_context ?nid ?n ?ver cm
         (on_kb (\<lambda>kb. kb\<lparr>kb_activity := fold (put_activity ci) acts (kb_activity kb)\<rparr>) d2))" "\<not> b"
      by (rule finish_commitD [OF f])
    then show ?thesis
      using put_memory_states by (intro that [of "put_context ?nid ?n ?ver cm
         (on_kb (\<lambda>kb. kb\<lparr>kb_activity := fold (put_activity ci) acts (kb_activity kb)\<rparr>) d2)"])
        (auto simp: put_context_def put_summary_def on_kb_def Let_def)
  qed
  have "already_done ?ver cm (find_state ?nid ?n db')"
    using assms(2) by (simp add: e(2) find_put_state already_done_def)
  moreover have "\<forall>s \<in> set (xd_states db'). xz_novel_id s = ?nid \<longrightarrow> xz_chapter s \<le> ?n"
    unfolding e(2) put_state_def Let_def using e(1) sd by (auto simp: set_sql_delete set_sql_update split: if_splits)
  ultimately show ?thesis using e(3) by simp
qed

text \<open>C12: A run's extraction of a chapter is committed once. After a commit has returned, committing again for the same run and source
  answers that it was there already and writes nothing, whatever well-formed proposal, context or force flag comes with it; and the commit that
  wrote has taken every later chapter's extraction state away, so that no later chapter counts as extracted over the old text.\<close>

theorem commit_extraction_once:
  assumes "commit_codex_extraction digest rdb cdb ci cm ground rebuild threads force x db = (Inr b, db')" "cm_run cm \<noteq> None"
  shows "commit_codex_extraction digest rdb cdb ci cm ground' rebuild' threads' force' x' db' = (Inr True, db') \<and>
    (b \<longrightarrow> db' = db) \<and> (\<not> b \<longrightarrow> (\<forall>s \<in> set (xd_states db'). xz_novel_id s = ci_novel ci \<longrightarrow> xz_chapter s \<le> ci_chapter ci))"
proof -
  obtain snap where snap: "chapter_snapshot (ci_novel ci) (ci_chapter ci) rdb = Some snap" "digest (coalesce (cs_content snap) []) = cm_source cm"
    and run: "commit_extraction (ci\<lparr>ci_text := coalesce (cs_content snap) [], ci_chunks := chunk_ids_of (ci_novel ci) (ci_chapter ci) cdb\<rparr>)
      cm ground rebuild threads force x db = (Inr b, db')"
    using assms(1) by (auto simp: commit_codex_extraction_def atomicS_def split: prod.splits sum.splits option.splits if_splits)
  note st = commit_extraction_state [OF run assms(2), simplified]
  then show ?thesis using snap by (simp add: commit_codex_extraction_def atomicS_def commit_extraction_def Let_def)
qed

section \<open>An example\<close>

definition demo_chapter_row :: chapter_row where
  "demo_chapter_row = \<lparr>c_novel_id = 1, c_number = 3, c_source_id = None, c_title = None, c_url = None, c_raw_html = None,
     c_original_text = None, c_content = Some ''Klein fell'', c_language = None, c_is_translated = False, c_translation_status = ''none'',
     c_translation_model = None, c_word_count = None, c_content_version = 1, c_kind = None, c_part_label = None, c_run_id = None,
     c_source_sha = None\<rparr>"

definition demo_extract_reading :: reading_db where
  "demo_extract_reading = \<lparr>chapters = [demo_chapter_row], progress_rows = [], bookmarks = [], next_bookmark_id = 1, overlays = [],
     contributions = [], next_contribution_id = 1\<rparr>"

definition demo_codex :: codex_db where
  "demo_codex = \<lparr>cx_chunks = [\<lparr>ck_id = 9, ck_novel_id = 1, ck_chapter = 3, ck_index = 0, ck_text = ''Klein fell'', ck_token_count = 2,
     ck_embedding = None\<rparr>], cx_next_chunk_id = 10, cx_structured = []\<rparr>"

definition demo_fact :: "int \<Rightarrow> rat \<Rightarrow> string \<Rightarrow> fact_row" where
  "demo_fact k n s = \<lparr>fa_id = k, fa_novel_id = 1, fa_entity_id = 1, fa_chapter = n, fa_type = Some ''event'', fa_content = s, fa_data = None\<rparr>"

definition demo_base :: knowledge where
  "demo_base = (demo_kb [demo_entity 1 ''Klein'' 1] [] [])\<lparr>kb_facts := [demo_fact 1 2 ''stood'', demo_fact 2 3 ''old'']\<rparr>"

definition demo_extraction_db :: extraction_db where
  "demo_extraction_db = \<lparr>xd_kb = demo_base, xd_summaries = [], xd_segments = [], xd_contexts = [], xd_states = []\<rparr>"

definition demo_input :: commit_input where
  "demo_input = \<lparr>ci_link = demo_link_config [], ci_novel = 1, ci_chapter = 3, ci_text = [], ci_resolver = False, ci_resolved = Map.empty,
     ci_roster = [''e1'' \<mapsto> 1], ci_chunks = []\<rparr>"

definition demo_meta :: commit_meta where
  "demo_meta = \<lparr>cm_run = Some 7, cm_source = ''Klein fell'', cm_context = [], cm_targets = [], cm_summary = ''Klein falls.'',
     cm_tokens = length, cm_max_summary = 50, cm_max_checkpoint = 50, cm_max_volume = 50,
     cm_digest = (\<lambda>_ _ _. [])\<rparr>"

definition demo_proposal :: extraction where
  "demo_proposal = \<lparr>x_mentions = [], x_facts = [\<lparr>xf_ref = ''e1'', xf_type = ''event'', xf_content = ''fell'', xf_evidence = Some ''Klein fell'', xf_chunks = [9]\<rparr>],
     x_relationships = [], x_events = [], x_reveals = [], x_aliases = [], x_states = [], x_relation_states = [], x_threads = [], x_memories = []\<rparr>"

definition demo_commit :: "extraction_db \<Rightarrow> bool result \<times> extraction_db" where
  "demo_commit = commit_codex_extraction (\<lambda>s. s) demo_extract_reading demo_codex demo_input demo_meta Inr (\<lambda>_. []) Map.empty False demo_proposal"

lemmas demo_commit_defs = demo_commit_def demo_chapter_row_def demo_extract_reading_def demo_codex_def demo_fact_def demo_base_def demo_extraction_db_def
  demo_input_def demo_meta_def demo_proposal_def demo_link_config_def demo_defs

lemma demo_commit_run:
  "fst (demo_commit demo_extraction_db) = Inr False" (is ?ok)
  "kb_facts (xd_kb (snd (demo_commit demo_extraction_db))) = [demo_fact 1 2 ''stood'', demo_fact 100 3 ''fell'']" (is ?facts)
proof -
  have "?ok \<and> ?facts"
    by (simp add: demo_commit_defs commit_codex_extraction_def atomicS_def chapter_snapshot_def find_chapter_def row_by_def chapter_key_def
        chunk_ids_of_def in_chapter_def commit_extraction_def find_state_def already_done_def cited_chunks_def clean_chunk_ids_def
        write_items_def commit_items_def commit_start_def commit_fact_def ensure_entity_id_def read_commit_def bindS_def returnS_def
        liftS_def with_kb_def numbered_def note_activity_def finish_commit_def put_memory_def on_kb_def clear_caches_def
        clear_extraction_chapter_def clear_kb_def put_summary_def put_context_def put_state_def bindE_def sql_delete_def
        py_strip_def py_lstrip_def py_rstrip_def is_py_space_def Let_def)
  then show ?ok ?facts by simp_all
qed

theorem extraction_below_unchanged_witness:
  "fst (demo_commit demo_extraction_db) = Inr False \<and> xd_kb (snd (demo_commit demo_extraction_db)) \<noteq> demo_base \<and>
   unchanged_below 2 demo_base (xd_kb (snd (demo_commit demo_extraction_db)))"
proof -
  have "kb_facts (xd_kb (snd (demo_commit demo_extraction_db))) \<noteq> kb_facts demo_base"
    unfolding demo_commit_run(2) by (simp add: demo_commit_defs)
  moreover have "unchanged_below 2 demo_base (xd_kb (snd (demo_commit demo_extraction_db)))"
    using extraction_below_unchanged [of "\<lambda>s. s" demo_extract_reading demo_codex demo_input demo_meta Inr "\<lambda>_. []" Map.empty False demo_proposal
        demo_extraction_db "fst (demo_commit demo_extraction_db)" "snd (demo_commit demo_extraction_db)" 2]
    by (simp add: demo_commit_def) (simp add: demo_commit_defs keyed_def)
  ultimately show ?thesis using demo_commit_run(1) by auto
qed

theorem extraction_keeps_timely_witness:
  "fst (demo_commit demo_extraction_db) = Inr False \<and>
   grounded (xd_kb (snd (demo_commit demo_extraction_db))) \<and> timely (xd_kb (snd (demo_commit demo_extraction_db)))"
  using extraction_keeps_timely [of "\<lambda>s. s" demo_extract_reading demo_codex demo_input demo_meta Inr "\<lambda>_. []" Map.empty False demo_proposal
      demo_extraction_db "fst (demo_commit demo_extraction_db)" "snd (demo_commit demo_extraction_db)"] demo_commit_run(1)
  by (simp add: demo_commit_def)
    (simp add: demo_commit_defs grounded_def keyed_def timely_def supplied_def known_entity_def seen_by_def)

theorem commit_extraction_once_witness:
  "demo_commit (snd (demo_commit demo_extraction_db)) = (Inr True, snd (demo_commit demo_extraction_db))"
  using commit_extraction_once [of "\<lambda>s. s" demo_extract_reading demo_codex demo_input demo_meta Inr "\<lambda>_. []" Map.empty False demo_proposal
      demo_extraction_db False "snd (demo_commit demo_extraction_db)" Inr "\<lambda>_. []" Map.empty False demo_proposal] demo_commit_run(1)
  by (simp add: demo_commit_def prod_eq_iff) (simp add: demo_meta_def)

end
