(* ===== verification/Codex_Context.thy ===== *)
theory Codex_Context
  imports Codex_Extraction
begin

text \<open>
  The context a chapter is extracted under: \<open>build_chapter_context\<close> of \<open>modules/codex/adapters/outbound/context.py\<close> with its scoring of
  candidates, its roster, states, threads, summaries and reducer inputs, and the reductions that keep it within the token budget.
  Tokenizer, trigram similarity, vector distance, hash and the printing of floats are arguments. Of the manifest the tables of terms, the
  selected and the dropped entities are kept. \<open>Codex_Context_Fit\<close> and \<open>Codex_Context_Past\<close> hold the theorems.
\<close>

section \<open>Serialisation\<close>

text \<open>\<open>json.dumps(..., ensure_ascii=False, separators=(",", ":"))\<close>; \<open>fmt\<close> prints a float.\<close>

definition hex_digit :: "nat \<Rightarrow> char" where
  "hex_digit n = ''0123456789abcdef'' ! n"

definition is_control :: "char \<Rightarrow> bool" where
  "is_control ch = (case ch of Char b0 b1 b2 b3 b4 b5 b6 b7 \<Rightarrow> \<not> b5 \<and> \<not> b6 \<and> \<not> b7)"

definition escape_char :: "char \<Rightarrow> string" where
  "escape_char ch =
     (if ch = CHR 0x22 then [CHR 0x5C, CHR 0x22] else if ch = CHR 0x5C then [CHR 0x5C, CHR 0x5C]
      else if \<not> is_control ch then [ch]
      else if ch = CHR 0x0A then CHR 0x5C # ''n'' else if ch = CHR 0x0D then CHR 0x5C # ''r'' else if ch = CHR 0x09 then CHR 0x5C # ''t''
      else if ch = CHR 0x08 then CHR 0x5C # ''b'' else if ch = CHR 0x0C then CHR 0x5C # ''f''
      else CHR 0x5C # ''u00'' @ [hex_digit (of_char ch div 16), hex_digit (of_char ch mod 16)])"

definition json_string :: "string \<Rightarrow> string" where
  "json_string s = [CHR 0x22] @ concat (map escape_char s) @ [CHR 0x22]"

fun compact :: "(rat \<Rightarrow> string) \<Rightarrow> json \<Rightarrow> string" where
  "compact fmt JNull = ''null''"
| "compact fmt (JBool b) = (if b then ''true'' else ''false'')"
| "compact fmt (JInt i) = show_int i"
| "compact fmt (JFloat x) = fmt x"
| "compact fmt (JStr s) = json_string s"
| "compact fmt (JArr vs) = ''['' @ py_join '','' (map (compact fmt) vs) @ '']''"
| "compact fmt (JObj kvs) = ''{'' @ py_join '','' (map (\<lambda>(k, v). json_string k @ '':'' @ compact fmt v) kvs) @ ''}''"

fun without_provenance :: "json \<Rightarrow> json" where
  "without_provenance (JObj kvs) =
     JObj (map (\<lambda>(k, v). (k, without_provenance v)) (filter (\<lambda>kv. fst kv \<notin> {''source_chunk_ids'', ''transition_id''}) kvs))"
| "without_provenance (JArr vs) = JArr (map without_provenance vs)"
| "without_provenance v = v"

section \<open>Names in the text of a chapter\<close>

definition visible_occurrence :: "string \<Rightarrow> string \<Rightarrow> bool" where
  "visible_occurrence term1 txt1 = (length (py_strip term1) \<ge> 3 \<and> occurs_after None (py_strip term1) txt1)"

definition strpos_lower :: "string \<Rightarrow> string \<Rightarrow> bool" where
  "strpos_lower txt1 s = py_in (py_lower s) (py_lower txt1)"

text \<open>
  The spans of capitalised words, \<open>_TITLE_SPAN\<close>: a matcher returns the ways to split a string into a match and the rest, in the order
  in which the backtracking search tries them.
\<close>

fun star :: "(char \<Rightarrow> bool) \<Rightarrow> string \<Rightarrow> (string \<times> string) list" where
  "star p [] = [([], [])]"
| "star p (c # cs) = (if p c then map (\<lambda>(a, b). (c # a, b)) (star p cs) else []) @ [([], c # cs)]"

definition seq :: "(string \<Rightarrow> (string \<times> string) list) \<Rightarrow> (string \<Rightarrow> (string \<times> string) list) \<Rightarrow> string \<Rightarrow> (string \<times> string) list" where
  "seq f g s = concat (map (\<lambda>(a, b). map (\<lambda>(c, d). (a @ c, d)) (g b)) (f s))"

definition is_ascii_upper :: "char \<Rightarrow> bool" where
  "is_ascii_upper c = (let n = (of_char c :: nat) in 65 \<le> n \<and> n \<le> 90)"

definition span_char :: "char \<Rightarrow> bool" where
  "span_char c = (is_word_char (Some c) \<or> c \<in> {CHR 0x27, CHR ''.'', CHR ''-''})"

definition one_char :: "(char \<Rightarrow> bool) \<Rightarrow> string \<Rightarrow> (string \<times> string) list" where
  "one_char p s = (case s of c # cs \<Rightarrow> if p c then [([c], cs)] else [] | [] \<Rightarrow> [])"

definition title_word :: "string \<Rightarrow> (string \<times> string) list" where
  "title_word = seq (one_char is_ascii_upper) (star span_char)"

definition spaces :: "string \<Rightarrow> (string \<times> string) list" where
  "spaces = seq (one_char is_py_space) (star is_py_space)"

definition literal :: "string \<Rightarrow> string \<Rightarrow> (string \<times> string) list" where
  "literal w s = (if take (length w) s = w then [(w, drop (length w) s)] else [])"

definition joiner :: "string \<Rightarrow> (string \<times> string) list" where
  "joiner s = seq (\<lambda>r. concat (map (\<lambda>w. literal w r) [''of'', ''the'', ''and'', ''de'', ''von'', ''van''])) spaces s @ [([], s)]"

fun more_words :: "nat \<Rightarrow> string \<Rightarrow> (string \<times> string) list" where
  "more_words 0 s = [([], s)]"
| "more_words (Suc k) s = seq (seq spaces (seq joiner title_word)) (more_words k) s @ [([], s)]"

definition head :: "string \<Rightarrow> char option" where
  "head s = (case s of [] \<Rightarrow> None | c # _ \<Rightarrow> Some c)"

definition title_match :: "char option \<Rightarrow> string \<Rightarrow> string option" where
  "title_match prev s =
     (if is_word_char prev then None
      else map_option fst (find (\<lambda>(a, b). is_word_char (Some (last a)) \<noteq> is_word_char (head b)) (seq title_word (more_words 4) s)))"

text \<open>\<open>finditer\<close>: after a match the search goes on behind it.\<close>

fun title_matches :: "nat \<Rightarrow> char option \<Rightarrow> string \<Rightarrow> string list" where
  "title_matches k prev [] = []"
| "title_matches (Suc k) prev (c # cs) = title_matches k (Some c) cs"
| "title_matches 0 prev (c # cs) =
     (case title_match prev (c # cs) of
        None \<Rightarrow> title_matches 0 (Some c) cs
      | Some m \<Rightarrow> m # title_matches (length m - 1) (Some c) cs)"

definition extract_title_spans :: "string \<Rightarrow> string list" where
  "extract_title_spans s =
     take 40 (distinct_on py_casefold (filter (\<lambda>v. length v \<ge> 3)
       (map (strip_chars ('' .,:;!?()[]{}'' @ [CHR 0x22, CHR 0x27])) (title_matches 0 None s))))"

section \<open>Scoring candidates\<close>

record context_config =
  cf_settings :: codex_settings
  cf_count :: "string \<Rightarrow> nat"
  cf_float :: "rat \<Rightarrow> string"
  cf_similarity :: "string \<Rightarrow> string \<Rightarrow> rat"
  cf_distance :: "rat list \<Rightarrow> rat list \<Rightarrow> rat"
  cf_hash :: "string \<Rightarrow> string"
  cf_max_tokens :: nat
  cf_max_entities :: nat
  cf_max_background :: nat
  cf_entity_tokens :: nat
  cf_state_tokens :: nat
  cf_thread_tokens :: nat
  cf_recent_activity :: rat
  cf_recent_summaries :: nat
  cf_dormant :: rat
  cf_vector_min :: rat

definition version_of :: "context_config \<Rightarrow> string" where
  "version_of cf = ks_pipeline_version (cf_settings cf)"

text \<open>A candidate: its entity, its score and the reasons for it.\<close>

type_synonym candidate = "int \<times> rat \<times> string list"

definition add_score :: "rat \<Rightarrow> string \<Rightarrow> int \<Rightarrow> candidate list \<Rightarrow> candidate list" where
  "add_score x why i cs =
     (if i \<in> fst ` set cs then map (\<lambda>(j, y, rs). if j = i then (j, y + x, rs @ [why]) else (j, y, rs)) cs
      else cs @ [(i, x, [why])])"

definition aliases_before :: "rat \<Rightarrow> knowledge \<Rightarrow> int \<Rightarrow> string list" where
  "aliases_before n kb i = sort_key code_points (remdups (map al_alias (filter (\<lambda>a. al_entity_id a = i \<and> al_revealed a < n) (kb_aliases kb))))"

definition mentioned :: "int \<Rightarrow> rat \<Rightarrow> string \<Rightarrow> knowledge \<Rightarrow> entity_row list" where
  "mentioned nid n txt1 kb =
     filter (\<lambda>e. \<exists>s \<in> set (en_name e # aliases_before n kb (en_id e)). visible_occurrence s txt1)
       (take 300 (sort_key en_id (filter (\<lambda>e. en_novel_id e = nid \<and> en_first_seen e < n \<and> (strpos_lower txt1 (en_name e) \<or>
         (\<exists>a \<in> set (kb_aliases kb). al_entity_id a = en_id e \<and> al_revealed a < n \<and> length (al_alias a) \<ge> 3 \<and> strpos_lower txt1 (al_alias a))))
         (kb_entities kb))))"

definition grouped_max :: "(int \<times> rat) list \<Rightarrow> (int \<times> rat) list" where
  "grouped_max rows = map (\<lambda>i. (i, Max (snd ` set (filter (\<lambda>r. fst r = i) rows)))) (remdups (map fst rows))"

definition recent_activity :: "context_config \<Rightarrow> int \<Rightarrow> rat \<Rightarrow> knowledge \<Rightarrow> (int \<times> rat \<times> int) list" where
  "recent_activity cf nid n kb =
     (let rows = filter (\<lambda>r. ac_novel_id r = nid \<and> ac_chapter r < n \<and> ac_chapter r \<ge> n - cf_recent_activity cf \<and>
            ac_version r = version_of cf) (kb_activity kb)
      in take 150 (sort_key (\<lambda>(i, l, a). (- l, - a, i)) (map (\<lambda>(i, l). (i, l,
           sum_list (map (\<lambda>r. ac_mentions r + ac_claims r + ac_events r) (filter (\<lambda>r. ac_entity_id r = i) rows))))
           (grouped_max (map (\<lambda>r. (ac_entity_id r, ac_chapter r)) rows)))))"

definition score_recent :: "rat \<Rightarrow> int \<times> rat \<times> int \<Rightarrow> candidate list \<Rightarrow> candidate list" where
  "score_recent n r = add_score (max 50 (350 - max 0 (n - fst (snd r)) * 20)) ''recent_activity'' (fst r)"

definition introduced_recently :: "context_config \<Rightarrow> int \<Rightarrow> rat \<Rightarrow> knowledge \<Rightarrow> entity_row list" where
  "introduced_recently cf nid n kb =
     take 100 (sort_key (\<lambda>e. (- en_first_seen e, en_id e)) (filter (\<lambda>e. en_novel_id e = nid \<and> en_first_seen e < n \<and>
       en_first_seen e \<ge> n - cf_recent_activity cf) (kb_entities kb)))"

definition update_before :: "context_config \<Rightarrow> int \<Rightarrow> rat \<Rightarrow> knowledge \<Rightarrow> int \<Rightarrow> thread_update_row option" where
  "update_before cf nid n kb t =
     sql_first (\<lambda>u. (- tu_chapter u, - tu_id u)) (filter (\<lambda>u. tu_novel_id u = nid \<and> tu_thread_id u = t \<and> tu_chapter u < n \<and>
       tu_version u = version_of cf) (kb_thread_updates kb))"

text \<open>The threads of the novel with their latest update before the chapter.\<close>

definition thread_rows :: "context_config \<Rightarrow> int \<Rightarrow> rat \<Rightarrow> knowledge \<Rightarrow> (thread_row \<times> thread_update_row) list" where
  "thread_rows cf nid n kb =
     sort_key (\<lambda>(t, u). (- tu_chapter u, th_id t)) (List.map_filter (\<lambda>t.
       if th_novel_id t = nid \<and> th_version t = version_of cf then map_option (Pair t) (update_before cf nid n kb (th_id t)) else None)
       (kb_threads kb))"

definition is_ended :: "thread_update_row \<Rightarrow> bool" where
  "is_ended u = (tu_operation u \<in> {''resolve'', ''mark_dormant''})"

definition score_thread :: "context_config \<Rightarrow> rat \<Rightarrow> string \<Rightarrow> thread_row \<times> thread_update_row \<Rightarrow> candidate list \<Rightarrow> candidate list" where
  "score_thread cf n txt1 tu cs =
     (let t = fst tu; u = snd tu;
          explicit = (visible_occurrence (th_title t) txt1 \<or> (\<exists>k \<in> set (tu_keywords u). visible_occurrence k txt1))
      in if \<not> explicit \<and> \<not> (n - tu_chapter u \<le> cf_recent_activity cf) then cs
         else fold (add_score (if explicit then 225 else 80) ''unresolved_thread'') (tu_participants u) cs)"

definition seeds :: "candidate list \<Rightarrow> int list" where
  "seeds cs = take 20 (map fst (sort_key (\<lambda>(i, x, _). (- x, i)) (filter (\<lambda>(i, x, _). x \<ge> 200) cs)))"

definition edges :: "int \<Rightarrow> rat \<Rightarrow> knowledge \<Rightarrow> int \<Rightarrow> (int \<times> rat) list" where
  "edges nid n kb s =
     take 5 (sort_key (\<lambda>(i, l). (- l, i)) (grouped_max (map (\<lambda>r. (if rl_source r = s then rl_target r else rl_source r, rl_chapter r))
       (filter (\<lambda>r. rl_novel_id r = nid \<and> rl_chapter r < n \<and> (rl_source r = s \<or> rl_target r = s)) (kb_relationships kb)))))"

definition connected_ids :: "int \<Rightarrow> rat \<Rightarrow> knowledge \<Rightarrow> int list \<Rightarrow> int list" where
  "connected_ids nid n kb ss =
     take 100 (map fst (sort_key (\<lambda>(i, l). (- l, i)) (grouped_max (concat (map (edges nid n kb) ss)))))"

definition fuzzy_spans :: "context_config \<Rightarrow> int \<Rightarrow> rat \<Rightarrow> knowledge \<Rightarrow> string list \<Rightarrow> (int \<times> rat) list" where
  "fuzzy_spans cf nid n kb spans =
     (let pairs = [(en_id e, cf_similarity cf (en_name e) s). e \<leftarrow> kb_entities kb, en_novel_id e = nid \<and> en_first_seen e < n, s \<leftarrow> spans] @
            [(al_entity_id a, cf_similarity cf (al_alias a) s). a \<leftarrow> kb_aliases kb, al_novel_id a = nid \<and> al_revealed a < n \<and>
              (\<exists>e \<in> set (kb_entities kb). en_id e = al_entity_id a \<and> en_first_seen e < n), s \<leftarrow> spans]
      in take 50 (sort_key (\<lambda>(i, x). (- x, i)) (grouped_max (filter (\<lambda>p. snd p > ks_fuzzy_match (cf_settings cf)) pairs))))"

definition semantic_scores :: "context_config \<Rightarrow> codex_db \<Rightarrow> int \<Rightarrow> rat \<Rightarrow> knowledge \<Rightarrow> (int \<times> rat) list" where
  "semantic_scores cf cdb nid n kb =
     take 20 (sort_key (\<lambda>(i, x). (- x, i)) (grouped_max [(en_id e, 1 - cf_distance cf v w).
       e \<leftarrow> kb_entities kb, en_novel_id e = nid \<and> en_first_seen e < n, v \<leftarrow> (case en_embedding e of None \<Rightarrow> [] | Some v \<Rightarrow> [v]),
       k \<leftarrow> cx_chunks cdb, ck_novel_id k = nid \<and> ck_chapter k = n, w \<leftarrow> (case ck_embedding k of None \<Rightarrow> [] | Some w \<Rightarrow> [w])]))"

definition candidate_scores :: "context_config \<Rightarrow> codex_db \<Rightarrow> int \<Rightarrow> rat \<Rightarrow> string \<Rightarrow> knowledge \<Rightarrow> candidate list" where
  "candidate_scores cf cdb nid n txt1 kb =
     (let c1 = fold (\<lambda>e. add_score 1000 ''exact_chapter_term'' (en_id e)) (mentioned nid n txt1 kb) [];
          recent = recent_activity cf nid n kb;
          c2 = fold (score_recent n) recent c1;
          c3 = (if recent = [] then fold (\<lambda>e. add_score 175 ''v1_recently_introduced_fallback'' (en_id e)) (introduced_recently cf nid n kb) c2 else c2);
          c4 = fold (score_thread cf n txt1) (take 50 (filter (\<lambda>tu. \<not> is_ended (snd tu)) (thread_rows cf nid n kb))) c3;
          c5 = fold (add_score 125 ''connected_to_candidate'') (connected_ids nid n kb (seeds c4)) c4;
          c6 = fold (\<lambda>(i, x). add_score (x * 100) ''trigram_chapter_span'' i) (fuzzy_spans cf nid n kb (extract_title_spans txt1)) c5
      in fold (\<lambda>(i, x). add_score (x * 50) ''chapter_vector'' i)
           (filter (\<lambda>p. snd p \<ge> cf_vector_min cf) (semantic_scores cf cdb nid n kb)) c6)"


section \<open>The roster\<close>

record roster_item =
  ri_ref :: string
  ri_name :: string
  ri_type :: string
  ri_aliases :: "string list"
  ri_first_seen :: rat
  ri_blurb :: string

definition roster_json :: "roster_item \<Rightarrow> json" where
  "roster_json r = JObj [(''entity_ref'', JStr (ri_ref r)), (''canonical_name'', JStr (ri_name r)), (''type'', JStr (ri_type r)),
     (''aliases'', JArr (map JStr (ri_aliases r))), (''first_seen_chapter'', JFloat (ri_first_seen r)), (''identity_blurb'', JStr (ri_blurb r))]"

definition count_json :: "context_config \<Rightarrow> json \<Rightarrow> nat" where
  "count_json cf v = cf_count cf (compact (cf_float cf) v)"

definition description_before :: "rat \<Rightarrow> knowledge \<Rightarrow> entity_row \<Rightarrow> string" where
  "description_before n kb e =
     (case sql_first (\<lambda>d. - de_chapter d) (filter (\<lambda>d. de_entity_id d = en_id e \<and> de_chapter d < n) (kb_descriptions kb)) of
        None \<Rightarrow> coalesce (en_description e) [] | Some d \<Rightarrow> de_text d)"

definition roster_item_of :: "rat \<Rightarrow> knowledge \<Rightarrow> nat \<Rightarrow> entity_row \<Rightarrow> roster_item" where
  "roster_item_of n kb k e =
     \<lparr>ri_ref = ''e'' @ show_nat (k + 1), ri_name = en_name e, ri_type = en_type e,
      ri_aliases = take 10 (filter (\<lambda>a. py_casefold a \<noteq> py_casefold (en_name e)) (aliases_before n kb (en_id e))),
      ri_first_seen = en_first_seen e, ri_blurb = take 300 (description_before n kb e)\<rparr>"

definition ranked_entities :: "int \<Rightarrow> rat \<Rightarrow> knowledge \<Rightarrow> candidate list \<Rightarrow> entity_row list" where
  "ranked_entities nid n kb cs =
     List.map_filter (\<lambda>i. find (\<lambda>e. en_id e = i \<and> en_novel_id e = nid \<and> en_first_seen e < n) (kb_entities kb))
       (map fst (sort_key (\<lambda>(i, x, _). (- x, i)) cs))"

definition reasons_of :: "candidate list \<Rightarrow> int \<Rightarrow> string list" where
  "reasons_of cs i = (case find (\<lambda>c. fst c = i) cs of None \<Rightarrow> [] | Some c \<Rightarrow> sort_key code_points (remdups (snd (snd c))))"

definition score_of :: "candidate list \<Rightarrow> int \<Rightarrow> rat" where
  "score_of cs i = (case find (\<lambda>c. fst c = i) cs of None \<Rightarrow> 0 | Some c \<Rightarrow> fst (snd c))"

definition is_explicit :: "candidate list \<Rightarrow> int \<Rightarrow> bool" where
  "is_explicit cs i = (''exact_chapter_term'' \<in> set (reasons_of cs i))"

record roster =
  ro_items :: "(roster_item \<times> int) list"
  ro_used :: nat
  ro_background :: nat
  ro_dropped :: "(int \<times> string) list"

definition drop_entity :: "int \<Rightarrow> string \<Rightarrow> roster \<Rightarrow> roster" where
  "drop_entity i why ro = ro\<lparr>ro_dropped := ro_dropped ro @ [(i, why)]\<rparr>"

definition select_entity :: "context_config \<Rightarrow> rat \<Rightarrow> knowledge \<Rightarrow> candidate list \<Rightarrow> entity_row \<Rightarrow> roster \<Rightarrow> roster result" where
  "select_entity cf n kb cs e ro =
     (let i = en_id e; explicit = is_explicit cs i; item = roster_item_of n kb (length (ro_items ro)) e;
          toks = count_json cf (roster_json item)
      in if \<not> explicit \<and> ro_background ro \<ge> cf_max_background cf then Inr (drop_entity i ''background_entity_cap'' ro)
         else if length (ro_items ro) \<ge> cf_max_entities cf then
           (if explicit then Inl (RuntimeError ''explicit chapter entities exceed CODEX_CONTEXT_MAX_ENTITIES; increase the hard cap instead of silently dropping visible names'')
            else Inr (drop_entity i ''entity_budget'' ro))
         else if ro_used ro + toks > cf_entity_tokens cf \<and> \<not> explicit then Inr (drop_entity i ''entity_token_budget'' ro)
         else Inr (ro\<lparr>ro_items := ro_items ro @ [(item, i)], ro_used := ro_used ro + toks,
                     ro_background := (if explicit then ro_background ro else ro_background ro + 1)\<rparr>))"

fun select_entities :: "context_config \<Rightarrow> rat \<Rightarrow> knowledge \<Rightarrow> candidate list \<Rightarrow> entity_row list \<Rightarrow> roster \<Rightarrow> roster result" where
  "select_entities cf n kb cs [] ro = Inr ro"
| "select_entities cf n kb cs (e # es) ro = bindE (select_entity cf n kb cs e ro) (select_entities cf n kb cs es)"

definition empty_roster :: roster where
  "empty_roster = \<lparr>ro_items = [], ro_used = 0, ro_background = 0, ro_dropped = []\<rparr>"

section \<open>States\<close>

text \<open>The state dictionary keeps the order in which its keys were last added.\<close>

fun apply_ordered :: "transition \<Rightarrow> entity_state \<times> string list \<Rightarrow> entity_state \<times> string list" where
  "apply_ordered t (st, ks) =
     (let st' = apply_transition t st; k = sr_key (fst t)
      in (st', if st' k = None then filter (\<lambda>j. j \<noteq> k) ks else if k \<in> set ks then ks else ks @ [k]))"

definition entry_json :: "state_entry \<Rightarrow> json" where
  "entry_json e = JObj [(''value'', se_value e), (''certainty'', JStr (se_certainty e)),
     (''perspective'', case se_perspective e of None \<Rightarrow> JNull | Some p \<Rightarrow> JStr p), (''chapter'', JFloat (se_chapter e)),
     (''transition_id'', JInt (se_transition_id e)), (''source_chunk_ids'', JArr (map JInt (se_chunks e)))]"

fun slot_json :: "slot \<Rightarrow> json" where
  "slot_json (Single e) = entry_json e"
| "slot_json (Multi es) = JArr (map entry_json es)"

definition state_json :: "context_config \<Rightarrow> int \<Rightarrow> int list \<Rightarrow> rat \<Rightarrow> knowledge \<Rightarrow> int \<Rightarrow> (string \<times> json) list" where
  "state_json cf nid ids c kb i =
     (case current_entity_state (cf_settings cf) nid ids c kb i of
        None \<Rightarrow> []
      | Some st \<Rightarrow> List.map_filter (\<lambda>k. map_option (\<lambda>sl. (k, slot_json sl)) (st k))
          (snd (fold apply_ordered (filter (\<lambda>t. sr_entity_id (fst t) = i) (transition_rows (cf_settings cf) nid ids c kb)) (Map.empty, []))))"

text \<open>Items are taken in order as long as they fit; one that does not is skipped.\<close>

fun take_fitting :: "('x \<Rightarrow> nat) \<Rightarrow> nat \<Rightarrow> nat \<Rightarrow> 'x list \<Rightarrow> 'x list \<times> nat" where
  "take_fitting w limit us [] = ([], us)"
| "take_fitting w limit us (x # xs) =
     (if us + w x > limit then take_fitting w limit us xs
      else case take_fitting w limit (us + w x) xs of (ys, u) \<Rightarrow> (x # ys, u))"

record state_item =
  si_ref :: string
  si_state :: json

definition state_item_json :: "state_item \<Rightarrow> json" where
  "state_item_json x = JObj [(''entity_ref'', JStr (si_ref x)), (''state'', si_state x)]"

definition state_items :: "context_config \<Rightarrow> int \<Rightarrow> rat \<Rightarrow> knowledge \<Rightarrow> (roster_item \<times> int) list \<Rightarrow> state_item list" where
  "state_items cf nid c kb picked =
     List.map_filter (\<lambda>(r, i). case state_json cf nid (map snd picked) c kb i of [] \<Rightarrow> None
       | kvs \<Rightarrow> Some \<lparr>si_ref = ri_ref r, si_state = without_provenance (JObj kvs)\<rparr>) picked"

record relation_item =
  rj_source :: string
  rj_target :: string
  rj_key :: string
  rj_value :: json
  rj_certainty :: string
  rj_chapter :: rat

definition relation_item_json :: "relation_item \<Rightarrow> json" where
  "relation_item_json x = JObj [(''source_ref'', JStr (rj_source x)), (''target_ref'', JStr (rj_target x)), (''state_key'', JStr (rj_key x)),
     (''value'', rj_value x), (''certainty'', JStr (rj_certainty x)), (''chapter'', JFloat (rj_chapter x))]"

definition ref_of :: "(roster_item \<times> int) list \<Rightarrow> int \<Rightarrow> string option" where
  "ref_of picked i = map_option (\<lambda>p. ri_ref (fst p)) (find (\<lambda>p. snd p = i) picked)"

definition relation_items :: "context_config \<Rightarrow> int \<Rightarrow> rat \<Rightarrow> knowledge \<Rightarrow> (roster_item \<times> int) list \<Rightarrow> relation_item list" where
  "relation_items cf nid c kb picked =
     map (\<lambda>v. let r = rv_row v in \<lparr>rj_source = coalesce (ref_of picked (rs_source r)) [], rj_target = coalesce (ref_of picked (rs_target r)) [],
         rj_key = rs_key r, rj_value = coalesce (rs_value r) JNull, rj_certainty = rs_certainty r, rj_chapter = rs_chapter r\<rparr>)
       (current_relationship_state (cf_settings cf) nid (map snd picked) c True kb)"

section \<open>Threads\<close>

record thread_item =
  ti_ref :: string
  ti_title :: string
  ti_status :: string
  ti_summary :: string
  ti_participants :: "string list"
  ti_keywords :: "string list"
  ti_chapter :: rat

definition thread_item_json :: "thread_item \<Rightarrow> json" where
  "thread_item_json x = JObj [(''thread_ref'', JStr (ti_ref x)), (''title'', JStr (ti_title x)), (''status'', JStr (ti_status x)),
     (''summary'', JStr (ti_summary x)), (''participants'', JArr (map JStr (ti_participants x))),
     (''keywords'', JArr (map JStr (ti_keywords x))), (''last_updated_chapter'', JFloat (ti_chapter x))]"

definition thread_score :: "rat \<Rightarrow> string \<Rightarrow> (roster_item \<times> int) list \<Rightarrow> thread_row \<times> thread_update_row \<Rightarrow> rat" where
  "thread_score n txt1 picked tu =
     (if visible_occurrence (th_title (fst tu)) txt1 then 300 else 0) +
     (if \<exists>k \<in> set (tu_keywords (snd tu)). visible_occurrence k txt1 then 200 else 0) +
     (if set (tu_participants (snd tu)) \<inter> set (map snd picked) \<noteq> {} then 150 else 0) + max 0 (100 - (n - tu_chapter (snd tu)) * 5)"

definition ranked_threads ::
  "context_config \<Rightarrow> int \<Rightarrow> rat \<Rightarrow> string \<Rightarrow> knowledge \<Rightarrow> (roster_item \<times> int) list \<Rightarrow> (thread_row \<times> thread_update_row) list" where
  "ranked_threads cf nid n txt1 kb picked =
     sort_key (\<lambda>tu. (- thread_score n txt1 picked tu, th_id (fst tu)))
       (filter (\<lambda>tu. \<not> is_ended (snd tu) \<and> thread_score n txt1 picked tu > 0)
         (take 100 (filter (\<lambda>tu. th_introduced (fst tu) < n) (thread_rows cf nid n kb))))"

definition thread_item_of :: "context_config \<Rightarrow> rat \<Rightarrow> (roster_item \<times> int) list \<Rightarrow> nat \<Rightarrow> thread_row \<times> thread_update_row \<Rightarrow> thread_item" where
  "thread_item_of cf n picked k tu =
     (let t = fst tu; u = snd tu in
      \<lparr>ti_ref = ''t'' @ show_nat (k + 1), ti_title = th_title t,
       ti_status = (if n - tu_chapter u > cf_dormant cf then ''mark_dormant'' else tu_operation u), ti_summary = tu_summary u,
       ti_participants = List.map_filter (ref_of picked) (sort (remdups (tu_participants u))), ti_keywords = take 12 (tu_keywords u),
       ti_chapter = tu_chapter u\<rparr>)"

text \<open>The loop stops at the first thread that does not fit.\<close>

fun take_until_full :: "('x \<Rightarrow> nat) \<Rightarrow> nat \<Rightarrow> nat \<Rightarrow> 'x list \<Rightarrow> 'x list" where
  "take_until_full w limit us [] = []"
| "take_until_full w limit us (x # xs) = (if us + w x > limit then [] else x # take_until_full w limit (us + w x) xs)"

definition thread_context ::
  "context_config \<Rightarrow> int \<Rightarrow> rat \<Rightarrow> string \<Rightarrow> knowledge \<Rightarrow> (roster_item \<times> int) list \<Rightarrow> (thread_item \<times> int) list" where
  "thread_context cf nid n txt1 kb picked =
     (let ranked = take (ks_max_threads (cf_settings cf)) (ranked_threads cf nid n txt1 kb picked) in
      take_until_full (\<lambda>x. count_json cf (thread_item_json (fst x))) (cf_thread_tokens cf) 0
        (map (\<lambda>(k, tu). (thread_item_of cf n picked k tu, th_id (fst tu))) (enumerate 0 ranked)))"


section \<open>Summaries and reducers\<close>

record summary_item =
  sm_chapter :: rat
  sm_text :: string

definition summary_item_json :: "summary_item \<Rightarrow> json" where
  "summary_item_json x = JObj [(''chapter'', JFloat (sm_chapter x)), (''summary'', JStr (sm_text x))]"

record child_item =
  ch_chapter :: rat
  ch_text :: string
  ch_evidence :: "int list"
  ch_source :: string

definition child_item_json :: "child_item \<Rightarrow> json" where
  "child_item_json x = JObj [(''chapter'', JFloat (ch_chapter x)), (''summary'', JStr (ch_text x)),
     (''evidence_chunk_ids'', JArr (map JInt (ch_evidence x))), (''source_sha256'', JStr (ch_source x))]"

definition recent_summaries :: "context_config \<Rightarrow> int \<Rightarrow> rat \<Rightarrow> extraction_db \<Rightarrow> summary_item list" where
  "recent_summaries cf nid n db =
     rev (map (\<lambda>s. \<lparr>sm_chapter = cu_chapter s, sm_text = cu_text s\<rparr>) (take (cf_recent_summaries cf) (sort_key (\<lambda>s. - cu_chapter s)
       (filter (\<lambda>s. cu_novel_id s = nid \<and> cu_chapter s < n \<and> cu_version s = version_of cf) (xd_summaries db)))))"

definition block_children :: "context_config \<Rightarrow> int \<Rightarrow> rat list \<Rightarrow> extraction_db \<Rightarrow> child_item list" where
  "block_children cf nid block db =
     map (\<lambda>s. \<lparr>ch_chapter = cu_chapter s, ch_text = cu_text s, ch_evidence = cu_chunks s, ch_source = cu_source s\<rparr>)
       (sort_key cu_chapter (filter (\<lambda>s. cu_novel_id s = nid \<and> cu_chapter s \<in> set block \<and> cu_version s = version_of cf) (xd_summaries db)))"

definition checkpoint_exists :: "context_config \<Rightarrow> int \<Rightarrow> rat \<Rightarrow> rat \<Rightarrow> string option \<Rightarrow> extraction_db \<Rightarrow> bool" where
  "checkpoint_exists cf nid lo hi part db \<longleftrightarrow>
     (\<exists>g \<in> set (xd_segments db). mg_novel_id g = nid \<and> mg_kind g = ''checkpoint'' \<and> mg_start g = lo \<and> mg_end g = hi \<and>
        mg_through g = mg_end g \<and> mg_part_label g = part \<and> mg_version g = version_of cf)"

text \<open>The hierarchical memory has been built up to the chapter's block.\<close>

definition check_prerequisites :: "context_config \<Rightarrow> int \<Rightarrow> memory_shape \<Rightarrow> extraction_db \<Rightarrow> unit result" where
  "check_prerequisites cf nid shape db =
     (case shape of
        NotNarrative _ \<Rightarrow> Inr ()
      | Narrative kind part targets block numbers start \<Rightarrow>
          if \<not> set block \<subseteq> ch_chapter ` set (block_children cf nid block db)
          then Inl (RuntimeError ''hierarchical memory prerequisites are missing; build v2 chronologically'')
          else if start > 0 \<and> \<not> checkpoint_exists cf nid (numbers ! (start - checkpoint_width (cf_settings cf))) (numbers ! (start - 1)) part db
          then Inl (RuntimeError ''completed checkpoint is missing; build v2 chronologically'')
          else Inr ())"

record volume_child =
  vc_start :: rat
  vc_end :: rat
  vc_through :: rat
  vc_text :: string
  vc_hash :: string

definition volume_child_json :: "volume_child \<Rightarrow> json" where
  "volume_child_json x = JObj [(''start_chapter'', JFloat (vc_start x)), (''end_chapter'', JFloat (vc_end x)),
     (''through_chapter'', JFloat (vc_through x)), (''summary'', JStr (vc_text x)), (''source_hash'', JStr (vc_hash x))]"

text \<open>\<open>created_at DESC\<close>: the segments are stored in the order of their creation.\<close>

definition volume_rows :: "context_config \<Rightarrow> int \<Rightarrow> rat \<Rightarrow> string option \<Rightarrow> extraction_db \<Rightarrow> volume_child list" where
  "volume_rows cf nid n part db =
     map (\<lambda>g. \<lparr>vc_start = mg_start g, vc_end = mg_end g, vc_through = mg_through g, vc_text = mg_text g, vc_hash = mg_hash g\<rparr>)
       (distinct_on (\<lambda>g. (mg_start g, mg_end g)) (sort_key (\<lambda>g. (mg_start g, mg_end g, - mg_through g))
         (rev (filter (\<lambda>g. mg_novel_id g = nid \<and> mg_kind g = ''checkpoint'' \<and> mg_part_label g = part \<and> mg_through g = mg_end g \<and>
           mg_through g < n \<and> mg_version g = version_of cf) (xd_segments db)))))"

definition volume_children :: "context_config \<Rightarrow> int \<Rightarrow> rat \<Rightarrow> memory_shape \<Rightarrow> extraction_db \<Rightarrow> volume_child list result" where
  "volume_children cf nid n shape db =
     (case shape of
        NotNarrative _ \<Rightarrow> Inr []
      | Narrative kind part targets block numbers start \<Rightarrow>
          if \<not> (\<exists>t \<in> set targets. mt_kind t = ''volume'') then Inr []
          else let rows = volume_rows cf nid n part db in
            if set block \<union> {n} \<union> {x \<in> set numbers. \<exists>r \<in> set rows. vc_start r \<le> x \<and> x \<le> vc_through r} \<noteq> set numbers
            then Inl (RuntimeError ''volume reducer lacks completed checkpoint coverage; build v2 chronologically'')
            else Inr rows)"

definition segment_item_json :: "segment_row \<Rightarrow> json" where
  "segment_item_json g = JObj [(''kind'', JStr (mg_kind g)), (''start_chapter'', JFloat (mg_start g)), (''end_chapter'', JFloat (mg_end g)),
     (''through_chapter'', JFloat (mg_through g)), (''part_label'', case mg_part_label g of None \<Rightarrow> JNull | Some p \<Rightarrow> JStr p),
     (''summary'', JStr (mg_text g))]"

definition latest_segment :: "(segment_row \<Rightarrow> bool) \<Rightarrow> extraction_db \<Rightarrow> segment_row list" where
  "latest_segment p db = take 1 (sort_key (\<lambda>g. - mg_through g) (rev (filter p (xd_segments db))))"

definition completed_memory :: "context_config \<Rightarrow> int \<Rightarrow> rat \<Rightarrow> extraction_db \<Rightarrow> segment_row list" where
  "completed_memory cf nid n db =
     rev (sort_key mg_through
       (latest_segment (\<lambda>g. mg_novel_id g = nid \<and> mg_kind g = ''checkpoint'' \<and> mg_through g = mg_end g \<and> mg_through g < n \<and>
          mg_version g = version_of cf) db @
        latest_segment (\<lambda>g. mg_novel_id g = nid \<and> mg_kind g = ''volume'' \<and> mg_end g < n \<and> mg_version g = version_of cf) db))"

section \<open>The context\<close>

record chapter_context =
  cx_version :: string
  cx_ceiling :: rat
  cx_entities :: "(roster_item \<times> int) list"
  cx_state :: "state_item list"
  cx_relations :: "relation_item list"
  cx_recent :: "summary_item list"
  cx_completed :: "segment_row list"
  cx_children :: "child_item list"
  cx_volume :: "volume_child list"
  cx_threads :: "(thread_item \<times> int) list"
  cx_targets :: "memory_target list"
  cx_kind :: "string option"
  cx_part :: "string option"

definition opt_json :: "string option \<Rightarrow> json" where
  "opt_json s = (case s of None \<Rightarrow> JNull | Some t \<Rightarrow> JStr t)"

definition target_json :: "memory_target \<Rightarrow> json" where
  "target_json t = JObj [(''kind'', JStr (mt_kind t)), (''start_chapter'', JFloat (mt_start t)), (''end_chapter'', JFloat (mt_end t)),
     (''through_chapter'', JFloat (mt_through t)), (''part_label'', opt_json (mt_part_label t)),
     (''covered_chapters'', JArr (map JFloat (mt_covered t)))]"

definition context_json :: "chapter_context \<Rightarrow> json" where
  "context_json x = JObj [(''pipeline_version'', JStr (cx_version x)), (''ceiling'', JFloat (cx_ceiling x)),
     (''entities'', JArr (map (\<lambda>p. roster_json (fst p)) (cx_entities x))),
     (''current_state'', JArr (map state_item_json (cx_state x))),
     (''current_relationship_state'', JArr (map relation_item_json (cx_relations x))),
     (''recent_chapter_summaries'', JArr (map summary_item_json (cx_recent x))),
     (''completed_memory'', JArr (map segment_item_json (cx_completed x))),
     (''current_checkpoint_children'', JArr (map child_item_json (cx_children x))),
     (''completed_volume_checkpoint_children'', JArr (map volume_child_json (cx_volume x))),
     (''open_threads'', JArr (map (\<lambda>p. thread_item_json (fst p)) (cx_threads x))),
     (''memory_targets'', JArr (map target_json (cx_targets x))),
     (''source_kind'', opt_json (cx_kind x)), (''part_label'', opt_json (cx_part x))]"

definition serialized :: "context_config \<Rightarrow> chapter_context \<Rightarrow> string" where
  "serialized cf x = compact (cf_float cf) (context_json x)"

definition estimate :: "context_config \<Rightarrow> nat \<Rightarrow> chapter_context \<Rightarrow> nat" where
  "estimate cf toks x = cf_count cf (serialized cf x) + toks + 3000"

definition over_budget :: "context_config \<Rightarrow> nat \<Rightarrow> chapter_context \<Rightarrow> bool" where
  "over_budget cf toks x = (estimate cf toks x > cf_max_tokens cf)"

text \<open>The loops that give up items until the context fits: from the front, or from the end.\<close>

fun shrink_front :: "('x list \<Rightarrow> bool) \<Rightarrow> 'x list \<Rightarrow> 'x list" where
  "shrink_front over [] = []"
| "shrink_front over (x # xs) = (if over (x # xs) then shrink_front over xs else x # xs)"

definition shrink_end :: "('x list \<Rightarrow> bool) \<Rightarrow> 'x list \<Rightarrow> 'x list" where
  "shrink_end over xs = rev (shrink_front (\<lambda>ys. over (rev ys)) (rev xs))"

definition remove_entity :: "(roster_item \<times> int) list \<Rightarrow> string \<Rightarrow> chapter_context \<Rightarrow> chapter_context" where
  "remove_entity kept ref x = x\<lparr>cx_entities := kept,
     cx_state := filter (\<lambda>s. si_ref s \<noteq> ref) (cx_state x),
     cx_relations := filter (\<lambda>r. ref \<noteq> rj_source r \<and> ref \<noteq> rj_target r) (cx_relations x),
     cx_threads := map (\<lambda>(t, i). (t\<lparr>ti_participants := filter (\<lambda>p. p \<noteq> ref) (ti_participants t)\<rparr>, i)) (cx_threads x)\<rparr>"

text \<open>The entities in reverse; an entity the chapter names must not be given up.\<close>

fun shrink_entities ::
  "(chapter_context \<Rightarrow> bool) \<Rightarrow> candidate list \<Rightarrow> (roster_item \<times> int) list \<Rightarrow> (int \<times> string) list \<Rightarrow> chapter_context \<Rightarrow>
   (chapter_context \<times> (int \<times> string) list) result" where
  "shrink_entities over cs [] dropped x = Inr (x, dropped)"
| "shrink_entities over cs (p # ps) dropped x =
     (if \<not> over x then Inr (x, dropped)
      else if is_explicit cs (snd p)
      then Inl (RuntimeError ''explicit chapter entity roster exceeds the hard total context budget'')
      else shrink_entities over cs ps (dropped @ [(snd p, ''total_context_budget'')]) (remove_entity (rev ps) (ri_ref (fst p)) x))"

definition reduce_context ::
  "context_config \<Rightarrow> nat \<Rightarrow> candidate list \<Rightarrow> (int \<times> string) list \<Rightarrow> chapter_context \<Rightarrow> (chapter_context \<times> (int \<times> string) list) result" where
  "reduce_context cf toks cs dropped x =
     (if \<not> over_budget cf toks x then Inr (x, dropped)
      else
        let over = over_budget cf toks;
            x1 = x\<lparr>cx_completed := shrink_front (\<lambda>v. over (x\<lparr>cx_completed := v\<rparr>)) (cx_completed x)\<rparr>;
            x2 = x1\<lparr>cx_threads := shrink_end (\<lambda>v. over (x1\<lparr>cx_threads := v\<rparr>)) (cx_threads x1)\<rparr>;
            x3 = x2\<lparr>cx_relations := shrink_end (\<lambda>v. over (x2\<lparr>cx_relations := v\<rparr>)) (cx_relations x2)\<rparr>;
            x4 = x3\<lparr>cx_state := shrink_end (\<lambda>v. over (x3\<lparr>cx_state := v\<rparr>)) (cx_state x3)\<rparr>
        in bindE (shrink_entities over cs (rev (cx_entities x4)) dropped x4) (\<lambda>(x5, dropped5).
          let x6 = (if \<exists>t \<in> set (cx_targets x5). mt_kind t = ''checkpoint'' then x5
                    else x5\<lparr>cx_children := shrink_front (\<lambda>v. over (x5\<lparr>cx_children := v\<rparr>)) (cx_children x5)\<rparr>)
          in if over x6 then Inl (RuntimeError ''chapter plus grounded reducer inputs exceed hard budget'') else Inr (x6, dropped5)))"

text \<open>What is returned: the context with its digest, the selection and the tables the commit checks a proposal against.\<close>

record built_context =
  bc_context :: chapter_context
  bc_sha :: string
  bc_count :: nat
  bc_estimate :: nat
  bc_selected :: "(int \<times> rat \<times> string list) list"
  bc_dropped :: "(int \<times> string) list"
  bc_roster :: "(string \<times> int) list"
  bc_terms :: "(string \<times> string list) list"
  bc_types :: "(string \<times> string) list"
  bc_threads :: "(string \<times> int) list"
  bc_thread_terms :: "(string \<times> thread_item) list"

definition shape_info :: "memory_shape \<Rightarrow> string option \<times> string option" where
  "shape_info shape = (case shape of NotNarrative None \<Rightarrow> (None, None) | NotNarrative (Some (k, p)) \<Rightarrow> (Some k, p)
     | Narrative k p _ _ _ _ \<Rightarrow> (Some k, p))"

definition shape_goals :: "memory_shape \<Rightarrow> memory_target list" where
  "shape_goals shape = (case shape of NotNarrative _ \<Rightarrow> [] | Narrative _ _ ts _ _ _ \<Rightarrow> ts)"

definition shape_open :: "memory_shape \<Rightarrow> rat list" where
  "shape_open shape = (case shape of NotNarrative _ \<Rightarrow> [] | Narrative _ _ _ block _ _ \<Rightarrow> block)"

definition initial_context ::
  "context_config \<Rightarrow> int \<Rightarrow> rat \<Rightarrow> string \<Rightarrow> memory_shape \<Rightarrow> volume_child list \<Rightarrow> (roster_item \<times> int) list \<Rightarrow> extraction_db \<Rightarrow> chapter_context" where
  "initial_context cf nid n txt1 shape volume picked db =
     (let kb = xd_kb db; c = n - 1 / 1000000; children = block_children cf nid (shape_open shape) db;
          sus = take_fitting (\<lambda>s. count_json cf (state_item_json s)) (cf_state_tokens cf) 0 (state_items cf nid c kb picked);
          rus = take_fitting (\<lambda>s. count_json cf (relation_item_json s)) (cf_state_tokens cf) (snd sus) (relation_items cf nid c kb picked)
      in \<lparr>cx_version = version_of cf, cx_ceiling = c, cx_entities = picked, cx_state = fst sus, cx_relations = fst rus,
          cx_recent = filter (\<lambda>s. sm_chapter s \<notin> ch_chapter ` set children) (recent_summaries cf nid n db),
          cx_completed = completed_memory cf nid n db, cx_children = children, cx_volume = volume,
          cx_threads = thread_context cf nid n txt1 kb picked, cx_targets = shape_goals shape,
          cx_kind = fst (shape_info shape), cx_part = snd (shape_info shape)\<rparr>)"

definition finish_context :: "context_config \<Rightarrow> nat \<Rightarrow> candidate list \<Rightarrow> (thread_item \<times> int) list \<Rightarrow> chapter_context \<Rightarrow> (int \<times> string) list \<Rightarrow> built_context" where
  "finish_context cf toks cs threads x dropped =
     \<lparr>bc_context = x, bc_sha = cf_hash cf (serialized cf x), bc_count = cf_count cf (serialized cf x), bc_estimate = estimate cf toks x,
      bc_selected = map (\<lambda>p. (snd p, score_of cs (snd p), reasons_of cs (snd p))) (cx_entities x), bc_dropped = dropped,
      bc_roster = map (\<lambda>p. (ri_ref (fst p), snd p)) (cx_entities x),
      bc_terms = map (\<lambda>p. (ri_ref (fst p), ri_name (fst p) # ri_aliases (fst p))) (cx_entities x),
      bc_types = map (\<lambda>p. (ri_ref (fst p), ri_type (fst p))) (cx_entities x),
      bc_threads = map (\<lambda>p. (ti_ref (fst p), snd p)) (cx_threads x),
      bc_thread_terms = map (\<lambda>p. (ti_ref (fst p), fst p)) (take (length (cx_threads x)) threads)\<rparr>"

definition build_chapter_context ::
  "context_config \<Rightarrow> codex_db \<Rightarrow> int \<Rightarrow> rat \<Rightarrow> string \<Rightarrow> chapter_meta option \<Rightarrow> string option \<Rightarrow> extraction_db \<Rightarrow> built_context result" where
  "build_chapter_context cf cdb nid n txt1 meta input db =
     (let shape = chapter_memory_shape (cf_settings cf) n meta; kb = xd_kb db; cs = candidate_scores cf cdb nid n txt1 kb;
          toks = cf_count cf (coalesce input txt1)
      in bindE (select_entities cf n kb cs (ranked_entities nid n kb cs) empty_roster) (\<lambda>ro.
         bindE (check_prerequisites cf nid shape db) (\<lambda>_. bindE (volume_children cf nid n shape db) (\<lambda>volume.
         let x = initial_context cf nid n txt1 shape volume (ro_items ro) db in
         bindE (reduce_context cf toks cs (ro_dropped ro) x) (\<lambda>(y, dropped).
           Inr (finish_context cf toks cs (cx_threads x) y dropped))))))"

section \<open>An example\<close>

definition demo_context_config :: context_config where
  "demo_context_config = \<lparr>cf_settings = demo_ks, cf_count = length, cf_float = (\<lambda>_. ''1.0''), cf_similarity = (\<lambda>_ _. 0),
     cf_distance = (\<lambda>_ _. 1), cf_hash = (\<lambda>s. s), cf_max_tokens = 3600, cf_max_entities = 120, cf_max_background = 20,
     cf_entity_tokens = 8000, cf_state_tokens = 2000, cf_thread_tokens = 1000, cf_recent_activity = 15, cf_recent_summaries = 3,
     cf_dormant = 50, cf_vector_min = 45/100\<rparr>"

end
