(* ===== verification/Codex_Context_Fit.thy ===== *)
theory Codex_Context_Fit
  imports Codex_Context
begin

text \<open>
  What a returned context satisfies: the token budget, the caps on the roster and on the states, the numbering of its references,
  and that no entity the chapter names has been dropped from it.
\<close>

section \<open>A context that is returned fits\<close>

lemma shrink_front_drop: "\<exists>k. shrink_front over xs = drop k xs"
proof (induction xs)
  case (Cons x xs)
  then obtain k where "shrink_front over xs = drop k xs" by blast
  then have "shrink_front over (x # xs) = drop (if over (x # xs) then Suc k else 0) (x # xs)" by simp
  then show ?case by blast
qed simp

lemma shrink_end_take: "\<exists>k. shrink_end over xs = take k xs"
proof -
  obtain k where "shrink_front (\<lambda>ys. over (rev ys)) (rev xs) = drop k (rev xs)" using shrink_front_drop by blast
  then have "shrink_end over xs = take (length xs - k) xs" by (simp add: shrink_end_def rev_drop)
  then show ?thesis by blast
qed

lemma sum_take_le: "sum_list (map f (take k xs)) \<le> sum_list (map f xs)" for f :: "'x \<Rightarrow> nat"
  by (metis append_take_drop_id le_add1 map_append sum_list_append)

lemma sum_filter_le: "sum_list (map f (filter p xs)) \<le> sum_list (map f xs)" for f :: "'x \<Rightarrow> nat"
  by (induction xs) auto

lemma sum_shrink_end: "sum_list (map f (shrink_end over xs)) \<le> sum_list (map f xs)" for f :: "'x \<Rightarrow> nat"
  using shrink_end_take [of over xs] sum_take_le by metis

lemma take_fitting_sum:
  "take_fitting w limit us xs = (ys, u) \<Longrightarrow> us \<le> limit \<Longrightarrow> u = us + sum_list (map w ys) \<and> u \<le> limit"
proof (induction w limit us xs arbitrary: ys u rule: take_fitting.induct)
  case (2 w limit us x xs)
  show ?case
  proof (cases "us + w x > limit")
    case True
    then show ?thesis using "2.IH"(1) "2.prems" by simp
  next
    case False
    obtain zs v where r: "take_fitting w limit (us + w x) xs = (zs, v)" by (cases "take_fitting w limit (us + w x) xs")
    then have "v = us + w x + sum_list (map w zs) \<and> v \<le> limit" using "2.IH"(2) [OF False r] False by simp
    then show ?thesis using "2.prems"(1) False r by auto
  qed
qed simp

definition weight_of_states :: "context_config \<Rightarrow> chapter_context \<Rightarrow> nat" where
  "weight_of_states cf x = sum_list (map (\<lambda>s. count_json cf (state_item_json s)) (cx_state x)) +
     sum_list (map (\<lambda>r. count_json cf (relation_item_json r)) (cx_relations x))"

lemma initial_states_fit:
  "weight_of_states cf (initial_context cf nid n txt1 shape volume picked db) \<le> cf_state_tokens cf"
proof -
  obtain ys u where s: "take_fitting (\<lambda>s. count_json cf (state_item_json s)) (cf_state_tokens cf) 0
      (state_items cf nid (n - 1 / 1000000) (xd_kb db) picked) = (ys, u)" by (meson surj_pair)
  obtain zs v where r: "take_fitting (\<lambda>s. count_json cf (relation_item_json s)) (cf_state_tokens cf) u
      (relation_items cf nid (n - 1 / 1000000) (xd_kb db) picked) = (zs, v)" by (meson surj_pair)
  have u: "u = sum_list (map (\<lambda>s. count_json cf (state_item_json s)) ys)" "u \<le> cf_state_tokens cf"
    using take_fitting_sum [OF s] by simp_all
  have v: "v = u + sum_list (map (\<lambda>s. count_json cf (relation_item_json s)) zs)" "v \<le> cf_state_tokens cf"
    using take_fitting_sum [OF r u(2)] by simp_all
  have "weight_of_states cf (initial_context cf nid n txt1 shape volume picked db) =
      sum_list (map (\<lambda>s. count_json cf (state_item_json s)) ys) + sum_list (map (\<lambda>s. count_json cf (relation_item_json s)) zs)"
    by (simp add: weight_of_states_def initial_context_def Let_def s r)
  then show ?thesis using u v by simp
qed

text \<open>Giving up entities from the end: those that are kept are a prefix, and none that the chapter names is given up.\<close>

lemma shrink_entities_keeps:
  assumes "shrink_entities over cs ps dropped x = Inr (y, dropped')" "cx_entities x = rev ps"
  shows "(\<exists>k. cx_entities y = take k (cx_entities x)) \<and> (\<forall>p \<in> set (cx_entities x). is_explicit cs (snd p) \<longrightarrow> p \<in> set (cx_entities y)) \<and>
    weight_of_states cf y \<le> weight_of_states cf x \<and> cx_targets y = cx_targets x \<and>
    (\<forall>d \<in> set dropped'. d \<in> set dropped \<or> \<not> is_explicit cs (fst d))"
  using assms
proof (induction ps arbitrary: dropped x)
  case Nil
  then show ?case by auto
next
  case (Cons p ps)
  show ?case
  proof (cases "over x")
    case False
    then have "y = x" "dropped' = dropped" using Cons.prems(1) by simp_all
    then show ?thesis by (auto intro: exI [of _ "length (cx_entities x)"])
  next
    case True
    let ?x = "remove_entity (rev ps) (ri_ref (fst p)) x"
    have ne: "\<not> is_explicit cs (snd p)" and run: "shrink_entities over cs ps (dropped @ [(snd p, ''total_context_budget'')]) ?x = Inr (y, dropped')"
      using Cons.prems(1) True by (auto split: if_splits)
    have e: "cx_entities ?x = rev ps" by (simp add: remove_entity_def)
    have w: "weight_of_states cf ?x \<le> weight_of_states cf x"
      unfolding weight_of_states_def by (auto simp: remove_entity_def intro!: add_mono sum_filter_le)
    note ih = Cons.IH [OF run e]
    obtain k where k: "cx_entities y = take k (rev ps)" using ih e by auto
    then have "cx_entities y = take (min k (length ps)) (cx_entities x)" by (simp add: Cons.prems(2) min_def)
    moreover have "\<forall>q \<in> set (cx_entities x). is_explicit cs (snd q) \<longrightarrow> q \<in> set (cx_entities y)"
      using ih e ne Cons.prems(2) by auto
    moreover have "\<forall>d \<in> set dropped'. d \<in> set dropped \<or> \<not> is_explicit cs (fst d)" using ih ne by auto
    ultimately show ?thesis using ih w by (auto simp: remove_entity_def)
  qed
qed

lemma reduce_context_keeps:
  assumes "reduce_context cf toks cs dropped x = Inr (y, dropped')"
  shows "\<not> over_budget cf toks y \<and> (\<exists>k. cx_entities y = take k (cx_entities x)) \<and>
    (\<forall>p \<in> set (cx_entities x). is_explicit cs (snd p) \<longrightarrow> p \<in> set (cx_entities y)) \<and> weight_of_states cf y \<le> weight_of_states cf x \<and>
    (\<forall>d \<in> set dropped'. d \<in> set dropped \<or> \<not> is_explicit cs (fst d))"
proof (cases "over_budget cf toks x")
  case False
  then have "y = x" "dropped' = dropped" using assms by (simp_all add: reduce_context_def)
  then show ?thesis using False by (auto intro: exI [of _ "length (cx_entities x)"])
next
  case True
  let ?over = "over_budget cf toks"
  define x1 where "x1 = x\<lparr>cx_completed := shrink_front (\<lambda>v. ?over (x\<lparr>cx_completed := v\<rparr>)) (cx_completed x)\<rparr>"
  define x2 where "x2 = x1\<lparr>cx_threads := shrink_end (\<lambda>v. ?over (x1\<lparr>cx_threads := v\<rparr>)) (cx_threads x1)\<rparr>"
  define x3 where "x3 = x2\<lparr>cx_relations := shrink_end (\<lambda>v. ?over (x2\<lparr>cx_relations := v\<rparr>)) (cx_relations x2)\<rparr>"
  define x4 where "x4 = x3\<lparr>cx_state := shrink_end (\<lambda>v. ?over (x3\<lparr>cx_state := v\<rparr>)) (cx_state x3)\<rparr>"
  have "bindE (shrink_entities ?over cs (rev (cx_entities x4)) dropped x4) (\<lambda>(x5, dropped5).
      let x6 = (if \<exists>t \<in> set (cx_targets x5). mt_kind t = ''checkpoint'' then x5
                else x5\<lparr>cx_children := shrink_front (\<lambda>v. ?over (x5\<lparr>cx_children := v\<rparr>)) (cx_children x5)\<rparr>)
      in if ?over x6 then Inl (RuntimeError ''chapter plus grounded reducer inputs exceed hard budget'') else Inr (x6, dropped5)) = Inr (y, dropped')"
    using assms True unfolding reduce_context_def Let_def x4_def x3_def x2_def x1_def by simp
  then obtain x5 where s: "shrink_entities ?over cs (rev (cx_entities x4)) dropped x4 = Inr (x5, dropped')"
    and y: "\<not> ?over y" "cx_entities y = cx_entities x5" "weight_of_states cf y = weight_of_states cf x5"
    by (auto simp: bindE_Inr_iff Let_def weight_of_states_def split: if_splits)
  have e4: "cx_entities x4 = cx_entities x" by (simp add: x4_def x3_def x2_def x1_def)
  have w4: "weight_of_states cf x4 \<le> weight_of_states cf x"
    unfolding weight_of_states_def x4_def x3_def x2_def x1_def by (auto intro!: add_mono sum_shrink_end)
  have "cx_entities x4 = rev (rev (cx_entities x4))" by simp
  from shrink_entities_keeps [OF s this, of cf] show ?thesis using y e4 w4 by auto
qed

text \<open>Selecting the roster.\<close>

definition roster_ok :: "context_config \<Rightarrow> candidate list \<Rightarrow> roster \<Rightarrow> bool" where
  "roster_ok cf cs ro \<longleftrightarrow> length (ro_items ro) \<le> cf_max_entities cf \<and> ro_background ro \<le> cf_max_background cf \<and>
     length (filter (\<lambda>p. \<not> is_explicit cs (snd p)) (ro_items ro)) = ro_background ro \<and>
     map (ri_ref \<circ> fst) (ro_items ro) = map (\<lambda>k. ''e'' @ show_nat (k + 1)) [0..<length (ro_items ro)] \<and>
     (\<forall>d \<in> set (ro_dropped ro). \<not> is_explicit cs (fst d))"

lemma select_entity_ok:
  assumes "select_entity cf n kb cs e ro = Inr ro'" "roster_ok cf cs ro"
  shows "roster_ok cf cs ro' \<and> set (ro_items ro) \<subseteq> set (ro_items ro') \<and> (is_explicit cs (en_id e) \<longrightarrow> en_id e \<in> snd ` set (ro_items ro'))"
  using assms by (auto simp: select_entity_def roster_ok_def drop_entity_def roster_item_of_def Let_def split: if_splits)

lemma select_entities_ok:
  assumes "select_entities cf n kb cs es ro = Inr ro'" "roster_ok cf cs ro"
  shows "roster_ok cf cs ro' \<and> set (ro_items ro) \<subseteq> set (ro_items ro') \<and>
    (\<forall>e \<in> set es. is_explicit cs (en_id e) \<longrightarrow> en_id e \<in> snd ` set (ro_items ro'))"
  using assms
proof (induction es arbitrary: ro)
  case (Cons e es)
  obtain ro1 where s: "select_entity cf n kb cs e ro = Inr ro1" "select_entities cf n kb cs es ro1 = Inr ro'"
    using Cons.prems(1) by (auto simp: bindE_Inr_iff)
  note a = select_entity_ok [OF s(1) Cons.prems(2)]
  note b = Cons.IH [OF s(2)]
  show ?case using a b by (auto simp: image_iff)
qed simp


text \<open>Which candidates count as named by the chapter.\<close>

lemma find_scored:
  "find (\<lambda>c. fst c = i) (map (\<lambda>(k, y, rs). if k = j then (k, y + x, rs @ [w]) else (k, y, rs)) cs) =
   map_option (\<lambda>(k, y, rs). if k = j then (k, y + x, rs @ [w]) else (k, y, rs)) (find (\<lambda>c. fst c = i) cs)"
  by (induction cs) auto

lemma keys_add: "fst ` set (add_score x w j cs) = insert j (fst ` set cs)"
proof -
  have "map fst (map (\<lambda>(k, y, rs). if k = j then (k, y + x, rs @ [w]) else (k, y, rs)) cs) = map fst cs"
    by (induction cs) auto
  then have "fst ` set (map (\<lambda>(k, y, rs). if k = j then (k, y + x, rs @ [w]) else (k, y, rs)) cs) = fst ` set cs"
    by (metis set_map)
  then show ?thesis by (auto simp: add_score_def)
qed

lemma reasons_add: "why \<in> set (reasons_of cs i) \<Longrightarrow> why \<in> set (reasons_of (add_score x w j cs) i)"
  by (cases "find (\<lambda>c. fst c = i) cs") (auto simp: reasons_of_def add_score_def find_scored find_append)

lemma reasons_added: "w \<in> set (reasons_of (add_score x w j cs) j)"
proof (cases "find (\<lambda>c. fst c = j) cs")
  case None
  then have "j \<notin> fst ` set cs" by (auto simp: find_None_iff)
  then show ?thesis using None by (simp add: reasons_of_def add_score_def find_append)
next
  case (Some c)
  then have j: "fst c = j" "c \<in> set cs" by (auto simp: find_Some_iff)
  then have "j \<in> fst ` set cs" by blast
  then show ?thesis using Some j(1) by (cases c) (simp add: reasons_of_def add_score_def find_scored)
qed

definition named :: "int \<Rightarrow> candidate list \<Rightarrow> bool" where
  "named i cs \<longleftrightarrow> is_explicit cs i \<and> i \<in> fst ` set cs"

definition stays_named :: "(candidate list \<Rightarrow> candidate list) \<Rightarrow> bool" where
  "stays_named f \<longleftrightarrow> (\<forall>cs i. named i cs \<longrightarrow> named i (f cs))"

lemma stays_score: "stays_named (add_score x w j)"
  by (simp add: stays_named_def named_def is_explicit_def keys_add reasons_add)

lemma stays_fold: "(\<And>x. stays_named (f x)) \<Longrightarrow> stays_named (fold f xs)"
  unfolding stays_named_def by (induction xs) simp_all

lemma stays_recent: "stays_named (score_recent n r)"
  unfolding score_recent_def by (rule stays_score)

lemma stays_thread: "stays_named (score_thread cf n txt1 tu)"
proof -
  have "stays_named (fold (add_score x ''unresolved_thread'') ps)" for x ps
    by (rule stays_fold) (rule stays_score)
  then show ?thesis unfolding stays_named_def score_thread_def Let_def by simp
qed

lemma named_first:
  assumes "e \<in> set es"
  shows "named (en_id e) (fold (\<lambda>e. add_score 1000 ''exact_chapter_term'' (en_id e)) es cs)"
  using assms
proof (induction es arbitrary: cs)
  case (Cons d es)
  have o: "stays_named (fold (\<lambda>e. add_score 1000 ''exact_chapter_term'' (en_id e)) es)" by (rule stays_fold) (rule stays_score)
  have "named (en_id d) (add_score 1000 ''exact_chapter_term'' (en_id d) cs)"
    by (simp add: named_def is_explicit_def reasons_added keys_add)
  then show ?case using Cons o unfolding stays_named_def by (cases "e = d") simp_all
qed simp

lemma mentioned_named:
  assumes "e \<in> set (mentioned nid n txt1 kb)"
  shows "named (en_id e) (candidate_scores cf cdb nid n txt1 kb)"
proof -
  have keep: "named i c \<Longrightarrow> stays_named f \<Longrightarrow> named i (f c)" for f c i by (simp add: stays_named_def)
  have scored: "stays_named (fold (\<lambda>(i, x). add_score (g x) w i) xs)" for g w and xs :: "(int \<times> rat) list"
    by (rule stays_fold) (simp add: stays_score split_beta)
  have c1: "named (en_id e) (fold (\<lambda>e. add_score 1000 ''exact_chapter_term'' (en_id e)) (mentioned nid n txt1 kb) [])"
    by (rule named_first [OF assms])
  note c2 = keep [OF c1 stays_fold [of "score_recent n" "recent_activity cf nid n kb", OF stays_recent]]
  note c3 = keep [OF c2 stays_fold [of "\<lambda>e. add_score 175 ''v1_recently_introduced_fallback'' (en_id e)" "introduced_recently cf nid n kb", OF stays_score]]
  show ?thesis unfolding candidate_scores_def Let_def
    by (intro keep [OF _ scored] keep [OF _ stays_fold [OF stays_score]] keep [OF _ stays_fold [OF stays_thread]])
      (simp only: c2 c3 split: if_split, simp)
qed


lemma find_keyed:
  assumes "distinct (map k xs)" "x \<in> set xs" "P x"
  shows "find (\<lambda>y. k y = k x \<and> P y) xs = Some x"
  using assms by (induction xs) (auto simp: image_iff)

lemma in_map_filter: "f x = Some y \<Longrightarrow> x \<in> set xs \<Longrightarrow> y \<in> set (List.map_filter f xs)"
  by (induction xs) (auto split: option.splits)

lemma length_filter_take: "length (filter p (take k xs)) \<le> length (filter p xs)"
  by (metis append_take_drop_id filter_append le_add1 length_append)

lemma ranked_named:
  assumes "distinct (map en_id (kb_entities kb))" "e \<in> set (kb_entities kb)" "en_novel_id e = nid" "en_first_seen e < n" "named (en_id e) cs"
  shows "e \<in> set (ranked_entities nid n kb cs)"
proof -
  have "find (\<lambda>d. en_id d = en_id e \<and> en_novel_id d = nid \<and> en_first_seen d < n) (kb_entities kb) = Some e"
    using find_keyed [of en_id "kb_entities kb" e "\<lambda>d. en_novel_id d = nid \<and> en_first_seen d < n"] assms by simp
  moreover have "en_id e \<in> set (map fst (sort_key (\<lambda>(i, x, _). (- x, i)) cs))" using assms(5) by (simp add: named_def)
  ultimately show ?thesis unfolding ranked_entities_def by (rule in_map_filter)
qed

lemma build_contextD:
  assumes "build_chapter_context cf cdb nid n txt1 meta input db = Inr b"
  obtains ro volume x y dropped where
    "select_entities cf n (xd_kb db) (candidate_scores cf cdb nid n txt1 (xd_kb db))
       (ranked_entities nid n (xd_kb db) (candidate_scores cf cdb nid n txt1 (xd_kb db))) empty_roster = Inr ro"
    "x = initial_context cf nid n txt1 (chapter_memory_shape (cf_settings cf) n meta) volume (ro_items ro) db"
    "reduce_context cf (cf_count cf (coalesce input txt1)) (candidate_scores cf cdb nid n txt1 (xd_kb db)) (ro_dropped ro) x = Inr (y, dropped)"
    "b = finish_context cf (cf_count cf (coalesce input txt1)) (candidate_scores cf cdb nid n txt1 (xd_kb db)) (cx_threads x) y dropped"
  using assms by (auto simp: build_chapter_context_def bindE_Inr_iff Let_def split: prod.splits)

text \<open>C25: A context that is returned fits: with the chapter and the fixed headroom it stays within the total budget, its roster within the
  caps on all and on background entities, its states within their token budget; and the references number the roster without gaps.\<close>

theorem context_within_budget:
  assumes "build_chapter_context cf cdb nid n txt1 meta input db = Inr b"
  shows "bc_estimate b = bc_count b + cf_count cf (coalesce input txt1) + 3000 \<and> bc_estimate b \<le> cf_max_tokens cf \<and>
    length (bc_roster b) \<le> cf_max_entities cf \<and>
    length (filter (\<lambda>s. ''exact_chapter_term'' \<notin> set (snd (snd s))) (bc_selected b)) \<le> cf_max_background cf \<and>
    weight_of_states cf (bc_context b) \<le> cf_state_tokens cf \<and>
    map fst (bc_roster b) = map (\<lambda>k. ''e'' @ show_nat (k + 1)) [0..<length (bc_roster b)]"
proof -
  let ?cs = "candidate_scores cf cdb nid n txt1 (xd_kb db)" and ?toks = "cf_count cf (coalesce input txt1)"
  obtain ro volume x y dropped where
    s: "select_entities cf n (xd_kb db) ?cs (ranked_entities nid n (xd_kb db) ?cs) empty_roster = Inr ro"
    and x: "x = initial_context cf nid n txt1 (chapter_memory_shape (cf_settings cf) n meta) volume (ro_items ro) db"
    and r: "reduce_context cf ?toks ?cs (ro_dropped ro) x = Inr (y, dropped)"
    and b: "b = finish_context cf ?toks ?cs (cx_threads x) y dropped"
    by (rule build_contextD [OF assms])
  have "roster_ok cf ?cs empty_roster" by (simp add: roster_ok_def empty_roster_def)
  then have ok: "roster_ok cf ?cs ro" using select_entities_ok [OF s] by blast
  have e: "cx_entities x = ro_items ro" by (simp add: x initial_context_def Let_def)
  obtain k where k: "cx_entities y = take k (ro_items ro)" using reduce_context_keeps [OF r] e by auto
  have w: "weight_of_states cf y \<le> cf_state_tokens cf"
    using reduce_context_keeps [OF r] initial_states_fit [of cf nid n txt1 "chapter_memory_shape (cf_settings cf) n meta" volume "ro_items ro" db]
    unfolding x by (auto intro: order_trans)
  have fit: "estimate cf ?toks y \<le> cf_max_tokens cf" using reduce_context_keeps [OF r] by (simp add: over_budget_def not_less)
  have bg: "length (filter (\<lambda>p. \<not> is_explicit ?cs (snd p)) (take k (ro_items ro))) \<le> cf_max_background cf"
    using ok length_filter_take [of "\<lambda>p. \<not> is_explicit ?cs (snd p)" k "ro_items ro"] by (simp add: roster_ok_def)
  have len: "min (length (ro_items ro)) k \<le> cf_max_entities cf" using ok by (simp add: min_def roster_ok_def)
  have refs: "map (ri_ref \<circ> fst) (take k (ro_items ro)) = map (\<lambda>k. ''e'' @ show_nat (k + 1)) [0..<min (length (ro_items ro)) k]"
  proof -
    have "map (ri_ref \<circ> fst) (take k (ro_items ro)) = take k (map (ri_ref \<circ> fst) (ro_items ro))" by (simp only: take_map)
    also have "\<dots> = map (\<lambda>k. ''e'' @ show_nat (k + 1)) (take k [0..<length (ro_items ro)])"
      using ok by (simp only: roster_ok_def take_map)
    also have "take k [0..<length (ro_items ro)] = [0..<min (length (ro_items ro)) k]" by (cases "k \<le> length (ro_items ro)") simp_all
    finally show ?thesis .
  qed
  show ?thesis
    using ok fit w bg refs len by (simp add: b finish_context_def k estimate_def roster_ok_def is_explicit_def comp_def filter_map)
qed


text \<open>
  What it means that a chapter names an entity, independent of the queries: one of the entity's names known
  before the chapter (its canonical name, or an alias revealed before) stands in the text as whole words,
  ignoring case. Names are stored without blanks around them, and those of one or two letters do not count.
\<close>

definition known_names :: "rat \<Rightarrow> knowledge \<Rightarrow> entity_row \<Rightarrow> string set" where
  "known_names n kb e = insert (en_name e) {al_alias a | a. a \<in> set (kb_aliases kb) \<and> al_entity_id a = en_id e \<and> al_revealed a < n}"

definition word_occurs :: "string \<Rightarrow> string \<Rightarrow> bool" where
  "word_occurs s txt1 \<longleftrightarrow> (\<exists>a w b. txt1 = a @ w @ b \<and> py_lower w = py_lower s \<and>
     \<not> is_word_char (if a = [] then None else Some (last a)) \<and> \<not> is_word_char (if b = [] then None else Some (hd b)))"

definition names_entity :: "int \<Rightarrow> rat \<Rightarrow> string \<Rightarrow> knowledge \<Rightarrow> entity_row \<Rightarrow> bool" where
  "names_entity nid n txt1 kb e \<longleftrightarrow> e \<in> set (kb_entities kb) \<and> en_novel_id e = nid \<and> en_first_seen e < n \<and>
     (\<exists>s \<in> known_names n kb e. py_strip s = s \<and> length s \<ge> 3 \<and> word_occurs s txt1)"

text \<open>The entities of the query's one page: a name occurs in the text at all, as whole words or not.\<close>

definition text_contains :: "int \<Rightarrow> rat \<Rightarrow> string \<Rightarrow> knowledge \<Rightarrow> entity_row \<Rightarrow> bool" where
  "text_contains nid n txt1 kb e \<longleftrightarrow> en_novel_id e = nid \<and> en_first_seen e < n \<and>
     (\<exists>s \<in> known_names n kb e. \<exists>a b. py_lower txt1 = a @ py_lower s @ b)"

lemma occurs_after_intro:
  assumes "py_lower w = py_lower s" "s \<noteq> []" "\<not> is_word_char (if a = [] then prev else Some (last a))"
    "\<not> is_word_char (if b = [] then None else Some (hd b))"
  shows "occurs_after prev s (a @ w @ b)"
  using assms(3)
proof (induction a arbitrary: prev)
  case Nil
  have l: "length w = length s" using assms(1) by (metis length_map py_lower_def)
  then obtain c cs where w: "w = c # cs" using assms(2) by (cases w) auto
  have "take (length s) (w @ b) = w" "drop (length s) (w @ b) = b" using l by simp_all
  then have "py_lower (take (length s) (c # (cs @ b))) = py_lower s" "drop (length s) (c # (cs @ b)) = b"
    using assms(1) w by simp_all
  moreover have "\<not> is_word_char (case b of [] \<Rightarrow> None | d # _ \<Rightarrow> Some d)" using assms(4) by (cases b) simp_all
  ultimately show ?case using Nil w by simp
next
  case (Cons c a)
  have "occurs_after (Some c) s (a @ w @ b)"
    using Cons.prems by (intro Cons.IH) (cases a; simp)
  then show ?case by simp
qed

lemma named_mentioned:
  assumes "names_entity nid n txt1 kb e" and few: "length (filter (text_contains nid n txt1 kb) (kb_entities kb)) \<le> 300"
  shows "e \<in> set (mentioned nid n txt1 kb)"
proof -
  obtain s where e: "e \<in> set (kb_entities kb)" "en_novel_id e = nid" "en_first_seen e < n"
    and s: "s \<in> known_names n kb e" "py_strip s = s" "length s \<ge> 3" "word_occurs s txt1"
    using assms(1) by (auto simp: names_entity_def)
  let ?q = "\<lambda>e. en_novel_id e = nid \<and> en_first_seen e < n \<and> (strpos_lower txt1 (en_name e) \<or>
         (\<exists>a \<in> set (kb_aliases kb). al_entity_id a = en_id e \<and> al_revealed a < n \<and> length (al_alias a) \<ge> 3 \<and> strpos_lower txt1 (al_alias a)))"
  obtain a w b where w: "txt1 = a @ w @ b" "py_lower w = py_lower s"
    and edges: "\<not> is_word_char (if a = [] then None else Some (last a))" "\<not> is_word_char (if b = [] then None else Some (hd b))"
    using s(4) unfolding word_occurs_def by blast
  have "py_lower txt1 = py_lower a @ py_lower s @ py_lower b" using w(2) by (simp add: w(1) py_lower_def)
  then have "strpos_lower txt1 s" by (auto simp: strpos_lower_def py_in_iff)
  then have q: "?q e" using e s(1,3) by (auto simp: known_names_def)
  have "s \<noteq> []" using s(3) by auto
  with occurs_after_intro [OF w(2) _ edges] s(2,3) have "visible_occurrence s txt1" by (simp add: visible_occurrence_def w(1))
  then have v: "\<exists>s \<in> set (en_name e # aliases_before n kb (en_id e)). visible_occurrence s txt1"
    using s(1) by (auto simp: known_names_def aliases_before_def)
  have tc: "text_contains nid n txt1 kb e' \<longleftrightarrow> en_novel_id e' = nid \<and> en_first_seen e' < n \<and>
      (\<exists>s \<in> known_names n kb e'. strpos_lower txt1 s)" for e'
    by (simp only: text_contains_def strpos_lower_def py_in_iff)
  have "?q e' \<Longrightarrow> text_contains nid n txt1 kb e'" for e'
    unfolding tc known_names_def by blast
  then have "filter ?q xs = filter ?q (filter (text_contains nid n txt1 kb) xs)" for xs
    unfolding filter_filter by (intro filter_cong [OF refl]) blast
  then have "length (filter ?q (kb_entities kb)) = length (filter ?q (filter (text_contains nid n txt1 kb) (kb_entities kb)))"
    by (rule arg_cong)
  then have "length (filter ?q (kb_entities kb)) \<le> length (filter (text_contains nid n txt1 kb) (kb_entities kb))"
    by (simp only: length_filter_le)
  then have "take 300 (sort_key en_id (filter ?q (kb_entities kb))) = sort_key en_id (filter ?q (kb_entities kb))"
    using few by simp
  then show ?thesis using e(1) q v by (simp add: mentioned_def)
qed

text \<open>C24: No entity the chapter names is left out silently: whenever a context is returned, every entity of the novel first seen before
  the chapter, of which a known name or alias stands in the text as whole words, is in the roster of the context and in no
  list of dropped entities; the alternative is the error. The candidate query reads at most 300 entities (in the order of their
  ids) whose names occur in the text at all; the hypothesis is that there are no more, since others are never looked at.\<close>

theorem named_entities_kept:
  assumes "build_chapter_context cf cdb nid n txt1 meta input db = Inr b" "distinct (map en_id (kb_entities (xd_kb db)))"
    and named: "names_entity nid n txt1 (xd_kb db) e"
    and few: "length (filter (text_contains nid n txt1 (xd_kb db)) (kb_entities (xd_kb db))) \<le> 300"
  shows "en_id e \<in> snd ` set (bc_roster b) \<and> en_id e \<notin> fst ` set (bc_dropped b)"
proof -
  let ?cs = "candidate_scores cf cdb nid n txt1 (xd_kb db)" and ?toks = "cf_count cf (coalesce input txt1)"
  obtain ro volume x y dropped where
    s: "select_entities cf n (xd_kb db) ?cs (ranked_entities nid n (xd_kb db) ?cs) empty_roster = Inr ro"
    and x: "x = initial_context cf nid n txt1 (chapter_memory_shape (cf_settings cf) n meta) volume (ro_items ro) db"
    and r: "reduce_context cf ?toks ?cs (ro_dropped ro) x = Inr (y, dropped)"
    and b: "b = finish_context cf ?toks ?cs (cx_threads x) y dropped"
    by (rule build_contextD [OF assms(1)])
  have nm: "named (en_id e) ?cs" by (rule mentioned_named [OF named_mentioned [OF named few]])
  have "e \<in> set (kb_entities (xd_kb db))" "en_novel_id e = nid" "en_first_seen e < n"
    using named by (simp_all add: names_entity_def)
  then have e: "e \<in> set (ranked_entities nid n (xd_kb db) ?cs)" using ranked_named assms(2) nm by blast
  have ok0: "roster_ok cf ?cs empty_roster" by (simp add: roster_ok_def empty_roster_def)
  have "en_id e \<in> snd ` set (ro_items ro)" using select_entities_ok [OF s ok0] e nm by (simp add: named_def)
  then obtain p where p: "p \<in> set (cx_entities x)" "snd p = en_id e" by (auto simp: x initial_context_def Let_def)
  then have "p \<in> set (cx_entities y)" using reduce_context_keeps [OF r] nm by (simp add: named_def)
  then have "en_id e \<in> snd ` set (bc_roster b)" using p(2) by (force simp: b finish_context_def)
  moreover have "\<not> is_explicit ?cs (fst d)" if "d \<in> set dropped" for d
    using that reduce_context_keeps [OF r] select_entities_ok [OF s ok0] unfolding roster_ok_def by blast
  then have "en_id e \<notin> fst ` set (bc_dropped b)" using nm by (auto simp: b finish_context_def named_def)
  ultimately show ?thesis by blast
qed

definition demo_built :: "built_context result" where
  "demo_built = build_chapter_context demo_context_config demo_codex 1 3 ''Klein'' None None demo_extraction_db"

definition built_roster :: "built_context result \<Rightarrow> (string \<times> int) list" where
  "built_roster r = (case r of Inl _ \<Rightarrow> [] | Inr b \<Rightarrow> bc_roster b)"

lemma demo_built_roster: "built_roster demo_built = [(''e1'', 1)]"
  by code_simp


lemma demo_returned: obtains b where "demo_built = Inr b"
  using demo_built_roster unfolding built_roster_def by (auto split: sum.splits)

theorem context_within_budget_witness:
  "\<exists>b. demo_built = Inr b \<and> bc_roster b = [(''e1'', 1)] \<and> bc_estimate b \<le> 3600 \<and> length (bc_roster b) \<le> 120"
proof -
  obtain b where b: "demo_built = Inr b" by (rule demo_returned)
  have "bc_roster b = [(''e1'', 1)]" using demo_built_roster by (simp add: b built_roster_def)
  then show ?thesis
    using b context_within_budget [of demo_context_config demo_codex 1 3 "''Klein''" None None demo_extraction_db b]
    by (simp add: demo_built_def) (simp add: demo_context_config_def)
qed

lemma demo_named: "names_entity 1 3 ''Klein'' demo_base (demo_entity 1 ''Klein'' 1)"
proof -
  have "word_occurs ''Klein'' ''Klein''"
    unfolding word_occurs_def by (intro exI [of _ "[]"] exI [of _ "''Klein''"]) (simp add: is_word_char_def)
  moreover have "py_strip ''Klein'' = ''Klein''" by code_simp
  ultimately show ?thesis by (auto simp: names_entity_def known_names_def demo_base_def demo_defs)
qed

theorem named_entities_kept_witness:
  "\<exists>b. demo_built = Inr b \<and> 1 \<in> snd ` set (bc_roster b) \<and> 1 \<notin> fst ` set (bc_dropped b)"
proof -
  obtain b where b: "demo_built = Inr b" by (rule demo_returned)
  have d: "distinct (map en_id (kb_entities (xd_kb demo_extraction_db)))" and kb: "xd_kb demo_extraction_db = demo_base"
    by (simp_all add: demo_extraction_db_def demo_base_def demo_defs)
  have few: "length (filter (text_contains 1 3 ''Klein'' demo_base) (kb_entities demo_base)) \<le> 300"
    by (rule order_trans [OF length_filter_le]) (simp add: demo_base_def demo_defs)
  have run: "build_chapter_context demo_context_config demo_codex 1 3 ''Klein'' None None demo_extraction_db = Inr b"
    using b by (simp add: demo_built_def)
  from named_entities_kept [OF run d, of "demo_entity 1 ''Klein'' 1", unfolded kb, OF demo_named few] have
    "1 \<in> snd ` set (bc_roster b) \<and> 1 \<notin> fst ` set (bc_dropped b)" by (simp add: demo_entity_def)
  with b show ?thesis by blast
qed

end
