(* ===== verification/Codex_Context_Past.thy ===== *)
theory Codex_Context_Past
  imports Codex_Context
begin

text \<open>
  The context of a chapter depends only on the rows before the chapter (\<open>build_same\<close>), and a commit leaves those rows alone; so a commit leaves the
  contexts of its own and of all earlier chapters as they were.
\<close>

section \<open>A context sees nothing from its chapter on\<close>

text \<open>The rows before a chapter agree.\<close>

definition same_before :: "rat \<Rightarrow> extraction_db \<Rightarrow> extraction_db \<Rightarrow> bool" where
  "same_before n db db' \<longleftrightarrow>
     (\<forall>c. c < n \<longrightarrow> same_below c (xd_kb db) (xd_kb db')) \<and>
     filter (\<lambda>a. ac_chapter a < n) (kb_activity (xd_kb db)) = filter (\<lambda>a. ac_chapter a < n) (kb_activity (xd_kb db')) \<and>
     filter (\<lambda>s. cu_chapter s < n) (xd_summaries db) = filter (\<lambda>s. cu_chapter s < n) (xd_summaries db') \<and>
     filter (\<lambda>g. mg_end g < n) (xd_segments db) = filter (\<lambda>g. mg_end g < n) (xd_segments db')"

lemma filter_strict:
  fixes f :: "'r \<Rightarrow> rat"
  assumes "\<And>c. c < n \<Longrightarrow> filter (\<lambda>x. f x \<le> c) xs = filter (\<lambda>x. f x \<le> c) ys"
  shows "filter (\<lambda>x. f x < n) xs = filter (\<lambda>x. f x < n) ys"
proof (cases "\<exists>x \<in> set xs \<union> set ys. f x < n")
  case False
  then show ?thesis by (auto simp: filter_empty_conv intro: filter_False trans)
next
  case True
  let ?low = "{f x | x. x \<in> set xs \<union> set ys \<and> f x < n}"
  have fin: "finite ?low" by simp
  have ne: "?low \<noteq> {}" using True by blast
  have c: "Max ?low < n" using Max_in [OF fin ne] by auto
  have up: "f x \<le> Max ?low" if "x \<in> set xs \<union> set ys" "f x < n" for x using Max_ge [OF fin] that by blast
  have "f x < n \<longleftrightarrow> f x \<le> Max ?low" if "x \<in> set xs \<union> set ys" for x using up c that by fastforce
  then have "filter (\<lambda>x. f x < n) xs = filter (\<lambda>x. f x \<le> Max ?low) xs" "filter (\<lambda>x. f x < n) ys = filter (\<lambda>x. f x \<le> Max ?low) ys"
    by (auto intro: filter_cong)
  then show ?thesis using assms [OF c] by simp
qed

lemma before_tables:
  assumes "same_before n db db'"
  shows before_entities: "filter (\<lambda>e. en_first_seen e < n) (kb_entities (xd_kb db)) = filter (\<lambda>e. en_first_seen e < n) (kb_entities (xd_kb db'))"
    and before_descriptions: "filter (\<lambda>d. de_chapter d < n) (kb_descriptions (xd_kb db)) = filter (\<lambda>d. de_chapter d < n) (kb_descriptions (xd_kb db'))"
    and before_aliases: "filter (\<lambda>a. al_revealed a < n) (kb_aliases (xd_kb db)) = filter (\<lambda>a. al_revealed a < n) (kb_aliases (xd_kb db'))"
    and before_relationships: "filter (\<lambda>r. rl_chapter r < n) (kb_relationships (xd_kb db)) = filter (\<lambda>r. rl_chapter r < n) (kb_relationships (xd_kb db'))"
    and before_threads: "filter (\<lambda>t. th_introduced t < n) (kb_threads (xd_kb db)) = filter (\<lambda>t. th_introduced t < n) (kb_threads (xd_kb db'))"
    and before_updates: "filter (\<lambda>u. tu_chapter u < n) (kb_thread_updates (xd_kb db)) = filter (\<lambda>u. tu_chapter u < n) (kb_thread_updates (xd_kb db'))"
    and before_activity: "filter (\<lambda>a. ac_chapter a < n) (kb_activity (xd_kb db)) = filter (\<lambda>a. ac_chapter a < n) (kb_activity (xd_kb db'))"
    and before_summaries: "filter (\<lambda>s. cu_chapter s < n) (xd_summaries db) = filter (\<lambda>s. cu_chapter s < n) (xd_summaries db')"
    and before_segments: "filter (\<lambda>g. mg_end g < n) (xd_segments db) = filter (\<lambda>g. mg_end g < n) (xd_segments db')"
  using assms unfolding same_before_def by (auto intro!: filter_strict simp: same_below_def)

lemma aliases_before_same:
  assumes "same_before n db db'"
  shows "aliases_before n (xd_kb db) = aliases_before n (xd_kb db')"
  unfolding aliases_before_def by (rule ext, subst filter_agree [OF before_aliases [OF assms]]) simp_all

lemma mentioned_same:
  assumes "same_before n db db'"
  shows "mentioned nid n txt1 (xd_kb db) = mentioned nid n txt1 (xd_kb db')"
proof -
  have a: "(\<exists>a \<in> set (kb_aliases (xd_kb db)). al_entity_id a = i \<and> al_revealed a < n \<and> length (al_alias a) \<ge> 3 \<and> strpos_lower txt1 (al_alias a)) \<longleftrightarrow>
    (\<exists>a \<in> set (kb_aliases (xd_kb db')). al_entity_id a = i \<and> al_revealed a < n \<and> length (al_alias a) \<ge> 3 \<and> strpos_lower txt1 (al_alias a))" for i
    by (rule bex_agree [OF before_aliases [OF assms]]) simp
  show ?thesis unfolding mentioned_def aliases_before_same [OF assms] a
    by (subst filter_agree [OF before_entities [OF assms]]) simp_all
qed

lemma recent_activity_same:
  assumes "same_before n db db'"
  shows "recent_activity cf nid n (xd_kb db) = recent_activity cf nid n (xd_kb db')"
  unfolding recent_activity_def by (subst filter_agree [OF before_activity [OF assms]]) simp_all

lemma introduced_same:
  assumes "same_before n db db'"
  shows "introduced_recently cf nid n (xd_kb db) = introduced_recently cf nid n (xd_kb db')"
  unfolding introduced_recently_def by (subst filter_agree [OF before_entities [OF assms]]) simp_all

lemma update_before_same:
  assumes "same_before n db db'"
  shows "update_before cf nid n (xd_kb db) = update_before cf nid n (xd_kb db')"
  unfolding update_before_def by (rule ext, subst filter_agree [OF before_updates [OF assms]]) simp_all

text \<open>A thread with an update before the chapter was introduced before it.\<close>

lemma update_introduced:
  assumes "timely kb" "t \<in> set (kb_threads kb)" "update_before cf nid n kb (th_id t) = Some u"
  shows "th_introduced t < n"
proof -
  have "u \<in> set (kb_thread_updates kb)" "tu_thread_id u = th_id t" "tu_chapter u < n"
    using sql_first_Some_in [OF assms(3) [unfolded update_before_def]] by simp_all
  then show ?thesis using assms(1,2) unfolding timely_def by force
qed

lemma thread_rows_same:
  assumes s: "same_before n db db'" and t: "timely (xd_kb db)" "timely (xd_kb db')"
  shows "thread_rows cf nid n (xd_kb db) = thread_rows cf nid n (xd_kb db')"
proof -
  define f where "f kb t = (if th_novel_id t = nid \<and> th_version t = version_of cf then map_option (Pair t) (update_before cf nid n kb (th_id t)) else None)"
    for kb and t :: thread_row
  have same: "f (xd_kb db) = f (xd_kb db')" by (rule ext) (simp only: f_def update_before_same [OF s])
  have intro: "th_introduced t < n" if "timely kb" "t \<in> set (kb_threads kb)" "f kb t \<noteq> None" for kb and t :: thread_row
    using that update_introduced [of kb t] by (auto simp: f_def split: if_splits)
  have "List.map_filter (f (xd_kb db)) (kb_threads (xd_kb db)) = List.map_filter (f (xd_kb db)) (kb_threads (xd_kb db'))"
    by (rule map_filter_agree [OF before_threads [OF s]], erule UnE) (erule (1) intro [OF t(1)], erule intro [OF t(2)], simp add: same)
  then show ?thesis unfolding thread_rows_def f_def [symmetric] same by simp
qed

lemma edges_same:
  assumes "same_before n db db'"
  shows "edges nid n (xd_kb db) = edges nid n (xd_kb db')"
  unfolding edges_def by (rule ext, subst filter_agree [OF before_relationships [OF assms]]) simp_all

lemma connected_ids_same:
  assumes "same_before n db db'"
  shows "connected_ids nid n (xd_kb db) ss = connected_ids nid n (xd_kb db') ss"
  by (simp only: connected_ids_def edges_same [OF assms])

lemma comprehension_filter: "concat (map (\<lambda>x. if p x then f x else []) xs) = concat (map f (filter p xs))"
  by (induction xs) auto

lemma fuzzy_same:
  assumes "same_before n db db'"
  shows "fuzzy_spans cf nid n (xd_kb db) spans = fuzzy_spans cf nid n (xd_kb db') spans"
proof -
  have e: "(\<exists>e \<in> set (kb_entities (xd_kb db)). en_id e = i \<and> en_first_seen e < n) \<longleftrightarrow>
    (\<exists>e \<in> set (kb_entities (xd_kb db')). en_id e = i \<and> en_first_seen e < n)" for i
    by (rule bex_agree [OF before_entities [OF assms]]) simp
  have es: "filter (\<lambda>e. en_novel_id e = nid \<and> en_first_seen e < n) (kb_entities (xd_kb db)) =
    filter (\<lambda>e. en_novel_id e = nid \<and> en_first_seen e < n) (kb_entities (xd_kb db'))"
    by (rule filter_agree [OF before_entities [OF assms]]) simp
  have as: "filter (\<lambda>a. al_novel_id a = nid \<and> al_revealed a < n \<and> q a) (kb_aliases (xd_kb db)) =
    filter (\<lambda>a. al_novel_id a = nid \<and> al_revealed a < n \<and> q a) (kb_aliases (xd_kb db'))" for q
    by (rule filter_agree [OF before_aliases [OF assms]]) simp
  show ?thesis unfolding fuzzy_spans_def comprehension_filter e es as ..
qed

lemma semantic_same:
  assumes "same_before n db db'"
  shows "semantic_scores cf cdb nid n (xd_kb db) = semantic_scores cf cdb nid n (xd_kb db')"
proof -
  have es: "filter (\<lambda>e. en_novel_id e = nid \<and> en_first_seen e < n) (kb_entities (xd_kb db)) =
    filter (\<lambda>e. en_novel_id e = nid \<and> en_first_seen e < n) (kb_entities (xd_kb db'))"
    by (rule filter_agree [OF before_entities [OF assms]]) simp
  show ?thesis unfolding semantic_scores_def comprehension_filter es ..
qed

lemma candidates_same:
  assumes "same_before n db db'" "timely (xd_kb db)" "timely (xd_kb db')"
  shows "candidate_scores cf cdb nid n txt1 (xd_kb db) = candidate_scores cf cdb nid n txt1 (xd_kb db')"
  unfolding candidate_scores_def mentioned_same [OF assms(1)] recent_activity_same [OF assms(1)] introduced_same [OF assms(1)]
    thread_rows_same [OF assms] connected_ids_same [OF assms(1)] fuzzy_same [OF assms(1)] semantic_same [OF assms(1)] ..


lemma ranked_same:
  assumes "same_before n db db'"
  shows "ranked_entities nid n (xd_kb db) cs = ranked_entities nid n (xd_kb db') cs"
proof -
  have "find (\<lambda>e. en_id e = i \<and> en_novel_id e = nid \<and> en_first_seen e < n) (kb_entities (xd_kb db)) =
    find (\<lambda>e. en_id e = i \<and> en_novel_id e = nid \<and> en_first_seen e < n) (kb_entities (xd_kb db'))" for i
    by (rule find_agree [OF before_entities [OF assms]]) simp
  then show ?thesis by (simp only: ranked_entities_def)
qed

lemma description_before_same:
  assumes "same_before n db db'"
  shows "description_before n (xd_kb db) = description_before n (xd_kb db')"
  unfolding description_before_def by (rule ext, subst filter_agree [OF before_descriptions [OF assms]]) simp_all

lemma select_same:
  assumes "same_before n db db'"
  shows "select_entities cf n (xd_kb db) cs es ro = select_entities cf n (xd_kb db') cs es ro"
proof -
  have "select_entity cf n (xd_kb db) = select_entity cf n (xd_kb db')"
    by (intro ext) (simp only: select_entity_def roster_item_of_def aliases_before_same [OF assms] description_before_same [OF assms])
  then have "select_entities cf n (xd_kb db) cs es = select_entities cf n (xd_kb db') cs es"
  proof (induction es)
    case (Cons e es)
    show ?case by (rule ext) (simp only: select_entities.simps Cons.IH [OF Cons.prems] Cons.prems)
  qed (simp add: fun_eq_iff)
  then show ?thesis by simp
qed

text \<open>The states are read just below the chapter.\<close>

lemma states_same:
  assumes s: "same_below c kb kb'" and t: "timely kb" "timely kb'"
  shows "state_items cf nid c kb picked = state_items cf nid c kb' picked" (is ?states)
    and "relation_items cf nid c kb picked = relation_items cf nid c kb' picked" (is ?relations)
proof -
  have "state_json cf nid ids c kb = state_json cf nid ids c kb'" for ids
    by (rule ext) (simp only: state_json_def entity_state_same [OF s t] transition_rows_same [OF s t])
  then show ?states by (simp only: state_items_def)
  show ?relations by (simp only: relation_items_def relationship_state_same [OF s t])
qed

lemma thread_context_same:
  assumes "same_before n db db'" "timely (xd_kb db)" "timely (xd_kb db')"
  shows "thread_context cf nid n txt1 (xd_kb db) picked = thread_context cf nid n txt1 (xd_kb db') picked"
  by (simp only: thread_context_def ranked_threads_def thread_rows_same [OF assms])

lemma recent_summaries_same:
  assumes "same_before n db db'"
  shows "recent_summaries cf nid n db = recent_summaries cf nid n db'"
  unfolding recent_summaries_def by (subst filter_agree [OF before_summaries [OF assms]]) simp_all

lemma block_children_same:
  assumes "same_before n db db'" "\<forall>x \<in> set block. x < n"
  shows "block_children cf nid block db = block_children cf nid block db'"
  unfolding block_children_def by (subst filter_agree [OF before_summaries [OF assms(1)]]) (use assms(2) in auto)

lemma checkpoint_exists_same:
  assumes "same_before n db db'" "hi < n"
  shows "checkpoint_exists cf nid lo hi part db = checkpoint_exists cf nid lo hi part db'"
  unfolding checkpoint_exists_def by (rule bex_agree [OF before_segments [OF assms(1)]]) (use assms(2) in auto)

lemma volume_rows_same:
  assumes "same_before n db db'"
  shows "volume_rows cf nid n part db = volume_rows cf nid n part db'"
  unfolding volume_rows_def by (subst filter_agree [OF before_segments [OF assms]]) auto

lemma completed_memory_same:
  assumes "same_before n db db'"
  shows "completed_memory cf nid n db = completed_memory cf nid n db'"
proof -
  have "latest_segment p db = latest_segment p db'" if "\<And>g. p g \<Longrightarrow> mg_end g < n" for p
    unfolding latest_segment_def by (subst filter_agree [OF before_segments [OF assms]]) (use that in auto)
  from this [of "\<lambda>g. mg_novel_id g = nid \<and> mg_kind g = ''checkpoint'' \<and> mg_through g = mg_end g \<and> mg_through g < n \<and> mg_version g = version_of cf"]
    this [of "\<lambda>g. mg_novel_id g = nid \<and> mg_kind g = ''volume'' \<and> mg_end g < n \<and> mg_version g = version_of cf"]
  show ?thesis by (simp add: completed_memory_def)
qed

text \<open>The chapters of a part, as the snapshot of a chapter lists them, are ascending.\<close>

definition meta_ok :: "chapter_meta option \<Rightarrow> bool" where
  "meta_ok meta \<longleftrightarrow> (\<forall>m. meta = Some m \<longrightarrow> sorted_wrt (<) (me_part_chapters m))"

lemma index_of_SomeD: "index_of x xs = Some i \<Longrightarrow> i < length xs \<and> xs ! i = x"
  by (induction xs arbitrary: i) (auto split: if_splits simp: less_Suc_eq_0_disj)

lemma shape_below:
  assumes "meta_ok meta" "chapter_memory_shape cfg n meta = Narrative kind part targets block numbers start"
  shows "\<forall>x \<in> set block. x < n" "0 < start \<Longrightarrow> numbers ! (start - 1) < n"
    "\<forall>t \<in> set targets. mt_through t = n \<and> mt_end t = n"
proof -
  define m where "m = coalesce meta \<lparr>me_kind = Some ''chapter'', me_part_label = None, me_part_chapters = [n]\<rparr>"
  obtain i where i: "index_of n (me_part_chapters m) = Some i"
    and shape: "numbers = me_part_chapters m" "start = (i div checkpoint_width cfg) * checkpoint_width cfg" "block = drop start (take i numbers)"
      "targets = memory_targets (checkpoint_width cfg) n part numbers i"
    using assms(2) by (auto simp: chapter_memory_shape_def m_def Let_def split: if_splits option.splits)
  have sorted: "sorted_wrt (<) numbers" using assms(1) by (cases meta) (simp_all add: meta_ok_def m_def shape(1))
  have in1: "i < length numbers" "numbers ! i = n" using index_of_SomeD [OF i] by (simp_all add: shape(1))
  have less: "numbers ! j < n" if "j < i" for j using sorted that in1 by (auto simp: sorted_wrt_iff_nth_less)
  have "set block \<subseteq> set (take i numbers)" by (simp add: shape(3) set_drop_subset)
  moreover have "\<forall>x \<in> set (take i numbers). x < n" using less by (auto simp: in_set_conv_nth)
  ultimately show "\<forall>x \<in> set block. x < n" by blast
  have w: "0 < checkpoint_width cfg" by (simp add: checkpoint_width_def)
  have st: "start \<le> i" by (simp add: shape(2))
  then show "0 < start \<Longrightarrow> numbers ! (start - 1) < n" using less by simp
  have lt: "i < start + checkpoint_width cfg"
    using mod_less_divisor [OF w, of i] div_mult_mod_eq [of i "checkpoint_width cfg"] unfolding shape(2) by linarith
  have end1: "i = start + checkpoint_width cfg - 1 \<or> i = length numbers - 1 \<Longrightarrow>
      numbers ! min (start + checkpoint_width cfg - 1) (length numbers - 1) = n"
  proof -
    assume "i = start + checkpoint_width cfg - 1 \<or> i = length numbers - 1"
    then have "min (start + checkpoint_width cfg - 1) (length numbers - 1) = i" using in1(1) lt w by linarith
    then show ?thesis using in1(2) by simp
  qed
  have last1: "last numbers = numbers ! (length numbers - 1)" using in1(1) by (intro last_conv_nth) auto
  show "\<forall>t \<in> set targets. mt_through t = n \<and> mt_end t = n"
  proof
    fix t assume "t \<in> set targets"
    then show "mt_through t = n \<and> mt_end t = n"
      using end1 last1 in1(2) unfolding shape(4) memory_targets_def Let_def shape(2) [symmetric] by (auto split: if_splits)
  qed
qed

lemma build_same:
  assumes "same_before n db db'" "timely (xd_kb db)" "timely (xd_kb db')" "meta_ok meta"
  shows "build_chapter_context cf cdb nid n txt1 meta input db = build_chapter_context cf cdb nid n txt1 meta input db'"
proof -
  let ?shape = "chapter_memory_shape (cf_settings cf) n meta"
  have block: "\<forall>x \<in> set (shape_open ?shape). x < n"
  proof (cases ?shape)
    case (Narrative kind part targets block numbers start)
    show ?thesis using shape_below(1) [OF assms(4) Narrative] by (simp add: shape_open_def Narrative)
  qed (simp add: shape_open_def)
  have c: "n - 1 / 1000000 < n" by simp
  have sb: "same_below (n - 1 / 1000000) (xd_kb db) (xd_kb db')" using assms(1) c unfolding same_before_def by blast
  have init: "initial_context cf nid n txt1 ?shape volume picked db = initial_context cf nid n txt1 ?shape volume picked db'" for volume picked
    unfolding initial_context_def Let_def block_children_same [OF assms(1) block] states_same [OF sb assms(2,3)]
      recent_summaries_same [OF assms(1)] completed_memory_same [OF assms(1)] thread_context_same [OF assms(1-3)] ..
  have pre: "check_prerequisites cf nid ?shape db = check_prerequisites cf nid ?shape db'"
  proof (cases ?shape)
    case (Narrative kind part targets block numbers start)
    note b = shape_below [OF assms(4) Narrative]
    show ?thesis
      using checkpoint_exists_same [OF assms(1) b(2), of cf nid _ part]
      by (cases "start = 0") (simp_all add: check_prerequisites_def Narrative block_children_same [OF assms(1) b(1)])
  qed (simp add: check_prerequisites_def)
  have vol: "volume_children cf nid n ?shape db = volume_children cf nid n ?shape db'"
    by (simp only: volume_children_def volume_rows_same [OF assms(1)])
  show ?thesis
    unfolding build_chapter_context_def Let_def candidates_same [OF assms(1-3)] ranked_same [OF assms(1)] select_same [OF assms(1)]
      init pre vol ..
qed

section \<open>Commits leave the contexts of earlier chapters alone\<close>

definition segments_ok :: "extraction_db \<Rightarrow> bool" where
  "segments_ok db \<longleftrightarrow> (\<forall>g \<in> set (xd_segments db). mg_through g \<le> mg_end g)"

lemma shape_goals_end:
  assumes "meta_ok meta" "g \<in> set (shape_goals (chapter_memory_shape cfg n meta))"
  shows "mt_through g = n" "mt_end g = n"
proof -
  obtain kind part targets block numbers start where s: "chapter_memory_shape cfg n meta = Narrative kind part targets block numbers start"
    using assms(2) by (cases "chapter_memory_shape cfg n meta") (auto simp: shape_goals_def)
  then show "mt_through g = n" "mt_end g = n" using shape_below(3) [OF assms(1) s] assms(2) by (auto simp: shape_goals_def)
qed

lemma put_summary_early: "n \<le> m \<Longrightarrow> filter (\<lambda>s. cu_chapter s < n) (xd_summaries (put_summary nid m ver t k src ch db)) =
  filter (\<lambda>s. cu_chapter s < n) (xd_summaries db)"
  by (auto simp: put_summary_def Let_def intro!: filter_update)

lemma put_memory_early:
  assumes "put_memory nid ver cm valid ups kind prev d = (Inr h, d')" "\<forall>g \<in> set (cm_targets cm). mt_through g = m \<and> mt_end g = m" "n \<le> m"
  shows "filter (\<lambda>g. mg_end g < n) (xd_segments d') = filter (\<lambda>g. mg_end g < n) (xd_segments d) \<and> xd_summaries d' = xd_summaries d \<and>
    (segments_ok d \<longrightarrow> segments_ok d')"
  using put_memoryD [OF assms(1)] assms(2,3) by (auto simp: segments_ok_def)

lemma clear_early:
  assumes "n \<le> m" "segments_ok db"
  shows "filter (\<lambda>g. mg_end g < n) (xd_segments (clear_extraction_chapter nid m db)) = filter (\<lambda>g. mg_end g < n) (xd_segments db)"
proof -
  have "filter (\<lambda>g. mg_end g < n) (sql_delete p rows) = filter (\<lambda>g. mg_end g < n) rows" if "\<forall>g \<in> set rows. p g \<longrightarrow> \<not> mg_end g < n" for p rows
    using that by (induction rows) (auto simp: sql_delete_def)
  moreover have "\<forall>g \<in> set (xd_segments db). mg_novel_id g = nid \<and> mg_through g \<ge> m \<longrightarrow> \<not> mg_end g < n"
    using assms by (meson linorder_not_less order_trans segments_ok_def)
  ultimately show ?thesis by (simp add: clear_extraction_chapter_def)
qed

lemma commit_same_before:
  assumes run: "commit_extraction ci cm ground rebuild threads force x db = (Inr b, db')"
    and k: "keyed (xd_kb db)" and n: "n \<le> ci_chapter ci" and s: "segments_ok db"
    and t: "\<forall>g \<in> set (cm_targets cm). mt_through g = ci_chapter ci \<and> mt_end g = ci_chapter ci"
  shows "same_before n db db' \<and> segments_ok db'"
proof (cases "db' = db")
  case True
  then show ?thesis using s by (simp add: same_before_def same_below_def)
next
  case False
  let ?nid = "ci_novel ci" and ?n = "ci_chapter ci"
  let ?start = "on_kb (clear_caches ?nid (Some ?n) None) (clear_extraction_chapter ?nid ?n db)"
  obtain y where "bindS (write_items ci threads y) (finish_commit ci cm (x_memories y)) ?start = (Inr b, db')"
    using run False by (auto simp: commit_extraction_def Let_def split: if_splits sum.splits)
  then obtain acts d where w: "write_items ci threads y ?start = (Inr acts, d)" and f: "finish_commit ci cm (x_memories y) acts d = (Inr b, db')"
    by (rule bindS_InrE)
  have d: "xd_summaries d = sql_delete (\<lambda>s. cu_novel_id s = ?nid \<and> cu_chapter s \<ge> ?n) (xd_summaries db)"
    "xd_segments d = xd_segments (clear_extraction_chapter ?nid ?n db)"
    using w by (auto simp: write_items_def on_kb_def clear_extraction_chapter_def split: prod.splits sum.splits)
  have d_ok: "segments_ok d" using s by (auto simp: segments_ok_def d(2) clear_extraction_chapter_def set_sql_delete)
  have ds: "filter (\<lambda>s. cu_chapter s < n) (xd_summaries d) = filter (\<lambda>s. cu_chapter s < n) (xd_summaries db)"
    unfolding d(1) by (rule filter_delete) (use n in auto)
  have dg: "filter (\<lambda>g. mg_end g < n) (xd_segments d) = filter (\<lambda>g. mg_end g < n) (xd_segments db)"
    unfolding d(2) by (rule clear_early [OF n s])
  obtain d1 d2 h h' where m1: "put_memory ?nid (ks_pipeline_version (lc_settings (ci_link ci))) cm (ci_chunks ci) (x_memories y) ''checkpoint'' None
       (put_summary ?nid ?n (ks_pipeline_version (lc_settings (ci_link ci))) (py_strip (cm_summary cm))
          (cm_tokens cm (py_strip (cm_summary cm))) (cm_source cm) (ci_chunks ci) d) = (Inr h, d1)"
    and m2: "put_memory ?nid (ks_pipeline_version (lc_settings (ci_link ci))) cm (ci_chunks ci) (x_memories y) ''volume'' h d1 = (Inr h', d2)"
    and e: "db' = put_state ?nid ?n (ks_pipeline_version (lc_settings (ci_link ci))) cm
       (put_context ?nid ?n (ks_pipeline_version (lc_settings (ci_link ci))) cm
         (on_kb (\<lambda>kb. kb\<lparr>kb_activity := fold (put_activity ci) acts (kb_activity kb)\<rparr>) d2))"
    by (rule finish_commitD [OF f])
  have tail: "xd_summaries db' = xd_summaries d2" "xd_segments db' = xd_segments d2"
    by (simp_all add: e put_state_def put_context_def on_kb_def Let_def)
  have ps: "xd_segments (put_summary nid m ver txt1 k src ch d) = xd_segments d" for nid m ver txt1 k src ch
    by (simp add: put_summary_def Let_def)
  note p1 = put_memory_early [OF m1 t n] and p2 = put_memory_early [OF m2 t n]
  have "filter (\<lambda>s. cu_chapter s < n) (xd_summaries db') = filter (\<lambda>s. cu_chapter s < n) (xd_summaries db)"
    using p1 p2 tail(1) ds put_summary_early [OF n] by simp
  moreover have "filter (\<lambda>g. mg_end g < n) (xd_segments db') = filter (\<lambda>g. mg_end g < n) (xd_segments db)"
    using p1 p2 tail(2) dg by (simp add: ps)
  moreover have "unchanged_below c (xd_kb db) (xd_kb db')" if "c < n" for c
    using commit_extraction_below [OF run k, of c] that n by simp
  moreover from this have "filter (\<lambda>a. ac_chapter a < n) (kb_activity (xd_kb db)) = filter (\<lambda>a. ac_chapter a < n) (kb_activity (xd_kb db'))"
    by (intro filter_strict) (simp add: unchanged_below_def)
  moreover have "segments_ok db'"
  proof -
    have "segments_ok d2" by (rule p2 [THEN conjunct2, THEN conjunct2, rule_format], rule p1 [THEN conjunct2, THEN conjunct2, rule_format])
      (use d_ok in \<open>simp add: segments_ok_def ps\<close>)
    then show ?thesis by (simp only: segments_ok_def tail(2))
  qed
  ultimately show ?thesis by (simp add: same_before_def unchanged_below_def)
qed

text \<open>C21: In a knowledge base whose transitions are timely, extracting a chapter leaves the context of that chapter and of every
  chapter before it as it was, whatever is extracted and whether or not the commit succeeds. So a commit never makes another pending
  extraction of an earlier chapter stale, and a chapter that is extracted again starts from the very context it was extracted under before.
  The conditions: ids in the tables lie below their sequences (\<open>grounded\<close>); every transition names only entities seen by its
  chapter and every thread update belongs to a thread introduced by then (\<open>timely\<close>); the commit is handed references to entities
  and threads visible at its chapter (\<open>supplied\<close>); a memory segment is computed no later than its last chapter
  (\<open>segments_ok\<close>); its checkpoint targets are those of its own chapter, and chapters of a part are listed in ascending order
  (\<open>meta_ok\<close>). Commits keep the first two (\<open>extraction_keeps_timely\<close>), and merges into an entity seen first keep
  timeliness (\<open>merge_keeps_timely\<close>); a merge into an entity of a later chapter, which the code accepts, breaks it
  (\<open>merge_reveals_later_name\<close>), and then the claim does not apply: a commit that promotes the name of the later entity
  can change the contexts of earlier chapters.\<close>

theorem commit_keeps_context:
  assumes "commit_codex_extraction digest rdb cdb ci cm ground rebuild threads force x db = (r, db')" "n \<le> ci_chapter ci"
    and "grounded (xd_kb db)" "timely (xd_kb db)" "supplied ci threads (xd_kb db)" "segments_ok db"
    and "cm_targets cm = shape_goals (chapter_memory_shape cfg (ci_chapter ci) meta')" "meta_ok meta'" "meta_ok meta"
  shows "build_chapter_context cf cdb2 nid n txt1 meta input db' = build_chapter_context cf cdb2 nid n txt1 meta input db"
proof (cases r)
  case (Inl e)
  then have "db' = db" using assms(1) by (auto simp: commit_codex_extraction_def atomicS_def split: prod.splits sum.splits)
  then show ?thesis by simp
next
  case (Inr b)
  then obtain text1 chunks where run:
    "commit_extraction (ci\<lparr>ci_text := text1, ci_chunks := chunks\<rparr>) cm ground rebuild threads force x db = (Inr b, db')"
    using assms(1) by (auto simp: commit_codex_extraction_def atomicS_def split: prod.splits sum.splits option.splits if_splits)
  have t: "\<forall>g \<in> set (cm_targets cm). mt_through g = ci_chapter ci \<and> mt_end g = ci_chapter ci"
    using shape_goals_end [OF assms(8)] assms(7) by metis
  have "keyed (xd_kb db)" using assms(3) by (simp add: grounded_def)
  then have "same_before n db db'" using commit_same_before [OF run _ _ assms(6)] assms(2) t by simp
  moreover have "timely (xd_kb db')" using commit_extraction_good [OF run assms(3,4)] assms(5) by (simp add: supplied_def)
  ultimately show ?thesis using build_same assms(4,9) by metis
qed

theorem commit_keeps_context_witness:
  "fst (demo_commit demo_extraction_db) = Inr False \<and>
   build_chapter_context demo_context_config demo_codex 1 3 ''Klein'' None None (snd (demo_commit demo_extraction_db)) =
   build_chapter_context demo_context_config demo_codex 1 3 ''Klein'' None None demo_extraction_db"
proof -
  have "cm_targets demo_meta = shape_goals (chapter_memory_shape demo_ks (ci_chapter demo_input)
      (Some \<lparr>me_kind = Some ''chapter'', me_part_label = None, me_part_chapters = [3]\<rparr>))"
    by (simp add: demo_meta_def shape_goals_def chapter_memory_shape_def coalesce_def Let_def or_chapter_def MEMORY_KINDS_def memory_targets_def checkpoint_width_def demo_ks_def demo_input_def)
  then show ?thesis
    using commit_keeps_context [of "\<lambda>s. s" demo_extract_reading demo_codex demo_input demo_meta Inr "\<lambda>_. []" Map.empty False demo_proposal
      demo_extraction_db "fst (demo_commit demo_extraction_db)" "snd (demo_commit demo_extraction_db)" 3 demo_ks
      "Some \<lparr>me_kind = Some ''chapter'', me_part_label = None, me_part_chapters = [3]\<rparr>" None demo_context_config demo_codex 1 "''Klein''" None] demo_commit_run(1)
    by (simp add: demo_commit_def meta_ok_def)
      (simp add: demo_commit_defs grounded_def keyed_def timely_def supplied_def known_entity_def seen_by_def segments_ok_def)
qed

end
