(* ===== verification/Codex_Grounding.thy ===== *)
theory Codex_Grounding
  imports Codex_Extraction "HOL-Library.AList"
begin

text \<open>
  The grounding of a proposal: \<open>_normalized_evidence_text\<close>, \<open>_evidence_anchor_issues\<close>, \<open>_verified_anchor_span\<close>,
  \<open>_repair_verified_evidence_issues\<close>, \<open>_quarantine_evidence_issues\<close> and \<open>_marked_chunk_texts\<close> of
  \<open>modules/codex/adapters/outbound/ingest/extract.py\<close>, and the commit with them. A claim carries a verbatim anchor; the host
  checks that the words of the anchor occur in one of the chunks the claim cites. \<open>unicodedata.normalize("NFKC", _)\<close>, which leaves the
  range of code points of the model, is the argument \<open>nf\<close>. Warnings, which are only logged, are left out.
\<close>

section \<open>The words of a text\<close>

definition is_backtick :: "char \<Rightarrow> bool" where
  "is_backtick c \<longleftrightarrow> c = CHR 0x60"

definition plain_apostrophes :: "string \<Rightarrow> string" where
  "plain_apostrophes s = map (\<lambda>c. if is_backtick c then CHR 0x27 else c) s"

text \<open>
  \<open>_EVIDENCE_WORD_RE.finditer\<close>: maximal runs of letters and digits, joined by single apostrophes, with their offsets; \<open>cur\<close> is the word
  being read and \<open>k\<close> the offset of the next character.
\<close>

fun word_spans :: "nat \<Rightarrow> string \<Rightarrow> string \<Rightarrow> (string \<times> nat \<times> nat) list" where
  "word_spans k cur [] = (if cur = [] then [] else [(cur, k - length cur, k)])"
| "word_spans k cur (c # cs) =
     (if is_py_alnum c \<or> (c = CHR 0x27 \<and> cur \<noteq> [] \<and> cs \<noteq> [] \<and> is_py_alnum (hd cs)) then word_spans (k + 1) (cur @ [c]) cs
      else (if cur = [] then [] else [(cur, k - length cur, k)]) @ word_spans (k + 1) [] cs)"

definition evidence_words :: "(string \<Rightarrow> string) \<Rightarrow> string \<Rightarrow> string list" where
  "evidence_words nf s = map fst (word_spans 0 [] (plain_apostrophes (py_casefold (nf s))))"

definition normalized_evidence_text :: "(string \<Rightarrow> string) \<Rightarrow> string \<Rightarrow> string" where
  "normalized_evidence_text nf s =
     (let tokens = evidence_words nf s in if tokens = [] then [] else '' '' @ py_join '' '' tokens @ '' '')"

definition source_evidence_tokens :: "(string \<Rightarrow> string) \<Rightarrow> string \<Rightarrow> (string \<times> nat \<times> nat) list" where
  "source_evidence_tokens nf s =
     filter (\<lambda>t. fst t \<noteq> []) (map (\<lambda>(w, a, b). (py_strip (normalized_evidence_text nf w), a, b)) (word_spans 0 [] (plain_apostrophes s)))"

section \<open>The anchors of a proposal\<close>

definition EVIDENCE_ANCHOR_GROUPS :: "string list" where
  "EVIDENCE_ANCHOR_GROUPS = [''facts'', ''relationships'', ''events'', ''identity_reveals'', ''new_aliases'', ''state_changes'',
     ''relationship_state_changes'', ''thread_updates'']"

text \<open>The claims of a group: anchor and cited chunks.\<close>

definition claims_of :: "extraction \<Rightarrow> string \<Rightarrow> (string option \<times> int list) list" where
  "claims_of x g =
     (if g = ''facts'' then map (\<lambda>i. (xf_evidence i, xf_chunks i)) (x_facts x)
      else if g = ''relationships'' then map (\<lambda>i. (xr_evidence i, xr_chunks i)) (x_relationships x)
      else if g = ''events'' then map (\<lambda>i. (xe_evidence i, xe_chunks i)) (x_events x)
      else if g = ''identity_reveals'' then map (\<lambda>i. (xi_evidence i, xi_chunks i)) (x_reveals x)
      else if g = ''new_aliases'' then map (\<lambda>i. (xa_evidence i, xa_chunks i)) (x_aliases x)
      else if g = ''state_changes'' then map (\<lambda>i. (xs_evidence i, xs_chunks i)) (x_states x)
      else if g = ''relationship_state_changes'' then map (\<lambda>i. (xt_evidence i, xt_chunks i)) (x_relation_states x)
      else if g = ''thread_updates'' then map (\<lambda>i. (xu_evidence i, xu_chunks i)) (x_threads x)
      else [])"

text \<open>The texts of the chunks, by id.\<close>

type_synonym chunk_texts = "(int \<times> string) list"

definition anchor_reason :: "(string \<Rightarrow> string) \<Rightarrow> chunk_texts \<Rightarrow> string option \<times> int list \<Rightarrow> string" where
  "anchor_reason nf texts claim =
     (let evidence = normalized_evidence_text nf (coalesce (fst claim) []);
          chunk = (\<lambda>c. case map_of texts c of None \<Rightarrow> [] | Some t \<Rightarrow> normalized_evidence_text nf t)
      in if evidence = [] then ''missing_evidence_text''
         else if \<not> (\<exists>c \<in> set (snd claim). py_in evidence (chunk c)) then ''evidence_not_in_cited_chunks''
         else [])"

type_synonym anchor_issue = "string \<times> nat \<times> string"

definition evidence_anchor_issues :: "(string \<Rightarrow> string) \<Rightarrow> chunk_texts \<Rightarrow> extraction \<Rightarrow> anchor_issue list" where
  "evidence_anchor_issues nf texts x =
     concat (map (\<lambda>g. map (\<lambda>(i, c). (g, i, anchor_reason nf texts c))
       (filter (\<lambda>ic. anchor_reason nf texts (snd ic) \<noteq> []) (enumerate 0 (claims_of x g)))) EVIDENCE_ANCHOR_GROUPS)"

definition validate_citation_locality :: "(string \<Rightarrow> string) \<Rightarrow> chunk_texts \<Rightarrow> extraction \<Rightarrow> unit result" where
  "validate_citation_locality nf texts x =
     (case evidence_anchor_issues nf texts x of
        [] \<Rightarrow> Inr ()
      | (g, i, why) # _ \<Rightarrow> Inl (ValueError (g @ ''['' @ show_nat i @ ''] has '' @ why)))"

section \<open>Quarantine\<close>

text \<open>A group without the claims at the given positions.\<close>

definition without :: "(string \<times> nat) set \<Rightarrow> string \<Rightarrow> 'x list \<Rightarrow> 'x list" where
  "without locs g xs = map snd (filter (\<lambda>ix. (g, fst ix) \<notin> locs) (enumerate 0 xs))"

definition removed_pairs :: "(string \<times> nat) set \<Rightarrow> x_reveal list \<Rightarrow> string set list" where
  "removed_pairs locs rs = map (\<lambda>(_, r). {xi_persona r, xi_true r}) (filter (\<lambda>ix. (''identity_reveals'', fst ix) \<in> locs) (enumerate 0 rs))"

definition depends_on :: "string set list \<Rightarrow> x_state \<Rightarrow> bool" where
  "depends_on pairs s \<longleftrightarrow> xs_key s = ''identity'' \<and> coalesce (xs_value_ref s) [] \<noteq> [] \<and> {xs_ref s, coalesce (xs_value_ref s) []} \<in> set pairs"

definition drop_claims :: "(string \<times> nat) set \<Rightarrow> extraction \<Rightarrow> extraction" where
  "drop_claims locs x = x\<lparr>
     x_facts := without locs ''facts'' (x_facts x),
     x_relationships := without locs ''relationships'' (x_relationships x),
     x_events := without locs ''events'' (x_events x),
     x_reveals := without locs ''identity_reveals'' (x_reveals x),
     x_aliases := without locs ''new_aliases'' (x_aliases x),
     x_states := without locs ''state_changes'' (x_states x),
     x_relation_states := without locs ''relationship_state_changes'' (x_relation_states x),
     x_threads := without locs ''thread_updates'' (x_threads x)\<rparr>"

definition claim_count :: "extraction \<Rightarrow> nat" where
  "claim_count x = sum_list (map (\<lambda>g. length (claims_of x g)) EVIDENCE_ANCHOR_GROUPS)"

text \<open>A few bad claims are dropped; a proposal that is badly grounded throughout is rejected, so that the chapter is extracted again.\<close>

definition too_broad :: "nat \<Rightarrow> nat \<Rightarrow> bool" where
  "too_broad bad n \<longleftrightarrow> bad > 1 \<and> (bad > 3 \<or> (of_nat bad :: rat) / of_nat (max 1 n) \<ge> 40 / 100)"

definition quarantine_evidence_issues :: "anchor_issue list \<Rightarrow> extraction \<Rightarrow> extraction result" where
  "quarantine_evidence_issues issues x =
     (let locs = (\<lambda>(g, i, _). (g, i)) ` set issues in
      if locs = {} then Inr x
      else if too_broad (card locs) (claim_count x)
      then Inl (ValueError ''evidence-anchor failures exceeded the safe item-level recovery threshold'')
      else let pairs = removed_pairs locs (x_reveals x); y = drop_claims locs x in
        Inr (y\<lparr>x_states := filter (\<lambda>s. \<not> depends_on pairs s) (x_states y)\<rparr>))"

definition ground_evidence :: "(string \<Rightarrow> string) \<Rightarrow> chunk_texts \<Rightarrow> extraction \<Rightarrow> extraction result" where
  "ground_evidence nf texts x = quarantine_evidence_issues (evidence_anchor_issues nf texts x) x"

section \<open>Repairing verified anchors\<close>

text \<open>The first occurrence of the words in order, as positions; the first word is at the start.\<close>

fun match_words :: "string list \<Rightarrow> nat \<Rightarrow> string list \<Rightarrow> nat list option" where
  "match_words [] k ts = Some []"
| "match_words (e # es) k [] = None"
| "match_words (e # es) k (t # ts) =
     (if t = e then map_option ((#) k) (match_words es (k + 1) ts) else match_words (e # es) (k + 1) ts)"

definition max_gap :: "nat list \<Rightarrow> nat" where
  "max_gap ps = foldr max (map (\<lambda>(a, b). b - a - 1) (zip ps (tl ps))) 0"

definition anchor_candidates :: "string list \<Rightarrow> (string \<times> nat \<times> nat) list \<Rightarrow> (nat \<times> nat \<times> nat \<times> nat) list" where
  "anchor_candidates ev toks =
     List.map_filter (\<lambda>start.
       if fst (toks ! start) \<noteq> hd ev then None
       else case match_words ev start (map fst (drop start toks)) of
         None \<Rightarrow> None
       | Some ps \<Rightarrow>
           let width = last ps - hd ps + 1; inserted = width - length ps;
               a = fst (snd (toks ! hd ps)); b = snd (snd (toks ! last ps))
           in if inserted > 32 \<or> max_gap ps > 24 \<or> width > length ev * 3 \<or> b - a > 1200 then None
              else Some (inserted, b - a, a, b)) [0..<length toks]"

definition verified_anchor_span :: "(string \<Rightarrow> string) \<Rightarrow> string \<Rightarrow> string \<Rightarrow> (string \<times> nat) option" where
  "verified_anchor_span nf evidence source =
     (let ev = py_split (py_strip (normalized_evidence_text nf evidence)) in
      if length ev < 6 then None
      else map_option (\<lambda>(inserted, _, a, b). (take (b - a) (drop a source), inserted))
        (sql_first (\<lambda>c. c) (anchor_candidates ev (source_evidence_tokens nf source))))"

definition set_claim :: "string \<Rightarrow> nat \<Rightarrow> string option \<Rightarrow> int list \<Rightarrow> extraction \<Rightarrow> extraction" where
  "set_claim g i e cs x =
     (if g = ''facts'' then x\<lparr>x_facts := (x_facts x)[i := (x_facts x ! i)\<lparr>xf_evidence := e, xf_chunks := cs\<rparr>]\<rparr>
      else if g = ''relationships'' then x\<lparr>x_relationships := (x_relationships x)[i := (x_relationships x ! i)\<lparr>xr_evidence := e, xr_chunks := cs\<rparr>]\<rparr>
      else if g = ''events'' then x\<lparr>x_events := (x_events x)[i := (x_events x ! i)\<lparr>xe_evidence := e, xe_chunks := cs\<rparr>]\<rparr>
      else if g = ''identity_reveals'' then x\<lparr>x_reveals := (x_reveals x)[i := (x_reveals x ! i)\<lparr>xi_evidence := e, xi_chunks := cs\<rparr>]\<rparr>
      else if g = ''new_aliases'' then x\<lparr>x_aliases := (x_aliases x)[i := (x_aliases x ! i)\<lparr>xa_evidence := e, xa_chunks := cs\<rparr>]\<rparr>
      else if g = ''state_changes'' then x\<lparr>x_states := (x_states x)[i := (x_states x ! i)\<lparr>xs_evidence := e, xs_chunks := cs\<rparr>]\<rparr>
      else if g = ''relationship_state_changes''
      then x\<lparr>x_relation_states := (x_relation_states x)[i := (x_relation_states x ! i)\<lparr>xt_evidence := e, xt_chunks := cs\<rparr>]\<rparr>
      else if g = ''thread_updates'' then x\<lparr>x_threads := (x_threads x)[i := (x_threads x ! i)\<lparr>xu_evidence := e, xu_chunks := cs\<rparr>]\<rparr>
      else x)"

definition nearest_exact :: "int list \<Rightarrow> int list \<Rightarrow> int option" where
  "nearest_exact cited exact =
     sql_first (\<lambda>c. (if cited = [] then 0 else Min ((\<lambda>d. \<bar>c - d\<bar>) ` set cited), c)) exact"

definition restored_anchor :: "(string \<Rightarrow> string) \<Rightarrow> chunk_texts \<Rightarrow> string \<Rightarrow> int list \<Rightarrow> (nat \<times> nat \<times> int \<times> string) option" where
  "restored_anchor nf texts evidence cited =
     sql_first (\<lambda>(r, k, c, s). (r, k, c, map (of_char :: char \<Rightarrow> nat) s)) (List.map_filter (\<lambda>(c, t).
       map_option (\<lambda>(s, k). (if c \<in> set cited then 0 else 1, k, c, s)) (verified_anchor_span nf evidence t)) texts)"

definition repair_issue :: "(string \<Rightarrow> string) \<Rightarrow> chunk_texts \<Rightarrow> anchor_issue \<Rightarrow> extraction \<Rightarrow> extraction" where
  "repair_issue nf texts issue x =
     (let g = fst issue; i = fst (snd issue) in
      if i \<ge> length (claims_of x g) then x
      else let e = fst (claims_of x g ! i); cited = snd (claims_of x g ! i); ev = normalized_evidence_text nf (coalesce e []) in
        if ev = [] then x
        else case nearest_exact cited (map fst (filter (\<lambda>ct. py_in ev (normalized_evidence_text nf (snd ct))) texts)) of
          Some c \<Rightarrow> set_claim g i e [c] x
        | None \<Rightarrow> (case restored_anchor nf texts (coalesce e []) cited of
            None \<Rightarrow> x
          | Some (r, k, c, s) \<Rightarrow> set_claim g i (Some s) [c] x))"

definition repair_verified_evidence_issues :: "(string \<Rightarrow> string) \<Rightarrow> chunk_texts \<Rightarrow> anchor_issue list \<Rightarrow> extraction \<Rightarrow> extraction" where
  "repair_verified_evidence_issues nf texts issues x = fold (repair_issue nf texts) issues x"

text \<open>
  The treatment of a proposal under the policy \<open>verified\<close>: repair what can be repaired, then quarantine what is left; without chunks there
  is nothing to check against.
\<close>

definition ground_verified :: "(string \<Rightarrow> string) \<Rightarrow> chunk_texts \<Rightarrow> extraction \<Rightarrow> extraction result" where
  "ground_verified nf texts x =
     (if texts = [] then Inr x
      else ground_evidence nf texts (repair_verified_evidence_issues nf texts (evidence_anchor_issues nf texts x) x))"

section \<open>The marked text of a chapter\<close>

text \<open>The lines of a text with their line breaks.\<close>

fun split_lines :: "string \<Rightarrow> string list" where
  "split_lines [] = []"
| "split_lines (c # cs) =
     (if c = CHR 0x0A then [c] # split_lines cs
      else case split_lines cs of [] \<Rightarrow> [[c]] | l # ls \<Rightarrow> (c # l) # ls)"

text \<open>A whole line \<open>[chunk N]\<close>, as \<open>(?m)^\[chunk ([1-9][0-9]*)\]\n\<close> finds them.\<close>

definition marker_of :: "string \<Rightarrow> int option" where
  "marker_of l =
     (let ds = take (length l - 9) (drop 7 l) in
      if l = ''[chunk '' @ ds @ '']'' @ [CHR 0x0A] \<and> ds \<noteq> [] \<and> hd ds \<noteq> CHR ''0'' \<and> list_all is_digit ds then Some (digits_value ds) else None)"

fun sections :: "(int \<times> string) option \<Rightarrow> string list \<Rightarrow> (int \<times> string) list" where
  "sections cur [] = (case cur of None \<Rightarrow> [] | Some (i, t) \<Rightarrow> [(i, py_strip t)])"
| "sections cur (l # ls) =
     (case marker_of l of
        Some i \<Rightarrow> sections cur [] @ sections (Some (i, [])) ls
      | None \<Rightarrow> sections (map_option (\<lambda>(i, t). (i, t @ l)) cur) ls)"

definition marked_chunk_texts :: "string \<Rightarrow> chunk_texts" where
  "marked_chunk_texts s = fold (\<lambda>(i, t). AList.update i t) (sections None (split_lines s)) []"

definition mark_chunks :: "(int \<times> string) list \<Rightarrow> string" where
  "mark_chunks cs = py_join [CHR 0x0A, CHR 0x0A] (map (\<lambda>(i, t). ''[chunk '' @ show_int i @ '']'' @ [CHR 0x0A] @ t) cs)"

definition load_chapter_chunks :: "int \<Rightarrow> rat \<Rightarrow> codex_db \<Rightarrow> (int \<times> string) list" where
  "load_chapter_chunks nid n cdb = map (\<lambda>r. (ck_id r, ck_text r)) (sort_key ck_index (filter (in_chapter nid n) (cx_chunks cdb)))"

definition chapter_texts :: "int \<Rightarrow> rat \<Rightarrow> codex_db \<Rightarrow> chunk_texts" where
  "chapter_texts nid n cdb = marked_chunk_texts (mark_chunks (load_chapter_chunks nid n cdb))"

text \<open>The commit with its gate: the anchors are checked against the chunks of the chapter as they are stored.\<close>

definition commit_grounded ::
  "(string \<Rightarrow> string) \<Rightarrow> (string \<Rightarrow> string) \<Rightarrow> reading_db \<Rightarrow> codex_db \<Rightarrow> commit_input \<Rightarrow> commit_meta \<Rightarrow>
   (extraction_db \<Rightarrow> string) \<Rightarrow> (string \<rightharpoonup> int) \<Rightarrow> bool \<Rightarrow> extraction \<Rightarrow> (extraction_db, bool) op" where
  "commit_grounded nf digest rdb cdb ci cm =
     commit_codex_extraction digest rdb cdb ci cm
       (ground_evidence nf (chapter_texts (ci_novel ci) (ci_chapter ci) cdb))"

end
