(* ===== verification/Codex_Grounding_Safe.thy ===== *)
theory Codex_Grounding_Safe
  imports Codex_Grounding "HOL-Library.Sublist"
begin

text \<open>
  What the grounding of \<open>Codex_Grounding\<close> guarantees: the gate drops exactly the ungrounded claims or rejects the proposal, what a commit
  stores comes from grounded claims, a repaired anchor is a slice of the source, and the chunk markers can be read back.
\<close>

section \<open>What is accepted is grounded\<close>

text \<open>The words of a text, padded: an infix of the padded text is a run of its words.\<close>

definition padded :: "string list \<Rightarrow> string" where
  "padded ws = concat (map (\<lambda>w. CHR '' '' # w) ws) @ '' ''"

definition spaceless :: "string list \<Rightarrow> bool" where
  "spaceless ws \<longleftrightarrow> (\<forall>w \<in> set ws. CHR '' '' \<notin> set w)"

lemma padded_Cons: "padded (w # ws) = CHR '' '' # w @ padded ws"
  by (simp add: padded_def)

lemma padded_join: "ws \<noteq> [] \<Longrightarrow> CHR '' '' # py_join '' '' ws @ '' '' = padded ws"
proof (induction ws)
  case (Cons w ws)
  then show ?case by (cases ws) (simp_all add: padded_Cons padded_def)
qed simp

lemma padded_space: "\<exists>t. padded ws = CHR '' '' # t"
  by (cases ws) (simp_all add: padded_def)

lemma same_word:
  assumes "v @ CHR '' '' # a = w @ CHR '' '' # b" "CHR '' '' \<notin> set v" "CHR '' '' \<notin> set w"
  shows "v = w \<and> a = b"
  using assms
proof (induction v arbitrary: w)
  case Nil
  then show ?case by (cases w) auto
next
  case (Cons c v)
  then show ?case by (cases w) auto
qed

lemma padded_prefix:
  assumes "padded us @ b = padded ws" "spaceless us" "spaceless ws"
  shows "\<exists>vs. ws = us @ vs"
  using assms
proof (induction us arbitrary: ws)
  case (Cons u us)
  obtain w vs where ws: "ws = w # vs"
  proof (cases ws)
    case Nil
    then show ?thesis using Cons.prems(1) padded_space [of us] by (auto simp: padded_Cons) (simp add: padded_def)
  qed
  obtain s where s: "padded us = CHR '' '' # s" using padded_space by blast
  obtain t where t: "padded vs = CHR '' '' # t" using padded_space by blast
  have "u @ CHR '' '' # (s @ b) = w @ CHR '' '' # t" using Cons.prems(1) by (simp add: ws padded_Cons s t)
  then have "u = w \<and> s @ b = t" by (rule same_word) (use Cons.prems in \<open>simp_all add: ws spaceless_def\<close>)
  then have "padded us @ b = padded vs" "u = w" by (simp_all add: s t)
  then show ?case using Cons.IH [of vs] Cons.prems(2,3) by (simp add: ws spaceless_def)
qed simp

lemma padded_infix:
  assumes "a @ padded us @ b = padded ws" "spaceless us" "spaceless ws" "us \<noteq> []"
  shows "sublist us ws"
  using assms
proof (induction ws arbitrary: a)
  case Nil
  obtain u vs where "us = u # vs" using Nil.prems(4) by (cases us) auto
  then have "length (a @ padded us @ b) > 1" using padded_space [of vs] by (auto simp: padded_Cons)
  then show ?case unfolding Nil.prems(1) by (simp add: padded_def)
next
  case (Cons w ws)
  show ?case
  proof (cases a)
    case Nil
    then show ?thesis using padded_prefix [of us b "w # ws"] Cons.prems by auto
  next
    case (Cons c cs)
    have e: "cs @ padded us @ b = w @ padded ws" using Cons.prems(1) by (simp add: Cons padded_Cons)
    obtain s where s: "padded us = CHR '' '' # s" using padded_space by blast
    have "length w \<le> length cs"
    proof (rule ccontr)
      assume l: "\<not> length w \<le> length cs"
      then have "(cs @ padded us @ b) ! length cs = w ! length cs" unfolding e by (simp add: nth_append)
      then have "CHR '' '' \<in> set w" using l by (simp add: s nth_append)
      then show False using Cons.prems(3) by (simp add: spaceless_def)
    qed
    then obtain ds where "cs = w @ ds" using e by (metis append_eq_append_conv_if append_take_drop_id)
    then have "ds @ padded us @ b = padded ws" using e by simp
    then show ?thesis using Cons.IH Cons.prems by (auto simp: spaceless_def sublist_Cons_right)
  qed
qed

lemma word_spans_spaceless:
  "CHR '' '' \<notin> set cur \<Longrightarrow> \<forall>t \<in> set (word_spans k cur s). CHR '' '' \<notin> set (fst t)"
proof (induction k cur s rule: word_spans.induct)
  case (2 k cur c cs)
  have "\<not> is_py_alnum (CHR '' '')" by (simp add: is_py_alnum_def)
  then have "is_py_alnum c \<Longrightarrow> c \<noteq> CHR '' ''" by metis
  then have "CHR '' '' \<notin> set (cur @ [c])" if "is_py_alnum c \<or> c = CHR 0x27" using that 2(3) by auto
  then show ?case using 2 by (cases "is_py_alnum c \<or> (c = CHR 0x27 \<and> cur \<noteq> [] \<and> cs \<noteq> [] \<and> is_py_alnum (hd cs))") auto
qed auto

lemma evidence_words_spaceless: "spaceless (evidence_words nf s)"
  using word_spans_spaceless [of "[]"] by (auto simp: spaceless_def evidence_words_def)

text \<open>An anchor is grounded in a claim's chunks: its words occur there as they stand.\<close>

definition anchored :: "(string \<Rightarrow> string) \<Rightarrow> chunk_texts \<Rightarrow> string option \<Rightarrow> int list \<Rightarrow> bool" where
  "anchored nf texts e cs \<longleftrightarrow> evidence_words nf (coalesce e []) \<noteq> [] \<and>
     (\<exists>c \<in> set cs. \<exists>t. map_of texts c = Some t \<and> sublist (evidence_words nf (coalesce e [])) (evidence_words nf t))"

lemma normalized_Nil: "normalized_evidence_text nf s = [] \<longleftrightarrow> evidence_words nf s = []"
  by (simp add: normalized_evidence_text_def Let_def)

lemma normalized_in:
  assumes "evidence_words nf e \<noteq> []"
  shows "py_in (normalized_evidence_text nf e) (normalized_evidence_text nf t) \<longleftrightarrow> sublist (evidence_words nf e) (evidence_words nf t)"
proof
  assume i: "py_in (normalized_evidence_text nf e) (normalized_evidence_text nf t)"
  have ne: "normalized_evidence_text nf e = padded (evidence_words nf e)"
    using assms by (simp add: normalized_evidence_text_def Let_def padded_join)
  show "sublist (evidence_words nf e) (evidence_words nf t)"
  proof (cases "evidence_words nf t = []")
    case True
    then show ?thesis using i assms normalized_Nil [of nf e] by (auto simp: py_in_iff normalized_evidence_text_def Let_def)
  next
    case False
    then have "normalized_evidence_text nf t = padded (evidence_words nf t)" by (simp add: normalized_evidence_text_def Let_def padded_join)
    then obtain a b where "a @ padded (evidence_words nf e) @ b = padded (evidence_words nf t)" using i unfolding py_in_iff ne by metis
    then show ?thesis using padded_infix evidence_words_spaceless assms by blast
  qed
next
  assume "sublist (evidence_words nf e) (evidence_words nf t)"
  then obtain us vs where t: "evidence_words nf t = us @ evidence_words nf e @ vs" by (auto simp: sublist_def)
  have "padded (us @ evidence_words nf e @ vs) = concat (map (\<lambda>w. CHR '' '' # w) us) @ padded (evidence_words nf e) @ drop 1 (padded vs)"
    using padded_space [of vs] by (cases vs) (auto simp: padded_def)
  then show "py_in (normalized_evidence_text nf e) (normalized_evidence_text nf t)"
    using assms t by (auto simp: py_in_iff normalized_evidence_text_def Let_def padded_join)
qed

lemma anchor_reason_iff: "anchor_reason nf texts (e, cs) = [] \<longleftrightarrow> anchored nf texts e cs"
proof (cases "evidence_words nf (coalesce e []) = []")
  case True
  then show ?thesis by (simp add: anchor_reason_def anchored_def normalized_Nil Let_def)
next
  case False
  let ?ev = "normalized_evidence_text nf (coalesce e [])"
  have ne: "?ev \<noteq> []" using False by (simp add: normalized_Nil)
  have "py_in ?ev [] = False" using ne by (simp add: py_in_iff)
  then have "py_in ?ev (case map_of texts c of None \<Rightarrow> [] | Some t \<Rightarrow> normalized_evidence_text nf t) \<longleftrightarrow>
    (\<exists>t. map_of texts c = Some t \<and> sublist (evidence_words nf (coalesce e [])) (evidence_words nf t))" for c
    by (cases "map_of texts c") (simp_all add: normalized_in [OF False])
  then show ?thesis using False ne by (simp add: anchor_reason_def anchored_def Let_def)
qed

lemma anchor_issues_locs:
  "(\<lambda>(g, i, _). (g, i)) ` set (evidence_anchor_issues nf texts x) =
   {(g, i). g \<in> set EVIDENCE_ANCHOR_GROUPS \<and> i < length (claims_of x g) \<and> anchor_reason nf texts (claims_of x g ! i) \<noteq> []}" (is "?l = ?r")
proof -
  have "p \<in> ?l \<longleftrightarrow> p \<in> ?r" for p
  proof -
    obtain g i where p: "p = (g, i)" by (cases p)
    have "p \<in> ?l \<longleftrightarrow> g \<in> set EVIDENCE_ANCHOR_GROUPS \<and> (\<exists>c. (i, c) \<in> set (enumerate 0 (claims_of x g)) \<and> anchor_reason nf texts c \<noteq> [])"
      by (force simp: p evidence_anchor_issues_def)
    then show ?thesis by (auto simp: p in_set_enumerate_eq)
  qed
  then show ?thesis by blast
qed

lemma filter_enumerate:
  assumes "\<And>i. i < length xs \<Longrightarrow> p i \<longleftrightarrow> q (xs ! i)"
  shows "map snd (filter (\<lambda>ix. p (fst ix)) (enumerate 0 xs)) = filter q xs"
proof -
  have "filter (\<lambda>ix. p (fst ix)) (enumerate 0 xs) = filter (q \<circ> snd) (enumerate 0 xs)"
    by (rule filter_cong [OF refl]) (auto simp: in_set_enumerate_eq assms)
  then show ?thesis by (simp add: filter_map [symmetric])
qed

lemma without_filter:
  assumes "\<And>i. i < length xs \<Longrightarrow> (g, i) \<in> locs \<longleftrightarrow> \<not> q (xs ! i)"
  shows "without locs g xs = filter q xs"
  unfolding without_def by (rule filter_enumerate) (simp add: assms)

lemma removed_pairs_filter:
  assumes "\<And>i. i < length xs \<Longrightarrow> (''identity_reveals'', i) \<in> locs \<longleftrightarrow> q (xs ! i)"
  shows "removed_pairs locs xs = map (\<lambda>r. {xi_persona r, xi_true r}) (filter q xs)"
proof -
  have "removed_pairs locs xs = map (\<lambda>r. {xi_persona r, xi_true r}) (map snd (filter (\<lambda>ix. (''identity_reveals'', fst ix) \<in> locs) (enumerate 0 xs)))"
    by (simp add: removed_pairs_def split_beta comp_def)
  then show ?thesis by (simp only: filter_enumerate [of xs "\<lambda>i. (''identity_reveals'', i) \<in> locs" q, OF assms])
qed

definition fact_ok :: "(string \<Rightarrow> string) \<Rightarrow> chunk_texts \<Rightarrow> x_fact \<Rightarrow> bool" where
  "fact_ok nf texts i = anchored nf texts (xf_evidence i) (xf_chunks i)"

definition relationship_ok :: "(string \<Rightarrow> string) \<Rightarrow> chunk_texts \<Rightarrow> x_relationship \<Rightarrow> bool" where
  "relationship_ok nf texts i = anchored nf texts (xr_evidence i) (xr_chunks i)"

definition event_ok :: "(string \<Rightarrow> string) \<Rightarrow> chunk_texts \<Rightarrow> x_event \<Rightarrow> bool" where
  "event_ok nf texts i = anchored nf texts (xe_evidence i) (xe_chunks i)"

definition reveal_ok :: "(string \<Rightarrow> string) \<Rightarrow> chunk_texts \<Rightarrow> x_reveal \<Rightarrow> bool" where
  "reveal_ok nf texts i = anchored nf texts (xi_evidence i) (xi_chunks i)"

definition alias_ok :: "(string \<Rightarrow> string) \<Rightarrow> chunk_texts \<Rightarrow> x_alias \<Rightarrow> bool" where
  "alias_ok nf texts i = anchored nf texts (xa_evidence i) (xa_chunks i)"

definition state_claim_ok :: "(string \<Rightarrow> string) \<Rightarrow> chunk_texts \<Rightarrow> x_state \<Rightarrow> bool" where
  "state_claim_ok nf texts i = anchored nf texts (xs_evidence i) (xs_chunks i)"

definition relation_ok :: "(string \<Rightarrow> string) \<Rightarrow> chunk_texts \<Rightarrow> x_relation_state \<Rightarrow> bool" where
  "relation_ok nf texts i = anchored nf texts (xt_evidence i) (xt_chunks i)"

definition thread_ok :: "(string \<Rightarrow> string) \<Rightarrow> chunk_texts \<Rightarrow> x_thread \<Rightarrow> bool" where
  "thread_ok nf texts i = anchored nf texts (xu_evidence i) (xu_chunks i)"

lemmas claim_ok_defs = fact_ok_def relationship_ok_def event_ok_def reveal_ok_def alias_ok_def state_claim_ok_def relation_ok_def thread_ok_def

text \<open>An identity state change that rests on a reveal that was dropped.\<close>

definition orphaned :: "(string \<Rightarrow> string) \<Rightarrow> chunk_texts \<Rightarrow> extraction \<Rightarrow> x_state \<Rightarrow> bool" where
  "orphaned nf texts x s \<longleftrightarrow> xs_key s = ''identity'' \<and> coalesce (xs_value_ref s) [] \<noteq> [] \<and>
     (\<exists>r \<in> set (x_reveals x). \<not> reveal_ok nf texts r \<and> {xs_ref s, coalesce (xs_value_ref s) []} = {xi_persona r, xi_true r})"

definition grounded_part :: "(string \<Rightarrow> string) \<Rightarrow> chunk_texts \<Rightarrow> extraction \<Rightarrow> extraction" where
  "grounded_part nf texts x = x\<lparr>
     x_facts := filter (fact_ok nf texts) (x_facts x), x_relationships := filter (relationship_ok nf texts) (x_relationships x),
     x_events := filter (event_ok nf texts) (x_events x), x_reveals := filter (reveal_ok nf texts) (x_reveals x),
     x_aliases := filter (alias_ok nf texts) (x_aliases x),
     x_states := filter (\<lambda>s. \<not> orphaned nf texts x s) (filter (state_claim_ok nf texts) (x_states x)),
     x_relation_states := filter (relation_ok nf texts) (x_relation_states x), x_threads := filter (thread_ok nf texts) (x_threads x)\<rparr>"

definition ungrounded :: "(string \<Rightarrow> string) \<Rightarrow> chunk_texts \<Rightarrow> extraction \<Rightarrow> nat" where
  "ungrounded nf texts x = sum_list (map (\<lambda>g. length (filter (\<lambda>(e, cs). \<not> anchored nf texts e cs) (claims_of x g))) EVIDENCE_ANCHOR_GROUPS)"

lemma drop_claims_grounded:
  assumes "locs = {(g, i). g \<in> set EVIDENCE_ANCHOR_GROUPS \<and> i < length (claims_of x g) \<and> anchor_reason nf texts (claims_of x g ! i) \<noteq> []}"
  shows "(drop_claims locs x)\<lparr>x_states := filter (\<lambda>s. \<not> depends_on (removed_pairs locs (x_reveals x)) s) (x_states (drop_claims locs x))\<rparr> =
    grounded_part nf texts x"
proof -
  have w: "without locs ''facts'' (x_facts x) = filter (fact_ok nf texts) (x_facts x)"
    "without locs ''relationships'' (x_relationships x) = filter (relationship_ok nf texts) (x_relationships x)"
    "without locs ''events'' (x_events x) = filter (event_ok nf texts) (x_events x)"
    "without locs ''identity_reveals'' (x_reveals x) = filter (reveal_ok nf texts) (x_reveals x)"
    "without locs ''new_aliases'' (x_aliases x) = filter (alias_ok nf texts) (x_aliases x)"
    "without locs ''state_changes'' (x_states x) = filter (state_claim_ok nf texts) (x_states x)"
    "without locs ''relationship_state_changes'' (x_relation_states x) = filter (relation_ok nf texts) (x_relation_states x)"
    "without locs ''thread_updates'' (x_threads x) = filter (thread_ok nf texts) (x_threads x)"
    by (rule without_filter; simp add: assms EVIDENCE_ANCHOR_GROUPS_def claims_of_def anchor_reason_iff claim_ok_defs)+
  have "removed_pairs locs (x_reveals x) = map (\<lambda>r. {xi_persona r, xi_true r}) (filter (\<lambda>r. \<not> reveal_ok nf texts r) (x_reveals x))"
    by (rule removed_pairs_filter) (simp add: assms EVIDENCE_ANCHOR_GROUPS_def claims_of_def anchor_reason_iff claim_ok_defs)
  then have "depends_on (removed_pairs locs (x_reveals x)) = orphaned nf texts x"
    by (intro ext) (auto simp: depends_on_def orphaned_def)
  then show ?thesis by (simp add: drop_claims_def grounded_part_def w)
qed

lemma card_ungrounded:
  "card {(g, i). g \<in> set EVIDENCE_ANCHOR_GROUPS \<and> i < length (claims_of x g) \<and> anchor_reason nf texts (claims_of x g ! i) \<noteq> []} = ungrounded nf texts x"
proof -
  let ?I = "\<lambda>g. {i. i < length (claims_of x g) \<and> anchor_reason nf texts (claims_of x g ! i) \<noteq> []}"
  have "{(g, i). g \<in> set EVIDENCE_ANCHOR_GROUPS \<and> i < length (claims_of x g) \<and> anchor_reason nf texts (claims_of x g ! i) \<noteq> []} =
    (SIGMA g:set EVIDENCE_ANCHOR_GROUPS. ?I g)" by auto
  then have "card {(g, i). g \<in> set EVIDENCE_ANCHOR_GROUPS \<and> i < length (claims_of x g) \<and> anchor_reason nf texts (claims_of x g ! i) \<noteq> []} =
    (\<Sum>g \<in> set EVIDENCE_ANCHOR_GROUPS. card (?I g))" by simp
  also have "\<dots> = (\<Sum>g \<in> set EVIDENCE_ANCHOR_GROUPS. length (filter (\<lambda>(e, cs). \<not> anchored nf texts e cs) (claims_of x g)))"
    by (rule sum.cong [OF refl]) (simp add: length_filter_conv_card split_beta anchor_reason_iff [symmetric])
  also have "\<dots> = ungrounded nf texts x"
    unfolding ungrounded_def by (rule sum.distinct_set_conv_list) (simp add: EVIDENCE_ANCHOR_GROUPS_def)
  finally show ?thesis .
qed

lemma ground_evidence_eq:
  "ground_evidence nf texts x =
     (if too_broad (ungrounded nf texts x) (claim_count x)
      then Inl (ValueError ''evidence-anchor failures exceeded the safe item-level recovery threshold'')
      else Inr (grounded_part nf texts x))"
proof -
  define locs where "locs = {(g, i). g \<in> set EVIDENCE_ANCHOR_GROUPS \<and> i < length (claims_of x g) \<and> anchor_reason nf texts (claims_of x g ! i) \<noteq> []}"
  note d = drop_claims_grounded [OF locs_def]
  have c: "card locs = ungrounded nf texts x" unfolding locs_def by (rule card_ungrounded)
  have l: "(\<lambda>(g, i, _). (g, i)) ` set (evidence_anchor_issues nf texts x) = locs" unfolding locs_def by (rule anchor_issues_locs)
  show ?thesis
  proof (cases "locs = {}")
    case True
    have "drop_claims {} x = x" by (simp add: drop_claims_def without_def)
    moreover have "depends_on (removed_pairs {} (x_reveals x)) = (\<lambda>_. False)" by (intro ext) (simp add: depends_on_def removed_pairs_def)
    ultimately have "grounded_part nf texts x = x" using d by (simp add: True)
    then show ?thesis using c by (simp add: ground_evidence_def quarantine_evidence_issues_def Let_def l True too_broad_def)
  next
    case False
    then show ?thesis using c d by (simp add: ground_evidence_def quarantine_evidence_issues_def Let_def l)
  qed
qed

text \<open>C16: The grounding gate is exact. A proposal is rejected exactly when more than one claim is ungrounded and these are more than three or at
  least two fifths of all claims; otherwise what passes is the proposal without precisely the claims whose anchor has no words or whose words
  do not occur, in order and without a gap, in any chunk the claim cites, and without the identity changes that rest on a dropped reveal.\<close>

theorem grounding_exact:
  "ground_evidence nf texts x =
     (if ungrounded nf texts x > 1 \<and> (ungrounded nf texts x > 3 \<or> 5 * ungrounded nf texts x \<ge> 2 * max 1 (claim_count x))
      then Inl (ValueError ''evidence-anchor failures exceeded the safe item-level recovery threshold'')
      else Inr (grounded_part nf texts x))"
proof -
  have "(of_nat u :: rat) / of_nat (max 1 m) \<ge> 40 / 100 \<longleftrightarrow> 5 * u \<ge> 2 * max 1 m" for u m
  proof -
    have p: "(0 :: rat) < of_nat (max 1 m)" by simp
    have "(of_nat u :: rat) / of_nat (max 1 m) \<ge> 40 / 100 \<longleftrightarrow> 40 / 100 * of_nat (max 1 m) \<le> (of_nat u :: rat)"
      using pos_le_divide_eq [OF p] by blast
    also have "\<dots> \<longleftrightarrow> of_nat (2 * max 1 m) \<le> (of_nat (5 * u) :: rat)" by (simp add: mult.commute)
    finally show ?thesis using of_nat_le_iff by blast
  qed
  then show ?thesis by (simp only: ground_evidence_eq too_broad_def)
qed

section \<open>What is stored is grounded\<close>

text \<open>The rows of the chapter come from claims that satisfy a condition.\<close>

definition stored_from :: "int \<Rightarrow> rat \<Rightarrow> extraction \<Rightarrow> knowledge \<Rightarrow> bool" where
  "stored_from nid n y kb \<longleftrightarrow>
     (\<forall>f \<in> set (kb_facts kb). fa_novel_id f = nid \<and> fa_chapter f = n \<longrightarrow> (\<exists>i \<in> set (x_facts y). fa_content f = xf_content i)) \<and>
     (\<forall>r \<in> set (kb_relationships kb). rl_novel_id r = nid \<and> rl_chapter r = n \<longrightarrow> (\<exists>i \<in> set (x_relationships y). rl_content r = Some (xr_content i))) \<and>
     (\<forall>e \<in> set (kb_events kb). ev_novel_id e = nid \<and> ev_chapter e = n \<longrightarrow> (\<exists>i \<in> set (x_events y). ev_description e = Some (xe_description i))) \<and>
     (\<forall>s \<in> set (kb_states kb). sr_novel_id s = nid \<and> sr_chapter s = n \<longrightarrow>
        (\<exists>i \<in> set (x_states y). sr_key s = xs_key i \<and> sr_operation s = xs_operation i)) \<and>
     (\<forall>u \<in> set (kb_thread_updates kb). tu_novel_id u = nid \<and> tu_chapter u = n \<longrightarrow> (\<exists>i \<in> set (x_threads y). tu_summary u = xu_summary i))"

definition same_claims :: "knowledge \<Rightarrow> knowledge \<Rightarrow> bool" where
  "same_claims kb kb' \<longleftrightarrow> kb_facts kb' = kb_facts kb \<and> kb_relationships kb' = kb_relationships kb \<and> kb_events kb' = kb_events kb \<and>
     kb_states kb' = kb_states kb \<and> kb_thread_updates kb' = kb_thread_updates kb"

lemma stored_same: "same_claims kb kb' \<Longrightarrow> stored_from nid n y kb' = stored_from nid n y kb"
  by (simp add: same_claims_def stored_from_def)

definition stores :: "commit_input \<Rightarrow> extraction \<Rightarrow> commit_state \<Rightarrow> bool" where
  "stores ci y s \<longleftrightarrow> stored_from (ci_novel ci) (ci_chapter ci) y (ct_kb s)"

named_theorems stores_rules

lemma stores_with_kb:
  assumes "\<And>kb. stored_from (ci_novel ci) (ci_chapter ci) y kb \<Longrightarrow> stored_from (ci_novel ci) (ci_chapter ci) y (f kb)"
  shows "keeps (stores ci y) (with_kb f)"
  using assms by (simp add: keeps_def stores_def with_kb_def)

lemma stores_same_kb [stores_rules]: "(\<And>kb. same_claims kb (f kb)) \<Longrightarrow> keeps (stores ci y) (with_kb f)"
  by (rule stores_with_kb) (use stored_same in blast)

lemma stores_lift_kb [stores_rules]: "(\<And>kb. same_claims kb (snd (m kb))) \<Longrightarrow> keeps (stores ci y) (lift_kb m)"
  by (auto simp: keeps_def stores_def lift_kb_def split: prod.splits) (metis snd_conv stored_same)

lemma stores_reads [stores_rules]:
  "keeps (stores ci y) (read_commit f)" "keeps (stores ci y) (note_activity i kind ch)" "keeps (stores ci y) (set_local ref i)"
  "keeps (stores ci y) (set_thread ref i)"
  by (simp_all add: keeps_def stores_def read_commit_def note_activity_def set_local_def set_thread_def)

lemma stores_ensure [stores_rules]: "keeps (stores ci y) (ensure_entity_id ref)"
  unfolding ensure_entity_id_def by (intro keeps_rules stores_rules)

lemma stores_ensure_all [stores_rules]: "keeps (stores ci y) (ensure_all refs)"
proof (induction refs)
  case Nil
  show ?case unfolding ensure_all.simps by (rule keeps_returnS)
next
  case (Cons r refs)
  show ?case unfolding ensure_all.simps by (intro keeps_rules stores_rules Cons.IH)
qed

lemma stores_ensure_opt [stores_rules]: "keeps (stores ci y) (ensure_opt ref)"
  unfolding ensure_opt_def by (intro keeps_rules stores_rules)

lemma keeps_each_in: "(\<And>x. x \<in> set xs \<Longrightarrow> keeps I (f x)) \<Longrightarrow> keeps I (each f xs)"
proof (induction xs)
  case Nil
  show ?case unfolding each.simps by (rule keeps_returnS)
next
  case (Cons x xs)
  show ?case unfolding each.simps by (intro keeps_rules Cons.IH Cons.prems) simp_all
qed

lemma linking_same [stores_rules]:
  "same_claims kb (snd (create_entity cfg nid m typ n desc kb))"
  "same_claims kb (snd (link_resolve_entity cfg nid m typ n desc kb))"
  "same_claims kb (snd (promote_canonical_name_if_safe cfg nid i alias n kb))"
  by (auto simp: same_claims_def create_entity_def insert_entity_def link_resolve_entity_def link_semantic_def create_with_alias_def insert_alias_def
      promote_canonical_name_if_safe_def Let_def split: option.splits if_splits)

lemma writes_same [stores_rules]:
  "same_claims kb (upsert_description nid i n d kb)" "same_claims kb (learn_alias nid n i alias kb)" "same_claims kb (insert_link nid n a b note kb)"
  by (auto simp: same_claims_def upsert_description_def learn_alias_def insert_link_def numbered_def Let_def)

lemma stores_opened: "keeps (stores ci y) (opened_thread ci title1)"
  by (auto simp: keeps_def opened_thread_def stores_def stored_from_def numbered_def Let_def split: option.splits)

lemma stores_thread_id [stores_rules]: "keeps (stores ci y) (thread_id_of ci x)"
  unfolding thread_id_of_def Let_def by (intro keeps_rules stores_rules stores_opened)

lemma stores_mention_entity [stores_rules]: "keeps (stores ci y) (mention_entity ci x ref surface)"
  unfolding mention_entity_def Let_def by (auto split: option.splits intro!: keeps_rules stores_rules)

lemma stores_added:
  "i \<in> set (x_facts y) \<Longrightarrow> keeps (stores ci y) (commit_fact ci i)"
  "j \<in> set (x_relationships y) \<Longrightarrow> keeps (stores ci y) (commit_relationship ci j)"
  "k \<in> set (x_events y) \<Longrightarrow> keeps (stores ci y) (commit_event ci k)"
  "l \<in> set (x_states y) \<Longrightarrow> keeps (stores ci y) (commit_state_change ci l)"
  "m \<in> set (x_threads y) \<Longrightarrow> keeps (stores ci y) (commit_thread ci m)"
  unfolding commit_fact_def commit_relationship_def commit_event_def commit_state_change_def commit_thread_def Let_def
  by (intro keeps_rules stores_rules keeps_each_in stores_with_kb; force simp: stored_from_def numbered_def)+

lemma stores_other:
  "keeps (stores ci y) (commit_mention ci a)" "keeps (stores ci y) (commit_reveal ci b)" "keeps (stores ci y) (commit_alias ci c)"
  unfolding commit_mention_def commit_reveal_def commit_alias_def Let_def by (intro keeps_rules stores_rules)+

lemma stores_relation: "keeps (stores ci y) (commit_relation_change ci d)"
  unfolding commit_relation_change_def Let_def
  by (intro keeps_rules stores_rules) (simp add: same_claims_def numbered_def)

lemma stores_items: "keeps (stores ci y) (commit_items ci y)"
  unfolding commit_items_def by (intro keeps_rules keeps_each_in stores_other stores_relation stores_added; assumption)

lemma commit_extraction_stores:
  assumes run: "commit_extraction ci cm ground rebuild threads force x db = (Inr False, db')"
  shows "\<exists>y. ground x = Inr y \<and> stored_from (ci_novel ci) (ci_chapter ci) y (xd_kb db')"
proof -
  let ?nid = "ci_novel ci" and ?n = "ci_chapter ci"
  let ?start = "on_kb (clear_caches ?nid (Some ?n) None) (clear_extraction_chapter ?nid ?n db)"
  obtain y where y: "ground x = Inr y" "bindS (write_items ci threads y) (finish_commit ci cm (x_memories y)) ?start = (Inr False, db')"
    using run by (auto simp: commit_extraction_def Let_def bindE_def split: if_splits sum.splits)
  obtain acts d where w: "write_items ci threads y ?start = (Inr acts, d)" and f: "finish_commit ci cm (x_memories y) acts d = (Inr False, db')"
    by (rule bindS_InrE [OF y(2)])
  have "stores ci y (commit_start ci threads ?start)"
    by (simp add: stores_def commit_start_def on_kb_def clear_extraction_chapter_def clear_kb_def clear_caches_def stored_from_def set_sql_delete Let_def) auto
  then have "stores ci y (snd (commit_items ci y (commit_start ci threads ?start)))" by (rule keepsD [OF stores_items])
  then have "stored_from ?nid ?n y (xd_kb d)" using w by (auto simp: write_items_def stores_def split: prod.splits sum.splits)
  moreover obtain rows where "xd_kb db' = (xd_kb d)\<lparr>kb_activity := rows\<rparr>" using finish_kb [OF f] by blast
  ultimately show ?thesis using y(1) by (auto simp: stored_from_def)
qed

text \<open>C8: Nothing ungrounded is stored. After a commit that writes, every fact, relationship, event, state transition and thread update of the
  chapter comes from a claim of the proposal whose anchor's words occur, as they stand, in a chunk of the chapter that the claim cites.\<close>

theorem stored_claims_grounded:
  assumes "commit_grounded nf digest rdb cdb ci cm rebuild threads force x db = (Inr False, db')"
    and "texts = chapter_texts (ci_novel ci) (ci_chapter ci) cdb"
  shows "(\<forall>f \<in> set (kb_facts (xd_kb db')). fa_novel_id f = ci_novel ci \<and> fa_chapter f = ci_chapter ci \<longrightarrow>
      (\<exists>i \<in> set (x_facts x). fa_content f = xf_content i \<and> anchored nf texts (xf_evidence i) (xf_chunks i))) \<and>
    (\<forall>r \<in> set (kb_relationships (xd_kb db')). rl_novel_id r = ci_novel ci \<and> rl_chapter r = ci_chapter ci \<longrightarrow>
      (\<exists>i \<in> set (x_relationships x). rl_content r = Some (xr_content i) \<and> anchored nf texts (xr_evidence i) (xr_chunks i))) \<and>
    (\<forall>e \<in> set (kb_events (xd_kb db')). ev_novel_id e = ci_novel ci \<and> ev_chapter e = ci_chapter ci \<longrightarrow>
      (\<exists>i \<in> set (x_events x). ev_description e = Some (xe_description i) \<and> anchored nf texts (xe_evidence i) (xe_chunks i))) \<and>
    (\<forall>s \<in> set (kb_states (xd_kb db')). sr_novel_id s = ci_novel ci \<and> sr_chapter s = ci_chapter ci \<longrightarrow>
      (\<exists>i \<in> set (x_states x). sr_key s = xs_key i \<and> sr_operation s = xs_operation i \<and> anchored nf texts (xs_evidence i) (xs_chunks i))) \<and>
    (\<forall>u \<in> set (kb_thread_updates (xd_kb db')). tu_novel_id u = ci_novel ci \<and> tu_chapter u = ci_chapter ci \<longrightarrow>
      (\<exists>i \<in> set (x_threads x). tu_summary u = xu_summary i \<and> anchored nf texts (xu_evidence i) (xu_chunks i)))"
proof -
  obtain text1 chunks where run:
    "commit_extraction (ci\<lparr>ci_text := text1, ci_chunks := chunks\<rparr>) cm (ground_evidence nf texts) rebuild threads force x db = (Inr False, db')"
    using assms by (auto simp: commit_grounded_def commit_codex_extraction_def atomicS_def split: prod.splits sum.splits option.splits if_splits)
  then obtain y where y: "ground_evidence nf texts x = Inr y" "stored_from (ci_novel ci) (ci_chapter ci) y (xd_kb db')"
    using commit_extraction_stores by fastforce
  then have "y = grounded_part nf texts x" by (simp add: ground_evidence_eq split: if_splits)
  then have "set (x_facts y) = {i \<in> set (x_facts x). fact_ok nf texts i}" "set (x_relationships y) = {i \<in> set (x_relationships x). relationship_ok nf texts i}"
    "set (x_events y) = {i \<in> set (x_events x). event_ok nf texts i}" "set (x_states y) \<subseteq> {i \<in> set (x_states x). state_claim_ok nf texts i}"
    "set (x_threads y) = {i \<in> set (x_threads x). thread_ok nf texts i}"
    by (auto simp: grounded_part_def)
  then show ?thesis using y(2) unfolding stored_from_def claim_ok_defs by (intro conjI ballI impI) (blast | fast)+
qed

section \<open>Repaired anchors are source text\<close>

lemma match_words_spec:
  "match_words es k ts = Some ps \<Longrightarrow> es \<noteq> [] \<Longrightarrow> \<exists>m. last ps = k + m \<and> m < length ts \<and> subseq es (take (m + 1) ts) \<and> length ps = length es \<and> ps \<noteq> []"
proof (induction es k ts arbitrary: ps rule: match_words.induct)
  case (3 e es k t ts)
  show ?case
  proof (cases "t = e")
    case True
    then obtain qs where q: "match_words es (k + 1) ts = Some qs" "ps = k # qs" using "3.prems"(1) by auto
    show ?thesis
    proof (cases "es = []")
      case True
      then have "qs = []" using q(1) by simp
      then show ?thesis by (intro exI [of _ 0]) (simp add: q(2) \<open>t = e\<close> True)
    next
      case False
      then obtain m where "last qs = k + 1 + m" "m < length ts" "subseq es (take (m + 1) ts)" "length qs = length es" "qs \<noteq> []"
        using "3.IH"(1) [OF \<open>t = e\<close> q(1)] by blast
      then show ?thesis by (intro exI [of _ "m + 1"]) (simp add: q(2) \<open>t = e\<close>)
    qed
  next
    case False
    then obtain m where "last ps = k + 1 + m" "m < length ts" "subseq (e # es) (take (m + 1) ts)" "length ps = length (e # es)" "ps \<noteq> []"
      using "3.IH"(2) [OF False] "3.prems"(1) by auto
    then show ?thesis by (intro exI [of _ "m + 1"]) (auto intro: subseq_Cons')
  qed
qed auto

lemma match_words_hd: "match_words (e # es) k (e # ts) = Some ps \<Longrightarrow> hd ps = k"
  by auto

text \<open>A repaired anchor quotes the source. What the repair puts in place of a verified anchor is one contiguous slice of the chunk, of at most
  1200 characters, from the start of a word to the end of a word; the words of the slice contain the words of the anchor unchanged and in order,
  with at most 32 others among them and at most three times as many in all.\<close>

lemma verified_anchor_span_sound:
  assumes "verified_anchor_span nf e s = Some (a, k)" "ev = py_split (py_strip (normalized_evidence_text nf e))"
  shows "sublist a s \<and> length a \<le> 1200 \<and> k \<le> 32 \<and> length ev \<ge> 6 \<and>
    (\<exists>toks. sublist toks (source_evidence_tokens nf s) \<and> subseq ev (map fst toks) \<and> length toks = length ev + k \<and> length toks \<le> 3 * length ev \<and>
      a = take (snd (snd (last toks)) - fst (snd (hd toks))) (drop (fst (snd (hd toks))) s))"
proof -
  let ?toks = "source_evidence_tokens nf s"
  obtain p q l where c: "sql_first (\<lambda>c. c) (anchor_candidates ev ?toks) = Some (k, l, p, q)" and a: "a = take (q - p) (drop p s)" and six: "length ev \<ge> 6"
    using assms by (auto simp: verified_anchor_span_def Let_def split: if_splits)
  have ne: "ev \<noteq> []" using six by auto
  have "(k, l, p, q) \<in> set (anchor_candidates ev ?toks)" by (rule sql_first_Some_in [OF c])
  then obtain st where st: "st < length ?toks" "fst (?toks ! st) = hd ev" and cand:
    "(case match_words ev st (map fst (drop st ?toks)) of None \<Rightarrow> None
      | Some ps \<Rightarrow> let width = last ps - hd ps + 1; inserted = width - length ps; a = fst (snd (?toks ! hd ps)); b = snd (snd (?toks ! last ps))
          in if inserted > 32 \<or> max_gap ps > 24 \<or> width > length ev * 3 \<or> b - a > 1200 then None else Some (inserted, b - a, a, b)) = Some (k, l, p, q)"
    unfolding anchor_candidates_def by (auto simp: map_filter_def split: if_splits)
  then obtain ps where ps: "match_words ev st (map fst (drop st ?toks)) = Some ps" by (auto split: option.splits)
  obtain e0 es where ev: "ev = e0 # es" using ne by (cases ev) auto
  have d: "drop st ?toks = ?toks ! st # drop (Suc st) ?toks" using st(1) by (rule Cons_nth_drop_Suc [symmetric])
  then have hd: "hd ps = st" using match_words_hd ps st(2) by (simp add: ev)
  obtain m where m: "last ps = st + m" "m < length (map fst (drop st ?toks))" "subseq ev (take (m + 1) (map fst (drop st ?toks)))"
    "length ps = length ev"
    using match_words_spec [OF ps ne] by blast
  have r: "k = m + 1 - length ev" "p = fst (snd (?toks ! st))" "q = snd (snd (?toks ! (st + m)))"
    "k \<le> 32" "m + 1 \<le> length ev * 3" "q - p \<le> 1200"
    using cand by (simp_all add: ps hd m(1,4) Let_def split: if_splits)
  define win where "win = take (m + 1) (drop st ?toks)"
  have w: "length win = m + 1" using m(2) by (simp add: win_def)
  have "length ev \<le> m + 1" using m(3) list_emb_length [of "(=)" ev] w by (fastforce simp: win_def)
  moreover have "hd win = ?toks ! st" by (simp add: win_def d)
  moreover have "last win = ?toks ! (st + m)" using w m(2) by (simp add: last_conv_nth win_def)
  moreover have "sublist win ?toks" unfolding win_def by (metis append_take_drop_id sublist_appendI)
  moreover have "subseq ev (map fst win)" using m(3) by (simp add: win_def take_map)
  moreover have "sublist a s" unfolding a by (metis append_take_drop_id sublist_appendI)
  ultimately show ?thesis using r six w by (intro conjI exI [of _ win]) (simp_all add: a)
qed

definition demo_anchor :: "(string \<times> nat) option" where
  "demo_anchor = verified_anchor_span (\<lambda>s. s) ''he drew the sword and ran'' ''So he drew the old sword, and ran.''"

lemma demo_anchor_run: "demo_anchor = Some (''he drew the old sword, and ran'', 1)"
  by code_simp

lemma verified_anchor_span_sound_witness:
  "sublist ''he drew the old sword, and ran'' ''So he drew the old sword, and ran.''"
  using verified_anchor_span_sound [of "\<lambda>s. s" "''he drew the sword and ran''" "''So he drew the old sword, and ran.''" "''he drew the old sword, and ran''" 1
      "py_split (py_strip (normalized_evidence_text (\<lambda>s. s) ''he drew the sword and ran''))"] demo_anchor_run
  unfolding demo_anchor_def by blast

section \<open>The markers can be read back\<close>

definition no_markers :: "string \<Rightarrow> bool" where
  "no_markers t \<longleftrightarrow> (\<forall>l \<in> set (split_lines (t @ [CHR 0x0A])). marker_of l = None)"

lemma split_lines_Nil [simp]: "split_lines s = [] \<longleftrightarrow> s = []"
  by (cases s) (auto split: list.splits)

lemma split_lines_break: "split_lines (a @ CHR 0x0A # b) = split_lines (a @ [CHR 0x0A]) @ split_lines b"
proof (induction a)
  case (Cons c a)
  obtain l ls where "split_lines (a @ [CHR 0x0A]) = l # ls" by (cases "split_lines (a @ [CHR 0x0A])") auto
  then show ?case using Cons by simp
qed simp

lemma concat_split_lines: "concat (split_lines s) = s"
proof (induction s)
  case (Cons c cs)
  then show ?case by (cases "split_lines cs") auto
qed simp

lemma split_lines_plain: "CHR 0x0A \<notin> set a \<Longrightarrow> split_lines a = (if a = [] then [] else [a])"
  by (induction a) auto

lemma split_lines_line: "CHR 0x0A \<notin> set a \<Longrightarrow> split_lines (a @ [CHR 0x0A]) = [a @ [CHR 0x0A]]"
  by (induction a) auto

lemma marker_shape: "l = ''[chunk '' @ ds @ '']'' @ [CHR 0x0A] \<Longrightarrow> CHR 0x0A \<in> set l"
  by simp

lemma marker_break:
  assumes "marker_of l = Some i"
  shows "CHR 0x0A \<in> set l"
proof -
  have "l = ''[chunk '' @ take (length l - 9) (drop 7 l) @ '']'' @ [CHR 0x0A]"
    using assms unfolding marker_of_def Let_def by (metis option.distinct(1))
  then show ?thesis by (rule marker_shape)
qed

lemma no_markers_lines:
  assumes "no_markers t" "l \<in> set (split_lines t)"
  shows "marker_of l = None"
proof (cases "CHR 0x0A \<in> set t")
  case False
  then have "l = t" using assms(2) by (auto simp: split_lines_plain split: if_splits)
  then show ?thesis using False marker_break by (cases "marker_of l") auto
next
  case True
  then obtain a b where t: "t = a @ CHR 0x0A # b" "CHR 0x0A \<notin> set b" by (meson split_list_last)
  have "split_lines (t @ [CHR 0x0A]) = split_lines (a @ [CHR 0x0A]) @ split_lines (b @ [CHR 0x0A])"
    using split_lines_break [of a "b @ [CHR 0x0A]"] by (simp add: t(1))
  then have "l \<in> set (split_lines (t @ [CHR 0x0A])) \<or> l = b"
    using assms(2) by (auto simp: t split_lines_break [of a b] split_lines_plain split: if_splits)
  then show ?thesis
  proof
    assume "l = b"
    then show ?thesis using t(2) marker_break by (cases "marker_of l") auto
  qed (use assms(1) in \<open>simp add: no_markers_def\<close>)
qed

lemma sections_plain:
  "\<forall>l \<in> set ls. marker_of l = None \<Longrightarrow> sections (Some (i, t)) (ls @ rest) = sections (Some (i, t @ concat ls)) rest"
  by (induction ls arbitrary: t) simp_all

lemma show_nat_digits:
  "list_all is_digit (show_nat n) \<and> digits_value (show_nat n) = int n \<and> show_nat n \<noteq> [] \<and> (n > 0 \<longrightarrow> hd (show_nat n) \<noteq> CHR ''0'')"
proof (induction n rule: show_nat.induct)
  case (1 n)
  have digit: "is_digit (char_of (48 + d)) \<and> (of_char (char_of (48 + d) :: char) :: int) = 48 + int d \<and> (d > 0 \<longrightarrow> (char_of (48 + d) :: char) \<noteq> CHR ''0'')"
    if "d < 10" for d :: nat
  proof -
    have n: "(of_char (char_of (48 + d) :: char) :: nat) = 48 + d" using that by simp
    then have "(of_char (char_of (48 + d) :: char) :: int) = 48 + int d" by (metis of_nat_of_char of_nat_add of_nat_numeral)
    moreover have "d > 0 \<longrightarrow> (char_of (48 + d) :: char) \<noteq> CHR ''0''"
    proof
      assume "d > 0"
      show "(char_of (48 + d) :: char) \<noteq> CHR ''0''"
      proof
        assume "(char_of (48 + d) :: char) = CHR ''0''"
        then have "(of_char (char_of (48 + d) :: char) :: nat) = of_char (CHR ''0'')" by (rule arg_cong)
        then show False using n \<open>d > 0\<close> by simp
      qed
    qed
    ultimately show ?thesis using n that by (simp add: is_digit_def)
  qed
  show ?case
  proof (cases "n < 10")
    case True
    then show ?thesis using digit [OF True] by (subst (1 2 3 4) show_nat.simps) (auto simp: digits_value_def)
  next
    case False
    note ih = 1 [OF False]
    have "digits_value (show_nat n) = 10 * int (n div 10) + int (n mod 10)"
      using ih digit [of "n mod 10"] by (subst show_nat.simps) (simp add: False digits_value_def)
    moreover have "show_nat n = show_nat (n div 10) @ [char_of (48 + n mod 10)]" by (subst show_nat.simps) (simp add: False)
    moreover have "10 * int (n div 10) + int (n mod 10) = int n" by presburger
    ultimately show ?thesis using ih digit [of "n mod 10"] False by simp
  qed
qed

lemma marker_line:
  assumes "0 < i"
  shows "marker_of (''[chunk '' @ show_int i @ '']'' @ [CHR 0x0A]) = Some i"
proof -
  have "take (length (show_int i)) (drop 7 (''[chunk '' @ show_int i @ '']'' @ [CHR 0x0A])) = show_int i" by simp
  moreover have "list_all is_digit (show_int i) \<and> digits_value (show_int i) = i \<and> show_int i \<noteq> [] \<and> hd (show_int i) \<noteq> CHR ''0''"
    using show_nat_digits [of "nat i"] assms by (simp add: show_int_def)
  ultimately show ?thesis by (simp add: marker_of_def Let_def)
qed

lemma digit_break: "list_all is_digit ds \<Longrightarrow> CHR 0x0A \<notin> set ds"
  by (induction ds) (auto simp: is_digit_def)

lemma header_line:
  assumes "0 < i"
  shows "split_lines (''[chunk '' @ show_int i @ '']'' @ CHR 0x0A # t) = (''[chunk '' @ show_int i @ '']'' @ [CHR 0x0A]) # split_lines t"
proof -
  have "CHR 0x0A \<notin> set (''[chunk '' @ show_int i @ '']'')"
    using show_nat_digits [of "nat i"] digit_break assms by (auto simp: show_int_def)
  then show ?thesis using split_lines_break [of "''[chunk '' @ show_int i @ '']''" t] split_lines_line by fastforce
qed

lemma py_strip_break:
  assumes "is_py_space c"
  shows "py_strip (s @ [c]) = py_strip s"
proof (cases "\<forall>d \<in> set s. is_py_space d")
  case True
  then have "py_lstrip (s @ [c]) = []" "py_lstrip s = []" using assms by (simp_all add: py_lstrip_def)
  then show ?thesis by (simp add: py_strip_def)
next
  case False
  then have "py_lstrip (s @ [c]) = py_lstrip s @ [c]" by (auto simp: py_lstrip_def dropWhile_append)
  then show ?thesis using assms by (simp add: py_strip_def py_rstrip_def)
qed

lemma sections_marked:
  assumes "\<forall>c \<in> set cs. 0 < fst c \<and> no_markers (snd c)"
  shows "sections cur (split_lines (mark_chunks cs)) = sections cur [] @ map (\<lambda>(i, t). (i, py_strip t)) cs"
  using assms
proof (induction cs arbitrary: cur)
  case (Cons c cs)
  obtain i t where c: "c = (i, t)" by (cases c)
  have i: "0 < i" and t: "no_markers t" using Cons.prems by (simp_all add: c)
  show ?case
  proof (cases cs)
    case Nil
    have "split_lines (mark_chunks (c # cs)) = (''[chunk '' @ show_int i @ '']'' @ [CHR 0x0A]) # split_lines t"
      using header_line [OF i, of t] by (simp add: mark_chunks_def c Nil)
    moreover have "sections (Some (i, [])) (split_lines t) = [(i, py_strip t)]"
      using sections_plain [of "split_lines t" i "[]" "[]"] no_markers_lines [OF t] by (simp add: concat_split_lines)
    ultimately show ?thesis by (simp add: marker_line [OF i] c Nil del: append_Cons append.simps)
  next
    case (Cons d ds)
    let ?rest = "mark_chunks cs"
    have "mark_chunks (c # cs) = ''[chunk '' @ show_int i @ '']'' @ CHR 0x0A # (t @ CHR 0x0A # CHR 0x0A # ?rest)"
      by (simp add: mark_chunks_def c Cons)
    moreover have "split_lines (t @ CHR 0x0A # CHR 0x0A # ?rest) = split_lines (t @ [CHR 0x0A]) @ [CHR 0x0A] # split_lines ?rest"
      using split_lines_break [of t "CHR 0x0A # ?rest"] by simp
    ultimately have l: "split_lines (mark_chunks (c # cs)) =
        (''[chunk '' @ show_int i @ '']'' @ [CHR 0x0A]) # (split_lines (t @ [CHR 0x0A]) @ [[CHR 0x0A]]) @ split_lines ?rest"
      using header_line [OF i] by simp
    have "marker_of [CHR 0x0A] = None" by (simp add: marker_of_def)
    then have "sections (Some (i, [])) ((split_lines (t @ [CHR 0x0A]) @ [[CHR 0x0A]]) @ split_lines ?rest) =
        sections (Some (i, t @ [CHR 0x0A] @ [CHR 0x0A])) (split_lines ?rest)"
      using t by (subst sections_plain) (auto simp: no_markers_def concat_split_lines)
    also have "\<dots> = (i, py_strip t) # map (\<lambda>(i, t). (i, py_strip t)) cs"
      using Cons.IH Cons.prems py_strip_break [of "CHR 0x0A" "t @ [CHR 0x0A]"] py_strip_break [of "CHR 0x0A" t]
      by (simp add: is_py_space_def)
    finally show ?thesis unfolding l by (simp add: marker_line [OF i] c del: append_Cons append.simps)
  qed
qed (simp add: mark_chunks_def)

lemma fold_update_new:
  "distinct (map fst (acc @ xs)) \<Longrightarrow> fold (\<lambda>(i, t). AList.update i t) xs acc = acc @ xs"
proof (induction xs arbitrary: acc)
  case (Cons x xs)
  obtain i t where x: "x = (i, t)" by (cases x)
  have "i \<notin> fst ` set al \<Longrightarrow> AList.update i t al = al @ [(i, t)]" for al by (induction al) auto
  then have "AList.update i t acc = acc @ [x]" using Cons.prems by (simp add: x)
  then show ?case using Cons.IH [of "acc @ [x]"] Cons.prems by (simp add: x)
qed simp

text \<open>C26: The chunk markers can be read back: unless a chunk has a line that looks like a marker, the texts the gate checks the anchors against are
  exactly the stored chunks of the chapter, under their ids and in their order, stripped of surrounding space.\<close>

theorem marked_texts_round_trip:
  assumes "distinct (map fst cs)" "\<forall>c \<in> set cs. 0 < fst c \<and> no_markers (snd c)"
  shows "marked_chunk_texts (mark_chunks cs) = map (\<lambda>(i, t). (i, py_strip t)) cs"
  using fold_update_new [of "[]" "map (\<lambda>(i, t). (i, py_strip t)) cs"] assms
  by (simp add: marked_chunk_texts_def sections_marked comp_def split_beta)

lemma demo_no_markers: "no_markers ''Klein fell'' \<and> no_markers ''He rose''"
  by code_simp

theorem marked_texts_round_trip_witness:
  "marked_chunk_texts (mark_chunks [(7, ''Klein fell''), (9, ''He rose'')]) = map (\<lambda>(i, t). (i, py_strip t)) [(7, ''Klein fell''), (9, ''He rose'')]"
  by (rule marked_texts_round_trip) (use demo_no_markers in simp_all)

text \<open>A line of the story that looks like a marker is taken for one: the chunk ends there, and the rest of it replaces the text of another chunk.\<close>

lemma forged_marker:
  "marked_chunk_texts (mark_chunks [(9, ''a''), (7, ''b'' @ [CHR 0x0A] @ ''[chunk 9]'' @ [CHR 0x0A] @ ''c'')]) = [(9, ''c''), (7, ''b'')]"
  by code_simp

section \<open>What the repair may change\<close>

text \<open>The claims without their anchors.\<close>

definition unanchored :: "extraction \<Rightarrow> extraction" where
  "unanchored x = x\<lparr>
     x_facts := map (\<lambda>i. i\<lparr>xf_evidence := None, xf_chunks := []\<rparr>) (x_facts x),
     x_relationships := map (\<lambda>i. i\<lparr>xr_evidence := None, xr_chunks := []\<rparr>) (x_relationships x),
     x_events := map (\<lambda>i. i\<lparr>xe_evidence := None, xe_chunks := []\<rparr>) (x_events x),
     x_reveals := map (\<lambda>i. i\<lparr>xi_evidence := None, xi_chunks := []\<rparr>) (x_reveals x),
     x_aliases := map (\<lambda>i. i\<lparr>xa_evidence := None, xa_chunks := []\<rparr>) (x_aliases x),
     x_states := map (\<lambda>i. i\<lparr>xs_evidence := None, xs_chunks := []\<rparr>) (x_states x),
     x_relation_states := map (\<lambda>i. i\<lparr>xt_evidence := None, xt_chunks := []\<rparr>) (x_relation_states x),
     x_threads := map (\<lambda>i. i\<lparr>xu_evidence := None, xu_chunks := []\<rparr>) (x_threads x)\<rparr>"

lemma map_same_update: "f y = f (xs ! i) \<Longrightarrow> map f (xs[i := y]) = map f xs"
  by (cases "i < length xs") (simp_all add: map_update list_update_same_conv list_update_beyond)

lemma unanchored_set_claim: "unanchored (set_claim g i e cs x) = unanchored x"
  by (simp add: set_claim_def unanchored_def map_same_update)

lemma unanchored_repair: "unanchored (repair_issue nf texts issue x) = unanchored x"
  by (auto simp: repair_issue_def Let_def unanchored_set_claim split: option.splits)

lemma unanchored_repairs: "unanchored (repair_verified_evidence_issues nf texts issues x) = unanchored x"
  unfolding repair_verified_evidence_issues_def by (induction issues arbitrary: x) (simp_all add: unanchored_repair)

text \<open>C20: The verified path is no way around the gate: repairing changes nothing of a proposal but anchors and citations, and when there are chunks to
  check against, what comes out of repair and quarantine together contains only claims whose anchor's words occur in a chunk they cite.\<close>

theorem ground_verified_sound:
  assumes "ground_verified nf texts x = Inr y" "texts \<noteq> []"
  shows "(\<exists>z. unanchored z = unanchored x \<and> y = grounded_part nf texts z) \<and>
    (\<forall>g. \<forall>c \<in> set (claims_of y g). anchored nf texts (fst c) (snd c))"
proof -
  define z where "z = repair_verified_evidence_issues nf texts (evidence_anchor_issues nf texts x) x"
  have y: "y = grounded_part nf texts z" using assms by (simp add: ground_verified_def ground_evidence_eq z_def split: if_splits)
  moreover have "unanchored z = unanchored x" by (simp add: z_def unanchored_repairs)
  moreover have "\<forall>c \<in> set (claims_of y g). anchored nf texts (fst c) (snd c)" for g
    by (auto simp: y claims_of_def grounded_part_def claim_ok_defs)
  ultimately show ?thesis by blast
qed

lemma demo_ground: "ground_evidence (\<lambda>s. s) [(9, ''Klein fell'')] demo_proposal = Inr demo_proposal"
  by code_simp

theorem ground_verified_sound_witness:
  "ground_verified (\<lambda>s. s) [(9, ''Klein fell'')] demo_proposal = Inr demo_proposal \<and>
   anchored (\<lambda>s. s) [(9, ''Klein fell'')] (Some ''Klein fell'') [9]"
proof -
  have "ground_verified (\<lambda>s. s) [(9, ''Klein fell'')] demo_proposal = Inr demo_proposal" by code_simp
  moreover have "(Some ''Klein fell'', [9]) \<in> set (claims_of demo_proposal ''facts'')" by (simp add: claims_of_def demo_proposal_def)
  ultimately show ?thesis using ground_verified_sound [of "\<lambda>s. s" "[(9, ''Klein fell'')]" demo_proposal demo_proposal] by fastforce
qed

lemma commit_ground_cong:
  "ground x = ground' x \<Longrightarrow> commit_codex_extraction digest rdb cdb ci cm ground rebuild threads force x =
    commit_codex_extraction digest rdb cdb ci cm ground' rebuild threads force x"
  by (auto simp: commit_codex_extraction_def commit_extraction_def Let_def atomicS_def fun_eq_iff split: option.splits)

lemma demo_texts: "chapter_texts 1 3 demo_codex = [(9, ''Klein fell'')]"
  by code_simp

lemma demo_grounded:
  "commit_grounded (\<lambda>s. s) (\<lambda>s. s) demo_extract_reading demo_codex demo_input demo_meta (\<lambda>_. []) Map.empty False demo_proposal = demo_commit"
proof -
  have "ground_evidence (\<lambda>s. s) (chapter_texts (ci_novel demo_input) (ci_chapter demo_input) demo_codex) demo_proposal = Inr demo_proposal"
    using demo_ground by (simp add: demo_input_def demo_texts)
  then show ?thesis unfolding commit_grounded_def demo_commit_def by (rule commit_ground_cong)
qed

theorem stored_claims_grounded_witness:
  "demo_fact 100 3 ''fell'' \<in> set (kb_facts (xd_kb (snd (demo_commit demo_extraction_db)))) \<and>
   (\<exists>i \<in> set (x_facts demo_proposal). fa_content (demo_fact 100 3 ''fell'') = xf_content i \<and>
      anchored (\<lambda>s. s) (chapter_texts 1 3 demo_codex) (xf_evidence i) (xf_chunks i))"
proof -
  have "commit_grounded (\<lambda>s. s) (\<lambda>s. s) demo_extract_reading demo_codex demo_input demo_meta (\<lambda>_. []) Map.empty False demo_proposal demo_extraction_db =
      (Inr False, snd (demo_commit demo_extraction_db))"
    using demo_commit_run(1) by (simp add: demo_grounded prod_eq_iff)
  note g = stored_claims_grounded [OF this refl, THEN conjunct1]
  have f: "demo_fact 100 3 ''fell'' \<in> set (kb_facts (xd_kb (snd (demo_commit demo_extraction_db))))"
    unfolding demo_commit_run(2) by simp
  show ?thesis using f bspec [OF g f] by (simp add: demo_fact_def demo_input_def)
qed

end
