(* ===== verification/Acquisition_Document.thy ===== *)
theory Acquisition_Document
  imports Prelude
begin

text \<open>
  Imported books: the block stream every parser produces (\<open>modules/acquisition/domain/document.py\<close>) and the rendering of a range of
  blocks into the two texts of a chapter (\<open>application/render.py\<close>). \<open>nh3.clean\<close> is the optional argument \<open>clean\<close>; without it the code
  escapes the plain text.
\<close>

section \<open>Blocks and documents\<close>

datatype block_kind = Heading | Paragraph | Image | Scene_break | Page_break | Caption | Footnote | Blank

text \<open>The keys of \<open>loc\<close> the code reads are fields; a missing list is empty, a missing number zero.\<close>

record block =
  bk_kind :: block_kind
  bk_text :: string
  bk_level :: "int option"
  bk_asset :: "string option"
  bk_font_size :: "rat option"
  bk_page :: "int option"
  bk_html :: "string option"
  bk_quote :: bool
  bk_loc_page :: "int option"
  bk_end_page :: "int option"
  bk_edge :: bool
  bk_bbox :: "rat list"
  bk_last_line :: "rat list"
  bk_page_height :: rat
  bk_page_width :: rat

record book_asset =
  ba_ext :: "string option"
  ba_mime :: "string option"
  ba_kind :: "string option"
  ba_width :: "int option"
  ba_height :: "int option"

record book_document =
  dc_blocks :: "block list"
  dc_meta :: "(string \<times> json) list"
  dc_assets :: "(string \<times> book_asset) list"
  dc_format :: string

definition text_kind :: "block_kind \<Rightarrow> bool" where
  "text_kind k \<longleftrightarrow> k \<in> {Heading, Paragraph, Caption, Footnote}"

section \<open>Rendering\<close>

definition escape_html_char :: "char \<Rightarrow> string" where
  "escape_html_char c =
     (if c = CHR ''&'' then ''&amp;'' else if c = CHR ''<'' then ''&lt;'' else if c = CHR ''>'' then ''&gt;''
      else if c = CHR 0x22 then ''&quot;'' else if c = CHR 0x27 then ''&#x27;'' else [c])"

definition html_escape :: "string \<Rightarrow> string" where
  "html_escape s = concat (map escape_html_char s)"

definition heading_tag :: "int option \<Rightarrow> string" where
  "heading_tag level = ''h'' @ show_int (min (max ((if coalesce level 0 = 0 then 1 else coalesce level 0) + 1) 2) 4)"

record asset_view =
  av_url :: string
  av_width :: "int option"
  av_height :: "int option"

definition attribute :: "string \<Rightarrow> string \<Rightarrow> string" where
  "attribute k v = '' '' @ k @ ''='' @ [CHR 0x22] @ v @ [CHR 0x22]"

definition size_attribute :: "string \<Rightarrow> int option \<Rightarrow> string" where
  "size_attribute k v = (if coalesce v 0 = 0 then [] else attribute k (show_int (coalesce v 0)))"

definition img_html :: "asset_view option \<Rightarrow> string" where
  "img_html meta =
     (case meta of
        None \<Rightarrow> []
      | Some m \<Rightarrow>
          if av_url m = [] then []
          else ''<img'' @ attribute ''src'' (html_escape (av_url m)) @ attribute ''loading'' ''lazy'' @ attribute ''alt'' [] @
            size_attribute ''width'' (av_width m) @ size_attribute ''height'' (av_height m) @ ''>'')"

definition inline :: "bool \<Rightarrow> block \<Rightarrow> string" where
  "inline rich b = (if rich \<and> coalesce (bk_html b) [] \<noteq> [] then coalesce (bk_html b) [] else html_escape (bk_text b))"

definition wrap :: "string \<Rightarrow> string \<Rightarrow> string" where
  "wrap tag s = ''<'' @ tag @ ''>'' @ s @ ''</'' @ tag @ ''>''"

definition classed :: "string \<Rightarrow> string \<Rightarrow> string" where
  "classed c s = ''<p'' @ attribute ''class'' c @ ''>'' @ s @ ''</p>''"

text \<open>
  The loop over the blocks, with the parts of both texts in order. A caption right after an image that resolves is folded into its figure;
  its text is taken then, even when it is empty.
\<close>

fun render_parts :: "(string \<Rightarrow> asset_view option) \<Rightarrow> bool \<Rightarrow> block list \<Rightarrow> string list \<times> string list" where
  "render_parts resolve rich [] = ([], [])"
| "render_parts resolve rich (b # bs) =
     (let plain = (if text_kind (bk_kind b) \<and> bk_text b \<noteq> [] then [bk_text b] else []);
          img = img_html (if coalesce (bk_asset b) [] = [] then None else resolve (coalesce (bk_asset b) [])) in
      case bk_kind b of
        Heading \<Rightarrow> (case render_parts resolve rich bs of (h, t) \<Rightarrow> (wrap (heading_tag (bk_level b)) (inline rich b) # h, plain @ t))
      | Paragraph \<Rightarrow> (case render_parts resolve rich bs of (h, t) \<Rightarrow>
          ((if bk_quote b then wrap ''blockquote'' (wrap ''p'' (inline rich b)) else wrap ''p'' (inline rich b)) # h, plain @ t))
      | Scene_break \<Rightarrow> (case render_parts resolve rich bs of (h, t) \<Rightarrow> ((''<hr'' @ attribute ''class'' ''scene-break'' @ ''>'') # h, t))
      | Image \<Rightarrow>
          if img = [] then render_parts resolve rich bs
          else (case bs of
              c # cs \<Rightarrow>
                if bk_kind c = Caption
                then (case render_parts resolve rich cs of (h, t) \<Rightarrow>
                  (wrap ''figure'' (img @ wrap ''figcaption'' (inline rich c)) # h, bk_text c # t))
                else (case render_parts resolve rich bs of (h, t) \<Rightarrow> (wrap ''figure'' img # h, t))
            | [] \<Rightarrow> ([wrap ''figure'' img], []))
      | Caption \<Rightarrow> (case render_parts resolve rich bs of (h, t) \<Rightarrow> (classed ''caption'' (inline rich b) # h, plain @ t))
      | Footnote \<Rightarrow> (case render_parts resolve rich bs of (h, t) \<Rightarrow> (classed ''footnote'' (inline rich b) # h, plain @ t))
      | _ \<Rightarrow> render_parts resolve rich bs)"

definition flat_text :: "string list \<Rightarrow> string" where
  "flat_text ts = py_join [CHR 0x0A, CHR 0x0A] (filter (\<lambda>t. t \<noteq> []) (map py_strip ts))"

definition render_segment :: "(string \<Rightarrow> string) option \<Rightarrow> (string \<Rightarrow> asset_view option) \<Rightarrow> block list \<Rightarrow> string \<times> string" where
  "render_segment clean resolve bs =
     (let (h, t) = render_parts resolve (clean \<noteq> None) bs; html = py_join [CHR 0x0A] h in
      ((case clean of None \<Rightarrow> html | Some f \<Rightarrow> if html = [] then html else f html), flat_text t))"

section \<open>The two texts agree\<close>

definition prose :: "block list \<Rightarrow> string list" where
  "prose bs = map bk_text (filter (\<lambda>b. text_kind (bk_kind b)) bs)"

definition spoken :: "string list \<Rightarrow> string list" where
  "spoken ts = filter (\<lambda>t. t \<noteq> []) (map py_strip ts)"

lemma spoken_simps [simp]:
  "spoken [] = []"
  "spoken (t # ts) = (if py_strip t = [] then spoken ts else py_strip t # spoken ts)"
  "spoken (ts @ us) = spoken ts @ spoken us"
  by (simp_all add: spoken_def)

lemma prose_simps [simp]:
  "prose [] = []"
  "prose (b # bs) = (if text_kind (bk_kind b) then bk_text b # prose bs else prose bs)"
  by (simp_all add: prose_def)

lemma text_kind_simps [simp]:
  "text_kind Heading" "text_kind Paragraph" "text_kind Caption" "text_kind Footnote"
  "\<not> text_kind Image" "\<not> text_kind Scene_break" "\<not> text_kind Page_break" "\<not> text_kind Blank"
  by (simp_all add: text_kind_def)

lemma render_parts_plain:
  assumes "bk_kind b \<noteq> Image"
  shows "snd (render_parts resolve rich (b # bs)) =
    (if text_kind (bk_kind b) \<and> bk_text b \<noteq> [] then [bk_text b] else []) @ snd (render_parts resolve rich bs)"
  using assms by (cases "bk_kind b"; cases "render_parts resolve rich bs"; simp add: Let_def)

lemma render_parts_image:
  assumes "bk_kind b = Image"
  shows "snd (render_parts resolve rich (b # bs)) = snd (render_parts resolve rich bs) \<or>
    (\<exists>c cs. bs = c # cs \<and> bk_kind c = Caption \<and> snd (render_parts resolve rich (b # bs)) = bk_text c # snd (render_parts resolve rich cs))"
proof (cases bs)
  case Nil
  then show ?thesis using assms by (simp add: Let_def)
next
  case (Cons c cs)
  obtain h t where t: "render_parts resolve rich (c # cs) = (h, t)" by (cases "render_parts resolve rich (c # cs)") auto
  obtain h' t' where t': "render_parts resolve rich cs = (h', t')" by (cases "render_parts resolve rich cs") auto
  show ?thesis using assms t t' Cons by (cases "bk_kind c = Caption") (simp_all add: Let_def del: render_parts.simps(2) add: render_parts.simps(2) [of resolve rich b])
qed

lemma render_parts_spoken: "spoken (snd (render_parts resolve rich bs)) = spoken (prose bs)"
proof (induction bs rule: length_induct)
  case (1 bs)
  show ?case
  proof (cases bs)
    case (Cons b cs)
    have ih: "spoken (snd (render_parts resolve rich ds)) = spoken (prose ds)" if "length ds < length bs" for ds
      using 1 that by blast
    show ?thesis
    proof (cases "bk_kind b = Image")
      case True
      from render_parts_image [OF True, of resolve rich cs] show ?thesis
        using ih True Cons by (auto simp del: render_parts.simps)
    next
      case False
      then show ?thesis using ih [of cs] render_parts_plain [OF False, of resolve rich cs] Cons by (simp del: render_parts.simps)
    qed
  qed simp
qed

lemma render_segment_text: "snd (render_segment clean resolve bs) = flat_text (prose bs)"
  using render_parts_spoken [of resolve "clean \<noteq> None" bs] by (simp add: render_segment_def flat_text_def spoken_def Let_def split_beta)

text \<open>C38: The text of a chapter, which is what is counted, translated and indexed, does not depend on its pictures: it is the stripped texts of
  the text blocks, in order and without the blank ones, joined by blank lines. No caption is lost or doubled when it is folded into a figure,
  whatever images resolve and whether the HTML is sanitised or escaped.\<close>

theorem rendered_text_exact:
  "snd (render_segment clean resolve bs) =
     py_join [CHR 0x0A, CHR 0x0A] (filter (\<lambda>t. t \<noteq> []) (map (\<lambda>b. py_strip (bk_text b)) (filter (\<lambda>b. text_kind (bk_kind b)) bs)))"
  by (simp add: render_segment_text flat_text_def prose_def comp_def)

end
