(* ===== verification/Acquisition_Imports.thy ===== *)
theory Acquisition_Imports
  imports Codex_Entities Identity_Quota Acquisition_Document "HOL-Library.AList"
begin

text \<open>
  Import jobs of the Acquisition module: the table \<open>import_jobs\<close> with its repository (\<open>adapters/outbound/worker_jobs.py\<close>), the uploaded
  files on disk (\<open>adapters/outbound/importer/storage.py\<close>) and the service (\<open>application/imports.py\<close>). JSON columns are decoded
  objects; the digest of a file (SHA-256) is an argument.
\<close>

section \<open>JSON objects\<close>

type_synonym jdict = "(string \<times> json) list"

definition jget :: "string \<Rightarrow> jdict \<Rightarrow> json" where
  "jget k d = (case map_of d k of None \<Rightarrow> JNull | Some v \<Rightarrow> v)"

definition jset :: "string \<Rightarrow> json \<Rightarrow> jdict \<Rightarrow> jdict" where
  "jset k v d = AList.update k v d"

definition jmerge :: "jdict \<Rightarrow> jdict \<Rightarrow> jdict" where
  "jmerge d e = fold (\<lambda>(k, v). jset k v) e d"

fun jobj :: "json \<Rightarrow> jdict" where
  "jobj (JObj d) = d"
| "jobj _ = []"

fun jint :: "json \<Rightarrow> int" where
  "jint (JInt n) = n"
| "jint _ = 0"

fun jtext :: "json \<Rightarrow> string" where
  "jtext (JStr s) = s"
| "jtext _ = []"

lemma jget_jset [simp]: "jget k (jset k' v d) = (if k = k' then v else jget k d)"
  by (simp add: jget_def jset_def update_conv')

section \<open>The number in a string\<close>

text \<open>
  \<open>float(s)\<close>: an optional sign, digits (groups may be joined by underscores) with a point and an exponent, or the name of a special value.
  Values are exact; a magnitude that rounds beyond the largest double is infinite.
\<close>

definition digits_of :: "string \<Rightarrow> string option" where
  "digits_of s = (if s = [] then Some [] else digit_groups s)"

definition split_char :: "char \<Rightarrow> string \<Rightarrow> string \<times> string option" where
  "split_char c s = (takeWhile (\<lambda>x. x \<noteq> c) s, if c \<in> set s then Some (tl (dropWhile (\<lambda>x. x \<noteq> c) s)) else None)"

definition mantissa_of :: "string \<Rightarrow> rat option" where
  "mantissa_of s =
     (let (i, f) = split_char (CHR ''.'') s in
      case (digits_of i, digits_of (coalesce f [])) of
        (Some a, Some b) \<Rightarrow> if a = [] \<and> b = [] then None else Some (of_int (digits_value (a @ b)) / 10 ^ length b)
      | _ \<Rightarrow> None)"

definition exponent_of :: "string option \<Rightarrow> int option" where
  "exponent_of e =
     (case e of
        None \<Rightarrow> Some 0
      | Some [] \<Rightarrow> None
      | Some (c # cs) \<Rightarrow>
          if c = CHR ''-'' then map_option (\<lambda>d. - digits_value d) (digit_groups cs)
          else if c = CHR ''+'' then map_option digits_value (digit_groups cs)
          else map_option digits_value (digit_groups (c # cs)))"

definition float_limit :: rat where
  "float_limit = 2 ^ 1024 - 2 ^ 970"

definition magnitude_of :: "string \<Rightarrow> pyfloat option" where
  "magnitude_of s =
     (let b = py_lower s in
      if b = ''inf'' \<or> b = ''infinity'' then Some PosInf
      else if b = ''nan'' then Some NaN
      else let (m, e) = split_char (CHR ''e'') b in
        case (mantissa_of m, exponent_of e) of
          (Some q, Some k) \<Rightarrow>
            let v = (if 0 \<le> k then q * 10 ^ nat k else q / 10 ^ nat (- k)) in Some (if v \<ge> float_limit then PosInf else Fin v)
        | _ \<Rightarrow> None)"

fun fl_negate :: "pyfloat \<Rightarrow> pyfloat" where
  "fl_negate (Fin x) = Fin (- x)"
| "fl_negate PosInf = NegInf"
| "fl_negate NegInf = PosInf"
| "fl_negate NaN = NaN"

definition float_of_str :: "string \<Rightarrow> pyfloat option" where
  "float_of_str s =
     (case py_strip s of
        [] \<Rightarrow> None
      | c # cs \<Rightarrow>
          if c = CHR ''-'' then map_option fl_negate (magnitude_of cs)
          else if c = CHR ''+'' then magnitude_of cs
          else magnitude_of (c # cs))"

section \<open>The table\<close>

text \<open>A segment of the plan, the block range as the list of numbers it is in the JSON.\<close>

record segment =
  sg_id :: string
  sg_kind :: string
  sg_title :: "string option"
  sg_number :: "rat option"
  sg_part_label :: "string option"
  sg_range :: "int list"
  sg_include :: bool
  sg_word_count :: int

record import_job =
  ij_id :: int
  ij_user :: "int option"
  ij_novel :: "int option"
  ij_source :: "int option"
  ij_format :: string
  ij_path :: string
  ij_sha :: "string option"
  ij_status :: string
  ij_stage :: "string option"
  ij_meta :: jdict
  ij_plan :: "segment list option"
  ij_stats :: jdict
  ij_cost :: jdict
  ij_progress :: jdict
  ij_options :: jdict
  ij_error :: "string option"
  ij_token :: "string option"
  ij_claimed_at :: "int option"
  ij_created_at :: int
  ij_updated_at :: int

text \<open>The rows, the sequence of ids, the original files by job and extension, the stored block streams, the staged images.\<close>

type_synonym blob_key = "int \<times> string"

record import_db =
  ij_rows :: "import_job list"
  ij_next :: int
  blobs :: "blob_key \<rightharpoonup> string"
  docs :: "int \<rightharpoonup> book_document"
  staged_images :: "(int \<times> string) \<rightharpoonup> string"

definition find_import :: "int \<Rightarrow> import_db \<Rightarrow> import_job option" where
  "find_import jid db = row_by ij_id jid (ij_rows db)"

definition create_import :: "clock \<Rightarrow> string \<Rightarrow> string \<Rightarrow> string option \<Rightarrow> jdict \<Rightarrow> string \<Rightarrow> int option \<Rightarrow> (import_db, int) op" where
  "create_import clk fmt path sha options st uid db =
     (Inr (ij_next db),
      db\<lparr>ij_rows := ij_rows db @ [\<lparr>ij_id = ij_next db, ij_user = uid, ij_novel = None, ij_source = None, ij_format = fmt, ij_path = path,
             ij_sha = sha, ij_status = st, ij_stage = None, ij_meta = [], ij_plan = None, ij_stats = [], ij_cost = [], ij_progress = [],
             ij_options = options, ij_error = None, ij_token = None, ij_claimed_at = None, ij_created_at = now clk,
             ij_updated_at = now clk\<rparr>],
         ij_next := ij_next db + 1\<rparr>)"

text \<open>\<open>update_job\<close> with its fields as a function on the row.\<close>

definition update_import :: "clock \<Rightarrow> int \<Rightarrow> (import_job \<Rightarrow> import_job) \<Rightarrow> import_db \<Rightarrow> import_db" where
  "update_import clk jid f db =
     db\<lparr>ij_rows := sql_update (\<lambda>j. ij_id j = jid) (\<lambda>j. (f j)\<lparr>ij_updated_at := now clk\<rparr>) (ij_rows db)\<rparr>"

definition touch_import :: "clock \<Rightarrow> int \<Rightarrow> import_db \<Rightarrow> import_db" where
  "touch_import clk jid db = update_import clk jid (\<lambda>j. j) db"

definition delete_import :: "int \<Rightarrow> import_db \<Rightarrow> import_db" where
  "delete_import jid db = db\<lparr>ij_rows := sql_delete (\<lambda>j. ij_id j = jid) (ij_rows db)\<rparr>"

definition batch_siblings :: "string \<Rightarrow> import_db \<Rightarrow> import_job list" where
  "batch_siblings b db = sort_key ij_id (filter (\<lambda>j. jget ''batch_id'' (ij_options j) = JStr b) (ij_rows db))"

definition list_imports :: "nat \<Rightarrow> int option \<Rightarrow> import_db \<Rightarrow> import_job list" where
  "list_imports limit uid db =
     take limit (sort_key (\<lambda>j. - ij_created_at j) (filter (\<lambda>j. uid = None \<or> ij_user j = uid) (ij_rows db)))"

definition duplicate_imports :: "string \<Rightarrow> int option \<Rightarrow> import_db \<Rightarrow> import_job list" where
  "duplicate_imports sha excluded db =
     (if sha = [] then []
      else sort_key (\<lambda>j. - ij_created_at j) (filter (\<lambda>j. ij_sha j = Some sha \<and> Some (ij_id j) \<noteq> excluded) (ij_rows db)))"

section \<open>Claims and leases\<close>

definition IMPORT_TRIGGERS :: "string list" where
  "IMPORT_TRIGGERS = [''uploaded'', ''ocr_pending'', ''committing'']"

definition MARKER_RESUME :: "(string list \<times> string) list" where
  "MARKER_RESUME = [([''parsing'', ''segmenting''], ''uploaded''), ([''ocr_running''], ''ocr_pending''), ([''commit_running''], ''committing'')]"

definition marker :: "string \<Rightarrow> string" where
  "marker st = (if st = ''uploaded'' then ''parsing'' else if st = ''ocr_pending'' then ''ocr_running''
     else if st = ''committing'' then ''commit_running'' else st)"

definition claim_import :: "clock \<Rightarrow> string \<Rightarrow> (import_db, import_job option) op" where
  "claim_import clk worker db =
     (case sql_first ij_updated_at (filter (\<lambda>j. ij_status j \<in> set IMPORT_TRIGGERS) (ij_rows db)) of
        None \<Rightarrow> (Inr None, db)
      | Some j \<Rightarrow>
          let db' = update_import clk (ij_id j) (\<lambda>r. r\<lparr>ij_status := marker (ij_status r), ij_stage := Some ''claimed'',
                ij_token := Some worker, ij_claimed_at := Some (now clk)\<rparr>) db
          in (Inr (find_import (ij_id j) db'), db'))"

definition renew_import_lease :: "clock \<Rightarrow> int \<Rightarrow> string \<Rightarrow> import_db \<Rightarrow> import_db" where
  "renew_import_lease clk jid token db =
     db\<lparr>ij_rows := sql_update (\<lambda>j. ij_id j = jid \<and> ij_token j = Some token) (\<lambda>j. j\<lparr>ij_claimed_at := Some (now clk)\<rparr>) (ij_rows db)\<rparr>"

definition lease_stale :: "clock \<Rightarrow> int \<Rightarrow> import_job \<Rightarrow> bool" where
  "lease_stale clk lease j \<longleftrightarrow> (case ij_claimed_at j of None \<Rightarrow> True | Some t \<Rightarrow> t < now clk - lease)"

definition recover_import_leases :: "clock \<Rightarrow> string list \<Rightarrow> string \<Rightarrow> int \<Rightarrow> import_db \<Rightarrow> import_db" where
  "recover_import_leases clk markers trigger lease db =
     db\<lparr>ij_rows := sql_update (\<lambda>j. ij_status j \<in> set markers \<and> lease_stale clk lease j)
         (\<lambda>j. j\<lparr>ij_status := trigger, ij_stage := Some ''requeued (lease expired)'', ij_token := None, ij_claimed_at := None\<rparr>) (ij_rows db)\<rparr>"

definition recover_imports :: "clock \<Rightarrow> int \<Rightarrow> import_db \<Rightarrow> import_db" where
  "recover_imports clk lease db = fold (\<lambda>(ms, t). recover_import_leases clk ms t lease) MARKER_RESUME db"

definition reactivate_paused :: "import_db \<Rightarrow> import_db" where
  "reactivate_paused db =
     db\<lparr>ij_rows := sql_update (\<lambda>j. ij_status j = ''ocr_paused'') (\<lambda>j. j\<lparr>ij_status := ''ocr_pending'',
         ij_stage := Some ''resuming OCR (budget available)'', ij_token := None, ij_claimed_at := None\<rparr>) (ij_rows db)\<rparr>"

section \<open>Files\<close>

definition blob_key :: "int \<Rightarrow> string \<Rightarrow> blob_key" where
  "blob_key jid ext = (jid, dropWhile (\<lambda>c. c = CHR ''.'') ext)"

definition original_path :: "string \<Rightarrow> int \<Rightarrow> string \<Rightarrow> string" where
  "original_path dir jid ext = dir @ ''/'' @ show_int jid @ ''/original.'' @ dropWhile (\<lambda>c. c = CHR ''.'') ext"

definition init_upload :: "int \<Rightarrow> string \<Rightarrow> import_db \<Rightarrow> import_db" where
  "init_upload jid ext db =
     (if blobs db (blob_key jid ext) = None then db\<lparr>blobs := (blobs db)(blob_key jid ext \<mapsto> [])\<rparr> else db)"

definition upload_offset :: "int \<Rightarrow> string \<Rightarrow> import_db \<Rightarrow> nat" where
  "upload_offset jid ext db = length (coalesce (blobs db (blob_key jid ext)) [])"

definition write_chunk :: "int \<Rightarrow> string \<Rightarrow> nat \<Rightarrow> string \<Rightarrow> (import_db, nat) op" where
  "write_chunk jid ext k bs db =
     (let old = coalesce (blobs db (blob_key jid ext)) [] in
      if k > length old then (Inl (ValueError ''Non-contiguous chunk''), db)
      else let s = take k old @ bs @ drop (k + length bs) old in
        (Inr (length s), db\<lparr>blobs := (blobs db)(blob_key jid ext \<mapsto> s)\<rparr>))"

definition chunk_matches :: "int \<Rightarrow> string \<Rightarrow> nat \<Rightarrow> string \<Rightarrow> import_db \<Rightarrow> bool" where
  "chunk_matches jid ext k bs db = (take (length bs) (drop k (coalesce (blobs db (blob_key jid ext)) [])) = bs)"

definition save_original :: "int \<Rightarrow> string \<Rightarrow> string \<Rightarrow> import_db \<Rightarrow> import_db" where
  "save_original jid ext bs db = db\<lparr>blobs := (blobs db)(blob_key jid ext \<mapsto> bs)\<rparr>"

definition cleanup_import :: "int \<Rightarrow> import_db \<Rightarrow> import_db" where
  "cleanup_import jid db = db\<lparr>blobs := (\<lambda>k. if fst k = jid then None else blobs db k), docs := (docs db)(jid := None),
     staged_images := (\<lambda>k. if fst k = jid then None else staged_images db k)\<rparr>"

text \<open>The sweep of abandoned upload sessions.\<close>

definition stale_upload :: "clock \<Rightarrow> int \<Rightarrow> import_job \<Rightarrow> bool" where
  "stale_upload clk ttl j \<longleftrightarrow> ij_status j = ''receiving'' \<and> ij_updated_at j < now clk - ttl"

definition sweep_upload :: "clock \<Rightarrow> int \<Rightarrow> int \<Rightarrow> import_db \<Rightarrow> import_db" where
  "sweep_upload clk ttl jid db =
     (if \<exists>j \<in> set (ij_rows db). ij_id j = jid \<and> stale_upload clk ttl j
      then cleanup_import jid (db\<lparr>ij_rows := sql_delete (\<lambda>j. ij_id j = jid \<and> stale_upload clk ttl j) (ij_rows db)\<rparr>)
      else db)"

definition cleanup_stale_uploads :: "clock \<Rightarrow> int \<Rightarrow> import_db \<Rightarrow> import_db" where
  "cleanup_stale_uploads clk ttl db = fold (sweep_upload clk ttl) (map ij_id (filter (stale_upload clk ttl) (ij_rows db))) db"

section \<open>The service\<close>

record import_config =
  mc_root :: string
  mc_upload_bytes :: nat
  mc_upload_mb :: nat
  mc_chunked_bytes :: nat
  mc_chunked_mb :: nat

definition own_import :: "int \<Rightarrow> principal \<Rightarrow> import_db \<Rightarrow> import_job result" where
  "own_import jid p db =
     (case find_import jid db of
        None \<Rightarrow> Inl (NotFound ''Import job not found.'')
      | Some j \<Rightarrow> if \<not> is_admin p \<and> ij_user j \<noteq> Some (user_id p) then Inl (NotFound ''Import job not found.'') else Inr j)"

text \<open>\<open>os.path.splitext\<close>: the part from the last dot of the last component, leading dots not counting.\<close>

definition path_extension :: "string \<Rightarrow> string" where
  "path_extension s =
     (let base = rev (takeWhile (\<lambda>c. c \<noteq> CHR ''/'') (rev s)); b = dropWhile (\<lambda>c. c = CHR ''.'') base in
      if CHR ''.'' \<in> set b then CHR ''.'' # rev (takeWhile (\<lambda>c. c \<noteq> CHR ''.'') (rev b)) else [])"

definition import_format :: "string \<Rightarrow> (string \<times> string) result" where
  "import_format filename =
     (let ext = py_lower (path_extension filename) in
      if ext = ''.epub'' then Inr (ext, ''epub'') else if ext = ''.pdf'' then Inr (ext, ''pdf'')
      else Inl (ImportRequestError 400 ''Only .epub and .pdf files are supported.''))"

definition upload_of :: "import_job \<Rightarrow> jdict" where
  "upload_of j = jobj (jget ''upload'' (ij_options j))"

definition upload_ext :: "import_job \<Rightarrow> string" where
  "upload_ext j = (case map_of (upload_of j) ''ext'' of None \<Rightarrow> ij_format j | Some v \<Rightarrow> jtext v)"

definition declared_size :: "import_job \<Rightarrow> int" where
  "declared_size j = jint (jget ''size'' (upload_of j))"

definition doS :: "('s \<Rightarrow> 's) \<Rightarrow> ('s, unit) op" where
  "doS f s = (Inr (), f s)"

definition readS :: "('s \<Rightarrow> 'a result) \<Rightarrow> ('s, 'a) op" where
  "readS f s = (f s, s)"

text \<open>The single request; the bytes are read until the cap is passed.\<close>

definition upload_import ::
  "import_config \<Rightarrow> (string \<Rightarrow> string) \<Rightarrow> clock \<Rightarrow> string \<Rightarrow> string \<Rightarrow> principal \<Rightarrow> (import_db, int \<times> int list) op" where
  "upload_import cfg digest clk filename bs p =
     bindS (liftS (require_spend_allowed p)) (\<lambda>_.
     bindS (liftS (import_format filename)) (\<lambda>(ext, fmt).
     bindS (create_import clk fmt [] None [] ''receiving'' (Some (user_id p))) (\<lambda>jid.
       if length bs > mc_upload_bytes cfg
       then bindS (doS (\<lambda>db. cleanup_import jid (delete_import jid db))) (\<lambda>_.
         raiseS (ImportRequestError 413 (''File exceeds the '' @ show_nat (mc_upload_mb cfg) @ '' MB upload cap.'')))
       else if bs = []
       then bindS (doS (\<lambda>db. cleanup_import jid (delete_import jid db))) (\<lambda>_. raiseS (ImportRequestError 400 ''Uploaded file is empty.''))
       else bindS (doS (\<lambda>db. update_import clk jid (\<lambda>j. j\<lparr>ij_path := original_path (mc_root cfg) jid ext, ij_sha := Some (digest bs),
           ij_status := ''uploaded''\<rparr>) (save_original jid ext bs db))) (\<lambda>_.
         readS (\<lambda>db. Inr (jid, map ij_id (duplicate_imports (digest bs) (Some jid) db)))))))"

definition upload_init :: "import_config \<Rightarrow> clock \<Rightarrow> string \<Rightarrow> int \<Rightarrow> principal \<Rightarrow> (import_db, int) op" where
  "upload_init cfg clk filename sz p =
     bindS (liftS (require_spend_allowed p)) (\<lambda>_.
     bindS (liftS (import_format filename)) (\<lambda>(ext, fmt).
       if sz \<le> 0 then raiseS (ImportRequestError 422 ''A positive declared file size is required.'')
       else if sz > int (mc_chunked_bytes cfg)
       then raiseS (ImportRequestError 413 (''File exceeds the '' @ show_nat (mc_chunked_mb cfg) @ '' MB upload cap.''))
       else bindS (create_import clk fmt [] None
           [(''upload'', JObj [(''size'', JInt sz), (''ext'', JStr (dropWhile (\<lambda>c. c = CHR ''.'') ext))])] ''receiving'' (Some (user_id p))) (\<lambda>jid.
         bindS (doS (\<lambda>db. update_import clk jid (\<lambda>j. j\<lparr>ij_path := original_path (mc_root cfg) jid ext\<rparr>) (init_upload jid ext db))) (\<lambda>_.
           returnS jid))))"

definition upload_status :: "int \<Rightarrow> principal \<Rightarrow> import_db \<Rightarrow> (nat \<times> int \<times> bool) result" where
  "upload_status jid p db =
     bindE (own_import jid p db) (\<lambda>j. Inr (upload_offset jid (upload_ext j) db, declared_size j, ij_status j \<noteq> ''receiving''))"

definition upload_chunk :: "clock \<Rightarrow> int \<Rightarrow> string \<Rightarrow> string \<Rightarrow> principal \<Rightarrow> (import_db, nat) op" where
  "upload_chunk clk jid header bs p =
     bindS (readS (own_import jid p)) (\<lambda>j.
       if ij_status j \<noteq> ''receiving'' then raiseS (ImportRequestError 409 ''Upload session is not open.'')
       else case int_of_str header of
         None \<Rightarrow> raiseS (ImportRequestError 400 ''Invalid Upload-Offset header.'')
       | Some k \<Rightarrow>
           if k < 0 then raiseS (ImportRequestError 400 ''Upload-Offset must be non-negative.'')
           else if bs = [] then raiseS (ImportRequestError 400 ''Empty chunk.'')
           else bindS (readS (\<lambda>db. Inr (upload_offset jid (upload_ext j) db))) (\<lambda>current.
             if nat k + length bs \<le> current
             then bindS (readS (\<lambda>db. Inr (chunk_matches jid (upload_ext j) (nat k) bs db))) (\<lambda>same.
               if same then bindS (doS (touch_import clk jid)) (\<lambda>_. returnS current)
               else raiseS (ImportRequestError 409 ''Chunk conflicts with already-received bytes.''))
             else if nat k \<noteq> current then raiseS (ImportRequestError 409 ''Stale upload offset; resume from the current cursor.'')
             else if declared_size j \<noteq> 0 \<and> k + int (length bs) > declared_size j
             then raiseS (ImportRequestError 413 ''Chunk would exceed the declared upload size.'')
             else bindS (write_chunk jid (upload_ext j) (nat k) bs) (\<lambda>new. bindS (doS (touch_import clk jid)) (\<lambda>_. returnS new))))"

definition upload_complete :: "(string \<Rightarrow> string) \<Rightarrow> clock \<Rightarrow> int \<Rightarrow> principal \<Rightarrow> (import_db, string \<times> int list) op" where
  "upload_complete digest clk jid p =
     bindS (liftS (require_spend_allowed p)) (\<lambda>_.
     bindS (readS (own_import jid p)) (\<lambda>j.
       if ij_status j \<noteq> ''receiving'' then returnS (ij_status j, [])
       else if declared_size j \<le> 0 then raiseS (ImportRequestError 400 ''Upload has no declared size; re-initialize the upload.'')
       else bindS (readS (\<lambda>db. Inr (upload_offset jid (upload_ext j) db))) (\<lambda>sz.
         if int sz \<noteq> declared_size j
         then raiseS (ImportRequestError 400 (''Upload incomplete: have '' @ show_nat sz @ '' bytes, expected '' @ show_int (declared_size j) @ ''.''))
         else bindS (readS (\<lambda>db. Inr (digest (coalesce (blobs db (blob_key jid (upload_ext j))) [])))) (\<lambda>sha.
           bindS (doS (update_import clk jid (\<lambda>r. r\<lparr>ij_sha := Some sha, ij_status := ''uploaded'', ij_stage := None\<rparr>))) (\<lambda>_.
             readS (\<lambda>db. Inr (''uploaded'', map ij_id (duplicate_imports sha (Some jid) db))))))))"

text \<open>Watched folders: one job for each file, with the options of the batch; a name with another suffix ends the loop.\<close>

fun enqueue_batch ::
  "import_config \<Rightarrow> (string \<Rightarrow> string) \<Rightarrow> clock \<Rightarrow> jdict \<Rightarrow> int \<Rightarrow> (string \<times> string) list \<Rightarrow> (import_db, int list) op" where
  "enqueue_batch cfg digest clk options uid [] = returnS []"
| "enqueue_batch cfg digest clk options uid ((bs, name) # fs) =
     bindS (liftS (import_format name)) (\<lambda>(ext, fmt).
     bindS (create_import clk fmt [] None options ''receiving'' (Some uid)) (\<lambda>jid.
     bindS (doS (\<lambda>db. update_import clk jid (\<lambda>j. j\<lparr>ij_path := original_path (mc_root cfg) jid ext, ij_sha := Some (digest bs),
         ij_status := ''uploaded''\<rparr>) (save_original jid ext bs db))) (\<lambda>_.
     bindS (enqueue_batch cfg digest clk options uid fs) (\<lambda>ids. returnS (jid # ids)))))"

definition batch_options :: "string \<Rightarrow> bool \<Rightarrow> bool \<Rightarrow> jdict" where
  "batch_options b auto_commit grouped = [(''batch_id'', JStr b), (''auto_commit'', JBool auto_commit), (''group_series'', JBool grouped)]"

text \<open>\<open>batch\<close> of the service: \<open>fs\<close> are the importable files found under the folder, \<open>None\<close> when it is none.\<close>

definition import_batch ::
  "import_config \<Rightarrow> (string \<Rightarrow> string) \<Rightarrow> clock \<Rightarrow> string \<Rightarrow> (string \<times> string) list option \<Rightarrow> bool \<Rightarrow> bool \<Rightarrow> principal \<Rightarrow>
   (import_db, int list) op" where
  "import_batch cfg digest clk b fs auto_commit grouped p =
     (case fs of
        None \<Rightarrow> raiseS (ImportRequestError 400 ''Not a directory'')
      | Some files \<Rightarrow>
          if files = [] then raiseS (ImportRequestError 404 ''No .epub/.pdf files found'')
          else enqueue_batch cfg digest clk (batch_options b auto_commit grouped) (user_id p) files)"

section \<open>Reviewing a plan\<close>

definition EDITABLE_METADATA :: "string list" where
  "EDITABLE_METADATA = [''title'', ''author'', ''description'', ''language'', ''series'', ''series_index'', ''volume_label'']"

definition text_limit :: "string \<Rightarrow> nat" where
  "text_limit k = (if k = ''description'' then 20000 else if k = ''language'' then 32 else 500)"

definition in_quotes :: "string \<Rightarrow> string" where
  "in_quotes s = [CHR 0x27] @ s @ [CHR 0x27]"

fun float_of_json :: "json \<Rightarrow> pyfloat option" where
  "float_of_json (JInt n) = Some (Fin (of_int n))"
| "float_of_json (JFloat x) = Some (Fin x)"
| "float_of_json (JBool b) = Some (Fin (if b then 1 else 0))"
| "float_of_json (JStr s) = float_of_str s"
| "float_of_json _ = None"

definition index_override :: "json \<Rightarrow> json result" where
  "index_override v =
     (if v = JNull \<or> v = JStr [] then Inr JNull
      else case float_of_json v of
        None \<Rightarrow> Inl (ImportRequestError 422 ''Volume number must be numeric.'')
      | Some (Fin x) \<Rightarrow> Inr (JFloat x)
      | Some _ \<Rightarrow> Inl (ImportRequestError 422 ''Volume number must be a finite number.''))"

definition text_override :: "string \<Rightarrow> json \<Rightarrow> json result" where
  "text_override k v =
     (case v of
        JNull \<Rightarrow> Inr JNull
      | JStr s \<Rightarrow>
          if length (py_strip s) > text_limit k
          then Inl (ImportRequestError 422 (''Metadata field '' @ in_quotes k @ '' exceeds '' @ show_nat (text_limit k) @ '' characters.''))
          else Inr (if py_strip s = [] then JNull else JStr (py_strip s))
      | _ \<Rightarrow> Inl (ImportRequestError 422 (''Metadata field '' @ in_quotes k @ '' must be text.'')))"

fun override_items :: "jdict \<Rightarrow> jdict result" where
  "override_items [] = Inr []"
| "override_items ((k, v) # d) =
     bindE (if k = ''series_index'' then index_override v else text_override k v) (\<lambda>w.
     bindE (override_items d) (\<lambda>e. Inr ((k, w) # e)))"

definition metadata_override :: "jdict \<Rightarrow> jdict result" where
  "metadata_override d =
     (if \<exists>k \<in> fst ` set d. k \<notin> set EDITABLE_METADATA then Inl (ImportRequestError 422 ''Unsupported metadata field(s)'') else override_items d)"

definition range_ok :: "nat option \<Rightarrow> segment \<Rightarrow> bool" where
  "range_ok blocks s \<longleftrightarrow>
     (case sg_range s of
        [a, b] \<Rightarrow> 0 \<le> a \<and> a \<le> b \<and> (case blocks of None \<Rightarrow> True | Some n \<Rightarrow> b < int n)
      | _ \<Rightarrow> False)"

text \<open>The number of blocks bounds the ranges when the stored document can be read.\<close>

definition block_count :: "int \<Rightarrow> import_db \<Rightarrow> nat option" where
  "block_count jid db = map_option (\<lambda>d. length (dc_blocks d)) (docs db jid)"

definition update_plan ::
  "clock \<Rightarrow> int \<Rightarrow> segment list \<Rightarrow> jdict option \<Rightarrow> principal \<Rightarrow> (import_db, unit) op" where
  "update_plan clk jid segs metadata p =
     bindS (readS (own_import jid p)) (\<lambda>j.
       if ij_status j \<in> {''committing'', ''committed''} then raiseS (ImportRequestError 409 ''This job has already been committed.'')
       else if segs = [] then raiseS (ImportRequestError 422 ''Plan must contain a non-empty segments list.'')
       else bindS (readS (\<lambda>db. Inr (block_count jid db))) (\<lambda>blocks. case filter (\<lambda>s. \<not> range_ok blocks s) segs of
         s # _ \<Rightarrow> raiseS (ImportRequestError 422 (''Segment '' @ in_quotes (sg_id s) @ '' has an invalid block_range.''))
       | [] \<Rightarrow>
         (case metadata of
            None \<Rightarrow> doS (update_import clk jid (\<lambda>r. r\<lparr>ij_plan := Some segs\<rparr>))
          | Some d \<Rightarrow>
              bindS (liftS (metadata_override d)) (\<lambda>w.
                let saved = jmerge (jobj (jget ''metadata_override'' (ij_options j))) w in
                doS (update_import clk jid (\<lambda>r. r\<lparr>ij_plan := Some segs,
                  ij_options := jset ''metadata_override'' (JObj saved) (ij_options j), ij_meta := jmerge (ij_meta j) saved\<rparr>))))))"

section \<open>Committing, OCR and ending a job\<close>

text \<open>The target of a commit: a new novel, the end of a novel, the chapters of a source.\<close>

definition commit_target :: "string \<Rightarrow> int option \<Rightarrow> int option \<Rightarrow> rat \<Rightarrow> json result" where
  "commit_target mode nid sid offset =
     (if mode = ''append''
      then if coalesce nid 0 = 0 then Inl (ImportRequestError 422 ''Append mode requires a novel_id.'')
           else Inr (JObj [(''novel_id'', JInt (coalesce nid 0)), (''offset'', JFloat offset)])
      else if mode = ''replace''
      then if coalesce sid 0 = 0 then Inl (ImportRequestError 422 ''Replace mode requires a source_id.'')
           else Inr (JObj [(''source_id'', JInt (coalesce sid 0)), (''offset'', JFloat offset)])
      else Inr (JStr ''new''))"

text \<open>
  \<open>editable\<close> is the catalogue's check for the caller, \<open>source_novel\<close> the novel of a source.
\<close>

definition commit_import_job ::
  "(int \<Rightarrow> unit result) \<Rightarrow> (int \<Rightarrow> int option) \<Rightarrow> clock \<Rightarrow> int \<Rightarrow> string \<Rightarrow> int option \<Rightarrow> int option \<Rightarrow> rat \<Rightarrow> bool option \<Rightarrow> bool \<Rightarrow>
   principal \<Rightarrow> (import_db, unit) op" where
  "commit_import_job editable source_novel clk jid mode nid sid offset is_raw as_volume p =
     bindS (readS (own_import jid p)) (\<lambda>j.
       if mode = ''replace'' \<and> as_volume
       then raiseS (ImportRequestError 422 ''as_volume=true is supported only for new and append commits'')
       else bindS (liftS (
           if mode = ''append'' \<and> coalesce nid 0 \<noteq> 0 then editable (coalesce nid 0)
           else if mode = ''replace'' \<and> coalesce sid 0 \<noteq> 0
           then (case source_novel (coalesce sid 0) of None \<Rightarrow> Inr () | Some n \<Rightarrow> if n = 0 then Inr () else editable n)
           else Inr ())) (\<lambda>_.
         if ij_status j \<notin> {''awaiting_review'', ''failed''}
         then raiseS (ImportRequestError 409 (''Job is '' @ in_quotes (ij_status j) @ '', not ready to commit.''))
         else if coalesce (ij_plan j) [] = [] then raiseS (ImportRequestError 409 ''Job has no plan to commit; re-parse it first.'')
         else bindS (liftS (commit_target mode nid sid offset)) (\<lambda>target.
           let options = jset ''as_volume'' (JBool as_volume) (jset ''target'' target (ij_options j));
               options' = (case is_raw of None \<Rightarrow> options | Some b \<Rightarrow> jset ''is_raw'' (JBool b) options)
           in doS (update_import clk jid (\<lambda>r. r\<lparr>ij_options := options', ij_status := ''committing'', ij_error := None\<rparr>)))))"

text \<open>Confirming OCR reserves the pages of the estimate in the quota of the caller.\<close>

definition ocr_pages :: "import_job \<Rightarrow> int" where
  "ocr_pages j = (if jint (jget ''pages'' (ij_cost j)) \<noteq> 0 then jint (jget ''pages'' (ij_cost j)) else jint (jget ''total'' (ij_progress j)))"

definition confirm_ocr :: "clock \<Rightarrow> int \<Rightarrow> bool \<Rightarrow> principal \<Rightarrow> (import_db \<times> quota_table, unit) op" where
  "confirm_ocr clk jid gemini_first p s =
     (let (db, q) = s in
      case bindE (require_spend_allowed p) (\<lambda>_. own_import jid p db) of
        Inl e \<Rightarrow> (Inl e, s)
      | Inr j \<Rightarrow>
          if ij_status j \<notin> {''awaiting_ocr_confirm'', ''ocr_paused''}
          then (Inl (ImportRequestError 409 (''Job is '' @ in_quotes (ij_status j) @ '', not awaiting OCR confirmation.'')), s)
          else case (if ocr_pages j > 0 then check_and_reserve q (today clk) p ''ocr_pages'' (ocr_pages j) else Inr q) of
            Inl e \<Rightarrow> (Inl e, s)
          | Inr q' \<Rightarrow>
              (Inr (), (update_import clk jid (\<lambda>r. r\<lparr>ij_options := jset ''gemini_first'' (JBool gemini_first) (ij_options j),
                 ij_status := ''ocr_pending'', ij_stage := Some ''OCR queued'', ij_error := None\<rparr>) db, q')))"

definition cancel_import :: "clock \<Rightarrow> int \<Rightarrow> principal \<Rightarrow> (import_db, unit) op" where
  "cancel_import clk jid p =
     bindS (readS (own_import jid p)) (\<lambda>_.
       doS (update_import clk jid (\<lambda>r. r\<lparr>ij_status := ''canceled'', ij_stage := Some ''canceled''\<rparr>)))"

definition remove_import :: "int \<Rightarrow> principal \<Rightarrow> (import_db, unit) op" where
  "remove_import jid p =
     bindS (readS (own_import jid p)) (\<lambda>_. doS (\<lambda>db. cleanup_import jid (delete_import jid db)))"

lemma find_update_import:
  "(\<And>r. ij_id (f r) = ij_id r) \<Longrightarrow> find_import i (update_import clk jid f db) =
    (if i = jid then map_option (\<lambda>r. (f r)\<lparr>ij_updated_at := now clk\<rparr>) (find_import i db) else find_import i db)"
  using row_by_update_key [of ij_id "\<lambda>r. (f r)\<lparr>ij_updated_at := now clk\<rparr>" i jid "\<lambda>_. True" "ij_rows db"]
  by (simp add: find_import_def update_import_def)

end
