(* ===== verification/Acquisition_Commit.thy ===== *)
theory Acquisition_Commit
  imports Acquisition_Imports Catalog_Access Reading_Translation Work_Store Codex_Retrieval Codex_Extraction
begin

text \<open>
  Committing a reviewed import: \<open>modules/acquisition/adapters/outbound/importer/commit.py\<close> with the operations of the four modules it
  binds in one transaction (\<open>workflows/commit_import.py\<close>, \<open>acquisition/adapters/outbound/catalog_workflows.py\<close>, the import operations
  of \<open>catalog/adapters/outbound/postgres.py\<close>, \<open>codex/adapters/outbound/artifacts.py\<close>), and the automatic codex build after it
  (\<open>bootstrap/acquisition_routes.py\<close>, \<open>bootstrap/acquisition_runtime.py\<close>). Printing of floats is an argument; locks have no
  counterpart.
\<close>

section \<open>State\<close>

record import_source =
  so_id :: int
  so_novel :: int
  so_adapter :: string
  so_start_url :: "string option"
  so_language :: "string option"
  so_is_raw :: bool
  so_offset :: rat
  so_label :: "string option"

record asset_row =
  as_novel :: int
  as_sha :: string
  as_path :: string
  as_mime :: "string option"
  as_kind :: string
  as_width :: "int option"
  as_height :: "int option"

record acq_state =
  aq_jobs :: import_db
  aq_sources :: "import_source list"
  aq_next_source :: int
  aq_assets :: "asset_row list"
  aq_files :: "string \<rightharpoonup> string"
  aq_catalog :: catalog_db
  aq_reading :: reading_db
  aq_codex :: extraction_db
  aq_work :: work_db

record commit_env =
  ce_clock :: clock
  ce_float :: "rat \<Rightarrow> string"
  ce_clean :: "(string \<Rightarrow> string) option"
  ce_auto_codex :: bool
  ce_user :: "int \<Rightarrow> principal option result"
  ce_settings :: settings

definition on_reading :: "(reading_db, 'a) op \<Rightarrow> (acq_state, 'a) op" where
  "on_reading m s = (case m (aq_reading s) of (r, db) \<Rightarrow> (r, s\<lparr>aq_reading := db\<rparr>))"

definition on_jobs :: "(import_db \<Rightarrow> import_db) \<Rightarrow> (acq_state, unit) op" where
  "on_jobs f = doS (\<lambda>s. s\<lparr>aq_jobs := f (aq_jobs s)\<rparr>)"

section \<open>Operations of the owners\<close>

definition find_source :: "int \<Rightarrow> acq_state \<Rightarrow> import_source option" where
  "find_source sid s = row_by so_id sid (aq_sources s)"

definition create_import_source :: "int \<Rightarrow> string \<Rightarrow> string \<Rightarrow> string \<Rightarrow> bool \<Rightarrow> rat \<Rightarrow> string \<Rightarrow> (acq_state, int) op" where
  "create_import_source nid adapter url lang raw offset label s =
     (Inr (aq_next_source s),
      s\<lparr>aq_sources := aq_sources s @ [\<lparr>so_id = aq_next_source s, so_novel = nid, so_adapter = adapter, so_start_url = Some url,
             so_language = Some lang, so_is_raw = raw, so_offset = offset, so_label = Some label\<rparr>],
         aq_next_source := aq_next_source s + 1\<rparr>)"

definition replace_import_source :: "int \<Rightarrow> string \<Rightarrow> string \<Rightarrow> string \<Rightarrow> bool \<Rightarrow> rat \<Rightarrow> string \<Rightarrow> acq_state \<Rightarrow> acq_state" where
  "replace_import_source sid adapter url lang raw offset label s =
     s\<lparr>aq_sources := sql_update (\<lambda>r. so_id r = sid) (\<lambda>r. r\<lparr>so_adapter := adapter, so_start_url := Some url, so_language := Some lang,
         so_is_raw := raw, so_offset := offset, so_label := Some label\<rparr>) (aq_sources s)\<rparr>"

definition asset_rel :: "int \<Rightarrow> string \<Rightarrow> string \<Rightarrow> string" where
  "asset_rel nid sha ext = show_int nid @ ''/'' @ sha @ ''.'' @ ext"

definition asset_url :: "int \<Rightarrow> string \<Rightarrow> string \<Rightarrow> string" where
  "asset_url nid sha ext = ''/api/assets/novels/'' @ show_int nid @ ''/'' @ sha @ ''.'' @ ext"

definition commit_asset :: "int \<Rightarrow> int \<Rightarrow> string \<Rightarrow> book_asset \<Rightarrow> acq_state \<Rightarrow> acq_state" where
  "commit_asset nid jid sha a s =
     (let ext = coalesce (ba_ext a) ''bin''; rel = asset_rel nid sha ext;
          s1 = (if aq_files s rel = None \<and> staged_images (aq_jobs s) (jid, sha @ ''.'' @ ext) \<noteq> None
                then s\<lparr>aq_files := (aq_files s)(rel := staged_images (aq_jobs s) (jid, sha @ ''.'' @ ext))\<rparr> else s)
      in if \<exists>r \<in> set (aq_assets s1). as_novel r = nid \<and> as_sha r = sha then s1
         else s1\<lparr>aq_assets := aq_assets s1 @ [\<lparr>as_novel = nid, as_sha = sha, as_path = rel, as_mime = ba_mime a,
             as_kind = coalesce (ba_kind a) ''illustration'', as_width = ba_width a, as_height = ba_height a\<rparr>]\<rparr>)"

definition finalize_import_job :: "clock \<Rightarrow> int \<Rightarrow> int \<Rightarrow> int \<Rightarrow> jdict \<Rightarrow> acq_state \<Rightarrow> acq_state" where
  "finalize_import_job clk jid nid sid stats s =
     s\<lparr>aq_jobs := update_import clk jid (\<lambda>j. j\<lparr>ij_novel := Some nid, ij_source := Some sid, ij_status := ''committed'',
         ij_stage := Some ''committed'', ij_stats := stats, ij_error := None\<rparr>) (aq_jobs s)\<rparr>"

record import_draft =
  dr_title :: string
  dr_author :: "string option"
  dr_description :: "string option"
  dr_language :: string
  dr_codex :: bool
  dr_series :: "string option"
  dr_owner :: "int option"
  dr_visibility :: string

definition create_imported_novel :: "clock \<Rightarrow> import_draft \<Rightarrow> (acq_state, int) op" where
  "create_imported_novel clk d s =
     (let db = aq_catalog s in
      (Inr (next_novel_id db),
       s\<lparr>aq_catalog := db\<lparr>novels := novels db @ [\<lparr>novel_id = next_novel_id db, owner_id = dr_owner d, visibility = dr_visibility d,
             contribution_policy = ''manual'', title = Some (dr_title d), author = dr_author d, description = dr_description d,
             cover_url = None, original_language = Some (dr_language d), codex_enabled = dr_codex d, series = dr_series d,
             status_tags = [], n_updated_at = now clk\<rparr>],
           next_novel_id := next_novel_id db + 1\<rparr>\<rparr>))"

definition set_cover_if_missing :: "clock \<Rightarrow> int \<Rightarrow> string \<Rightarrow> acq_state \<Rightarrow> acq_state" where
  "set_cover_if_missing clk nid url s =
     s\<lparr>aq_catalog := (aq_catalog s)\<lparr>novels := sql_update (\<lambda>n. novel_id n = nid \<and> cover_url n = None)
         (\<lambda>n. n\<lparr>cover_url := Some url, n_updated_at := now clk\<rparr>) (novels (aq_catalog s))\<rparr>\<rparr>"

definition touch_novel :: "clock \<Rightarrow> int \<Rightarrow> acq_state \<Rightarrow> acq_state" where
  "touch_novel clk nid s = s\<lparr>aq_catalog := update_novel_row nid (\<lambda>n. n\<lparr>n_updated_at := now clk\<rparr>) (aq_catalog s)\<rparr>"

definition novel_codex_enabled :: "int \<Rightarrow> acq_state \<Rightarrow> bool" where
  "novel_codex_enabled nid s = (case row_by novel_id nid (novels (aq_catalog s)) of None \<Rightarrow> False | Some n \<Rightarrow> codex_enabled n)"

text \<open>The tables of art, which the model does not hold, are left out.\<close>

definition invalidate_chapter_range :: "int \<Rightarrow> rat \<Rightarrow> rat \<Rightarrow> extraction_db \<Rightarrow> extraction_db" where
  "invalidate_chapter_range nid a b db =
     (let kb = xd_kb db; covered = (\<lambda>n. a \<le> n \<and> n \<le> b);
          updates = sql_delete (\<lambda>u. tu_novel_id u = nid \<and> tu_chapter u \<ge> a) (kb_thread_updates kb) in
      db\<lparr>xd_kb := kb\<lparr>
           kb_facts := sql_delete (\<lambda>f. fa_novel_id f = nid \<and> covered (fa_chapter f)) (kb_facts kb),
           kb_relationships := sql_delete (\<lambda>r. rl_novel_id r = nid \<and> covered (rl_chapter r)) (kb_relationships kb),
           kb_events := sql_delete (\<lambda>e. ev_novel_id e = nid \<and> covered (ev_chapter e)) (kb_events kb),
           kb_descriptions := sql_delete (\<lambda>d. de_novel_id d = nid \<and> covered (de_chapter d)) (kb_descriptions kb),
           kb_entities := sql_update (\<lambda>e. en_novel_id e = nid \<and> covered (en_first_seen e)) (\<lambda>e. e\<lparr>en_description := None\<rparr>) (kb_entities kb),
           kb_links := sql_delete (\<lambda>l. li_novel_id l = nid \<and> covered (li_revealed l)) (kb_links kb),
           kb_aliases := sql_delete (\<lambda>l. al_novel_id l = nid \<and> covered (al_revealed l) \<and> al_revealed l \<noteq> 0) (kb_aliases kb),
           kb_activity := sql_delete (\<lambda>x. ac_novel_id x = nid \<and> ac_chapter x \<ge> a) (kb_activity kb),
           kb_states := sql_delete (\<lambda>r. sr_novel_id r = nid \<and> sr_chapter r \<ge> a) (kb_states kb),
           kb_relation_states := sql_delete (\<lambda>r. rs_novel_id r = nid \<and> rs_chapter r \<ge> a) (kb_relation_states kb),
           kb_thread_updates := updates,
           kb_threads := sql_delete (\<lambda>t. th_novel_id t = nid \<and> th_introduced t \<ge> a \<and> th_id t \<notin> tu_thread_id ` set updates) (kb_threads kb),
           kb_wiki := sql_delete (\<lambda>w. wi_novel_id w = nid) (kb_wiki kb),
           kb_queries := sql_delete (\<lambda>q. qc_novel_id q = nid) (kb_queries kb)\<rparr>,
         xd_states := sql_delete (\<lambda>z. xz_novel_id z = nid \<and> xz_chapter z \<ge> a) (xd_states db),
         xd_summaries := sql_delete (\<lambda>c. cu_novel_id c = nid \<and> cu_chapter c \<ge> a) (xd_summaries db),
         xd_contexts := sql_delete (\<lambda>c. cc_novel_id c = nid \<and> cc_chapter c \<ge> a) (xd_contexts db),
         xd_segments := sql_delete (\<lambda>g. mg_novel_id g = nid \<and> mg_through g \<ge> a) (xd_segments db)\<rparr>)"

section \<open>Numbering\<close>

text \<open>\<open>round(x, 4)\<close>.\<close>

definition round4 :: "rat \<Rightarrow> rat" where
  "round4 x = of_int (py_round (x * 10000)) / 10000"

fun assign_from :: "rat \<Rightarrow> rat option \<Rightarrow> segment list \<Rightarrow> rat list" where
  "assign_from offset prev [] = []"
| "assign_from offset prev (s # ss) =
     (let g = (case sg_number s of
          None \<Rightarrow> round4 (coalesce prev offset + 1 / 1000)
        | Some n \<Rightarrow> (case prev of None \<Rightarrow> n + offset | Some l \<Rightarrow> if n + offset \<le> l then round4 (l + 1 / 1000) else n + offset))
      in g # assign_from offset (Some g) ss)"

definition assign_global_numbers :: "rat \<Rightarrow> segment list \<Rightarrow> rat list" where
  "assign_global_numbers offset ss = assign_from offset None ss"

definition sequential_numbers :: "rat \<Rightarrow> segment list \<Rightarrow> rat list" where
  "sequential_numbers offset ss = map (\<lambda>i. round4 (offset + of_nat i)) [1..<length ss + 1]"

section \<open>Metadata\<close>

definition meta_text :: "string \<Rightarrow> jdict \<Rightarrow> string" where
  "meta_text k d = jtext (jget k d)"

definition meta_opt :: "string \<Rightarrow> jdict \<Rightarrow> string option" where
  "meta_opt k d = (case jget k d of JStr s \<Rightarrow> Some s | _ \<Rightarrow> None)"

definition series_index :: "jdict \<Rightarrow> pyfloat option" where
  "series_index d =
     (case jget ''series_index'' d of
        JNull \<Rightarrow> None
      | JStr s \<Rightarrow> float_of_str s
      | JInt n \<Rightarrow> Some (Fin (of_int n))
      | JFloat x \<Rightarrow> Some (Fin x)
      | _ \<Rightarrow> None)"

definition volume_label :: "(rat \<Rightarrow> string) \<Rightarrow> pyfloat option \<Rightarrow> jdict \<Rightarrow> string" where
  "volume_label fmt idx d =
     (let explicit = py_strip (meta_text ''volume_label'' d); ttl = py_strip (meta_text ''title'' d) in
      if explicit \<noteq> [] then explicit
      else if ttl \<noteq> [] \<and> ttl \<notin> {''Imported book'', ''Imported PDF''} then ttl
      else case idx of
        None \<Rightarrow> ''Volume''
      | Some (Fin x) \<Rightarrow> ''Volume '' @ (if x = of_int \<lfloor>x\<rfloor> then show_int \<lfloor>x\<rfloor> else fmt x)
      | Some PosInf \<Rightarrow> ''Volume inf''
      | Some NegInf \<Rightarrow> ''Volume -inf''
      | Some NaN \<Rightarrow> ''Volume nan'')"

definition book_language :: "jdict \<Rightarrow> string" where
  "book_language d = take 8 (if meta_text ''language'' d = [] then ''en'' else meta_text ''language'' d)"

definition apply_metadata_override :: "jdict \<Rightarrow> book_document \<Rightarrow> book_document" where
  "apply_metadata_override options d =
     d\<lparr>dc_meta := fold (\<lambda>k m. case map_of (jobj (jget ''metadata_override'' options)) k of None \<Rightarrow> m | Some v \<Rightarrow> jset k v m)
         EDITABLE_METADATA (dc_meta d)\<rparr>"

section \<open>Loading\<close>

text \<open>
  \<open>_load_for_commit\<close>: the stored blocks, then plan, options and status as they are in the row now. The job of the caller keeps its other
  fields.
\<close>

definition load_for_commit :: "import_job \<Rightarrow> import_db \<Rightarrow> (import_job \<times> book_document \<times> segment list) result" where
  "load_for_commit j db =
     (case docs db (ij_id j) of
        None \<Rightarrow> Inl (FileNotFoundError ''blocks.json'')
      | Some d \<Rightarrow>
        (case find_import (ij_id j) db of
           None \<Rightarrow> Inl (TypeError ''NoneType'')
         | Some row \<Rightarrow>
             if ij_status row = ''committed'' \<and> ij_novel row \<noteq> None
             then Inl (ValueError (''Import job '' @ show_int (ij_id j) @ '' was already committed to novel '' @ show_int (the (ij_novel row)) @
               ''. Delete that novel or import again if you want a fresh copy.''))
             else let included = filter sg_include (coalesce (ij_plan row) []) in
               if \<exists>g \<in> set included. sg_range g = [] then Inl (LookupError ''list index out of range'')
               else if included = [] then Inl (ValueError ''Nothing to commit: no segments are marked include.'')
               else Inr (j\<lparr>ij_options := ij_options row\<rparr>, apply_metadata_override (ij_options row) d,
                 sort_key (\<lambda>g. hd (sg_range g)) included)))"

section \<open>Writing the chapters\<close>

definition py_index :: "int \<Rightarrow> nat \<Rightarrow> nat" where
  "py_index i n = (if i < 0 then nat (max 0 (i + int n)) else min (nat i) n)"

definition py_slice :: "int \<Rightarrow> int \<Rightarrow> 'x list \<Rightarrow> 'x list" where
  "py_slice a b xs = drop (py_index a (length xs)) (take (py_index b (length xs)) xs)"

definition segment_blocks :: "block list \<Rightarrow> segment \<Rightarrow> block list" where
  "segment_blocks bs g = py_slice (sg_range g ! 0) (sg_range g ! 1 + 1) bs"

text \<open>Where an import goes: the source, the versions its chapters had before a replacement, the offset, and a cover to set.\<close>

record destination =
  ds_source :: source_row
  ds_old_versions :: "(rat \<times> int) list"
  ds_offset :: rat
  ds_cover :: "string option"
  ds_invalidate :: "(rat \<times> rat) option"

definition asset_views :: "int \<Rightarrow> book_document \<Rightarrow> string list \<Rightarrow> string \<Rightarrow> asset_view option" where
  "asset_views nid d shas sha =
     (if sha \<in> set shas
      then map_option (\<lambda>a. \<lparr>av_url = asset_url nid sha (coalesce (ba_ext a) ''bin''), av_width = ba_width a, av_height = ba_height a\<rparr>)
        (map_of (dc_assets d) sha)
      else None)"

definition commit_assets :: "int \<Rightarrow> int \<Rightarrow> book_document \<Rightarrow> string list \<Rightarrow> acq_state \<Rightarrow> acq_state" where
  "commit_assets nid jid d shas s =
     fold (\<lambda>sha s. case map_of (dc_assets d) sha of None \<Rightarrow> s | Some a \<Rightarrow> commit_asset nid jid sha a s) shas s"

definition segment_chapter :: "commit_env \<Rightarrow> (string \<Rightarrow> asset_view option) \<Rightarrow> block list \<Rightarrow> rat \<times> segment \<Rightarrow> scraped_chapter" where
  "segment_chapter ce view bs ng =
     (let (n, g) = ng; texts = render_segment (ce_clean ce) view (segment_blocks bs g) in
      \<lparr>sch_title = Some (if coalesce (sg_title g) [] = [] then ''Chapter '' @ ce_float ce n else coalesce (sg_title g) []),
       sch_url = None, sch_raw_html = Some (fst texts), sch_content = Some (snd texts)\<rparr>)"

definition chapter_label :: "string option \<Rightarrow> segment \<Rightarrow> string option" where
  "chapter_label forced g = (if coalesce forced [] = [] then sg_part_label g else forced)"

definition write_chapter ::
  "commit_env \<Rightarrow> destination \<Rightarrow> (string \<Rightarrow> asset_view option) \<Rightarrow> block list \<Rightarrow> string option \<Rightarrow> rat \<times> segment \<Rightarrow> (acq_state, unit) op" where
  "write_chapter ce ds view bs label ng =
     bindS (on_reading (upsert_ingested_chapter (ds_source ds) (fst ng) (segment_chapter ce view bs ng) True (sg_kind (snd ng))
       (chapter_label label (snd ng)) (map_option (\<lambda>v. v + 1) (map_of (ds_old_versions ds) (fst ng))))) (\<lambda>_. returnS ())"

fun write_chapters ::
  "commit_env \<Rightarrow> destination \<Rightarrow> (string \<Rightarrow> asset_view option) \<Rightarrow> block list \<Rightarrow> string option \<Rightarrow> (rat \<times> segment) list \<Rightarrow> (acq_state, unit) op" where
  "write_chapters ce ds view bs label [] = returnS ()"
| "write_chapters ce ds view bs label (x # xs) = bindS (write_chapter ce ds view bs label x) (\<lambda>_. write_chapters ce ds view bs label xs)"

definition segment_numbers :: "bool \<Rightarrow> rat \<Rightarrow> segment list \<Rightarrow> rat list" where
  "segment_numbers sequential offset included =
     (if sequential then sequential_numbers offset included else assign_global_numbers offset included)"

text \<open>The images of the included blocks and the cover, and what they resolve to once they are committed.\<close>

definition segment_shas :: "book_document \<Rightarrow> segment list \<Rightarrow> string option \<Rightarrow> string list" where
  "segment_shas d included cover =
     remdups (filter (\<lambda>a. a \<noteq> []) (List.map_filter bk_asset (concat (map (segment_blocks (dc_blocks d)) included)) @
       (case cover of None \<Rightarrow> [] | Some c \<Rightarrow> [c])))"

definition import_view :: "destination \<Rightarrow> book_document \<Rightarrow> segment list \<Rightarrow> string \<Rightarrow> asset_view option" where
  "import_view ds d included = asset_views (src_novel_id (ds_source ds)) d (segment_shas d included (ds_cover ds))"

definition set_import_cover :: "commit_env \<Rightarrow> destination \<Rightarrow> (string \<Rightarrow> asset_view option) \<Rightarrow> acq_state \<Rightarrow> acq_state" where
  "set_import_cover ce ds view s =
     (case ds_cover ds of
        None \<Rightarrow> s
      | Some c \<Rightarrow> (case view c of None \<Rightarrow> s | Some v \<Rightarrow> set_cover_if_missing (ce_clock ce) (src_novel_id (ds_source ds)) (av_url v) s))"

definition write_segments ::
  "commit_env \<Rightarrow> int \<Rightarrow> book_document \<Rightarrow> segment list \<Rightarrow> destination \<Rightarrow> string option \<Rightarrow> bool \<Rightarrow> (acq_state, nat \<times> rat \<times> rat) op" where
  "write_segments ce jid d included ds label sequential =
     (let nid = src_novel_id (ds_source ds); numbers = segment_numbers sequential (ds_offset ds) included; view = import_view ds d included in
      bindS (readS (\<lambda>s. ensure (\<forall>n \<in> set numbers. n \<notin> set (other_source_numbers nid (src_id (ds_source ds)) (aq_reading s)))
        (ValueError ''Import would collide with existing chapters. Adjust the append offset and retry.''))) (\<lambda>_.
      bindS (liftS (ensure (\<forall>g \<in> set included. length (sg_range g) \<ge> 2) (LookupError ''list index out of range''))) (\<lambda>_.
      bindS (doS (commit_assets nid jid d (segment_shas d included (ds_cover ds)))) (\<lambda>_.
      bindS (write_chapters ce ds view (dc_blocks d) label (zip numbers included)) (\<lambda>_.
      bindS (doS (set_import_cover ce ds view)) (\<lambda>_.
        returnS (length included, Min (set numbers), Max (set numbers))))))))"

section \<open>The target of a commit\<close>

definition source_of :: "int \<Rightarrow> int \<Rightarrow> bool \<Rightarrow> string \<Rightarrow> source_row" where
  "source_of sid nid raw lang = \<lparr>src_id = sid, src_novel_id = nid, src_is_raw = raw, src_language = Some lang\<rparr>"

fun jrat :: "json \<Rightarrow> rat" where
  "jrat (JInt n) = of_int n"
| "jrat (JFloat x) = x"
| "jrat _ = 0"

definition as_volume :: "jdict \<Rightarrow> bool" where
  "as_volume options = json_truthy (jget ''as_volume'' options)"

definition upper_fmt :: "string \<Rightarrow> string" where
  "upper_fmt s = map (\<lambda>c. let n = of_char c :: nat in if 97 \<le> n \<and> n \<le> 122 then char_of (n - 32) else c) s"

definition replace_target :: "commit_env \<Rightarrow> import_job \<Rightarrow> jdict \<Rightarrow> jdict \<Rightarrow> (acq_state, destination) op" where
  "replace_target ce j meta target =
     (let sid = jint (jget ''source_id'' target); lang = book_language meta; raw = json_truthy (jget ''is_raw'' (ij_options j)) in
      bindS (readS (\<lambda>s. case find_source sid s of
          None \<Rightarrow> Inl (ValueError (''Replace target source '' @ show_int sid @ '' does not exist.''))
        | Some r \<Rightarrow> Inr r)) (\<lambda>r.
      bindS (readS (\<lambda>s. Inr (source_versions sid (aq_reading s)))) (\<lambda>old.
        let offset = (case map_of target ''offset'' of None \<Rightarrow> so_offset r | Some v \<Rightarrow> jrat v) in
        bindS (on_reading (doS (\<lambda>db. delete_source_chapters sid (mark_overlay_conflicts (so_novel r) (map fst old) db)))) (\<lambda>_.
        bindS (doS (replace_import_source sid (ij_format j) (ij_path j) lang raw offset
            (''Imported '' @ upper_fmt (ij_format j) @ '' (replaced)''))) (\<lambda>_.
          returnS \<lparr>ds_source = source_of sid (so_novel r) raw lang, ds_old_versions = old, ds_offset = offset, ds_cover = None,
            ds_invalidate = (if old = [] then None else Some (Min (fst ` set old), Max (fst ` set old)))\<rparr>)))))"

definition append_offset :: "int \<Rightarrow> reading_db \<Rightarrow> rat" where
  "append_offset nid db =
     (let existing = other_source_numbers nid (- 1) db in if existing = [] then 0 else of_int \<lfloor>Max (set existing)\<rfloor>)"

definition new_novel_draft :: "commit_env \<Rightarrow> import_job \<Rightarrow> jdict \<Rightarrow> import_draft" where
  "new_novel_draft ce j meta =
     (let ser = meta_text ''series'' meta; ttl = (if as_volume (ij_options j) \<and> ser \<noteq> [] then ser else meta_text ''title'' meta) in
      \<lparr>dr_title = (if ttl = [] then ''Imported book'' else ttl), dr_author = meta_opt ''author'' meta,
       dr_description = meta_opt ''description'' meta, dr_language = book_language meta, dr_codex = ce_auto_codex ce,
       dr_series = (if ser = [] then None else Some ser), dr_owner = ij_user j,
       dr_visibility = (if ij_user j = None then ''global'' else ''private'')\<rparr>)"

definition resolve_target :: "commit_env \<Rightarrow> import_job \<Rightarrow> jdict \<Rightarrow> (acq_state, destination) op" where
  "resolve_target ce j meta =
     (let options = ij_options j; target = jobj (jget ''target'' options); lang = book_language meta;
          raw = json_truthy (jget ''is_raw'' options); volume = as_volume options in
      if json_truthy (jget ''source_id'' target) then replace_target ce j meta target
      else bindS (
        if json_truthy (jget ''novel_id'' target)
        then let nid = jint (jget ''novel_id'' target) in
          bindS (readS (\<lambda>s. ensure (row_by novel_id nid (novels (aq_catalog s)) \<noteq> None)
            (ValueError (''Append target novel '' @ show_int nid @ '' does not exist.'')))) (\<lambda>_.
          readS (\<lambda>s. Inr (nid, (if volume then append_offset nid (aq_reading s) else jrat (jget ''offset'' target)), None)))
        else bindS (create_imported_novel (ce_clock ce) (new_novel_draft ce j meta)) (\<lambda>nid. returnS (nid, 0, meta_opt ''cover_sha'' meta)))
      (\<lambda>(nid, offset, cover).
        bindS (create_import_source nid (ij_format j) (ij_path j) lang raw offset
          (if volume then volume_label (ce_float ce) (series_index meta) meta else ''Imported '' @ upper_fmt (ij_format j))) (\<lambda>sid.
          returnS \<lparr>ds_source = source_of sid nid raw lang, ds_old_versions = [], ds_offset = offset, ds_cover = cover, ds_invalidate = None\<rparr>)))"

section \<open>Committing one job\<close>

definition result_stats :: "import_job \<Rightarrow> nat \<Rightarrow> rat \<Rightarrow> rat \<Rightarrow> jdict" where
  "result_stats j k lo hi =
     jset ''to_chapter'' (JFloat hi) (jset ''from_chapter'' (JFloat lo) (jset ''chapters_written'' (JInt (int k)) (ij_stats j)))"

text \<open>The operation of the transaction: the novel and the range written.\<close>

definition commit_operation :: "commit_env \<Rightarrow> import_job \<Rightarrow> book_document \<Rightarrow> segment list \<Rightarrow> (acq_state, int \<times> rat \<times> rat) op" where
  "commit_operation ce j d included =
     bindS (resolve_target ce j (dc_meta d)) (\<lambda>ds.
       let nid = src_novel_id (ds_source ds);
           volume = (as_volume (ij_options j) \<and> \<not> json_truthy (jget ''source_id'' (jobj (jget ''target'' (ij_options j))))) in
       bindS (write_segments ce (ij_id j) d included ds
           (if volume then Some (volume_label (ce_float ce) (series_index (dc_meta d)) (dc_meta d)) else None) volume) (\<lambda>(k, lo, hi).
       bindS (doS (case ds_invalidate ds of None \<Rightarrow> (\<lambda>s. s)
           | Some (a, b) \<Rightarrow> (\<lambda>s. s\<lparr>aq_codex := invalidate_chapter_range nid (min a lo) (max b hi) (aq_codex s)\<rparr>))) (\<lambda>_.
       bindS (doS (\<lambda>s. finalize_import_job (ce_clock ce) (ij_id j) nid (src_id (ds_source ds)) (result_stats j k lo hi)
           (touch_novel (ce_clock ce) nid s))) (\<lambda>_.
         returnS (nid, lo, hi)))))"

definition import_work :: "(work_db, 'a) op \<Rightarrow> (acq_state, 'a) op" where
  "import_work m s = (case m (aq_work s) of (r, db) \<Rightarrow> (r, s\<lparr>aq_work := db\<rparr>))"

definition import_quota :: "(quota_table \<Rightarrow> (quota_table \<times> 'a) result) \<Rightarrow> (acq_state, 'a) op" where
  "import_quota f s =
     (case f (quota (aq_work s)) of Inl e \<Rightarrow> (Inl e, s) | Inr (q, x) \<Rightarrow> (Inr x, s\<lparr>aq_work := (aq_work s)\<lparr>quota := q\<rparr>\<rparr>))"

definition reserve_auto_codex :: "commit_env \<Rightarrow> int option \<Rightarrow> (acq_state, bool) op" where
  "reserve_auto_codex ce uid =
     (case uid of
        None \<Rightarrow> returnS True
      | Some u \<Rightarrow> bindS (liftS (ce_user ce u)) (\<lambda>p. case p of
            None \<Rightarrow> returnS False
          | Some q \<Rightarrow> import_quota (\<lambda>t. reserve t (today (ce_clock ce)) q ''codex_builds'' 1)))"

definition codex_build_job :: "int \<Rightarrow> rat \<Rightarrow> rat \<Rightarrow> int option \<Rightarrow> new_job" where
  "codex_build_job nid a b uid =
     \<lparr>nj_novel_id = Some nid, nj_user_id = uid,
      nj_options = JObj [(''force'', JBool False), (''from_chapter'', JFloat a), (''to_chapter'', JFloat b)], nj_idempotency_key = None,
      nj_quota_kind = Some ''codex_builds'', nj_quota_reserved = (if uid = None then 0 else 1), nj_max_attempts = None,
      nj_backend_requested = ''api'', nj_execution_backend = API, nj_backend_policy_version = None, nj_backend_fallback_allowed = False,
      nj_backend_model = None\<rparr>"

definition refund_codex_build :: "commit_env \<Rightarrow> int option \<Rightarrow> (acq_state, unit) op" where
  "refund_codex_build ce uid =
     (if uid = None then returnS ()
      else bindS (import_quota (\<lambda>t. refund t (today (ce_clock ce)) uid ''codex_builds'' 1)) (\<lambda>_. returnS ()))"

text \<open>The failure to schedule is logged and forgotten by the caller.\<close>

definition schedule_codex :: "commit_env \<Rightarrow> int \<Rightarrow> rat \<Rightarrow> rat \<Rightarrow> int option \<Rightarrow> (acq_state, unit) op" where
  "schedule_codex ce nid a b uid =
     catchS (catchS (bindS (import_work (create_job (ce_settings ce) (ce_clock ce) ''codex_build'' (codex_build_job nid a b uid) None))
         (\<lambda>(_, created). if created then returnS () else refund_codex_build ce uid))
       (\<lambda>e. bindS (refund_codex_build ce uid) (\<lambda>_. raiseS e))) (\<lambda>_. returnS ())"

definition auto_build :: "commit_env \<Rightarrow> int \<Rightarrow> rat \<Rightarrow> rat \<Rightarrow> int option \<Rightarrow> (acq_state, unit) op" where
  "auto_build ce nid a b uid =
     bindS (readS (\<lambda>s. Inr (novel_codex_enabled nid s))) (\<lambda>enabled.
       if enabled \<or> ce_auto_codex ce
       then bindS (reserve_auto_codex ce uid) (\<lambda>ok. if ok then schedule_codex ce nid a b uid else returnS ())
       else returnS ())"

definition commit_job :: "commit_env \<Rightarrow> import_job \<Rightarrow> (acq_state, int) op" where
  "commit_job ce j0 =
     bindS (readS (\<lambda>s. load_for_commit j0 (aq_jobs s))) (\<lambda>(j, d, included).
     bindS (atomicS (commit_operation ce j d included)) (\<lambda>(nid, lo, hi).
     bindS (auto_build ce nid lo hi (ij_user j)) (\<lambda>_. returnS nid)))"

section \<open>Committing a series\<close>

text \<open>The order of the volumes: by index, unknown ones last, then by job. A NaN, whose place Python leaves open, comes last.\<close>

definition index_key :: "pyfloat option \<Rightarrow> nat \<times> rat" where
  "index_key i = (case i of None \<Rightarrow> (2, 0) | Some NegInf \<Rightarrow> (0, 0) | Some (Fin x) \<Rightarrow> (1, x) | Some PosInf \<Rightarrow> (2, 0) | Some NaN \<Rightarrow> (3, 0))"

type_synonym volume = "import_job \<times> book_document \<times> segment list"

fun load_series :: "int list \<Rightarrow> import_db \<Rightarrow> volume list result" where
  "load_series [] db = Inr []"
| "load_series (jid # jids) db =
     (case find_import jid db of
        None \<Rightarrow> Inl (ValueError (''Series job '' @ show_int jid @ '' not found.''))
      | Some j \<Rightarrow> bindE (load_for_commit j db) (\<lambda>v. bindE (load_series jids db) (\<lambda>vs. Inr (v # vs))))"

definition volume_index :: "volume \<Rightarrow> pyfloat option" where
  "volume_index v = series_index (dc_meta (fst (snd v)))"

definition order_volumes :: "volume list \<Rightarrow> volume list" where
  "order_volumes vs = sort_key (\<lambda>v. (index_key (volume_index v), ij_id (fst v))) vs"

definition series_name :: "jdict \<Rightarrow> string" where
  "series_name meta =
     (if meta_text ''series'' meta \<noteq> [] then meta_text ''series'' meta
      else if meta_text ''title'' meta \<noteq> [] then meta_text ''title'' meta else ''Imported series'')"

definition write_volume ::
  "commit_env \<Rightarrow> int \<Rightarrow> string \<Rightarrow> string \<Rightarrow> rat \<Rightarrow> bool \<Rightarrow> volume \<Rightarrow> (acq_state, rat \<times> rat) op" where
  "write_volume ce nid lang name running is_first v =
     (let (j, d, included) = v; meta = dc_meta d; raw = json_truthy (jget ''is_raw'' (ij_options j));
          label = volume_label (ce_float ce) (volume_index v) meta in
      bindS (create_import_source nid (ij_format j) (ij_path j) lang raw running label) (\<lambda>sid.
      bindS (write_segments ce (ij_id j) d included
          \<lparr>ds_source = source_of sid nid raw lang, ds_old_versions = [], ds_offset = running,
           ds_cover = (if is_first then meta_opt ''cover_sha'' meta else None), ds_invalidate = None\<rparr> (Some label) True) (\<lambda>(k, lo, hi).
      bindS (doS (finalize_import_job (ce_clock ce) (ij_id j) nid sid (jset ''series'' (JStr name) (result_stats j k lo hi)))) (\<lambda>_.
        returnS (lo, hi)))))"

fun write_volumes ::
  "commit_env \<Rightarrow> int \<Rightarrow> string \<Rightarrow> string \<Rightarrow> rat \<Rightarrow> bool \<Rightarrow> volume list \<Rightarrow> (acq_state, (rat \<times> rat) list) op" where
  "write_volumes ce nid lang name running is_first [] = returnS []"
| "write_volumes ce nid lang name running is_first (v # vs) =
     bindS (write_volume ce nid lang name running is_first v) (\<lambda>(lo, hi).
     bindS (write_volumes ce nid lang name hi False vs) (\<lambda>rs. returnS ((lo, hi) # rs)))"

definition series_draft :: "commit_env \<Rightarrow> import_job \<Rightarrow> jdict \<Rightarrow> import_draft" where
  "series_draft ce j meta =
     \<lparr>dr_title = series_name meta, dr_author = meta_opt ''author'' meta, dr_description = meta_opt ''description'' meta,
      dr_language = book_language meta, dr_codex = ce_auto_codex ce, dr_series = Some (series_name meta), dr_owner = ij_user j,
      dr_visibility = (if ij_user j = None then ''global'' else ''private'')\<rparr>"

definition series_operation :: "commit_env \<Rightarrow> int option \<Rightarrow> volume list \<Rightarrow> (acq_state, int \<times> (rat \<times> rat) list) op" where
  "series_operation ce target vs =
     (let (j, d, _) = hd vs; meta = dc_meta d in
      bindS (case target of
          Some nid \<Rightarrow>
            bindS (readS (\<lambda>s. ensure (row_by novel_id nid (novels (aq_catalog s)) \<noteq> None)
              (ValueError (''Append target novel '' @ show_int nid @ '' does not exist.'')))) (\<lambda>_.
            readS (\<lambda>s. Inr (nid, append_offset nid (aq_reading s))))
        | None \<Rightarrow> bindS (create_imported_novel (ce_clock ce) (series_draft ce j meta)) (\<lambda>nid. returnS (nid, 0))) (\<lambda>(nid, running).
      bindS (write_volumes ce nid (book_language meta) (series_name meta) running True vs) (\<lambda>rs.
      bindS (doS (touch_novel (ce_clock ce) nid)) (\<lambda>_. returnS (nid, rs)))))"

definition commit_series :: "commit_env \<Rightarrow> int list \<Rightarrow> int option \<Rightarrow> (acq_state, int) op" where
  "commit_series ce jids target =
     bindS (readS (\<lambda>s. load_series jids (aq_jobs s))) (\<lambda>loaded.
       if loaded = [] then raiseS (ValueError ''commit_series called with no jobs.'')
       else let vs = order_volumes loaded in
         bindS (atomicS (series_operation ce target vs)) (\<lambda>(nid, rs).
         bindS (auto_build ce nid (Min (fst ` set rs)) (Max (snd ` set rs)) (ij_user (fst (hd vs)))) (\<lambda>_. returnS nid)))"

text \<open>The service in front of it: every job is the caller's and ready.\<close>

fun series_ready :: "int list \<Rightarrow> principal \<Rightarrow> import_db \<Rightarrow> unit result" where
  "series_ready [] p db = Inr ()"
| "series_ready (jid # jids) p db =
     bindE (own_import jid p db) (\<lambda>j.
       if ij_status j \<notin> {''awaiting_review'', ''failed''}
       then Inl (ImportRequestError 409 (''Job '' @ show_int jid @ '' is '' @ in_quotes (ij_status j) @ '', not ready to commit.''))
       else series_ready jids p db)"

definition service_commit_series :: "commit_env \<Rightarrow> int list \<Rightarrow> principal \<Rightarrow> int option \<Rightarrow> (acq_state, int) op" where
  "service_commit_series ce jids p target =
     (if jids = [] then raiseS (ImportRequestError 422 ''Provide at least one job id.'')
      else bindS (readS (\<lambda>s. case target of None \<Rightarrow> Inr () | Some n \<Rightarrow> bindE (require_editable n (Some p) (aq_catalog s)) (\<lambda>_. Inr ()))) (\<lambda>_.
        bindS (readS (\<lambda>s. series_ready jids p (aq_jobs s))) (\<lambda>_.
        catchS (commit_series ce jids target) (\<lambda>e. case e of ValueError m \<Rightarrow> raiseS (ImportRequestError 409 m) | _ \<Rightarrow> raiseS e))))"

end
