(* ===== verification/Acquisition_Commit_Safe.thy ===== *)
theory Acquisition_Commit_Safe
  imports Acquisition_Commit Reading_Merge
begin

text \<open>
  What a committed import leaves behind: the numbers of its chapters, the chapters of its source and of all others, the volumes of a series,
  and what a replacement does to the versions readers rely on.
\<close>

section \<open>Numbers\<close>

lemma py_round_close: "y - 1 / 2 \<le> of_int (py_round y)" "of_int (py_round y) \<le> y + 1 / 2"
proof -
  have "of_int \<lfloor>y\<rfloor> \<le> y" "y < of_int \<lfloor>y\<rfloor> + 1" by linarith+
  then show "y - 1 / 2 \<le> of_int (py_round y)" "of_int (py_round y) \<le> y + 1 / 2" by (simp_all add: py_round_def Let_def) (intro impI; linarith)
qed

lemma round4_close: "x - 1 / 20000 \<le> round4 x" "round4 x \<le> x + 1 / 20000"
  using py_round_close [of "x * 10000"] by (simp_all add: round4_def field_simps)

lemma round4_of_int [simp]: "round4 (of_int k) = of_int k"
proof -
  have "(of_int k :: rat) * 10000 = of_int (k * 10000)" by simp
  then have "py_round ((of_int k :: rat) * 10000) = k * 10000" by (simp only: py_round_def Let_def floor_of_int) simp
  then show ?thesis by (simp add: round4_def)
qed

lemma round4_above: "l < round4 (l + 1 / 1000)"
  using round4_close(1) [of "l + 1 / 1000"] by linarith

lemma assign_from_increasing:
  "sorted_wrt (<) (assign_from offset prev ss) \<and> (\<forall>l. prev = Some l \<longrightarrow> (\<forall>g \<in> set (assign_from offset prev ss). l < g))"
proof (induction ss arbitrary: prev)
  case (Cons s ss)
  define g where "g = (case sg_number s of
      None \<Rightarrow> round4 (coalesce prev offset + 1 / 1000)
    | Some n \<Rightarrow> (case prev of None \<Rightarrow> n + offset | Some l \<Rightarrow> if n + offset \<le> l then round4 (l + 1 / 1000) else n + offset))"
  have above: "l < g" if "prev = Some l" for l using that round4_above by (auto simp: g_def split: option.splits)
  have e: "assign_from offset prev (s # ss) = g # assign_from offset (Some g) ss" by (simp add: g_def Let_def)
  have ih: "sorted_wrt (<) (assign_from offset (Some g) ss)" "\<forall>h \<in> set (assign_from offset (Some g) ss). g < h" using Cons [of "Some g"] by simp_all
  show ?case using ih above unfolding e by force
qed simp

lemma sequential_increasing: "sorted_wrt (<) (sequential_numbers offset ss)"
proof -
  have "round4 (offset + of_nat i) < round4 (offset + of_nat k)" if "i < k" for i k
  proof -
    have "(of_nat i :: rat) + 1 \<le> of_nat k" using that by (metis Suc_leI of_nat_Suc of_nat_le_iff add.commute)
    then show ?thesis using round4_close(2) [of "offset + of_nat i"] round4_close(1) [of "offset + of_nat k"] by linarith
  qed
  then show ?thesis unfolding sequential_numbers_def sorted_wrt_map by (intro sorted_wrt_mono_rel [OF _ sorted_wrt_upt]) simp
qed

lemma length_assign [simp]: "length (assign_from offset prev ss) = length ss"
  by (induction ss arbitrary: prev) (simp_all add: Let_def)

lemma length_segment_numbers [simp]: "length (segment_numbers sequential offset ss) = length ss"
  by (simp add: segment_numbers_def sequential_numbers_def assign_global_numbers_def del: upt_Suc)

lemma segment_numbers_increasing: "sorted_wrt (<) (segment_numbers sequential offset ss)"
  using assign_from_increasing sequential_increasing by (simp add: segment_numbers_def assign_global_numbers_def)

lemma increasing_distinct: "sorted_wrt (<) (xs :: rat list) \<Longrightarrow> distinct xs"
  by (induction xs) auto

lemma sequential_of_int: "sequential_numbers (of_int k) ss = map (\<lambda>i. of_int k + of_nat i) [1..<length ss + 1]"
proof -
  have "round4 (of_int k + of_nat i) = of_int k + of_nat i" for i
    using round4_of_int [of "k + int i"] by simp
  then show ?thesis by (simp add: sequential_numbers_def)
qed

section \<open>Chapters\<close>

definition chapter_for ::
  "commit_env \<Rightarrow> destination \<Rightarrow> (string \<Rightarrow> asset_view option) \<Rightarrow> block list \<Rightarrow> string option \<Rightarrow> rat \<times> segment \<Rightarrow> chapter_row" where
  "chapter_for ce ds view bs label ng =
     ingested_row (ds_source ds) (fst ng) (segment_chapter ce view bs ng) (sg_kind (snd ng)) (chapter_label label (snd ng)) 1"

text \<open>Two states that differ in the chapters and overlays only.\<close>

definition same_but_reading :: "acq_state \<Rightarrow> acq_state \<Rightarrow> bool" where
  "same_but_reading s s' \<longleftrightarrow> (\<exists>db. s' = s\<lparr>aq_reading := db\<rparr>) \<and> contributions (aq_reading s') = contributions (aq_reading s)"

lemma flag_conflicts_chapters [simp]:
  "chapters (flag_conflicts nid n v keep db) = chapters db" "contributions (flag_conflicts nid n v keep db) = contributions db"
  by (simp_all add: flag_conflicts_def)

lemma find_snoc: "find P (xs @ [x]) = (case find P xs of None \<Rightarrow> if P x then Some x else None | Some y \<Rightarrow> Some y)"
  by (induction xs) auto

lemma find_chapter_fresh:
  "find_chapter nid n db = None \<Longrightarrow> find_chapter nid m (db\<lparr>chapters := chapters db @ [c]\<rparr>) =
    (if chapter_key c = (nid, m) \<and> find_chapter nid m db = None then Some c else find_chapter nid m db)"
  by (simp add: find_chapter_def row_by_def find_snoc split: option.splits)

lemma write_chapter_new:
  assumes "find_chapter (src_novel_id (ds_source ds)) (fst ng) (aq_reading s) = None"
  obtains s' where "write_chapter ce ds view bs label ng s = (Inr (), s')" "same_but_reading s s'"
    "chapters (aq_reading s') = chapters (aq_reading s) @ [chapter_for ce ds view bs label ng]"
proof -
  define w where "w = upsert_ingested_chapter (ds_source ds) (fst ng) (segment_chapter ce view bs ng) True (sg_kind (snd ng))
       (chapter_label label (snd ng)) (map_option (\<lambda>v. v + 1) (map_of (ds_old_versions ds) (fst ng))) (aq_reading s)"
  have w: "fst w = Inr True" "chapters (snd w) = chapters (aq_reading s) @ [chapter_for ce ds view bs label ng]"
    "contributions (snd w) = contributions (aq_reading s)"
    using assms by (simp_all add: w_def upsert_ingested_chapter_def Let_def chapter_for_def split: option.splits)
  have e: "write_chapter ce ds view bs label ng s = (Inr (), s\<lparr>aq_reading := snd w\<rparr>)"
    using w(1) by (simp add: write_chapter_def on_reading_def bindS_def split_beta flip: w_def)
  show ?thesis by (rule that [OF e]) (use w in \<open>auto simp: same_but_reading_def\<close>)
qed

lemma same_but_reading_refl [simp]: "same_but_reading s s"
  by (auto simp: same_but_reading_def intro: exI [of _ "aq_reading s"])

lemma same_but_reading_trans: "same_but_reading s t \<Longrightarrow> same_but_reading t u \<Longrightarrow> same_but_reading s u"
  by (auto simp: same_but_reading_def)

lemma find_chapter_None: "find_chapter nid n db = None \<longleftrightarrow> (\<forall>c \<in> set (chapters db). \<not> (c_novel_id c = nid \<and> c_number c = n))"
  by (auto simp: find_chapter_def row_by_None_iff chapter_key_def image_iff)

lemma chapter_for_sel [simp]:
  "c_novel_id (chapter_for ce ds view bs label ng) = src_novel_id (ds_source ds)" "c_number (chapter_for ce ds view bs label ng) = fst ng"
  "c_source_id (chapter_for ce ds view bs label ng) = Some (src_id (ds_source ds))" "c_content_version (chapter_for ce ds view bs label ng) = 1"
  by (simp_all add: chapter_for_def ingested_row_def Let_def)

lemma write_chapters_new:
  assumes "\<forall>n \<in> fst ` set ngs. find_chapter (src_novel_id (ds_source ds)) n (aq_reading s) = None" "distinct (map fst ngs)"
  obtains s' where "write_chapters ce ds view bs label ngs s = (Inr (), s')" "same_but_reading s s'"
    "chapters (aq_reading s') = chapters (aq_reading s) @ map (chapter_for ce ds view bs label) ngs"
  using assms
proof (induction ngs arbitrary: s thesis)
  case (Cons ng ngs)
  obtain s1 where s1: "write_chapter ce ds view bs label ng s = (Inr (), s1)" "same_but_reading s s1"
    "chapters (aq_reading s1) = chapters (aq_reading s) @ [chapter_for ce ds view bs label ng]"
    by (rule write_chapter_new [of ds ng s ce view bs label]) (use Cons.prems(2) in auto)
  have fresh: "\<forall>m \<in> fst ` set ngs. find_chapter (src_novel_id (ds_source ds)) m (aq_reading s1) = None"
  proof
    fix m assume m: "m \<in> fst ` set ngs"
    have "fst ng \<notin> fst ` set ngs" using Cons.prems(3) by simp
    then have "m \<noteq> fst ng" using m by blast
    moreover have "find_chapter (src_novel_id (ds_source ds)) m (aq_reading s) = None" using Cons.prems(2) m by auto
    ultimately show "find_chapter (src_novel_id (ds_source ds)) m (aq_reading s1) = None" by (simp add: find_chapter_None s1(3))
  qed
  obtain s2 where s2: "write_chapters ce ds view bs label ngs s1 = (Inr (), s2)" "same_but_reading s1 s2"
    "chapters (aq_reading s2) = chapters (aq_reading s1) @ map (chapter_for ce ds view bs label) ngs"
    by (rule Cons.IH [OF _ fresh]) (use Cons.prems(3) in auto)
  show ?case
  proof (rule Cons.prems(1) [of s2])
    show "write_chapters ce ds view bs label (ng # ngs) s = (Inr (), s2)" using s1(1) s2(1) by (simp add: bindS_def)
    show "same_but_reading s s2" by (rule same_but_reading_trans [OF s1(2) s2(2)])
    show "chapters (aq_reading s2) = chapters (aq_reading s) @ map (chapter_for ce ds view bs label) (ng # ngs)" by (simp add: s1(3) s2(3))
  qed
qed simp

lemma other_numbers_clear:
  assumes "n \<notin> set (other_source_numbers nid sid db)" "\<forall>c \<in> set (chapters db). c_source_id c \<noteq> Some sid"
  shows "find_chapter nid n db = None"
  using assms by (auto simp: other_source_numbers_def find_chapter_None)

section \<open>Writing the segments\<close>

text \<open>The tables a write of segments leaves alone.\<close>

definition import_frame :: "acq_state \<Rightarrow> acq_state \<Rightarrow> bool" where
  "import_frame s s' \<longleftrightarrow> aq_jobs s' = aq_jobs s \<and> aq_sources s' = aq_sources s \<and> aq_next_source s' = aq_next_source s \<and>
     aq_codex s' = aq_codex s \<and> aq_work s' = aq_work s \<and> contributions (aq_reading s') = contributions (aq_reading s) \<and>
     next_novel_id (aq_catalog s') = next_novel_id (aq_catalog s) \<and> map novel_id (novels (aq_catalog s')) = map novel_id (novels (aq_catalog s))"

lemma import_frame_refl [simp]: "import_frame s s"
  by (simp add: import_frame_def)

lemma import_frame_trans: "import_frame s t \<Longrightarrow> import_frame t u \<Longrightarrow> import_frame s u"
  by (simp add: import_frame_def)

lemma import_frame_reading: "same_but_reading s s' \<Longrightarrow> import_frame s s'"
  by (auto simp: same_but_reading_def import_frame_def)

lemma commit_asset_frame: "import_frame s (commit_asset nid jid sha a s)" "aq_reading (commit_asset nid jid sha a s) = aq_reading s"
  by (simp_all add: commit_asset_def import_frame_def Let_def)

lemma commit_assets_frame:
  "import_frame s (commit_assets nid jid d shas s) \<and> aq_reading (commit_assets nid jid d shas s) = aq_reading s"
proof (induction shas arbitrary: s)
  case (Cons sha shas)
  define t where "t = (case map_of (dc_assets d) sha of None \<Rightarrow> s | Some a \<Rightarrow> commit_asset nid jid sha a s)"
  have "import_frame s t \<and> aq_reading t = aq_reading s" by (simp add: t_def commit_asset_frame split: option.splits)
  moreover have "commit_assets nid jid d (sha # shas) s = commit_assets nid jid d shas t" by (simp add: commit_assets_def t_def)
  ultimately show ?case using Cons [of t] import_frame_trans by auto
qed (simp add: commit_assets_def)

lemma set_import_cover_frame:
  "import_frame s (set_import_cover ce ds view s)" "aq_reading (set_import_cover ce ds view s) = aq_reading s"
  by (simp_all add: set_import_cover_def set_cover_if_missing_def import_frame_def map_sql_update split: option.splits)

lemma write_segments_new:
  assumes run: "write_segments ce jid d included ds label sequential s = (Inr r, s')"
    and free: "\<forall>c \<in> set (chapters (aq_reading s)). c_source_id c \<noteq> Some (src_id (ds_source ds))"
  shows "chapters (aq_reading s') = chapters (aq_reading s) @
      map (chapter_for ce ds (import_view ds d included) (dc_blocks d) label) (zip (segment_numbers sequential (ds_offset ds) included) included)"
    "import_frame s s'"
    "r = (length included, Min (set (segment_numbers sequential (ds_offset ds) included)), Max (set (segment_numbers sequential (ds_offset ds) included)))"
proof -
  let ?nid = "src_novel_id (ds_source ds)" and ?numbers = "segment_numbers sequential (ds_offset ds) included"
  let ?view = "import_view ds d included" and ?s1 = "commit_assets (src_novel_id (ds_source ds)) jid d (segment_shas d included (ds_cover ds)) s"
  have ok: "\<forall>n \<in> set ?numbers. n \<notin> set (other_source_numbers ?nid (src_id (ds_source ds)) (aq_reading s))"
    using run by (auto simp: write_segments_def Let_def bindS_def readS_def ensure_def split: if_splits)
  have s1: "import_frame s ?s1" "aq_reading ?s1 = aq_reading s" using commit_assets_frame by auto
  have new: "\<forall>n \<in> fst ` set (zip ?numbers included). find_chapter ?nid n (aq_reading ?s1) = None"
  proof
    fix n assume "n \<in> fst ` set (zip ?numbers included)"
    then have "n \<in> set ?numbers" by (auto dest: set_zip_leftD)
    then show "find_chapter ?nid n (aq_reading ?s1) = None" using other_numbers_clear [OF _ free] ok s1(2) by simp
  qed
  have di: "distinct (map fst (zip ?numbers included))" by (simp add: increasing_distinct [OF segment_numbers_increasing])
  obtain s2 where s2: "write_chapters ce ds ?view (dc_blocks d) label (zip ?numbers included) ?s1 = (Inr (), s2)" "same_but_reading ?s1 s2"
    "chapters (aq_reading s2) = chapters (aq_reading ?s1) @ map (chapter_for ce ds ?view (dc_blocks d) label) (zip ?numbers included)"
    by (rule write_chapters_new [OF new di])
  have e: "s' = set_import_cover ce ds ?view s2" "r = (length included, Min (set ?numbers), Max (set ?numbers))"
    using run ok s2(1) by (auto simp: write_segments_def Let_def bindS_def readS_def ensure_def doS_def split: if_splits)
  show "chapters (aq_reading s') = chapters (aq_reading s) @ map (chapter_for ce ds ?view (dc_blocks d) label) (zip ?numbers included)"
    by (simp add: e(1) set_import_cover_frame s2(3) s1(2))
  show "import_frame s s'"
    unfolding e(1) by (rule import_frame_trans [OF import_frame_trans [OF s1(1) import_frame_reading [OF s2(2)]] set_import_cover_frame(1)])
  show "r = (length included, Min (set ?numbers), Max (set ?numbers))" by (rule e(2))
qed

section \<open>A commit is exact\<close>

text \<open>Ids of chapters come from their sequences.\<close>

definition import_ok :: "acq_state \<Rightarrow> bool" where
  "import_ok s \<longleftrightarrow> (\<forall>c \<in> set (chapters (aq_reading s)). c_novel_id c < next_novel_id (aq_catalog s) \<and>
     (\<forall>k. c_source_id c = Some k \<longrightarrow> 0 < k \<and> k < aq_next_source s))"

lemma import_ok_free: "import_ok s \<Longrightarrow> filter (\<lambda>c. c_source_id c \<noteq> Some (aq_next_source s)) (chapters (aq_reading s)) = chapters (aq_reading s)"
  by (auto simp: import_ok_def intro!: filter_True)

definition chapter_text :: "chapter_row \<Rightarrow> string" where
  "chapter_text c = coalesce (c_content c) (coalesce (c_original_text c) [])"

lemma chapter_for_text:
  "chapter_text (chapter_for ce ds view bs label ng) = flat_text (prose (segment_blocks bs (snd ng)))"
  by (simp add: chapter_text_def chapter_for_def ingested_row_def segment_chapter_def render_segment_text Let_def split: prod.splits)

lemma chapter_for_label: "c_part_label (chapter_for ce ds view bs label ng) = chapter_label label (snd ng)"
  by (simp add: chapter_for_def ingested_row_def Let_def)

lemma increasing_ends:
  fixes xs :: "rat list"
  assumes "sorted_wrt (<) xs" "xs \<noteq> []"
  shows "Min (set xs) = hd xs" "Max (set xs) = last xs"
proof -
  have s: "sorted xs" using assms(1) by (rule sorted_wrt_mono_rel [rotated]) simp
  show "Min (set xs) = hd xs" by (rule Min_eqI) (use s assms(2) in \<open>auto simp: neq_Nil_conv\<close>)
  have "last xs \<in> set xs" using assms(2) by simp
  moreover have "x \<le> last xs" if x: "x \<in> set xs" for x
  proof -
    from x obtain i where i: "i < length xs" "x = xs ! i" by (auto simp: in_set_conv_nth)
    then show ?thesis using sorted_nth_mono [OF s, of i "length xs - 1"] assms(2) by (simp add: last_conv_nth)
  qed
  ultimately show "Max (set xs) = last xs" by (intro Max_eqI) auto
qed

lemma map_zip_snd: "length xs = length ys \<Longrightarrow> map (\<lambda>x. f (snd x)) (zip xs ys) = map f ys"
  by (induction xs ys rule: list_induct2) simp_all

lemma hd_last_zip_numbers:
  assumes "length ns = length gs" "gs \<noteq> []"
  shows "map fst (zip ns gs) = ns" "ns \<noteq> []"
  using assms by auto

text \<open>The state the chapters are written in: a source of the target, without chapters of its own.\<close>

lemma replace_target_new:
  assumes "replace_target ce j meta target s = (Inr ds, s1)"
  shows "chapters (aq_reading s1) = filter (\<lambda>c. c_source_id c \<noteq> Some (src_id (ds_source ds))) (chapters (aq_reading s))"
    "aq_jobs s1 = aq_jobs s" "contributions (aq_reading s1) = contributions (aq_reading s)"
  using assms
  by (auto simp: replace_target_def bindS_def readS_def doS_def on_reading_def replace_import_source_def delete_source_chapters_def
      mark_overlay_conflicts_def sql_delete_def source_of_def Let_def split: option.splits if_splits)

lemma resolve_target_new:
  assumes run: "resolve_target ce j meta s = (Inr ds, s1)" and ok: "import_ok s"
  shows "chapters (aq_reading s1) = filter (\<lambda>c. c_source_id c \<noteq> Some (src_id (ds_source ds))) (chapters (aq_reading s))"
    "aq_jobs s1 = aq_jobs s" "contributions (aq_reading s1) = contributions (aq_reading s)"
proof -
  have "chapters (aq_reading s1) = filter (\<lambda>c. c_source_id c \<noteq> Some (src_id (ds_source ds))) (chapters (aq_reading s)) \<and>
    aq_jobs s1 = aq_jobs s \<and> contributions (aq_reading s1) = contributions (aq_reading s)"
  proof (cases "json_truthy (jget ''source_id'' (jobj (jget ''target'' (ij_options j))))")
    case True
    then show ?thesis using run replace_target_new by (simp add: resolve_target_def Let_def)
  next
    case False
    then have "src_id (ds_source ds) = aq_next_source s \<and> aq_reading s1 = aq_reading s \<and> aq_jobs s1 = aq_jobs s"
      using run by (auto simp: resolve_target_def Let_def bindS_def readS_def ensure_def create_imported_novel_def create_import_source_def
          source_of_def split: if_splits)
    then show ?thesis using import_ok_free [OF ok] by simp
  qed
  then show "chapters (aq_reading s1) = filter (\<lambda>c. c_source_id c \<noteq> Some (src_id (ds_source ds))) (chapters (aq_reading s))"
    "aq_jobs s1 = aq_jobs s" "contributions (aq_reading s1) = contributions (aq_reading s)" by simp_all
qed

definition target_source :: "import_job \<Rightarrow> int option" where
  "target_source j =
     (let t = jobj (jget ''target'' (ij_options j)) in if json_truthy (jget ''source_id'' t) then Some (jint (jget ''source_id'' t)) else None)"

lemma target_source_resolved:
  assumes "resolve_target ce j meta s = (Inr ds, s1)" "target_source j = Some k"
  shows "src_id (ds_source ds) = k"
  using assms
  by (auto simp: target_source_def resolve_target_def replace_target_def bindS_def readS_def doS_def on_reading_def source_of_def Let_def
      split: option.splits if_splits)

lemma commit_operation_rows:
  assumes "commit_operation ce j d included s = (Inr (nid, lo, hi), s')" "import_ok s" "included \<noteq> []"
  obtains sid rows where "chapters (aq_reading s') = filter (\<lambda>c. c_source_id c \<noteq> Some sid) (chapters (aq_reading s)) @ rows"
    "map chapter_text rows = map (\<lambda>g. flat_text (prose (segment_blocks (dc_blocks d) g))) included"
    "\<forall>c \<in> set rows. c_novel_id c = nid \<and> c_source_id c = Some sid \<and> c_content_version c = 1" "sorted_wrt (<) (map c_number rows)"
    "lo = c_number (hd rows)" "hi = c_number (last rows)" "contributions (aq_reading s') = contributions (aq_reading s)"
    "\<forall>i. i \<noteq> ij_id j \<longrightarrow> find_import i (aq_jobs s') = find_import i (aq_jobs s)"
    "\<forall>r. find_import (ij_id j) (aq_jobs s') = Some r \<longrightarrow> ij_status r = ''committed'' \<and> ij_novel r = Some nid \<and> ij_source r = Some sid"
    "\<forall>k. target_source j = Some k \<longrightarrow> sid = k"
proof -
  obtain ds s1 where t: "resolve_target ce j (dc_meta d) s = (Inr ds, s1)"
    using assms(1) by (auto simp: commit_operation_def elim: bindS_InrE)
  define sid where "sid = src_id (ds_source ds)"
  obtain label vol r s2 where w: "write_segments ce (ij_id j) d included ds label vol s1 = (Inr r, s2)"
    and e: "nid = src_novel_id (ds_source ds)" "lo = fst (snd r)" "hi = snd (snd r)" "aq_reading s' = aq_reading s2"
      "aq_jobs s' = update_import (ce_clock ce) (ij_id j) (\<lambda>x. x\<lparr>ij_novel := Some nid, ij_source := Some sid, ij_status := ''committed'',
         ij_stage := Some ''committed'', ij_stats := result_stats j (fst r) lo hi, ij_error := None\<rparr>) (aq_jobs s2)"
    using assms(1) t by (auto simp: commit_operation_def bindS_def doS_def Let_def finalize_import_job_def touch_novel_def sid_def
        split: prod.splits sum.splits option.splits)
  note base = resolve_target_new [OF t assms(2)]
  have free: "\<forall>c \<in> set (chapters (aq_reading s1)). c_source_id c \<noteq> Some (src_id (ds_source ds))" by (simp add: base(1))
  note new = write_segments_new [OF w free]
  let ?ns = "segment_numbers vol (ds_offset ds) included"
  define rows where "rows = map (chapter_for ce ds (import_view ds d included) (dc_blocks d) label) (zip ?ns included)"
  have ns: "sorted_wrt (<) ?ns" "?ns \<noteq> []" using segment_numbers_increasing assms(3) hd_last_zip_numbers(2) [of ?ns included] by auto
  have nums: "map c_number rows = ?ns" by (simp add: rows_def comp_def)
  have ne: "rows \<noteq> []" using nums ns(2) by (metis list.map_disc_iff)
  have ends: "lo = c_number (hd rows)" "hi = c_number (last rows)"
    using hd_map [OF ne, of c_number] last_map [OF ne, of c_number] by (simp_all add: nums e(2,3) new(3) increasing_ends [OF ns])
  have texts: "map chapter_text rows = map (\<lambda>g. flat_text (prose (segment_blocks (dc_blocks d) g))) included"
    by (simp add: rows_def comp_def chapter_for_text map_zip_snd [of ?ns included "\<lambda>g. flat_text (prose (segment_blocks (dc_blocks d) g))"])
  have own: "\<forall>c \<in> set rows. c_novel_id c = nid \<and> c_source_id c = Some sid \<and> c_content_version c = 1" by (auto simp: rows_def e(1) sid_def)
  have tables: "chapters (aq_reading s') = filter (\<lambda>c. c_source_id c \<noteq> Some sid) (chapters (aq_reading s)) @ rows"
    "contributions (aq_reading s') = contributions (aq_reading s)" "aq_jobs s2 = aq_jobs s"
    using new(2) by (simp_all add: e(4) new(1) base rows_def sid_def import_frame_def)
  have jobs: "\<forall>i. i \<noteq> ij_id j \<longrightarrow> find_import i (aq_jobs s') = find_import i (aq_jobs s)"
    "\<forall>r. find_import (ij_id j) (aq_jobs s') = Some r \<longrightarrow> ij_status r = ''committed'' \<and> ij_novel r = Some nid \<and> ij_source r = Some sid"
    by (auto simp: e(5) find_update_import tables(3))
  have "\<forall>k. target_source j = Some k \<longrightarrow> sid = k" using target_source_resolved [OF t] by (auto simp: sid_def)
  then show ?thesis using that [of sid rows] tables(1,2) texts own nums ns(1) ends jobs by simp
qed

text \<open>C19: A committed import is exactly the reviewed plan. The chapters of every other source stay as they are, those of a replaced source are
  gone, and one chapter is added for each included segment, in the order of the book: under the novel and the source, with strictly increasing
  numbers, and with the text of the segment's blocks. The range reported is the first and last number, and the job is the only one whose row
  changes: it is committed to that novel and source.\<close>

theorem import_commit_exact:
  assumes "commit_operation ce j d included s = (Inr (nid, lo, hi), s')" "import_ok s" "included \<noteq> []"
  shows "\<exists>sid rows. chapters (aq_reading s') = filter (\<lambda>c. c_source_id c \<noteq> Some sid) (chapters (aq_reading s)) @ rows \<and>
    map chapter_text rows = map (\<lambda>g. flat_text (prose (segment_blocks (dc_blocks d) g))) included \<and>
    (\<forall>c \<in> set rows. c_novel_id c = nid \<and> c_source_id c = Some sid) \<and> sorted_wrt (<) (map c_number rows) \<and>
    lo = c_number (hd rows) \<and> hi = c_number (last rows) \<and> contributions (aq_reading s') = contributions (aq_reading s) \<and>
    (\<forall>i. i \<noteq> ij_id j \<longrightarrow> find_import i (aq_jobs s') = find_import i (aq_jobs s)) \<and>
    (\<forall>r. find_import (ij_id j) (aq_jobs s') = Some r \<longrightarrow> ij_status r = ''committed'' \<and> ij_novel r = Some nid \<and> ij_source r = Some sid)"
proof -
  obtain sid rows where r: "chapters (aq_reading s') = filter (\<lambda>c. c_source_id c \<noteq> Some sid) (chapters (aq_reading s)) @ rows"
    "map chapter_text rows = map (\<lambda>g. flat_text (prose (segment_blocks (dc_blocks d) g))) included"
    "\<forall>c \<in> set rows. c_novel_id c = nid \<and> c_source_id c = Some sid \<and> c_content_version c = 1" "sorted_wrt (<) (map c_number rows)"
    "lo = c_number (hd rows)" "hi = c_number (last rows)" "contributions (aq_reading s') = contributions (aq_reading s)"
    "\<forall>i. i \<noteq> ij_id j \<longrightarrow> find_import i (aq_jobs s') = find_import i (aq_jobs s)"
    "\<forall>r. find_import (ij_id j) (aq_jobs s') = Some r \<longrightarrow> ij_status r = ''committed'' \<and> ij_novel r = Some nid \<and> ij_source r = Some sid"
    by (rule commit_operation_rows [OF assms])
  show ?thesis by (rule exI [of _ sid], rule exI [of _ rows]) (use r in simp)
qed

section \<open>A replacement forgets the versions\<close>

text \<open>C23: Replacing the chapters of a source deletes them and inserts new ones, so each starts again at version 1, and a contribution that was
  made against the text before the replacement, whatever its version, is accepted without a conflict and overwrites the imported text.\<close>

theorem replacement_resets_versions:
  assumes "commit_operation ce j d included s = (Inr (nid, lo, hi), s')" "import_ok s" "included \<noteq> []" "target_source j = Some sid"
    and "get_contribution nid kid (aq_reading s) = Some k" "k_status k = ''pending''" "k_base_version k \<ge> 1"
    and "find_chapter nid (k_chapter k) (aq_reading s') = Some c" "c_source_id c = Some sid" "editable nid (Some p) = Inr nv"
  shows "c_content_version c = 1 \<and> (\<exists>db. accept_contribution editable clk nid kid None p (aq_reading s') = (Inr (), db) \<and>
    map_option c_content (find_chapter nid (k_chapter k) db) = Some (Some (k_content k)))"
proof -
  obtain sid' rows where r: "chapters (aq_reading s') = filter (\<lambda>c. c_source_id c \<noteq> Some sid') (chapters (aq_reading s)) @ rows"
    "\<forall>c \<in> set rows. c_novel_id c = nid \<and> c_source_id c = Some sid' \<and> c_content_version c = 1"
    "contributions (aq_reading s') = contributions (aq_reading s)" "\<forall>k. target_source j = Some k \<longrightarrow> sid' = k"
    by (rule commit_operation_rows [OF assms(1-3)])
  have "c \<in> set (chapters (aq_reading s'))" using assms(8) row_by_Some by (fastforce simp: find_chapter_def)
  then have v: "c_content_version c = 1" using r(1,2,4) assms(4,9) by auto
  have k: "get_contribution nid kid (aq_reading s') = Some k" using assms(5) r(3) by (simp add: get_contribution_def)
  have "\<not> (or_one (k_base_version k) < or_one (c_content_version c) \<and> py_strip (coalesce None []) = [])" using v assms(7) by (simp add: or_one_def)
  then show ?thesis using accept_contribution_safe [of editable nid p nv kid "aq_reading s'" k c None clk, OF assms(10) k assms(6) assms(8)] v
    by (auto simp: base_written_def)
qed

section \<open>A series\<close>

definition volume_texts :: "volume \<Rightarrow> string list" where
  "volume_texts v = map (\<lambda>g. flat_text (prose (segment_blocks (dc_blocks (fst (snd v))) g))) (snd (snd v))"

definition volume_name :: "commit_env \<Rightarrow> volume \<Rightarrow> string" where
  "volume_name ce v = volume_label (ce_float ce) (volume_index v) (dc_meta (fst (snd v)))"

definition volume_size :: "volume \<Rightarrow> nat" where
  "volume_size v = length (snd (snd v))"

definition committed_to :: "int \<Rightarrow> import_job \<Rightarrow> bool" where
  "committed_to nid r \<longleftrightarrow> ij_status r = ''committed'' \<and> ij_novel r = Some nid"

lemma volume_label_ne: "volume_label fmt i d \<noteq> []"
  by (auto simp: volume_label_def Let_def split: option.splits pyfloat.splits)

definition consecutive :: "int \<Rightarrow> nat \<Rightarrow> rat list" where
  "consecutive k n = map (\<lambda>i. of_int (k + int i)) [1..<n + 1]"

lemma consecutive_0 [simp]: "consecutive k 0 = []"
  by (simp add: consecutive_def)

lemma consecutive_Suc: "consecutive k (Suc n) = consecutive k n @ [of_int (k + int (Suc n))]"
  by (simp add: consecutive_def)

lemma consecutive_append: "consecutive k (a + b) = consecutive k a @ consecutive (k + int a) b"
  by (induction b) (simp_all add: consecutive_Suc add.assoc)

lemma sequential_consecutive: "sequential_numbers (of_int k) gs = consecutive k (length gs)"
  by (simp add: sequential_of_int consecutive_def)

lemma consecutive_ends: "n > 0 \<Longrightarrow> Min (set (consecutive k n)) = of_int k + 1 \<and> Max (set (consecutive k n)) = of_int (k + int n)"
proof -
  assume n: "n > 0"
  have i: "sorted_wrt (<) (consecutive k n)" unfolding consecutive_def sorted_wrt_map
    by (intro sorted_wrt_mono_rel [OF _ sorted_wrt_upt]) simp
  have ne: "consecutive k n \<noteq> []" using n by (simp add: consecutive_def)
  have "hd (consecutive k n) = of_int k + 1" using n by (simp add: consecutive_def hd_map hd_upt del: upt_Suc)
  moreover have "last (consecutive k n) = of_int (k + int n)" using n by (simp add: consecutive_def)
  ultimately show ?thesis using increasing_ends [OF i ne] by simp
qed

lemma write_volume_rows:
  assumes run: "write_volume ce nid lang name (of_int k) is_first v s = (Inr r, s')" and ok: "import_ok s"
    and new: "nid < next_novel_id (aq_catalog s)" "0 < aq_next_source s" and ne: "snd (snd v) \<noteq> []"
  obtains rows where "chapters (aq_reading s') = chapters (aq_reading s) @ rows" "map chapter_text rows = volume_texts v"
    "map c_number rows = consecutive k (volume_size v)"
    "map (\<lambda>c. (c_novel_id c, c_part_label c)) rows = replicate (volume_size v) (nid, Some (volume_name ce v))"
    "import_ok s'" "0 < aq_next_source s'" "next_novel_id (aq_catalog s') = next_novel_id (aq_catalog s)"
    "r = (of_int k + 1, of_int (k + int (volume_size v)))"
    "\<forall>i. i \<noteq> ij_id (fst v) \<longrightarrow> find_import i (aq_jobs s') = find_import i (aq_jobs s)"
    "\<forall>x. find_import (ij_id (fst v)) (aq_jobs s') = Some x \<longrightarrow> committed_to nid x"
proof -
  obtain j d included where v: "v = (j, d, included)" by (cases v)
  define sid where "sid = aq_next_source s"
  define s1 where "s1 = snd (create_import_source nid (ij_format j) (ij_path j) lang (json_truthy (jget ''is_raw'' (ij_options j))) (of_int k)
        (volume_label (ce_float ce) (volume_index (j, d, included)) (dc_meta d)) s)"
  have cs: "create_import_source nid (ij_format j) (ij_path j) lang (json_truthy (jget ''is_raw'' (ij_options j))) (of_int k)
        (volume_label (ce_float ce) (volume_index (j, d, included)) (dc_meta d)) s = (Inr sid, s1)"
    by (simp add: s1_def create_import_source_def sid_def)
  have s1: "aq_reading s1 = aq_reading s" "aq_jobs s1 = aq_jobs s" "aq_next_source s1 = sid + 1" "aq_catalog s1 = aq_catalog s"
    by (simp_all add: s1_def create_import_source_def sid_def)
  define ds where "ds = \<lparr>ds_source = source_of sid nid (json_truthy (jget ''is_raw'' (ij_options j))) lang, ds_old_versions = [], ds_offset = of_int k,
           ds_cover = (if is_first then meta_opt ''cover_sha'' (dc_meta d) else None), ds_invalidate = None\<rparr>"
  have ds: "src_id (ds_source ds) = sid" "src_novel_id (ds_source ds) = nid" "ds_offset ds = of_int k" by (simp_all add: ds_def source_of_def)
  obtain n s2 where w: "write_segments ce (ij_id j) d included ds (Some (volume_name ce v)) True s1 = (Inr (n, r), s2)"
    and e: "s' = finalize_import_job (ce_clock ce) (ij_id j) nid sid (jset ''series'' (JStr name) (result_stats j n (fst r) (snd r))) s2"
    using run unfolding write_volume_def v
    by (auto simp: Let_def bindS_def doS_def cs ds_def volume_name_def v split: prod.splits sum.splits)
  have free: "\<forall>c \<in> set (chapters (aq_reading s1)). c_source_id c \<noteq> Some (src_id (ds_source ds))"
    using ok by (auto simp: ds s1 import_ok_def sid_def)
  note new_rows = write_segments_new [OF w free]
  define rows where "rows = map (chapter_for ce ds (import_view ds d included) (dc_blocks d) (Some (volume_name ce v)))
     (zip (consecutive k (length included)) included)"
  have len: "length (consecutive k (length included)) = length included" by (simp add: consecutive_def del: upt_Suc)
  have nums: "segment_numbers True (ds_offset ds) included = consecutive k (length included)"
    by (simp add: segment_numbers_def ds sequential_consecutive)
  have size: "length included = volume_size v" "0 < volume_size v" using ne by (simp_all add: volume_size_def v)
  have ch: "chapters (aq_reading s') = chapters (aq_reading s) @ rows"
    by (simp add: e finalize_import_job_def new_rows(1) s1 rows_def nums)
  have ids: "\<forall>c \<in> set rows. c_novel_id c = nid \<and> c_source_id c = Some sid" by (auto simp: rows_def ds)
  have cat: "aq_next_source s' = sid + 1" "next_novel_id (aq_catalog s') = next_novel_id (aq_catalog s)" "aq_jobs s2 = aq_jobs s"
    using new_rows(2) by (simp_all add: e finalize_import_job_def import_frame_def s1)
  show ?thesis
  proof (rule that [OF ch])
    show "map chapter_text rows = volume_texts v"
      by (simp add: rows_def comp_def chapter_for_text volume_texts_def v
          map_zip_snd [OF len, of "\<lambda>g. flat_text (prose (segment_blocks (dc_blocks d) g))"])
    show "map c_number rows = consecutive k (volume_size v)" using len by (simp add: rows_def comp_def size(1) [symmetric])
    have "map (\<lambda>c. (c_novel_id c, c_part_label c)) rows = map (\<lambda>x. (nid, Some (volume_name ce v))) (zip (consecutive k (length included)) included)"
      by (simp add: rows_def comp_def ds chapter_for_label chapter_label_def volume_name_def volume_label_ne)
    then show "map (\<lambda>c. (c_novel_id c, c_part_label c)) rows = replicate (volume_size v) (nid, Some (volume_name ce v))"
      using len by (simp add: map_replicate_const size(1) [symmetric])
    show "import_ok s'" using ok ids new by (auto simp: import_ok_def ch cat sid_def)
    show "0 < aq_next_source s'" "next_novel_id (aq_catalog s') = next_novel_id (aq_catalog s)" using new(2) by (simp_all add: cat sid_def)
    show "r = (of_int k + 1, of_int (k + int (volume_size v)))" using new_rows(3) consecutive_ends [OF size(2), of k] by (simp add: nums size(1))
    show "\<forall>i. i \<noteq> ij_id (fst v) \<longrightarrow> find_import i (aq_jobs s') = find_import i (aq_jobs s)"
      by (simp add: e finalize_import_job_def find_update_import cat(3) v)
    show "\<forall>x. find_import (ij_id (fst v)) (aq_jobs s') = Some x \<longrightarrow> committed_to nid x"
      by (auto simp: e finalize_import_job_def find_update_import committed_to_def v)
  qed
qed

definition series_size :: "volume list \<Rightarrow> nat" where
  "series_size vs = sum_list (map volume_size vs)"

lemma write_volumes_rows:
  assumes "write_volumes ce nid lang name (of_int k) is_first vs s = (Inr rs, s')" "import_ok s"
    and "nid < next_novel_id (aq_catalog s)" "0 < aq_next_source s" "\<forall>v \<in> set vs. snd (snd v) \<noteq> []"
  obtains rows where "chapters (aq_reading s') = chapters (aq_reading s) @ rows" "map chapter_text rows = concat (map volume_texts vs)"
    "map c_number rows = consecutive k (series_size vs)"
    "map (\<lambda>c. (c_novel_id c, c_part_label c)) rows = concat (map (\<lambda>v. replicate (volume_size v) (nid, Some (volume_name ce v))) vs)"
    "\<forall>i. i \<notin> (ij_id \<circ> fst) ` set vs \<longrightarrow> find_import i (aq_jobs s') = find_import i (aq_jobs s)"
    "\<forall>v \<in> set vs. \<forall>x. find_import (ij_id (fst v)) (aq_jobs s') = Some x \<longrightarrow> committed_to nid x"
  using assms
proof (induction vs arbitrary: s k is_first rs thesis)
  case Nil
  then show ?case by (simp add: series_size_def)
next
  case (Cons v vs)
  obtain r s1 rs' where r: "write_volume ce nid lang name (of_int k) is_first v s = (Inr r, s1)"
    and rest: "write_volumes ce nid lang name (snd r) False vs s1 = (Inr rs', s')"
    using Cons.prems(2) by (auto simp: split_beta elim!: bindS_InrE)
  have ne: "snd (snd v) \<noteq> []" "\<forall>w \<in> set vs. snd (snd w) \<noteq> []" using Cons.prems(6) by simp_all
  obtain rows where rows: "chapters (aq_reading s1) = chapters (aq_reading s) @ rows" "map chapter_text rows = volume_texts v"
    "map c_number rows = consecutive k (volume_size v)"
    "map (\<lambda>c. (c_novel_id c, c_part_label c)) rows = replicate (volume_size v) (nid, Some (volume_name ce v))"
    "import_ok s1" "0 < aq_next_source s1" "next_novel_id (aq_catalog s1) = next_novel_id (aq_catalog s)"
    "r = (of_int k + 1, of_int (k + int (volume_size v)))"
    "\<forall>i. i \<noteq> ij_id (fst v) \<longrightarrow> find_import i (aq_jobs s1) = find_import i (aq_jobs s)"
    "\<forall>x. find_import (ij_id (fst v)) (aq_jobs s1) = Some x \<longrightarrow> committed_to nid x"
    by (rule write_volume_rows [OF r Cons.prems(3-5) ne(1)])
  have rest': "write_volumes ce nid lang name (of_int (k + int (volume_size v))) False vs s1 = (Inr rs', s')" using rest by (simp add: rows(8))
  obtain more where more: "chapters (aq_reading s') = chapters (aq_reading s1) @ more" "map chapter_text more = concat (map volume_texts vs)"
    "map c_number more = consecutive (k + int (volume_size v)) (series_size vs)"
    "map (\<lambda>c. (c_novel_id c, c_part_label c)) more = concat (map (\<lambda>v. replicate (volume_size v) (nid, Some (volume_name ce v))) vs)"
    "\<forall>i. i \<notin> (ij_id \<circ> fst) ` set vs \<longrightarrow> find_import i (aq_jobs s') = find_import i (aq_jobs s1)"
    "\<forall>v \<in> set vs. \<forall>x. find_import (ij_id (fst v)) (aq_jobs s') = Some x \<longrightarrow> committed_to nid x"
    by (rule Cons.IH [OF _ rest' rows(5) _ rows(6) ne(2)]) (use Cons.prems(4) rows(7) in auto)
  show ?case
  proof (rule Cons.prems(1) [of "rows @ more"])
    show "chapters (aq_reading s') = chapters (aq_reading s) @ rows @ more" by (simp add: more(1) rows(1))
    show "map chapter_text (rows @ more) = concat (map volume_texts (v # vs))" by (simp add: more(2) rows(2))
    show "map c_number (rows @ more) = consecutive k (series_size (v # vs))" by (simp add: more(3) rows(3) series_size_def consecutive_append)
    show "map (\<lambda>c. (c_novel_id c, c_part_label c)) (rows @ more) =
        concat (map (\<lambda>v. replicate (volume_size v) (nid, Some (volume_name ce v))) (v # vs))" by (simp add: more(4) rows(4))
    show "\<forall>i. i \<notin> (ij_id \<circ> fst) ` set (v # vs) \<longrightarrow> find_import i (aq_jobs s') = find_import i (aq_jobs s)"
      using more(5) rows(9) by simp
    have "committed_to nid x" if "w \<in> set (v # vs)" "find_import (ij_id (fst w)) (aq_jobs s') = Some x" for w x
    proof (cases "ij_id (fst w) \<in> (ij_id \<circ> fst) ` set vs")
      case True
      then obtain u where u: "u \<in> set vs" "ij_id (fst u) = ij_id (fst w)" by auto
      show ?thesis using more(6) u that(2) by simp
    next
      case False
      then have "w = v" using that(1) by auto
      then show ?thesis using that(2) more(5) False rows(10) by simp
    qed
    then show "\<forall>w \<in> set (v # vs). \<forall>x. find_import (ij_id (fst w)) (aq_jobs s') = Some x \<longrightarrow> committed_to nid x" by blast
  qed
qed

definition series_base :: "int option \<Rightarrow> acq_state \<Rightarrow> int" where
  "series_base target s =
     (case target of None \<Rightarrow> 0 | Some nid \<Rightarrow> let ns = other_source_numbers nid (- 1) (aq_reading s) in if ns = [] then 0 else \<lfloor>Max (set ns)\<rfloor>)"

lemma series_base_above:
  assumes "import_ok s" "c \<in> set (chapters (aq_reading s))" "c_novel_id c = nid"
  shows "c_number c < of_int (series_base (Some nid) s) + 1"
proof -
  let ?ns = "other_source_numbers nid (- 1) (aq_reading s)"
  have "c_source_id c \<noteq> Some (- 1)" using assms(1,2) by (auto simp: import_ok_def)
  then have m: "c_number c \<in> set ?ns" using assms(2,3) by (auto simp: other_source_numbers_def)
  then have "c_number c \<le> Max (set ?ns)" by simp
  moreover have "Max (set ?ns) < of_int \<lfloor>Max (set ?ns)\<rfloor> + 1" by linarith
  ultimately show ?thesis using m by (auto simp: series_base_def Let_def)
qed

text \<open>C22: A series becomes one book. Its volumes are written in their order as consecutive whole numbers after every chapter the novel has, each
  chapter with the text of its segment under the label of its volume; nothing that was there changes, and every job of the series is committed
  to that novel and no other job is touched.\<close>

theorem series_consecutive:
  assumes "series_operation ce target vs s = (Inr (nid, rs), s')" "import_ok s" "0 < aq_next_source s"
    and "vs \<noteq> []" "\<forall>v \<in> set vs. snd (snd v) \<noteq> []" "\<forall>n. target = Some n \<longrightarrow> n < next_novel_id (aq_catalog s)"
  shows "\<exists>rows. chapters (aq_reading s') = chapters (aq_reading s) @ rows \<and>
    map chapter_text rows = concat (map volume_texts vs) \<and>
    map c_number rows = map (\<lambda>i. of_int (series_base target s + int i)) [1..<sum_list (map (\<lambda>v. length (snd (snd v))) vs) + 1] \<and>
    map (\<lambda>c. (c_novel_id c, c_part_label c)) rows = concat (map (\<lambda>v. replicate (length (snd (snd v))) (nid, Some (volume_name ce v))) vs) \<and>
    (\<forall>c \<in> set (chapters (aq_reading s)). c_novel_id c = nid \<longrightarrow> (\<forall>r \<in> set rows. c_number c < c_number r)) \<and>
    (\<forall>i. i \<notin> (\<lambda>v. ij_id (fst v)) ` set vs \<longrightarrow> find_import i (aq_jobs s') = find_import i (aq_jobs s)) \<and>
    (\<forall>v \<in> set vs. \<forall>x. find_import (ij_id (fst v)) (aq_jobs s') = Some x \<longrightarrow> ij_status x = ''committed'' \<and> ij_novel x = Some nid)"
proof -
  obtain j d g where hd: "hd vs = (j, d, g)" by (cases "hd vs")
  obtain s1 s2 where s1: "aq_reading s1 = aq_reading s" "aq_jobs s1 = aq_jobs s" "import_ok s1" "nid < next_novel_id (aq_catalog s1)"
      "0 < aq_next_source s1" and fresh: "target = None \<Longrightarrow> nid = next_novel_id (aq_catalog s)" "\<And>n. target = Some n \<Longrightarrow> nid = n"
    and w: "write_volumes ce nid (book_language (dc_meta d)) (series_name (dc_meta d)) (of_int (series_base target s)) True vs s1 = (Inr rs, s2)"
    and e: "s' = touch_novel (ce_clock ce) nid s2"
  proof (cases target)
    case None
    have ok1: "import_ok (snd (create_imported_novel (ce_clock ce) (series_draft ce j (dc_meta d)) s))"
      using assms(2) by (force simp: import_ok_def create_imported_novel_def Let_def)
    define t where "t = snd (create_imported_novel (ce_clock ce) (series_draft ce j (dc_meta d)) s)"
    have new: "create_imported_novel (ce_clock ce) (series_draft ce j (dc_meta d)) s = (Inr (next_novel_id (aq_catalog s)), t)"
      "aq_reading t = aq_reading s" "aq_jobs t = aq_jobs s" "aq_next_source t = aq_next_source s" "next_novel_id (aq_catalog t) = next_novel_id (aq_catalog s) + 1"
      by (simp_all add: t_def create_imported_novel_def Let_def)
    obtain x2 where x2: "nid = next_novel_id (aq_catalog s)" "s' = touch_novel (ce_clock ce) nid x2"
      "write_volumes ce nid (book_language (dc_meta d)) (series_name (dc_meta d)) 0 True vs t = (Inr rs, x2)"
      using assms(1) None hd by (auto simp: series_operation_def new(1) bindS_def doS_def Let_def split: prod.splits sum.splits)
    show ?thesis by (rule that [of t x2]) (use x2 new(2-5) ok1 assms(3) None in \<open>auto simp: t_def [symmetric] series_base_def\<close>)
  next
    case (Some n)
    obtain x2 where x2: "nid = n" "s' = touch_novel (ce_clock ce) nid x2"
      "write_volumes ce nid (book_language (dc_meta d)) (series_name (dc_meta d)) (append_offset n (aq_reading s)) True vs s = (Inr rs, x2)"
      using assms(1) Some hd by (auto simp: series_operation_def readS_def ensure_def bindS_def doS_def Let_def split: prod.splits sum.splits if_splits)
    have "append_offset n (aq_reading s) = of_int (series_base target s)" using Some by (simp add: append_offset_def series_base_def Let_def)
    then show ?thesis using that [of s x2] x2 assms(2,3,6) Some by simp
  qed
  obtain rows where rows: "chapters (aq_reading s2) = chapters (aq_reading s1) @ rows" "map chapter_text rows = concat (map volume_texts vs)"
    "map c_number rows = consecutive (series_base target s) (series_size vs)"
    "map (\<lambda>c. (c_novel_id c, c_part_label c)) rows = concat (map (\<lambda>v. replicate (volume_size v) (nid, Some (volume_name ce v))) vs)"
    "\<forall>i. i \<notin> (ij_id \<circ> fst) ` set vs \<longrightarrow> find_import i (aq_jobs s2) = find_import i (aq_jobs s1)"
    "\<forall>v \<in> set vs. \<forall>x. find_import (ij_id (fst v)) (aq_jobs s2) = Some x \<longrightarrow> committed_to nid x"
    by (rule write_volumes_rows [OF w s1(3,4,5) assms(5)])
  have t: "aq_reading s' = aq_reading s2" "aq_jobs s' = aq_jobs s2" by (simp_all add: e touch_novel_def)
  have above: "c_number c < c_number r" if c: "c \<in> set (chapters (aq_reading s))" "c_novel_id c = nid" and r: "r \<in> set rows" for c r
  proof (cases target)
    case None
    then show ?thesis using assms(2) c fresh(1) by (auto simp: import_ok_def)
  next
    case (Some n)
    have "c_number r \<in> set (map c_number rows)" using r by simp
    then obtain i where "1 \<le> i" "c_number r = of_int (series_base target s + int i)" unfolding rows(3) consecutive_def by auto
    moreover have "c_number c < of_int (series_base (Some nid) s) + 1" by (rule series_base_above [OF assms(2) c])
    ultimately show ?thesis using Some fresh(2) by (simp add: order_less_le_trans)
  qed
  have vsz: "volume_size = (\<lambda>v. length (snd (snd v)))" by (simp add: fun_eq_iff volume_size_def)
  show ?thesis
  proof (intro exI [of _ rows] conjI)
    show "map c_number rows = map (\<lambda>i. of_int (series_base target s + int i)) [1..<sum_list (map (\<lambda>v. length (snd (snd v))) vs) + 1]"
      using rows(3) by (simp only: consecutive_def series_size_def vsz)
    show "map (\<lambda>c. (c_novel_id c, c_part_label c)) rows = concat (map (\<lambda>v. replicate (length (snd (snd v))) (nid, Some (volume_name ce v))) vs)"
      using rows(4) by (simp only: vsz)
  qed (use rows(1,2,5,6) above in \<open>simp_all add: t s1(1,2) committed_to_def\<close>)
qed

section \<open>A book\<close>

definition demo_block :: "block_kind \<Rightarrow> string \<Rightarrow> block" where
  "demo_block k t = \<lparr>bk_kind = k, bk_text = t, bk_level = Some 1, bk_asset = None, bk_font_size = None, bk_page = None, bk_html = None,
     bk_quote = False, bk_loc_page = None, bk_end_page = None, bk_edge = False, bk_bbox = [], bk_last_line = [], bk_page_height = 0,
     bk_page_width = 0\<rparr>"

definition demo_book :: book_document where
  "demo_book = \<lparr>dc_blocks = [demo_block Heading ''One'', demo_block Paragraph ''Dawn'', demo_block Heading ''Two'', demo_block Paragraph ''Dusk''],
     dc_meta = [(''title'', JStr ''A book'')], dc_assets = [], dc_format = ''epub''\<rparr>"

definition demo_segment :: "string \<Rightarrow> int \<Rightarrow> rat option \<Rightarrow> segment" where
  "demo_segment ttl i n = \<lparr>sg_id = ttl, sg_kind = ''chapter'', sg_title = Some ttl, sg_number = n, sg_part_label = None, sg_range = [i, i + 1],
     sg_include = True, sg_word_count = 2\<rparr>"

definition demo_segments :: "segment list" where
  "demo_segments = [demo_segment ''One'' 0 (Some 1), demo_segment ''Two'' 2 (Some 2)]"

definition demo_import :: "int \<Rightarrow> json \<Rightarrow> import_job" where
  "demo_import i target = \<lparr>ij_id = i, ij_user = Some 7, ij_novel = None, ij_source = None, ij_format = ''epub'', ij_path = ''/b.epub'', ij_sha = None,
     ij_status = ''commit_running'', ij_stage = None, ij_meta = [], ij_plan = Some demo_segments, ij_stats = [], ij_cost = [], ij_progress = [],
     ij_options = [(''target'', target)], ij_error = None, ij_token = Some ''w'', ij_claimed_at = Some 0, ij_created_at = 0, ij_updated_at = 0\<rparr>"

definition demo_replace :: import_job where
  "demo_replace = demo_import 1 (JObj [(''source_id'', JInt 1), (''offset'', JFloat 0)])"

definition demo_imports :: import_db where
  "demo_imports = \<lparr>ij_rows = [demo_replace, demo_import 2 (JStr ''new'')], ij_next = 3, blobs = Map.empty,
     docs = (\<lambda>i. if i = 1 \<or> i = 2 then Some demo_book else None), staged_images = Map.empty\<rparr>"

definition demo_acq :: acq_state where
  "demo_acq = \<lparr>aq_jobs = demo_imports, aq_sources = [\<lparr>so_id = 1, so_novel = 3, so_adapter = ''epub'', so_start_url = None, so_language = None,
       so_is_raw = False, so_offset = 0, so_label = None\<rparr>], aq_next_source = 2, aq_assets = [], aq_files = Map.empty,
     aq_catalog = demo_catalog\<lparr>next_novel_id := 4\<rparr>, aq_reading = demo_reading2, aq_codex = demo_extraction_db, aq_work = demo_db\<rparr>"

definition demo_commit_env :: commit_env where
  "demo_commit_env = \<lparr>ce_clock = demo_now, ce_float = (\<lambda>_. ''1.0''), ce_clean = None, ce_auto_codex = False,
     ce_user = (\<lambda>_. Inr None), ce_settings = demo_settings\<rparr>"

lemma demo_acq_ok: "import_ok demo_acq"
  by (auto simp: import_ok_def demo_acq_def demo_reading2_def demo_reading_def demo_chapter_def)

lemma demo_replace_run:
  "fst (commit_operation demo_commit_env demo_replace demo_book demo_segments demo_acq) = Inr (3, 1, 2)"
  by code_simp

definition demo_replaced :: acq_state where
  "demo_replaced = snd (commit_operation demo_commit_env demo_replace demo_book demo_segments demo_acq)"

lemma demo_replace_result: "commit_operation demo_commit_env demo_replace demo_book demo_segments demo_acq = (Inr (3, 1, 2), demo_replaced)"
  using demo_replace_run by (simp add: demo_replaced_def prod_eq_iff)

lemma demo_segments_ne: "demo_segments \<noteq> []"
  by (simp add: demo_segments_def)

theorem import_commit_exact_witness:
  "\<exists>sid rows. chapters (aq_reading demo_replaced) = filter (\<lambda>c. c_source_id c \<noteq> Some sid) (chapters (aq_reading demo_acq)) @ rows \<and>
     map chapter_text rows = map (\<lambda>g. flat_text (prose (segment_blocks (dc_blocks demo_book) g))) demo_segments \<and>
     (1 :: rat) = c_number (hd rows) \<and> (2 :: rat) = c_number (last rows)"
  using import_commit_exact [OF demo_replace_result demo_acq_ok demo_segments_ne] by blast

theorem replacement_resets_versions_witness:
  "\<exists>c db. find_chapter 3 2 (aq_reading demo_replaced) = Some c \<and> c_content_version c = 1 \<and>
     accept_contribution demo_access demo_now 3 4 None demo_user_b (aq_reading demo_replaced) = (Inr (), db)"
proof -
  have "map_option c_source_id (find_chapter 3 2 (aq_reading demo_replaced)) = Some (Some 1)" by code_simp
  then obtain c where c: "find_chapter 3 2 (aq_reading demo_replaced) = Some c" "c_source_id c = Some 1" by (cases "find_chapter 3 2 (aq_reading demo_replaced)") auto
  obtain k where k: "get_contribution 3 4 (aq_reading demo_acq) = Some k" "k_status k = ''pending''" "k_base_version k \<ge> 1" "k_chapter k = 2"
    by (simp add: get_contribution_def demo_acq_def demo_reading2_def)
  have t: "target_source demo_replace = Some 1" by code_simp
  have e: "demo_access 3 (Some demo_user_b) = Inr demo_novel" by code_simp
  show ?thesis
    using replacement_resets_versions [OF demo_replace_result demo_acq_ok demo_segments_ne t k(1-3), of c demo_access demo_user_b demo_novel demo_now]
      c k(4) e by auto
qed

definition demo_volumes :: "volume list" where
  "demo_volumes = [(demo_import 1 (JStr ''new''), demo_book, demo_segments), (demo_import 2 (JStr ''new''), demo_book, demo_segments)]"

definition demo_series :: acq_state where
  "demo_series = snd (series_operation demo_commit_env (Some 3) demo_volumes demo_acq)"

lemma demo_series_run: "fst (series_operation demo_commit_env (Some 3) demo_volumes demo_acq) = Inr (3, [(4, 5), (6, 7)])"
  by code_simp

theorem series_consecutive_witness:
  "\<exists>rows. chapters (aq_reading demo_series) = chapters (aq_reading demo_acq) @ rows \<and> map c_number rows = [4, 5, 6, 7]"
proof -
  have run: "series_operation demo_commit_env (Some 3) demo_volumes demo_acq = (Inr (3, [(4, 5), (6, 7)]), demo_series)"
    using demo_series_run by (simp add: demo_series_def prod_eq_iff)
  have b: "series_base (Some 3) demo_acq = 3" by code_simp
  obtain rows where rows: "chapters (aq_reading demo_series) = chapters (aq_reading demo_acq) @ rows"
    "map c_number rows = map (\<lambda>i. of_int (series_base (Some 3) demo_acq + int i)) [1..<sum_list (map (\<lambda>v. length (snd (snd v))) demo_volumes) + 1]"
    using series_consecutive [OF run demo_acq_ok] by (auto simp: demo_volumes_def demo_segments_def demo_acq_def)
  then show ?thesis unfolding b by (simp add: demo_volumes_def demo_segments_def upt_rec)
qed

end
