(* ===== verification/Acquisition_Worker.thy ===== *)
theory Acquisition_Worker
  imports Acquisition_Commit Work_Process
begin

text \<open>
  The import worker: the stages of \<open>modules/acquisition/application/import_worker.py\<close>, the dispatch of \<open>application/worker.py\<close> and the
  maintenance of \<open>adapters/inbound/worker.py\<close>. Parsers, OCR, clean-up, segmentation, quality score and cost estimate are arguments. One
  stage is one step; the OCR lock, heartbeats and logging have no counterpart.
\<close>

section \<open>What the stages call\<close>

text \<open>An OCR run reports pages done and total while it works, and ends with a document, out of budget, or with an exception.\<close>

datatype ocr_outcome = Ocr_document book_document | Ocr_budget | Ocr_raised py_error

record import_env =
  ie_commit :: commit_env
  ie_parse_epub :: "string \<Rightarrow> book_document result"
  ie_parse_pdf :: "string \<Rightarrow> book_document result"
  ie_ocr :: "string \<Rightarrow> jdict \<Rightarrow> (int \<times> int) list \<times> ocr_outcome"
  ie_clean :: "book_document \<Rightarrow> book_document result"
  ie_plan :: "book_document \<Rightarrow> segment list result"
  ie_refine :: "segment list \<Rightarrow> book_document \<Rightarrow> segment list result"
  ie_quality :: "book_document \<Rightarrow> segment list \<Rightarrow> json"
  ie_estimate :: "int \<Rightarrow> bool \<Rightarrow> int \<Rightarrow> jdict"
  ie_budget :: "int result"
  ie_can_spend :: "int \<Rightarrow> bool result"

definition update_job :: "import_env \<Rightarrow> int \<Rightarrow> (import_job \<Rightarrow> import_job) \<Rightarrow> (acq_state, unit) op" where
  "update_job ie jid f = on_jobs (update_import (ce_clock (ie_commit ie)) jid f)"

definition set_stage :: "import_env \<Rightarrow> int \<Rightarrow> string \<Rightarrow> (acq_state, unit) op" where
  "set_stage ie jid st = update_job ie jid (\<lambda>j. j\<lparr>ij_stage := Some st\<rparr>)"

definition fail_import :: "import_env \<Rightarrow> int \<Rightarrow> string \<Rightarrow> (acq_state, unit) op" where
  "fail_import ie jid e = update_job ie jid (\<lambda>j. j\<lparr>ij_status := ''failed'', ij_error := Some (take 4000 e)\<rparr>)"

section \<open>The end of parsing\<close>

definition looks_raw :: "string \<Rightarrow> bool" where
  "looks_raw lang = (let l = py_lower (py_strip lang) in l \<noteq> [] \<and> take 2 l \<noteq> ''en'')"

definition PUBLIC_META :: "string list" where
  "PUBLIC_META = [''title'', ''author'', ''language'', ''description'', ''series'', ''series_index'', ''volume_label'']"

definition staged_asset_url :: "int \<Rightarrow> string \<Rightarrow> string \<Rightarrow> string" where
  "staged_asset_url jid sha ext = ''/api/assets/import-jobs/'' @ show_int jid @ ''/'' @ sha @ ''.'' @ ext"

definition public_meta :: "int \<Rightarrow> book_document \<Rightarrow> jdict" where
  "public_meta jid d =
     (let m = map (\<lambda>k. (k, jget k (dc_meta d))) PUBLIC_META; sha = meta_text ''cover_sha'' (dc_meta d) in
      case map_of (dc_assets d) sha of
        None \<Rightarrow> m
      | Some a \<Rightarrow> if sha = [] then m
          else m @ [(''cover_sha'', JStr sha), (''cover_url'', JStr (staged_asset_url jid sha (coalesce (ba_ext a) ''jpg'')))])"

definition parse_stats :: "import_env \<Rightarrow> book_document \<Rightarrow> segment list \<Rightarrow> jdict" where
  "parse_stats ie d segs =
     [(''blocks'', JInt (int (length (dc_blocks d)))), (''segments'', JInt (int (length segs))), (''images'', JInt (int (length (dc_assets d)))),
      (''words'', JInt (sum_list (map sg_word_count segs))), (''quality'', ie_quality ie d segs)] @
     (if json_truthy (jget ''ocr_stats'' (dc_meta d)) then [(''ocr'', jget ''ocr_stats'' (dc_meta d))] else [])"

definition PRE_REVIEW :: "string list" where
  "PRE_REVIEW = [''receiving'', ''uploaded'', ''parsing'', ''segmenting'', ''ocr_pending'', ''ocr_running'', ''ocr_paused'']"

text \<open>The jobs of a batch by series, in the order the series first appear; a book without one is alone.\<close>

definition batch_group :: "import_job \<Rightarrow> string option \<times> int" where
  "batch_group j = (let s = py_strip (meta_text ''series'' (ij_meta j)) in if s = [] then (None, ij_id j) else (Some s, 0))"

definition batch_groups :: "import_job list \<Rightarrow> ((string option \<times> int) \<times> int list) list" where
  "batch_groups js = map (\<lambda>g. (g, map ij_id (filter (\<lambda>j. batch_group j = g) js))) (rev (remdups (rev (map batch_group js))))"

fun fail_all :: "import_env \<Rightarrow> int list \<Rightarrow> string \<Rightarrow> (acq_state, unit) op" where
  "fail_all ie [] e = returnS ()"
| "fail_all ie (jid # jids) e = bindS (fail_import ie jid e) (\<lambda>_. fail_all ie jids e)"

definition auto_commit_one :: "import_env \<Rightarrow> int \<Rightarrow> (acq_state, unit) op" where
  "auto_commit_one ie jid = update_job ie jid (\<lambda>j. j\<lparr>ij_status := ''committing'', ij_stage := Some ''auto-committing''\<rparr>)"

definition commit_group :: "import_env \<Rightarrow> (string option \<times> int) \<times> int list \<Rightarrow> (acq_state, unit) op" where
  "commit_group ie g =
     (if fst (fst g) = None \<or> length (snd g) = 1 then auto_commit_one ie (hd (snd g))
      else catchS (bindS (commit_series (ie_commit ie) (snd g) None) (\<lambda>_. returnS ()))
        (\<lambda>e. fail_all ie (snd g) (''series commit: '' @ error_text e)))"

fun commit_groups :: "import_env \<Rightarrow> ((string option \<times> int) \<times> int list) list \<Rightarrow> (acq_state, unit) op" where
  "commit_groups ie [] = returnS ()"
| "commit_groups ie (g # gs) = bindS (commit_group ie g) (\<lambda>_. commit_groups ie gs)"

definition auto_advance :: "import_env \<Rightarrow> int \<Rightarrow> (acq_state, unit) op" where
  "auto_advance ie jid =
     bindS (readS (\<lambda>s. Inr (case find_import jid (aq_jobs s) of None \<Rightarrow> [] | Some j \<Rightarrow> ij_options j))) (\<lambda>options.
       if \<not> json_truthy (jget ''auto_commit'' options) then returnS ()
       else if \<not> json_truthy (jget ''group_series'' options) then auto_commit_one ie jid
       else bindS (readS (\<lambda>s. Inr (let b = jtext (jget ''batch_id'' options) in if b = [] then [] else batch_siblings b (aq_jobs s)))) (\<lambda>siblings.
         if \<exists>j \<in> set siblings. ij_status j \<in> set PRE_REVIEW then returnS ()
         else commit_groups ie (batch_groups (filter (\<lambda>j. ij_status j = ''awaiting_review'') siblings))))"

text \<open>The options written are those of the row at that moment, with the mark of a raw book when it carries none.\<close>

definition raw_options :: "string \<Rightarrow> jdict \<Rightarrow> jdict" where
  "raw_options lang options =
     (if map_of options ''is_raw'' = None \<and> looks_raw lang then jset ''is_raw'' (JBool True) options else options)"

definition reviewed :: "import_env \<Rightarrow> int \<Rightarrow> book_document \<Rightarrow> segment list \<Rightarrow> import_job \<Rightarrow> import_job" where
  "reviewed ie jid d segs j = j\<lparr>ij_options := raw_options (meta_text ''language'' (dc_meta d)) (ij_options j), ij_meta := public_meta jid d,
     ij_plan := Some segs, ij_stats := parse_stats ie d segs, ij_status := ''awaiting_review'', ij_stage := Some ''awaiting review'',
     ij_error := None\<rparr>"

definition finish_parse :: "import_env \<Rightarrow> int \<Rightarrow> book_document \<Rightarrow> (acq_state, unit) op" where
  "finish_parse ie jid d0 =
     bindS (set_stage ie jid ''cleanup'') (\<lambda>_.
     bindS (liftS (ie_clean ie d0)) (\<lambda>d.
     bindS (on_jobs (\<lambda>db. db\<lparr>docs := (docs db)(jid \<mapsto> d)\<rparr>)) (\<lambda>_.
     bindS (set_stage ie jid ''segmenting'') (\<lambda>_.
     bindS (liftS (bindE (ie_plan ie d) (\<lambda>p. ie_refine ie p d))) (\<lambda>segs.
     bindS (update_job ie jid (reviewed ie jid d segs)) (\<lambda>_.
       auto_advance ie jid))))))"

section \<open>The stages\<close>

definition enter_ocr_confirm :: "import_env \<Rightarrow> int \<Rightarrow> book_document \<Rightarrow> import_job \<Rightarrow> (acq_state, unit) op" where
  "enter_ocr_confirm ie jid d j =
     (let pages = jint (jget ''page_count'' (dc_meta d)) in
      bindS (liftS (ie_budget ie)) (\<lambda>budget.
        let est = ie_estimate ie pages (json_truthy (jget ''gemini_first'' (ij_options j))) budget in
        update_job ie jid (\<lambda>r. r\<lparr>ij_status := ''awaiting_ocr_confirm'', ij_stage := Some ''awaiting OCR confirmation'', ij_cost := est,
          ij_meta := public_meta jid d, ij_stats := [(''page_count'', JInt pages), (''scanned_pages'', jget ''scanned_pages'' est)],
          ij_error := None\<rparr>)))"

definition do_parse :: "import_env \<Rightarrow> import_job \<Rightarrow> (acq_state, unit) op" where
  "do_parse ie j =
     bindS (update_job ie (ij_id j) (\<lambda>r. r\<lparr>ij_status := ''parsing'', ij_stage := Some ''parsing'', ij_error := None\<rparr>)) (\<lambda>_.
       if ij_format j = ''epub'' then bindS (liftS (ie_parse_epub ie (ij_path j))) (finish_parse ie (ij_id j))
       else if ij_format j = ''pdf'' then bindS (liftS (ie_parse_pdf ie (ij_path j))) (\<lambda>d.
         if json_truthy (jget ''scanned'' (dc_meta d)) then enter_ocr_confirm ie (ij_id j) d j else finish_parse ie (ij_id j) d)
       else raiseS (NotImplementedError (''Format '' @ in_quotes (ij_format j) @ '' is not handled.'')))"

fun report_progress :: "import_env \<Rightarrow> int \<Rightarrow> (int \<times> int) list \<Rightarrow> (acq_state, unit) op" where
  "report_progress ie jid [] = returnS ()"
| "report_progress ie jid ((k, n) # ps) =
     bindS (update_job ie jid (\<lambda>r. r\<lparr>ij_progress := [(''done'', JInt k), (''total'', JInt n), (''unit'', JStr ''pages'')]\<rparr>))
       (\<lambda>_. report_progress ie jid ps)"

definition do_ocr :: "import_env \<Rightarrow> import_job \<Rightarrow> (acq_state, unit) op" where
  "do_ocr ie j =
     (let (pages, outcome) = ie_ocr ie (ij_path j) (ij_options j) in
      bindS (update_job ie (ij_id j) (\<lambda>r. r\<lparr>ij_status := ''ocr_running'', ij_stage := Some ''OCR in progress'', ij_error := None\<rparr>)) (\<lambda>_.
      bindS (report_progress ie (ij_id j) pages) (\<lambda>_.
        case outcome of
          Ocr_raised e \<Rightarrow> raiseS e
        | Ocr_budget \<Rightarrow> update_job ie (ij_id j) (\<lambda>r. r\<lparr>ij_status := ''ocr_paused'', ij_stage := Some ''paused''\<rparr>)
        | Ocr_document d \<Rightarrow>
            bindS (if take 2 (meta_text ''language'' (dc_meta d)) \<in> {''zh'', ''ja'', ''ko''}
                then update_job ie (ij_id j) (\<lambda>r. r\<lparr>ij_options := jset ''is_raw'' (JBool True) (ij_options j)\<rparr>) else returnS ()) (\<lambda>_.
              finish_parse ie (ij_id j) d))))"

definition do_commit :: "import_env \<Rightarrow> import_job \<Rightarrow> (acq_state, unit) op" where
  "do_commit ie j = bindS (set_stage ie (ij_id j) ''committing'') (\<lambda>_. bindS (commit_job (ie_commit ie) j) (\<lambda>_. returnS ()))"

definition owner_can_spend :: "import_env \<Rightarrow> import_job \<Rightarrow> (acq_state, bool) op" where
  "owner_can_spend ie j = (case ij_user j of None \<Rightarrow> returnS True | Some u \<Rightarrow> liftS (ie_can_spend ie u))"

text \<open>\<open>ImportWorkerService.process\<close>: an exception of a stage fails the job.\<close>

definition process_import :: "import_env \<Rightarrow> import_job \<Rightarrow> (acq_state, unit) op" where
  "process_import ie j =
     catchS
       (if ij_status j = ''parsing''
        then bindS (owner_can_spend ie j) (\<lambda>ok.
          if ok then do_parse ie j else fail_import ie (ij_id j) ''Verify your email before importing files.'')
        else if ij_status j = ''ocr_running''
        then bindS (owner_can_spend ie j) (\<lambda>ok.
          if ok then do_ocr ie j else fail_import ie (ij_id j) ''Verify your email before running OCR.'')
        else if ij_status j = ''commit_running'' then do_commit ie j
        else returnS ())
       (\<lambda>e. fail_import ie (ij_id j) (error_text e))"

text \<open>The paused jobs are resumed when the provider's budget allows.\<close>

definition reactivate_imports :: "import_env \<Rightarrow> (acq_state, unit) op" where
  "reactivate_imports ie = bindS (liftS (ie_budget ie)) (\<lambda>b. if b > 0 then on_jobs reactivate_paused else returnS ())"

end
