(* ===== verification/Acquisition_Runs.thy ===== *)
theory Acquisition_Runs
  imports Acquisition_Worker
begin

text \<open>
  Import jobs under every interleaving: what the stages of the worker may change, that every processed job is resolved, and that uploaded
  bytes are kept.
\<close>

section \<open>Frames of the stages\<close>

lemma keeps_readS [keeps_rules]: "keeps I (readS f)"
  by (simp add: keeps_def readS_def)

lemma keeps_doS: "(\<And>s. I s \<Longrightarrow> I (f s)) \<Longrightarrow> keeps I (doS f)"
  by (simp add: keeps_def doS_def)

definition on_table :: "(import_db \<Rightarrow> bool) \<Rightarrow> acq_state \<Rightarrow> bool" where
  "on_table P s \<longleftrightarrow> P (aq_jobs s)"

lemma table_on_reading [keeps_rules]: "keeps (on_table P) (on_reading m)"
  by (auto simp: keeps_def on_table_def on_reading_def split: prod.splits)

lemma table_import_work [keeps_rules]: "keeps (on_table P) (import_work m)"
  by (auto simp: keeps_def on_table_def import_work_def split: prod.splits)

lemma table_import_quota [keeps_rules]: "keeps (on_table P) (import_quota f)"
  by (auto simp: keeps_def on_table_def import_quota_def split: sum.splits prod.splits)

lemma table_create_source [keeps_rules]: "keeps (on_table P) (create_import_source nid a u l r off lb)"
  by (simp add: keeps_def on_table_def create_import_source_def)

lemma table_create_novel [keeps_rules]: "keeps (on_table P) (create_imported_novel clk d)"
  by (simp add: keeps_def on_table_def create_imported_novel_def Let_def)

lemma commit_assets_jobs [simp]: "aq_jobs (commit_assets nid jid d shas s) = aq_jobs s"
proof (induction shas arbitrary: s)
  case (Cons sha shas)
  have "aq_jobs (commit_asset nid jid sha a s) = aq_jobs s" for a by (simp add: commit_asset_def Let_def)
  then show ?case using Cons by (simp add: commit_assets_def split: option.splits)
qed (simp add: commit_assets_def)

lemma set_import_cover_jobs [simp]: "aq_jobs (set_import_cover ce ds view s) = aq_jobs s"
  by (simp add: set_import_cover_def set_cover_if_missing_def split: option.splits)

lemma keeps_split_prod [keeps_rules]: "(\<And>a b. x = (a, b) \<Longrightarrow> keeps I (f a b)) \<Longrightarrow> keeps I (case x of (a, b) \<Rightarrow> f a b)"
  by (cases x) simp

lemma table_write_chapters: "keeps (on_table P) (write_chapters ce ds view bs label ngs)"
proof (induction ngs)
  case (Cons x xs)
  show ?case unfolding write_chapters.simps write_chapter_def by (intro keeps_rules Cons)
qed (simp only: write_chapters.simps keeps_returnS)

lemma table_write_segments [keeps_rules]: "keeps (on_table P) (write_segments ce jid d included ds label sq)"
  unfolding write_segments_def Let_def
  by (intro keeps_rules table_write_chapters keeps_doS) (simp_all add: on_table_def)

lemma table_resolve_target [keeps_rules]: "keeps (on_table P) (resolve_target ce j meta)"
  unfolding resolve_target_def replace_target_def Let_def
  by (intro keeps_rules keeps_doS) (simp_all add: on_table_def replace_import_source_def)

lemma table_auto_build [keeps_rules]: "keeps (on_table P) (auto_build ce nid a b uid)"
  unfolding auto_build_def schedule_codex_def reserve_auto_codex_def refund_codex_build_def
  by (intro keeps_rules)

text \<open>The one write of a commit to the jobs is the finalisation.\<close>

definition finalized :: "(import_db \<Rightarrow> bool) \<Rightarrow> bool" where
  "finalized P \<longleftrightarrow> (\<forall>clk jid nid sid stats db. P db \<longrightarrow> P (update_import clk jid (\<lambda>j. j\<lparr>ij_novel := Some nid, ij_source := Some sid,
     ij_status := ''committed'', ij_stage := Some ''committed'', ij_stats := stats, ij_error := None\<rparr>) db))"

lemma finalizedD: "finalized P \<Longrightarrow> on_table P s \<Longrightarrow> on_table P (finalize_import_job clk jid nid sid stats s)"
  by (simp add: finalized_def on_table_def finalize_import_job_def)

lemma touch_novel_table: "on_table P (touch_novel clk nid s) = on_table P s"
  by (simp add: on_table_def touch_novel_def)

lemma table_commit_operation:
  assumes "finalized P"
  shows "keeps (on_table P) (commit_operation ce j d included)"
  unfolding commit_operation_def Let_def
  by (intro keeps_rules keeps_doS)
    (use assms in \<open>auto simp: on_table_def finalize_import_job_def touch_novel_def finalized_def split: option.splits\<close>)

lemma table_commit_job:
  assumes "finalized P"
  shows "keeps (on_table P) (commit_job ce j)"
  unfolding commit_job_def by (intro keeps_rules table_commit_operation assms)

lemma table_write_volumes:
  assumes "finalized P"
  shows "keeps (on_table P) (write_volumes ce nid lang name k b vs)"
proof (induction vs arbitrary: k b)
  case (Cons v vs)
  show ?case unfolding write_volumes.simps write_volume_def Let_def
    by (intro keeps_rules keeps_doS Cons) (use assms finalizedD in auto)
qed (simp only: write_volumes.simps keeps_returnS)

lemma table_series_operation:
  assumes "finalized P"
  shows "keeps (on_table P) (series_operation ce target vs)"
  unfolding series_operation_def Let_def
  by (intro keeps_rules keeps_doS table_write_volumes assms) (simp_all add: touch_novel_table)

lemma table_commit_series:
  assumes "finalized P"
  shows "keeps (on_table P) (commit_series ce jids target)"
  unfolding commit_series_def Let_def by (intro keeps_rules table_series_operation assms)

text \<open>What the worker writes: changes of a row that leave its upload, digest and format alone and never reopen the upload.\<close>

definition tame :: "(import_job \<Rightarrow> import_job) \<Rightarrow> bool" where
  "tame f \<longleftrightarrow> (\<forall>j. ij_id (f j) = ij_id j \<and> ij_format (f j) = ij_format j \<and> upload_of (f j) = upload_of j \<and> ij_sha (f j) = ij_sha j \<and>
     (ij_status (f j) = ''receiving'' \<longrightarrow> ij_status j = ''receiving''))"

text \<open>Invariants of the table that tame changes and new documents keep.\<close>

definition worker_inv :: "(import_db \<Rightarrow> bool) \<Rightarrow> bool" where
  "worker_inv P \<longleftrightarrow> (\<forall>clk jid f db. tame f \<longrightarrow> P db \<longrightarrow> P (update_import clk jid f db)) \<and>
     (\<forall>jid d db. P db \<longrightarrow> P (db\<lparr>docs := (docs db)(jid \<mapsto> d)\<rparr>))"

text \<open>Invariants that the end of a job keeps: failing, committing, having been committed.\<close>

definition ending_inv :: "(import_db \<Rightarrow> bool) \<Rightarrow> bool" where
  "ending_inv P \<longleftrightarrow> finalized P \<and>
     (\<forall>clk jid e db. P db \<longrightarrow> P (update_import clk jid (\<lambda>j. j\<lparr>ij_status := ''failed'', ij_error := Some (take 4000 e)\<rparr>) db)) \<and>
     (\<forall>clk jid db. P db \<longrightarrow> P (update_import clk jid (\<lambda>j. j\<lparr>ij_status := ''committing'', ij_stage := Some ''auto-committing''\<rparr>) db))"

lemma worker_inv_ending: "worker_inv P \<Longrightarrow> ending_inv P"
  by (simp add: worker_inv_def ending_inv_def finalized_def tame_def upload_of_def)

lemma ending_inv_finalized: "ending_inv P \<Longrightarrow> finalized P"
  by (simp add: ending_inv_def)

lemma table_update_job:
  assumes "worker_inv P" "tame f"
  shows "keeps (on_table P) (update_job ie jid f)"
  using assms by (simp add: update_job_def on_jobs_def keeps_def doS_def on_table_def worker_inv_def)

lemma table_stage: "worker_inv P \<Longrightarrow> keeps (on_table P) (set_stage ie jid st)"
  unfolding set_stage_def by (rule table_update_job) (simp_all add: tame_def upload_of_def)

lemma table_fail: "ending_inv P \<Longrightarrow> keeps (on_table P) (fail_import ie jid e)"
  by (simp add: fail_import_def update_job_def on_jobs_def keeps_def doS_def on_table_def ending_inv_def)

lemma table_fail_all: "ending_inv P \<Longrightarrow> keeps (on_table P) (fail_all ie jids e)"
proof (induction jids)
  case (Cons j js)
  then show ?case unfolding fail_all.simps by (intro keeps_rules table_fail)
qed (simp only: fail_all.simps keeps_returnS)

lemma table_auto_commit_one: "ending_inv P \<Longrightarrow> keeps (on_table P) (auto_commit_one ie jid)"
  by (simp add: auto_commit_one_def update_job_def on_jobs_def keeps_def doS_def on_table_def ending_inv_def)

lemma table_commit_groups: "ending_inv P \<Longrightarrow> keeps (on_table P) (commit_groups ie gs)"
proof (induction gs)
  case (Cons g gs)
  then show ?case unfolding commit_groups.simps commit_group_def
    by (intro keeps_rules table_fail_all table_auto_commit_one table_commit_series ending_inv_finalized)
qed (simp only: commit_groups.simps keeps_returnS)

lemma table_auto_advance: "ending_inv P \<Longrightarrow> keeps (on_table P) (auto_advance ie jid)"
  unfolding auto_advance_def by (intro keeps_rules table_auto_commit_one table_commit_groups)

lemma jget_raw_options [simp]: "k \<noteq> ''is_raw'' \<Longrightarrow> jget k (raw_options lang d) = jget k d"
  by (simp add: raw_options_def)

lemma tame_reviewed: "tame (reviewed ie jid d segs)"
  by (simp add: tame_def reviewed_def upload_of_def)

lemma table_save_document: "worker_inv P \<Longrightarrow> keeps (on_table P) (on_jobs (\<lambda>db. db\<lparr>docs := (docs db)(jid \<mapsto> d)\<rparr>))"
  by (simp add: on_jobs_def keeps_def doS_def on_table_def worker_inv_def)

lemma table_finish_parse: "worker_inv P \<Longrightarrow> keeps (on_table P) (finish_parse ie jid d)"
  unfolding finish_parse_def by (intro keeps_rules table_stage table_save_document table_auto_advance worker_inv_ending table_update_job tame_reviewed)

lemma table_do_parse: "worker_inv P \<Longrightarrow> keeps (on_table P) (do_parse ie j)"
  unfolding do_parse_def enter_ocr_confirm_def Let_def
  by (intro keeps_rules table_finish_parse table_update_job) (simp_all add: tame_def upload_of_def)

lemma table_report_progress: "worker_inv P \<Longrightarrow> keeps (on_table P) (report_progress ie jid ps)"
proof (induction ps)
  case (Cons p ps)
  show ?case by (cases p; simp only: report_progress.simps)
      (intro keeps_rules table_update_job Cons; simp add: tame_def upload_of_def Cons)
qed (simp only: report_progress.simps keeps_returnS)

text \<open>OCR writes the options of the job as it was claimed.\<close>

definition keeps_snapshot :: "(import_db \<Rightarrow> bool) \<Rightarrow> import_job \<Rightarrow> bool" where
  "keeps_snapshot P j \<longleftrightarrow>
     (\<forall>clk db. P db \<longrightarrow> P (update_import clk (ij_id j) (\<lambda>r. r\<lparr>ij_options := jset ''is_raw'' (JBool True) (ij_options j)\<rparr>) db))"

lemma table_do_ocr:
  assumes "worker_inv P" "keeps_snapshot P j"
  shows "keeps (on_table P) (do_ocr ie j)"
proof -
  obtain pages outcome where o: "ie_ocr ie (ij_path j) (ij_options j) = (pages, outcome)" by (cases "ie_ocr ie (ij_path j) (ij_options j)")
  have raw: "keeps (on_table P) (update_job ie (ij_id j) (\<lambda>r. r\<lparr>ij_options := jset ''is_raw'' (JBool True) (ij_options j)\<rparr>))"
    using assms(2) by (simp add: update_job_def on_jobs_def keeps_def doS_def on_table_def keeps_snapshot_def)
  have started: "keeps (on_table P) (update_job ie (ij_id j) (\<lambda>r. r\<lparr>ij_status := ''ocr_running'', ij_stage := Some ''OCR in progress'', ij_error := None\<rparr>))"
    "keeps (on_table P) (update_job ie (ij_id j) (\<lambda>r. r\<lparr>ij_status := ''ocr_paused'', ij_stage := Some ''paused''\<rparr>))"
    by (rule table_update_job [OF assms(1)], simp add: tame_def upload_of_def)+
  show ?thesis
    unfolding do_ocr_def o Let_def prod.case
    by (intro keeps_bindS started table_report_progress assms(1); cases outcome; simp only: ocr_outcome.case)
      (intro keeps_rules table_finish_parse assms(1) raw started)+
qed

lemma table_process:
  assumes "worker_inv P" "keeps_snapshot P j"
  shows "keeps (on_table P) (process_import ie j)"
  unfolding process_import_def owner_can_spend_def do_commit_def
  by (intro keeps_rules table_do_parse table_do_ocr table_fail table_stage table_commit_job worker_inv_ending ending_inv_finalized assms)

section \<open>Every processed job is resolved\<close>

text \<open>The statuses a claimed job has, and those a processed one may have.\<close>

definition MARKERS :: "string list" where
  "MARKERS = [''parsing'', ''ocr_running'', ''commit_running'']"

definition OUTCOMES :: "string list" where
  "OUTCOMES = [''awaiting_review'', ''awaiting_ocr_confirm'', ''ocr_paused'', ''committing'', ''committed'', ''failed'']"

definition present :: "int \<Rightarrow> import_db \<Rightarrow> bool" where
  "present jid db \<longleftrightarrow> find_import jid db \<noteq> None"

definition resolved :: "int \<Rightarrow> import_db \<Rightarrow> bool" where
  "resolved jid db \<longleftrightarrow> (\<exists>r. find_import jid db = Some r \<and> ij_status r \<in> set OUTCOMES)"

lemma find_import_docs [simp]: "find_import i (db\<lparr>docs := x\<rparr>) = find_import i db"
  by (simp add: find_import_def)

lemma present_worker: "worker_inv (present jid)" "keeps_snapshot (present jid) j"
  by (auto simp: worker_inv_def keeps_snapshot_def present_def find_update_import tame_def split: if_splits)

lemma resolved_ending: "ending_inv (resolved jid)"
  by (auto simp: ending_inv_def finalized_def resolved_def find_update_import OUTCOMES_def)

lemma resolved_update:
  assumes "update_job ie jid f s = (Inr (), s')" "present jid (aq_jobs s)" "\<And>r. ij_id (f r) = ij_id r" "\<And>r. ij_status (f r) \<in> set OUTCOMES"
  shows "resolved jid (aq_jobs s')"
  using assms by (auto simp: update_job_def on_jobs_def doS_def resolved_def present_def find_update_import)

lemma finish_parse_resolved:
  assumes run: "finish_parse ie jid d s = (Inr (), s')" and here: "present jid (aq_jobs s)"
  shows "resolved jid (aq_jobs s')"
proof -
  obtain s1 d1 s2 segs s3 where s1: "bindS (set_stage ie jid ''cleanup'') (\<lambda>_. returnS ()) s = (Inr (), s1)"
    and s2: "bindS (on_jobs (\<lambda>db. db\<lparr>docs := (docs db)(jid \<mapsto> d1)\<rparr>)) (\<lambda>_. set_stage ie jid ''segmenting'') s1 = (Inr (), s2)"
    and s3: "update_job ie jid (reviewed ie jid d1 segs) s2 = (Inr (), s3)" and adv: "auto_advance ie jid s3 = (Inr (), s')"
    using run unfolding finish_parse_def by (fastforce elim!: bindS_InrE simp: bindS_def split: sum.splits prod.splits)
  have "present jid (aq_jobs s1)" using s1 here by (auto simp: bindS_def set_stage_def update_job_def on_jobs_def doS_def present_def find_update_import)
  then have "present jid (aq_jobs s2)" using s2
    by (auto simp: bindS_def set_stage_def update_job_def on_jobs_def doS_def present_def find_update_import)
  then have "resolved jid (aq_jobs s3)" by (rule resolved_update [OF s3]) (simp_all add: reviewed_def OUTCOMES_def)
  then have "on_table (resolved jid) (snd (auto_advance ie jid s3))"
    using keepsD [OF table_auto_advance [OF resolved_ending]] by (simp add: on_table_def)
  then show ?thesis by (simp add: adv on_table_def)
qed

text \<open>An operation that ends the job: it keeps the row, and when it returns the row is resolved.\<close>

definition ends :: "int \<Rightarrow> (acq_state, 'a) op \<Rightarrow> bool" where
  "ends jid m \<longleftrightarrow> (\<forall>s. present jid (aq_jobs s) \<longrightarrow> present jid (aq_jobs (snd (m s))) \<and>
     (\<forall>x. fst (m s) = Inr x \<longrightarrow> resolved jid (aq_jobs (snd (m s)))))"

named_theorems ends_rules \<open>operations that end a job\<close>

lemma ends_raise [ends_rules]: "ends jid (raiseS e)"
  by (simp add: ends_def)

lemma ends_if [ends_rules]: "(c \<Longrightarrow> ends jid m) \<Longrightarrow> (\<not> c \<Longrightarrow> ends jid n) \<Longrightarrow> ends jid (if c then m else n)"
  by simp

lemma ends_case_prod [ends_rules]: "(\<And>a b. x = (a, b) \<Longrightarrow> ends jid (f a b)) \<Longrightarrow> ends jid (case x of (a, b) \<Rightarrow> f a b)"
  by (cases x) simp

lemma ends_last:
  assumes "keeps (on_table (present jid)) m" "\<And>s x s'. m s = (Inr x, s') \<Longrightarrow> ends jid (f x)"
  shows "ends jid (bindS m f)"
  unfolding ends_def
proof (intro allI impI)
  fix s :: acq_state assume p: "present jid (aq_jobs s)"
  obtain r s1 where m: "m s = (r, s1)" by (cases "m s")
  have p1: "present jid (aq_jobs s1)" using keepsD [OF assms(1)] p m by (force simp: on_table_def)
  show "present jid (aq_jobs (snd (bindS m f s))) \<and> (\<forall>x. fst (bindS m f s) = Inr x \<longrightarrow> resolved jid (aq_jobs (snd (bindS m f s))))"
  proof (cases r)
    case (Inl e) then show ?thesis using m p1 by (simp add: bindS_def)
  next
    case (Inr x) then show ?thesis using m p1 assms(2) [of s x s1] by (simp add: bindS_def ends_def)
  qed
qed

lemma ends_first:
  assumes "ends jid m" "\<And>x. keeps (on_table (present jid)) (f x)" "\<And>x. keeps (on_table (resolved jid)) (f x)"
  shows "ends jid (bindS m f)"
  unfolding ends_def
proof (intro allI impI)
  fix s :: acq_state assume p: "present jid (aq_jobs s)"
  obtain r s1 where m: "m s = (r, s1)" by (cases "m s")
  have p1: "present jid (aq_jobs s1)" using assms(1) p m by (force simp: ends_def)
  show "present jid (aq_jobs (snd (bindS m f s))) \<and> (\<forall>x. fst (bindS m f s) = Inr x \<longrightarrow> resolved jid (aq_jobs (snd (bindS m f s))))"
  proof (cases r)
    case (Inl e) then show ?thesis using m p1 by (simp add: bindS_def)
  next
    case (Inr x)
    have "resolved jid (aq_jobs s1)" using assms(1) p m Inr by (auto simp: ends_def dest!: spec [of _ s])
    then show ?thesis
      using m p1 Inr keepsD [OF assms(2) [of x], of s1] keepsD [OF assms(3) [of x], of s1] by (simp add: bindS_def on_table_def)
  qed
qed

lemma ends_atomic:
  assumes "ends jid m"
  shows "ends jid (atomicS m)"
  unfolding ends_def
proof (intro allI impI)
  fix s :: acq_state assume p: "present jid (aq_jobs s)"
  show "present jid (aq_jobs (snd (atomicS m s))) \<and> (\<forall>x. fst (atomicS m s) = Inr x \<longrightarrow> resolved jid (aq_jobs (snd (atomicS m s))))"
    using assms [unfolded ends_def, rule_format, OF p] p by (auto simp: atomicS_def split: prod.splits sum.splits)
qed

lemma ends_catch:
  assumes "ends jid m" "\<And>e. ends jid (h e)"
  shows "ends jid (catchS m h)"
  unfolding ends_def
proof (intro allI impI)
  fix s :: acq_state assume p: "present jid (aq_jobs s)"
  have h: "ends jid (h e)" for e by (rule assms(2))
  show "present jid (aq_jobs (snd (catchS m h s))) \<and> (\<forall>x. fst (catchS m h s) = Inr x \<longrightarrow> resolved jid (aq_jobs (snd (catchS m h s))))"
    using assms(1) [unfolded ends_def, rule_format, OF p] h [unfolded ends_def] by (auto simp: catchS_def split: prod.splits sum.splits)
qed

lemma ends_jobs:
  assumes "\<And>s. present jid (aq_jobs s) \<Longrightarrow> resolved jid (aq_jobs (f s))"
  shows "ends jid (doS f)"
  unfolding ends_def
proof (intro allI impI)
  fix s :: acq_state assume p: "present jid (aq_jobs s)"
  show "present jid (aq_jobs (snd (doS f s))) \<and> (\<forall>x. fst (doS f s) = Inr x \<longrightarrow> resolved jid (aq_jobs (snd (doS f s))))"
    using assms [OF p] by (auto simp: doS_def resolved_def present_def)
qed

lemma resolved_updated:
  assumes "present jid db" "\<And>r. ij_id (f r) = ij_id r" "\<And>r. ij_status (f r) \<in> set OUTCOMES"
  shows "resolved jid (update_import clk jid f db)"
  using assms by (auto simp: resolved_def present_def find_update_import)

lemma ends_update:
  assumes "\<And>r. ij_id (f r) = ij_id r" "\<And>r. ij_status (f r) \<in> set OUTCOMES"
  shows "ends jid (update_job ie jid f)"
  unfolding update_job_def on_jobs_def by (rule ends_jobs) (use assms in \<open>simp add: resolved_updated\<close>)

lemma ends_fail [ends_rules]: "ends jid (fail_import ie jid e)"
  unfolding fail_import_def by (rule ends_update) (simp_all add: OUTCOMES_def)

lemma ends_finish_parse [ends_rules]: "ends jid (finish_parse ie jid d)"
  unfolding ends_def
proof (intro allI impI)
  fix s :: acq_state assume p: "present jid (aq_jobs s)"
  have "present jid (aq_jobs (snd (finish_parse ie jid d s)))"
    using keepsD [OF table_finish_parse [OF present_worker(1)], of jid s] p by (simp add: on_table_def)
  moreover have "resolved jid (aq_jobs (snd (finish_parse ie jid d s)))" if "fst (finish_parse ie jid d s) = Inr x" for x
    using finish_parse_resolved [of ie jid d s] p that by (cases "finish_parse ie jid d s") auto
  ultimately show "present jid (aq_jobs (snd (finish_parse ie jid d s))) \<and>
      (\<forall>x. fst (finish_parse ie jid d s) = Inr x \<longrightarrow> resolved jid (aq_jobs (snd (finish_parse ie jid d s))))" by blast
qed

lemma present_update: "tame f \<Longrightarrow> keeps (on_table (present jid)) (update_job ie i f)"
  by (rule table_update_job [OF present_worker(1)])

lemma ends_do_parse: "ends (ij_id j) (do_parse ie j)"
  unfolding do_parse_def enter_ocr_confirm_def Let_def
  by (intro ends_last ends_if ends_finish_parse ends_raise present_update keeps_liftS ends_update) (simp_all add: tame_def upload_of_def OUTCOMES_def)

lemma ends_do_ocr: "ends (ij_id j) (do_ocr ie j)"
proof -
  obtain pages outcome where o: "ie_ocr ie (ij_path j) (ij_options j) = (pages, outcome)" by (cases "ie_ocr ie (ij_path j) (ij_options j)")
  have raw: "keeps (on_table (present (ij_id j))) (update_job ie (ij_id j) (\<lambda>r. r\<lparr>ij_options := x\<rparr>))" for x
    by (auto simp: update_job_def on_jobs_def keeps_def doS_def on_table_def present_def find_update_import)
  have paused: "ends (ij_id j) (update_job ie (ij_id j) (\<lambda>r. r\<lparr>ij_status := ''ocr_paused'', ij_stage := Some ''paused''\<rparr>))"
    by (rule ends_update) (simp_all add: OUTCOMES_def)
  have rest: "ends (ij_id j) (case outcome of Ocr_raised e \<Rightarrow> raiseS e
     | Ocr_budget \<Rightarrow> update_job ie (ij_id j) (\<lambda>r. r\<lparr>ij_status := ''ocr_paused'', ij_stage := Some ''paused''\<rparr>)
     | Ocr_document d \<Rightarrow> bindS (if take 2 (meta_text ''language'' (dc_meta d)) \<in> {''zh'', ''ja'', ''ko''}
            then update_job ie (ij_id j) (\<lambda>r. r\<lparr>ij_options := jset ''is_raw'' (JBool True) (ij_options j)\<rparr>) else returnS ())
          (\<lambda>_. finish_parse ie (ij_id j) d))"
    by (cases outcome; simp only: ocr_outcome.case)
      (intro ends_last ends_finish_parse ends_raise keeps_if keeps_returnS raw paused)+
  show ?thesis
    unfolding do_ocr_def o Let_def prod.case
    by (intro ends_last rest table_report_progress present_worker present_update) (simp add: tame_def upload_of_def)
qed

lemma present_finalized: "finalized (present jid)"
  by (auto simp: finalized_def present_def find_update_import)

lemma ends_commit_operation: "ends (ij_id j) (commit_operation ce j d included)"
  unfolding commit_operation_def Let_def
  by (intro ends_last ends_case_prod ends_first ends_jobs keeps_rules keeps_doS table_resolve_target table_write_segments)
    (auto simp: on_table_def finalize_import_job_def touch_novel_def OUTCOMES_def resolved_updated split: option.splits)

lemma load_for_commit_id: "load_for_commit j0 db = Inr (j, d, included) \<Longrightarrow> ij_id j = ij_id j0"
  by (auto simp: load_for_commit_def Let_def split: option.splits if_splits)

lemma ends_commit_job: "ends (ij_id j) (commit_job ce j)"
  unfolding commit_job_def
proof (rule ends_last [OF keeps_readS])
  fix s x s' assume r: "readS (\<lambda>s. load_for_commit j (aq_jobs s)) s = (Inr x, s')"
  obtain j1 d included where x: "x = (j1, d, included)" by (cases x)
  have i: "ij_id j1 = ij_id j" using r load_for_commit_id by (auto simp: readS_def x)
  have "ends (ij_id j) (bindS (atomicS (commit_operation ce j1 d included)) (\<lambda>(nid, lo, hi). bindS (auto_build ce nid lo hi (ij_user j1)) (\<lambda>_. returnS nid)))"
    by (rule ends_first, rule ends_atomic, rule ends_commit_operation [of j1, unfolded i]) (intro keeps_rules table_auto_build)+
  then show "ends (ij_id j) (case x of (j1, d, included) \<Rightarrow>
      bindS (atomicS (commit_operation ce j1 d included)) (\<lambda>(nid, lo, hi). bindS (auto_build ce nid lo hi (ij_user j1)) (\<lambda>_. returnS nid)))"
    by (simp add: x)
qed

lemma ends_do_commit: "ends (ij_id j) (do_commit ie j)"
  unfolding do_commit_def set_stage_def
  by (intro ends_last ends_first ends_commit_job present_update keeps_returnS) (simp add: tame_def upload_of_def)

lemma ends_process:
  assumes "ij_status j \<in> set MARKERS"
  shows "ends (ij_id j) (process_import ie j)"
proof -
  have spend: "keeps (on_table (present (ij_id j))) (owner_can_spend ie j)" unfolding owner_can_spend_def by (intro keeps_rules)
  show ?thesis
    using assms unfolding process_import_def MARKERS_def
    by (auto intro!: ends_catch ends_fail ends_last [OF spend] ends_do_parse ends_do_ocr ends_do_commit ends_if)
qed

lemma process_import_returns: "fst (process_import ie j s) = Inr ()"
  by (auto simp: process_import_def catchS_def fail_import_def update_job_def on_jobs_def doS_def split: prod.splits sum.splits)

lemma claimed_marker:
  assumes "claim_import clk worker db = (Inr (Some j), db')" "distinct (map ij_id (ij_rows db))"
  shows "ij_status j \<in> set MARKERS"
proof -
  let ?c = "filter (\<lambda>j. ij_status j \<in> set IMPORT_TRIGGERS) (ij_rows db)"
  obtain r where r: "sql_first ij_updated_at ?c = Some r"
    and j: "find_import (ij_id r) (update_import clk (ij_id r) (\<lambda>r. r\<lparr>ij_status := marker (ij_status r), ij_stage := Some ''claimed'',
        ij_token := Some worker, ij_claimed_at := Some (now clk)\<rparr>) db) = Some j"
    using assms by (auto simp: claim_import_def Let_def split: option.splits)
  have in_db: "r \<in> set (ij_rows db)" "ij_status r \<in> set IMPORT_TRIGGERS" using sql_first_Some_in [OF r] by auto
  have "find_import (ij_id r) db = Some r" using row_by_in [OF assms(2) in_db(1)] by (simp add: find_import_def)
  with j in_db(2) show ?thesis by (auto simp: find_update_import marker_def MARKERS_def IMPORT_TRIGGERS_def)
qed

text \<open>
  C18: Every import job the worker claims is resolved. Whatever the parsers, the OCR run, the clean-up, the segmentation, the budget check
  and the commit return or raise, processing a claimed job (parsing, running OCR or committing it, and advancing its batch) does not raise,
  and it leaves the job awaiting review, awaiting the confirmation of OCR, paused, handed on to its commit, committed or failed: no job stays
  in the state of a claim behind a worker that has finished with it.
\<close>
theorem import_process_resolves:
  assumes "claim_import clk worker db = (Inr (Some j), db')" "distinct (map ij_id (ij_rows db))" "find_import (ij_id j) (aq_jobs s) = Some r"
  shows "\<exists>s' r'. process_import ie j s = (Inr (), s') \<and> find_import (ij_id j) (aq_jobs s') = Some r' \<and> ij_status r' \<in> set OUTCOMES"
proof -
  have "ends (ij_id j) (process_import ie j)" by (rule ends_process, rule claimed_marker [OF assms(1,2)])
  then have "resolved (ij_id j) (aq_jobs (snd (process_import ie j s)))"
    using assms(3) process_import_returns [of ie j s] by (simp add: ends_def present_def)
  then show ?thesis
    using process_import_returns [of ie j s] by (cases "process_import ie j s") (auto simp: resolved_def)
qed

section \<open>A concrete worker\<close>

definition demo_import_env :: import_env where
  "demo_import_env = \<lparr>ie_commit = \<lparr>ce_clock = demo_now, ce_float = (\<lambda>_. ''1.0''), ce_clean = None, ce_auto_codex = False, ce_user = (\<lambda>_. Inr None),
       ce_settings = demo_settings\<rparr>,
     ie_parse_epub = (\<lambda>_. Inl (ValueError ''no container.xml'')), ie_parse_pdf = (\<lambda>_. Inl (ValueError ''no pages'')),
     ie_ocr = (\<lambda>_ _. ([], Ocr_budget)), ie_clean = Inr, ie_plan = (\<lambda>_. Inr []), ie_refine = (\<lambda>p _. Inr p), ie_quality = (\<lambda>_ _. JNull),
     ie_estimate = (\<lambda>_ _ _. []), ie_budget = Inr 0, ie_can_spend = (\<lambda>_. Inr True)\<rparr>"

definition demo_uploaded :: import_db where
  "demo_uploaded = snd (upload_complete (\<lambda>bs. bs) demo_now 1 demo_user
     (snd (create_import demo_now ''epub'' ''/b.epub'' None [(''upload'', JObj [(''size'', JInt 3), (''ext'', JStr ''epub'')])] ''receiving'' (Some 7)
        \<lparr>ij_rows = [], ij_next = 1, blobs = [(1, ''epub'') \<mapsto> ''PK!''], docs = Map.empty, staged_images = Map.empty\<rparr>)))"

definition demo_claimed :: import_db where
  "demo_claimed = snd (claim_import demo_now ''w1'' demo_uploaded)"

definition demo_import_state :: acq_state where
  "demo_import_state = \<lparr>aq_jobs = demo_claimed, aq_sources = [], aq_next_source = 1, aq_assets = [], aq_files = Map.empty, aq_catalog = demo_catalog, aq_reading = demo_reading, aq_codex = demo_extraction_db,
     aq_work = demo_db\<rparr>"

lemma demo_claim_run: "map_option ij_id (case fst (claim_import demo_now ''w1'' demo_uploaded) of Inl _ \<Rightarrow> None | Inr r \<Rightarrow> r) = Some 1"
  by code_simp

theorem import_process_resolves_witness:
  "\<exists>j s' r'. fst (claim_import demo_now ''w1'' demo_uploaded) = Inr (Some j) \<and>
     process_import demo_import_env j demo_import_state = (Inr (), s') \<and> find_import (ij_id j) (aq_jobs s') = Some r' \<and> ij_status r' \<in> set OUTCOMES"
proof -
  obtain j where c: "claim_import demo_now ''w1'' demo_uploaded = (Inr (Some j), demo_claimed)" and i: "ij_id j = 1"
    using demo_claim_run unfolding demo_claimed_def by (cases "claim_import demo_now ''w1'' demo_uploaded") (auto split: sum.splits)
  have d: "distinct (map ij_id (ij_rows demo_uploaded))" by code_simp
  have "map_option ij_status (find_import 1 demo_claimed) = Some ''parsing''" by code_simp
  then obtain r where "find_import (ij_id j) (aq_jobs demo_import_state) = Some r" by (auto simp: i demo_import_state_def)
  from import_process_resolves [OF c d this] show ?thesis using c by force
qed

end
