(* ===== verification/Acquisition_Uploads.thy ===== *)
theory Acquisition_Uploads
  imports Acquisition_Runs "HOL-Library.Sublist"
begin

text \<open>
  Uploaded files under every interleaving of requests, workers and maintenance: a run is a list of actions on the shared state and on the jobs
  that workers hold as they were claimed. The bytes of an upload that were acknowledged stay, and the digest of a job is that of its file.
\<close>

section \<open>Runs\<close>

text \<open>
  Each action is one request of the service or one step of a worker. \<open>Process_job i\<close> processes the \<open>i\<close>th held job with whatever
  its parsers, OCR and provider do.
\<close>

datatype import_action =
    Upload_file clock string string principal
  | Open_upload clock string int principal
  | Send_chunk clock int string string principal
  | Close_upload clock int principal
  | Watch_batch clock string "(string \<times> string) list option" bool bool principal
  | Edit_plan clock int "segment list" "jdict option" principal
  | Request_commit clock int string "int option" "int option" rat "bool option" bool principal
  | Request_series commit_env "int list" principal "int option"
  | Confirm_pages clock int bool principal
  | Cancel_job clock int principal
  | Remove_job int principal
  | Claim_job clock string
  | Process_job import_env nat
  | Renew_lease clock int string
  | Recover_jobs clock int
  | Resume_paused import_env
  | Sweep_uploads clock int

type_synonym import_run = "acq_state \<times> import_job list"

definition on_imports :: "(import_db, 'a) op \<Rightarrow> acq_state \<Rightarrow> acq_state" where
  "on_imports m s = s\<lparr>aq_jobs := snd (m (aq_jobs s))\<rparr>"

definition catalog_editable :: "principal \<Rightarrow> acq_state \<Rightarrow> int \<Rightarrow> unit result" where
  "catalog_editable p s nid = bindE (require_editable nid (Some p) (aq_catalog s)) (\<lambda>_. Inr ())"

definition confirm_pages :: "clock \<Rightarrow> int \<Rightarrow> bool \<Rightarrow> principal \<Rightarrow> acq_state \<Rightarrow> acq_state" where
  "confirm_pages clk jid g p s =
     (case snd (confirm_ocr clk jid g p (aq_jobs s, quota (aq_work s))) of (db, q) \<Rightarrow> s\<lparr>aq_jobs := db, aq_work := (aq_work s)\<lparr>quota := q\<rparr>\<rparr>)"

fun import_step :: "import_config \<Rightarrow> (string \<Rightarrow> string) \<Rightarrow> import_action \<Rightarrow> import_run \<Rightarrow> import_run" where
  "import_step cfg dg (Upload_file clk name bs p) (s, held) = (on_imports (upload_import cfg dg clk name bs p) s, held)"
| "import_step cfg dg (Open_upload clk name n p) (s, held) = (on_imports (upload_init cfg clk name n p) s, held)"
| "import_step cfg dg (Send_chunk clk jid h bs p) (s, held) = (on_imports (upload_chunk clk jid h bs p) s, held)"
| "import_step cfg dg (Close_upload clk jid p) (s, held) = (on_imports (upload_complete dg clk jid p) s, held)"
| "import_step cfg dg (Watch_batch clk b fs a g p) (s, held) = (on_imports (import_batch cfg dg clk b fs a g p) s, held)"
| "import_step cfg dg (Edit_plan clk jid segs m p) (s, held) = (on_imports (update_plan clk jid segs m p) s, held)"
| "import_step cfg dg (Request_commit clk jid mode n sid off raw v p) (s, held) =
     (on_imports (commit_import_job (catalog_editable p s) (\<lambda>i. map_option so_novel (find_source i s)) clk jid mode n sid off raw v p) s, held)"
| "import_step cfg dg (Request_series ce jids p target) (s, held) = (snd (service_commit_series ce jids p target s), held)"
| "import_step cfg dg (Confirm_pages clk jid g p) (s, held) = (confirm_pages clk jid g p s, held)"
| "import_step cfg dg (Cancel_job clk jid p) (s, held) = (on_imports (cancel_import clk jid p) s, held)"
| "import_step cfg dg (Remove_job jid p) (s, held) = (on_imports (remove_import jid p) s, held)"
| "import_step cfg dg (Claim_job clk w) (s, held) =
     (on_imports (claim_import clk w) s,
      (case fst (claim_import clk w (aq_jobs s)) of Inr (Some j) \<Rightarrow> j # held | _ \<Rightarrow> held))"
| "import_step cfg dg (Process_job ie i) (s, held) =
     (if i < length held then (snd (process_import ie (held ! i) s), take i held @ drop (Suc i) held) else (s, held))"
| "import_step cfg dg (Renew_lease clk jid t) (s, held) = (s\<lparr>aq_jobs := renew_import_lease clk jid t (aq_jobs s)\<rparr>, held)"
| "import_step cfg dg (Recover_jobs clk lease) (s, held) = (s\<lparr>aq_jobs := recover_imports clk lease (aq_jobs s)\<rparr>, held)"
| "import_step cfg dg (Resume_paused ie) (s, held) = (snd (reactivate_imports ie s), held)"
| "import_step cfg dg (Sweep_uploads clk ttl) (s, held) = (s\<lparr>aq_jobs := cleanup_stale_uploads clk ttl (aq_jobs s)\<rparr>, held)"

definition import_runs :: "import_config \<Rightarrow> (string \<Rightarrow> string) \<Rightarrow> import_action list \<Rightarrow> import_run \<Rightarrow> import_run" where
  "import_runs cfg dg as x = fold (import_step cfg dg) as x"

section \<open>The invariant\<close>

definition original :: "import_job \<Rightarrow> import_db \<Rightarrow> string option" where
  "original r db = blobs db (blob_key (ij_id r) (upload_ext r))"

definition same_file :: "import_job \<Rightarrow> import_job \<Rightarrow> bool" where
  "same_file r r' \<longleftrightarrow> ij_id r' = ij_id r \<and> ij_format r' = ij_format r \<and> upload_of r' = upload_of r"

definition digest_ok :: "(string \<Rightarrow> string) \<Rightarrow> import_db \<Rightarrow> import_job \<Rightarrow> bool" where
  "digest_ok dg db r \<longleftrightarrow> (\<forall>h. ij_sha r = Some h \<longrightarrow> ij_status r \<noteq> ''receiving'' \<and> map_option dg (original r db) = Some h)"

definition kept_file :: "import_db \<Rightarrow> import_db \<Rightarrow> import_job \<Rightarrow> bool" where
  "kept_file d0 db r \<longleftrightarrow> (\<exists>r0 \<in> set (ij_rows d0). same_file r0 r \<and>
     (\<forall>b0. original r0 d0 = Some b0 \<longrightarrow> (\<exists>b. original r db = Some b \<and> prefix b0 b)))"

text \<open>\<open>intact dg d0 db\<close>: the jobs of \<open>db\<close> are sound, and those that were in \<open>d0\<close> have kept their bytes.\<close>

definition intact :: "(string \<Rightarrow> string) \<Rightarrow> import_db \<Rightarrow> import_db \<Rightarrow> bool" where
  "intact dg d0 db \<longleftrightarrow> distinct (map ij_id (ij_rows db)) \<and> ij_next d0 \<le> ij_next db \<and>
     (\<forall>r \<in> set (ij_rows db). ij_id r < ij_next db \<and> digest_ok dg db r \<and> (ij_id r < ij_next d0 \<longrightarrow> kept_file d0 db r))"

lemma original_same: "same_file r r' \<Longrightarrow> original r' db = original r db"
  by (auto simp: original_def same_file_def upload_ext_def split: option.splits)

lemma digest_same:
  "same_file r r' \<Longrightarrow> digest_ok dg db r' \<longleftrightarrow>
     (\<forall>h. ij_sha r' = Some h \<longrightarrow> ij_status r' \<noteq> ''receiving'' \<and> map_option dg (original r db) = Some h)"
  by (simp add: digest_ok_def original_same)

lemma same_file_refl [simp]: "same_file r r"
  by (simp add: same_file_def)

lemma same_file_trans: "same_file a b \<Longrightarrow> same_file b c \<Longrightarrow> same_file a c"
  by (simp add: same_file_def)

lemma original_blobs: "blobs db' = blobs db \<Longrightarrow> original r db' = original r db"
  by (simp add: original_def)

text \<open>Steps that change rows one by one and no file.\<close>

lemma intact_map:
  assumes "intact dg d0 db" "ij_rows db' = map g (ij_rows db)" "blobs db' = blobs db" "ij_next db' = ij_next db"
    and "\<And>r. r \<in> set (ij_rows db) \<Longrightarrow> same_file r (g r)"
    and "\<And>r. r \<in> set (ij_rows db) \<Longrightarrow> digest_ok dg db r \<Longrightarrow> digest_ok dg db (g r)"
  shows "intact dg d0 db'"
proof -
  have o: "original r db' = original r db" for r using original_blobs [OF assms(3)] .
  have i: "ij_id (g r) = ij_id r" if "r \<in> set (ij_rows db)" for r using assms(5) [OF that] by (simp add: same_file_def)
  have "map (ij_id \<circ> g) (ij_rows db) = map ij_id (ij_rows db)" using i by simp
  then have "distinct (map (ij_id \<circ> g) (ij_rows db))" using assms(1) by (simp only: intact_def)
  moreover have "kept_file d0 db' (g r)" if r: "r \<in> set (ij_rows db)" and k: "kept_file d0 db r" for r
    using k same_file_trans [OF _ assms(5) [OF r]] original_same [OF assms(5) [OF r]] by (fastforce simp: kept_file_def o)
  moreover have "digest_ok dg db' (g r)" if "r \<in> set (ij_rows db)" "digest_ok dg db r" for r
    using assms(6) [OF that] by (simp add: digest_ok_def o)
  ultimately show ?thesis using assms(1,2,4) i unfolding intact_def by simp
qed

lemma same_touched: "same_file r r' \<Longrightarrow> same_file r (r'\<lparr>ij_updated_at := t\<rparr>)"
  by (simp add: same_file_def upload_of_def)

lemma digest_touched [simp]: "digest_ok dg db (r\<lparr>ij_updated_at := t\<rparr>) \<longleftrightarrow> digest_ok dg db r"
  using digest_same [OF same_touched [OF same_file_refl]] by (simp add: digest_ok_def)

lemma intact_update:
  assumes "intact dg d0 db" and "\<And>r. r \<in> set (ij_rows db) \<Longrightarrow> ij_id r = jid \<Longrightarrow> same_file r (f r) \<and> (digest_ok dg db r \<longrightarrow> digest_ok dg db (f r))"
  shows "intact dg d0 (update_import clk jid f db)"
proof (rule intact_map [OF assms(1)])
  show "ij_rows (update_import clk jid f db) = map (\<lambda>r. if ij_id r = jid then (f r)\<lparr>ij_updated_at := now clk\<rparr> else r) (ij_rows db)"
    by (simp add: update_import_def sql_update_def)
qed (use assms(2) in \<open>auto simp: update_import_def intro: same_touched\<close>)

lemma intact_tame: "intact dg d0 db \<Longrightarrow> tame f \<Longrightarrow> intact dg d0 (update_import clk jid f db)"
proof (rule intact_update)
  fix r assume t: "tame f"
  have f: "same_file r (f r)" using t by (simp add: tame_def same_file_def)
  show "same_file r (f r) \<and> (digest_ok dg db r \<longrightarrow> digest_ok dg db (f r))"
    using t f digest_same [OF f] by (auto simp: tame_def digest_ok_def)
qed

lemma intact_docs: "intact dg d0 db \<Longrightarrow> intact dg d0 (db\<lparr>docs := x\<rparr>)"
  by (simp add: intact_def digest_ok_def original_def kept_file_def)

lemma intact_worker: "worker_inv (intact dg d0)"
  by (simp add: worker_inv_def intact_tame intact_docs)

text \<open>Steps that remove jobs, and the files of removed jobs only.\<close>

lemma intact_remove:
  assumes "intact dg d0 db" "ij_rows db' = filter p (ij_rows db)" "ij_next db' = ij_next db"
    and "\<And>r. r \<in> set (ij_rows db) \<Longrightarrow> p r \<Longrightarrow> original r db' = original r db"
  shows "intact dg d0 db'"
proof -
  have "distinct (map ij_id (filter p (ij_rows db)))" using assms(1) by (simp add: intact_def distinct_map_filter)
  then show ?thesis using assms by (auto simp: intact_def digest_ok_def kept_file_def)
qed

text \<open>A file written for a job that carries no digest: at the end of its bytes, or for a job younger than the reference state.\<close>

lemma intact_write:
  assumes i: "intact dg d0 db"
    and grows: "jid < ij_next d0 \<Longrightarrow> prefix (coalesce (blobs db (blob_key jid ext)) []) bs"
    and free: "\<And>r. r \<in> set (ij_rows db) \<Longrightarrow> ij_id r = jid \<Longrightarrow> ij_sha r = None"
  shows "intact dg d0 (db\<lparr>blobs := (blobs db)(blob_key jid ext \<mapsto> bs)\<rparr>)"
proof -
  let ?db = "db\<lparr>blobs := (blobs db)(blob_key jid ext \<mapsto> bs)\<rparr>"
  have "digest_ok dg ?db r" if "r \<in> set (ij_rows db)" "digest_ok dg db r" for r
    using that free [OF that(1)] by (cases "ij_id r = jid") (auto simp: digest_ok_def original_def blob_key_def)
  moreover have "kept_file d0 ?db r" if kf: "kept_file d0 db r" and "ij_id r < ij_next d0" for r
  proof -
    obtain r0 where r0: "r0 \<in> set (ij_rows d0)" "same_file r0 r" "\<forall>b0. original r0 d0 = Some b0 \<longrightarrow> (\<exists>b. original r db = Some b \<and> prefix b0 b)"
      using kf unfolding kept_file_def by blast
    have "\<exists>b. original r ?db = Some b \<and> prefix b0 b" if o: "original r0 d0 = Some b0" for b0
    proof -
      obtain b where b: "original r db = Some b" "prefix b0 b" using r0(3) o by blast
      show ?thesis
      proof (cases "blob_key (ij_id r) (upload_ext r) = blob_key jid ext")
        case True
        have "jid < ij_next d0" using True \<open>ij_id r < ij_next d0\<close> by (simp add: blob_key_def)
        then have "prefix b bs" using grows b(1) True by (simp add: original_def)
        then show ?thesis using b(2) True by (auto simp: original_def intro: prefix_order.trans)
      next
        case False then show ?thesis using b by (simp add: original_def)
      qed
    qed
    then show ?thesis using r0(1,2) by (auto simp: kept_file_def)
  qed
  ultimately show ?thesis using i by (simp add: intact_def)
qed

lemma intact_create:
  assumes "intact dg d0 db" "ij_next db = jid" "ij_id r = jid" "ij_sha r = None"
  shows "intact dg d0 (db\<lparr>ij_rows := ij_rows db @ [r], ij_next := jid + 1\<rparr>)"
  using assms by (fastforce simp: intact_def digest_ok_def original_def kept_file_def)

lemma create_import_run:
  assumes "intact dg d0 db" "create_import clk fmt path None options st uid db = (Inr jid, db')"
  shows "intact dg d0 db' \<and> ij_next d0 \<le> jid \<and>
    (\<forall>r \<in> set (ij_rows db'). ij_id r = jid \<longrightarrow> ij_sha r = None \<and> ij_format r = fmt \<and> ij_options r = options)"
proof -
  have "intact dg d0 db'" using assms intact_create [OF assms(1), of jid] by (auto simp: create_import_def)
  moreover have "ij_next d0 \<le> ij_next db" "\<forall>r \<in> set (ij_rows db). ij_id r \<noteq> ij_next db" using assms(1) by (auto simp: intact_def)
  ultimately show ?thesis using assms(2) by (auto simp: create_import_def)
qed

lemma intact_saved:
  assumes "intact dg d0 db" "ij_next d0 \<le> jid" "dropWhile (\<lambda>c. c = CHR ''.'') ext = fmt" "dropWhile (\<lambda>c. c = CHR ''.'') fmt = fmt"
    and "\<And>r. r \<in> set (ij_rows db) \<Longrightarrow> ij_id r = jid \<Longrightarrow> ij_sha r = None \<and> ij_format r = fmt \<and> upload_of r = []"
  shows "intact dg d0 (update_import clk jid (\<lambda>j. j\<lparr>ij_path := pth, ij_sha := Some (dg bs), ij_status := ''uploaded''\<rparr>) (save_original jid ext bs db))"
proof (rule intact_update)
  have k: "blob_key jid ext = blob_key jid fmt" using assms(3,4) by (simp add: blob_key_def)
  show "intact dg d0 (save_original jid ext bs db)"
    unfolding save_original_def by (rule intact_write [OF assms(1)]) (use assms(2,5) in auto)
  fix r assume r: "r \<in> set (ij_rows (save_original jid ext bs db))" "ij_id r = jid"
  have "upload_ext r = fmt" using assms(5) [of r] r by (simp add: upload_ext_def save_original_def)
  then have o: "original r (save_original jid ext bs db) = Some bs" using r(2) k by (simp add: original_def save_original_def)
  have f: "same_file r (r\<lparr>ij_path := pth, ij_sha := Some (dg bs), ij_status := ''uploaded''\<rparr>)" by (simp add: same_file_def upload_of_def)
  then show "same_file r (r\<lparr>ij_path := pth, ij_sha := Some (dg bs), ij_status := ''uploaded''\<rparr>) \<and> (digest_ok dg (save_original jid ext bs db) r \<longrightarrow>
      digest_ok dg (save_original jid ext bs db) (r\<lparr>ij_path := pth, ij_sha := Some (dg bs), ij_status := ''uploaded''\<rparr>))"
    using digest_same [OF f] o by simp
qed

lemma import_format_ext:
  "import_format name = Inr (ext, fmt) \<Longrightarrow> dropWhile (\<lambda>c. c = CHR ''.'') ext = fmt \<and> dropWhile (\<lambda>c. c = CHR ''.'') fmt = fmt"
  by (auto simp: import_format_def Let_def split: if_splits)

section \<open>Every action keeps it\<close>

lemma removed_clean:
  assumes "intact dg d0 db"
  shows "intact dg d0 (cleanup_import jid (delete_import jid db))"
  by (rule intact_remove [OF assms, of _ "\<lambda>j. ij_id j \<noteq> jid"])
    (auto simp: cleanup_import_def delete_import_def sql_delete_def original_def blob_key_def)

lemma keeps_own: "own_import jid p db = Inr j \<Longrightarrow> j \<in> set (ij_rows db) \<and> ij_id j = jid"
  by (auto simp: own_import_def find_import_def dest!: row_by_Some split: option.splits if_splits)

lemma intact_upload_import: "keeps (intact dg d0) (upload_import cfg dg clk name bs p)"
proof -
  have "intact dg d0 (snd (upload_import cfg dg clk name bs p db))" if i: "intact dg d0 db" for db
  proof (cases "bindE (require_spend_allowed p) (\<lambda>_. import_format name)")
    case (Inl e)
    then show ?thesis using i by (auto simp: upload_import_def bindS_def bindE_def split: sum.splits)
  next
    case (Inr v)
    obtain ext fmt where f: "require_spend_allowed p = Inr ()" "import_format name = Inr (ext, fmt)"
      using Inr by (cases v) (auto simp: bindE_def split: sum.splits)
    obtain jid db1 where c: "create_import clk fmt [] None [] ''receiving'' (Some (user_id p)) db = (Inr jid, db1)"
      by (simp add: create_import_def)
    note new = create_import_run [OF i c]
    have s: "intact dg d0 (update_import clk jid (\<lambda>j. j\<lparr>ij_path := original_path (mc_root cfg) jid ext, ij_sha := Some (dg bs),
        ij_status := ''uploaded''\<rparr>) (save_original jid ext bs db1))"
      by (rule intact_saved [where fmt = fmt]) (use new import_format_ext [OF f(2)] in \<open>auto simp: upload_of_def jget_def\<close>)
    show ?thesis
      using new removed_clean [of dg d0 db1 jid] s by (simp add: upload_import_def bindS_def f c doS_def readS_def)
  qed
  then show ?thesis by (simp add: keeps_def)
qed

lemma intact_upload_init: "keeps (intact dg d0) (upload_init cfg clk name n p)"
proof -
  have "intact dg d0 (snd (upload_init cfg clk name n p db))" if i: "intact dg d0 db" for db
  proof (cases "bindE (require_spend_allowed p) (\<lambda>_. import_format name)")
    case (Inl e)
    then show ?thesis using i by (auto simp: upload_init_def bindS_def bindE_def split: sum.splits)
  next
    case (Inr v)
    obtain ext fmt where f: "require_spend_allowed p = Inr ()" "import_format name = Inr (ext, fmt)"
      using Inr by (cases v) (auto simp: bindE_def split: sum.splits)
    define opts where "opts = [(''upload'', JObj [(''size'', JInt n), (''ext'', JStr (dropWhile (\<lambda>c. c = CHR ''.'') ext))])]"
    obtain jid db1 where c: "create_import clk fmt [] None opts ''receiving'' (Some (user_id p)) db = (Inr jid, db1)"
      by (simp add: create_import_def)
    note new = create_import_run [OF i c]
    have "intact dg d0 (init_upload jid ext db1)"
      unfolding init_upload_def by (auto intro!: intact_write simp: new [THEN conjunct1]) (use new in auto)
    then have "intact dg d0 (update_import clk jid (\<lambda>j. j\<lparr>ij_path := pth\<rparr>) (init_upload jid ext db1))" for pth
      by (rule intact_tame) (simp add: tame_def upload_of_def)
    then show ?thesis using i by (simp add: upload_init_def bindS_def f c [unfolded opts_def] doS_def)
  qed
  then show ?thesis by (simp add: keeps_def)
qed

lemma intact_upload_chunk: "keeps (intact dg d0) (upload_chunk clk jid h bs p)"
proof -
  have "intact dg d0 (snd (upload_chunk clk jid h bs p db))" if i: "intact dg d0 db" for db
  proof (cases "own_import jid p db")
    case (Inl e) then show ?thesis using i by (simp add: upload_chunk_def bindS_def readS_def)
  next
    case (Inr j)
    note own = keeps_own [OF Inr]
    let ?old = "coalesce (blobs db (blob_key jid (upload_ext j))) []"
    have touch: "intact dg d0 (touch_import clk jid db')" if "intact dg d0 db'" for db'
      unfolding touch_import_def by (rule intact_tame [OF that]) (simp add: tame_def)
    have grow: "intact dg d0 (db\<lparr>blobs := (blobs db)(blob_key jid (upload_ext j) \<mapsto> ?old @ bs)\<rparr>)" if "ij_status j = ''receiving''"
    proof (rule intact_write [OF i])
      fix r assume "r \<in> set (ij_rows db)" "ij_id r = jid"
      then have "r = j" using own i by (auto simp: intact_def distinct_map dest: inj_onD)
      then show "ij_sha r = None" using that i own by (auto simp: intact_def digest_ok_def)
    qed simp
    show ?thesis
      using i touch touch [OF grow]
      by (auto simp: upload_chunk_def bindS_def readS_def doS_def Inr write_chunk_def upload_offset_def Let_def split: option.splits)
  qed
  then show ?thesis by (simp add: keeps_def)
qed

lemma intact_upload_complete: "keeps (intact dg d0) (upload_complete dg clk jid p)"
proof -
  have "intact dg d0 (snd (upload_complete dg clk jid p db))" if i: "intact dg d0 db" for db
  proof (cases "own_import jid p db")
    case (Inl e) then show ?thesis using i by (cases "require_spend_allowed p") (simp_all add: upload_complete_def bindS_def readS_def)
  next
    case (Inr j)
    note own = keeps_own [OF Inr]
    let ?f = "\<lambda>r. r\<lparr>ij_sha := Some (dg (coalesce (blobs db (blob_key jid (upload_ext j))) [])), ij_status := ''uploaded'', ij_stage := None\<rparr>"
    have "intact dg d0 (update_import clk jid ?f db)" if n: "upload_offset jid (upload_ext j) db > 0"
    proof (rule intact_update [OF i])
      fix r assume "r \<in> set (ij_rows db)" "ij_id r = jid"
      then have rj: "r = j" using own i by (auto simp: intact_def distinct_map dest: inj_onD)
      have f: "same_file r (?f r)" by (simp add: same_file_def upload_of_def)
      have "map_option dg (original r db) = Some (dg (coalesce (blobs db (blob_key jid (upload_ext j))) []))"
        using n own by (cases "blobs db (blob_key jid (upload_ext j))") (simp_all add: upload_offset_def original_def rj)
      then show "same_file r (?f r) \<and> (digest_ok dg db r \<longrightarrow> digest_ok dg db (?f r))" using f digest_same [OF f] by simp
    qed
    then show ?thesis
      using i by (cases "require_spend_allowed p") (auto simp: upload_complete_def bindS_def readS_def doS_def Inr split: option.splits)
  qed
  then show ?thesis by (simp add: keeps_def)
qed

lemma intact_enqueue:
  assumes "jobj (jget ''upload'' opts) = []"
  shows "keeps (intact dg d0) (enqueue_batch cfg dg clk opts uid fs)"
proof (induction fs)
  case (Cons x fs)
  obtain bs name where x: "x = (bs, name)" by (cases x)
  have "intact dg d0 (snd (enqueue_batch cfg dg clk opts uid (x # fs) db))" if i: "intact dg d0 db" for db
  proof (cases "import_format name")
    case (Inl e) then show ?thesis using i by (simp add: x bindS_def)
  next
    case (Inr v)
    obtain ext fmt where v: "v = (ext, fmt)" by (cases v)
    obtain jid db1 where c: "create_import clk fmt [] None opts ''receiving'' (Some uid) db = (Inr jid, db1)" by (simp add: create_import_def)
    note new = create_import_run [OF i c]
    have s: "intact dg d0 (update_import clk jid (\<lambda>j. j\<lparr>ij_path := original_path (mc_root cfg) jid ext, ij_sha := Some (dg bs),
        ij_status := ''uploaded''\<rparr>) (save_original jid ext bs db1))"
      by (rule intact_saved [where fmt = fmt]) (use new import_format_ext Inr v assms in \<open>auto simp: upload_of_def\<close>)
    define db2 where "db2 = update_import clk jid (\<lambda>j. j\<lparr>ij_path := original_path (mc_root cfg) jid ext, ij_sha := Some (dg bs),
        ij_status := ''uploaded''\<rparr>) (save_original jid ext bs db1)"
    obtain r db3 where e: "enqueue_batch cfg dg clk opts uid fs db2 = (r, db3)" by (cases "enqueue_batch cfg dg clk opts uid fs db2")
    have "intact dg d0 db3" using keepsD [OF Cons, of db2] s e by (simp flip: db2_def)
    then show ?thesis by (cases r) (simp_all add: x bindS_def Inr v c doS_def e flip: db2_def)
  qed
  then show ?case by (simp add: keeps_def)
qed (simp only: enqueue_batch.simps keeps_returnS)

lemma intact_batch: "keeps (intact dg d0) (import_batch cfg dg clk b fs a g p)"
  unfolding import_batch_def by (intro keeps_rules intact_enqueue) (simp add: batch_options_def jget_def)

lemma own_only: "intact dg d0 db \<Longrightarrow> own_import jid p db = Inr j \<Longrightarrow> r \<in> set (ij_rows db) \<Longrightarrow> ij_id r = jid \<Longrightarrow> r = j"
  by (auto simp: intact_def distinct_map dest!: keeps_own dest: inj_onD)

lemma intact_own_update:
  assumes "intact dg d0 db" "own_import jid p db = Inr j"
    and "same_file j (f j)" "ij_sha (f j) = ij_sha j" "ij_status (f j) = ''receiving'' \<longrightarrow> ij_status j = ''receiving''"
  shows "intact dg d0 (update_import clk jid f db)"
proof (rule intact_update [OF assms(1)])
  fix r assume "r \<in> set (ij_rows db)" "ij_id r = jid"
  then have r: "r = j" using own_only [OF assms(1,2)] by blast
  show "same_file r (f r) \<and> (digest_ok dg db r \<longrightarrow> digest_ok dg db (f r))"
    unfolding r using assms(3-5) digest_same [OF assms(3)] by (auto simp: digest_ok_def)
qed

text \<open>What follows the check of the owner, with the row \<open>j\<close> it returned.\<close>

definition from_own :: "(string \<Rightarrow> string) \<Rightarrow> import_db \<Rightarrow> int \<Rightarrow> principal \<Rightarrow> import_job \<Rightarrow> (import_db, 'a) op \<Rightarrow> bool" where
  "from_own dg d0 jid p j m \<longleftrightarrow> (\<forall>db. intact dg d0 db \<longrightarrow> own_import jid p db = Inr j \<longrightarrow> intact dg d0 (snd (m db)))"

named_theorems own_rules \<open>operations on the row of the caller\<close>

lemma keeps_own_import:
  assumes "\<And>j. from_own dg d0 jid p j (f j)"
  shows "keeps (intact dg d0) (bindS (readS (own_import jid p)) f)"
  using assms by (auto simp: keeps_def from_own_def bindS_def readS_def split: sum.splits)

lemma own_raise [own_rules]: "from_own dg d0 jid p j (raiseS e)"
  by (simp add: from_own_def)

lemma own_read [own_rules]: "(\<And>x. from_own dg d0 jid p j (f x)) \<Longrightarrow> from_own dg d0 jid p j (bindS (readS g) f)"
  by (simp add: from_own_def bindS_def readS_def split: sum.splits)

lemma own_lift [own_rules]: "(\<And>x. from_own dg d0 jid p j (f x)) \<Longrightarrow> from_own dg d0 jid p j (bindS (liftS r) f)"
  by (simp add: from_own_def bindS_def split: sum.splits)

lemma own_if [own_rules]: "(c \<Longrightarrow> from_own dg d0 jid p j m) \<Longrightarrow> (\<not> c \<Longrightarrow> from_own dg d0 jid p j n) \<Longrightarrow> from_own dg d0 jid p j (if c then m else n)"
  by simp

lemma own_case_option [own_rules]:
  "(x = None \<Longrightarrow> from_own dg d0 jid p j m) \<Longrightarrow> (\<And>y. x = Some y \<Longrightarrow> from_own dg d0 jid p j (f y)) \<Longrightarrow>
   from_own dg d0 jid p j (case x of None \<Rightarrow> m | Some y \<Rightarrow> f y)"
  by (cases x) simp_all

lemma own_case_list [own_rules]:
  "(x = [] \<Longrightarrow> from_own dg d0 jid p j m) \<Longrightarrow> (\<And>y ys. x = y # ys \<Longrightarrow> from_own dg d0 jid p j (f y ys)) \<Longrightarrow>
   from_own dg d0 jid p j (case x of [] \<Rightarrow> m | y # ys \<Rightarrow> f y ys)"
  by (cases x) simp_all

lemma own_update [own_rules]:
  assumes "same_file j (f j)" "ij_sha (f j) = ij_sha j" "ij_status (f j) = ''receiving'' \<Longrightarrow> ij_status j = ''receiving''"
  shows "from_own dg d0 jid p j (doS (update_import clk jid f))"
  using assms intact_own_update by (simp add: from_own_def doS_def)

lemma intact_update_plan: "keeps (intact dg d0) (update_plan clk jid segs m p)"
  unfolding update_plan_def Let_def
  by (intro keeps_own_import own_rules) (simp_all add: same_file_def upload_of_def)

lemma intact_commit_import: "keeps (intact dg d0) (commit_import_job editable sn clk jid mode n sid off raw v p)"
  unfolding commit_import_job_def Let_def
  by (intro keeps_own_import own_rules) (simp_all add: same_file_def upload_of_def split: option.split)

lemma intact_cancel: "keeps (intact dg d0) (cancel_import clk jid p)"
  unfolding cancel_import_def by (intro keeps_own_import own_rules) (simp_all add: same_file_def upload_of_def)

lemma intact_remove_import: "keeps (intact dg d0) (remove_import jid p)"
  unfolding remove_import_def by (intro keeps_rules keeps_readS keeps_doS removed_clean)

lemma intact_claim: "keeps (intact dg d0) (claim_import clk w)"
proof -
  have "tame (\<lambda>r. r\<lparr>ij_status := marker (ij_status r), ij_stage := Some ''claimed'', ij_token := Some w, ij_claimed_at := Some (now clk)\<rparr>)"
    by (simp add: tame_def upload_of_def marker_def)
  then show ?thesis by (auto simp: keeps_def claim_import_def Let_def intact_tame split: option.splits)
qed

lemma intact_sql_update:
  assumes "intact dg d0 db" "tame f"
  shows "intact dg d0 (db\<lparr>ij_rows := sql_update p f (ij_rows db)\<rparr>)"
proof (rule intact_map [OF assms(1)])
  show "ij_rows (db\<lparr>ij_rows := sql_update p f (ij_rows db)\<rparr>) = map (\<lambda>r. if p r then f r else r) (ij_rows db)" by (simp add: sql_update_def)
  fix r assume "r \<in> set (ij_rows db)"
  have f: "same_file r (f r)" using assms(2) by (simp add: tame_def same_file_def)
  show "same_file r (if p r then f r else r)" using f by simp
  show "digest_ok dg db (if p r then f r else r)" if "digest_ok dg db r"
    using that digest_same [OF f] assms(2) by (auto simp: tame_def digest_ok_def)
qed simp_all

lemma intact_renew: "intact dg d0 db \<Longrightarrow> intact dg d0 (renew_import_lease clk jid t db)"
  unfolding renew_import_lease_def by (rule intact_sql_update) (simp_all add: tame_def upload_of_def)

lemma intact_recover: "intact dg d0 db \<Longrightarrow> intact dg d0 (recover_imports clk lease db)"
proof -
  have "intact dg d0 (recover_import_leases clk ms t lease db)" if "intact dg d0 db" "t \<noteq> ''receiving''" for ms t db
    unfolding recover_import_leases_def by (rule intact_sql_update [OF that(1)]) (use that(2) in \<open>simp add: tame_def upload_of_def\<close>)
  then show "intact dg d0 db \<Longrightarrow> ?thesis" by (simp add: recover_imports_def MARKER_RESUME_def)
qed

lemma intact_resume: "intact dg d0 db \<Longrightarrow> intact dg d0 (reactivate_paused db)"
  unfolding reactivate_paused_def by (rule intact_sql_update) (simp_all add: tame_def upload_of_def)

lemma intact_sweep: "intact dg d0 db \<Longrightarrow> intact dg d0 (cleanup_stale_uploads clk ttl db)"
proof -
  have one: "intact dg d0 (sweep_upload clk ttl jid db)" if i: "intact dg d0 db" for jid db
  proof (cases "\<exists>j \<in> set (ij_rows db). ij_id j = jid \<and> stale_upload clk ttl j")
    case True
    then obtain j where j: "j \<in> set (ij_rows db)" "ij_id j = jid" "stale_upload clk ttl j" by blast
    have only: "r = j" if "r \<in> set (ij_rows db)" "ij_id r = jid" for r
      using that j i by (auto simp: intact_def distinct_map dest: inj_onD)
    have other: "ij_id r \<noteq> jid" if "r \<in> set (ij_rows db)" "\<not> (ij_id r = jid \<and> stale_upload clk ttl r)" for r
      using only [OF that(1)] that(2) j by blast
    have "intact dg d0 (cleanup_import jid (db\<lparr>ij_rows := sql_delete (\<lambda>j. ij_id j = jid \<and> stale_upload clk ttl j) (ij_rows db)\<rparr>))"
      by (rule intact_remove [OF i, of _ "\<lambda>j. \<not> (ij_id j = jid \<and> stale_upload clk ttl j)"])
        (use other in \<open>auto simp: cleanup_import_def sql_delete_def original_def blob_key_def\<close>)
    then show ?thesis using True by (simp add: sweep_upload_def)
  next
    case False
    then have "sweep_upload clk ttl jid db = db" unfolding sweep_upload_def by (rule if_not_P)
    then show ?thesis using i by simp
  qed
  have "intact dg d0 (fold (sweep_upload clk ttl) js db)" if "intact dg d0 db" for js db
    using that by (induction js arbitrary: db) (simp_all add: one)
  then show "intact dg d0 db \<Longrightarrow> ?thesis" by (simp add: cleanup_stale_uploads_def)
qed

lemma intact_confirm: "intact dg d0 (aq_jobs s) \<Longrightarrow> intact dg d0 (aq_jobs (confirm_pages clk jid g p s))"
proof -
  assume i: "intact dg d0 (aq_jobs s)"
  have "intact dg d0 (update_import clk jid (\<lambda>r. r\<lparr>ij_options := jset ''gemini_first'' (JBool g) (ij_options j),
      ij_status := ''ocr_pending'', ij_stage := Some ''OCR queued'', ij_error := None\<rparr>) (aq_jobs s))" if "own_import jid p (aq_jobs s) = Inr j" for j
    by (rule intact_own_update [OF i that]) (simp_all add: same_file_def upload_of_def)
  then show ?thesis
    using i by (auto simp: confirm_pages_def confirm_ocr_def Let_def bindE_def split: sum.splits)
qed

lemma table_service_series: "finalized P \<Longrightarrow> keeps (on_table P) (service_commit_series ce jids p target)"
  unfolding service_commit_series_def by (intro keeps_rules keeps_readS table_commit_series) (auto simp: keeps_def split: py_error.splits)

text \<open>A worker holds the job as it was claimed: its upload is that of the row, whatever else has changed since.\<close>

definition fits :: "import_db \<Rightarrow> import_job \<Rightarrow> bool" where
  "fits db j \<longleftrightarrow> ij_id j < ij_next db \<and> (\<forall>r \<in> set (ij_rows db). ij_id r = ij_id j \<longrightarrow> upload_of r = upload_of j)"

lemma kept_refl: "r \<in> set (ij_rows db) \<Longrightarrow> kept_file db db r"
  unfolding kept_file_def by (rule bexI [of _ r]) auto

lemma intact_refl: "intact dg d0 db \<Longrightarrow> intact dg db db"
  by (simp add: intact_def kept_refl)

lemma fits_step:
  assumes "intact dg db db'" "fits db j"
  shows "fits db' j"
  using assms unfolding intact_def fits_def kept_file_def same_file_def by fastforce

lemma intact_process:
  assumes "intact dg d0 (aq_jobs s)" "fits (aq_jobs s) j"
  shows "intact dg d0 (aq_jobs (snd (process_import ie j s)))"
proof -
  let ?P = "\<lambda>db. intact dg d0 db \<and> fits db j"
  have w: "worker_inv ?P"
    unfolding worker_inv_def
  proof (intro conjI allI impI)
    fix clk jid f db assume "tame f" "?P db"
    then show "intact dg d0 (update_import clk jid f db)" "fits (update_import clk jid f db) j"
      using intact_tame fits_step [OF intact_tame [OF intact_refl]] by blast+
  qed (auto simp: intact_docs fits_def)
  have snap: "keeps_snapshot ?P j"
    unfolding keeps_snapshot_def
  proof (intro allI impI)
    fix clk db assume p: "?P db"
    have u: "intact dg d1 (update_import clk (ij_id j) (\<lambda>r. r\<lparr>ij_options := jset ''is_raw'' (JBool True) (ij_options j)\<rparr>) db)"
      if "intact dg d1 db" for d1
    proof (rule intact_update [OF that])
      fix r assume "r \<in> set (ij_rows db)" "ij_id r = ij_id j"
      then have f: "same_file r (r\<lparr>ij_options := jset ''is_raw'' (JBool True) (ij_options j)\<rparr>)"
        using p by (simp add: fits_def same_file_def upload_of_def)
      show "same_file r (r\<lparr>ij_options := jset ''is_raw'' (JBool True) (ij_options j)\<rparr>) \<and>
          (digest_ok dg db r \<longrightarrow> digest_ok dg db (r\<lparr>ij_options := jset ''is_raw'' (JBool True) (ij_options j)\<rparr>))"
        using f by (simp add: digest_ok_def original_same [OF f])
    qed
    show "?P (update_import clk (ij_id j) (\<lambda>r. r\<lparr>ij_options := jset ''is_raw'' (JBool True) (ij_options j)\<rparr>) db)"
      using u [of d0] u [OF intact_refl] fits_step p by blast
  qed
  show ?thesis using keepsD [OF table_process [OF w snap], of s] assms by (simp add: on_table_def)
qed

section \<open>The run\<close>

definition run_ok :: "(string \<Rightarrow> string) \<Rightarrow> import_db \<Rightarrow> import_run \<Rightarrow> bool" where
  "run_ok dg d0 x \<longleftrightarrow> intact dg d0 (aq_jobs (fst x)) \<and> (\<forall>j \<in> set (snd x). fits (aq_jobs (fst x)) j)"

lemma intact_step:
  assumes "intact dg d0 (aq_jobs s)" "\<forall>j \<in> set held. fits (aq_jobs s) j"
  shows "intact dg d0 (aq_jobs (fst (import_step cfg dg a (s, held))))"
proof (cases a)
  case (Process_job ie i)
  then show ?thesis using assms intact_process [OF assms(1), of "held ! i"] by (simp add: nth_mem)
next
  case (Request_series ce jids p target)
  have "finalized (intact dg d0)" using intact_worker worker_inv_ending ending_inv_finalized by blast
  then show ?thesis
    using keepsD [OF table_service_series, of "intact dg d0" s] assms(1) by (simp add: Request_series on_table_def)
next
  case (Resume_paused ie)
  then show ?thesis
    using assms(1) intact_resume by (auto simp: reactivate_imports_def bindS_def on_jobs_def doS_def split: sum.splits)
qed (use assms(1) in \<open>simp_all add: on_imports_def intact_confirm intact_renew intact_recover intact_sweep
    keepsD [OF intact_upload_import] keepsD [OF intact_upload_init] keepsD [OF intact_upload_chunk] keepsD [OF intact_upload_complete]
    keepsD [OF intact_batch] keepsD [OF intact_update_plan] keepsD [OF intact_commit_import] keepsD [OF intact_cancel]
    keepsD [OF intact_remove_import] keepsD [OF intact_claim]\<close>)

lemma held_step:
  assumes "intact dg d0 (aq_jobs s)" "\<forall>j \<in> set held. fits (aq_jobs s) j"
  shows "\<forall>j \<in> set (snd (import_step cfg dg a (s, held))). fits (aq_jobs (fst (import_step cfg dg a (s, held)))) j"
proof -
  have kept: "fits (aq_jobs (fst (import_step cfg dg a (s, held)))) j" if "j \<in> set held" for j
    using fits_step [OF intact_step [OF intact_refl [OF assms(1)] assms(2)]] assms(2) that by blast
  have claimed: "fits (snd (claim_import clk w (aq_jobs s))) j" if c: "fst (claim_import clk w (aq_jobs s)) = Inr (Some j)" for clk w j
  proof -
    have i: "intact dg d0 (snd (claim_import clk w (aq_jobs s)))" by (rule keepsD [OF intact_claim assms(1)])
    obtain k where k: "find_import k (snd (claim_import clk w (aq_jobs s))) = Some j"
      using c by (auto simp: claim_import_def Let_def split: option.splits)
    then have j: "j \<in> set (ij_rows (snd (claim_import clk w (aq_jobs s))))" by (auto simp: find_import_def dest!: row_by_Some)
    have "r = j" if "r \<in> set (ij_rows (snd (claim_import clk w (aq_jobs s))))" "ij_id r = ij_id j" for r
      using i j that by (auto simp: intact_def distinct_map dest: inj_onD)
    then show ?thesis using i j unfolding fits_def intact_def by blast
  qed
  show ?thesis
  proof (cases a)
    case (Claim_job clk w)
    then show ?thesis using kept claimed by (auto simp: on_imports_def split: sum.splits option.splits)
  next
    case (Process_job ie i)
    then show ?thesis using kept by (auto dest: in_set_takeD in_set_dropD)
  qed (use kept in simp_all)
qed

lemma slice_prefix: "take (length bs) (drop k b) = bs \<Longrightarrow> take (length bs) (drop k (b @ c)) = bs"
proof -
  assume t: "take (length bs) (drop k b) = bs"
  have "min (length bs) (length b - k) = length bs" using arg_cong [OF t, of length] by (simp add: min.commute)
  then have "length bs \<le> length b - k" by (simp only: min.absorb_iff1)
  then show ?thesis using t by (cases "bs = []") auto
qed

lemma run_ok_runs: "run_ok dg d0 x \<Longrightarrow> run_ok dg d0 (import_runs cfg dg as x)"
proof (induction as arbitrary: x)
  case (Cons a as)
  obtain s held where x: "x = (s, held)" by (cases x)
  have "run_ok dg d0 (import_step cfg dg a x)"
    using Cons.prems intact_step [of dg d0 s held cfg a] held_step [of dg d0 s held cfg a] by (simp add: run_ok_def x)
  from Cons.IH [OF this] show ?case by (simp add: import_runs_def)
qed (simp add: import_runs_def)

text \<open>An acknowledged chunk is at its offset.\<close>

lemma chunk_stored:
  assumes "upload_chunk clk jid h bs p db = (Inr n, db')" "int_of_str h = Some k"
  shows "\<exists>j b. j \<in> set (ij_rows db') \<and> ij_id j = jid \<and> original j db' = Some b \<and> take (length bs) (drop (nat k) b) = bs \<and> length b = n"
proof -
  obtain j where j: "own_import jid p db = Inr j" using assms(1) by (auto simp: upload_chunk_def bindS_def readS_def split: sum.splits)
  let ?old = "coalesce (blobs db (blob_key jid (upload_ext j))) []"
  have "\<exists>b. blobs db' (blob_key jid (upload_ext j)) = Some b \<and> take (length bs) (drop (nat k) b) = bs \<and> length b = n"
  proof (cases "nat k + length bs \<le> length ?old")
    case True
    have "bs \<noteq> []" using assms by (auto simp: upload_chunk_def bindS_def readS_def j split: if_splits)
    then have o: "blobs db (blob_key jid (upload_ext j)) = Some ?old" using True by (cases "blobs db (blob_key jid (upload_ext j))") auto
    then show ?thesis
      using assms True by (auto simp: upload_chunk_def bindS_def readS_def doS_def j upload_offset_def chunk_matches_def touch_import_def
          update_import_def split: if_splits)
  next
    case False
    then show ?thesis
      using assms by (auto simp: upload_chunk_def bindS_def readS_def doS_def j upload_offset_def write_chunk_def touch_import_def
          update_import_def Let_def split: if_splits)
  qed
  moreover have "\<exists>j' \<in> set (ij_rows db'). same_file j j'"
  proof -
    obtain x where x: "db' = touch_import clk jid (db\<lparr>blobs := x\<rparr>)"
      using assms by (auto simp: upload_chunk_def bindS_def readS_def doS_def j write_chunk_def touch_import_def update_import_def Let_def split: if_splits
          intro: that [of "blobs db"])
    have "j\<lparr>ij_updated_at := now clk\<rparr> \<in> set (ij_rows db')"
      using keeps_own [OF j] by (force simp: x touch_import_def update_import_def sql_update_def)
    then show ?thesis by (auto intro!: bexI [of _ "j\<lparr>ij_updated_at := now clk\<rparr>"] same_touched)
  qed
  ultimately obtain b j' where "j' \<in> set (ij_rows db')" "same_file j j'" "blobs db' (blob_key jid (upload_ext j)) = Some b"
    "take (length bs) (drop (nat k) b) = bs" "length b = n" by blast
  then show ?thesis
    using keeps_own [OF j] original_same [of j j' db'] by (auto simp: same_file_def original_def intro!: exI [of _ j'] exI [of _ b])
qed

text \<open>
  C17: No acknowledged byte of an upload is lost, and a digest is that of the file. Start from a table without jobs and run any sequence of
  actions: uploads in one request or in chunks, batches, edits of plans, commits, confirmations of OCR, cancellations, removals, claims,
  processing of claimed jobs with whatever the parsers and providers do, renewed and recovered leases, resumed jobs, sweeps of abandoned
  uploads. If a chunk is then acknowledged and any further actions run, then as long as the job exists its file holds the chunk at its
  offset, and the digest of the job, once it has one, is the digest of the bytes of the file.
\<close>
theorem uploads_intact:
  assumes "ij_rows (aq_jobs s0) = []" "import_runs cfg dg as (s0, []) = (s, held)"
    and "upload_chunk clk jid h bs p (aq_jobs s) = (Inr n, db)" "int_of_str h = Some k"
    and "import_runs cfg dg cs (s\<lparr>aq_jobs := db\<rparr>, held) = (s', held')" "find_import jid (aq_jobs s') = Some r"
  shows "\<exists>b. original r (aq_jobs s') = Some b \<and> n \<le> length b \<and> take (length bs) (drop (nat k) b) = bs \<and> ij_sha r \<in> {None, Some (dg b)}"
proof -
  have "run_ok dg (aq_jobs s0) (s0, [])" using assms(1) by (simp add: run_ok_def intact_def)
  then have s: "run_ok dg (aq_jobs s0) (s, held)" using run_ok_runs [of dg _ _ cfg as] assms(2) by metis
  have step: "import_step cfg dg (Send_chunk clk jid h bs p) (s, held) = (s\<lparr>aq_jobs := db\<rparr>, held)" using assms(3) by (simp add: on_imports_def)
  have "run_ok dg (aq_jobs s0) (s\<lparr>aq_jobs := db\<rparr>, held)" using run_ok_runs [OF s, of cfg "[Send_chunk clk jid h bs p]"] step by (simp add: import_runs_def)
  then have "run_ok dg db (s\<lparr>aq_jobs := db\<rparr>, held)" using intact_refl by (auto simp: run_ok_def)
  then have end_ok: "intact dg db (aq_jobs s')" using run_ok_runs [of dg db _ cfg cs] assms(5) by (metis fst_conv run_ok_def)
  obtain j b0 where j: "j \<in> set (ij_rows db)" "ij_id j = jid"
    and b0: "original j db = Some b0" "take (length bs) (drop (nat k) b0) = bs" "length b0 = n"
    using chunk_stored [OF assms(3,4)] by blast
  have r: "r \<in> set (ij_rows (aq_jobs s'))" "ij_id r = jid" using assms(6) by (auto simp: find_import_def dest!: row_by_Some)
  have db_ok: "intact dg db db" using \<open>run_ok dg db (s\<lparr>aq_jobs := db\<rparr>, held)\<close> by (simp add: run_ok_def)
  have "ij_id r < ij_next db" using db_ok j r(2) by (auto simp: intact_def)
  then have "kept_file db (aq_jobs s') r" using end_ok r(1) by (simp add: intact_def)
  then obtain r0 where r0: "r0 \<in> set (ij_rows db)" "same_file r0 r" "\<forall>b0. original r0 db = Some b0 \<longrightarrow> (\<exists>b. original r (aq_jobs s') = Some b \<and> prefix b0 b)"
    unfolding kept_file_def by blast
  have "r0 = j" using db_ok j r0(1,2) r(2) by (auto simp: intact_def same_file_def distinct_map dest: inj_onD)
  then obtain b where b: "original r (aq_jobs s') = Some b" "prefix b0 b" using r0(3) b0(1) by blast
  have "digest_ok dg (aq_jobs s') r" using end_ok r(1) by (simp add: intact_def)
  then have "ij_sha r \<in> {None, Some (dg b)}" using b(1) by (cases "ij_sha r") (auto simp: digest_ok_def)
  moreover have "n \<le> length b" "take (length bs) (drop (nat k) b) = bs" using b(2) b0(3) slice_prefix [OF b0(2)] by (auto simp only: prefix_def length_append)
  ultimately show ?thesis using b(1) by blast
qed

section \<open>A concrete run\<close>

definition demo_config :: import_config where
  "demo_config = \<lparr>mc_root = ''/data'', mc_upload_bytes = 100, mc_upload_mb = 1, mc_chunked_bytes = 100, mc_chunked_mb = 1\<rparr>"

definition demo_empty :: acq_state where
  "demo_empty = demo_import_state\<lparr>aq_jobs := \<lparr>ij_rows = [], ij_next = 1, blobs = Map.empty, docs = Map.empty, staged_images = Map.empty\<rparr>\<rparr>"

definition demo_opened :: import_run where
  "demo_opened = import_runs demo_config (\<lambda>b. ''#'' @ b) [Open_upload demo_now ''a.epub'' 5 demo_user] (demo_empty, [])"

definition demo_rest :: "import_action list" where
  "demo_rest = [Send_chunk demo_now 1 ''3'' ''45'' demo_user, Close_upload demo_now 1 demo_user, Claim_job demo_now ''w1'',
     Process_job demo_import_env 0]"

lemma demo_chunk_run: "fst (upload_chunk demo_now 1 ''0'' ''123'' demo_user (aq_jobs (fst demo_opened))) = Inr 3"
  by code_simp

lemma demo_rest_run:
  "map_option ij_sha (find_import 1 (aq_jobs (fst (import_runs demo_config (\<lambda>b. ''#'' @ b) demo_rest
     ((fst demo_opened)\<lparr>aq_jobs := snd (upload_chunk demo_now 1 ''0'' ''123'' demo_user (aq_jobs (fst demo_opened)))\<rparr>, snd demo_opened))))) =
   Some (Some ''#12345'')"
  by code_simp

theorem uploads_intact_witness:
  "\<exists>r b. find_import 1 (aq_jobs (fst (import_runs demo_config (\<lambda>b. ''#'' @ b) demo_rest
     ((fst demo_opened)\<lparr>aq_jobs := snd (upload_chunk demo_now 1 ''0'' ''123'' demo_user (aq_jobs (fst demo_opened)))\<rparr>, snd demo_opened)))) = Some r \<and>
     take 3 b = ''123'' \<and> ij_sha r = Some (''#'' @ b)"
proof -
  let ?db = "snd (upload_chunk demo_now 1 ''0'' ''123'' demo_user (aq_jobs (fst demo_opened)))"
  let ?x = "import_runs demo_config (\<lambda>b. ''#'' @ b) demo_rest ((fst demo_opened)\<lparr>aq_jobs := ?db\<rparr>, snd demo_opened)"
  have empty: "ij_rows (aq_jobs demo_empty) = []" by (simp add: demo_empty_def)
  have run: "import_runs demo_config (\<lambda>b. ''#'' @ b) [Open_upload demo_now ''a.epub'' 5 demo_user] (demo_empty, []) = (fst demo_opened, snd demo_opened)"
    unfolding demo_opened_def by (rule prod.collapse [symmetric])
  have sent: "upload_chunk demo_now 1 ''0'' ''123'' demo_user (aq_jobs (fst demo_opened)) = (Inr 3, ?db)"
    using demo_chunk_run by (simp add: prod_eq_iff)
  have zero: "int_of_str ''0'' = Some 0" by code_simp
  have rest: "?x = (fst ?x, snd ?x)" by simp
  obtain r where r: "find_import 1 (aq_jobs (fst ?x)) = Some r" "ij_sha r = Some ''#12345''"
    using demo_rest_run by (cases "find_import 1 (aq_jobs (fst ?x))") simp_all
  have "\<exists>b. original r (aq_jobs (fst ?x)) = Some b \<and> 3 \<le> length b \<and> take (length ''123'') (drop (nat 0) b) = ''123'' \<and>
      ij_sha r \<in> {None, Some (''#'' @ b)}"
    by (rule uploads_intact [OF empty run sent zero rest r(1)])
  then show ?thesis using r by auto
qed

end
