(* ===== verification/Spec2Isabelle.thy ===== *)
theory Spec2Isabelle
  imports Work_Process Reading_Merge Translation_Schedule Codex_Retrieval Ai_Worker Codex_Context_Fit Codex_Context_Past Codex_Grounding_Safe Acquisition_Commit_Safe Acquisition_Uploads
begin

text \<open>
  A verification development of the Reading Wiki backend, a multi-user platform for web novels (\<open>src/novelwiki\<close>).

  \<^bold>\<open>The program.\<close> One web process, its workers and one PostgreSQL database, cut into modules that each own their tables. A
  \<^emph>\<open>catalog\<close> of novels says who may read and edit what; \<^emph>\<open>reading\<close> serves chapters, keeps progress and bookmarks, per-reader overlays and
  contributions, and derives from the chapters it has served the \<^emph>\<open>trusted ceiling\<close> of a reader. Everything the \<^emph>\<open>codex\<close> (a
  knowledge base extracted from the chapters) shows is bounded by that ceiling: this is the invariant the program is built around. Long
  tasks (translation batches, codex builds) are durable jobs of the \<^emph>\<open>work\<close> module, claimed under leases by API workers or by
  subscription workers of \<^emph>\<open>AI execution\<close>, which an administrator has to grant; they hold a reservation of the monthly quota of
  \<^emph>\<open>identity\<close>, settled exactly once. \<^emph>\<open>Workflows\<close> coordinate the writes that cross modules in one transaction.

  \<^bold>\<open>How the code is modelled.\<close> A module's tables are lists of rows (records with the columns the code reads) in a record of its state;
  an SQL statement is a function on the lists (\<open>sql_update\<close>, \<open>sql_delete\<close>, \<open>sql_first\<close>, \<open>row_by\<close> of Prelude), its ORDER BY a
  \<open>sort_key\<close> and its LIMIT a \<open>take\<close>. A method is an operation of type \<open>('s, 'a) op = 's \<Rightarrow> ('a result \<times> 's)\<close>: it returns a value or an error
  (\<open>py_error\<close>, one constructor per exception the code raises) together with the new state, so that writes before a raise remain
  unless \<open>atomicS\<close>, a transaction, undoes them; \<open>bindS\<close> composes in the order of the code. Chapter numbers and scores are exact
  rationals; identifiers and SQL integers are unbounded except where overflow is the point (\<open>int4\<close> in the retry delay). Python floats
  with NaN and infinities are a datatype. Strings are lists of code points below 256. Interleavings of concurrent requests are lists of
  actions over the shared state, one action per transaction; the scheduling of a batch, whose awaits others can come between, is
  also a state machine of one step per await (\<open>schedule_step\<close>, \<open>interleaved\<close>), which undisturbed is the operation
  (\<open>schedule_batch_steps\<close>).

  \<^bold>\<open>Theories and sources\<close> (paths under \<open>src/novelwiki\<close>).
  \<^item> Prelude: \<open>kernel/errors.py\<close>, operations over a store, tables, Python values; the collections \<open>sql\<close>, \<open>py\<close>, \<open>keeps_rules\<close>.
  \<^item> Identity_Quota: \<open>modules/identity\<close> (\<open>application/quota.py\<close>, \<open>postgres_quota.py\<close>, \<open>domain/policies.py\<close>). The locale
    \<open>quota_store\<close> is what the service asks of a store; it is interpreted on the repository.
  \<^item> Work_Store, Work_Lifecycle, Work_Worker, Work_Process, Work_Runs, Work_Refunds: \<open>modules/work\<close> (creation, claims, retries, leases,
    settlement, the worker and the service) and \<open>workflows/finalize_job_quota.py\<close>. \<open>lease_store\<close> is the contract of lease recovery.
  \<^item> Catalog_Access: \<open>modules/catalog\<close> (access rules, shelves, tags); \<open>catalog_access\<close> is what other modules rely on.
  \<^item> Reading_Store, Reading_Service, Reading_Content, Reading_Translation, Reading_Runs, Reading_Ceiling, Reading_Merge: \<open>modules/reading\<close>.
    \<open>reading_access\<close> is its view of the catalog.
  \<^item> Translation_Glossary, Translation_Flow, Translation_Schedule: \<open>modules/translation\<close>, \<open>workflows/commit_translation.py\<close>,
    \<open>workflows/schedule_ai_job.py\<close>.
  \<^item> Ai_Backend, Ai_Policy, Ai_Worker: \<open>modules/ai_execution\<close>, the grants and the subscription worker; \<open>worker_contract\<close> is what the
    worker relies on in its operations, interpreted on their wiring to the work, catalog and policy stores.
  \<^item> Codex_Chunk, Codex_Store: \<open>modules/codex/adapters/outbound/ingest/chunk.py\<close>. Codex_Retrieval: \<open>retrieval/bm25.py\<close>, \<open>dense.py\<close>,
    \<open>fuse.py\<close>, \<open>rerank.py\<close>, passages of \<open>tools.py\<close>. Codex_Memory: the knowledge tables and the current-state projections of
    \<open>context.py\<close>. Codex_Personas: the structured tools of \<open>tools.py\<close>. Codex_Entities: \<open>ingest/link.py\<close>, \<open>cache.py\<close>, the surface
    policy of \<open>ai_execution/application/contracts.py\<close>. Codex_Extraction: the commit of \<open>ingest/extract.py\<close> under
    \<open>workflows/commit_codex_extraction.py\<close>. Codex_Grounding, Codex_Grounding_Safe: its gate, the evidence anchors, quarantine and repair.
    Codex_Context, Codex_Context_Fit, Codex_Context_Past: the context of a chapter built by \<open>context.py\<close>, its budget, its stability.
  \<^item> Acquisition_Document: \<open>modules/acquisition\<close> (\<open>domain/document.py\<close>, \<open>application/render.py\<close>). Acquisition_Imports: the table of
    import jobs, uploads and the service (\<open>application/imports.py\<close>, \<open>worker_jobs.py\<close>, \<open>importer/storage.py\<close>). Acquisition_Commit,
    Acquisition_Commit_Safe: \<open>importer/commit.py\<close> over the stores of catalog, reading and codex. Acquisition_Worker:
    \<open>application/import_worker.py\<close>. Acquisition_Runs, Acquisition_Uploads: every interleaving of requests, workers and maintenance.

  \<^bold>\<open>What the lemmas show.\<close> Work: the store invariant is kept by every operation; under every interleaving a job's history is monotone,
  refunds never exceed what was reserved, claims are exclusive, recovery settles every stale job, every claimed job is resolved whatever
  its handler does (but for the overflow of the back-off from 29 attempts on). Reading: under every interleaving a reader's ceiling is
  bounded by the present number of a chapter served (renumbering a source moves both), no change of a base text escapes an overlay as
  long as its chapter is neither removed nor renumbered, one translation of a snapshot wins. Translation: commits are atomic over three modules, a unit is charged exactly for a
  fresh result, scheduling leaks no reservation whatever runs between its awaits. AI execution: no subscription job runs without a live grant, and revocation reaches every job. Codex:
  chunking terminates and refines a replacement of texts; the cached lexical index answers like a fresh one; passages found at a ceiling
  are stored ones up to it, for any vector index; with an exact scan the passages, and in any case profiles, relationships,
  identities, timelines and listings, are functions of the rows visible there; the state of an entity is what
  its log of transitions last asserted; the recursive query of personas computes the closure of the visible links; merging loses nothing,
  and reveals nothing early when the kept entity is the earlier one; a commit of an extraction changes nothing below its chapter,
  keeps ids below their sequences and transitions timely, and is made once; what it stores is anchored in the cited chunks of the chapter; the context of a chapter fits its
  budget, keeps the entities the chapter names (up to the limit of the candidate query) and, in a timely knowledge base, is not changed by commits of the chapter or of later ones. Acquisition: an import writes
  exactly the reviewed plan, a series is numbered without gaps, every claimed import job is resolved whatever its stages raise, and no
  acknowledged byte of an upload is lost under any interleaving. A few theorems state behaviour that surprises (the manifest lists them as findings).

  \<^bold>\<open>Loops and fuel.\<close> \<open>chunk_loop\<close>, whose termination depends on the tokenizer, is a partial function in the option monad; that it
  returns for every tokenizer that counts non-empty text as positive is proved. The evaluation of the recursive query (\<open>cte_loop\<close>) and the
  scanners of words terminate by measures. No definition uses fuel.

  \<^bold>\<open>Parameters.\<close> The language models, the embedding model, pgvector's distance and the rows a vector index
  delivers (\<open>sc_scan\<close>, \<open>lc_reached\<close>: all of them for a raw scan, some for an HNSW index), trigram similarity, bm25s, the tokenizer, hash
  functions, the clock and the provider processes are arguments; hypotheses on them are named in the theorems (a deterministic hash,
  positive token counts).

  \<^bold>\<open>Not modelled.\<close> HTTP routes, the command line and the composition root (they parse, delegate and wire); sessions, OAuth, e-mail and rate
  limits of identity; scraping, parsing, clean-up, segmentation and OCR of acquisition (network, files, third-party parsers, heuristics over
  text, taken as arguments); narration (audio over a queue like that of the imports); provider processes, workspaces and sandboxes of AI
  execution; illustrations; the validators, prompts and model calls around an extraction; projections that only read; audit, logging, metrics, migrations and tests. In-process locks, polling loops
  and heartbeats have no counterpart: transactions are atomic steps.
\<close>

end
